(* ===== verification/Prelude.thy ===== *)
theory Prelude
  imports Main "HOL-Library.Word" "HOL-Library.Char_ord" "HOL-Library.List_Lexorder"
    "HOL-Library.Product_Lexorder" "HOL-Library.Sublist"
begin

section \<open>Shared vocabulary of the model\<close>

text \<open>
  What every component of the model uses: fallible results as sums (\<open>Inl\<close> is Rust's \<open>Err\<close>,
  \<open>Inr\<close> is \<open>Ok\<close>), Rust's checked arithmetic on machine words, Rust strings as lists of UTF-8
  bytes with \<open>str::trim\<close>, tables of rows with SQL-style updates, and one locale that lifts a
  one-step invariant to every run of a component.
\<close>

named_theorems result_simps \<open>facts that take fallible pipelines apart\<close>
named_theorems checked_simps \<open>checked word arithmetic read through \<open>unat\<close>\<close>
named_theorems table_simps \<open>facts about rows, updates and counts\<close>

type_synonym u8 = "8 word"
type_synonym u16 = "16 word"
type_synonym u32 = "32 word"
type_synonym u64 = "64 word"
type_synonym usize = "64 word"
type_synonym i64 = int
type_synonym bytes = "8 word list"

subsection \<open>Fallible results\<close>

fun and_then :: "'e + 'a \<Rightarrow> ('a \<Rightarrow> 'e + 'b) \<Rightarrow> 'e + 'b" where
  "and_then (Inl e) f = Inl e"
| "and_then (Inr x) f = f x"

definition ok_or :: "'e \<Rightarrow> 'a option \<Rightarrow> 'e + 'a" where
  "ok_or e x = (case x of None \<Rightarrow> Inl e | Some y \<Rightarrow> Inr y)"

definition map_err :: "('e \<Rightarrow> 'f) \<Rightarrow> 'e + 'a \<Rightarrow> 'f + 'a" where
  "map_err g r = (case r of Inl e \<Rightarrow> Inl (g e) | Inr x \<Rightarrow> Inr x)"

text \<open>Rust's \<open>iter().map(f).collect::<Result<Vec<_>, _>>()\<close>: stops at the first error.\<close>

fun collect_results :: "('a \<Rightarrow> 'e + 'b) \<Rightarrow> 'a list \<Rightarrow> 'e + 'b list" where
  "collect_results f [] = Inr []"
| "collect_results f (x # xs) =
     and_then (f x) (\<lambda>y. and_then (collect_results f xs) (\<lambda>ys. Inr (y # ys)))"

lemma and_then_Inr_iff [result_simps]:
  "and_then r f = Inr y \<longleftrightarrow> (\<exists>x. r = Inr x \<and> f x = Inr y)"
  by (cases r) auto

lemma and_then_Inl_iff [result_simps]:
  "and_then r f = Inl e \<longleftrightarrow> r = Inl e \<or> (\<exists>x. r = Inr x \<and> f x = Inl e)"
  by (cases r) auto

lemma and_then_cong [fundef_cong]:
  "r = r' \<Longrightarrow> (\<And>x. r' = Inr x \<Longrightarrow> f x = g x) \<Longrightarrow> and_then r f = and_then r' g"
  by (cases r') auto

lemma ok_or_Inr_iff [result_simps]: "ok_or e x = Inr y \<longleftrightarrow> x = Some y"
  by (cases x) (auto simp: ok_or_def)

lemma ok_or_Inl_iff [result_simps]: "ok_or e x = Inl e' \<longleftrightarrow> x = None \<and> e' = e"
  by (cases x) (auto simp: ok_or_def)

lemma ok_or_simps [simp]: "ok_or e None = Inl e" "ok_or e (Some x) = Inr x"
  by (simp_all add: ok_or_def)

lemma map_err_simps [simp]: "map_err g (Inl e) = Inl (g e)" "map_err g (Inr x) = Inr x"
  by (simp_all add: map_err_def)

lemma map_err_Inr_iff [result_simps]: "map_err g r = Inr x \<longleftrightarrow> r = Inr x"
  by (cases r) auto

lemma collect_results_Inr_iff:
  "collect_results f xs = Inr ys \<longleftrightarrow> list_all2 (\<lambda>x y. f x = Inr y) xs ys"
proof (induction xs arbitrary: ys)
  case Nil
  then show ?case by auto
next
  case (Cons x xs)
  then show ?case by (cases ys) (auto simp: result_simps)
qed

subsection \<open>Checked word arithmetic\<close>

text \<open>
  \<open>u64::checked_add\<close> and its siblings: \<open>None\<close> exactly when the exact result does not fit.  The
  characterisations through \<open>unat\<close> carry every arithmetic proof of the development.
\<close>

definition checked_add :: "'w::len word \<Rightarrow> 'w word \<Rightarrow> 'w word option" where
  "checked_add a b = (if unat a + unat b < 2 ^ LENGTH('w) then Some (a + b) else None)"

definition checked_sub :: "'w::len word \<Rightarrow> 'w word \<Rightarrow> 'w word option" where
  "checked_sub a b = (if b \<le> a then Some (a - b) else None)"

definition checked_mul :: "'w::len word \<Rightarrow> 'w word \<Rightarrow> 'w word option" where
  "checked_mul a b = (if unat a * unat b < 2 ^ LENGTH('w) then Some (a * b) else None)"

lemma unat_less_exp: "unat w < 2 ^ LENGTH('w)" for w :: "'w::len word"
  by (rule unsigned_less)

lemma checked_add_Some_iff [checked_simps]:
  "checked_add a b = Some c \<longleftrightarrow> unat c = unat a + unat b" for a b c :: "'w::len word"
proof
  assume "checked_add a b = Some c"
  then show "unat c = unat a + unat b"
    by (auto simp: checked_add_def unat_word_ariths split: if_splits)
next
  assume eq: "unat c = unat a + unat b"
  with unat_less_exp [of c] have lt: "unat a + unat b < 2 ^ LENGTH('w)" by simp
  then have "unat (a + b) = unat c" by (simp add: eq unat_word_ariths)
  then have "a + b = c" by (simp add: word_unat_eq_iff)
  with lt show "checked_add a b = Some c" by (simp add: checked_add_def)
qed

lemma checked_sub_Some_iff [checked_simps]:
  "checked_sub a b = Some c \<longleftrightarrow> unat a = unat b + unat c" for a b c :: "'w::len word"
proof
  assume "checked_sub a b = Some c"
  then show "unat a = unat b + unat c"
    by (auto simp: checked_sub_def word_le_nat_alt unat_sub split: if_splits)
next
  assume eq: "unat a = unat b + unat c"
  then have le: "b \<le> a" by (simp add: word_le_nat_alt)
  then have "unat (a - b) = unat c" by (simp add: eq unat_sub)
  then have "a - b = c" by (simp add: word_unat_eq_iff)
  with le show "checked_sub a b = Some c" by (simp add: checked_sub_def)
qed

lemma checked_mul_Some_iff [checked_simps]:
  "checked_mul a b = Some c \<longleftrightarrow> unat c = unat a * unat b" for a b c :: "'w::len word"
proof
  assume "checked_mul a b = Some c"
  then show "unat c = unat a * unat b"
    by (auto simp: checked_mul_def unat_word_ariths split: if_splits)
next
  assume eq: "unat c = unat a * unat b"
  with unat_less_exp [of c] have lt: "unat a * unat b < 2 ^ LENGTH('w)" by simp
  then have "unat (a * b) = unat c" by (simp add: eq unat_word_ariths)
  then have "a * b = c" by (simp add: word_unat_eq_iff)
  with lt show "checked_mul a b = Some c" by (simp add: checked_mul_def)
qed

lemma checked_add_None_iff [checked_simps]:
  "checked_add a b = None \<longleftrightarrow> 2 ^ LENGTH('w) \<le> unat a + unat b" for a b :: "'w::len word"
  by (auto simp: checked_add_def)

lemma checked_sub_None_iff [checked_simps]:
  "checked_sub a b = None \<longleftrightarrow> unat a < unat b" for a b :: "'w::len word"
  by (auto simp: checked_sub_def word_le_nat_alt not_le)

lemma checked_mul_None_iff [checked_simps]:
  "checked_mul a b = None \<longleftrightarrow> 2 ^ LENGTH('w) \<le> unat a * unat b" for a b :: "'w::len word"
  by (auto simp: checked_mul_def)

lemma unat_min [checked_simps]: "unat (min a b) = min (unat a) (unat b)"
  for a b :: "'w::len word"
  by (simp add: min_def word_le_nat_alt)

lemma unat_ucast_u32 [checked_simps]: "unat (ucast r :: u64) = unat r" for r :: u32
proof -
  have "unat r < 2 ^ 32" using unat_less_exp [of r] by simp
  then have "unat r < 2 ^ 64" by simp
  then show ?thesis by (simp add: unsigned_ucast_eq take_bit_nat_eq_self)
qed

lemma unat_nonzero_iff: "w \<noteq> 0 \<longleftrightarrow> 0 < unat w" for w :: "'w::len word"
  by (simp add: unat_gt_0)

lemmas word_order_nat = word_le_nat_alt word_less_nat_alt

text \<open>Code equations that never leave the words: no \<open>nat\<close> as large as a modulus is ever computed.\<close>

lemma checked_add_code [code]: "checked_add a b = (if a + b < a then None else Some (a + b))"
  for a b :: "'w::len word"
proof -
  have A: "unat a < 2 ^ LENGTH('w)" "unat b < 2 ^ LENGTH('w)" by (rule unat_less_exp)+
  have "a + b < a \<longleftrightarrow> \<not> unat a + unat b < 2 ^ LENGTH('w)"
  proof (cases "unat a + unat b < 2 ^ LENGTH('w)")
    case True
    then show ?thesis by (simp add: word_less_nat_alt unat_word_ariths)
  next
    case False
    then have "(unat a + unat b) mod 2 ^ LENGTH('w) = (unat a + unat b - 2 ^ LENGTH('w)) mod 2 ^ LENGTH('w)"
      by (intro le_mod_geq) simp
    also have "\<dots> = unat a + unat b - 2 ^ LENGTH('w)"
      using A by (intro mod_less) linarith
    finally show ?thesis using False A
      by (simp only: word_less_nat_alt unat_word_ariths simp_thms)
  qed
  then show ?thesis by (simp add: checked_add_def)
qed

lemma checked_mul_code [code]:
  "checked_mul a b = (if uint a * uint b < 2 ^ LENGTH('w) then Some (a * b) else None)"
  for a b :: "'w::len word"
proof -
  have "unat a * unat b < 2 ^ LENGTH('w) \<longleftrightarrow> int (unat a * unat b) < int (2 ^ LENGTH('w))"
    by (simp only: of_nat_less_iff)
  also have "\<dots> \<longleftrightarrow> uint a * uint b < 2 ^ LENGTH('w)" by simp
  finally show ?thesis by (simp only: checked_mul_def)
qed

text \<open>A length as Rust's \<open>u64::try_from(xs.len())\<close> on a 64-bit target.\<close>

definition len_u64 :: "'a list \<Rightarrow> u64 option" where
  "len_u64 xs = (if length xs < 2 ^ 64 then Some (of_nat (length xs)) else None)"

lemma len_u64_Some_iff [checked_simps]: "len_u64 xs = Some n \<longleftrightarrow> unat n = length xs"
proof
  assume "len_u64 xs = Some n"
  then show "unat n = length xs"
    by (auto simp: len_u64_def unat_of_nat split: if_splits)
next
  assume eq: "unat n = length xs"
  with unat_less_exp [of n] have lt: "length xs < 2 ^ 64" by simp
  moreover have "of_nat (length xs) = n" by (simp add: eq [symmetric])
  ultimately show "len_u64 xs = Some n" by (simp add: len_u64_def)
qed

lemma len_u64_code [code]:
  "len_u64 xs = (if int (length xs) < 18446744073709551616 then Some (word_of_int (int (length xs))) else None)"
proof -
  have "length xs < 2 ^ 64 \<longleftrightarrow> int (length xs) < int (2 ^ 64)"
    by (simp only: of_nat_less_iff)
  then show ?thesis by (simp add: len_u64_def)
qed

text \<open>Signed 64-bit values are integers; the operations that can leave the range are checked.\<close>

definition in_i64 :: "int \<Rightarrow> bool" where
  "in_i64 x \<longleftrightarrow> - (2 ^ 63) \<le> x \<and> x < 2 ^ 63"

definition checked_add_i64 :: "i64 \<Rightarrow> i64 \<Rightarrow> i64 option" where
  "checked_add_i64 a b = (if in_i64 (a + b) then Some (a + b) else None)"

text \<open>Rust's \<open>x as i64\<close> for a \<open>u64\<close>: the same bits read as two's complement.\<close>

definition u64_as_i64 :: "u64 \<Rightarrow> i64" where
  "u64_as_i64 w = sint w"

lemma u64_as_i64_small [checked_simps]:
  assumes "unat w < 2 ^ 63"
  shows "u64_as_i64 w = int (unat w)"
proof -
  have "int (unat w) < int (2 ^ 63)"
    using assms by (simp only: of_nat_less_iff)
  then have "uint w < 2 ^ 63" by simp
  moreover have "0 \<le> uint w" by simp
  ultimately have "signed_take_bit 63 (uint w) = uint w"
    by (intro signed_take_bit_int_eq_self) linarith+
  then have "sint w = uint w"
    by (simp only: sint_uint) simp
  then show ?thesis by (simp add: u64_as_i64_def)
qed

subsection \<open>Strings\<close>

text \<open>
  A Rust \<open>String\<close> is the list of its UTF-8 bytes, so equality, length, prefix tests and the byte
  order SQLite's BINARY collation uses are those of \<open>char list\<close>.  \<open>str::trim\<close> removes the
  characters of Unicode's \<open>White_Space\<close> property, listed here by their encodings.
\<close>

definition white_space :: "string list" where
  "white_space =
     map (\<lambda>n. [char_of (n::nat)]) [9, 10, 11, 12, 13, 32] @
     map (map char_of) [[194, 133], [194, 160], [225, 154, 128::nat]] @
     map (\<lambda>n. map char_of [226, 128, n::nat])
       [128, 129, 130, 131, 132, 133, 134, 135, 136, 137, 138, 168, 169, 175] @
     map (map char_of) [[226, 129, 159], [227, 128, 128::nat]]"

function strip_leading :: "string list \<Rightarrow> string \<Rightarrow> string" where
  "strip_leading ws s =
     (case find (\<lambda>w. w \<noteq> [] \<and> prefix w s) ws of
        None \<Rightarrow> s
      | Some w \<Rightarrow> strip_leading ws (drop (length w) s))"
  by pat_completeness auto
termination
proof (relation "measure (\<lambda>(ws, s). length s)")
  fix ws :: "string list" and s w :: string
  assume "find (\<lambda>w. w \<noteq> [] \<and> prefix w s) ws = Some w"
  then have "w \<noteq> []" "prefix w s" by (auto simp: find_Some_iff)
  then have "0 < length w" "length w \<le> length s" by (auto dest: prefix_length_le)
  then have "length s - length w < length s" by linarith
  then show "((ws, drop (length w) s), (ws, s)) \<in> measure (\<lambda>(ws, s). length s)" by simp
qed simp

declare strip_leading.simps [simp del]

definition trim :: "string \<Rightarrow> string" where
  "trim s = rev (strip_leading (map rev white_space) (rev (strip_leading white_space s)))"

definition is_blank :: "string \<Rightarrow> bool" where
  "is_blank s \<longleftrightarrow> trim s = []"

definition strip_prefix :: "string \<Rightarrow> string \<Rightarrow> string option" where
  "strip_prefix p s = (if prefix p s then Some (drop (length p) s) else None)"

definition strip_suffix :: "string \<Rightarrow> string \<Rightarrow> string option" where
  "strip_suffix p s = (if suffix p s then Some (take (length s - length p) s) else None)"

definition is_ascii_digit :: "char \<Rightarrow> bool" where
  "is_ascii_digit c \<longleftrightarrow> CHR ''0'' \<le> c \<and> c \<le> CHR ''9''"

definition is_ascii_lowercase :: "char \<Rightarrow> bool" where
  "is_ascii_lowercase c \<longleftrightarrow> CHR ''a'' \<le> c \<and> c \<le> CHR ''z''"

definition is_ascii_hexdigit :: "char \<Rightarrow> bool" where
  "is_ascii_hexdigit c \<longleftrightarrow> is_ascii_digit c \<or> (CHR ''a'' \<le> c \<and> c \<le> CHR ''f'') \<or>
     (CHR ''A'' \<le> c \<and> c \<le> CHR ''F'')"

lemma strip_leading_nil [simp]: "strip_leading ws [] = []"
  by (subst strip_leading.simps) (auto split: option.splits simp: find_Some_iff)

lemma is_blank_nil [simp]: "is_blank []"
  by (simp add: is_blank_def trim_def)

lemma strip_prefix_Some_iff: "strip_prefix p s = Some t \<longleftrightarrow> s = p @ t"
  by (auto simp: strip_prefix_def prefix_def)

lemma strip_suffix_Some_iff: "strip_suffix p s = Some t \<longleftrightarrow> s = t @ p"
  by (auto simp: strip_suffix_def suffix_def)

text \<open>A text with a printable ASCII character is not blank, whatever surrounds it.\<close>

definition printable :: "char \<Rightarrow> bool" where
  "printable c \<longleftrightarrow> 33 \<le> (of_char c :: nat) \<and> (of_char c :: nat) < 127"

lemma strip_leading_keeps:
  "c \<in> set s \<Longrightarrow> \<forall>w \<in> set ws. c \<notin> set w \<Longrightarrow> c \<in> set (strip_leading ws s)"
proof (induction ws s rule: strip_leading.induct)
  case (1 ws s)
  show ?case
  proof (cases "find (\<lambda>w. w \<noteq> [] \<and> prefix w s) ws")
    case None
    with 1(2) show ?thesis by (subst strip_leading.simps) simp
  next
    case (Some w)
    then have "w \<in> set ws" "prefix w s" by (auto simp: find_Some_iff)
    then have "s = w @ drop (length w) s" "c \<notin> set w" using 1(3) by (auto simp: prefix_def)
    then have "c \<in> set (drop (length w) s)" using 1(2) by (metis Un_iff set_append)
    with 1(1) [OF Some] 1(3) Some show ?thesis by (subst strip_leading.simps) simp
  qed
qed

lemma printable_not_white: "printable c \<Longrightarrow> w \<in> set white_space \<Longrightarrow> c \<notin> set w"
  by (auto simp: white_space_def printable_def)

lemma not_blank:
  assumes "printable c" "c \<in> set s"
  shows "\<not> is_blank s"
proof -
  have "c \<in> set (strip_leading white_space s)"
    using assms printable_not_white by (blast intro: strip_leading_keeps)
  then have "c \<in> set (strip_leading (map rev white_space) (rev (strip_leading white_space s)))"
    using assms(1) printable_not_white by (intro strip_leading_keeps) auto
  then show ?thesis by (auto simp: is_blank_def trim_def)
qed

lemma not_blank_Cons: "printable c \<Longrightarrow> \<not> is_blank (c # s)"
  by (rule not_blank [of c]) simp_all

text \<open>Character classes by the bits of the byte, for evaluation.\<close>

lemma char_bits [code]:
  "is_ascii_digit (Char b0 b1 b2 b3 b4 b5 b6 b7) \<longleftrightarrow> \<not> b7 \<and> \<not> b6 \<and> b5 \<and> b4 \<and> (b3 \<longrightarrow> \<not> b2 \<and> \<not> b1)"
  "is_ascii_lowercase (Char b0 b1 b2 b3 b4 b5 b6 b7) \<longleftrightarrow>
     \<not> b7 \<and> b6 \<and> b5 \<and> (b0 \<or> b1 \<or> b2 \<or> b3 \<or> b4) \<and> (b4 \<and> b3 \<longrightarrow> \<not> b2 \<and> \<not> (b1 \<and> b0))"
  "printable (Char b0 b1 b2 b3 b4 b5 b6 b7) \<longleftrightarrow> \<not> b7 \<and> (b6 \<or> b5) \<and>
     \<not> (b6 \<and> b5 \<and> b4 \<and> b3 \<and> b2 \<and> b1 \<and> b0) \<and> (\<not> b6 \<longrightarrow> b4 \<or> b3 \<or> b2 \<or> b1 \<or> b0)"
  by (cases b0; cases b1; cases b2; cases b3; cases b4; cases b5; cases b6; cases b7;
      simp add: is_ascii_digit_def is_ascii_lowercase_def printable_def less_eq_char_def)+

lemma white_space_code [code]:
  "white_space = [[CHR 0x09], [CHR 0x0A], [CHR 0x0B], [CHR 0x0C], [CHR 0x0D], [CHR 0x20], [CHR 0xC2, CHR 0x85],
    [CHR 0xC2, CHR 0xA0], [CHR 0xE1, CHR 0x9A, CHR 0x80],
    [CHR 0xE2, CHR 0x80, CHR 0x80], [CHR 0xE2, CHR 0x80, CHR 0x81], [CHR 0xE2, CHR 0x80, CHR 0x82],
    [CHR 0xE2, CHR 0x80, CHR 0x83], [CHR 0xE2, CHR 0x80, CHR 0x84], [CHR 0xE2, CHR 0x80, CHR 0x85],
    [CHR 0xE2, CHR 0x80, CHR 0x86], [CHR 0xE2, CHR 0x80, CHR 0x87], [CHR 0xE2, CHR 0x80, CHR 0x88],
    [CHR 0xE2, CHR 0x80, CHR 0x89], [CHR 0xE2, CHR 0x80, CHR 0x8A], [CHR 0xE2, CHR 0x80, CHR 0xA8],
    [CHR 0xE2, CHR 0x80, CHR 0xA9], [CHR 0xE2, CHR 0x80, CHR 0xAF], [CHR 0xE2, CHR 0x81, CHR 0x9F],
    [CHR 0xE3, CHR 0x80, CHR 0x80]]"
  by (simp add: white_space_def char_of_def bit_0)

text \<open>How a text is evaluated: most say at once that they are not blank.\<close>

lemma is_blank_code [code]:
  "is_blank s = (case s of [] \<Rightarrow> True | c # _ \<Rightarrow> if printable c then False else trim s = [])"
proof (cases s)
  case (Cons c t)
  show ?thesis
  proof (cases "printable c")
    case True
    with Cons show ?thesis by (simp add: not_blank_Cons)
  next
    case False
    then have "(if printable c then False else trim s = []) = is_blank s" by (simp only: is_blank_def if_False)
    with Cons show ?thesis by (simp only: list.case)
  qed
qed simp

subsection \<open>Tables\<close>

text \<open>
  A SQL table is the list of its rows.  \<open>UPDATE \<dots> SET \<dots> WHERE\<close> maps the selected rows and
  reports how many it selected; \<open>SELECT EXISTS\<close> is \<open>list_ex\<close>, a query for one row is \<open>find\<close>.
\<close>

definition update_where :: "('r \<Rightarrow> bool) \<Rightarrow> ('r \<Rightarrow> 'r) \<Rightarrow> 'r list \<Rightarrow> 'r list" where
  "update_where p f rows = map (\<lambda>r. if p r then f r else r) rows"

definition count_where :: "('r \<Rightarrow> bool) \<Rightarrow> 'r list \<Rightarrow> nat" where
  "count_where p rows = length (filter p rows)"

lemma update_where_Nil [simp]: "update_where p f [] = []"
  by (simp add: update_where_def)

lemma update_where_Cons [simp]:
  "update_where p f (r # rs) = (if p r then f r else r) # update_where p f rs"
  by (simp add: update_where_def)

lemma set_update_where: "set (update_where p f rows) = (\<lambda>r. if p r then f r else r) ` set rows"
  by (simp add: update_where_def)

lemma length_update_where [table_simps]: "length (update_where p f rows) = length rows"
  by (simp add: update_where_def)

lemma map_update_where [table_simps]:
  assumes "\<And>r. p r \<Longrightarrow> k (f r) = k r"
  shows "map k (update_where p f rows) = map k rows"
  using assms by (simp add: update_where_def)

lemma update_where_none: "\<not> list_ex p rows \<Longrightarrow> update_where p f rows = rows"
  by (induction rows) (auto simp: update_where_def)

lemma count_where_zero_iff [table_simps]: "count_where p rows = 0 \<longleftrightarrow> \<not> list_ex p rows"
  by (auto simp: count_where_def list_ex_iff filter_empty_conv)

lemma distinct_key_unique:
  assumes "distinct (map k rows)" "r \<in> set rows" "r' \<in> set rows" "k r = k r'"
  shows "r = r'"
  using assms by (metis inj_onD distinct_map)

lemma image_disjoint: "(\<And>x. x \<in> A \<Longrightarrow> f x \<notin> B) \<Longrightarrow> B \<inter> f ` A = {}"
  by auto

lemma count_where_key_le_1:
  assumes "distinct (map k rows)"
  shows "count_where (\<lambda>r. k r = x \<and> q r) rows \<le> 1"
  using assms
proof (induction rows)
  case Nil
  then show ?case by (simp add: count_where_def)
next
  case (Cons r rows)
  show ?case
  proof (cases "k r = x \<and> q r")
    case True
    with Cons.prems have "\<not> list_ex (\<lambda>r. k r = x \<and> q r) rows"
      by (auto simp: list_ex_iff image_iff)
    then have "count_where (\<lambda>r. k r = x \<and> q r) rows = 0"
      by (simp only: count_where_zero_iff) simp
    with True show ?thesis by (simp add: count_where_def)
  next
    case False
    with Cons show ?thesis by (auto simp: count_where_def)
  qed
qed

lemma count_where_key_iff:
  assumes "distinct (map k rows)"
  shows "count_where (\<lambda>r. k r = x \<and> q r) rows = 1 \<longleftrightarrow> list_ex (\<lambda>r. k r = x \<and> q r) rows"
  using count_where_key_le_1 [OF assms, of x q]
    count_where_zero_iff [of "\<lambda>r. k r = x \<and> q r" rows]
  by linarith

subsection \<open>Invariants of runs\<close>

text \<open>
  A component is a state and a step function over its requests.  A predicate that every step
  keeps holds after any sequence of requests.
\<close>

locale invariant_system =
  fixes step :: "'s \<Rightarrow> 'o \<Rightarrow> 's"
    and inv :: "'s \<Rightarrow> bool"
  assumes step_inv: "inv s \<Longrightarrow> inv (step s x)"
begin

lemma run_inv: "inv s \<Longrightarrow> inv (foldl step s xs)"
  by (induction xs arbitrary: s) (simp_all add: step_inv)

lemma run_inv_prefix: "inv s \<Longrightarrow> prefix ys xs \<Longrightarrow> inv (foldl step s ys)"
  by (rule run_inv)

end

text \<open>The same for a component given by a step relation.\<close>

locale invariant_relation =
  fixes step_rel :: "'s \<Rightarrow> 's \<Rightarrow> bool"
    and inv_rel :: "'s \<Rightarrow> bool"
  assumes step_rel_inv: "step_rel s s' \<Longrightarrow> inv_rel s \<Longrightarrow> inv_rel s'"
begin

lemma reachable_inv: "step_rel\<^sup>*\<^sup>* s s' \<Longrightarrow> inv_rel s \<Longrightarrow> inv_rel s'"
  by (induction rule: rtranclp_induct) (auto intro: step_rel_inv)

end

subsection \<open>Paths: \<open>std::path::Path::components\<close> on Unix\<close>

datatype path_component = RootDir | CurDir | ParentDir | Normal string

text \<open>The text between separators, \<open>str::split\<close> on one character.\<close>

fun split_on :: "char \<Rightarrow> string \<Rightarrow> string list" where
  "split_on c [] = [[]]"
| "split_on c (x # xs) = (if x = c then [] # split_on c xs
     else (case split_on c xs of [] \<Rightarrow> [[x]] | part # parts \<Rightarrow> (x # part) # parts))"

text \<open>Empty parts and inner dots vanish; a leading dot and a leading separator are components.\<close>

definition part_component :: "string \<Rightarrow> path_component list" where
  "part_component part = (if part = [] \<or> part = ''.'' then []
     else if part = ''..'' then [ParentDir] else [Normal part])"

definition path_components :: "string \<Rightarrow> path_component list" where
  "path_components p = (case split_on CHR ''/'' p of
     [] \<Rightarrow> []
   | first # rest \<Rightarrow>
       (if first = [] \<and> rest \<noteq> [] then [RootDir] else if first = ''.'' then [CurDir] else part_component first)
       @ concat (map part_component rest))"

definition file_name :: "string \<Rightarrow> string option" where
  "file_name p = (case rev (path_components p) of Normal name # _ \<Rightarrow> Some name | _ \<Rightarrow> None)"

lemma split_on_free: "c \<notin> set s \<Longrightarrow> split_on c s = [s]"
  by (induction s) auto

lemma split_on_append: "c \<notin> set s \<Longrightarrow> split_on c (s @ c # t) = s # split_on c t"
  by (induction s) auto

lemma split_on_ne [simp]: "split_on c s \<noteq> []"
  by (cases s) (auto split: list.splits)

lemma path_components_plain:
  assumes "CHR ''/'' \<notin> set s" "s \<noteq> []" "s \<noteq> ''.''" "s \<noteq> ''..''"
  shows "path_components s = [Normal s]"
  using assms by (simp add: path_components_def split_on_free part_component_def)

lemma path_components_join:
  assumes "CHR ''/'' \<notin> set d" "CHR ''/'' \<notin> set s" "d \<notin> {[], ''.'', ''..''}" "s \<notin> {[], ''.'', ''..''}"
  shows "path_components (d @ CHR ''/'' # s) = [Normal d, Normal s]"
  using assms by (simp add: path_components_def split_on_free split_on_append part_component_def)

end
