(* ===== verification/Audio.thy ===== *)
theory Audio
  imports Prelude
begin

section \<open>Audio preparation: \<open>asr/audio.rs\<close>\<close>

text \<open>
  Sample ranges, the exact time arithmetic between sample positions, frames and milliseconds,
  the decoder's resource budget, the packet loop of \<open>decode_from_file\<close>, down-mixing and
  resampling.  The demuxer and decoder (symphonia), the resampler (rubato), the allocator and
  IEEE arithmetic are parameters; integers are words, and every \<open>checked_*\<close> call is kept.
\<close>

subsection \<open>Data\<close>

definition WORK_SAMPLE_RATE_HZ :: u32 where
  "WORK_SAMPLE_RATE_HZ = 16000"

definition MAX_DECODED_AUDIO_DURATION_SECONDS :: u64 where
  "MAX_DECODED_AUDIO_DURATION_SECONDS = 24 * 60 * 60"

record SampleRange =
  range_start :: u64
  range_end :: u64

record MillisecondRange =
  start_ms :: u64
  end_ms :: u64

record 'f WorkingAudio =
  samples :: "'f list"
  sample_rate_hz :: u32
  source_sample_rate_hz :: u32
  source_channels :: usize
  source_frames :: u64
  duration_ms :: u64

datatype AudioPreparationError =
    UnsupportedOrCorruptAudio
  | InvalidSampleRate
  | InvalidRange
  | InvalidDetectorCores
  | ArithmeticOverflow
  | IndexOutOfRange
  | ResampleFailed
  | DetectorFailed
  | InvalidVadConfig
  | ResourceLimitExceeded
  | AllocationFailed

fun audio_error_code :: "AudioPreparationError \<Rightarrow> string" where
  "audio_error_code UnsupportedOrCorruptAudio = ''unsupported_or_corrupt_audio''"
| "audio_error_code InvalidSampleRate = ''invalid_sample_rate''"
| "audio_error_code InvalidRange = ''invalid_audio_range''"
| "audio_error_code InvalidDetectorCores = ''invalid_detector_cores''"
| "audio_error_code ArithmeticOverflow = ''audio_arithmetic_overflow''"
| "audio_error_code IndexOutOfRange = ''audio_index_out_of_range''"
| "audio_error_code ResampleFailed = ''audio_resample_failed''"
| "audio_error_code DetectorFailed = ''vad_detector_failed''"
| "audio_error_code InvalidVadConfig = ''invalid_vad_runtime_config''"
| "audio_error_code ResourceLimitExceeded = ''audio_resource_limit_exceeded''"
| "audio_error_code AllocationFailed = ''audio_allocation_failed''"

definition new_range :: "u64 \<Rightarrow> u64 \<Rightarrow> AudioPreparationError + SampleRange" where
  "new_range s e = (if e \<le> s then Inl InvalidRange else Inr \<lparr>range_start = s, range_end = e\<rparr>)"

definition checked_len :: "SampleRange \<Rightarrow> AudioPreparationError + u64" where
  "checked_len r =
     and_then (ok_or InvalidRange (checked_sub (range_end r) (range_start r)))
       (\<lambda>n. if n = 0 then Inl InvalidRange else Inr n)"

text \<open>IEEE arithmetic, as far as the code uses it: \<open>'f\<close> is \<open>f32\<close>, \<open>'d\<close> is \<open>f64\<close>.\<close>

record ('f, 'd) float_ops =
  f_zero :: 'f
  f_finite :: "'f \<Rightarrow> bool"
  f_clamp :: "'f \<Rightarrow> 'f"
  widen :: "'f \<Rightarrow> 'd"
  narrow :: "'d \<Rightarrow> 'f"
  d_zero :: 'd
  d_add :: "'d \<Rightarrow> 'd \<Rightarrow> 'd"
  d_mul :: "'d \<Rightarrow> 'd \<Rightarrow> 'd"
  d_div :: "'d \<Rightarrow> 'd \<Rightarrow> 'd"
  d_clamp :: "'d \<Rightarrow> 'd"
  d_of_u64 :: "u64 \<Rightarrow> 'd"

subsection \<open>Exact ratios and range conversions\<close>

definition validate_range :: "SampleRange \<Rightarrow> u64 \<Rightarrow> AudioPreparationError + unit" where
  "validate_range r total_frames =
     (if range_end r \<le> range_start r \<or> total_frames < range_end r then Inl InvalidRange else Inr ())"

definition checked_ceil_ratio :: "u64 \<Rightarrow> u64 \<Rightarrow> u64 \<Rightarrow> AudioPreparationError + u64" where
  "checked_ceil_ratio v m d =
     (if d = 0 then Inl InvalidSampleRate
      else and_then (ok_or ArithmeticOverflow (checked_mul v m)) (\<lambda>numerator.
           and_then (ok_or ArithmeticOverflow (checked_sub d 1)) (\<lambda>adjustment.
           and_then (ok_or ArithmeticOverflow (checked_add numerator adjustment)) (\<lambda>adjusted.
           Inr (adjusted div d)))))"

definition max_source_frames :: "u32 \<Rightarrow> AudioPreparationError + u64" where
  "max_source_frames rate =
     (if rate = 0 then Inl InvalidSampleRate
      else ok_or ResourceLimitExceeded
             (checked_mul (ucast rate) MAX_DECODED_AUDIO_DURATION_SECONDS))"

definition checked_interleaved_samples :: "u64 \<Rightarrow> usize \<Rightarrow> AudioPreparationError + usize" where
  "checked_interleaved_samples frames channels =
     ok_or ResourceLimitExceeded (checked_mul frames channels)"

definition checked_sample_index :: "u64 \<Rightarrow> usize \<Rightarrow> AudioPreparationError + usize" where
  "checked_sample_index index count =
     (if count \<le> index then Inl IndexOutOfRange else Inr index)"

definition sample_range_to_millis ::
    "SampleRange \<Rightarrow> u32 \<Rightarrow> u64 \<Rightarrow> AudioPreparationError + MillisecondRange" where
  "sample_range_to_millis r rate total_frames =
     and_then (validate_range r total_frames) (\<lambda>_.
     if rate = 0 then Inl InvalidSampleRate
     else and_then (ok_or ArithmeticOverflow (checked_mul (range_start r) 1000)) (\<lambda>p.
          let s = p div ucast rate in
          and_then (checked_ceil_ratio (range_end r) 1000 (ucast rate)) (\<lambda>e.
          if e \<le> s then Inl InvalidRange else Inr \<lparr>start_ms = s, end_ms = e\<rparr>)))"

definition work_range_to_original_frames ::
    "SampleRange \<Rightarrow> u32 \<Rightarrow> u64 \<Rightarrow> AudioPreparationError + SampleRange" where
  "work_range_to_original_frames r rate frames =
     (if rate = 0 then Inl InvalidSampleRate
      else and_then (ok_or ArithmeticOverflow (checked_mul (range_start r) (ucast rate))) (\<lambda>p.
           let s = p div ucast WORK_SAMPLE_RATE_HZ in
           and_then (checked_ceil_ratio (range_end r) (ucast rate) (ucast WORK_SAMPLE_RATE_HZ)) (\<lambda>e.
           and_then (new_range s (min e frames)) (\<lambda>mapped.
           and_then (validate_range mapped frames) (\<lambda>_. Inr mapped)))))"

definition resampled_frame_count :: "u64 \<Rightarrow> u32 \<Rightarrow> AudioPreparationError + usize" where
  "resampled_frame_count frames rate =
     (if rate = 0 then Inl InvalidSampleRate
      else and_then (max_source_frames rate) (\<lambda>limit.
        if limit < frames then Inl ResourceLimitExceeded
        else and_then (checked_ceil_ratio frames (ucast WORK_SAMPLE_RATE_HZ) (ucast rate)) (\<lambda>out.
             and_then (ok_or ResourceLimitExceeded
                        (checked_mul (ucast WORK_SAMPLE_RATE_HZ) MAX_DECODED_AUDIO_DURATION_SECONDS))
               (\<lambda>limit. if limit < out then Inl ResourceLimitExceeded else Inr out))))"

definition validate_declared_source_frames ::
    "u64 option \<Rightarrow> u32 \<Rightarrow> AudioPreparationError + unit" where
  "validate_declared_source_frames declared rate =
     and_then (max_source_frames rate) (\<lambda>limit.
       case declared of
         Some frames \<Rightarrow> if limit < frames then Inl ResourceLimitExceeded else Inr ()
       | None \<Rightarrow> Inr ())"

subsection \<open>The decoder's resource budget\<close>

record DecodeResourceBudget =
  budget_channels :: usize
  budget_max_source_frames :: u64
  budget_max_interleaved :: usize
  budget_source_frames :: u64
  budget_interleaved :: usize

definition new_budget :: "u32 \<Rightarrow> usize \<Rightarrow> AudioPreparationError + DecodeResourceBudget" where
  "new_budget rate channels =
     (if rate = 0 then Inl InvalidSampleRate
      else if channels = 0 then Inl UnsupportedOrCorruptAudio
      else and_then (max_source_frames rate) (\<lambda>frames.
           and_then (checked_interleaved_samples frames channels) (\<lambda>n.
           Inr \<lparr>budget_channels = channels, budget_max_source_frames = frames,
                budget_max_interleaved = n, budget_source_frames = 0, budget_interleaved = 0\<rparr>)))"

definition accept_packet ::
    "DecodeResourceBudget \<Rightarrow> u64 \<Rightarrow> usize \<Rightarrow> AudioPreparationError + DecodeResourceBudget" where
  "accept_packet b frames n =
     (if frames = 0 \<or> n = 0 then Inl UnsupportedOrCorruptAudio
      else and_then (checked_interleaved_samples frames (budget_channels b)) (\<lambda>expected.
        if n \<noteq> expected then Inl UnsupportedOrCorruptAudio
        else and_then (ok_or ResourceLimitExceeded (checked_add (budget_source_frames b) frames)) (\<lambda>f.
             and_then (ok_or ResourceLimitExceeded (checked_add (budget_interleaved b) n)) (\<lambda>i.
               if budget_max_source_frames b < f \<or> budget_max_interleaved b < i
               then Inl ResourceLimitExceeded
               else Inr (b\<lparr>budget_source_frames := f, budget_interleaved := i\<rparr>)))))"

subsection \<open>Down-mixing and resampling\<close>

fun chunks_exact :: "nat \<Rightarrow> 'a list \<Rightarrow> 'a list list" where
  "chunks_exact n xs =
     (if n = 0 \<or> length xs < n then [] else take n xs # chunks_exact n (drop n xs))"

declare chunks_exact.simps [simp del]

text \<open>\<open>alloc n\<close>: whether \<open>Vec::try_reserve\<close> of \<open>n\<close> more samples succeeds.\<close>

definition reserve_f32_capacity :: "(nat \<Rightarrow> bool) \<Rightarrow> nat \<Rightarrow> AudioPreparationError + unit" where
  "reserve_f32_capacity alloc n = (if alloc n then Inr () else Inl AllocationFailed)"

definition copy_f32_samples :: "(nat \<Rightarrow> bool) \<Rightarrow> 'f list \<Rightarrow> AudioPreparationError + 'f list" where
  "copy_f32_samples alloc xs = and_then (reserve_f32_capacity alloc (length xs)) (\<lambda>_. Inr xs)"

definition sanitize_and_downmix ::
    "('f, 'd) float_ops \<Rightarrow> (nat \<Rightarrow> bool) \<Rightarrow> 'f list \<Rightarrow> usize \<Rightarrow> AudioPreparationError + 'f list" where
  "sanitize_and_downmix ops alloc interleaved channels =
     (if channels = 0 \<or> interleaved = [] \<or> length interleaved mod unat channels \<noteq> 0
      then Inl UnsupportedOrCorruptAudio
      else and_then (reserve_f32_capacity alloc (length interleaved div unat channels)) (\<lambda>_.
        Inr (map (\<lambda>frame.
               narrow ops (d_clamp ops (d_div ops
                 (foldl (\<lambda>sum x. d_add ops sum (if f_finite ops x then widen ops x else d_zero ops))
                    (d_zero ops) frame)
                 (d_of_u64 ops channels))))
             (chunks_exact (unat channels) interleaved))))"

text \<open>
  The resampler library: whether it can be built for a rate and an input length, the output
  length it asks for, and its result (the number of frames produced and the output buffer).
\<close>

record 'f resampler =
  rs_create :: "u32 \<Rightarrow> nat \<Rightarrow> bool"
  rs_needed :: "u32 \<Rightarrow> nat \<Rightarrow> nat"
  rs_process :: "u32 \<Rightarrow> 'f list \<Rightarrow> (nat \<times> 'f list) option"

definition resample_mono ::
    "('f, 'd) float_ops \<Rightarrow> (nat \<Rightarrow> bool) \<Rightarrow> 'f resampler \<Rightarrow> 'f list \<Rightarrow> u32 \<Rightarrow>
       AudioPreparationError + 'f list" where
  "resample_mono ops alloc rs xs rate =
     (if rate = 0 then Inl InvalidSampleRate
      else if xs = [] then Inl UnsupportedOrCorruptAudio
      else and_then (ok_or ResourceLimitExceeded (len_u64 xs)) (\<lambda>n.
           and_then (resampled_frame_count n rate) (\<lambda>expected.
           if rate = WORK_SAMPLE_RATE_HZ then copy_f32_samples alloc xs
           else and_then (copy_f32_samples alloc xs) (\<lambda>input.
             if \<not> rs_create rs rate (length xs) then Inl ResampleFailed
             else and_then (reserve_f32_capacity alloc (rs_needed rs rate (length xs))) (\<lambda>_.
               case rs_process rs rate input of
                 None \<Rightarrow> Inl ResampleFailed
               | Some (produced, output) \<Rightarrow>
                   if produced \<noteq> unat expected then Inl ResampleFailed
                   else Inr (map (\<lambda>x. if f_finite ops x then f_clamp ops x else f_zero ops)
                              (take produced output)))))))"

subsection \<open>The decode loop\<close>

text \<open>
  What the demuxer and decoder deliver for one step of the loop: a demuxer error, or a packet of
  some track with the decoded buffer (\<open>None\<close> when decoding it fails).  The end of the list is
  the end of the stream.
\<close>

record 'f decoded =
  dec_rate :: u32
  dec_channels :: usize
  dec_frames :: usize
  dec_samples_interleaved :: usize
  dec_pcm :: "'f list"

datatype 'f demux = DemuxError | Packet nat "'f decoded option"

record 'f decode_state =
  ds_rate :: "u32 option"
  ds_channels :: "usize option"
  ds_frames :: u64
  ds_interleaved :: "'f list"
  ds_budget :: "DecodeResourceBudget option"

definition decode_start :: "'f decode_state" where
  "decode_start = \<lparr>ds_rate = None, ds_channels = None, ds_frames = 0, ds_interleaved = [],
     ds_budget = None\<rparr>"

definition decode_buffer ::
    "(nat \<Rightarrow> bool) \<Rightarrow> 'f decode_state \<Rightarrow> 'f decoded \<Rightarrow> AudioPreparationError + 'f decode_state" where
  "decode_buffer alloc s d =
     (if dec_rate d = 0 \<or> dec_channels d = 0 then Inl UnsupportedOrCorruptAudio
      else if (ds_rate s \<noteq> None \<and> ds_rate s \<noteq> Some (dec_rate d)) \<or>
              (ds_channels s \<noteq> None \<and> ds_channels s \<noteq> Some (dec_channels d))
      then Inl UnsupportedOrCorruptAudio
      else let s = s\<lparr>ds_rate := Some (dec_rate d), ds_channels := Some (dec_channels d)\<rparr> in
        if dec_frames d = 0
        then (if dec_samples_interleaved d \<noteq> 0 then Inl UnsupportedOrCorruptAudio else Inr s)
        else and_then (ok_or ResourceLimitExceeded (checked_mul (dec_frames d) (dec_channels d))) (\<lambda>n.
             and_then (case ds_budget s of Some b \<Rightarrow> Inr b
                       | None \<Rightarrow> new_budget (dec_rate d) (dec_channels d)) (\<lambda>b.
             and_then (accept_packet b (dec_frames d) n) (\<lambda>b'.
             and_then (reserve_f32_capacity alloc (unat n)) (\<lambda>_.
             Inr (s\<lparr>ds_frames := budget_source_frames b', ds_budget := Some b',
                    ds_interleaved := ds_interleaved s @ dec_pcm d\<rparr>))))))"

fun decode_loop ::
    "(nat \<Rightarrow> bool) \<Rightarrow> nat \<Rightarrow> 'f decode_state \<Rightarrow> 'f demux list \<Rightarrow>
       AudioPreparationError + 'f decode_state" where
  "decode_loop alloc track s [] = Inr s"
| "decode_loop alloc track s (DemuxError # rest) = Inl UnsupportedOrCorruptAudio"
| "decode_loop alloc track s (Packet t buffer # rest) =
     (if t \<noteq> track then decode_loop alloc track s rest
      else case buffer of
             None \<Rightarrow> Inl UnsupportedOrCorruptAudio
           | Some d \<Rightarrow> and_then (decode_buffer alloc s d) (\<lambda>s'. decode_loop alloc track s' rest))"

text \<open>The opened container: its audio track, what the codec parameters declare, the decoder.\<close>

record opened_audio =
  oa_track :: nat
  oa_codec_rate :: "u32 option"
  oa_num_frames :: "u64 option"
  oa_decoder :: bool

definition decode_from_file ::
    "('f, 'd) float_ops \<Rightarrow> (nat \<Rightarrow> bool) \<Rightarrow> 'f resampler \<Rightarrow> opened_audio option \<Rightarrow> 'f demux list \<Rightarrow>
       AudioPreparationError + 'f WorkingAudio" where
  "decode_from_file ops alloc rs opened packets =
     and_then (ok_or UnsupportedOrCorruptAudio opened) (\<lambda>src.
     and_then (case oa_codec_rate src of
                 Some rate \<Rightarrow> validate_declared_source_frames (oa_num_frames src) rate
               | None \<Rightarrow> Inr ()) (\<lambda>_.
     if \<not> oa_decoder src then Inl UnsupportedOrCorruptAudio
     else and_then (decode_loop alloc (oa_track src) decode_start packets) (\<lambda>s.
          and_then (ok_or UnsupportedOrCorruptAudio (ds_rate s)) (\<lambda>rate.
          and_then (ok_or UnsupportedOrCorruptAudio (ds_channels s)) (\<lambda>channels.
          if ds_frames s = 0 then Inl UnsupportedOrCorruptAudio
          else and_then (sanitize_and_downmix ops alloc (ds_interleaved s) channels) (\<lambda>mono.
               and_then (resample_mono ops alloc rs mono rate) (\<lambda>xs.
               and_then (checked_ceil_ratio (ds_frames s) 1000 (ucast rate)) (\<lambda>ms.
               Inr \<lparr>samples = xs, sample_rate_hz = WORK_SAMPLE_RATE_HZ,
                    source_sample_rate_hz = rate, source_channels = channels,
                    source_frames = ds_frames s, duration_ms = ms\<rparr>))))))))"


subsection \<open>Facts about the ratios\<close>

lemma checked_ceil_ratio_Inr_iff:
  "checked_ceil_ratio v m d = Inr q \<longleftrightarrow>
     d \<noteq> 0 \<and> unat v * unat m + (unat d - 1) < 2 ^ 64 \<and>
     unat q = (unat v * unat m + (unat d - 1)) div unat d"
proof (cases "d = 0")
  case True
  then show ?thesis by (simp add: checked_ceil_ratio_def)
next
  case False
  then have d: "0 < unat d" by (simp add: unat_nonzero_iff)
  have sub: "checked_sub d 1 = Some (d - 1)" and d1: "unat (d - 1) = unat d - 1"
    using False d by (simp_all add: checked_sub_def word_order_nat unat_sub)
  show ?thesis
  proof
    assume "checked_ceil_ratio v m d = Inr q"
    with False obtain n a where cn: "checked_mul v m = Some n"
      and ca: "checked_add n (d - 1) = Some a" and q: "q = a div d"
      by (auto simp: checked_ceil_ratio_def result_simps sub)
    from cn have n: "unat n = unat v * unat m" by (simp add: checked_simps)
    from ca have a: "unat a = unat n + unat (d - 1)" by (simp add: checked_simps)
    have "unat q = (unat v * unat m + (unat d - 1)) div unat d"
      by (simp add: q unat_div_distrib a n d1)
    moreover have "unat v * unat m + (unat d - 1) < 2 ^ 64"
      using unat_less_exp [of a] by (simp add: a n d1)
    ultimately show "d \<noteq> 0 \<and> unat v * unat m + (unat d - 1) < 2 ^ 64 \<and>
        unat q = (unat v * unat m + (unat d - 1)) div unat d"
      using False by simp
  next
    assume r: "d \<noteq> 0 \<and> unat v * unat m + (unat d - 1) < 2 ^ 64 \<and>
        unat q = (unat v * unat m + (unat d - 1)) div unat d"
    define n a where "n = v * m" and "a = n + (d - 1)"
    from r have lt: "unat v * unat m < 2 ^ 64" by linarith
    then have n: "checked_mul v m = Some n" and un: "unat n = unat v * unat m"
      by (simp_all add: checked_mul_def n_def unat_word_ariths)
    have a: "checked_add n (d - 1) = Some a" and ua: "unat a = unat v * unat m + (unat d - 1)"
      using r by (simp_all add: checked_add_def a_def un d1 unat_word_ariths)
    have "a div d = q"
      using r by (simp add: word_unat_eq_iff unat_div_distrib ua)
    with False show "checked_ceil_ratio v m d = Inr q"
      by (simp add: checked_ceil_ratio_def n sub a)
  qed
qed

lemma ceil_div_bounds:
  fixes a d :: nat
  assumes "0 < d"
  shows "a \<le> ((a + (d - 1)) div d) * d" "((a + (d - 1)) div d) * d < a + d"
proof -
  have split: "((a + (d - 1)) div d) * d + (a + (d - 1)) mod d = a + (d - 1)"
    by simp
  moreover have "(a + (d - 1)) mod d < d" using assms by simp
  ultimately show "a \<le> ((a + (d - 1)) div d) * d" "((a + (d - 1)) div d) * d < a + d"
    using assms by linarith+
qed

lemma ceil_div_le_iff:
  fixes a d q :: nat
  assumes "0 < d"
  shows "(a + (d - 1)) div d \<le> q \<longleftrightarrow> a \<le> q * d"
proof
  assume "(a + (d - 1)) div d \<le> q"
  then have "((a + (d - 1)) div d) * d \<le> q * d" by (rule mult_le_mono1)
  with ceil_div_bounds(1) [OF assms, of a] show "a \<le> q * d" by linarith
next
  assume "a \<le> q * d"
  with ceil_div_bounds(2) [OF assms, of a]
  have "((a + (d - 1)) div d) * d < (q + 1) * d"
    by (simp only: distrib_right mult_1)
  then have "(a + (d - 1)) div d < q + 1" by (simp only: mult_less_cancel2)
  then show "(a + (d - 1)) div d \<le> q" by (simp only: Suc_eq_plus1 [symmetric] less_Suc_eq_le)
qed

lemma unat_max_duration: "unat MAX_DECODED_AUDIO_DURATION_SECONDS = 86400"
  by (simp add: MAX_DECODED_AUDIO_DURATION_SECONDS_def)

lemma unat_work_rate: "unat WORK_SAMPLE_RATE_HZ = 16000"
  by (simp add: WORK_SAMPLE_RATE_HZ_def)

lemmas audio_constants = unat_max_duration unat_work_rate

lemma max_source_frames_Inr_iff:
  "max_source_frames rate = Inr m \<longleftrightarrow> rate \<noteq> 0 \<and> unat m = unat rate * 86400"
  by (auto simp: max_source_frames_def result_simps checked_simps audio_constants)

lemma max_source_frames_total:
  assumes "rate \<noteq> 0"
  shows "\<exists>m. max_source_frames rate = Inr m \<and> unat m = unat rate * 86400"
proof -
  have "unat rate < 2 ^ 32" using unat_less_exp [of rate] by simp
  then have "unat (ucast rate :: u64) * 86400 < 2 ^ 64" by (simp add: checked_simps)
  then have "checked_mul (ucast rate) MAX_DECODED_AUDIO_DURATION_SECONDS \<noteq> None"
    by (simp add: checked_simps audio_constants)
  then obtain m where m: "checked_mul (ucast rate) MAX_DECODED_AUDIO_DURATION_SECONDS = Some m"
    by blast
  with assms have "max_source_frames rate = Inr m" by (simp add: max_source_frames_def)
  then show ?thesis by (auto simp: max_source_frames_Inr_iff)
qed

lemma new_range_Inr_iff:
  "new_range s e = Inr r \<longleftrightarrow> unat s < unat e \<and> r = \<lparr>range_start = s, range_end = e\<rparr>"
  by (auto simp: new_range_def word_order_nat)

lemma validate_range_Inr_iff:
  "validate_range r n = Inr u \<longleftrightarrow>
     unat (range_start r) < unat (range_end r) \<and> unat (range_end r) \<le> unat n"
  by (auto simp: validate_range_def word_order_nat)


lemmas audio_eval = sample_range_to_millis_def work_range_to_original_frames_def validate_range_def
  new_range_def checked_ceil_ratio_def checked_mul_def checked_add_def checked_sub_def Let_def
  WORK_SAMPLE_RATE_HZ_def MAX_DECODED_AUDIO_DURATION_SECONDS_def

subsection \<open>Sample ranges to milliseconds\<close>

lemma sample_range_to_millis_Inr:
  assumes "sample_range_to_millis r rate n = Inr ms"
  shows "rate \<noteq> 0"
    and "unat (start_ms ms) = unat (range_start r) * 1000 div unat rate"
    and "unat (end_ms ms) = (unat (range_end r) * 1000 + (unat rate - 1)) div unat rate"
    and "unat (start_ms ms) < unat (end_ms ms)"
  using assms
  by (auto simp: sample_range_to_millis_def result_simps checked_simps checked_ceil_ratio_Inr_iff
      validate_range_Inr_iff unat_div_distrib word_order_nat Let_def split: if_splits)

lemma floor_div_bounds:
  fixes a d :: nat
  assumes "0 < d"
  shows "(a div d) * d \<le> a" "a < (a div d + 1) * d"
proof -
  have "(a div d) * d + a mod d = a" by simp
  moreover have "a mod d < d" using assms by simp
  ultimately show "(a div d) * d \<le> a" "a < (a div d + 1) * d"
    by (simp_all only: distrib_right mult_1)
qed

text \<open>the millisecond range computed for a sample range covers it and is the tightest one:
  its start is the last whole millisecond at or before the first sample, its end the first whole
  millisecond at or after the last.\<close>

theorem sample_range_to_millis_covers:
  assumes "sample_range_to_millis r rate n = Inr ms"
  shows "unat (start_ms ms) * unat rate \<le> unat (range_start r) * 1000 \<and>
         unat (range_start r) * 1000 < (unat (start_ms ms) + 1) * unat rate \<and>
         unat (range_end r) * 1000 \<le> unat (end_ms ms) * unat rate \<and>
         unat (end_ms ms) * unat rate < unat (range_end r) * 1000 + unat rate \<and>
         start_ms ms < end_ms ms"
proof -
  note facts = sample_range_to_millis_Inr [OF assms]
  from facts(1) have pos: "0 < unat rate" by (simp add: unat_nonzero_iff)
  show ?thesis
    using floor_div_bounds [OF pos, of "unat (range_start r) * 1000"]
      ceil_div_bounds [OF pos, of "unat (range_end r) * 1000"] facts(4)
    unfolding facts(2,3) [symmetric] by (simp add: word_less_nat_alt)
qed

theorem sample_range_to_millis_covers_witness:
  "\<exists>ms. sample_range_to_millis \<lparr>range_start = 7, range_end = 100\<rparr> 16000 200 = Inr ms \<and>
     unat (start_ms ms) * unat (16000::u32) \<le> unat (7::u64) * 1000 \<and> start_ms ms < end_ms ms"
proof -
  let ?ms = "\<lparr>start_ms = 0, end_ms = 7\<rparr>"
  have h: "sample_range_to_millis \<lparr>range_start = 7, range_end = 100\<rparr> 16000 200 = Inr ?ms"
    by (simp add: audio_eval)
  show ?thesis using h sample_range_to_millis_covers [OF h] by (intro exI [of _ ?ms]) simp
qed

text \<open>the conversion succeeds for every non-empty range inside the audio whose end is far
  enough below the word size, so its final emptiness check never fires.\<close>

theorem sample_range_to_millis_total:
  assumes "rate \<noteq> 0" "unat (range_start r) < unat (range_end r)" "unat (range_end r) \<le> unat n"
    and fits: "unat (range_end r) * 1000 + unat rate \<le> 2 ^ 64"
  shows "\<exists>ms. sample_range_to_millis r rate n = Inr ms"
proof -
  from assms(1) have pos: "0 < unat rate" by (simp add: unat_nonzero_iff)
  have "unat (range_start r) * 1000 < 2 ^ 64" using assms(2) fits by linarith
  then have "checked_mul (range_start r) 1000 \<noteq> None"
    by (simp add: checked_simps)
  then obtain p where p: "checked_mul (range_start r) 1000 = Some p" by blast
  define e where "e = (word_of_nat ((unat (range_end r) * 1000 + (unat rate - 1)) div unat rate) :: u64)"
  have le: "(unat (range_end r) * 1000 + (unat rate - 1)) div unat rate
      \<le> unat (range_end r) * 1000 + (unat rate - 1)" by (rule div_le_dividend)
  with fits pos have "(unat (range_end r) * 1000 + (unat rate - 1)) div unat rate < 2 ^ 64"
    by linarith
  then have ue: "unat e = (unat (range_end r) * 1000 + (unat rate - 1)) div unat rate"
    unfolding e_def by (simp only: unat_of_nat) simp
  have c: "checked_ceil_ratio (range_end r) 1000 (ucast rate) = Inr e"
    unfolding checked_ceil_ratio_Inr_iff using fits pos ue
    by (simp add: checked_simps unat_nonzero_iff)
  have up: "unat (p div ucast rate) = unat (range_start r) * 1000 div unat rate"
    using p by (simp add: unat_div_distrib checked_simps)
  have "unat (range_start r) * 1000 div unat rate < unat e"
  proof (rule ccontr)
    assume "\<not> ?thesis"
    then have "unat e * unat rate \<le> (unat (range_start r) * 1000 div unat rate) * unat rate"
      by (intro mult_le_mono1) simp
    also have "\<dots> \<le> unat (range_start r) * 1000" by (rule floor_div_bounds(1) [OF pos])
    finally show False
      using ceil_div_bounds(1) [OF pos, of "unat (range_end r) * 1000"] assms(2)
      unfolding ue by linarith
  qed
  with up have nle: "\<not> e \<le> p div ucast rate" by (simp add: word_le_nat_alt)
  have "validate_range r n = Inr ()" using assms(2,3) by (simp add: validate_range_Inr_iff)
  with assms(1) p c nle show ?thesis
    by (simp add: sample_range_to_millis_def Let_def)
qed

theorem sample_range_to_millis_total_witness:
  "\<exists>ms. sample_range_to_millis \<lparr>range_start = 0, range_end = 1\<rparr> 48000 10 = Inr ms"
  by (rule sample_range_to_millis_total) simp_all

subsection \<open>Work positions back to source frames\<close>

text \<open>a range of the 16 kHz working audio is mapped to a non-empty range inside the source
  audio that contains it, cut at the end of the source only.\<close>

theorem work_range_to_original_frames_sound:
  assumes "work_range_to_original_frames r rate frames = Inr m"
  shows "range_start m < range_end m \<and> range_end m \<le> frames \<and>
         unat (range_start m) * 16000 \<le> unat (range_start r) * unat rate \<and>
         (range_end m = frames \<or> unat (range_end r) * unat rate \<le> unat (range_end m) * 16000)"
proof -
  from assms obtain p e
    where cp: "checked_mul (range_start r) (ucast rate) = Some p"
      and ce: "checked_ceil_ratio (range_end r) (ucast rate) (ucast WORK_SAMPLE_RATE_HZ) = Inr e"
      and cm: "new_range (p div ucast WORK_SAMPLE_RATE_HZ) (min e frames) = Inr m"
      and v: "validate_range m frames = Inr ()"
    by (auto simp: work_range_to_original_frames_def result_simps Let_def split: if_splits)
  from cp have p: "unat p = unat (range_start r) * unat rate" by (simp add: checked_simps)
  from ce have e: "unat e = (unat (range_end r) * unat rate + (16000 - 1)) div 16000"
    by (simp add: checked_ceil_ratio_Inr_iff checked_simps audio_constants)
  from cm have m: "unat (range_start m) = unat p div 16000" "range_end m = min e frames"
    by (simp_all add: new_range_Inr_iff unat_div_distrib checked_simps audio_constants)
  have "unat (range_start m) * 16000 \<le> unat (range_start r) * unat rate"
    using floor_div_bounds(1) [of 16000 "unat p"] by (simp add: m(1) p)
  moreover have "range_end m = frames \<or> unat (range_end r) * unat rate \<le> unat (range_end m) * 16000"
    using ceil_div_bounds(1) [of 16000 "unat (range_end r) * unat rate"] e
    by (auto simp: m(2) min_def)
  ultimately show ?thesis using v by (simp add: validate_range_Inr_iff word_order_nat)
qed

theorem work_range_to_original_frames_sound_witness:
  "\<exists>m. work_range_to_original_frames \<lparr>range_start = 10, range_end = 20\<rparr> 44100 50 = Inr m \<and>
     range_end m \<le> 50"
proof -
  let ?m = "\<lparr>range_start = 27, range_end = 50\<rparr>"
  have h: "work_range_to_original_frames \<lparr>range_start = 10, range_end = 20\<rparr> 44100 50 = Inr ?m"
    by (simp add: audio_eval)
  show ?thesis
    using h work_range_to_original_frames_sound [OF h] by (intro exI [of _ ?m]) simp
qed


subsection \<open>The budget's invariant\<close>

definition budget_ok :: "DecodeResourceBudget \<Rightarrow> bool" where
  "budget_ok b \<longleftrightarrow> budget_channels b \<noteq> 0 \<and>
     unat (budget_interleaved b) = unat (budget_source_frames b) * unat (budget_channels b) \<and>
     unat (budget_max_interleaved b) = unat (budget_max_source_frames b) * unat (budget_channels b) \<and>
     unat (budget_source_frames b) \<le> unat (budget_max_source_frames b)"

lemma new_budget_facts:
  assumes "new_budget rate channels = Inr b"
  shows "budget_ok b" "budget_channels b = channels" "budget_source_frames b = 0"
    "unat (budget_max_source_frames b) = unat rate * 86400" "budget_interleaved b = 0" "rate \<noteq> 0"
  using assms
  by (auto simp: new_budget_def budget_ok_def result_simps checked_simps max_source_frames_Inr_iff
      checked_interleaved_samples_def split: if_splits)

lemma accept_packet_facts:
  assumes "accept_packet b f n = Inr b'"
  shows "unat (budget_source_frames b') = unat (budget_source_frames b) + unat f"
    "unat (budget_interleaved b') = unat (budget_interleaved b) + unat n"
    "unat n = unat f * unat (budget_channels b)"
    "budget_source_frames b' \<le> budget_max_source_frames b"
    "budget_channels b' = budget_channels b"
    "budget_max_source_frames b' = budget_max_source_frames b"
    "budget_max_interleaved b' = budget_max_interleaved b" "0 < unat f"
  using assms
  by (auto simp: accept_packet_def result_simps checked_simps checked_interleaved_samples_def
      not_less unat_gt_0 split: if_splits)

lemma accept_packet_ok: "budget_ok b \<Longrightarrow> accept_packet b f n = Inr b' \<Longrightarrow> budget_ok b'"
  using accept_packet_facts [of b f n b']
  by (simp add: budget_ok_def word_le_nat_alt distrib_right)

text \<open>The budget after a request: unchanged when the request is refused.\<close>

definition budget_step :: "DecodeResourceBudget \<Rightarrow> u64 \<times> usize \<Rightarrow> DecodeResourceBudget" where
  "budget_step b x = (case accept_packet b (fst x) (snd x) of Inl _ \<Rightarrow> b | Inr b' \<Rightarrow> b')"

interpretation budget: invariant_system budget_step budget_ok
  by unfold_locales (auto simp: budget_step_def accept_packet_ok split: sum.splits)

text \<open>whatever packets a decoder offers to a fresh budget, the accepted frames never exceed
  24 hours at the source rate and the accepted samples are frames times channels.\<close>

theorem budget_never_exceeded:
  assumes "new_budget rate channels = Inr b"
  shows "budget_ok (foldl budget_step b packets)"
  by (rule budget.run_inv [OF new_budget_facts(1) [OF assms]])

theorem budget_never_exceeded_witness:
  "\<exists>b. new_budget 1 2 = Inr b \<and> budget_ok (foldl budget_step b [(5, 10), (1, 7), (86396, 172792)])"
proof -
  let ?b = "\<lparr>budget_channels = 2, budget_max_source_frames = 86400, budget_max_interleaved = 172800,
    budget_source_frames = 0, budget_interleaved = 0\<rparr>"
  have h: "new_budget 1 2 = Inr ?b"
    by (simp add: new_budget_def max_source_frames_def checked_interleaved_samples_def audio_eval)
  show ?thesis using h budget_never_exceeded [OF h] by blast
qed

text \<open>under its invariant the budget accepts exactly the packets that are non-empty,
  consistent with the channel count and within the frame limit: the separate limit on
  interleaved samples and both overflow checks refuse nothing more.\<close>

theorem accept_packet_exact:
  assumes ok: "budget_ok b"
  shows "(\<exists>b'. accept_packet b f n = Inr b') \<longleftrightarrow>
    0 < unat f \<and> unat n = unat f * unat (budget_channels b) \<and>
    unat (budget_source_frames b) + unat f \<le> unat (budget_max_source_frames b)"
    (is "?acc \<longleftrightarrow> ?fits")
proof
  assume ?acc
  then obtain b' where "accept_packet b f n = Inr b'" by blast
  from accept_packet_facts [OF this] show ?fits by (simp add: word_le_nat_alt)
next
  assume fits: ?fits
  let ?c = "unat (budget_channels b)"
  from ok have c: "0 < ?c" by (simp add: budget_ok_def unat_gt_0)
  have m: "(unat (budget_source_frames b) + unat f) * ?c \<le> unat (budget_max_source_frames b) * ?c"
    using fits by (intro mult_le_mono1) simp
  then have sum: "unat (budget_interleaved b) + unat n \<le> unat (budget_max_interleaved b)"
    using ok fits by (simp add: budget_ok_def distrib_right)
  obtain f' where f': "checked_add (budget_source_frames b) f = Some f'"
      "unat f' = unat (budget_source_frames b) + unat f"
    using fits unat_less_exp [of "budget_max_source_frames b"]
    by (cases "checked_add (budget_source_frames b) f") (auto simp: checked_simps)
  obtain i' where i': "checked_add (budget_interleaved b) n = Some i'"
      "unat i' = unat (budget_interleaved b) + unat n"
    using sum unat_less_exp [of "budget_max_interleaved b"]
    by (cases "checked_add (budget_interleaved b) n") (auto simp: checked_simps)
  have "checked_mul f (budget_channels b) = Some n" using fits by (simp add: checked_simps)
  moreover have "f \<noteq> 0" using fits by (simp add: unat_nonzero_iff)
  moreover have "n \<noteq> 0" using fits c by (simp add: unat_nonzero_iff)
  ultimately show ?acc
    using fits sum by (simp add: accept_packet_def checked_interleaved_samples_def f' i' word_order_nat)
qed

theorem accept_packet_exact_witness:
  "\<exists>b. budget_ok b \<and> (\<exists>b'. accept_packet b 86400 86400 = Inr b') \<and>
     \<not> (\<exists>b'. accept_packet b 86401 86401 = Inr b')"
proof -
  let ?b = "\<lparr>budget_channels = 1, budget_max_source_frames = 86400, budget_max_interleaved = 86400,
    budget_source_frames = 0, budget_interleaved = 0\<rparr>"
  have h: "budget_ok ?b" by (simp add: budget_ok_def)
  show ?thesis
    using h accept_packet_exact [OF h, of 86400 86400] accept_packet_exact [OF h, of 86401 86401]
    by (intro exI [of _ ?b]) simp
qed

subsection \<open>What a successful decode guarantees\<close>

text \<open>The decoder's contract: a decoded buffer holds one sample per frame and channel.\<close>

definition decoded_ok :: "'f decoded \<Rightarrow> bool" where
  "decoded_ok d \<longleftrightarrow> length (dec_pcm d) = unat (dec_frames d) * unat (dec_channels d)"

fun demux_ok :: "'f demux \<Rightarrow> bool" where
  "demux_ok (Packet t (Some d)) \<longleftrightarrow> decoded_ok d"
| "demux_ok _ \<longleftrightarrow> True"

definition decode_inv :: "'f decode_state \<Rightarrow> bool" where
  "decode_inv s \<longleftrightarrow>
     (case ds_budget s of
        None \<Rightarrow> ds_frames s = 0 \<and> ds_interleaved s = []
      | Some b \<Rightarrow> budget_ok b \<and> ds_frames s = budget_source_frames b \<and> 0 < unat (ds_frames s) \<and>
          ds_channels s = Some (budget_channels b) \<and>
          length (ds_interleaved s) = unat (budget_interleaved b) \<and>
          (\<exists>rate. ds_rate s = Some rate \<and> rate \<noteq> 0 \<and>
             unat (budget_max_source_frames b) = unat rate * 86400))"

lemma decode_start_inv: "decode_inv decode_start"
  by (simp add: decode_inv_def decode_start_def)

lemma decode_buffer_inv:
  assumes inv: "decode_inv s" and d: "decoded_ok d" and r: "decode_buffer alloc s d = Inr s'"
  shows "decode_inv s'"
proof (cases "dec_frames d = 0")
  case True
  with inv r show ?thesis
    by (auto simp: decode_buffer_def decode_inv_def Let_def split: if_splits option.splits)
next
  case False
  with r obtain n b b' where n: "unat n = unat (dec_frames d) * unat (dec_channels d)"
    and b: "(case ds_budget s of Some b \<Rightarrow> Inr b
             | None \<Rightarrow> new_budget (dec_rate d) (dec_channels d)) = Inr b"
    and acc: "accept_packet b (dec_frames d) n = Inr b'"
    and s': "s' = s\<lparr>ds_rate := Some (dec_rate d), ds_channels := Some (dec_channels d),
       ds_frames := budget_source_frames b', ds_budget := Some b',
       ds_interleaved := ds_interleaved s @ dec_pcm d\<rparr>"
    and same: "ds_rate s = None \<or> ds_rate s = Some (dec_rate d)"
      "ds_channels s = None \<or> ds_channels s = Some (dec_channels d)" "dec_rate d \<noteq> 0"
    by (auto simp: decode_buffer_def result_simps checked_simps Let_def split: if_splits)
  have base: "budget_ok b \<and> budget_channels b = dec_channels d \<and>
      unat (budget_max_source_frames b) = unat (dec_rate d) * 86400 \<and>
      length (ds_interleaved s) = unat (budget_interleaved b)"
    using b inv same new_budget_facts [of "dec_rate d" "dec_channels d" b]
    by (cases "ds_budget s") (auto simp: decode_inv_def)
  note facts = accept_packet_facts [OF acc]
  have "budget_ok b'" using base accept_packet_ok [OF _ acc] by blast
  with base facts same d n show ?thesis
    by (simp add: s' decode_inv_def decoded_ok_def)
qed

lemma decode_loop_inv:
  assumes "decode_inv s" "\<forall>p \<in> set ps. demux_ok p" "decode_loop alloc track s ps = Inr s'"
  shows "decode_inv s'"
  using assms
proof (induction alloc track s ps rule: decode_loop.induct)
  case (3 alloc track s t buffer rest)
  then show ?case
    by (cases buffer) (auto simp: result_simps split: if_splits dest: decode_buffer_inv)
qed auto

lemma length_chunks_exact:
  "0 < n \<Longrightarrow> length (chunks_exact n xs) = length xs div n"
proof (induction n xs rule: chunks_exact.induct)
  case (1 n xs)
  show ?case
  proof (cases "length xs < n")
    case True
    then show ?thesis by (simp add: chunks_exact.simps [of n xs])
  next
    case False
    with 1 have "length (chunks_exact n xs) = Suc ((length xs - n) div n)"
      by (simp add: chunks_exact.simps [of n xs])
    also have "\<dots> = length xs div n"
      using False \<open>0 < n\<close> by (simp add: le_div_geq)
    finally show ?thesis .
  qed
qed

lemma sanitize_and_downmix_length:
  assumes "sanitize_and_downmix ops alloc xs channels = Inr ys"
  shows "length ys * unat channels = length xs \<and> channels \<noteq> 0"
  using assms
  by (auto simp: sanitize_and_downmix_def result_simps length_chunks_exact unat_gt_0 mod_eq_0_iff_dvd
      split: if_splits)

definition resampler_ok :: "'f resampler \<Rightarrow> bool" where
  "resampler_ok rs \<longleftrightarrow>
     (\<forall>rate xs p out. rs_process rs rate xs = Some (p, out) \<longrightarrow> p \<le> length out)"

lemma resampled_frame_count_Inr:
  assumes "resampled_frame_count frames rate = Inr n"
  shows "unat n = (unat frames * 16000 + (unat rate - 1)) div unat rate"
    "unat frames \<le> unat rate * 86400" "unat n \<le> 16000 * 86400" "rate \<noteq> 0"
proof -
  from assms obtain limit cap where rate: "rate \<noteq> 0"
    and limit: "max_source_frames rate = Inr limit" "\<not> limit < frames"
    and out: "checked_ceil_ratio frames (ucast WORK_SAMPLE_RATE_HZ) (ucast rate) = Inr n"
    and cap: "checked_mul (ucast WORK_SAMPLE_RATE_HZ) MAX_DECODED_AUDIO_DURATION_SECONDS = Some cap"
      "\<not> cap < n"
    by (auto simp: resampled_frame_count_def result_simps split: if_splits)
  show "rate \<noteq> 0" by (rule rate)
  show "unat n = (unat frames * 16000 + (unat rate - 1)) div unat rate"
    using out unfolding checked_ceil_ratio_Inr_iff
    by (simp only: unat_ucast_u32 audio_constants)
  show "unat frames \<le> unat rate * 86400"
    using limit unfolding max_source_frames_Inr_iff word_less_nat_alt by linarith
  show "unat n \<le> 16000 * 86400"
    using cap unfolding checked_mul_Some_iff word_less_nat_alt unat_ucast_u32 audio_constants
    by linarith
qed

lemma resample_mono_length:
  assumes ok: "resampler_ok rs" and r: "resample_mono ops alloc rs xs rate = Inr ys"
  shows "length ys = (length xs * 16000 + (unat rate - 1)) div unat rate"
proof -
  from r have ne: "rate \<noteq> 0" "xs \<noteq> []" by (auto simp: resample_mono_def split: if_splits)
  obtain n where n: "len_u64 xs = Some n"
    using r ne by (cases "len_u64 xs") (auto simp: resample_mono_def)
  obtain e where e: "resampled_frame_count n rate = Inr e"
    using r ne by (cases "resampled_frame_count n rate") (auto simp: resample_mono_def n)
  from n have un: "unat n = length xs" by (simp only: len_u64_Some_iff)
  have out: "length ys = unat e"
  proof (cases "rate = WORK_SAMPLE_RATE_HZ")
    case True
    with r ne n e have "ys = xs"
      by (auto simp: resample_mono_def copy_f32_samples_def result_simps)
    moreover have "unat e = length xs"
      using resampled_frame_count_Inr(1) [OF e] True by (simp add: un audio_constants)
    ultimately show ?thesis by simp
  next
    case False
    with r ne n e obtain out where "rs_process rs rate xs = Some (unat e, out)"
      "ys = map (\<lambda>x. if f_finite ops x then f_clamp ops x else f_zero ops) (take (unat e) out)"
      by (auto simp: resample_mono_def copy_f32_samples_def result_simps
          split: if_splits option.splits)
    with ok show ?thesis by (auto simp: resampler_ok_def)
  qed
  show ?thesis by (simp only: out resampled_frame_count_Inr(1) [OF e] un)
qed


text \<open>C36: whatever an untrusted container delivers, a successful decode has between one frame and
  24 hours of source audio, reports its length in milliseconds exactly (rounded up, at most
  86,400,000) and returns exactly the 16 kHz samples that length calls for.\<close>

theorem decode_from_file_bounds:
  assumes decoder: "\<forall>p \<in> set packets. demux_ok p" and rs: "resampler_ok rs"
    and r: "decode_from_file ops alloc rs opened packets = Inr w"
  shows "0 < unat (source_frames w) \<and>
    unat (source_frames w) \<le> unat (source_sample_rate_hz w) * 86400 \<and>
    unat (duration_ms w) =
      (unat (source_frames w) * 1000 + (unat (source_sample_rate_hz w) - 1))
        div unat (source_sample_rate_hz w) \<and>
    unat (duration_ms w) \<le> 86400000 \<and>
    length (samples w) =
      (unat (source_frames w) * 16000 + (unat (source_sample_rate_hz w) - 1))
        div unat (source_sample_rate_hz w)"
proof -
  from r obtain src s rate channels xs ys ms
    where "opened = Some src"
      and loop: "decode_loop alloc (oa_track src) decode_start packets = Inr s"
      and rate: "ds_rate s = Some rate" and channels: "ds_channels s = Some channels"
      and frames: "ds_frames s \<noteq> 0"
      and down: "sanitize_and_downmix ops alloc (ds_interleaved s) channels = Inr xs"
      and res: "resample_mono ops alloc rs xs rate = Inr ys"
      and ms: "checked_ceil_ratio (ds_frames s) 1000 (ucast rate) = Inr ms"
      and w: "w = \<lparr>samples = ys, sample_rate_hz = WORK_SAMPLE_RATE_HZ,
                   source_sample_rate_hz = rate, source_channels = channels,
                   source_frames = ds_frames s, duration_ms = ms\<rparr>"
    by (auto simp: decode_from_file_def result_simps split: if_splits)
  have "decode_inv s" by (rule decode_loop_inv [OF decode_start_inv decoder loop])
  with frames rate channels obtain b where b: "budget_ok b" "ds_frames s = budget_source_frames b"
      "channels = budget_channels b" "length (ds_interleaved s) = unat (budget_interleaved b)"
      "rate \<noteq> 0" "unat (budget_max_source_frames b) = unat rate * 86400"
    by (auto simp: decode_inv_def split: option.splits)
  have limit: "unat (ds_frames s) \<le> unat rate * 86400" using b by (simp add: budget_ok_def)
  have "length xs * unat channels = unat (ds_frames s) * unat channels"
    using sanitize_and_downmix_length [OF down] b by (simp add: budget_ok_def)
  then have xs: "length xs = unat (ds_frames s)"
    using b by (auto simp: budget_ok_def unat_nonzero_iff)
  have pos: "0 < unat rate" using b by (simp add: unat_nonzero_iff)
  have dur: "unat ms = (unat (ds_frames s) * 1000 + (unat rate - 1)) div unat rate"
    using ms unfolding checked_ceil_ratio_Inr_iff by (simp add: checked_simps)
  have "unat (ds_frames s) * 1000 \<le> 86400000 * unat rate" using limit by linarith
  then have "unat ms \<le> 86400000" unfolding dur ceil_div_le_iff [OF pos] .
  with frames limit dur resample_mono_length [OF rs res] show ?thesis
    by (simp add: w xs unat_gt_0)
qed

definition witness_ops :: "(int, int) float_ops" where
  "witness_ops = \<lparr>f_zero = 0, f_finite = (\<lambda>_. True), f_clamp = id, widen = id, narrow = id,
     d_zero = 0, d_add = (+), d_mul = (*), d_div = (div), d_clamp = id, d_of_u64 = uint\<rparr>"

definition witness_resampler :: "int resampler" where
  "witness_resampler = \<lparr>rs_create = (\<lambda>_ _. True), rs_needed = (\<lambda>_ n. n),
     rs_process = (\<lambda>_ xs. Some (length xs, xs))\<rparr>"

theorem decode_from_file_bounds_witness:
  "\<exists>w. decode_from_file witness_ops (\<lambda>_. True) witness_resampler
         (Some \<lparr>oa_track = 0, oa_codec_rate = Some 16000, oa_num_frames = Some 2, oa_decoder = True\<rparr>)
         [Packet 0 (Some \<lparr>dec_rate = 16000, dec_channels = 2, dec_frames = 2,
            dec_samples_interleaved = 4, dec_pcm = [2, 4, 6, 8]\<rparr>)] = Inr w \<and>
     samples w = [3, 7] \<and> unat (duration_ms w) \<le> 86400000"
proof -
  let ?ps = "[Packet 0 (Some \<lparr>dec_rate = 16000, dec_channels = 2, dec_frames = 2,
            dec_samples_interleaved = 4, dec_pcm = [2, 4, 6, 8]\<rparr>)] :: int demux list"
  let ?w = "\<lparr>samples = [3, 7], sample_rate_hz = 16000, source_sample_rate_hz = 16000,
    source_channels = 2, source_frames = 2, duration_ms = 1\<rparr> :: int WorkingAudio"
  have ps: "\<forall>p \<in> set ?ps. demux_ok p" by (simp add: decoded_ok_def)
  have rs: "resampler_ok witness_resampler" by (simp add: resampler_ok_def witness_resampler_def)
  have w: "decode_from_file witness_ops (\<lambda>_. True) witness_resampler
      (Some \<lparr>oa_track = 0, oa_codec_rate = Some 16000, oa_num_frames = Some 2, oa_decoder = True\<rparr>)
      ?ps = Inr ?w"
    by (simp add: decode_from_file_def validate_declared_source_frames_def max_source_frames_def
        decode_start_def decode_buffer_def new_budget_def checked_interleaved_samples_def
        accept_packet_def reserve_f32_capacity_def sanitize_and_downmix_def chunks_exact.simps
        resample_mono_def len_u64_def resampled_frame_count_def copy_f32_samples_def
        witness_ops_def witness_resampler_def audio_eval)
  show ?thesis using w decode_from_file_bounds [OF ps rs w] by (intro exI [of _ ?w]) simp
qed

end
