(* ===== verification/Vad.thy ===== *)
theory Vad
  imports Audio
begin

section \<open>Splitting speech into provider windows: \<open>asr/vad.rs\<close>\<close>

text \<open>
  The detector's speech ranges are validated and each is cut into windows no longer than the
  provider accepts, at quiet positions of a fixed grid.  Energies are computed with the IEEE
  operations of \<open>float_ops\<close> and compared with \<open>f64::total_cmp\<close>, a linear order.  The native
  detector itself and the model lease are outside the model.
\<close>

subsection \<open>Constants and data\<close>

definition PADDING :: u64 where "PADDING = 3200"
definition MAX_PROVIDER_WINDOW :: u64 where "MAX_PROVIDER_WINDOW = 400000"
definition ENERGY_FRAME :: u64 where "ENERGY_FRAME = 320"
definition ENERGY_HALF_FRAME :: u64 where "ENERGY_HALF_FRAME = 160"
definition SPLIT_SEARCH_RADIUS :: u64 where "SPLIT_SEARCH_RADIUS = 32000"

lemmas vad_constants = PADDING_def MAX_PROVIDER_WINDOW_def ENERGY_FRAME_def ENERGY_HALF_FRAME_def
  SPLIT_SEARCH_RADIUS_def

record ProviderWindow =
  core :: SampleRange
  inference :: SampleRange

record EvidenceUtterance =
  evidence :: SampleRange
  windows :: "ProviderWindow list"

text \<open>An \<open>f32\<close> of the configuration is its bit pattern; every canonical value is a normal number, so
  equality of floats is equality of the patterns there.\<close>

record VadRuntimeConfig =
  threshold :: u32
  min_silence_duration_seconds :: u32
  min_speech_duration_seconds :: u32
  max_speech_duration_seconds :: u32
  window_size_samples :: int
  vad_sample_rate_hz :: int
  vad_num_threads :: int
  vad_provider :: string

definition canonical_config :: VadRuntimeConfig where
  "canonical_config = \<lparr>threshold = 0x3F000000, min_silence_duration_seconds = 0x3F000000,
     min_speech_duration_seconds = 0x3E800000, max_speech_duration_seconds = 0x41A00000,
     window_size_samples = 512, vad_sample_rate_hz = 16000, vad_num_threads = 1,
     vad_provider = ''cpu''\<rparr>"

definition config_from_manifest :: "VadRuntimeConfig \<Rightarrow> AudioPreparationError + VadRuntimeConfig" where
  "config_from_manifest manifest =
     (if manifest \<noteq> canonical_config then Inl InvalidVadConfig else Inr manifest)"

subsection \<open>Choosing a boundary\<close>

definition checked_sub_or_zero :: "u64 \<Rightarrow> u64 \<Rightarrow> u64" where
  "checked_sub_or_zero v a = (case checked_sub v a of Some w \<Rightarrow> w | None \<Rightarrow> 0)"

definition candidate_less :: "u64 \<times> 'd::linorder \<Rightarrow> u64 \<times> 'd \<Rightarrow> bool" where
  "candidate_less l r \<longleftrightarrow> snd l < snd r \<or> (snd l = snd r \<and> fst l < fst r)"

text \<open>\<open>Iterator::min_by\<close> keeps the first of equal elements.\<close>

definition select_boundary :: "u64 \<Rightarrow> (u64 \<times> 'd::linorder) list \<Rightarrow> u64" where
  "select_boundary latest_safe candidates =
     (case candidates of
        [] \<Rightarrow> latest_safe
      | c # cs \<Rightarrow> fst (foldl (\<lambda>best x. if candidate_less x best then x else best) c cs))"

function grid_from :: "u64 \<Rightarrow> u64 \<Rightarrow> u64 list" where
  "grid_from candidate stop =
     (if candidate \<le> stop
      then candidate # (case checked_add candidate ENERGY_FRAME of
                          Some c \<Rightarrow> grid_from c stop
                        | None \<Rightarrow> [])
      else [])"
  by pat_completeness auto
termination
proof (relation "measure (\<lambda>(c, l). 2 ^ 64 - unat c)")
  fix candidate stop c :: u64
  assume "checked_add candidate ENERGY_FRAME = Some c"
  then have "unat c = unat candidate + 320" by (simp add: checked_simps vad_constants)
  with unat_less_exp [of c] have "2 ^ 64 - unat c < 2 ^ 64 - unat candidate" by simp
  then show "((c, stop), candidate, stop) \<in> measure (\<lambda>(c, l). 2 ^ 64 - unat c)" by simp
qed simp

declare grid_from.simps [simp del]

definition absolute_grid_candidates :: "u64 \<Rightarrow> u64 \<Rightarrow> AudioPreparationError + u64 list" where
  "absolute_grid_candidates start stop =
     (if stop < start then Inr []
      else let remainder = start mod ENERGY_FRAME in
        and_then (if remainder = 0 then Inr start
                  else ok_or ArithmeticOverflow (checked_add start (ENERGY_FRAME - remainder)))
          (\<lambda>c. Inr (grid_from c stop)))"

definition frame_energy :: "('f, 'd) float_ops \<Rightarrow> 'f list \<Rightarrow> 'd" where
  "frame_energy ops frame =
     d_div ops (foldl (\<lambda>sum x. d_add ops sum (d_mul ops (widen ops x) (widen ops x)))
                  (d_zero ops) frame)
       (d_of_u64 ops ENERGY_FRAME)"

fun score_candidates ::
    "('f, 'd) float_ops \<Rightarrow> 'f list \<Rightarrow> SampleRange \<Rightarrow> u64 \<Rightarrow> u64 \<Rightarrow> u64 \<Rightarrow> u64 \<Rightarrow> u64 \<Rightarrow> u64 list \<Rightarrow>
       AudioPreparationError + (u64 \<times> 'd) list" where
  "score_candidates ops xs c cursor latest_safe search_start search_end n [] = Inr []"
| "score_candidates ops xs c cursor latest_safe search_start search_end n (cand # rest) =
     (let go_on = score_candidates ops xs c cursor latest_safe search_start search_end n rest in
      case checked_sub cand ENERGY_HALF_FRAME of
        None \<Rightarrow> go_on
      | Some frame_start \<Rightarrow>
          and_then (ok_or ArithmeticOverflow (checked_add cand ENERGY_HALF_FRAME)) (\<lambda>frame_end.
          if cand mod ENERGY_FRAME \<noteq> 0 \<or> cand \<le> cursor \<or> latest_safe < cand \<or>
             cand < range_start c \<or> range_end c \<le> cand \<or> cand < search_start \<or> search_end < cand \<or>
             frame_start < range_start c \<or> range_end c < frame_end \<or> n < frame_end
          then go_on
          else and_then (checked_sample_index frame_start n) (\<lambda>s.
               if n < frame_end then Inl IndexOutOfRange
               else and_then go_on (\<lambda>scored.
                 Inr ((cand, frame_energy ops
                         (take (unat frame_end - unat s) (drop (unat s) xs))) # scored)))))"

definition select_split_boundary ::
    "('f, 'd::linorder) float_ops \<Rightarrow> 'f list \<Rightarrow> SampleRange \<Rightarrow> u64 \<Rightarrow> u64 \<Rightarrow> u64 list option \<Rightarrow>
       AudioPreparationError + u64" where
  "select_split_boundary ops xs c cursor latest_safe injected =
     and_then (ok_or IndexOutOfRange (len_u64 xs)) (\<lambda>n.
     if cursor < range_start c \<or> latest_safe \<le> cursor \<or> range_end c \<le> latest_safe \<or> n < range_end c
     then Inl InvalidRange
     else let search_start = checked_sub_or_zero latest_safe SPLIT_SEARCH_RADIUS in
       and_then (ok_or ArithmeticOverflow (checked_add latest_safe SPLIT_SEARCH_RADIUS)) (\<lambda>search_end.
       and_then (case injected of
                   Some cs \<Rightarrow> Inr cs
                 | None \<Rightarrow> absolute_grid_candidates search_start latest_safe) (\<lambda>candidates.
       and_then (score_candidates ops xs c cursor latest_safe search_start search_end n candidates)
         (\<lambda>scored. Inr (select_boundary latest_safe scored)))))"

subsection \<open>Cutting a core into windows\<close>

function partition_loop ::
    "('f, 'd::linorder) float_ops \<Rightarrow> 'f list \<Rightarrow> SampleRange \<Rightarrow> u64 \<Rightarrow> u64 \<Rightarrow>
       AudioPreparationError + ProviderWindow list" where
  "partition_loop ops xs c n cursor =
     (if range_end c \<le> cursor then Inr []
      else let inference_start = checked_sub_or_zero cursor PADDING in
        and_then (ok_or ArithmeticOverflow (checked_add (range_end c) PADDING)) (\<lambda>padded.
        let padded_core_end = min padded n in
        and_then (ok_or ArithmeticOverflow (checked_sub padded_core_end inference_start)) (\<lambda>padded_len.
        if padded_len \<le> MAX_PROVIDER_WINDOW
        then and_then (new_range cursor (range_end c)) (\<lambda>cr.
             and_then (new_range inference_start padded_core_end) (\<lambda>ir.
             Inr [\<lparr>core = cr, inference = ir\<rparr>]))
        else and_then (ok_or ArithmeticOverflow
                        (case checked_add inference_start MAX_PROVIDER_WINDOW of
                           None \<Rightarrow> None | Some v \<Rightarrow> checked_sub v PADDING)) (\<lambda>latest_safe.
          if latest_safe \<le> cursor \<or> range_end c \<le> latest_safe then Inl InvalidRange
          else and_then (select_split_boundary ops xs c cursor latest_safe None) (\<lambda>boundary.
            if boundary \<le> cursor \<or> latest_safe < boundary then Inl InvalidRange
            else and_then (ok_or ArithmeticOverflow (checked_add boundary PADDING)) (\<lambda>inference_end.
                 and_then (new_range inference_start inference_end) (\<lambda>ir.
                 and_then (checked_len ir) (\<lambda>len.
                 if MAX_PROVIDER_WINDOW < len then Inl InvalidRange
                 else and_then (new_range cursor boundary) (\<lambda>cr.
                      and_then (partition_loop ops xs c n boundary) (\<lambda>ws.
                      Inr (\<lparr>core = cr, inference = ir\<rparr> # ws))))))))))) "
  by pat_completeness auto
termination
  by (relation "measure (\<lambda>(ops, xs, c, n, cursor). unat (range_end c) - unat cursor)")
    (auto simp: word_order_nat)

declare partition_loop.simps [simp del]

definition partition_core ::
    "('f, 'd::linorder) float_ops \<Rightarrow> 'f list \<Rightarrow> SampleRange \<Rightarrow>
       AudioPreparationError + ProviderWindow list" where
  "partition_core ops xs c =
     and_then (ok_or IndexOutOfRange (len_u64 xs)) (\<lambda>n.
     if range_end c \<le> range_start c \<or> n < range_end c then Inl InvalidRange
     else partition_loop ops xs c n (range_start c))"

fun validate_cores_from ::
    "u64 \<Rightarrow> SampleRange option \<Rightarrow> SampleRange list \<Rightarrow> AudioPreparationError + unit" where
  "validate_cores_from n previous [] = Inr ()"
| "validate_cores_from n previous (c # cs) =
     (if range_end c \<le> range_start c \<or> n < range_end c then Inl InvalidDetectorCores
      else if (case previous of
                 Some p \<Rightarrow> range_start c \<le> range_start p \<or> range_start c < range_end p
               | None \<Rightarrow> False)
      then Inl InvalidDetectorCores
      else validate_cores_from n (Some c) cs)"

definition validate_detector_cores :: "'f list \<Rightarrow> SampleRange list \<Rightarrow> AudioPreparationError + unit" where
  "validate_detector_cores xs cores =
     and_then (ok_or IndexOutOfRange (len_u64 xs)) (\<lambda>n. validate_cores_from n None cores)"

definition partition_detector_cores ::
    "('f, 'd::linorder) float_ops \<Rightarrow> 'f list \<Rightarrow> SampleRange list \<Rightarrow>
       AudioPreparationError + EvidenceUtterance list" where
  "partition_detector_cores ops xs cores =
     and_then (validate_detector_cores xs cores) (\<lambda>_.
     collect_results (\<lambda>c. and_then (partition_core ops xs c) (\<lambda>ws.
        Inr \<lparr>evidence = c, windows = ws\<rparr>)) cores)"

definition partition_without_vad ::
    "('f, 'd::linorder) float_ops \<Rightarrow> 'f list \<Rightarrow> AudioPreparationError + EvidenceUtterance" where
  "partition_without_vad ops xs =
     and_then (ok_or IndexOutOfRange (len_u64 xs)) (\<lambda>n.
     and_then (new_range 0 n) (\<lambda>e.
     and_then (partition_core ops xs e) (\<lambda>ws.
     Inr \<lparr>evidence = e, windows = ws\<rparr>)))"

text \<open>The detector's drained segments: a start and a length, both signed in the library.\<close>

definition detector_range :: "int \<times> int \<Rightarrow> AudioPreparationError + SampleRange" where
  "detector_range segment =
     (if fst segment < 0 then Inl DetectorFailed
      else if snd segment < 0 then Inl DetectorFailed
      else and_then (ok_or ArithmeticOverflow
             (checked_add (word_of_int (fst segment)) (word_of_int (snd segment)))) (\<lambda>e.
           new_range (word_of_int (fst segment)) e))"


subsection \<open>Facts about boundaries\<close>

lemma unat_vad_constants [simp]: "unat PADDING = 3200" "unat MAX_PROVIDER_WINDOW = 400000"
  "unat ENERGY_FRAME = 320" "unat ENERGY_HALF_FRAME = 160" "unat SPLIT_SEARCH_RADIUS = 32000"
  by (simp_all add: vad_constants)

lemma unat_checked_sub_or_zero [simp]: "unat (checked_sub_or_zero v a) = unat v - unat a"
  by (auto simp: checked_sub_or_zero_def checked_sub_def word_le_nat_alt unat_sub)

lemma candidate_less_linear:
  "\<not> candidate_less x x"
  "candidate_less x y \<Longrightarrow> candidate_less y z \<Longrightarrow> candidate_less x z"
  "\<not> candidate_less x y \<Longrightarrow> \<not> candidate_less y z \<Longrightarrow> \<not> candidate_less x z"
  by (auto simp: candidate_less_def)

lemma foldl_min_candidate:
  fixes c :: "u64 \<times> 'd::linorder"
  defines "m \<equiv> \<lambda>cs. foldl (\<lambda>best x. if candidate_less x best then x else best) c cs"
  shows "m cs \<in> set (c # cs) \<and> (\<forall>x \<in> set (c # cs). \<not> candidate_less x (m cs))"
proof (induction cs rule: rev_induct)
  case Nil
  show ?case by (simp add: m_def candidate_less_linear(1))
next
  case (snoc y cs)
  have step: "m (cs @ [y]) = (if candidate_less y (m cs) then y else m cs)"
    by (simp add: m_def)
  show ?case
  proof (cases "candidate_less y (m cs)")
    case True
    then have "m (cs @ [y]) = y" by (simp add: step)
    moreover have "\<not> candidate_less x y" if "x \<in> set (c # cs)" for x
      using that snoc candidate_less_linear(2) [OF _ True] by blast
    ultimately show ?thesis by (simp add: candidate_less_linear(1))
  next
    case False
    then have "m (cs @ [y]) = m cs" by (simp add: step)
    with snoc False show ?thesis by auto
  qed
qed

lemma select_boundary_cases:
  "cands = [] \<and> select_boundary latest cands = latest \<or>
   (\<exists>e. (select_boundary latest cands, e) \<in> set cands \<and> (\<forall>x \<in> set cands. e \<le> snd x))"
proof (cases cands)
  case Nil
  then show ?thesis by (simp add: select_boundary_def)
next
  case (Cons c cs)
  let ?m = "foldl (\<lambda>best x. if candidate_less x best then x else best) c cs"
  have m: "?m \<in> set cands" "\<forall>x \<in> set cands. \<not> candidate_less x ?m"
    using foldl_min_candidate [of c cs] by (simp_all add: Cons)
  then have "\<forall>x \<in> set cands. snd ?m \<le> snd x" by (auto simp: candidate_less_def not_less)
  with m(1) have "(fst ?m, snd ?m) \<in> set cands \<and> (\<forall>x \<in> set cands. snd ?m \<le> snd x)" by simp
  moreover have "select_boundary latest cands = fst ?m" by (simp add: select_boundary_def Cons)
  ultimately show ?thesis by (intro disjI2 exI [of _ "snd ?m"]) simp
qed

lemma grid_step:
  fixes a x :: nat
  shows "a < x \<and> (x - a) mod 320 = 0 \<longleftrightarrow> a + 320 \<le> x \<and> (x - (a + 320)) mod 320 = 0"
proof
  assume l: "a < x \<and> (x - a) mod 320 = 0"
  then have d: "320 dvd x - a" by (simp add: dvd_eq_mod_eq_0)
  with l have "320 \<le> x - a" by (intro dvd_imp_le) simp_all
  moreover from d have "320 dvd x - a - 320" by (rule dvd_diff_nat) simp
  ultimately show "a + 320 \<le> x \<and> (x - (a + 320)) mod 320 = 0" by (simp add: dvd_eq_mod_eq_0)
next
  assume r: "a + 320 \<le> x \<and> (x - (a + 320)) mod 320 = 0"
  then have "320 dvd (x - (a + 320)) + 320" by (intro dvd_add) (simp_all add: dvd_eq_mod_eq_0)
  with r show "a < x \<and> (x - a) mod 320 = 0" by (simp add: dvd_eq_mod_eq_0)
qed

lemma grid_start:
  fixes a c x :: nat
  assumes "c mod 320 = 0" "a \<le> c" "c < a + 320"
  shows "c \<le> x \<and> (x - c) mod 320 = 0 \<longleftrightarrow> a \<le> x \<and> x mod 320 = 0"
proof
  assume l: "c \<le> x \<and> (x - c) mod 320 = 0"
  then have "320 dvd (x - c) + c" using assms by (intro dvd_add) (simp_all add: dvd_eq_mod_eq_0)
  with l assms show "a \<le> x \<and> x mod 320 = 0" by (simp add: dvd_eq_mod_eq_0)
next
  assume r: "a \<le> x \<and> x mod 320 = 0"
  have "c \<le> x"
  proof (rule ccontr)
    assume "\<not> c \<le> x"
    moreover from r assms have "320 dvd c - x" by (intro dvd_diff_nat) (simp_all add: dvd_eq_mod_eq_0)
    ultimately have "320 \<le> c - x" by (intro dvd_imp_le) simp_all
    with r assms show False by linarith
  qed
  moreover from r assms have "320 dvd x - c" by (intro dvd_diff_nat) (simp_all add: dvd_eq_mod_eq_0)
  ultimately show "c \<le> x \<and> (x - c) mod 320 = 0" by (simp add: dvd_eq_mod_eq_0)
qed

lemma grid_round_up:
  fixes a :: nat
  shows "(a + (320 - a mod 320)) mod 320 = 0"
proof -
  define q r where "q = a div 320" and "r = a mod 320"
  have a: "a = 320 * q + r" by (simp add: q_def r_def)
  have "r < 320" by (simp add: r_def)
  then have "a + (320 - r) = 320 * (q + 1)" unfolding a by simp
  then show ?thesis unfolding r_def by simp
qed

lemma grid_from_iff:
  "x \<in> set (grid_from c stop) \<longleftrightarrow> c \<le> x \<and> x \<le> stop \<and> (unat x - unat c) mod 320 = 0"
proof (induction c stop rule: grid_from.induct)
  case (1 c stop)
  define P where "P d \<longleftrightarrow> d \<le> x \<and> (unat x - unat d) mod 320 = 0" for d :: u64
  define B where "B \<longleftrightarrow> unat c + 320 \<le> unat x \<and> (unat x - (unat c + 320)) mod 320 = 0"
  have Pc: "P x" by (simp add: P_def)
  have "x \<noteq> c \<and> c \<le> x \<longleftrightarrow> unat c < unat x"
    by (auto simp: word_le_nat_alt word_unat_eq_iff)
  then have later: "x \<noteq> c \<and> P c \<longleftrightarrow> B"
    using grid_step [of "unat c" "unat x"] unfolding P_def B_def by (simp only: conj_assoc [symmetric])
  have goal: "x \<in> set (grid_from c stop) \<longleftrightarrow> x \<le> stop \<and> P c"
  proof (cases "c \<le> stop")
    case False
    then have "grid_from c stop = []" by (subst grid_from.simps) (simp only: if_False)
    moreover have "\<not> (x \<le> stop \<and> P c)" using False unfolding P_def by (meson order_trans)
    ultimately show ?thesis by (simp only: set_simps empty_iff)
  next
    case True
    show ?thesis
    proof (cases "checked_add c ENERGY_FRAME")
      case None
      then have "2 ^ LENGTH(64) \<le> unat c + unat ENERGY_FRAME" by (simp only: checked_add_None_iff)
      then have "2 ^ LENGTH(64) \<le> unat c + 320" by (simp only: unat_vad_constants)
      with unat_less_exp [of x] have "\<not> unat c + 320 \<le> unat x" by (simp only: not_le)
      then have "\<not> B" unfolding B_def by blast
      moreover have "grid_from c stop = [c]"
        by (subst grid_from.simps) (simp only: True None if_True option.case)
      then have "x \<in> set (grid_from c stop) \<longleftrightarrow> x = c" by (simp only: set_simps singleton_iff)
      ultimately show ?thesis using later Pc True by blast
    next
      case (Some d)
      then have d: "unat d = unat c + 320" by (simp add: checked_simps)
      have "x \<in> set (grid_from d stop) \<longleftrightarrow> x \<le> stop \<and> P d"
        unfolding P_def 1 [OF True Some] by (rule conj_left_commute)
      moreover have "P d \<longleftrightarrow> B" unfolding P_def B_def by (simp only: word_le_nat_alt d)
      moreover have "grid_from c stop = c # grid_from d stop"
        by (subst grid_from.simps) (simp only: True Some if_True option.case)
      then have "x \<in> set (grid_from c stop) \<longleftrightarrow> x = c \<or> x \<in> set (grid_from d stop)"
        by (simp only: set_simps insert_iff)
      ultimately show ?thesis using later Pc True by blast
    qed
  qed
  then show ?case unfolding P_def by (rule trans) (rule conj_left_commute)
qed

lemma absolute_grid_candidates_total:
  assumes "unat start + 320 < 2 ^ 64"
  shows "\<exists>cs. absolute_grid_candidates start stop = Inr cs \<and>
     (\<forall>x. x \<in> set cs \<longleftrightarrow> start \<le> x \<and> x \<le> stop \<and> unat x mod 320 = 0)"
proof -
  let ?r = "start mod ENERGY_FRAME"
  have r: "unat ?r = unat start mod 320" by (simp add: unat_mod_distrib)
  have key: "\<exists>c. (if ?r = 0 then Inr start
      else ok_or ArithmeticOverflow (checked_add start (ENERGY_FRAME - ?r))) = Inr c \<and>
      unat c mod 320 = 0 \<and> unat start \<le> unat c \<and> unat c < unat start + 320"
  proof (cases "?r = 0")
    case True
    with r show ?thesis by (auto simp: word_unat_eq_iff)
  next
    case False
    have "unat start mod 320 < 320" by simp
    then have le: "?r \<le> ENERGY_FRAME"
      by (simp only: word_le_nat_alt r unat_vad_constants)
    have sub: "unat (ENERGY_FRAME - ?r) = 320 - unat start mod 320"
      by (simp only: unat_sub [OF le] r unat_vad_constants)
    have pos: "0 < unat start mod 320" using False r by (simp only: unat_nonzero_iff)
    then have lt: "unat start + (320 - unat start mod 320) < 2 ^ 64" using assms by linarith
    then have "\<not> 2 ^ LENGTH(64) \<le> unat start + unat (ENERGY_FRAME - ?r)"
      unfolding sub by simp
    then have "checked_add start (ENERGY_FRAME - ?r) \<noteq> None"
      by (simp only: checked_add_None_iff not_False_eq_True)
    then obtain c where c: "checked_add start (ENERGY_FRAME - ?r) = Some c" by blast
    then have uc: "unat c = unat start + (320 - unat start mod 320)"
      by (simp only: checked_add_Some_iff sub)
    have "unat c mod 320 = 0" unfolding uc by (rule grid_round_up)
    moreover have "unat start \<le> unat c \<and> unat c < unat start + 320"
      unfolding uc using pos by linarith
    moreover have "(if ?r = 0 then Inr start
        else ok_or ArithmeticOverflow (checked_add start (ENERGY_FRAME - ?r))) = Inr c"
      by (simp only: False c if_False ok_or_simps)
    ultimately show ?thesis by (intro exI [of _ c] conjI) (assumption | elim conjE)+
  qed
  then obtain c where c: "(if ?r = 0 then Inr start
      else ok_or ArithmeticOverflow (checked_add start (ENERGY_FRAME - ?r))) = Inr c"
    and m: "unat c mod 320 = 0" and lo: "unat start \<le> unat c" and hi: "unat c < unat start + 320"
    by (elim exE conjE) (rule that)
  have mem: "x \<in> set (grid_from c stop) \<longleftrightarrow> start \<le> x \<and> x \<le> stop \<and> unat x mod 320 = 0" for x
  proof -
    have "unat c \<le> unat x \<and> (unat x - unat c) mod 320 = 0 \<longleftrightarrow> unat start \<le> unat x \<and> unat x mod 320 = 0"
      by (rule grid_start [OF m lo hi])
    then show ?thesis unfolding grid_from_iff word_le_nat_alt by (simp only: conj_left_commute [of "unat c \<le> unat x"] conj_left_commute [of "unat start \<le> unat x"])
  qed
  show ?thesis
  proof (cases "stop < start")
    case True
    then have "absolute_grid_candidates start stop = Inr []"
      by (simp only: absolute_grid_candidates_def if_True)
    moreover have "x \<in> set [] \<longleftrightarrow> start \<le> x \<and> x \<le> stop \<and> unat x mod 320 = 0" for x
      using True by (simp only: set_simps empty_iff) (meson leD order_trans)
    ultimately show ?thesis by blast
  next
    case False
    then have "absolute_grid_candidates start stop = Inr (grid_from c stop)"
      by (simp only: absolute_grid_candidates_def if_False Let_def c and_then.simps)
    with mem show ?thesis by blast
  qed
qed

text \<open>The positions the search scores: on the grid, after the cursor, at most \<open>SPLIT_SEARCH_RADIUS\<close>
  before the latest safe position, with a whole energy frame around them inside the core.\<close>

definition eligible :: "SampleRange \<Rightarrow> u64 \<Rightarrow> u64 \<Rightarrow> u64 \<Rightarrow> bool" where
  "eligible c cursor latest x \<longleftrightarrow> unat x mod 320 = 0 \<and> cursor < x \<and> x \<le> latest \<and>
     unat latest \<le> unat x + 32000 \<and> unat (range_start c) + 160 \<le> unat x \<and>
     unat x + 160 \<le> unat (range_end c)"

definition centre_energy :: "('f, 'd) float_ops \<Rightarrow> 'f list \<Rightarrow> u64 \<Rightarrow> 'd" where
  "centre_energy ops xs x = frame_energy ops (take 320 (drop (unat x - 160) xs))"

lemma skip_iff:
  assumes fs: "checked_sub x ENERGY_HALF_FRAME = Some fs"
    and fe: "checked_add x ENERGY_HALF_FRAME = Some fe"
    and se: "checked_add latest SPLIT_SEARCH_RADIUS = Some search_end"
    and n: "range_end c \<le> n"
  shows "(x mod ENERGY_FRAME \<noteq> 0 \<or> x \<le> cursor \<or> latest < x \<or> x < range_start c \<or>
      range_end c \<le> x \<or> x < checked_sub_or_zero latest SPLIT_SEARCH_RADIUS \<or> search_end < x \<or>
      fs < range_start c \<or> range_end c < fe \<or> n < fe) \<longleftrightarrow> \<not> eligible c cursor latest x"
proof -
  have fs': "unat x = 160 + unat fs" using fs by (simp only: checked_sub_Some_iff unat_vad_constants)
  have fe': "unat fe = unat x + 160" using fe by (simp only: checked_add_Some_iff unat_vad_constants)
  have se': "unat search_end = unat latest + 32000"
    using se by (simp only: checked_add_Some_iff unat_vad_constants)
  define M where "M \<longleftrightarrow> unat x mod 320 = 0"
  have m: "x mod ENERGY_FRAME \<noteq> 0 \<longleftrightarrow> \<not> M"
    unfolding M_def unat_nonzero_iff by (simp only: unat_mod_distrib unat_vad_constants neq0_conv)
  show ?thesis
    unfolding eligible_def M_def [symmetric] m word_order_nat unat_checked_sub_or_zero
      unat_vad_constants se' fe'
    using fs' n [unfolded word_le_nat_alt] by linarith
qed

lemma score_candidates_total:
  assumes se: "checked_add latest SPLIT_SEARCH_RADIUS = Some search_end"
    and n: "range_end c \<le> n" and room: "unat latest + 160 < 2 ^ 64"
    and below: "\<forall>x \<in> set cands. x \<le> latest"
  shows "\<exists>scored. score_candidates ops xs c cursor latest
      (checked_sub_or_zero latest SPLIT_SEARCH_RADIUS) search_end n cands = Inr scored \<and>
    set scored = {(x, centre_energy ops xs x) | x. x \<in> set cands \<and> eligible c cursor latest x}"
  using below
proof (induction cands)
  case Nil
  then show ?case by simp
next
  case (Cons x rest)
  let ?ss = "checked_sub_or_zero latest SPLIT_SEARCH_RADIUS"
  let ?go = "score_candidates ops xs c cursor latest ?ss search_end n rest"
  let ?set = "\<lambda>cs. {(x, centre_energy ops xs x) | x. x \<in> set cs \<and> eligible c cursor latest x}"
  from Cons obtain scored where go: "?go = Inr scored" and set: "set scored = ?set rest" by auto
  have skipped: ?case
    if "score_candidates ops xs c cursor latest ?ss search_end n (x # rest) = ?go"
      and "\<not> eligible c cursor latest x"
    using that go set by (intro exI [of _ scored]) (simp only:, fastforce)
  show ?case
  proof (cases "checked_sub x ENERGY_HALF_FRAME")
    case None
    then have "\<not> eligible c cursor latest x"
      unfolding eligible_def checked_sub_None_iff unat_vad_constants by linarith
    moreover have "score_candidates ops xs c cursor latest ?ss search_end n (x # rest) = ?go"
      by (simp only: score_candidates.simps None Let_def option.case)
    ultimately show ?thesis by (intro skipped)
  next
    case (Some fs)
    have "unat x \<le> unat latest" using Cons.prems by (simp add: word_le_nat_alt)
    with room have "unat x + unat ENERGY_HALF_FRAME < 2 ^ LENGTH(64)" by simp
    then obtain fe where fe: "checked_add x ENERGY_HALF_FRAME = Some fe"
      unfolding checked_add_def by simp
    note unfold = score_candidates.simps Some Let_def option.case fe ok_or_simps and_then.simps
    note skip = skip_iff [OF Some fe se n, of cursor]
    show ?thesis
    proof (cases "eligible c cursor latest x")
      case False
      then have "score_candidates ops xs c cursor latest ?ss search_end n (x # rest) = ?go"
        by (simp only: unfold skip not_False_eq_True if_True)
      with False show ?thesis by (intro skipped)
    next
      case True
      have fs': "unat x = 160 + unat fs"
        using Some by (simp only: checked_sub_Some_iff unat_vad_constants)
      have fe': "unat fe = unat x + 160"
        using fe by (simp only: checked_add_Some_iff unat_vad_constants)
      from True have inside: "unat x + 160 \<le> unat (range_end c)" by (simp only: eligible_def)
      with n fe' have "\<not> n < fe" by (simp add: word_order_nat)
      moreover have "checked_sample_index fs n = Inr fs"
        using inside n fs' by (simp add: checked_sample_index_def word_order_nat)
      moreover have "frame_energy ops (take (unat fe - unat fs) (drop (unat fs) xs))
          = centre_energy ops xs x"
        by (simp add: centre_energy_def fs' fe')
      ultimately have "score_candidates ops xs c cursor latest ?ss search_end n (x # rest)
          = Inr ((x, centre_energy ops xs x) # scored)"
        unfolding unfold skip by (simp only: True not_True_eq_False if_False go unfold)
      with set True show ?thesis
        by (intro exI [of _ "(x, centre_energy ops xs x) # scored"]) (simp only:, fastforce)
    qed
  qed
qed

text \<open>
  The boundary that is chosen when the search runs on the grid: it always exists, and it is a
  scored position of least energy, or the latest safe position when none can be scored.
\<close>

lemma select_split_boundary_total:
  assumes len: "unat (range_end c) \<le> length xs" "length xs + 32000 < 2 ^ 64"
    and order: "range_start c \<le> cursor" "cursor < latest" "latest < range_end c"
  shows "\<exists>b. select_split_boundary ops xs c cursor latest None = Inr b \<and>
      (b = latest \<and> (\<forall>x. \<not> eligible c cursor latest x) \<or>
       eligible c cursor latest b \<and>
       (\<forall>x. eligible c cursor latest x \<longrightarrow> centre_energy ops xs b \<le> centre_energy ops xs x))"
proof -
  let ?ss = "checked_sub_or_zero latest SPLIT_SEARCH_RADIUS"
  obtain n where n: "len_u64 xs = Some n" "unat n = length xs"
    using len(2) by (auto simp: len_u64_def unat_of_nat)
  have ne: "range_end c \<le> n" using len(1) n(2) by (simp add: word_le_nat_alt)
  have latest: "unat latest < length xs" using order(3) len(1) by (simp add: word_less_nat_alt)
  with len(2) have "unat latest + unat SPLIT_SEARCH_RADIUS < 2 ^ LENGTH(64)" by simp
  then obtain se where se: "checked_add latest SPLIT_SEARCH_RADIUS = Some se"
    unfolding checked_add_def by simp
  have "unat ?ss + 320 < 2 ^ 64" using latest len(2) by simp
  from absolute_grid_candidates_total [OF this, of latest]
  obtain cs where cs: "absolute_grid_candidates ?ss latest = Inr cs"
    and mem: "\<forall>x. x \<in> set cs \<longleftrightarrow> ?ss \<le> x \<and> x \<le> latest \<and> unat x mod 320 = 0"
    by (elim exE conjE) (rule that)
  have room: "unat latest + 160 < 2 ^ 64" using latest len(2) by linarith
  have below: "\<forall>x \<in> set cs. x \<le> latest"
    by (simp only: mem Ball_def conj_imp_eq_imp_imp) simp
  from score_candidates_total [OF se ne room below, where ops = ops and xs = xs and cursor = cursor]
  obtain scored where sc: "score_candidates ops xs c cursor latest ?ss se n cs = Inr scored"
    and set: "set scored = {(x, centre_energy ops xs x) | x. x \<in> set cs \<and> eligible c cursor latest x}"
    by (elim exE conjE) (rule that)
  have on_grid: "x \<in> set cs" if "eligible c cursor latest x" for x
  proof -
    from that have grid: "unat x mod 320 = 0" "x \<le> latest" and near: "unat latest \<le> unat x + 32000"
      by (simp_all only: eligible_def)
    from near have "?ss \<le> x"
      unfolding word_le_nat_alt unat_checked_sub_or_zero unat_vad_constants by linarith
    with grid show ?thesis by (simp only: mem simp_thms)
  qed
  let ?b = "select_boundary latest scored"
  have "\<not> (cursor < range_start c \<or> latest \<le> cursor \<or> range_end c \<le> latest \<or> n < range_end c)"
    using order ne by (simp add: not_less not_le)
  then have eq: "select_split_boundary ops xs c cursor latest None = Inr ?b"
    by (simp only: select_split_boundary_def n ok_or_simps and_then.simps if_False Let_def se
        option.case cs sc)
  from select_boundary_cases [of scored latest] show ?thesis
  proof (elim disjE exE conjE)
    assume "scored = []" "?b = latest"
    then have "\<forall>x. \<not> eligible c cursor latest x" using set on_grid by fastforce
    with eq \<open>?b = latest\<close> show ?thesis by (intro exI [of _ ?b]) simp
  next
    fix e
    assume e: "(?b, e) \<in> set scored" "\<forall>x \<in> set scored. e \<le> snd x"
    then have b: "eligible c cursor latest ?b" "e = centre_energy ops xs ?b"
      using set by auto
    have "e \<le> centre_energy ops xs x" if "eligible c cursor latest x" for x
      using e(2) set that on_grid by fastforce
    with b eq show ?thesis by (intro exI [of _ ?b]) simp
  qed
qed

subsection \<open>The windows of a core\<close>

fun tiles :: "u64 \<Rightarrow> u64 \<Rightarrow> ProviderWindow list \<Rightarrow> bool" where
  "tiles a b [] \<longleftrightarrow> a = b"
| "tiles a b (w # ws) \<longleftrightarrow> range_start (core w) = a \<and> a < range_end (core w) \<and>
     tiles (range_end (core w)) b ws"

text \<open>A window hears 200 ms (3200 samples) on either side of its core, clipped to the recording, and
  never more than the provider's 25 seconds.\<close>

definition window_ok :: "u64 \<Rightarrow> ProviderWindow \<Rightarrow> bool" where
  "window_ok n w \<longleftrightarrow>
     unat (range_start (inference w)) = unat (range_start (core w)) - 3200 \<and>
     unat (range_end (inference w)) = min (unat (range_end (core w)) + 3200) (unat n) \<and>
     unat (range_end (inference w)) - unat (range_start (inference w)) \<le> 400000"

text \<open>Where a window does not end its core, it is cut at a quietest eligible position before the last
  safe one, or at the last safe one when the grid offers none.\<close>

definition quiet_cut :: "('f, 'd::linorder) float_ops \<Rightarrow> 'f list \<Rightarrow> SampleRange \<Rightarrow> ProviderWindow \<Rightarrow> bool" where
  "quiet_cut ops xs c w \<longleftrightarrow>
     (let latest = range_start (inference w) + 396800; b = range_end (core w);
          ok = eligible c (range_start (core w)) latest
      in unat latest = unat (range_start (inference w)) + 396800 \<and>
         (b = latest \<and> (\<forall>x. \<not> ok x) \<or>
          ok b \<and> (\<forall>x. ok x \<longrightarrow> centre_energy ops xs b \<le> centre_energy ops xs x)))"

definition core_length :: "ProviderWindow \<Rightarrow> nat" where
  "core_length w = unat (range_end (core w)) - unat (range_start (core w))"

lemma quiet_cut_bounds:
  assumes "quiet_cut ops xs c w" "unat (range_start (inference w)) = unat (range_start (core w)) - 3200"
  shows "361600 \<le> core_length w"
proof -
  let ?l = "range_start (inference w) + 396800 :: u64"
  have l: "unat ?l = unat (range_start (inference w)) + 396800"
    using assms(1) unfolding quiet_cut_def Let_def by (elim conjE)
  have "unat ?l \<le> unat (range_end (core w)) + 32000"
    using assms(1) unfolding quiet_cut_def Let_def eligible_def by auto
  with l assms(2) show ?thesis unfolding core_length_def by linarith
qed

lemma latest_safe_facts:
  assumes "unat (range_end c) \<le> length xs" "length xs + 32000 < 2 ^ 64"
    and "cursor < range_end c"
    and long: "400000 < min (unat (range_end c) + 3200) (length xs) - (unat cursor - 3200)"
  shows "\<exists>latest. (case checked_add (checked_sub_or_zero cursor PADDING) MAX_PROVIDER_WINDOW of
        None \<Rightarrow> None | Some v \<Rightarrow> checked_sub v PADDING) = Some latest \<and>
      unat latest = (unat cursor - 3200) + 396800 \<and>
      latest = checked_sub_or_zero cursor PADDING + 396800 \<and>
      cursor < latest \<and> latest < range_end c \<and> unat latest + 3200 < length xs"
proof -
  let ?is = "checked_sub_or_zero cursor PADDING"
  have i: "unat ?is = unat cursor - 3200" by simp
  have fits: "unat ?is + 400000 < 2 ^ 64" unfolding i using assms(2) long by linarith
  then have "unat ?is + unat MAX_PROVIDER_WINDOW < 2 ^ LENGTH(64)" by simp
  then obtain v where v: "checked_add ?is MAX_PROVIDER_WINDOW = Some v"
    unfolding checked_add_def by simp
  then have uv: "unat v = (unat cursor - 3200) + 400000"
    by (simp only: checked_add_Some_iff unat_vad_constants i)
  then have "\<not> unat v < unat PADDING" by simp
  then obtain latest where l: "checked_sub v PADDING = Some latest"
    using checked_sub_None_iff by blast
  then have ul: "unat latest = (unat cursor - 3200) + 396800"
    using uv by (simp only: checked_sub_Some_iff unat_vad_constants)
  have "unat (?is + 396800) = unat latest"
    unfolding ul using fits i by (subst unat_add_lem [THEN iffD1]) simp_all
  then have "latest = ?is + 396800" by (simp only: word_unat_eq_iff)
  moreover have "cursor < latest" unfolding word_less_nat_alt ul by linarith
  moreover have "latest < range_end c" unfolding word_less_nat_alt ul using long by linarith
  moreover have "unat latest + 3200 < length xs" unfolding ul using long by linarith
  ultimately show ?thesis using v l ul by (intro exI [of _ latest]) simp
qed

lemma min_end_facts:
  assumes n: "unat n = length xs" and c: "unat (range_end c) \<le> length xs" "length xs + 32000 < 2 ^ 64"
    and cursor: "cursor < range_end c"
  shows "\<exists>padded len. checked_add (range_end c) PADDING = Some padded \<and>
      unat (min padded n) = min (unat (range_end c) + 3200) (length xs) \<and>
      checked_sub (min padded n) (checked_sub_or_zero cursor PADDING) = Some len \<and>
      unat len = min (unat (range_end c) + 3200) (length xs) - (unat cursor - 3200)"
proof -
  have "unat (range_end c) + unat PADDING < 2 ^ LENGTH(64)" using c by simp
  then obtain padded where p: "checked_add (range_end c) PADDING = Some padded"
    unfolding checked_add_def by simp
  then have "unat padded = unat (range_end c) + 3200"
    by (simp only: checked_add_Some_iff unat_vad_constants)
  then have m: "unat (min padded n) = min (unat (range_end c) + 3200) (length xs)"
    by (simp only: unat_min n)
  have "unat cursor < unat (range_end c)" using cursor by (simp only: word_less_nat_alt)
  then have "\<not> unat (min padded n) < unat (checked_sub_or_zero cursor PADDING)"
    unfolding m unat_checked_sub_or_zero unat_vad_constants using c by linarith
  then obtain len where l: "checked_sub (min padded n) (checked_sub_or_zero cursor PADDING) = Some len"
    using checked_sub_None_iff by blast
  then have "min (unat (range_end c) + 3200) (length xs) = (unat cursor - 3200) + unat len"
    by (simp only: checked_sub_Some_iff m unat_checked_sub_or_zero unat_vad_constants)
  then show ?thesis using p m l by (intro exI [of _ padded] exI [of _ len]) simp
qed

lemma new_range_ok: "s < e \<Longrightarrow> new_range s e = Inr \<lparr>range_start = s, range_end = e\<rparr>"
  by (simp add: new_range_def)

definition cuts_core :: "('f, 'd::linorder) float_ops \<Rightarrow> 'f list \<Rightarrow> SampleRange \<Rightarrow> u64 \<Rightarrow> ProviderWindow list \<Rightarrow> bool" where
  "cuts_core ops xs c cursor ws \<longleftrightarrow> ws \<noteq> [] \<and> tiles cursor (range_end c) ws \<and>
     (\<forall>w \<in> set ws. window_ok (of_nat (length xs)) w) \<and> (\<forall>w \<in> set (butlast ws). quiet_cut ops xs c w)"

lemma partition_loop_last:
  assumes n: "unat n = length xs" and c: "unat (range_end c) \<le> length xs" "length xs + 32000 < 2 ^ 64"
    and cursor: "cursor < range_end c"
    and short: "min (unat (range_end c) + 3200) (length xs) - (unat cursor - 3200) \<le> 400000"
  shows "\<exists>ws. partition_loop ops xs c n cursor = Inr ws \<and> cuts_core ops xs c cursor ws"
proof -
  let ?is = "checked_sub_or_zero cursor PADDING"
  from min_end_facts [OF n c cursor] obtain padded len
    where p: "checked_add (range_end c) PADDING = Some padded"
      and m: "unat (min padded n) = min (unat (range_end c) + 3200) (length xs)"
      and l: "checked_sub (min padded n) ?is = Some len"
      and ul: "unat len = min (unat (range_end c) + 3200) (length xs) - (unat cursor - 3200)"
    by (elim exE conjE) (rule that)
  have lt: "unat cursor < unat (range_end c)" using cursor by (simp only: word_less_nat_alt)
  have "?is < min padded n"
    unfolding word_less_nat_alt m unat_checked_sub_or_zero unat_vad_constants using lt c by linarith
  note ir = new_range_ok [OF this] and cr = new_range_ok [OF cursor]
  have "len \<le> MAX_PROVIDER_WINDOW"
    unfolding word_le_nat_alt ul unat_vad_constants by (rule short)
  moreover have "\<not> range_end c \<le> cursor" using cursor by (simp only: not_le)
  ultimately have "partition_loop ops xs c n cursor =
      Inr [\<lparr>core = \<lparr>range_start = cursor, range_end = range_end c\<rparr>,
            inference = \<lparr>range_start = ?is, range_end = min padded n\<rparr>\<rparr>]"
    by (subst partition_loop.simps)
      (simp only: Let_def p l ok_or_simps and_then.simps ir cr if_True if_False)
  moreover have "of_nat (length xs) = n" by (simp add: n [symmetric])
  ultimately show ?thesis
    using cursor short by (simp add: cuts_core_def window_ok_def m n)
qed

lemma partition_loop_split:
  assumes n: "unat n = length xs" and c: "unat (range_end c) \<le> length xs" "length xs + 32000 < 2 ^ 64"
    and cursor: "range_start c \<le> cursor" "cursor < range_end c"
    and long: "400000 < min (unat (range_end c) + 3200) (length xs) - (unat cursor - 3200)"
  shows "\<exists>b w. cursor < b \<and> b < range_end c \<and> window_ok n w \<and> quiet_cut ops xs c w \<and>
      core w = \<lparr>range_start = cursor, range_end = b\<rparr> \<and>
      partition_loop ops xs c n cursor =
        and_then (partition_loop ops xs c n b) (\<lambda>ws. Inr (w # ws))"
proof -
  let ?is = "checked_sub_or_zero cursor PADDING"
  from min_end_facts [OF n c cursor(2)] obtain padded len
    where p: "checked_add (range_end c) PADDING = Some padded"
      and l: "checked_sub (min padded n) ?is = Some len"
      and ul: "unat len = min (unat (range_end c) + 3200) (length xs) - (unat cursor - 3200)"
    by (elim exE conjE) (rule that)
  from latest_safe_facts [OF c cursor(2) long] obtain latest
    where ls: "(case checked_add ?is MAX_PROVIDER_WINDOW of
        None \<Rightarrow> None | Some v \<Rightarrow> checked_sub v PADDING) = Some latest"
      and unl: "unat latest = (unat cursor - 3200) + 396800" and lw: "latest = ?is + 396800"
      and order: "cursor < latest" "latest < range_end c" and room: "unat latest + 3200 < length xs"
    by (elim exE conjE) (rule that)
  from select_split_boundary_total [OF c cursor(1) order, of ops] obtain b
    where b: "select_split_boundary ops xs c cursor latest None = Inr b"
      and q: "b = latest \<and> (\<forall>x. \<not> eligible c cursor latest x) \<or> eligible c cursor latest b \<and>
       (\<forall>x. eligible c cursor latest x \<longrightarrow> centre_energy ops xs b \<le> centre_energy ops xs x)"
    by (elim exE conjE) (rule that)
  have bounds: "cursor < b" "b \<le> latest" using q order(1) by (auto simp: eligible_def)
  have ubl: "unat b \<le> unat latest" "unat cursor < unat b"
    using bounds by (simp_all only: word_order_nat)
  have "unat b + unat PADDING < 2 ^ LENGTH(64)" using ubl room c by simp
  then obtain e where e: "checked_add b PADDING = Some e" unfolding checked_add_def by simp
  then have ue: "unat e = unat b + 3200" by (simp only: checked_add_Some_iff unat_vad_constants)
  have ise: "?is < e"
    unfolding word_less_nat_alt ue unat_checked_sub_or_zero unat_vad_constants using ubl by linarith
  let ?ir = "\<lparr>range_start = ?is, range_end = e\<rparr>"
  have "\<not> unat e < unat ?is" using ise by (simp add: word_less_nat_alt)
  then obtain k where k: "checked_sub e ?is = Some k" using checked_sub_None_iff by blast
  then have uk: "unat b + 3200 = (unat cursor - 3200) + unat k"
    by (simp only: checked_sub_Some_iff ue unat_checked_sub_or_zero unat_vad_constants)
  have "k \<noteq> 0" unfolding unat_nonzero_iff using uk ubl by linarith
  then have cl: "checked_len ?ir = Inr k" by (simp add: checked_len_def k)
  let ?w = "\<lparr>core = \<lparr>range_start = cursor, range_end = b\<rparr>, inference = ?ir\<rparr>"
  have small: "unat k \<le> 400000" using uk ubl unl by linarith
  have conds: "range_end c \<le> cursor \<longleftrightarrow> False" "len \<le> MAX_PROVIDER_WINDOW \<longleftrightarrow> False"
    "latest \<le> cursor \<or> range_end c \<le> latest \<longleftrightarrow> False" "b \<le> cursor \<or> latest < b \<longleftrightarrow> False"
    "MAX_PROVIDER_WINDOW < k \<longleftrightarrow> False"
    using cursor order bounds small long by (simp_all add: not_le not_less word_order_nat ul)
  have step: "partition_loop ops xs c n cursor =
      and_then (partition_loop ops xs c n b) (\<lambda>ws. Inr (?w # ws))"
    by (subst partition_loop.simps)
      (simp only: Let_def p l ls b e cl conds ok_or_simps and_then.simps if_True if_False
        new_range_ok [OF ise] new_range_ok [OF bounds(1)])
  have "window_ok n ?w"
    using ue ubl room n uk small by (simp add: window_ok_def)
  moreover have "quiet_cut ops xs c ?w"
    using q unl unfolding quiet_cut_def Let_def ProviderWindow.simps SampleRange.simps lw [symmetric]
      unat_checked_sub_or_zero unat_vad_constants by (intro conjI)
  moreover have "b < range_end c" using bounds(2) order(2) by (rule le_less_trans)
  ultimately show ?thesis using bounds(1) step by (intro exI [of _ b] exI [of _ ?w]) simp
qed

lemma partition_loop_cuts:
  assumes n: "unat n = length xs" and c: "unat (range_end c) \<le> length xs" "length xs + 32000 < 2 ^ 64"
    and cursor: "range_start c \<le> cursor" "cursor < range_end c"
  shows "\<exists>ws. partition_loop ops xs c n cursor = Inr ws \<and> cuts_core ops xs c cursor ws"
  using cursor
proof (induction "unat (range_end c) - unat cursor" arbitrary: cursor rule: less_induct)
  case less
  show ?case
  proof (cases "400000 < min (unat (range_end c) + 3200) (length xs) - (unat cursor - 3200)")
    case False
    then have "min (unat (range_end c) + 3200) (length xs) - (unat cursor - 3200) \<le> 400000"
      by (simp only: not_less)
    from partition_loop_last [OF n c less.prems(2) this] show ?thesis .
  next
    case True
    from partition_loop_split [OF n c less.prems True, of ops] obtain b w
      where b: "cursor < b" "b < range_end c" and w: "window_ok n w" "quiet_cut ops xs c w"
        and core: "core w = \<lparr>range_start = cursor, range_end = b\<rparr>"
        and step: "partition_loop ops xs c n cursor =
          and_then (partition_loop ops xs c n b) (\<lambda>ws. Inr (w # ws))"
      by (elim exE conjE) (rule that)
    have "unat (range_end c) - unat b < unat (range_end c) - unat cursor"
      using b by (simp add: word_less_nat_alt)
    moreover have "range_start c \<le> b" using less.prems(1) b(1) by simp
    ultimately obtain ws where ws: "partition_loop ops xs c n b = Inr ws" "cuts_core ops xs c b ws"
      using less.hyps b(2) by blast
    have "of_nat (length xs) = n" by (simp add: n [symmetric])
    then have "cuts_core ops xs c cursor (w # ws)"
      using ws(2) w core b by (simp add: cuts_core_def)
    then show ?thesis using step ws(1) by simp
  qed
qed

definition core_in :: "'f list \<Rightarrow> SampleRange \<Rightarrow> bool" where
  "core_in xs c \<longleftrightarrow> range_start c < range_end c \<and> unat (range_end c) \<le> length xs"

lemma partition_core_cuts:
  assumes "core_in xs c" "length xs + 32000 < 2 ^ 64"
  shows "\<exists>ws. partition_core ops xs c = Inr ws \<and> cuts_core ops xs c (range_start c) ws"
proof -
  have c: "range_start c < range_end c" "unat (range_end c) \<le> length xs"
    using assms(1) by (auto simp: core_in_def)
  obtain n where n: "len_u64 xs = Some n" "unat n = length xs"
    using assms(2) by (auto simp: len_u64_def unat_of_nat)
  from partition_loop_cuts [OF n(2) c(2) assms(2) order_refl c(1)]
  obtain ws where ws: "partition_loop ops xs c n (range_start c) = Inr ws"
      "cuts_core ops xs c (range_start c) ws" by blast
  have "\<not> (range_end c \<le> range_start c \<or> n < range_end c)"
    using c n(2) by (simp add: word_order_nat)
  then have "partition_core ops xs c = Inr ws"
    by (simp only: partition_core_def n(1) ok_or_simps and_then.simps if_False ws(1))
  with ws(2) show ?thesis by blast
qed

lemma partition_core_Inr_core:
  assumes "partition_core ops xs c = Inr ws"
  shows "core_in xs c"
  using assms by (auto simp: partition_core_def result_simps checked_simps core_in_def word_order_nat
      split: if_splits)

text \<open>
  C35: Cutting a detected speech core into provider windows always succeeds: the windows' cores tile
  the core without gap or overlap, every window hears exactly 200 ms around its core clipped to the
  recording and never more than 25 seconds, and every cut but the end of the core is at a quietest
  admissible position of the 20 ms grid.
\<close>

theorem partition_core_windows:
  assumes "range_start c < range_end c" "unat (range_end c) \<le> length xs" "length xs + 32000 < 2 ^ 64"
  shows "\<exists>ws. partition_core ops xs c = Inr ws \<and> ws \<noteq> [] \<and>
    tiles (range_start c) (range_end c) ws \<and> (\<forall>w \<in> set ws. window_ok (of_nat (length xs)) w) \<and>
    (\<forall>w \<in> set (butlast ws). quiet_cut ops xs c w)"
  using partition_core_cuts [of xs c ops] assms unfolding cuts_core_def core_in_def by blast

definition constant_ops :: "(unit, int) float_ops" where
  "constant_ops = \<lparr>f_zero = (), f_finite = (\<lambda>_. True), f_clamp = id, widen = (\<lambda>_. 1),
     narrow = (\<lambda>_. ()), d_zero = 0, d_add = (+), d_mul = (*), d_div = (div), d_clamp = id,
     d_of_u64 = uint\<rparr>"

theorem partition_core_windows_witness:
  "\<exists>ws. partition_core constant_ops (replicate 1000000 ()) \<lparr>range_start = 320, range_end = 900000\<rparr> = Inr ws \<and>
    ws \<noteq> [] \<and> tiles 320 900000 ws \<and> (\<forall>w \<in> set ws. window_ok 1000000 w) \<and>
    (\<forall>w \<in> set (butlast ws). quiet_cut constant_ops (replicate 1000000 ())
       \<lparr>range_start = 320, range_end = 900000\<rparr> w)"
  using partition_core_windows [of "\<lparr>range_start = 320, range_end = 900000\<rparr>" "replicate 1000000 ()"
      constant_ops]
  by (simp add: word_less_nat_alt)

text \<open>A cut leaves at least 361600 samples (22.6 seconds) behind it, which bounds the windows.\<close>

lemma tiles_length:
  assumes "tiles a b ws" "\<forall>w \<in> set (butlast ws). K \<le> core_length w"
  shows "(length ws - 1) * K + unat a \<le> unat b"
  using assms
proof (induction ws arbitrary: a)
  case Nil
  then show ?case by simp
next
  case (Cons w ws)
  then have w: "range_start (core w) = a" "unat a < unat (range_end (core w))"
    "tiles (range_end (core w)) b ws" by (auto simp: word_less_nat_alt)
  show ?case
  proof (cases ws)
    case Nil
    with w show ?thesis by simp
  next
    case (Cons v vs)
    with Cons.prems(2) have K: "K \<le> core_length w" "\<forall>w \<in> set (butlast ws). K \<le> core_length w"
      by simp_all
    from Cons.IH [OF w(3) K(2)]
    have "(length ws - 1) * K + unat (range_end (core w)) \<le> unat b" .
    moreover have "K + unat a \<le> unat (range_end (core w))"
      using K(1) w by (simp add: core_length_def)
    ultimately show ?thesis using Cons by (simp add: algebra_simps)
  qed
qed

text \<open>
  The number of provider windows of a core is bounded by its length: every window except the
  last covers at least 361600 samples, so splitting cannot degenerate into many tiny requests.
\<close>

theorem partition_core_window_count:
  assumes "length xs + 32000 < 2 ^ 64" "partition_core ops xs c = Inr ws"
  shows "(length ws - 1) * 361600 \<le> unat (range_end c) - unat (range_start c)"
proof -
  from partition_core_cuts [OF partition_core_Inr_core [OF assms(2)] assms(1), of ops] assms(2)
  have cut: "cuts_core ops xs c (range_start c) ws" by auto
  have "361600 \<le> core_length w" if w: "w \<in> set (butlast ws)" for w
  proof (rule quiet_cut_bounds)
    from w cut have ok: "window_ok (of_nat (length xs)) w" unfolding cuts_core_def
      by (meson in_set_butlastD)
    then show s: "unat (range_start (inference w)) = unat (range_start (core w)) - 3200"
      by (simp only: window_ok_def)
    show q: "quiet_cut ops xs c w" using w cut by (simp only: cuts_core_def)
  qed
  then have "(length ws - 1) * 361600 + unat (range_start c) \<le> unat (range_end c)"
    using cut by (intro tiles_length) (auto simp: cuts_core_def)
  then show ?thesis by linarith
qed

theorem partition_core_window_count_witness:
  "partition_core constant_ops (replicate 40000 ()) \<lparr>range_start = 320, range_end = 30000\<rparr> =
     Inr [\<lparr>core = \<lparr>range_start = 320, range_end = 30000\<rparr>,
           inference = \<lparr>range_start = 0, range_end = 33200\<rparr>\<rparr>] \<and>
   (length [\<lparr>core = \<lparr>range_start = 320, range_end = 30000\<rparr>,
           inference = \<lparr>range_start = 0, range_end = 33200\<rparr>\<rparr>] - 1) * 361600 \<le> (29680 :: nat)"
proof -
  let ?c = "\<lparr>range_start = 320, range_end = 30000\<rparr>"
  let ?ws = "[\<lparr>core = ?c, inference = \<lparr>range_start = 0, range_end = 33200\<rparr>\<rparr>]"
  have e: "partition_core constant_ops (replicate 40000 ()) ?c = Inr ?ws"
    by (simp add: partition_core_def partition_loop.simps len_u64_def checked_add_def checked_sub_def
        checked_sub_or_zero_def vad_constants new_range_def min_def)
  have "(length ?ws - 1) * 361600 \<le> unat (range_end ?c) - unat (range_start ?c)"
    by (rule partition_core_window_count [OF _ e]) simp
  with e show ?thesis by simp
qed

subsection \<open>Detector cores\<close>

definition ordered_cores :: "'f list \<Rightarrow> SampleRange list \<Rightarrow> bool" where
  "ordered_cores xs cores \<longleftrightarrow> (\<forall>c \<in> set cores. core_in xs c) \<and>
     sorted_wrt (\<lambda>c d. range_end c \<le> range_start d) cores"

lemma validate_cores_from_iff:
  assumes n: "unat n = length xs" and p: "\<And>p. previous = Some p \<Longrightarrow> range_start p < range_end p"
  shows "validate_cores_from n previous cores = Inr () \<longleftrightarrow>
     (\<forall>p. previous = Some p \<longrightarrow> (\<forall>c \<in> set cores. range_end p \<le> range_start c)) \<and> ordered_cores xs cores"
  using p
proof (induction cores arbitrary: previous)
  case Nil
  then show ?case by (simp add: ordered_cores_def)
next
  case (Cons c cs)
  have core: "\<not> (range_end c \<le> range_start c \<or> n < range_end c) \<longleftrightarrow> core_in xs c"
    by (simp add: core_in_def n word_less_nat_alt [of n] not_le not_less word_order_nat)
  have prev: "\<not> (case previous of Some p \<Rightarrow> range_start c \<le> range_start p \<or> range_start c < range_end p
      | None \<Rightarrow> False) \<longleftrightarrow> (\<forall>p. previous = Some p \<longrightarrow> range_end p \<le> range_start c)"
    using Cons.prems by (cases previous) (auto simp: not_le not_less)
  have later: "range_end p \<le> range_start d"
    if "range_end p \<le> range_start c" "core_in xs c" "range_end c \<le> range_start d" for p d
    using that by (simp add: core_in_def) (meson less_imp_le order_trans)
  show ?case
  proof (cases "core_in xs c \<and> (\<forall>p. previous = Some p \<longrightarrow> range_end p \<le> range_start c)")
    case True
    have "validate_cores_from n previous (c # cs) = validate_cores_from n (Some c) cs"
      using True core prev by auto
    also have "\<dots> = Inr () \<longleftrightarrow> (\<forall>d \<in> set cs. range_end c \<le> range_start d) \<and> ordered_cores xs cs"
      using Cons.IH [of "Some c"] True by (simp add: core_in_def)
    finally show ?thesis using True later by (auto simp: ordered_cores_def)
  next
    case False
    then have "validate_cores_from n previous (c # cs) \<noteq> Inr ()"
      using core prev by auto
    moreover have "\<not> ((\<forall>p. previous = Some p \<longrightarrow> (\<forall>c \<in> set (c # cs). range_end p \<le> range_start c)) \<and>
        ordered_cores xs (c # cs))"
      using False by (auto simp: ordered_cores_def)
    ultimately show ?thesis by blast
  qed
qed

lemma validate_detector_cores_iff:
  assumes "length xs < 2 ^ 64"
  shows "validate_detector_cores xs cores = Inr () \<longleftrightarrow> ordered_cores xs cores"
proof -
  obtain n where n: "len_u64 xs = Some n" "unat n = length xs"
    using assms by (auto simp: len_u64_def unat_of_nat)
  then show ?thesis
    using validate_cores_from_iff [OF n(2), of None] by (simp add: validate_detector_cores_def)
qed

lemma collect_results_total:
  assumes "\<And>x. x \<in> set xs \<Longrightarrow> \<exists>y. f x = Inr y \<and> P x y"
  shows "\<exists>ys. collect_results f xs = Inr ys \<and> list_all2 P xs ys"
  using assms
proof (induction xs)
  case Nil
  then show ?case by simp
next
  case (Cons x xs)
  from Cons.prems obtain y where y: "f x = Inr y" "P x y" by auto
  from Cons obtain ys where "collect_results f xs = Inr ys" "list_all2 P xs ys" by auto
  with y show ?case by auto
qed

text \<open>
  The detector's cores are accepted exactly when they are non-empty, inside the recording, in
  order and pairwise disjoint; then every one of them becomes an utterance, in the same order,
  with windows that tile it, and otherwise the whole call fails with no utterance at all.
\<close>

theorem partition_detector_cores_spec:
  assumes "length xs + 32000 < 2 ^ 64"
  shows "if ordered_cores xs cores
    then \<exists>us. partition_detector_cores ops xs cores = Inr us \<and>
      list_all2 (\<lambda>c u. evidence u = c \<and> tiles (range_start c) (range_end c) (windows u) \<and>
        (\<forall>w \<in> set (windows u). window_ok (of_nat (length xs)) w)) cores us
    else partition_detector_cores ops xs cores = Inl InvalidDetectorCores"
proof (cases "ordered_cores xs cores")
  case True
  let ?f = "\<lambda>c. and_then (partition_core ops xs c) (\<lambda>ws. Inr \<lparr>evidence = c, windows = ws\<rparr>)"
  have "\<exists>u. ?f c = Inr u \<and> evidence u = c \<and> tiles (range_start c) (range_end c) (windows u) \<and>
      (\<forall>w \<in> set (windows u). window_ok (of_nat (length xs)) w)" if "c \<in> set cores" for c
  proof -
    from that True have "core_in xs c" by (simp add: ordered_cores_def)
    from partition_core_cuts [OF this assms, of ops] obtain ws
      where "partition_core ops xs c = Inr ws" and ws: "cuts_core ops xs c (range_start c) ws" by blast
    with ws show ?thesis by (simp add: cuts_core_def)
  qed
  from collect_results_total [of cores ?f, OF this]
  show ?thesis using True validate_detector_cores_iff [of xs cores] assms
    by (simp add: partition_detector_cores_def)
next
  case False
  obtain n where n: "len_u64 xs = Some n" "unat n = length xs"
    using assms by (auto simp: len_u64_def unat_of_nat)
  have only: "validate_cores_from n p cs = Inr () \<or> validate_cores_from n p cs = Inl InvalidDetectorCores"
    for p cs by (induction cs arbitrary: p) auto
  have "validate_detector_cores xs cores \<noteq> Inr ()"
    using False validate_detector_cores_iff [of xs cores] assms by simp
  then have "validate_detector_cores xs cores = Inl InvalidDetectorCores"
    using only [of None cores] by (simp add: validate_detector_cores_def n)
  with False show ?thesis by (simp add: partition_detector_cores_def)
qed

theorem partition_detector_cores_spec_witness:
  "ordered_cores (replicate 100 ()) [\<lparr>range_start = 0, range_end = 40\<rparr>, \<lparr>range_start = 40, range_end = 90\<rparr>] \<and>
   (\<exists>us. partition_detector_cores constant_ops (replicate 100 ())
      [\<lparr>range_start = 0, range_end = 40\<rparr>, \<lparr>range_start = 40, range_end = 90\<rparr>] = Inr us \<and> length us = 2) \<and>
   partition_detector_cores constant_ops (replicate 100 ())
      [\<lparr>range_start = 0, range_end = 41\<rparr>, \<lparr>range_start = 40, range_end = 90\<rparr>] = Inl InvalidDetectorCores"
proof -
  let ?xs = "replicate 100 ()"
  let ?good = "[\<lparr>range_start = 0, range_end = 40\<rparr>, \<lparr>range_start = 40, range_end = 90\<rparr>]"
  let ?bad = "[\<lparr>range_start = 0, range_end = 41\<rparr>, \<lparr>range_start = 40, range_end = 90\<rparr>]"
  have g: "ordered_cores ?xs ?good" by (simp add: ordered_cores_def core_in_def)
  have b: "\<not> ordered_cores ?xs ?bad" by (simp add: ordered_cores_def core_in_def)
  have "length ?xs + 32000 < 2 ^ 64" by simp
  note spec = partition_detector_cores_spec [OF this, of _ constant_ops]
  from spec [of ?good] g obtain us
    where "partition_detector_cores constant_ops ?xs ?good = Inr us" "length us = length ?good"
    by (auto dest: list_all2_lengthD)
  moreover from spec [of ?bad] b
  have "partition_detector_cores constant_ops ?xs ?bad = Inl InvalidDetectorCores" by presburger
  ultimately show ?thesis using g by simp
qed

end
