(* ===== verification/Domain.thy ===== *)
theory Domain
  imports Prelude
begin

section \<open>The domain data: \<open>domain.rs\<close>\<close>

text \<open>
  The values the rest of the program stores and passes on, with the operations that make them:
  the capture session and its state machine, transcript time ranges, languages, and the rows for
  notes, dictionary entries and voiceprints.  A time is a count of nanoseconds; fresh identifiers
  and the clock are arguments.  The transcription settings are in
  \<open>Asr_Settings\<close>.
\<close>

subsection \<open>Enumerations\<close>

type_synonym time = int

datatype CaptureState = Idle | Recording | Paused | Stopped

datatype AudioSource = Microphone | SystemAudio | Imported

datatype AsrProviderKind = SenseVoice | Whisper | Qwen3Asr

datatype AsrLanguage = AsrLanguage (as_str: string)

datatype AsrLanguageError = EmptyLanguage

datatype AsrJobState = Queued | BlockedModel | Preparing | Transcribing | Succeeded | Failed | Cancelled

datatype ChunkIntegrityState = Available | Corrupted | Missing

datatype AsrErrorCode =
    ModelNotInstalled
  | ModelCapabilityUnavailable
  | ModelDownloadFailed
  | ModelIntegrityFailed
  | InsufficientDiskSpace
  | UnsupportedOrCorruptAudio
  | InputIntegrityFailed
  | InputUnavailable
  | InvalidProviderParameter
  | ProviderInitializationFailed
  | TranscriptionFailed
  | CancelledCode
  | RecoveryRequired
  | RecoveryRetryExhausted
  | ReceiptInvalid

datatype ImportModelReadiness = ModelReady | ModelBlocked AsrErrorCode

datatype ImportAsrDisposition =
    NoJob
  | JobQueued
  | JobBlockedModel AsrErrorCode
  | JobFailed AsrErrorCode

datatype TranscriptTimeRangeError = NegativeStart | EmptyOrReversed | ExceedsAudioDuration

subsection \<open>Records\<close>

record TranscriptTimeRange =
  tr_start_ms :: i64
  tr_end_ms :: i64
  tr_audio_duration_ms :: i64

record CaptureSession =
  session_id :: string
  session_title :: string
  session_state :: CaptureState
  started_at :: time
  ended_at :: "time option"

record TranscriptSegment =
  segment_id :: string
  segment_start_ms :: i64
  segment_end_ms :: i64
  segment_source :: AudioSource
  segment_text :: string
  segment_chunk_id :: "string option"
  segment_chunk_start_ms :: "i64 option"
  segment_chunk_end_ms :: "i64 option"

record TranscriptRevision =
  revision_id :: string
  revision_session_id :: string
  revision_number :: i64
  revision_provider :: string
  revision_created_at :: time
  revision_segments :: "TranscriptSegment list"

record TranscriptSegmentPublication =
  pub_segment_id :: string
  pub_chunk_start_ms :: i64
  pub_chunk_end_ms :: i64
  pub_source :: AudioSource
  pub_text :: string

record AudioChunk =
  chunk_id :: string
  chunk_session_id :: string
  chunk_source :: AudioSource
  chunk_path :: string
  chunk_sha256 :: string
  chunk_byte_length :: u64

record CaptureSourceRecord =
  source_id :: string
  source_session_id :: string
  source_source :: AudioSource
  source_device_uid :: string
  source_device_name :: string
  source_channel_count :: u16
  source_sample_rate_hz :: u32
  source_created_at :: time

record CaptureChunkTiming =
  timing_chunk_id :: string
  timing_capture_source_id :: string
  timing_source_sequence :: i64
  timing_source_sample_start :: i64
  timing_source_sample_end :: i64
  timing_session_start_ms :: i64
  timing_session_end_ms :: i64
  timing_monotonic_start_ns :: i64
  timing_monotonic_end_ns :: i64
  timing_utc_start_at :: time
  timing_utc_end_at :: time
  timing_discontinuity_count :: i64
  timing_dropped_frame_count :: i64
  timing_created_at :: time

record CaptureNote =
  note_id :: string
  note_session_id :: string
  note_content :: string
  note_timestamp_ms :: i64
  note_tag :: string
  note_segment_id :: "string option"
  note_created_at :: string

record DictionaryCategory =
  category_id :: string
  category_name :: string
  category_scope :: string
  category_entry_count :: i64

record DictionaryEntry =
  entry_id :: string
  entry_category_id :: string
  entry_term :: string
  entry_pinyin :: string
  entry_aliases :: string
  entry_note :: string
  entry_enabled :: bool

record Voiceprint =
  voiceprint_id :: string
  voiceprint_name :: string
  voiceprint_embedding_path :: string
  voiceprint_dictionary_entry_id :: "string option"
  voiceprint_sample_count :: i64
  voiceprint_updated_at :: string

datatype DomainError = InvalidCaptureTransition CaptureState CaptureState

subsection \<open>Sessions and segments\<close>

text \<open>\<open>uuid\<close> is the 32-digit simple form of a fresh version 4 UUID, \<open>now\<close> the clock.\<close>

definition new_session :: "string \<Rightarrow> time \<Rightarrow> string \<Rightarrow> CaptureSession" where
  "new_session uuid now title = \<lparr>session_id = ''rec_'' @ uuid, session_title = title,
     session_state = Idle, started_at = now, ended_at = None\<rparr>"

fun valid_transition :: "CaptureState \<Rightarrow> CaptureState \<Rightarrow> bool" where
  "valid_transition Idle Recording = True"
| "valid_transition Recording Paused = True"
| "valid_transition Recording Stopped = True"
| "valid_transition Paused Recording = True"
| "valid_transition Paused Stopped = True"
| "valid_transition _ _ = False"

definition transition :: "time \<Rightarrow> CaptureSession \<Rightarrow> CaptureState \<Rightarrow> DomainError + CaptureSession" where
  "transition now s target =
     (if \<not> valid_transition (session_state s) target
      then Inl (InvalidCaptureTransition (session_state s) target)
      else let s = s\<lparr>session_state := target\<rparr> in
        Inr (if target = Stopped then s\<lparr>ended_at := Some now\<rparr> else s))"

definition session_evidence_uri :: "CaptureSession \<Rightarrow> string" where
  "session_evidence_uri s = ''lifesub://record/'' @ session_id s"

definition new_segment :: "string \<Rightarrow> i64 \<Rightarrow> i64 \<Rightarrow> AudioSource \<Rightarrow> string \<Rightarrow> TranscriptSegment" where
  "new_segment uuid s e source text = \<lparr>segment_id = ''seg_'' @ uuid, segment_start_ms = s,
     segment_end_ms = e, segment_source = source, segment_text = text, segment_chunk_id = None,
     segment_chunk_start_ms = None, segment_chunk_end_ms = None\<rparr>"

text \<open>Decimal digits as Rust's \<open>Display\<close> prints an integer.\<close>

fun nat_digits :: "nat \<Rightarrow> string" where
  "nat_digits n = (if n < 10 then [char_of (48 + n)] else nat_digits (n div 10) @ [char_of (48 + n mod 10)])"

declare nat_digits.simps [simp del]

definition int_display :: "int \<Rightarrow> string" where
  "int_display i = (if i < 0 then CHR ''-'' # nat_digits (nat (- i)) else nat_digits (nat i))"

definition segment_evidence_uri :: "TranscriptSegment \<Rightarrow> i64 \<Rightarrow> string" where
  "segment_evidence_uri s revision =
     ''lifesub://segment/'' @ segment_id s @ ''?revision='' @ int_display revision"

subsection \<open>Validated values\<close>

definition new_language :: "string \<Rightarrow> AsrLanguageError + AsrLanguage" where
  "new_language v = (if is_blank v then Inl EmptyLanguage else Inr (AsrLanguage v))"

definition new_time_range :: "i64 \<Rightarrow> i64 \<Rightarrow> i64 \<Rightarrow> TranscriptTimeRangeError + TranscriptTimeRange" where
  "new_time_range s e duration =
     (if s < 0 then Inl NegativeStart
      else if e \<le> s then Inl EmptyOrReversed
      else if duration < e then Inl ExceedsAudioDuration
      else Inr \<lparr>tr_start_ms = s, tr_end_ms = e, tr_audio_duration_ms = duration\<rparr>)"

text \<open>The deserialisers take the decoded wire fields; their only error is serde's custom message.\<close>

definition deserialize_language :: "string \<Rightarrow> string + AsrLanguage" where
  "deserialize_language v = map_err (\<lambda>_. ''ASR language must not be empty'') (new_language v)"

definition deserialize_time_range :: "i64 \<Rightarrow> i64 \<Rightarrow> i64 \<Rightarrow> string + TranscriptTimeRange" where
  "deserialize_time_range s e duration =
     map_err (\<lambda>_. ''invalid transcript time range'') (new_time_range s e duration)"

definition classify_import ::
    "bool \<Rightarrow> ImportModelReadiness \<Rightarrow> AsrErrorCode + unit \<Rightarrow> ImportAsrDisposition" where
  "classify_import auto_transcribe readiness enqueue_result =
     (if \<not> auto_transcribe then NoJob
      else case readiness of
        ModelBlocked e \<Rightarrow> JobBlockedModel e
      | ModelReady \<Rightarrow> (case enqueue_result of
            Inr _ \<Rightarrow> JobQueued
          | Inl ModelNotInstalled \<Rightarrow> JobBlockedModel ModelNotInstalled
          | Inl ModelCapabilityUnavailable \<Rightarrow> JobBlockedModel ModelCapabilityUnavailable
          | Inl e \<Rightarrow> JobFailed e))"

definition new_note ::
    "string \<Rightarrow> string \<Rightarrow> string \<Rightarrow> string \<Rightarrow> i64 \<Rightarrow> string \<Rightarrow> string option \<Rightarrow> CaptureNote" where
  "new_note uuid now_rfc3339 session content ts tag segment = \<lparr>note_id = ''note_'' @ uuid,
     note_session_id = session, note_content = content, note_timestamp_ms = ts, note_tag = tag,
     note_segment_id = segment, note_created_at = now_rfc3339\<rparr>"

definition new_category :: "string \<Rightarrow> string \<Rightarrow> string \<Rightarrow> DictionaryCategory" where
  "new_category uuid name scope = \<lparr>category_id = ''dcat_'' @ uuid, category_name = name,
     category_scope = scope, category_entry_count = 0\<rparr>"

definition new_entry ::
    "string \<Rightarrow> string \<Rightarrow> string \<Rightarrow> string \<Rightarrow> string \<Rightarrow> string \<Rightarrow> DictionaryEntry" where
  "new_entry uuid category term_text pinyin aliases note = \<lparr>entry_id = ''dent_'' @ uuid,
     entry_category_id = category, entry_term = term_text, entry_pinyin = pinyin,
     entry_aliases = aliases, entry_note = note, entry_enabled = True\<rparr>"

definition new_voiceprint ::
    "string \<Rightarrow> string \<Rightarrow> string \<Rightarrow> string \<Rightarrow> string option \<Rightarrow> Voiceprint" where
  "new_voiceprint uuid now_rfc3339 name path entry = \<lparr>voiceprint_id = ''vp_'' @ uuid,
     voiceprint_name = name, voiceprint_embedding_path = path,
     voiceprint_dictionary_entry_id = entry, voiceprint_sample_count = 1,
     voiceprint_updated_at = now_rfc3339\<rparr>"

subsection \<open>The session machine\<close>

text \<open>The lives of a session: the transitions that succeed, at any time of the clock.\<close>

inductive session_step :: "CaptureSession \<Rightarrow> CaptureSession \<Rightarrow> bool" where
  "transition now s target = Inr s' \<Longrightarrow> session_step s s'"

inductive_cases session_stepE: "session_step s s'"

definition session_ok :: "CaptureSession \<Rightarrow> CaptureSession \<Rightarrow> bool" where
  "session_ok origin s \<longleftrightarrow> session_id s = session_id origin \<and> session_title s = session_title origin \<and>
     started_at s = started_at origin \<and> (ended_at s \<noteq> None \<longleftrightarrow> session_state s = Stopped)"

lemma transition_Inr_iff:
  "transition now s target = Inr s' \<longleftrightarrow> valid_transition (session_state s) target \<and>
     s' = (if target = Stopped then s\<lparr>session_state := target, ended_at := Some now\<rparr>
           else s\<lparr>session_state := target\<rparr>)"
  by (auto simp: transition_def Let_def)

lemma stopped_has_no_transition: "\<not> valid_transition Stopped target"
  by (cases target) simp_all

lemma session_step_ok:
  assumes "session_step s s'" "session_ok origin s"
  shows "session_ok origin s'"
proof -
  from assms(1) obtain now target where t: "transition now s target = Inr s'"
    by (rule session_stepE)
  then have "session_state s \<noteq> Stopped" using stopped_has_no_transition by (auto simp: transition_Inr_iff)
  with t assms(2) show ?thesis by (auto simp: transition_Inr_iff session_ok_def)
qed

interpretation session_lives: invariant_relation session_step "session_ok origin" for origin
  by unfold_locales (rule session_step_ok)

text \<open>
  Through every life of a capture session its identity, title and start never change, it has an
  end time exactly when it is stopped, and a stopped session accepts no transition at all.
\<close>

theorem session_life:
  assumes "session_step\<^sup>*\<^sup>* (new_session uuid t0 title) s"
  shows "session_id s = ''rec_'' @ uuid \<and> session_title s = title \<and> started_at s = t0 \<and>
    (ended_at s \<noteq> None \<longleftrightarrow> session_state s = Stopped) \<and>
    (session_state s = Stopped \<longrightarrow>
      (\<forall>now target. transition now s target = Inl (InvalidCaptureTransition Stopped target)))"
proof -
  have "session_ok (new_session uuid t0 title) s"
    by (rule session_lives.reachable_inv [OF assms]) (simp add: session_ok_def new_session_def)
  then show ?thesis
    using stopped_has_no_transition by (auto simp: session_ok_def new_session_def transition_def)
qed

theorem session_life_witness:
  "\<exists>s. session_step\<^sup>*\<^sup>* (new_session ''0a'' 5 ''Call'') s \<and> session_state s = Stopped \<and>
     ended_at s = Some 9 \<and> transition 10 s Recording = Inl (InvalidCaptureTransition Stopped Recording)"
proof -
  let ?s0 = "new_session ''0a'' 5 ''Call''"
  let ?s1 = "?s0\<lparr>session_state := Recording\<rparr>"
  let ?s2 = "?s1\<lparr>session_state := Stopped, ended_at := Some 9\<rparr>"
  have "transition 6 ?s0 Recording = Inr ?s1" "transition 9 ?s1 Stopped = Inr ?s2"
    by (simp_all add: transition_def new_session_def)
  then have "session_step ?s0 ?s1" "session_step ?s1 ?s2" by (blast intro: session_step.intros)+
  then have r: "session_step\<^sup>*\<^sup>* ?s0 ?s2" by (meson r_into_rtranclp rtranclp_trans)
  from session_life [OF r] have "transition 10 ?s2 Recording = Inl (InvalidCaptureTransition Stopped Recording)"
    by simp
  with r show ?thesis by (intro exI [of _ ?s2]) simp
qed

end
