(* ===== verification/Protocol.thy ===== *)
theory Protocol
  imports Prelude
begin

section \<open>The capture helper's wire protocol: \<open>capture/protocol.rs\<close>\<close>

text \<open>
  Commands and headers, their validation, the framing (two big-endian lengths around a JSON header
  and a binary payload), the decoder of untrusted bytes and the validator of a header sequence.
  The JSON library is a pair of arguments: \<open>to_json\<close> is the canonical serialiser and
  \<open>from_json\<close> the derived field-by-field deserialiser; the checks the code adds to it by hand
  are in the model.  A reader is the bytes still to come with the way the stream ends.
\<close>

subsection \<open>Data\<close>

definition PROTOCOL_VERSION :: u16 where "PROTOCOL_VERSION = 2"
definition MAX_HEADER_BYTES :: nat where "MAX_HEADER_BYTES = 64 * 1024"
definition MAX_PAYLOAD_BYTES :: nat where "MAX_PAYLOAD_BYTES = 4 * 1024 * 1024"
definition MAX_MICROPHONE_DEVICES :: nat where "MAX_MICROPHONE_DEVICES = 32"

datatype Source = SrcMicrophone | SrcSystemAudio

instantiation Source :: enum
begin

definition enum_Source :: "Source list" where
  "enum_Source = [SrcMicrophone, SrcSystemAudio]"

definition enum_all_Source :: "(Source \<Rightarrow> bool) \<Rightarrow> bool" where
  "enum_all_Source P \<longleftrightarrow> P SrcMicrophone \<and> P SrcSystemAudio"

definition enum_ex_Source :: "(Source \<Rightarrow> bool) \<Rightarrow> bool" where
  "enum_ex_Source P \<longleftrightarrow> P SrcMicrophone \<or> P SrcSystemAudio"

instance
proof
  show all: "(UNIV :: Source set) = set enum_class.enum"
    by (auto simp: enum_Source_def intro: Source.exhaust)
  show "distinct (enum_class.enum :: Source list)"
    by (simp add: enum_Source_def)
  show "enum_class.enum_all P \<longleftrightarrow> Ball UNIV P" "enum_class.enum_ex P \<longleftrightarrow> Bex UNIV P" for P :: "Source \<Rightarrow> bool"
    unfolding all by (simp_all add: enum_Source_def enum_all_Source_def enum_ex_Source_def)
qed

end

datatype CaptureCommand =
    CmdStart u16 "Source list" string "string option"
  | CmdListMicrophones u16
  | CmdProbeMicrophone u16 string
  | CmdGetPermissionState u16
  | CmdPause u16
  | CmdResume u16
  | CmdStop u16
  | CmdShutdown u16

datatype RawCaptureCommand =
    RawStart u16 "Source list" string "string option"
  | RawListMicrophones u16
  | RawProbeMicrophone u16 string
  | RawGetPermissionState u16
  | RawPause u16
  | RawResume u16
  | RawStop u16
  | RawShutdown u16

datatype PcmFormat = S16Le

fun bytes_per_sample :: "PcmFormat \<Rightarrow> usize" where
  "bytes_per_sample S16Le = 2"

datatype DiscontinuityFlag = Gap | DeviceChange | PermissionRevoked | ClockReset | DroppedBuffers

datatype PermissionState = NotDetermined | NotGranted | Denied | Restricted | Granted

datatype HelloCapability =
    DeviceDiscovery | ExactMicrophoneSelection | MicrophoneProbe | PermissionDiagnostics

datatype MicrophoneTransport = BuiltIn | Usb | Bluetooth | Aggregate | Virtual | UnknownTransport

record Hello =
  hello_version :: u16
  hello_pid :: u32
  hello_nonce :: string
  hello_sources :: "Source list"
  hello_capabilities :: "HelloCapability list"

record MicrophoneDevice =
  device_uid :: string
  device_name :: string
  device_is_default :: bool
  device_is_connected :: bool
  device_transport :: MicrophoneTransport

record MicrophoneDevicesMessage =
  devices :: "MicrophoneDevice list"

datatype MicrophoneProbeResult =
    Compatible | PermissionDenied | Unavailable | IdentityMismatch | InvalidFormat | NoAudioFrames
  | RouteConflict | ProbeTimeout

record MicrophoneProbeMessage =
  probe_uid :: string
  probe_name :: string
  probe_transport :: MicrophoneTransport
  probe_input_sample_rate_hz :: "u32 option"
  probe_input_channel_count :: "u16 option"
  probe_read_back_uid :: "string option"
  probe_first_frame_sample_count :: u64
  probe_elapsed_ms :: u64
  probe_result :: MicrophoneProbeResult

record PermissionStateMessage =
  perm_microphone :: PermissionState
  perm_screen_recording :: PermissionState

record SourceStarted =
  started_source :: Source
  started_device_id :: string
  started_device_name :: string
  started_sample_rate :: u32
  started_channel_count :: u16
  started_host_time :: u64

record AudioFrame =
  frame_source :: Source
  frame_sequence :: u64
  frame_sample_position :: u64
  frame_host_time :: u64
  frame_format :: PcmFormat
  frame_channel_count :: u16
  frame_discontinuity_flags :: "DiscontinuityFlag list"

text \<open>The two \<open>f32\<close> levels are bit patterns: the protocol only carries them.\<close>

record Level =
  level_source :: Source
  level_rms :: u32
  level_peak :: u32

record ChunkSealed =
  sealed_source :: Source
  sealed_path :: string
  sealed_byte_length :: u64
  sealed_sha256 :: string
  sealed_duration_ms :: u64
  sealed_start_sample :: u64
  sealed_end_sample :: u64
  sealed_start_host_time :: u64
  sealed_end_host_time :: u64

record SourceInterrupted =
  interrupted_source :: Source
  interrupted_reason :: string
  interrupted_recoverable :: bool

record SourceRecovering =
  recovering_source :: Source
  recovering_generation :: u64
  recovering_reason :: string

record SourceRecovered =
  recovered_source :: Source
  recovered_generation :: u64
  recovered_device_id :: string
  recovered_first_host_time :: u64

record SourceStopped =
  stopped_source :: Source
  stopped_final_sequence :: u64
  stopped_start_host_time :: u64
  stopped_end_host_time :: u64

record FatalError =
  fatal_code :: string
  fatal_summary :: string

datatype CaptureHeader =
    HdrHello Hello
  | HdrPermissionState PermissionStateMessage
  | HdrSourceStarted SourceStarted
  | HdrMicrophoneDevices MicrophoneDevicesMessage
  | HdrMicrophoneProbeResult MicrophoneProbeMessage
  | HdrAudioFrame AudioFrame
  | HdrLevel Level
  | HdrChunkSealed ChunkSealed
  | HdrSourceInterrupted SourceInterrupted
  | HdrSourceRecovering SourceRecovering
  | HdrSourceRecovered SourceRecovered
  | HdrSourceStopped SourceStopped
  | HdrFatalError FatalError
  | HdrShutdownAck

definition audio_frame_header ::
    "Source \<Rightarrow> u64 \<Rightarrow> u64 \<Rightarrow> u64 \<Rightarrow> PcmFormat \<Rightarrow> u16 \<Rightarrow> CaptureHeader" where
  "audio_frame_header source sequence position host_time format channels =
     HdrAudioFrame \<lparr>frame_source = source, frame_sequence = sequence,
       frame_sample_position = position, frame_host_time = host_time, frame_format = format,
       frame_channel_count = channels, frame_discontinuity_flags = []\<rparr>"

record CaptureFrame =
  header :: CaptureHeader
  payload :: bytes

datatype CaptureProtocolError =
    HeaderTooLarge | PayloadTooLarge | TruncatedFrame | FrameReadTimeout | InvalidHeader
  | UnexpectedPayload | InvalidAudioPayload | HelloRequired | HelloReplay | UnsupportedVersion
  | NonMonotonicSequence

subsection \<open>Validation\<close>

definition validate_version :: "u16 \<Rightarrow> CaptureProtocolError + unit" where
  "validate_version v = (if v \<noteq> PROTOCOL_VERSION then Inl UnsupportedVersion else Inr ())"

fun validate_command :: "CaptureCommand \<Rightarrow> CaptureProtocolError + unit" where
  "validate_command (CmdStart v sources root uid) =
     (if sources = [] then Inl InvalidHeader
      else if (case (SrcMicrophone \<in> set sources, uid) of
                 (True, Some u) \<Rightarrow> \<not> is_blank u
               | (False, None) \<Rightarrow> True
               | _ \<Rightarrow> False)
      then validate_version v else Inl InvalidHeader)"
| "validate_command (CmdProbeMicrophone v uid) =
     (if is_blank uid then Inl InvalidHeader else validate_version v)"
| "validate_command (CmdGetPermissionState v) = validate_version v"
| "validate_command (CmdListMicrophones v) = validate_version v"
| "validate_command (CmdPause v) = validate_version v"
| "validate_command (CmdResume v) = validate_version v"
| "validate_command (CmdStop v) = validate_version v"
| "validate_command (CmdShutdown v) = validate_version v"

fun command_of_raw :: "RawCaptureCommand \<Rightarrow> CaptureCommand" where
  "command_of_raw (RawStart v sources root uid) = CmdStart v sources root uid"
| "command_of_raw (RawListMicrophones v) = CmdListMicrophones v"
| "command_of_raw (RawProbeMicrophone v uid) = CmdProbeMicrophone v uid"
| "command_of_raw (RawGetPermissionState v) = CmdGetPermissionState v"
| "command_of_raw (RawPause v) = CmdPause v"
| "command_of_raw (RawResume v) = CmdResume v"
| "command_of_raw (RawStop v) = CmdStop v"
| "command_of_raw (RawShutdown v) = CmdShutdown v"

definition try_from_raw :: "RawCaptureCommand \<Rightarrow> CaptureProtocolError + CaptureCommand" where
  "try_from_raw raw = (let c = command_of_raw raw in and_then (validate_command c) (\<lambda>_. Inr c))"

definition validate_hello :: "Hello \<Rightarrow> CaptureProtocolError + unit" where
  "validate_hello h = and_then (validate_version (hello_version h)) (\<lambda>_.
     let caps = set (hello_capabilities h) in
     if DeviceDiscovery \<notin> caps \<or> ExactMicrophoneSelection \<notin> caps \<or> MicrophoneProbe \<notin> caps \<or>
        PermissionDiagnostics \<notin> caps
     then Inl InvalidHeader else Inr ())"

definition validate_microphone_device :: "MicrophoneDevice \<Rightarrow> CaptureProtocolError + unit" where
  "validate_microphone_device d =
     (if is_blank (device_uid d) \<or> is_blank (device_name d) \<or> \<not> device_is_connected d
      then Inl InvalidHeader else Inr ())"

fun validate_devices_from :: "string set \<Rightarrow> MicrophoneDevice list \<Rightarrow> CaptureProtocolError + unit" where
  "validate_devices_from uids [] = Inr ()"
| "validate_devices_from uids (d # ds) =
     and_then (validate_microphone_device d) (\<lambda>_.
     if device_uid d \<in> uids then Inl InvalidHeader
     else validate_devices_from (insert (device_uid d) uids) ds)"

definition validate_microphone_devices :: "MicrophoneDevicesMessage \<Rightarrow> CaptureProtocolError + unit" where
  "validate_microphone_devices msg =
     (if MAX_MICROPHONE_DEVICES < length (devices msg) then Inl InvalidHeader
      else validate_devices_from {} (devices msg))"

definition positive :: "'w::len word option \<Rightarrow> bool" where
  "positive x = (case x of Some v \<Rightarrow> 0 < v | None \<Rightarrow> False)"

definition validate_microphone_probe :: "MicrophoneProbeMessage \<Rightarrow> CaptureProtocolError + unit" where
  "validate_microphone_probe msg =
     (if is_blank (probe_uid msg) \<or> is_blank (probe_name msg) then Inl InvalidHeader
      else if (case probe_result msg of
          Compatible \<Rightarrow> positive (probe_input_sample_rate_hz msg) \<and>
            positive (probe_input_channel_count msg) \<and>
            probe_read_back_uid msg = Some (probe_uid msg) \<and> 0 < probe_first_frame_sample_count msg
        | IdentityMismatch \<Rightarrow>
            (case probe_read_back_uid msg of
               Some uid \<Rightarrow> uid \<noteq> [] \<and> uid \<noteq> probe_uid msg
             | None \<Rightarrow> False) \<and> probe_first_frame_sample_count msg = 0
        | NoAudioFrames \<Rightarrow> positive (probe_input_sample_rate_hz msg) \<and>
            positive (probe_input_channel_count msg) \<and>
            probe_read_back_uid msg = Some (probe_uid msg) \<and> probe_first_frame_sample_count msg = 0
        | _ \<Rightarrow> probe_first_frame_sample_count msg = 0)
      then Inr () else Inl InvalidHeader)"

fun validate_header :: "CaptureHeader \<Rightarrow> CaptureProtocolError + unit" where
  "validate_header (HdrHello h) = validate_hello h"
| "validate_header (HdrMicrophoneDevices msg) = validate_microphone_devices msg"
| "validate_header (HdrMicrophoneProbeResult msg) = validate_microphone_probe msg"
| "validate_header (HdrSourceRecovering v) =
     (if recovering_generation v = 0 \<or> is_blank (recovering_reason v) then Inl InvalidHeader else Inr ())"
| "validate_header (HdrSourceRecovered v) =
     (if recovered_generation v = 0 \<or> is_blank (recovered_device_id v) \<or>
         recovered_first_host_time v = 0
      then Inl InvalidHeader else Inr ())"
| "validate_header _ = Inr ()"

fun is_audio_frame :: "CaptureHeader \<Rightarrow> bool" where
  "is_audio_frame (HdrAudioFrame _) = True"
| "is_audio_frame _ = False"

fun validate_audio_payload :: "CaptureHeader \<Rightarrow> bytes \<Rightarrow> CaptureProtocolError + unit" where
  "validate_audio_payload (HdrAudioFrame f) data =
     and_then (ok_or InvalidAudioPayload
        (case checked_mul (bytes_per_sample (frame_format f)) (ucast (frame_channel_count f)) of
           Some stride \<Rightarrow> if stride \<noteq> 0 then Some stride else None
         | None \<Rightarrow> None)) (\<lambda>frame_bytes.
     if data = [] \<or> length data mod unat frame_bytes \<noteq> 0 then Inl InvalidAudioPayload else Inr ())"
| "validate_audio_payload _ data = Inr ()"

subsection \<open>Deserialisation with its hand-written checks\<close>

text \<open>
  \<open>serde_json::from_slice::<CaptureHeader>\<close>: the derived parser, then the checks of the
  hand-written \<open>Deserialize\<close> implementations, innermost first; every error is one parse error.
\<close>

fun deserialize_checks :: "CaptureHeader \<Rightarrow> CaptureProtocolError + unit" where
  "deserialize_checks (HdrHello h) = validate_hello h"
| "deserialize_checks (HdrMicrophoneDevices msg) =
     and_then (collect_results validate_microphone_device (devices msg))
       (\<lambda>_. validate_microphone_devices msg)"
| "deserialize_checks _ = Inr ()"

definition header_from_slice :: "(bytes \<Rightarrow> CaptureHeader option) \<Rightarrow> bytes \<Rightarrow> CaptureHeader option" where
  "header_from_slice from_json bs = (case from_json bs of
      None \<Rightarrow> None
    | Some h \<Rightarrow> (case deserialize_checks h of Inr _ \<Rightarrow> Some h | Inl _ \<Rightarrow> None))"

subsection \<open>Framing\<close>

definition to_be_bytes :: "u32 \<Rightarrow> bytes" where
  "to_be_bytes w = map (\<lambda>k. of_nat (unat w div 256 ^ k mod 256)) [3, 2, 1, 0]"

definition from_be_bytes :: "bytes \<Rightarrow> nat" where
  "from_be_bytes bs = foldl (\<lambda>n b. n * 256 + unat b) 0 bs"

definition encode_frame ::
    "(CaptureHeader \<Rightarrow> bytes option) \<Rightarrow> CaptureHeader \<Rightarrow> bytes \<Rightarrow> CaptureProtocolError + bytes" where
  "encode_frame to_json h data =
     and_then (validate_header h) (\<lambda>_.
     and_then (ok_or InvalidHeader (to_json h)) (\<lambda>header_bytes.
     if MAX_HEADER_BYTES < length header_bytes then Inl HeaderTooLarge
     else if MAX_PAYLOAD_BYTES < length data then Inl PayloadTooLarge
     else if \<not> is_audio_frame h \<and> data \<noteq> [] then Inl UnexpectedPayload
     else and_then (validate_audio_payload h data) (\<lambda>_.
          Inr (to_be_bytes (of_nat (length header_bytes)) @ header_bytes @
               to_be_bytes (of_nat (length data)) @ data))))"

definition encode_command ::
    "(CaptureCommand \<Rightarrow> bytes option) \<Rightarrow> CaptureCommand \<Rightarrow> CaptureProtocolError + bytes" where
  "encode_command to_json c =
     and_then (validate_command c) (\<lambda>_.
     and_then (ok_or InvalidHeader (to_json c)) (\<lambda>header_bytes.
     if MAX_HEADER_BYTES < length header_bytes then Inl HeaderTooLarge
     else Inr (to_be_bytes (of_nat (length header_bytes)) @ header_bytes @ to_be_bytes 0)))"

datatype stream_end = EndOfFile | TimesOut

type_synonym reader = "bytes \<times> stream_end"

definition read_exact :: "nat \<Rightarrow> reader \<Rightarrow> CaptureProtocolError + bytes \<times> reader" where
  "read_exact n r =
     (if n \<le> length (fst r) then Inr (take n (fst r), (drop n (fst r), snd r))
      else Inl (case snd r of TimesOut \<Rightarrow> FrameReadTimeout | EndOfFile \<Rightarrow> TruncatedFrame))"

definition read_length :: "reader \<Rightarrow> CaptureProtocolError + nat \<times> reader" where
  "read_length r = and_then (read_exact 4 r) (\<lambda>(bs, r). Inr (from_be_bytes bs, r))"

record FrameDecoder =
  max_header_bytes :: nat
  max_payload_bytes :: nat

definition default_decoder :: FrameDecoder where
  "default_decoder = \<lparr>max_header_bytes = MAX_HEADER_BYTES, max_payload_bytes = MAX_PAYLOAD_BYTES\<rparr>"

definition decode ::
    "(bytes \<Rightarrow> CaptureHeader option) \<Rightarrow> FrameDecoder \<Rightarrow> reader \<Rightarrow>
       CaptureProtocolError + CaptureFrame \<times> reader" where
  "decode from_json d r =
     and_then (read_length r) (\<lambda>(header_length, r).
     if max_header_bytes d < header_length then Inl HeaderTooLarge
     else and_then (read_exact header_length r) (\<lambda>(header_bytes, r).
     and_then (ok_or InvalidHeader (header_from_slice from_json header_bytes)) (\<lambda>h.
     and_then (validate_header h) (\<lambda>_.
     and_then (read_length r) (\<lambda>(payload_length, r).
     if max_payload_bytes d < payload_length then Inl PayloadTooLarge
     else if \<not> is_audio_frame h \<and> payload_length \<noteq> 0 then Inl UnexpectedPayload
     else and_then (read_exact payload_length r) (\<lambda>(data, r).
     and_then (validate_audio_payload h data) (\<lambda>_.
     Inr (\<lparr>header = h, payload = data\<rparr>, r))))))))"

subsection \<open>The header sequence\<close>

record ProtocolValidator =
  hello_seen :: bool
  last_sequence_by_source :: "Source \<rightharpoonup> u64"

definition default_validator :: ProtocolValidator where
  "default_validator = \<lparr>hello_seen = False, last_sequence_by_source = Map.empty\<rparr>"

fun observe :: "ProtocolValidator \<Rightarrow> CaptureHeader \<Rightarrow> CaptureProtocolError + ProtocolValidator" where
  "observe v (HdrHello h) =
     (if hello_seen v then Inl HelloReplay
      else and_then (validate_hello h) (\<lambda>_. Inr (v\<lparr>hello_seen := True\<rparr>)))"
| "observe v (HdrAudioFrame f) =
     (if \<not> hello_seen v then Inl HelloRequired
      else if (case last_sequence_by_source v (frame_source f) of
                 Some previous \<Rightarrow> frame_sequence f \<le> previous
               | None \<Rightarrow> False)
      then Inl NonMonotonicSequence
      else Inr (v\<lparr>last_sequence_by_source :=
                    (last_sequence_by_source v)(frame_source f \<mapsto> frame_sequence f)\<rparr>))"
| "observe v _ = (if \<not> hello_seen v then Inl HelloRequired else Inr v)"

subsection \<open>Facts about framing\<close>

lemma from_to_be_bytes [simp]: "from_be_bytes (to_be_bytes w) = unat w"
proof -
  define n where "n = unat w"
  have n: "n < 256 ^ 4" using unat_less_exp [of w] by (simp add: n_def)
  have byte: "unat (of_nat (m mod 256) :: u8) = m mod 256" for m :: nat
    by (simp add: unat_of_nat)
  define a b c where "a = n div 256" and "b = a div 256" and "c = b div 256"
  have d: "n div 256 ^ 2 = b" "n div 256 ^ 3 = c" "n div 256 ^ 1 = a" "n div 256 ^ 0 = n"
    by (simp_all add: a_def b_def c_def div_mult2_eq [symmetric])
  have "c < 256" using n by (simp add: a_def b_def c_def div_mult2_eq [symmetric] less_mult_imp_div_less)
  then have "((c mod 256 * 256 + b mod 256) * 256 + a mod 256) * 256 + n mod 256 = n"
    by (simp add: c_def b_def a_def)
  then show ?thesis
    by (simp only: to_be_bytes_def from_be_bytes_def list.map foldl.simps byte n_def [symmetric] d
        add_0 mult_zero_left)
qed

lemma length_to_be_bytes [simp]: "length (to_be_bytes w) = 4"
  by (simp add: to_be_bytes_def)

lemma be_length: "n < 2 ^ 32 \<Longrightarrow> from_be_bytes (to_be_bytes (of_nat n)) = n"
  by (simp add: unat_of_nat)

lemma read_exact_append [simp]: "n = length bs \<Longrightarrow> read_exact n (bs @ rest, e) = Inr (bs, rest, e)"
  by (simp add: read_exact_def)

lemma read_length_append [simp]:
  "n < 2 ^ 32 \<Longrightarrow> read_length (to_be_bytes (of_nat n) @ rest, e) = Inr (n, rest, e)"
  by (simp add: read_length_def unat_of_nat)

lemma read_exact_Inr:
  "read_exact n r = Inr (bs, r') \<longleftrightarrow> length bs = n \<and> fst r = bs @ fst r' \<and> snd r' = snd r"
  by (cases r; cases r') (auto simp: read_exact_def append_eq_conv_conj)

lemma read_length_Inr:
  "read_length r = Inr (n, r') \<longleftrightarrow>
     (\<exists>bs. length bs = 4 \<and> n = from_be_bytes bs \<and> fst r = bs @ fst r' \<and> snd r' = snd r)"
  by (cases r; cases r') (auto simp: read_length_def result_simps read_exact_Inr)

lemma validate_devices_from_iff:
  "validate_devices_from uids ds = Inr () \<longleftrightarrow>
     (\<forall>d \<in> set ds. validate_microphone_device d = Inr ()) \<and> distinct (map device_uid ds) \<and>
     uids \<inter> device_uid ` set ds = {}"
  by (induction ds arbitrary: uids) (auto simp: result_simps)

lemma validate_microphone_devices_iff:
  "validate_microphone_devices msg = Inr () \<longleftrightarrow> length (devices msg) \<le> 32 \<and>
     (\<forall>d \<in> set (devices msg). validate_microphone_device d = Inr ()) \<and>
     distinct (map device_uid (devices msg))"
  by (auto simp: validate_microphone_devices_def MAX_MICROPHONE_DEVICES_def validate_devices_from_iff)

lemma collect_units: "(\<forall>x \<in> set xs. f x = Inr ()) \<Longrightarrow> \<exists>us. collect_results f xs = Inr us"
  by (induction xs) auto

lemma deserialize_checks_of_valid: "validate_header h = Inr () \<Longrightarrow> deserialize_checks h = Inr ()"
  using collect_units [of _ validate_microphone_device]
  by (cases h) (auto simp: validate_microphone_devices_iff, metis and_then.simps(2) validate_microphone_devices_iff)


definition ack_to_json :: "CaptureHeader \<Rightarrow> bytes option" where
  "ack_to_json h = (if h = HdrShutdownAck then Some [123, 125] else None)"

definition ack_from_json :: "bytes \<Rightarrow> CaptureHeader option" where
  "ack_from_json bs = (if bs = [123, 125] then Some HdrShutdownAck else None)"


text \<open>
  On arbitrary bytes the decoder never accepts an oversized or ill-typed frame: a decoded frame
  took at most 8 bytes, 64 KiB of header and 4 MiB of payload off the stream, its header passes
  validation, only audio frames carry a payload, and an audio payload is a positive number of whole
  sample frames.
\<close>

theorem decode_safe:
  assumes "decode from_json default_decoder r = Inr (f, r')"
  shows "\<exists>consumed. fst r = consumed @ fst r' \<and> 8 + length (payload f) \<le> length consumed \<and>
      length consumed \<le> 8 + 65536 + length (payload f) \<and> length (payload f) \<le> 4194304 \<and>
      validate_header (header f) = Inr () \<and>
      (\<not> is_audio_frame (header f) \<longrightarrow> payload f = []) \<and>
      (\<forall>a. header f = HdrAudioFrame a \<longrightarrow> payload f \<noteq> [] \<and>
        (\<exists>k. length (payload f) = k * (2 * unat (frame_channel_count a))))"
proof -
  from assms obtain l1 hb l2 h data where f: "f = \<lparr>header = h, payload = data\<rparr>"
    and l1: "length l1 = 4" and hb: "length hb \<le> MAX_HEADER_BYTES"
    and v: "validate_header h = Inr ()" and l2: "length l2 = 4"
    and pl: "length data \<le> MAX_PAYLOAD_BYTES" and kind: "is_audio_frame h \<or> data = []"
    and a: "validate_audio_payload h data = Inr ()" and bytes: "fst r = l1 @ hb @ l2 @ data @ fst r'"
    by (auto simp: decode_def result_simps read_length_Inr read_exact_Inr default_decoder_def
        not_less split: if_splits) metis+
  have whole: "data \<noteq> [] \<and> (\<exists>k. length data = k * (2 * unat (frame_channel_count x)))"
    if "h = HdrAudioFrame x" for x
  proof -
    have "unat (ucast (frame_channel_count x) :: u64) = unat (frame_channel_count x)"
    proof -
      have "unat (frame_channel_count x) < 2 ^ 16" using unat_less_exp [of "frame_channel_count x"] by simp
      then have "unat (frame_channel_count x) < 2 ^ 64" by simp
      then show ?thesis by (simp add: unsigned_ucast_eq take_bit_nat_eq_self)
    qed
    with a that have "data \<noteq> []" "length data mod (2 * unat (frame_channel_count x)) = 0"
      by (cases "frame_format x"; auto simp: result_simps checked_simps split: option.splits if_splits)+
    then show ?thesis by (metis dvd_def mod_0_imp_dvd mult.commute)
  qed
  show ?thesis
    using l1 l2 hb pl v kind whole bytes
    by (intro exI [of _ "l1 @ hb @ l2 @ data"])
      (auto simp: f MAX_HEADER_BYTES_def MAX_PAYLOAD_BYTES_def)
qed

theorem decode_safe_witness:
  "decode ack_from_json default_decoder ([0, 0, 0, 2, 123, 125, 0, 0, 0, 0, 7], TimesOut) =
     Inr (\<lparr>header = HdrShutdownAck, payload = []\<rparr>, ([7], TimesOut)) \<and>
   (\<exists>consumed. [0, 0, 0, 2, 123, 125, 0, 0, 0, 0, 7] = consumed @ [7 :: u8] \<and> length consumed \<le> 65544)"
proof -
  have d: "decode ack_from_json default_decoder ([0, 0, 0, 2, 123, 125, 0, 0, 0, 0, 7], TimesOut) =
     Inr (\<lparr>header = HdrShutdownAck, payload = []\<rparr>, ([7], TimesOut))"
    by (simp add: decode_def read_length_def read_exact_def default_decoder_def ack_from_json_def
        header_from_slice_def MAX_HEADER_BYTES_def MAX_PAYLOAD_BYTES_def from_be_bytes_def)
  from decode_safe [OF d] obtain consumed
    where "[0, 0, 0, 2, 123, 125, 0, 0, 0, 0, 7] = consumed @ [7 :: u8]" "length consumed \<le> 65544"
    by auto
  with d show ?thesis by blast
qed

subsection \<open>Facts about header sequences\<close>

fun observe_all :: "ProtocolValidator \<Rightarrow> CaptureHeader list \<Rightarrow> CaptureProtocolError + ProtocolValidator" where
  "observe_all v [] = Inr v"
| "observe_all v (h # hs) = and_then (observe v h) (\<lambda>v. observe_all v hs)"

fun is_hello :: "CaptureHeader \<Rightarrow> bool" where
  "is_hello (HdrHello _) = True"
| "is_hello _ = False"

text \<open>The sequence numbers of one source, in the order of the headers.\<close>

fun sequences :: "Source \<Rightarrow> CaptureHeader list \<Rightarrow> u64 list" where
  "sequences s [] = []"
| "sequences s (HdrAudioFrame f # hs) =
     (if frame_source f = s then frame_sequence f # sequences s hs else sequences s hs)"
| "sequences s (_ # hs) = sequences s hs"

definition above :: "u64 option \<Rightarrow> u64 list \<Rightarrow> bool" where
  "above p xs \<longleftrightarrow> sorted_wrt (<) (case p of Some x \<Rightarrow> x # xs | None \<Rightarrow> xs)"

lemma above_Cons: "above p (x # xs) \<longleftrightarrow>
    (case p of Some y \<Rightarrow> y < x | None \<Rightarrow> True) \<and> above (Some x) xs"
  by (cases p) (auto simp: above_def intro: less_trans)

lemma observe_all_after_hello:
  "hello_seen v \<Longrightarrow> (\<exists>v'. observe_all v hs = Inr v') \<longleftrightarrow>
     (\<forall>h \<in> set hs. \<not> is_hello h) \<and> (\<forall>s. above (last_sequence_by_source v s) (sequences s hs))"
proof (induction hs arbitrary: v)
  case Nil
  then show ?case by (auto simp: above_def split: option.splits)
next
  case (Cons h hs)
  show ?case
  proof (cases h)
    case (HdrAudioFrame f)
    let ?v = "v\<lparr>last_sequence_by_source :=
      (last_sequence_by_source v)(frame_source f \<mapsto> frame_sequence f)\<rparr>"
    let ?stale = "case last_sequence_by_source v (frame_source f) of
      Some previous \<Rightarrow> frame_sequence f \<le> previous | None \<Rightarrow> False"
    have eq: "above (last_sequence_by_source v s) (sequences s (h # hs)) \<longleftrightarrow>
        (s = frame_source f \<longrightarrow> \<not> ?stale) \<and> above (last_sequence_by_source ?v s) (sequences s hs)" for s
      using HdrAudioFrame by (auto simp: above_Cons not_le split: option.splits)
    show ?thesis
    proof (cases ?stale)
      case True
      then have "\<not> (\<exists>v'. observe_all v (h # hs) = Inr v')"
        using HdrAudioFrame Cons.prems by (auto split: option.splits)
      with True show ?thesis using eq by blast
    next
      case False
      then have "observe_all v (h # hs) = observe_all ?v hs"
        using HdrAudioFrame Cons.prems by (auto split: option.splits)
      with False show ?thesis
        using eq Cons.IH [of ?v] Cons.prems HdrAudioFrame by auto
    qed
  qed (use Cons in auto)
qed

text \<open>
  A header sequence is accepted exactly when it starts with one valid greeting, never greets
  again, and the sequence numbers of every source increase strictly.
\<close>

theorem observe_all_accepts_iff:
  "(\<exists>v. observe_all default_validator hs = Inr v) \<longleftrightarrow>
     hs = [] \<or> (\<exists>hello rest. hs = HdrHello hello # rest \<and> validate_hello hello = Inr () \<and>
        list_all (\<lambda>h. \<not> is_hello h) rest \<and> (\<forall>s. sorted_wrt (<) (sequences s rest)))"
proof (cases hs)
  case Nil
  then show ?thesis by simp
next
  case (Cons h rest)
  let ?v = "default_validator\<lparr>hello_seen := True\<rparr>"
  have after: "(\<exists>v. observe_all ?v rest = Inr v) \<longleftrightarrow>
      (\<forall>h \<in> set rest. \<not> is_hello h) \<and> (\<forall>s. sorted_wrt (<) (sequences s rest))"
    using observe_all_after_hello [of ?v rest] by (simp add: default_validator_def above_def)
  show ?thesis
  proof (cases h)
    case (HdrHello hello)
    then have "(\<exists>v. observe_all default_validator hs = Inr v) \<longleftrightarrow>
        validate_hello hello = Inr () \<and> (\<exists>v. observe_all ?v rest = Inr v)"
      using Cons by (auto simp: default_validator_def result_simps)
    with after Cons HdrHello show ?thesis by (auto simp: list_all_iff)
  qed (use Cons in \<open>auto simp: default_validator_def\<close>)
qed

end
