(* ===== verification/Coordinator.thy ===== *)
theory Coordinator
  imports Protocol
begin

section \<open>The native capture coordinator: \<open>capture/coordinator.rs\<close>\<close>

text \<open>
  The state machine between the recording session and the capture helper.  The transport and the
  chunk committer are the code's two traits: records of operations on a state of their own, so
  every call the coordinator makes of them is visible in the result.  An operation returns the
  new coordinator, the new transport or committer state and its result.
\<close>

subsection \<open>Data\<close>

record NativeCaptureSourceRequest =
  request_source :: Source
  request_enabled :: bool

datatype NativeCaptureTransportCommand =
    TrPreflight Source
  | TrStart "Source list" "string option"
  | TrPause
  | TrResume
  | TrStop

datatype NativeCaptureStableError =
    Fatal string string
  | StableHelperExited
  | StableProtocolViolation
  | StableBackpressure
  | CommitFailed
  | DeviceInterrupted Source string

datatype NativeCaptureTransportError =
    UnsupportedSource Source
  | HelperExited
  | ProtocolViolation
  | Backpressure

datatype NativeCapturePhase =
    PhRequested | PhPreflighted | PhRunning | PhPaused | PhStopping | PhStopped
  | PhFailed NativeCaptureStableError

datatype NativeCaptureSourceState =
    SsRequested | SsPreflighted | SsRunning | SsRecovering | SsPaused | SsStopping | SsStopped

datatype NativeCaptureDrainOutcome = Pending | Complete

datatype NativeCaptureCoordinatorError =
    DuplicateSource Source
  | NoEnabledSources
  | InvalidState string
  | PreflightRejected Source
  | Stable NativeCaptureStableError

record 't transport_ops =
  tr_preflight_source :: "Source \<Rightarrow> 't \<Rightarrow> (NativeCaptureTransportError + unit) \<times> 't"
  tr_start_sources ::
    "Source list \<Rightarrow> string option \<Rightarrow> 't \<Rightarrow> (NativeCaptureTransportError + unit) \<times> 't"
  tr_pause :: "'t \<Rightarrow> (NativeCaptureTransportError + unit) \<times> 't"
  tr_resume :: "'t \<Rightarrow> (NativeCaptureTransportError + unit) \<times> 't"
  tr_stop :: "'t \<Rightarrow> (NativeCaptureTransportError + unit) \<times> 't"
  tr_shutdown :: "'t \<Rightarrow> (NativeCaptureTransportError + unit) \<times> 't"
  tr_next_event :: "'t \<Rightarrow> (NativeCaptureTransportError + CaptureHeader option) \<times> 't"

type_synonym 'c committer = "ChunkSealed \<Rightarrow> 'c \<Rightarrow> (NativeCaptureStableError + unit) \<times> 'c"

record coordinator =
  requested_sources :: "NativeCaptureSourceRequest list"
  phase :: NativeCapturePhase
  source_states :: "Source \<rightharpoonup> NativeCaptureSourceState"
  started_sources :: "Source set"
  stopped_enabled_sources :: "Source set"
  committed_chunks :: nat
  selected_microphone_uid :: "string option"
  last_recovery_generation :: "Source \<rightharpoonup> u64"

type_synonym 'a outcome = "NativeCaptureCoordinatorError + 'a"

subsection \<open>Helpers\<close>

definition enabled_sources :: "coordinator \<Rightarrow> Source list" where
  "enabled_sources c = map request_source (filter request_enabled (requested_sources c))"

definition enabled_started_sources :: "coordinator \<Rightarrow> Source list" where
  "enabled_started_sources c = filter (\<lambda>s. s \<in> started_sources c) (enabled_sources c)"

definition all_enabled_sources_stopped :: "coordinator \<Rightarrow> bool" where
  "all_enabled_sources_stopped c \<longleftrightarrow>
     list_all (\<lambda>s. s \<in> stopped_enabled_sources c) (enabled_sources c)"

definition ensure_not_failed :: "coordinator \<Rightarrow> unit outcome" where
  "ensure_not_failed c = (case phase c of PhFailed e \<Rightarrow> Inl (Stable e) | _ \<Rightarrow> Inr ())"

fun transport_error_to_stable :: "NativeCaptureTransportError \<Rightarrow> NativeCaptureStableError" where
  "transport_error_to_stable (UnsupportedSource s) = DeviceInterrupted s ''unsupported source''"
| "transport_error_to_stable HelperExited = StableHelperExited"
| "transport_error_to_stable ProtocolViolation = StableProtocolViolation"
| "transport_error_to_stable Backpressure = StableBackpressure"

definition enter_failed :: "NativeCaptureStableError \<Rightarrow> coordinator \<Rightarrow> coordinator \<times> 'a outcome" where
  "enter_failed e c = (c\<lparr>phase := PhFailed e\<rparr>, Inl (Stable e))"

definition set_state :: "NativeCaptureSourceState \<Rightarrow> Source \<Rightarrow> coordinator \<Rightarrow> coordinator" where
  "set_state st s c = c\<lparr>source_states := (source_states c)(s \<mapsto> st)\<rparr>"

definition set_states :: "NativeCaptureSourceState \<Rightarrow> Source list \<Rightarrow> coordinator \<Rightarrow> coordinator" where
  "set_states st ss c = fold (set_state st) ss c"

definition finish_if_stopped :: "coordinator \<Rightarrow> coordinator \<times> NativeCaptureDrainOutcome outcome" where
  "finish_if_stopped c =
     (if phase c = PhStopping \<and> all_enabled_sources_stopped c
      then (c\<lparr>phase := PhStopped\<rparr>, Inr Complete) else (c, Inr Pending))"

subsection \<open>Operations\<close>

fun new_coordinator_loop ::
    "Source set \<Rightarrow> bool \<Rightarrow> (Source \<rightharpoonup> NativeCaptureSourceState) \<Rightarrow> NativeCaptureSourceRequest list \<Rightarrow>
       (bool \<times> (Source \<rightharpoonup> NativeCaptureSourceState)) outcome" where
  "new_coordinator_loop seen enabled states [] = Inr (enabled, states)"
| "new_coordinator_loop seen enabled states (r # rs) =
     (if request_source r \<in> seen then Inl (DuplicateSource (request_source r))
      else new_coordinator_loop (insert (request_source r) seen) (enabled \<or> request_enabled r)
             (states(request_source r \<mapsto> SsRequested)) rs)"

definition new_coordinator :: "NativeCaptureSourceRequest list \<Rightarrow> coordinator outcome" where
  "new_coordinator requests =
     (if requests = [] then Inl NoEnabledSources
      else and_then (new_coordinator_loop {} False Map.empty requests) (\<lambda>(enabled, states).
        if \<not> enabled then Inl NoEnabledSources
        else Inr \<lparr>requested_sources = requests, phase = PhRequested, source_states = states,
               started_sources = {}, stopped_enabled_sources = {}, committed_chunks = 0,
               selected_microphone_uid = None, last_recovery_generation = Map.empty\<rparr>))"

fun preflight_loop ::
    "'t transport_ops \<Rightarrow> Source list \<Rightarrow> coordinator \<Rightarrow> 't \<Rightarrow> coordinator \<times> 't \<times> unit outcome" where
  "preflight_loop tr [] c t = (c\<lparr>phase := PhPreflighted\<rparr>, t, Inr ())"
| "preflight_loop tr (s # ss) c t = (case tr_preflight_source tr s t of
      (Inr _, t) \<Rightarrow> preflight_loop tr ss (set_state SsPreflighted s c) t
    | (Inl (UnsupportedSource s'), t) \<Rightarrow> (c, t, Inl (PreflightRejected s'))
    | (Inl e, t) \<Rightarrow> (let (c, r) = enter_failed (transport_error_to_stable e) c in (c, t, r)))"

definition preflight :: "'t transport_ops \<Rightarrow> coordinator \<Rightarrow> 't \<Rightarrow> coordinator \<times> 't \<times> unit outcome" where
  "preflight tr c t = (case ensure_not_failed c of
      Inl e \<Rightarrow> (c, t, Inl e)
    | Inr _ \<Rightarrow> if phase c \<noteq> PhRequested then (c, t, Inl (InvalidState ''preflight''))
        else preflight_loop tr (enabled_sources c) c t)"

definition start ::
    "'t transport_ops \<Rightarrow> string option \<Rightarrow> coordinator \<Rightarrow> 't \<Rightarrow> coordinator \<times> 't \<times> unit outcome" where
  "start tr uid c t = (case ensure_not_failed c of
      Inl e \<Rightarrow> (c, t, Inl e)
    | Inr _ \<Rightarrow> if phase c \<noteq> PhPreflighted then (c, t, Inl (InvalidState ''start''))
        else let enabled = enabled_sources c in
          (case tr_start_sources tr enabled uid t of
             (Inl e, t) \<Rightarrow> (let (c, r) = enter_failed (transport_error_to_stable e) c in (c, t, r))
           | (Inr _, t) \<Rightarrow>
               let c = c\<lparr>selected_microphone_uid :=
                           (if SrcMicrophone \<in> set enabled then uid else None),
                         last_recovery_generation := Map.empty,
                         started_sources := started_sources c \<union> set enabled\<rparr>;
                   c = set_states SsRunning enabled c
               in (c\<lparr>phase := PhRunning\<rparr>, t, Inr ())))"

lemma recovering_code [code_unfold]:
  "SsRecovering \<in> ran m \<longleftrightarrow> m SrcMicrophone = Some SsRecovering \<or> m SrcSystemAudio = Some SsRecovering"
  by (auto simp: ran_def intro: Source.exhaust) (metis Source.exhaust)

definition pause :: "'t transport_ops \<Rightarrow> coordinator \<Rightarrow> 't \<Rightarrow> coordinator \<times> 't \<times> unit outcome" where
  "pause tr c t = (case ensure_not_failed c of
      Inl e \<Rightarrow> (c, t, Inl e)
    | Inr _ \<Rightarrow> if phase c \<noteq> PhRunning then (c, t, Inl (InvalidState ''pause''))
        else if SsRecovering \<in> ran (source_states c)
        then (c, t, Inl (InvalidState ''pause_recovering''))
        else (case tr_pause tr t of
            (Inl e, t) \<Rightarrow> (let (c, r) = enter_failed (transport_error_to_stable e) c in (c, t, r))
          | (Inr _, t) \<Rightarrow>
              ((set_states SsPaused (enabled_started_sources c) c)\<lparr>phase := PhPaused\<rparr>, t, Inr ())))"

definition resume :: "'t transport_ops \<Rightarrow> coordinator \<Rightarrow> 't \<Rightarrow> coordinator \<times> 't \<times> unit outcome" where
  "resume tr c t = (case ensure_not_failed c of
      Inl e \<Rightarrow> (c, t, Inl e)
    | Inr _ \<Rightarrow> if phase c \<noteq> PhPaused then (c, t, Inl (InvalidState ''resume''))
        else (case tr_resume tr t of
            (Inl e, t) \<Rightarrow> (let (c, r) = enter_failed (transport_error_to_stable e) c in (c, t, r))
          | (Inr _, t) \<Rightarrow>
              ((set_states SsRunning (enabled_started_sources c) c)\<lparr>phase := PhRunning\<rparr>, t, Inr ())))"

definition stop :: "'t transport_ops \<Rightarrow> coordinator \<Rightarrow> 't \<Rightarrow> coordinator \<times> 't \<times> unit outcome" where
  "stop tr c t = (case ensure_not_failed c of
      Inl e \<Rightarrow> (c, t, Inl e)
    | Inr _ \<Rightarrow> if \<not> (phase c = PhRunning \<or> phase c = PhPaused) then (c, t, Inl (InvalidState ''stop''))
        else (case tr_stop tr t of
            (Inl e, t) \<Rightarrow> (let (c, r) = enter_failed (transport_error_to_stable e) c in (c, t, r))
          | (Inr _, t) \<Rightarrow>
              ((set_states SsStopping (enabled_started_sources c) c)\<lparr>phase := PhStopping\<rparr>, t, Inr ())))"

fun handle_header ::
    "'c committer \<Rightarrow> CaptureHeader option \<Rightarrow> coordinator \<Rightarrow> 'c \<Rightarrow>
       coordinator \<times> 'c \<times> NativeCaptureDrainOutcome outcome" where
  "handle_header cm None c k = (let (c, r) = finish_if_stopped c in (c, k, r))"
| "handle_header cm (Some (HdrChunkSealed sealed)) c k = (case cm sealed k of
      (Inl e, k) \<Rightarrow> (c, k, Inl (Stable e))
    | (Inr _, k) \<Rightarrow>
        let (c, r) = finish_if_stopped (c\<lparr>committed_chunks := committed_chunks c + 1\<rparr>) in (c, k, r))"
| "handle_header cm (Some (HdrSourceStopped st)) c k =
     (let s = stopped_source st;
          c = (if s \<in> set (enabled_sources c)
               then set_state SsStopped s
                      (c\<lparr>stopped_enabled_sources := insert s (stopped_enabled_sources c)\<rparr>)
               else c)
      in (c, k, Inr Pending))"
| "handle_header cm (Some (HdrSourceInterrupted i)) c k =
     (if interrupted_recoverable i
      then (if interrupted_source i = SrcMicrophone
            then (let (c, r) = enter_failed StableProtocolViolation c in (c, k, r))
            else (c, k, Inr Pending))
      else (let (c, r) = enter_failed
                  (DeviceInterrupted (interrupted_source i) (interrupted_reason i)) c
            in (c, k, r)))"
| "handle_header cm (Some (HdrSourceRecovering v)) c k =
     (let s = recovering_source v;
          is_running = (source_states c s = Some SsRunning);
          generation_is_new = (case last_recovery_generation c s of
             None \<Rightarrow> True | Some g \<Rightarrow> g < recovering_generation v)
      in if \<not> is_running \<or> \<not> generation_is_new
         then (let (c, r) = enter_failed StableProtocolViolation c in (c, k, r))
         else (set_state SsRecovering s
                 (c\<lparr>last_recovery_generation :=
                      (last_recovery_generation c)(s \<mapsto> recovering_generation v)\<rparr>),
               k, Inr Pending))"
| "handle_header cm (Some (HdrSourceRecovered v)) c k =
     (let s = recovered_source v;
          is_recovering = (source_states c s = Some SsRecovering);
          generation_matches = (last_recovery_generation c s = Some (recovered_generation v));
          identity_matches = (s \<noteq> SrcMicrophone \<or>
             selected_microphone_uid c = Some (recovered_device_id v))
      in if \<not> is_recovering \<or> \<not> generation_matches \<or> \<not> identity_matches
         then (let (c, r) = enter_failed StableProtocolViolation c in (c, k, r))
         else (set_state SsRunning s c, k, Inr Pending))"
| "handle_header cm (Some (HdrFatalError e)) c k =
     (let (c, r) = enter_failed (Fatal (fatal_code e) (fatal_summary e)) c in (c, k, r))"
| "handle_header cm (Some HdrShutdownAck) c k = (let (c, r) = finish_if_stopped c in (c, k, r))"
| "handle_header cm (Some (HdrSourceStarted st)) c k =
     (let s = started_source st in
      if s \<in> request_source ` set (requested_sources c)
      then (set_state SsRunning s (c\<lparr>started_sources := insert s (started_sources c)\<rparr>), k, Inr Pending)
      else (let (c, r) = enter_failed StableProtocolViolation c in (c, k, r)))"
| "handle_header cm (Some (HdrMicrophoneDevices _)) c k =
     (let (c, r) = enter_failed StableProtocolViolation c in (c, k, r))"
| "handle_header cm (Some (HdrMicrophoneProbeResult _)) c k =
     (let (c, r) = enter_failed StableProtocolViolation c in (c, k, r))"
| "handle_header cm (Some (HdrHello _)) c k = (c, k, Inr Pending)"
| "handle_header cm (Some (HdrPermissionState _)) c k = (c, k, Inr Pending)"
| "handle_header cm (Some (HdrAudioFrame _)) c k = (c, k, Inr Pending)"
| "handle_header cm (Some (HdrLevel _)) c k = (c, k, Inr Pending)"

definition draining :: "coordinator \<Rightarrow> bool" where
  "draining c \<longleftrightarrow> phase c = PhRunning \<or> phase c = PhPaused \<or> phase c = PhStopping"

definition handle_event ::
    "'c committer \<Rightarrow> CaptureHeader option \<Rightarrow> coordinator \<Rightarrow> 'c \<Rightarrow>
       coordinator \<times> 'c \<times> NativeCaptureDrainOutcome outcome" where
  "handle_event cm event c k = (case ensure_not_failed c of
      Inl e \<Rightarrow> (c, k, Inl e)
    | Inr _ \<Rightarrow> if \<not> draining c then (c, k, Inl (InvalidState ''drain''))
        else handle_header cm event c k)"

definition drain_once ::
    "'t transport_ops \<Rightarrow> 'c committer \<Rightarrow> coordinator \<Rightarrow> 't \<Rightarrow> 'c \<Rightarrow>
       coordinator \<times> 't \<times> 'c \<times> NativeCaptureDrainOutcome outcome" where
  "drain_once tr cm c t k = (case ensure_not_failed c of
      Inl e \<Rightarrow> (c, t, k, Inl e)
    | Inr _ \<Rightarrow> if \<not> draining c then (c, t, k, Inl (InvalidState ''drain''))
        else (case tr_next_event tr t of
            (Inl (UnsupportedSource s), t) \<Rightarrow> (c, t, k, Inl (PreflightRejected s))
          | (Inl e, t) \<Rightarrow> (let (c, r) = enter_failed (transport_error_to_stable e) c in (c, t, k, r))
          | (Inr event, t) \<Rightarrow> (let (c, k, r) = handle_event cm event c k in (c, t, k, r))))"

subsection \<open>Rules for the operations\<close>

definition requested :: "coordinator \<Rightarrow> Source set" where
  "requested c = request_source ` set (requested_sources c)"

lemma set_enabled_subset: "set (enabled_sources c) \<subseteq> requested c"
  by (auto simp: enabled_sources_def requested_def)

lemma set_states_simps [simp]:
  "requested_sources (set_states st ss c) = requested_sources c"
  "phase (set_states st ss c) = phase c"
  "started_sources (set_states st ss c) = started_sources c"
  "stopped_enabled_sources (set_states st ss c) = stopped_enabled_sources c"
  "committed_chunks (set_states st ss c) = committed_chunks c"
  "selected_microphone_uid (set_states st ss c) = selected_microphone_uid c"
  "last_recovery_generation (set_states st ss c) = last_recovery_generation c"
  unfolding set_states_def
  by (induction ss arbitrary: c) (simp_all add: set_state_def)

lemma source_states_set_states [simp]:
  "source_states (set_states st ss c) s = (if s \<in> set ss then Some st else source_states c s)"
  unfolding set_states_def
  by (induction ss arbitrary: c) (auto simp: set_state_def)

lemma set_state_simps [simp]:
  "requested_sources (set_state st s c) = requested_sources c"
  "phase (set_state st s c) = phase c"
  "started_sources (set_state st s c) = started_sources c"
  "stopped_enabled_sources (set_state st s c) = stopped_enabled_sources c"
  "committed_chunks (set_state st s c) = committed_chunks c"
  "selected_microphone_uid (set_state st s c) = selected_microphone_uid c"
  "last_recovery_generation (set_state st s c) = last_recovery_generation c"
  "source_states (set_state st s c) = (source_states c)(s \<mapsto> st)"
  by (simp_all add: set_state_def)

lemma enabled_sources_cong: "requested_sources c = requested_sources d \<Longrightarrow>
    enabled_sources c = enabled_sources d \<and> requested c = requested d"
  by (simp add: enabled_sources_def requested_def)

lemma enabled_sources_update [simp]:
  "enabled_sources (c\<lparr>phase := p\<rparr>) = enabled_sources c"
  "enabled_sources (c\<lparr>started_sources := ss\<rparr>) = enabled_sources c"
  "enabled_sources (c\<lparr>stopped_enabled_sources := ss\<rparr>) = enabled_sources c"
  "enabled_sources (c\<lparr>committed_chunks := n\<rparr>) = enabled_sources c"
  "enabled_sources (c\<lparr>selected_microphone_uid := u\<rparr>) = enabled_sources c"
  "enabled_sources (c\<lparr>last_recovery_generation := g\<rparr>) = enabled_sources c"
  "enabled_sources (set_state st s c) = enabled_sources c"
  "enabled_sources (set_states st xs c) = enabled_sources c"
  "requested (c\<lparr>phase := p\<rparr>) = requested c"
  "requested (c\<lparr>started_sources := ss\<rparr>) = requested c"
  "requested (c\<lparr>stopped_enabled_sources := ss\<rparr>) = requested c"
  "requested (c\<lparr>committed_chunks := n\<rparr>) = requested c"
  "requested (c\<lparr>selected_microphone_uid := u\<rparr>) = requested c"
  "requested (c\<lparr>last_recovery_generation := g\<rparr>) = requested c"
  "requested (set_state st s c) = requested c"
  "requested (set_states st xs c) = requested c"
  by (simp_all add: enabled_sources_def requested_def)

lemma ensure_not_failed_iff [simp]:
  "ensure_not_failed c = Inl e \<longleftrightarrow> (\<exists>x. phase c = PhFailed x \<and> e = Stable x)"
  "ensure_not_failed c = Inr u \<longleftrightarrow> (\<forall>x. phase c \<noteq> PhFailed x)"
  by (auto simp: ensure_not_failed_def split: NativeCapturePhase.splits)

lemmas coordinator_ops = preflight_def start_def pause_def resume_def stop_def drain_once_def
  handle_event_def enter_failed_def finish_if_stopped_def Let_def

subsection \<open>The runs of a coordinator\<close>

text \<open>
  Whatever the transport and the committer answer, and in whatever order the operations are
  called: one step is one call, on the coordinator and the two outside states together.
\<close>

inductive coordinator_step ::
    "'t transport_ops \<Rightarrow> 'c committer \<Rightarrow> coordinator \<times> 't \<times> 'c \<Rightarrow> coordinator \<times> 't \<times> 'c \<Rightarrow> bool"
  for tr :: "'t transport_ops" and cm :: "'c committer" where
  step_preflight: "preflight tr c t = (c', t', r) \<Longrightarrow> coordinator_step tr cm (c, t, k) (c', t', k)"
| step_start: "start tr uid c t = (c', t', r) \<Longrightarrow> coordinator_step tr cm (c, t, k) (c', t', k)"
| step_pause: "pause tr c t = (c', t', r) \<Longrightarrow> coordinator_step tr cm (c, t, k) (c', t', k)"
| step_resume: "resume tr c t = (c', t', r) \<Longrightarrow> coordinator_step tr cm (c, t, k) (c', t', k)"
| step_stop: "stop tr c t = (c', t', r) \<Longrightarrow> coordinator_step tr cm (c, t, k) (c', t', k)"
| step_drain: "drain_once tr cm c t k = (c', t', k', r) \<Longrightarrow> coordinator_step tr cm (c, t, k) (c', t', k')"
| step_event: "handle_event cm ev c k = (c', k', r) \<Longrightarrow> coordinator_step tr cm (c, t, k) (c', t, k')"

text \<open>The invariant of every run.\<close>

definition coordinator_ok :: "coordinator \<Rightarrow> bool" where
  "coordinator_ok c \<longleftrightarrow>
     distinct (map request_source (requested_sources c)) \<and> enabled_sources c \<noteq> [] \<and>
     (\<forall>s. source_states c s \<noteq> None \<longleftrightarrow> s \<in> requested c) \<and> started_sources c \<subseteq> requested c \<and>
     stopped_enabled_sources c \<subseteq> set (enabled_sources c) \<and>
     (phase c = PhStopped \<longrightarrow> set (enabled_sources c) \<subseteq> stopped_enabled_sources c) \<and>
     (selected_microphone_uid c \<noteq> None \<longrightarrow> SrcMicrophone \<in> set (enabled_sources c)) \<and>
     (\<forall>s. source_states c s = Some SsRecovering \<longrightarrow> last_recovery_generation c s \<noteq> None) \<and>
     (phase c = PhRequested \<or> phase c = PhPreflighted \<longrightarrow>
        started_sources c = {} \<and> stopped_enabled_sources c = {} \<and> committed_chunks c = 0 \<and>
        (\<forall>s. source_states c s \<noteq> Some SsRecovering))"

lemma new_coordinator_loop_Inr:
  "new_coordinator_loop seen en states rs = Inr (en', states') \<Longrightarrow>
     distinct (map request_source rs) \<and> request_source ` set rs \<inter> seen = {} \<and>
     en' = (en \<or> (\<exists>r \<in> set rs. request_enabled r)) \<and>
     states' = (\<lambda>s. if s \<in> request_source ` set rs then Some SsRequested else states s)"
proof (induction rs arbitrary: seen en states)
  case Nil
  then show ?case by simp
next
  case (Cons r rs)
  then have "request_source r \<notin> seen" by (auto split: if_splits)
  moreover from Cons.prems have
    "new_coordinator_loop (insert (request_source r) seen) (en \<or> request_enabled r)
       (states(request_source r \<mapsto> SsRequested)) rs = Inr (en', states')" by (auto split: if_splits)
  note Cons.IH [OF this]
  ultimately show ?case by (auto simp: fun_eq_iff)
qed

lemma new_coordinator_ok:
  assumes "new_coordinator requests = Inr c"
  shows "coordinator_ok c \<and> phase c = PhRequested"
proof -
  from assms obtain states
    where l: "new_coordinator_loop {} False Map.empty requests = Inr (True, states)"
      and c: "c = \<lparr>requested_sources = requests, phase = PhRequested, source_states = states,
               started_sources = {}, stopped_enabled_sources = {}, committed_chunks = 0,
               selected_microphone_uid = None, last_recovery_generation = Map.empty\<rparr>"
    by (auto simp: new_coordinator_def result_simps split: if_splits)
  note facts = new_coordinator_loop_Inr [OF l]
  have "filter request_enabled requests \<noteq> []" using facts by (auto simp: filter_empty_conv)
  then show ?thesis
    using facts by (auto simp: c coordinator_ok_def enabled_sources_def requested_def)
qed

lemma coordinator_ok_failed: "coordinator_ok c \<Longrightarrow> coordinator_ok (c\<lparr>phase := PhFailed e\<rparr>)"
  by (simp add: coordinator_ok_def)

lemma coordinator_ok_finish:
  assumes "coordinator_ok c" "finish_if_stopped c = (c', r)"
  shows "coordinator_ok c'"
  using assms
  by (auto simp: finish_if_stopped_def coordinator_ok_def all_enabled_sources_stopped_def list_all_iff
      split: if_splits)

lemma preflight_loop_ok:
  assumes "coordinator_ok c" "phase c = PhRequested" "set ss \<subseteq> set (enabled_sources c)"
    "preflight_loop tr ss c t = (c', t', r)"
  shows "coordinator_ok c'"
  using assms
proof (induction ss arbitrary: c t)
  case Nil
  then show ?case by (auto simp: coordinator_ok_def)
next
  case (Cons s ss)
  have set: "coordinator_ok (set_state SsPreflighted s c)"
    using Cons.prems(1,2,3) set_enabled_subset [of c]
    by (auto simp: coordinator_ok_def split: if_splits)
  obtain res u where tr: "tr_preflight_source tr s t = (res, u)" by (cases "tr_preflight_source tr s t")
  show ?case
  proof (cases res)
    case (Inr x)
    then show ?thesis using Cons.IH [OF set] Cons.prems tr by simp
  next
    case (Inl e)
    then show ?thesis using Cons.prems tr coordinator_ok_failed [OF Cons.prems(1)]
      by (cases e) (auto simp: enter_failed_def Let_def)
  qed
qed

lemma start_ok:
  assumes "coordinator_ok c" "start tr uid c t = (c', t', r)"
  shows "coordinator_ok c'"
proof (cases "ensure_not_failed c")
  case (Inl e)
  with assms show ?thesis by (simp add: start_def)
next
  case (Inr u)
  show ?thesis
  proof (cases "phase c = PhPreflighted")
    case False
    with assms Inr show ?thesis by (auto simp: start_def)
  next
    case True
    obtain res v where tr: "tr_start_sources tr (enabled_sources c) uid t = (res, v)"
      by (cases "tr_start_sources tr (enabled_sources c) uid t")
    show ?thesis
    proof (cases res)
      case (Inl e)
      with assms(2) Inr True tr have "c' = c\<lparr>phase := PhFailed (transport_error_to_stable e)\<rparr>"
        by (simp add: start_def enter_failed_def Let_def)
      with assms(1) show ?thesis by (simp add: coordinator_ok_failed)
    next
      case (Inr x)
      have "\<forall>s. source_states c s \<noteq> Some SsRecovering"
        using assms(1) True by (simp add: coordinator_ok_def)
      moreover have "c' = (set_states SsRunning (enabled_sources c) (c\<lparr>selected_microphone_uid :=
            (if SrcMicrophone \<in> set (enabled_sources c) then uid else None),
          last_recovery_generation := Map.empty,
          started_sources := started_sources c \<union> set (enabled_sources c)\<rparr>))\<lparr>phase := PhRunning\<rparr>"
        using assms(2) \<open>ensure_not_failed c = Inr u\<close> True tr Inr by (simp add: start_def Let_def)
      ultimately show ?thesis
        using assms(1) set_enabled_subset [of c] by (auto simp: coordinator_ok_def)
    qed
  qed
qed

lemma set_states_ok:
  assumes "coordinator_ok c" "st \<noteq> SsRecovering" "p \<in> {PhRunning, PhPaused, PhStopping}"
  shows "coordinator_ok ((set_states st (enabled_started_sources c) c)\<lparr>phase := p\<rparr>)"
proof -
  have "set (enabled_started_sources c) \<subseteq> requested c"
    using set_enabled_subset [of c] by (auto simp: enabled_started_sources_def)
  with assms show ?thesis by (auto simp: coordinator_ok_def)
qed

lemma pause_ok: "coordinator_ok c \<Longrightarrow> pause tr c t = (c', t', r) \<Longrightarrow> coordinator_ok c'"
  by (auto simp: pause_def enter_failed_def Let_def coordinator_ok_failed set_states_ok
      split: sum.splits if_splits prod.splits)

lemma resume_ok: "coordinator_ok c \<Longrightarrow> resume tr c t = (c', t', r) \<Longrightarrow> coordinator_ok c'"
  by (auto simp: resume_def enter_failed_def Let_def coordinator_ok_failed set_states_ok
      split: sum.splits if_splits prod.splits)

lemma stop_ok: "coordinator_ok c \<Longrightarrow> stop tr c t = (c', t', r) \<Longrightarrow> coordinator_ok c'"
  by (auto simp: stop_def enter_failed_def Let_def coordinator_ok_failed set_states_ok
      split: sum.splits if_splits prod.splits)

lemma preflight_ok: "coordinator_ok c \<Longrightarrow> preflight tr c t = (c', t', r) \<Longrightarrow> coordinator_ok c'"
  by (auto simp: preflight_def intro: preflight_loop_ok split: sum.splits if_splits)

lemma handle_header_ok:
  assumes c: "coordinator_ok c" and d: "draining c" and h: "handle_header cm ev c k = (c', k', r)"
  shows "coordinator_ok c'"
proof -
  have phases: "phase c \<noteq> PhRequested" "phase c \<noteq> PhPreflighted" "phase c \<noteq> PhStopped"
    using d by (auto simp: draining_def)
  have running: "coordinator_ok (set_state st s c)" if "st \<noteq> SsRecovering" "s \<in> requested c" for st s
    using c that phases by (auto simp: coordinator_ok_def)
  have finish: "coordinator_ok d'" if "finish_if_stopped d = (d', r')" "coordinator_ok d" for d d' r'
    using that coordinator_ok_finish by blast
  have count: "coordinator_ok (c\<lparr>committed_chunks := n\<rparr>)" for n
    using c phases by (simp add: coordinator_ok_def)
  show ?thesis
  proof (cases ev)
    case None
    with h c finish show ?thesis by (auto simp: split: prod.splits)
  next
    case (Some hdr)
    show ?thesis
    proof (cases hdr)
      case (HdrChunkSealed x)
      with Some h c finish count show ?thesis by (auto simp: Let_def split: prod.splits sum.splits)
    next
      case (HdrSourceStopped x)
      have "coordinator_ok (set_state SsStopped (stopped_source x)
          (c\<lparr>stopped_enabled_sources := insert (stopped_source x) (stopped_enabled_sources c)\<rparr>))"
        if "stopped_source x \<in> set (enabled_sources c)"
        using that c phases set_enabled_subset [of c] by (auto simp: coordinator_ok_def)
      with HdrSourceStopped Some h c show ?thesis by (auto simp: Let_def split: if_splits)
    next
      case (HdrSourceInterrupted x)
      with Some h c show ?thesis
        by (auto simp: Let_def enter_failed_def coordinator_ok_failed split: if_splits)
    next
      case (HdrSourceRecovering x)
      let ?s = "recovering_source x"
      have "coordinator_ok (set_state SsRecovering ?s (c\<lparr>last_recovery_generation :=
          (last_recovery_generation c)(?s \<mapsto> recovering_generation x)\<rparr>))"
        if "source_states c ?s = Some SsRunning"
        using that c phases by (auto simp: coordinator_ok_def)
      with HdrSourceRecovering Some h c show ?thesis
        by (auto simp: Let_def enter_failed_def coordinator_ok_failed split: if_splits)
    next
      case (HdrSourceRecovered x)
      have "recovered_source x \<in> requested c" if "source_states c (recovered_source x) = Some SsRecovering"
        using that c by (auto simp: coordinator_ok_def)
      with HdrSourceRecovered Some h c running show ?thesis
        by (auto simp: Let_def enter_failed_def coordinator_ok_failed split: if_splits)
    next
      case (HdrSourceStarted x)
      have "coordinator_ok (set_state SsRunning (started_source x)
          (c\<lparr>started_sources := insert (started_source x) (started_sources c)\<rparr>))"
        if "started_source x \<in> request_source ` set (requested_sources c)"
        using that c phases by (auto simp: coordinator_ok_def requested_def [symmetric])
      with HdrSourceStarted Some h c show ?thesis
        by (auto simp: Let_def enter_failed_def coordinator_ok_failed split: if_splits)
    next
      case HdrShutdownAck
      with Some h c finish show ?thesis by (auto split: prod.splits)
    qed (use Some h c in \<open>auto simp: Let_def enter_failed_def coordinator_ok_failed\<close>)
  qed
qed

lemma handle_event_ok: "coordinator_ok c \<Longrightarrow> handle_event cm ev c k = (c', k', r) \<Longrightarrow> coordinator_ok c'"
  by (auto simp: handle_event_def intro: handle_header_ok split: sum.splits if_splits)

lemma drain_once_ok:
  assumes "coordinator_ok c" "drain_once tr cm c t k = (c', t', k', r)"
  shows "coordinator_ok c'"
  using assms
  by (auto simp: drain_once_def enter_failed_def Let_def coordinator_ok_failed
      intro: handle_event_ok
      split: sum.splits if_splits prod.splits NativeCaptureTransportError.splits)

inductive_cases coordinator_stepE: "coordinator_step tr cm (c, t, k) y"

lemma coordinator_step_ok:
  assumes "coordinator_step tr cm x y" "coordinator_ok (fst x)"
  shows "coordinator_ok (fst y)"
  using assms
  by (induction rule: coordinator_step.induct)
    (auto intro: preflight_ok start_ok pause_ok resume_ok stop_ok drain_once_ok handle_event_ok)

interpretation coordinator_runs:
  invariant_relation "coordinator_step tr cm" "\<lambda>x. coordinator_ok (fst x)" for tr cm
  by unfold_locales (rule coordinator_step_ok)

subsection \<open>What the coordinator guarantees\<close>

lemma failed_calls:
  assumes "phase c = PhFailed e"
  shows "preflight tr c t = (c, t, Inl (Stable e))" "start tr uid c t = (c, t, Inl (Stable e))"
    "pause tr c t = (c, t, Inl (Stable e))" "resume tr c t = (c, t, Inl (Stable e))"
    "stop tr c t = (c, t, Inl (Stable e))" "drain_once tr cm c t k = (c, t, k, Inl (Stable e))"
    "handle_event cm ev c k = (c, k, Inl (Stable e))"
  using assms by (simp_all add: preflight_def start_def pause_def resume_def stop_def drain_once_def
      handle_event_def ensure_not_failed_def)

text \<open>
  A failure is final: whatever is called afterwards, in any order, changes neither the
  coordinator nor the transport nor the committer, so no further command reaches the helper and no
  further chunk is committed, and every call reports the failure that was first recorded.
\<close>

theorem failure_is_absorbing:
  assumes "phase c = PhFailed e" "(coordinator_step tr cm)\<^sup>*\<^sup>* (c, t, k) (c', t', k')"
  shows "c' = c \<and> t' = t \<and> k' = k \<and> handle_event cm ev c' k' = (c', k', Inl (Stable e)) \<and>
    start tr uid c' t' = (c', t', Inl (Stable e)) \<and> stop tr c' t' = (c', t', Inl (Stable e))"
proof -
  have stays: "y = (c, t, k)" if "coordinator_step tr cm (c, t, k) y" for y
    using that by (rule coordinator_stepE) (simp_all add: failed_calls [OF assms(1)])
  have "(c', t', k') = (c, t, k)"
    using assms(2) by (induction rule: rtranclp_induct) (auto dest: stays)
  then show ?thesis by (simp add: failed_calls [OF assms(1)])
qed

definition silent_transport :: "nat transport_ops" where
  "silent_transport = \<lparr>tr_preflight_source = (\<lambda>_ n. (Inr (), n + 1)),
     tr_start_sources = (\<lambda>_ _ n. (Inr (), n + 1)), tr_pause = (\<lambda>n. (Inr (), n + 1)),
     tr_resume = (\<lambda>n. (Inr (), n + 1)), tr_stop = (\<lambda>n. (Inl HelperExited, n + 1)),
     tr_shutdown = (\<lambda>n. (Inr (), n + 1)), tr_next_event = (\<lambda>n. (Inr None, n + 1))\<rparr>"

definition mic_coordinator :: "NativeCapturePhase \<Rightarrow> coordinator" where
  "mic_coordinator p = \<lparr>requested_sources = [\<lparr>request_source = SrcMicrophone, request_enabled = True\<rparr>],
     phase = p, source_states = [SrcMicrophone \<mapsto> SsRunning], started_sources = {SrcMicrophone},
     stopped_enabled_sources = {}, committed_chunks = 0, selected_microphone_uid = Some ''mic'',
     last_recovery_generation = Map.empty\<rparr>"

definition ok_committer :: "nat committer" where
  "ok_committer sealed n = (Inr (), n + 1)"

theorem failure_is_absorbing_witness:
  "stop silent_transport (mic_coordinator PhRunning) 0 =
     (mic_coordinator (PhFailed StableHelperExited), 1, Inl (Stable StableHelperExited)) \<and>
   pause silent_transport (mic_coordinator (PhFailed StableHelperExited)) 1 =
     (mic_coordinator (PhFailed StableHelperExited), 1, Inl (Stable StableHelperExited)) \<and>
   handle_event ok_committer None (mic_coordinator (PhFailed StableHelperExited)) 7 =
     (mic_coordinator (PhFailed StableHelperExited), 7, Inl (Stable StableHelperExited))"
proof -
  let ?c = "mic_coordinator (PhFailed StableHelperExited)"
  have p: "pause silent_transport ?c 1 = (?c, 1, Inl (Stable StableHelperExited))"
    by (simp add: mic_coordinator_def pause_def ensure_not_failed_def)
  then have "coordinator_step silent_transport ok_committer (?c, 1, 7) (?c, 1, 7)"
    by (rule step_pause)
  then have "(coordinator_step silent_transport ok_committer)\<^sup>*\<^sup>* (?c, 1, 7) (?c, 1, 7)" by simp
  from failure_is_absorbing [OF _ this, of StableHelperExited None]
  have "handle_event ok_committer None ?c 7 = (?c, 7, Inl (Stable StableHelperExited))"
    by (simp add: mic_coordinator_def)
  with p show ?thesis
    by (simp add: mic_coordinator_def stop_def ensure_not_failed_def silent_transport_def enter_failed_def)
qed

lemma finish_Complete: "finish_if_stopped c = (c', Inr Complete) \<Longrightarrow>
    phase c = PhStopping \<and> set (enabled_sources c) \<subseteq> stopped_enabled_sources c \<and>
    c' = c\<lparr>phase := PhStopped\<rparr>"
  by (auto simp: finish_if_stopped_def all_enabled_sources_stopped_def list_all_iff split: if_splits)

lemma handle_header_Complete:
  assumes "handle_header cm ev c k = (c', k', Inr Complete)"
  shows "phase c = PhStopping \<and> phase c' = PhStopped \<and>
    set (enabled_sources c') \<subseteq> stopped_enabled_sources c'"
proof (cases ev)
  case None
  with assms show ?thesis by (auto simp: Let_def dest!: finish_Complete split: prod.splits)
next
  case (Some hdr)
  with assms show ?thesis
    by (cases hdr) (auto simp: Let_def enter_failed_def dest!: finish_Complete
        split: prod.splits sum.splits if_splits)
qed



subsection \<open>Recovery\<close>

text \<open>A started capture is driven by controls and helper events in any interleaving.\<close>

datatype coordinator_call = CallPause | CallResume | CallStop | CallEvent "CaptureHeader option"

fun perform ::
    "'t transport_ops \<Rightarrow> 'c committer \<Rightarrow> coordinator \<times> 't \<times> 'c \<Rightarrow> coordinator_call \<Rightarrow> coordinator \<times> 't \<times> 'c" where
  "perform tr cm (c, t, k) CallPause = (let (c, t, _) = pause tr c t in (c, t, k))"
| "perform tr cm (c, t, k) CallResume = (let (c, t, _) = resume tr c t in (c, t, k))"
| "perform tr cm (c, t, k) CallStop = (let (c, t, _) = stop tr c t in (c, t, k))"
| "perform tr cm (c, t, k) (CallEvent ev) = (let (c, k, _) = handle_event cm ev c k in (c, t, k))"

fun recovery_generations :: "Source \<Rightarrow> coordinator_call list \<Rightarrow> u64 list" where
  "recovery_generations s [] = []"
| "recovery_generations s (CallEvent (Some (HdrSourceRecovering v)) # calls) =
     (if recovering_source v = s then recovering_generation v # recovery_generations s calls
      else recovery_generations s calls)"
| "recovery_generations s (_ # calls) = recovery_generations s calls"

lemma recovery_generations_append [simp]:
  "recovery_generations s (xs @ ys) = recovery_generations s xs @ recovery_generations s ys"
  by (induction s xs rule: recovery_generations.induct) auto

definition no_recovery :: "coordinator_call \<Rightarrow> bool" where
  "no_recovery call \<longleftrightarrow> (\<forall>v. call \<noteq> CallEvent (Some (HdrSourceRecovering v))) \<and>
     (\<forall>v. call \<noteq> CallEvent (Some (HdrSourceRecovered v)))"

lemma recovery_generations_none: "no_recovery call \<Longrightarrow> recovery_generations s [call] = []"
proof (cases call)
  case (CallEvent ev)
  then show "no_recovery call \<Longrightarrow> recovery_generations s [call] = []"
  proof (cases ev)
    case (Some h)
    with CallEvent show "no_recovery call \<Longrightarrow> recovery_generations s [call] = []"
      by (cases h) (auto simp: no_recovery_def)
  qed (simp add: CallEvent)
qed simp_all

lemma finish_generations:
  "finish_if_stopped c = (c', r) \<Longrightarrow> last_recovery_generation c' = last_recovery_generation c \<and>
     selected_microphone_uid c' = selected_microphone_uid c"
  by (auto simp: finish_if_stopped_def split: if_splits)

lemma handle_header_generations:
  assumes "handle_header cm ev c k = (c', k', r)" "no_recovery (CallEvent ev)"
  shows "last_recovery_generation c' = last_recovery_generation c \<and>
    selected_microphone_uid c' = selected_microphone_uid c"
proof (cases ev)
  case None
  with assms show ?thesis by (auto simp: Let_def dest: finish_generations split: prod.splits)
next
  case (Some hdr)
  with assms show ?thesis
    by (cases hdr) (auto simp: Let_def enter_failed_def no_recovery_def dest!: finish_generations
        split: prod.splits sum.splits if_splits)
qed

text \<open>A call that leaves the coordinator draining found it draining.\<close>

lemma perform_draining:
  assumes "perform tr cm (c, t, k) call = (c', t', k')" "draining c'"
  shows "draining c"
proof (rule ccontr)
  assume n: "\<not> draining c"
  have "c' = c"
  proof (cases call)
    case (CallEvent ev)
    with assms(1) n show ?thesis
      by (auto simp: handle_event_def split: prod.splits sum.splits if_splits)
  qed (use assms(1) n in \<open>auto simp: pause_def resume_def stop_def draining_def
      split: prod.splits sum.splits if_splits\<close>)
  with assms(2) n show False by simp
qed

lemma perform_generations:
  assumes "perform tr cm (c, t, k) call = (c', t', k')" "no_recovery call"
  shows "last_recovery_generation c' = last_recovery_generation c \<and>
    selected_microphone_uid c' = selected_microphone_uid c"
proof (cases call)
  case (CallEvent ev)
  with assms show ?thesis
    by (auto simp: handle_event_def dest: handle_header_generations split: prod.splits sum.splits if_splits)
qed (use assms(1) in \<open>auto simp: pause_def resume_def stop_def enter_failed_def Let_def
    split: prod.splits sum.splits if_splits\<close>)

lemma perform_recovering:
  assumes "perform tr cm (c, t, k) (CallEvent (Some (HdrSourceRecovering v))) = (c', t', k')"
    and "draining c'"
  shows "(\<forall>g. last_recovery_generation c (recovering_source v) = Some g \<longrightarrow> g < recovering_generation v) \<and>
    last_recovery_generation c' =
      (last_recovery_generation c)(recovering_source v \<mapsto> recovering_generation v) \<and>
    selected_microphone_uid c' = selected_microphone_uid c"
  using assms perform_draining [OF assms]
  by (auto simp: handle_event_def Let_def enter_failed_def draining_def
      split: prod.splits sum.splits if_splits option.splits)

lemma perform_recovered:
  assumes "perform tr cm (c, t, k) (CallEvent (Some (HdrSourceRecovered v))) = (c', t', k')"
    and "draining c'"
  shows "last_recovery_generation c (recovered_source v) = Some (recovered_generation v) \<and>
    (recovered_source v = SrcMicrophone \<longrightarrow> selected_microphone_uid c = Some (recovered_device_id v)) \<and>
    last_recovery_generation c' = last_recovery_generation c \<and>
    selected_microphone_uid c' = selected_microphone_uid c"
  using assms perform_draining [OF assms]
  by (auto simp: handle_event_def Let_def enter_failed_def draining_def
      split: prod.splits sum.splits if_splits option.splits)

definition last_opt :: "'a list \<Rightarrow> 'a option" where
  "last_opt xs = (if xs = [] then None else Some (last xs))"

text \<open>What a call list shows of recoveries, for a selected microphone.\<close>

definition recovery_disciplined :: "string option \<Rightarrow> coordinator_call list \<Rightarrow> bool" where
  "recovery_disciplined selected calls \<longleftrightarrow>
     (\<forall>s. sorted_wrt (<) (recovery_generations s calls)) \<and>
     (\<forall>pre v post. calls = pre @ CallEvent (Some (HdrSourceRecovered v)) # post \<longrightarrow>
        last_opt (recovery_generations (recovered_source v) pre) = Some (recovered_generation v) \<and>
        (recovered_source v = SrcMicrophone \<longrightarrow> selected = Some (recovered_device_id v)))"

lemma recovery_disciplined_snoc:
  "recovery_disciplined selected (calls @ [call]) \<longleftrightarrow>
     recovery_disciplined selected calls \<and>
     (\<forall>v. call = CallEvent (Some (HdrSourceRecovering v)) \<longrightarrow>
        (\<forall>g \<in> set (recovery_generations (recovering_source v) calls). g < recovering_generation v)) \<and>
     (\<forall>v. call = CallEvent (Some (HdrSourceRecovered v)) \<longrightarrow>
        last_opt (recovery_generations (recovered_source v) calls) = Some (recovered_generation v) \<and>
        (recovered_source v = SrcMicrophone \<longrightarrow> selected = Some (recovered_device_id v)))"
proof -
  have split: "calls @ [call] = pre @ x # post \<longleftrightarrow>
      (post = [] \<and> pre = calls \<and> x = call) \<or> (\<exists>mid. post = mid @ [call] \<and> calls = pre @ x # mid)"
    for pre x post
    by (cases post rule: rev_cases) auto
  have sorted: "(\<forall>s. sorted_wrt (<) (recovery_generations s (calls @ [call]))) \<longleftrightarrow>
      (\<forall>s. sorted_wrt (<) (recovery_generations s calls)) \<and>
      (\<forall>v. call = CallEvent (Some (HdrSourceRecovering v)) \<longrightarrow>
        (\<forall>g \<in> set (recovery_generations (recovering_source v) calls). g < recovering_generation v))"
  proof (cases "\<exists>v. call = CallEvent (Some (HdrSourceRecovering v))")
    case True
    then show ?thesis by (auto simp: sorted_wrt_append split: if_splits)
  next
    case False
    then have "recovery_generations s [call] = []" for s
    proof (cases call)
      case (CallEvent ev)
      then show ?thesis
      proof (cases ev)
        case (Some h)
        with CallEvent False show ?thesis by (cases h) auto
      qed (simp add: CallEvent)
    qed simp_all
    with False show ?thesis by (simp del: recovery_generations.simps)
  qed
  show ?thesis
    unfolding recovery_disciplined_def sorted split by blast
qed

lemma recovery_run:
  assumes "last_recovery_generation c = Map.empty"
    and "foldl (perform tr cm) (c, t, k) calls = (c', t', k')" "draining c'"
  shows "recovery_disciplined (selected_microphone_uid c) calls \<and>
    (\<forall>s. last_recovery_generation c' s = last_opt (recovery_generations s calls)) \<and>
    selected_microphone_uid c' = selected_microphone_uid c"
  using assms(2,3)
proof (induction calls arbitrary: c' t' k' rule: rev_induct)
  case Nil
  with assms(1) show ?case by (auto simp: recovery_disciplined_def last_opt_def)
next
  case (snoc call calls)
  obtain c1 t1 k1 where before: "foldl (perform tr cm) (c, t, k) calls = (c1, t1, k1)"
    by (cases "foldl (perform tr cm) (c, t, k) calls")
  with snoc.prems(1) have p: "perform tr cm (c1, t1, k1) call = (c', t', k')" by simp
  from perform_draining [OF p snoc.prems(2)] have "draining c1" .
  note IH = snoc.IH [OF before this]
  show ?case
  proof (cases "no_recovery call")
    case True
    with IH perform_generations [OF p True] show ?thesis
      by (auto simp: recovery_disciplined_snoc recovery_generations_none no_recovery_def
          simp del: recovery_generations.simps)
  next
    case False
    then consider v where "call = CallEvent (Some (HdrSourceRecovering v))"
      | v where "call = CallEvent (Some (HdrSourceRecovered v))"
      by (auto simp: no_recovery_def)
    then show ?thesis
    proof cases
      case (1 v)
      note eff = perform_recovering [OF p [unfolded 1] snoc.prems(2)]
      let ?gs = "recovery_generations (recovering_source v) calls"
      have "sorted_wrt (<) ?gs" using IH by (simp add: recovery_disciplined_def)
      moreover have "?gs \<noteq> [] \<Longrightarrow> last ?gs < recovering_generation v"
        using IH eff by (simp add: last_opt_def)
      ultimately have "\<forall>g \<in> set ?gs. g < recovering_generation v"
        by (cases ?gs rule: rev_cases) (auto simp: sorted_wrt_append intro: less_trans)
      with IH eff 1 show ?thesis
        by (auto simp: recovery_disciplined_snoc last_opt_def)
    next
      case (2 v)
      note eff = perform_recovered [OF p [unfolded 2] snoc.prems(2)]
      with IH 2 show ?thesis by (auto simp: recovery_disciplined_snoc)
    qed
  qed
qed

text \<open>
  C15: As long as a started capture has not failed or completed, the recovery generations of each
  source increase strictly, every recovery that was accepted answers the last recovery attempt of
  its source, and a recovered microphone is always the device selected at the start - whatever
  the interleaving of helper events with pause, resume and stop.
\<close>

theorem recovery_is_disciplined:
  assumes "start tr uid c0 t0 = (c, t, Inr ())"
    and "foldl (perform tr cm) (c, t, k) calls = (c', t', k')" "draining c'"
  shows "recovery_disciplined (if SrcMicrophone \<in> set (enabled_sources c0) then uid else None) calls"
proof -
  have "last_recovery_generation c = Map.empty \<and>
      selected_microphone_uid c = (if SrcMicrophone \<in> set (enabled_sources c0) then uid else None)"
    using assms(1) by (auto simp: start_def Let_def enter_failed_def split: sum.splits if_splits prod.splits)
  with recovery_run [OF _ assms(2,3)] show ?thesis by metis
qed

theorem recovery_is_disciplined_witness:
  "start silent_transport (Some ''mic'') (mic_coordinator PhPreflighted) 0 = (mic_coordinator PhRunning, 1, Inr ()) \<and>
   recovery_disciplined (Some ''mic'')
     [CallEvent (Some (HdrSourceRecovering \<lparr>recovering_source = SrcMicrophone,
        recovering_generation = 1, recovering_reason = ''lost''\<rparr>)),
      CallEvent (Some (HdrSourceRecovered \<lparr>recovered_source = SrcMicrophone,
        recovered_generation = 1, recovered_device_id = ''mic'', recovered_first_host_time = 4\<rparr>))]"
proof -
  let ?v = "\<lparr>recovering_source = SrcMicrophone, recovering_generation = 1, recovering_reason = ''lost''\<rparr>"
  let ?w = "\<lparr>recovered_source = SrcMicrophone, recovered_generation = 1,
    recovered_device_id = ''mic'', recovered_first_host_time = 4\<rparr>"
  let ?calls = "[CallEvent (Some (HdrSourceRecovering ?v)), CallEvent (Some (HdrSourceRecovered ?w))]"
  note eval = mic_coordinator_def silent_transport_def ensure_not_failed_def enabled_sources_def
    set_states_def set_state_def draining_def handle_event_def
  have s: "start silent_transport (Some ''mic'') (mic_coordinator PhPreflighted) 0 =
      (mic_coordinator PhRunning, 1, Inr ())"
    by (simp add: start_def eval Let_def)
  have r: "foldl (perform silent_transport ok_committer) (mic_coordinator PhRunning, 1, 0) ?calls =
      ((mic_coordinator PhRunning)\<lparr>last_recovery_generation := [SrcMicrophone \<mapsto> 1]\<rparr>, 1, 0)"
    by (simp add: eval Let_def)
  have "SrcMicrophone \<in> set (enabled_sources (mic_coordinator PhPreflighted))"
    by (simp add: mic_coordinator_def enabled_sources_def)
  with recovery_is_disciplined [OF s r] s show ?thesis
    by (simp add: draining_def mic_coordinator_def)
qed

subsection \<open>What the coordinator needs of a committer\<close>

text \<open>
  The committer as an interface: an accepted chunk is stored under its identity, and no call
  forgets a stored chunk.  Then no chunk the coordinator counted is ever lost.
\<close>

locale chunk_committer =
  fixes commit :: "'c committer"
    and ident :: "ChunkSealed \<Rightarrow> 'i"
    and stored :: "'c \<Rightarrow> 'i set"
    and usable :: "'c \<Rightarrow> bool"
  assumes commit_stores: "usable k \<Longrightarrow> commit s k = (Inr (), k') \<Longrightarrow> ident s \<in> stored k'"
    and commit_keeps: "usable k \<Longrightarrow> commit s k = (r, k') \<Longrightarrow> stored k \<subseteq> stored k'"
    and commit_usable: "usable k \<Longrightarrow> commit s k = (r, k') \<Longrightarrow> usable k'"
begin

lemma handle_event_stored:
  assumes "usable k" "handle_event commit ev c k = (c', k', r)"
  shows "usable k' \<and> stored k \<subseteq> stored k' \<and> committed_chunks c \<le> committed_chunks c' \<and>
    (committed_chunks c < committed_chunks c' \<longrightarrow>
       (\<exists>s. ev = Some (HdrChunkSealed s) \<and> ident s \<in> stored k' \<and>
          committed_chunks c' = committed_chunks c + 1))"
proof -
  have fin: "committed_chunks d' = committed_chunks d" if "finish_if_stopped d = (d', q)" for d d' q
    using that by (auto simp: finish_if_stopped_def split: if_splits)
  show ?thesis
  proof (cases "ensure_not_failed c = Inr () \<and> draining c")
    case False
    with assms have "c' = c \<and> k' = k" by (auto simp: handle_event_def split: sum.splits if_splits)
    with assms(1) show ?thesis by simp
  next
    case True
    with assms(2) have h: "handle_header commit ev c k = (c', k', r)"
      by (simp add: handle_event_def)
    show ?thesis
    proof (cases ev)
      case None
      with h assms(1) show ?thesis by (auto simp: Let_def dest: fin split: prod.splits)
    next
      case (Some hdr)
      show ?thesis
      proof (cases hdr)
        case (HdrChunkSealed s)
        obtain res q where cm: "commit s k = (res, q)" by (cases "commit s k")
        note facts = commit_keeps [OF assms(1) cm] commit_usable [OF assms(1) cm]
        show ?thesis
        proof (cases res)
          case (Inl e)
          with Some HdrChunkSealed h cm facts show ?thesis by auto
        next
          case (Inr u)
          with cm have "ident s \<in> stored q" using commit_stores [OF assms(1)] by simp
          with Inr Some HdrChunkSealed h cm facts show ?thesis
            by (auto simp: Let_def dest: fin split: prod.splits)
        qed
      qed (use Some h assms(1) in \<open>auto simp: Let_def enter_failed_def dest: fin
          split: prod.splits if_splits\<close>)
    qed
  qed
qed

lemma run_stored:
  assumes "usable k" "foldl (\<lambda>(c, k) ev. let (c, k, _) = handle_event commit ev c k in (c, k)) (c, k) evs = (c', k')"
  shows "usable k' \<and> stored k \<subseteq> stored k' \<and> committed_chunks c \<le> committed_chunks c' \<and>
    committed_chunks c' - committed_chunks c \<le>
      length (filter (\<lambda>ev. \<exists>s. ev = Some (HdrChunkSealed s) \<and> ident s \<in> stored k') evs)"
  using assms(2)
proof (induction evs arbitrary: c' k' rule: rev_induct)
  case Nil
  with assms(1) show ?case by simp
next
  case (snoc ev evs)
  let ?run = "foldl (\<lambda>(c, k) ev. let (c, k, _) = handle_event commit ev c k in (c, k)) (c, k)"
  obtain c1 k1 where b: "?run evs = (c1, k1)" by (cases "?run evs")
  note IH = snoc.IH [OF b]
  obtain r where e: "handle_event commit ev c1 k1 = (c', k', r)"
    using snoc.prems b by (auto split: prod.splits)
  note one = handle_event_stored [OF conjunct1 [OF IH] e]
  let ?P = "\<lambda>K ev. \<exists>s. ev = Some (HdrChunkSealed s) \<and> ident s \<in> stored K"
  have "length (filter (?P k1) evs) \<le> length (filter (?P k') evs)"
    using one by (induction evs) auto
  with IH one show ?case by auto
qed

end

end
