(* ===== verification/Tables.thy ===== *)
theory Tables
  imports Domain
begin

section \<open>The catalog's tables\<close>

text \<open>
  The rows of the SQLite catalog that the transcription pipeline reads and writes, with the columns
  of \<open>catalog/migrations/ddl.rs\<close>.  A column with a CHECK list is a datatype; a time column is the
  number of milliseconds that \<open>canonical_time\<close> prints, whose fixed-width text sorts like the number
  for the years 0 to 9999; the columns written with \<open>to_rfc3339\<close> keep the whole time, whose texts sort
  like it for the same years.  Constraint failures are errors of the operations; other database errors
  roll the transaction back and are not modelled.
\<close>

type_synonym millis = int

datatype db_error = ConstraintViolation | QueryReturnedNoRows

definition canonical_time :: "time \<Rightarrow> millis" where
  "canonical_time t = t div 1000000"

lemma canonical_time_mono: "t \<le> u \<Longrightarrow> canonical_time t \<le> canonical_time u"
  unfolding canonical_time_def by (rule zdiv_mono1) simp_all

record chunk_row = AudioChunk +
  chunk_session_offset_ms :: i64
  chunk_duration_ms :: "i64 option"
  chunk_integrity :: ChunkIntegrityState
  chunk_last_error_code :: "string option"
  chunk_last_error_at :: "time option"

record job_row =
  job_id :: string
  job_session_id :: string
  job_chunk_id :: string
  job_provider :: string
  job_model_id :: string
  job_manifest_version :: string
  job_archive_sha256 :: string
  job_required_file_hashes_json :: string
  job_model_source_json :: string
  job_vad_model_id :: "string option"
  job_vad_manifest_version :: "string option"
  job_vad_archive_sha256 :: "string option"
  job_vad_required_file_hashes_json :: "string option"
  job_parameters_json :: string
  job_input_sha256 :: string
  job_fingerprint :: string
  job_state :: AsrJobState
  job_attempt_count :: int
  job_claim_generation :: int
  job_max_attempts :: int
  job_available_at :: millis
  job_claimed_by :: "string option"
  job_lease_expires_at :: "millis option"
  job_cancel_requested_at :: "millis option"
  job_error_code :: "string option"
  job_error_summary :: "string option"
  job_created_at :: millis
  job_updated_at :: millis

datatype install_state = InstalledUnqualified | RuntimeQualified | Deleting

record installation_row =
  inst_model_id :: string
  inst_provider :: string
  inst_manifest_version :: string
  inst_archive_sha256 :: string
  inst_install_dir :: string
  inst_state :: install_state
  inst_installed_at :: time
  inst_runtime_identity_json :: "string option"
  inst_qualified_at :: "time option"
  inst_last_error_code :: "string option"

record receipt_row =
  rcpt_id :: string
  rcpt_job_id :: string
  rcpt_chunk_id :: string
  rcpt_provider :: string
  rcpt_model_id :: string
  rcpt_manifest_version :: string
  rcpt_archive_sha256 :: string
  rcpt_required_file_hashes_json :: string
  rcpt_model_source_json :: string
  rcpt_vad_model_id :: "string option"
  rcpt_vad_manifest_version :: "string option"
  rcpt_vad_archive_sha256 :: "string option"
  rcpt_vad_required_file_hashes_json :: "string option"
  rcpt_runtime_version :: string
  rcpt_runtime_build_id :: string
  rcpt_parameters_json :: string
  rcpt_input_sha256 :: string
  rcpt_started_at :: millis
  rcpt_finished_at :: millis

datatype provenance = LegacyUnverified | VerifiedLocalAsr | Manual

record revision_row =
  rev_id :: string
  rev_session_id :: string
  rev_number :: int
  rev_provider :: string
  rev_created_at :: time
  rev_provenance :: provenance

record segment_row =
  seg_id :: string
  seg_revision_id :: string
  seg_start_ms :: i64
  seg_end_ms :: i64
  seg_source :: AudioSource
  seg_text :: string
  seg_chunk_id :: "string option"
  seg_chunk_start_ms :: "i64 option"
  seg_chunk_end_ms :: "i64 option"
  seg_session_start_ms :: "i64 option"
  seg_session_end_ms :: "i64 option"

record catalog =
  sessions :: "CaptureSession list"
  chunks :: "chunk_row list"
  capture_sources :: "CaptureSourceRecord list"
  capture_timings :: "CaptureChunkTiming list"
  jobs :: "job_row list"
  installations :: "installation_row list"
  receipts :: "receipt_row list"
  revisions :: "revision_row list"
  revision_receipts :: "(string \<times> string) list"
  segments :: "segment_row list"
  segment_search :: "(string \<times> string \<times> string) list"

definition empty_catalog :: catalog where
  "empty_catalog = \<lparr>sessions = [], chunks = [], capture_sources = [], capture_timings = [], jobs = [],
     installations = [], receipts = [], revisions = [], revision_receipts = [], segments = [],
     segment_search = []\<rparr>"

text \<open>\<open>WHERE id = ?\<close> on a table with that primary key.\<close>

definition find_chunk :: "string \<Rightarrow> catalog \<Rightarrow> chunk_row option" where
  "find_chunk i cat = find (\<lambda>c. chunk_id c = i) (chunks cat)"

definition find_job :: "string \<Rightarrow> catalog \<Rightarrow> job_row option" where
  "find_job i cat = find (\<lambda>j. job_id j = i) (jobs cat)"

lemma find_unique:
  assumes "distinct (map k rows)" "r \<in> set rows"
  shows "find (\<lambda>x. k x = k r) rows = Some r"
  using assms by (induction rows) auto

lemma find_key_Some: "find (\<lambda>x. k x = i) rows = Some r \<Longrightarrow> r \<in> set rows \<and> k r = i"
  by (auto simp: find_Some_iff)

lemma find_job_Some: "find_job i cat = Some r \<Longrightarrow> r \<in> set (jobs cat) \<and> job_id r = i"
  by (auto simp: find_job_def find_Some_iff)

lemma find_chunk_Some: "find_chunk i cat = Some c \<Longrightarrow> c \<in> set (chunks cat) \<and> chunk_id c = i"
  by (auto simp: find_chunk_def find_Some_iff)

subsection \<open>Names stored as text\<close>

fun provider_name :: "AsrProviderKind \<Rightarrow> string" where
  "provider_name SenseVoice = ''sense_voice''"
| "provider_name Whisper = ''whisper''"
| "provider_name Qwen3Asr = ''qwen3_asr''"

definition provider_names :: "string list" where
  "provider_names = map provider_name [SenseVoice, Whisper, Qwen3Asr]"

end
