(* ===== verification/Job_Store.thy ===== *)
theory Job_Store
  imports Tables
begin

section \<open>The transcription job queue: \<open>catalog/jobs.rs\<close>\<close>

text \<open>
  Every statement of the queue as a function on the catalog: enqueueing, claiming with a lease,
  the mutations a claim owner may perform, cancellation, recovery and retry.  Each of them is one
  immediate transaction, so it is one step; an error leaves the catalog as it was.  The owner's
  JSON text is opaque; \<open>boot_of\<close> is the parser that reads the boot identity back out of it.
\<close>

subsection \<open>Data\<close>

record EnqueueJob =
  enq_id :: string
  enq_session_id :: string
  enq_chunk_id :: string
  enq_provider :: string
  enq_model_id :: string
  enq_manifest_version :: string
  enq_archive_sha256 :: string
  enq_required_file_hashes_json :: string
  enq_model_source_json :: string
  enq_vad_model_id :: "string option"
  enq_vad_manifest_version :: "string option"
  enq_vad_archive_sha256 :: "string option"
  enq_vad_required_file_hashes_json :: "string option"
  enq_parameters_json :: string
  enq_input_sha256 :: string
  enq_fingerprint :: string
  enq_available_at :: millis
  enq_created_at :: millis

record EnqueueOutcome =
  outcome_job_id :: string
  outcome_inserted :: bool

datatype InputValidation = InputAvailable | InputMissing | InputUnavailable | IdentityMismatch

datatype EnqueueCommitError = EnqueueCatalog db_error | EnqueueInput InputValidation

record ClaimedJobRow =
  claimed_id :: string
  claimed_attempt_count :: int
  claimed_generation :: int

record RecoveryCounts =
  requeued :: nat
  cancelled :: nat
  exhausted :: nat

datatype CancelResult = CancelledNow | CancelRequestedNow | CancelUnchanged

datatype RetryResult = Retried int | RetryInvalidTransition | RetryModelNotReady

datatype OwnedMutationResult = Updated | CancelRequested | OwnershipLost

record ReadyModel =
  ready_provider :: string
  ready_model_id :: string
  ready_manifest_version :: string
  ready_bundle_identity :: string
  ready_runtime_identity_json :: string

subsection \<open>Predicates of the queries\<close>

fun active_state :: "AsrJobState \<Rightarrow> bool" where
  "active_state Queued = True"
| "active_state BlockedModel = True"
| "active_state Preparing = True"
| "active_state Transcribing = True"
| "active_state _ = False"

fun running_state :: "AsrJobState \<Rightarrow> bool" where
  "running_state Preparing = True"
| "running_state Transcribing = True"
| "running_state _ = False"

definition chunk_available :: "catalog \<Rightarrow> string \<Rightarrow> bool" where
  "chunk_available cat i \<longleftrightarrow> list_ex (\<lambda>c. chunk_id c = i \<and> chunk_integrity c = Available) (chunks cat)"

definition claim_running :: "catalog \<Rightarrow> bool" where
  "claim_running cat \<longleftrightarrow>
     list_ex (\<lambda>a. running_state (job_state a) \<and> job_claimed_by a \<noteq> None) (jobs cat)"

text \<open>SQL comparisons with NULL are not true.\<close>

definition lease_after :: "millis option \<Rightarrow> millis \<Rightarrow> bool" where
  "lease_after lease now = (case lease of Some l \<Rightarrow> now < l | None \<Rightarrow> False)"

definition claimable :: "catalog \<Rightarrow> millis \<Rightarrow> job_row \<Rightarrow> bool" where
  "claimable cat now j \<longleftrightarrow> job_state j = Queued \<and> job_cancel_requested_at j = None \<and>
     job_available_at j \<le> now \<and> (case job_lease_expires_at j of None \<Rightarrow> True | Some l \<Rightarrow> l \<le> now) \<and>
     chunk_available cat (job_chunk_id j) \<and> \<not> claim_running cat"

definition claimed_as :: "string \<Rightarrow> string \<Rightarrow> int \<Rightarrow> job_row \<Rightarrow> bool" where
  "claimed_as i owner g j \<longleftrightarrow> job_id j = i \<and> job_claimed_by j = Some owner \<and> job_claim_generation j = g"

subsection \<open>Queries\<close>

definition validate_row :: "string \<Rightarrow> string \<Rightarrow> chunk_row option \<Rightarrow> InputValidation" where
  "validate_row session sha row = (case row of
      None \<Rightarrow> InputMissing
    | Some c \<Rightarrow> if chunk_session_id c \<noteq> session \<or> chunk_sha256 c \<noteq> sha then IdentityMismatch
        else if chunk_integrity c \<noteq> Available then InputUnavailable else InputAvailable)"

definition validate_asr_input :: "string \<Rightarrow> string \<Rightarrow> string \<Rightarrow> catalog \<Rightarrow> InputValidation" where
  "validate_asr_input session chunk sha cat = validate_row session sha (find_chunk chunk cat)"

definition asr_job_identity :: "string \<Rightarrow> catalog \<Rightarrow> db_error + string \<times> string \<times> string" where
  "asr_job_identity i cat = (case find_job i cat of
      None \<Rightarrow> Inl QueryReturnedNoRows
    | Some j \<Rightarrow> Inr (job_id j, job_session_id j, job_chunk_id j))"

definition active_asr_job_for_fingerprint :: "string \<Rightarrow> catalog \<Rightarrow> string option" where
  "active_asr_job_for_fingerprint f cat =
     map_option job_id (find (\<lambda>j. job_fingerprint j = f \<and> active_state (job_state j)) (jobs cat))"

definition owns_running_asr_job :: "string \<Rightarrow> string \<Rightarrow> int \<Rightarrow> catalog \<Rightarrow> bool" where
  "owns_running_asr_job i owner g cat \<longleftrightarrow>
     list_ex (\<lambda>j. claimed_as i owner g j \<and> running_state (job_state j)) (jobs cat)"

definition installation_ready :: "ReadyModel \<Rightarrow> installation_row \<Rightarrow> bool" where
  "installation_ready m r \<longleftrightarrow> inst_provider r = ready_provider m \<and>
     inst_model_id r = ready_model_id m \<and> inst_manifest_version r = ready_manifest_version m \<and>
     inst_archive_sha256 r = ready_bundle_identity m \<and> inst_state r = RuntimeQualified \<and>
     inst_runtime_identity_json r = Some (ready_runtime_identity_json m)"

definition job_model_matches :: "ReadyModel \<Rightarrow> job_row \<Rightarrow> bool" where
  "job_model_matches m j \<longleftrightarrow> job_provider j = ready_provider m \<and> job_model_id j = ready_model_id m \<and>
     job_manifest_version j = ready_manifest_version m \<and> job_archive_sha256 j = ready_bundle_identity m"

definition asr_job_model_ready :: "string \<Rightarrow> ReadyModel \<Rightarrow> catalog \<Rightarrow> bool" where
  "asr_job_model_ready i m cat \<longleftrightarrow>
     list_ex (\<lambda>j. job_id j = i \<and> job_model_matches m j \<and> chunk_available cat (job_chunk_id j) \<and>
        list_ex (\<lambda>r. inst_model_id r = job_model_id j \<and> installation_ready m r) (installations cat))
       (jobs cat)"

subsection \<open>Enqueueing\<close>

definition job_of_enqueue :: "EnqueueJob \<Rightarrow> AsrJobState \<Rightarrow> string option \<Rightarrow> string option \<Rightarrow> job_row" where
  "job_of_enqueue e st code summary = \<lparr>job_id = enq_id e, job_session_id = enq_session_id e,
     job_chunk_id = enq_chunk_id e, job_provider = enq_provider e, job_model_id = enq_model_id e,
     job_manifest_version = enq_manifest_version e, job_archive_sha256 = enq_archive_sha256 e,
     job_required_file_hashes_json = enq_required_file_hashes_json e,
     job_model_source_json = enq_model_source_json e, job_vad_model_id = enq_vad_model_id e,
     job_vad_manifest_version = enq_vad_manifest_version e,
     job_vad_archive_sha256 = enq_vad_archive_sha256 e,
     job_vad_required_file_hashes_json = enq_vad_required_file_hashes_json e,
     job_parameters_json = enq_parameters_json e, job_input_sha256 = enq_input_sha256 e,
     job_fingerprint = enq_fingerprint e, job_state = st, job_attempt_count = 0,
     job_claim_generation = 0, job_max_attempts = 3, job_available_at = enq_available_at e,
     job_claimed_by = None, job_lease_expires_at = None, job_cancel_requested_at = None,
     job_error_code = code, job_error_summary = summary, job_created_at = enq_created_at e,
     job_updated_at = enq_created_at e\<rparr>"

text \<open>The INSERT fails on a second row with the same primary key and on a provider outside the CHECK
  list; the unique index on active fingerprints cannot fire after the query before it.\<close>

definition insert_asr_job ::
    "EnqueueJob \<Rightarrow> AsrJobState \<Rightarrow> string option \<Rightarrow> string option \<Rightarrow> catalog \<Rightarrow>
       EnqueueCommitError + EnqueueOutcome \<times> catalog" where
  "insert_asr_job e st code summary cat =
     (let input = validate_row (enq_session_id e) (enq_input_sha256 e) (find_chunk (enq_chunk_id e) cat) in
      if input \<noteq> InputAvailable then Inl (EnqueueInput input)
      else case active_asr_job_for_fingerprint (enq_fingerprint e) cat of
          Some i \<Rightarrow> Inr (\<lparr>outcome_job_id = i, outcome_inserted = False\<rparr>, cat)
        | None \<Rightarrow>
            if enq_id e \<in> job_id ` set (jobs cat) \<or> enq_provider e \<notin> set provider_names
            then Inl (EnqueueCatalog ConstraintViolation)
            else Inr (\<lparr>outcome_job_id = enq_id e, outcome_inserted = True\<rparr>,
                      cat\<lparr>jobs := jobs cat @ [job_of_enqueue e st code summary]\<rparr>))"

definition enqueue_asr_job :: "EnqueueJob \<Rightarrow> catalog \<Rightarrow> EnqueueCommitError + EnqueueOutcome \<times> catalog" where
  "enqueue_asr_job e cat = insert_asr_job e Queued None None cat"

definition insert_blocked_asr_job ::
    "EnqueueJob \<Rightarrow> string \<Rightarrow> string \<Rightarrow> catalog \<Rightarrow> EnqueueCommitError + EnqueueOutcome \<times> catalog" where
  "insert_blocked_asr_job e code summary cat = insert_asr_job e BlockedModel (Some code) (Some summary) cat"

definition insert_failed_asr_job ::
    "EnqueueJob \<Rightarrow> string \<Rightarrow> string \<Rightarrow> catalog \<Rightarrow> EnqueueCommitError + EnqueueOutcome \<times> catalog" where
  "insert_failed_asr_job e code summary cat = insert_asr_job e Failed (Some code) (Some summary) cat"

subsection \<open>Claiming and the owner's mutations\<close>

definition claim_candidates :: "millis \<Rightarrow> catalog \<Rightarrow> job_row list" where
  "claim_candidates now cat =
     sort_key (\<lambda>j. (job_available_at j, job_created_at j, job_id j)) (filter (claimable cat now) (jobs cat))"

definition claim_asr_job ::
    "string \<Rightarrow> millis \<Rightarrow> millis \<Rightarrow> catalog \<Rightarrow> (db_error + ClaimedJobRow option) \<times> catalog" where
  "claim_asr_job owner now lease cat = (case claim_candidates now cat of
      [] \<Rightarrow> (Inr None, cat)
    | c # _ \<Rightarrow>
        let selected = (\<lambda>j. job_id j = job_id c \<and> claimable cat now j);
            cat' = cat\<lparr>jobs := update_where selected (\<lambda>j. j\<lparr>job_state := Preparing,
                job_claimed_by := Some owner, job_lease_expires_at := Some lease,
                job_attempt_count := job_attempt_count j + 1,
                job_claim_generation := job_claim_generation j + 1, job_updated_at := now\<rparr>) (jobs cat)\<rparr>
        in if count_where selected (jobs cat) \<noteq> 1 then (Inr None, cat')
           else case find_job (job_id c) cat' of
               None \<Rightarrow> (Inl QueryReturnedNoRows, cat)
             | Some j \<Rightarrow> (Inr (Some \<lparr>claimed_id = job_id j, claimed_attempt_count = job_attempt_count j,
                               claimed_generation = job_claim_generation j\<rparr>), cat'))"

definition owned_mutation_result ::
    "string \<Rightarrow> string \<Rightarrow> int \<Rightarrow> millis \<Rightarrow> nat \<Rightarrow> catalog \<Rightarrow> OwnedMutationResult" where
  "owned_mutation_result i owner g now changed cat =
     (if changed = 1 then Updated
      else if list_ex (\<lambda>j. claimed_as i owner g j \<and> running_state (job_state j) \<and>
             job_cancel_requested_at j \<noteq> None \<and> lease_after (job_lease_expires_at j) now) (jobs cat)
      then CancelRequested else OwnershipLost)"

text \<open>An UPDATE of the jobs a claim owner may still change, and its result.\<close>

definition owned_update ::
    "(AsrJobState \<Rightarrow> bool) \<Rightarrow> (job_row \<Rightarrow> job_row) \<Rightarrow> string \<Rightarrow> string \<Rightarrow> int \<Rightarrow> millis \<Rightarrow> catalog \<Rightarrow>
       OwnedMutationResult \<times> catalog" where
  "owned_update states f i owner g now cat =
     (let selected = (\<lambda>j. claimed_as i owner g j \<and> states (job_state j) \<and>
            job_cancel_requested_at j = None \<and> lease_after (job_lease_expires_at j) now);
          changed = count_where selected (jobs cat);
          cat' = cat\<lparr>jobs := update_where selected f (jobs cat)\<rparr>
      in (owned_mutation_result i owner g now changed cat', cat'))"

definition renew_asr_job ::
    "string \<Rightarrow> string \<Rightarrow> int \<Rightarrow> millis \<Rightarrow> millis \<Rightarrow> catalog \<Rightarrow> OwnedMutationResult \<times> catalog" where
  "renew_asr_job i owner g now lease cat = owned_update running_state
     (\<lambda>j. j\<lparr>job_lease_expires_at := Some lease, job_updated_at := now\<rparr>) i owner g now cat"

definition mark_asr_job_transcribing ::
    "string \<Rightarrow> string \<Rightarrow> int \<Rightarrow> millis \<Rightarrow> catalog \<Rightarrow> OwnedMutationResult \<times> catalog" where
  "mark_asr_job_transcribing i owner g now cat = owned_update (\<lambda>s. s = Preparing)
     (\<lambda>j. j\<lparr>job_state := Transcribing, job_updated_at := now\<rparr>) i owner g now cat"

definition fail_asr_job ::
    "string \<Rightarrow> string \<Rightarrow> int \<Rightarrow> millis \<Rightarrow> string \<Rightarrow> string \<Rightarrow> catalog \<Rightarrow> OwnedMutationResult \<times> catalog" where
  "fail_asr_job i owner g now code summary cat = owned_update running_state
     (\<lambda>j. j\<lparr>job_state := Failed, job_claimed_by := None, job_lease_expires_at := None,
        job_error_code := Some code, job_error_summary := Some summary, job_updated_at := now\<rparr>)
     i owner g now cat"

subsection \<open>Cancellation\<close>

definition request_asr_job_cancel :: "string \<Rightarrow> millis \<Rightarrow> catalog \<Rightarrow> CancelResult \<times> catalog" where
  "request_asr_job_cancel i now cat =
     (let waiting = (\<lambda>j. job_id j = i \<and> (job_state j = Queued \<or> job_state j = BlockedModel));
          cat1 = cat\<lparr>jobs := update_where waiting (\<lambda>j. j\<lparr>job_state := Cancelled,
             job_cancel_requested_at := Some now, job_error_code := Some ''cancelled'',
             job_error_summary := None, job_claimed_by := None, job_lease_expires_at := None,
             job_updated_at := now\<rparr>) (jobs cat)\<rparr>
      in if count_where waiting (jobs cat) = 1 then (CancelledNow, cat1)
         else let running = (\<lambda>j. job_id j = i \<and> running_state (job_state j) \<and>
                    job_cancel_requested_at j = None);
                  cat2 = cat1\<lparr>jobs := update_where running (\<lambda>j. j\<lparr>job_cancel_requested_at := Some now,
                     job_updated_at := now\<rparr>) (jobs cat1)\<rparr>
              in ((if count_where running (jobs cat1) = 1 then CancelRequestedNow else CancelUnchanged),
                  cat2))"

definition acknowledge_asr_job_cancel ::
    "string \<Rightarrow> string \<Rightarrow> int \<Rightarrow> millis \<Rightarrow> catalog \<Rightarrow> nat \<times> catalog" where
  "acknowledge_asr_job_cancel i owner g now cat =
     (let selected = (\<lambda>j. claimed_as i owner g j \<and> running_state (job_state j) \<and>
            job_cancel_requested_at j \<noteq> None \<and> lease_after (job_lease_expires_at j) now)
      in (count_where selected (jobs cat),
          cat\<lparr>jobs := update_where selected (\<lambda>j. j\<lparr>job_state := Cancelled, job_claimed_by := None,
             job_lease_expires_at := None, job_error_code := Some ''cancelled'',
             job_error_summary := None, job_updated_at := now\<rparr>) (jobs cat)\<rparr>))"

subsection \<open>Recovery and retry\<close>

record RecoveryCandidate =
  cand_id :: string
  cand_claimed_by :: string
  cand_generation :: int
  cand_attempt_count :: int
  cand_max_attempts :: int
  cand_cancel_requested :: bool
  cand_lease_expires_at :: "millis option"

definition candidate_of :: "job_row \<Rightarrow> RecoveryCandidate" where
  "candidate_of j = \<lparr>cand_id = job_id j, cand_claimed_by = the (job_claimed_by j),
     cand_generation = job_claim_generation j, cand_attempt_count = job_attempt_count j,
     cand_max_attempts = job_max_attempts j,
     cand_cancel_requested = (job_cancel_requested_at j \<noteq> None),
     cand_lease_expires_at = job_lease_expires_at j\<rparr>"

definition recovery_candidates :: "catalog \<Rightarrow> RecoveryCandidate list" where
  "recovery_candidates cat =
     map candidate_of
       (sort_key (\<lambda>j. (job_created_at j, job_id j))
         (filter (\<lambda>j. running_state (job_state j) \<and> job_claimed_by j \<noteq> None) (jobs cat)))"

definition still_owned :: "(string \<Rightarrow> string option) \<Rightarrow> string \<Rightarrow> millis \<Rightarrow> RecoveryCandidate \<Rightarrow> bool" where
  "still_owned boot_of boot now c \<longleftrightarrow> boot_of (cand_claimed_by c) = Some boot \<and>
     \<not> (case cand_lease_expires_at c of Some l \<Rightarrow> l \<le> now | None \<Rightarrow> True)"

definition recovery_row :: "(int \<Rightarrow> millis) \<Rightarrow> millis \<Rightarrow> RecoveryCandidate \<Rightarrow>
    RecoveryCounts \<Rightarrow> (AsrJobState \<times> millis \<times> string option \<times> string option) \<times> RecoveryCounts" where
  "recovery_row retry_at now c counts =
     (if cand_cancel_requested c
      then ((Cancelled, now, Some ''cancelled'', None), counts\<lparr>cancelled := cancelled counts + 1\<rparr>)
      else if cand_max_attempts c \<le> cand_attempt_count c
      then ((Failed, now, Some ''recovery_retry_exhausted'', Some ''ASR recovery claim limit exhausted''),
            counts\<lparr>exhausted := exhausted counts + 1\<rparr>)
      else ((Queued, retry_at (cand_attempt_count c), None, None),
            counts\<lparr>requeued := requeued counts + 1\<rparr>))"

fun recover_loop ::
    "(string \<Rightarrow> string option) \<Rightarrow> string \<Rightarrow> (int \<Rightarrow> millis) \<Rightarrow> millis \<Rightarrow> RecoveryCandidate list \<Rightarrow>
       RecoveryCounts \<Rightarrow> catalog \<Rightarrow> db_error + RecoveryCounts \<times> catalog" where
  "recover_loop boot_of boot retry_at now [] counts cat = Inr (counts, cat)"
| "recover_loop boot_of boot retry_at now (c # cs) counts cat =
     (if still_owned boot_of boot now c then recover_loop boot_of boot retry_at now cs counts cat
      else let ((st, available, code, summary), counts) = recovery_row retry_at now c counts;
               selected = (\<lambda>j. claimed_as (cand_id c) (cand_claimed_by c) (cand_generation c) j \<and>
                  running_state (job_state j));
               cat' = cat\<lparr>jobs := update_where selected (\<lambda>j. j\<lparr>job_state := st,
                  job_available_at := available, job_claimed_by := None, job_lease_expires_at := None,
                  job_error_code := code, job_error_summary := summary, job_updated_at := now\<rparr>)
                  (jobs cat)\<rparr>
           in if count_where selected (jobs cat) \<noteq> 1 then Inl QueryReturnedNoRows
              else recover_loop boot_of boot retry_at now cs counts cat')"

definition recover_asr_jobs ::
    "(string \<Rightarrow> string option) \<Rightarrow> string \<Rightarrow> (int \<Rightarrow> millis) \<Rightarrow> millis \<Rightarrow> catalog \<Rightarrow>
       db_error + RecoveryCounts \<times> catalog" where
  "recover_asr_jobs boot_of boot retry_at now cat =
     recover_loop boot_of boot retry_at now (recovery_candidates cat)
       \<lparr>requeued = 0, cancelled = 0, exhausted = 0\<rparr> cat"

text \<open>An UPDATE fails on the unique index when two active rows would share a fingerprint.\<close>

definition active_fingerprints_unique :: "job_row list \<Rightarrow> bool" where
  "active_fingerprints_unique rows \<longleftrightarrow>
     distinct (map job_fingerprint (filter (\<lambda>j. active_state (job_state j)) rows))"

definition retry_asr_job :: "string \<Rightarrow> ReadyModel \<Rightarrow> millis \<Rightarrow> catalog \<Rightarrow> db_error + RetryResult \<times> catalog" where
  "retry_asr_job i m now cat = (case find_job i cat of
      None \<Rightarrow> Inr (RetryInvalidTransition, cat)
    | Some j0 \<Rightarrow>
        if \<not> (job_state j0 = BlockedModel \<or> job_state j0 = Failed) then Inr (RetryInvalidTransition, cat)
        else let selected = (\<lambda>j. job_id j = i \<and> job_state j = job_state j0 \<and> job_model_matches m j \<and>
                   chunk_available cat (job_chunk_id j) \<and>
                   list_ex (installation_ready m) (installations cat));
                 rows = update_where selected (\<lambda>j. j\<lparr>job_state := Queued, job_attempt_count := 0,
                   job_claim_generation := job_claim_generation j + 1, job_available_at := now,
                   job_claimed_by := None, job_lease_expires_at := None, job_cancel_requested_at := None,
                   job_error_code := None, job_error_summary := None, job_updated_at := now\<rparr>) (jobs cat)
             in if \<not> active_fingerprints_unique rows then Inl ConstraintViolation
                else if count_where selected (jobs cat) \<noteq> 1
                then Inr (RetryModelNotReady, cat\<lparr>jobs := rows\<rparr>)
                else case find_job i (cat\<lparr>jobs := rows\<rparr>) of
                    None \<Rightarrow> Inl QueryReturnedNoRows
                  | Some j \<Rightarrow> Inr (Retried (job_claim_generation j), cat\<lparr>jobs := rows\<rparr>))"

subsection \<open>The invariant of the queue\<close>

definition job_ok :: "job_row \<Rightarrow> bool" where
  "job_ok j \<longleftrightarrow>
     (job_claimed_by j \<noteq> None \<longleftrightarrow> running_state (job_state j)) \<and>
     (job_lease_expires_at j \<noteq> None \<longleftrightarrow> running_state (job_state j)) \<and>
     (job_cancel_requested_at j \<noteq> None \<longrightarrow> running_state (job_state j) \<or> job_state j = Cancelled) \<and>
     0 \<le> job_attempt_count j \<and> job_attempt_count j \<le> job_max_attempts j \<and>
     (job_state j = Queued \<or> job_state j = BlockedModel \<longrightarrow> job_attempt_count j < job_max_attempts j) \<and>
     1 \<le> job_max_attempts j \<and> 0 \<le> job_claim_generation j"

definition running_row :: "job_row \<Rightarrow> bool" where
  "running_row j \<longleftrightarrow> running_state (job_state j)"

definition queue_ok :: "job_row list \<Rightarrow> bool" where
  "queue_ok rows \<longleftrightarrow> distinct (map job_id rows) \<and> (\<forall>j \<in> set rows. job_ok j) \<and>
     active_fingerprints_unique rows \<and> count_where running_row rows \<le> 1"

text \<open>What may become of a row: its identity and what it is to execute stay, its claim generation never falls, and it is
  running afterwards only under the claim it ran under before or under a newer generation.\<close>

definition job_contract :: "job_row \<Rightarrow> string list \<times> string option list" where
  "job_contract j = ([job_provider j, job_model_id j, job_manifest_version j, job_archive_sha256 j,
       job_required_file_hashes_json j, job_model_source_json j, job_parameters_json j, job_input_sha256 j],
     [job_vad_model_id j, job_vad_manifest_version j, job_vad_archive_sha256 j,
       job_vad_required_file_hashes_json j])"

lemma job_contract_updates [simp]:
  "job_contract (job_state_update u0 j) = job_contract j"
  "job_contract (job_attempt_count_update u1 j) = job_contract j"
  "job_contract (job_claim_generation_update u2 j) = job_contract j"
  "job_contract (job_available_at_update u3 j) = job_contract j"
  "job_contract (job_claimed_by_update u4 j) = job_contract j"
  "job_contract (job_lease_expires_at_update u5 j) = job_contract j"
  "job_contract (job_cancel_requested_at_update u6 j) = job_contract j"
  "job_contract (job_error_code_update u7 j) = job_contract j"
  "job_contract (job_error_summary_update u8 j) = job_contract j"
  "job_contract (job_updated_at_update u9 j) = job_contract j"
  by (simp_all add: job_contract_def)

definition row_evolves :: "job_row \<Rightarrow> job_row \<Rightarrow> bool" where
  "row_evolves r r' \<longleftrightarrow> job_id r' = job_id r \<and> job_fingerprint r' = job_fingerprint r \<and>
     job_contract r' = job_contract r \<and>
     job_chunk_id r' = job_chunk_id r \<and> job_session_id r' = job_session_id r \<and>
     job_max_attempts r' = job_max_attempts r \<and> job_claim_generation r \<le> job_claim_generation r' \<and>
     (running_row r' \<longrightarrow> running_row r \<and> job_claimed_by r' = job_claimed_by r \<and>
        job_claim_generation r' = job_claim_generation r \<or>
        job_claim_generation r < job_claim_generation r') \<and>
     (job_ok r \<longrightarrow> job_ok r')"

definition queue_evolves :: "job_row list \<Rightarrow> job_row list \<Rightarrow> bool" where
  "queue_evolves rows rows' \<longleftrightarrow> (\<exists>upd news. rows' = upd @ news \<and> list_all2 row_evolves rows upd \<and>
     (\<forall>n \<in> set news. job_id n \<notin> job_id ` set rows \<and> job_ok n) \<and> distinct (map job_id news))"

lemma row_evolves_refl [simp]: "row_evolves r r"
  by (simp add: row_evolves_def)

lemma queue_evolves_refl [simp]: "queue_evolves rows rows"
  unfolding queue_evolves_def by (intro exI [of _ rows] exI [of _ "[]"]) (simp add: list.rel_refl)

lemma queue_evolves_update:
  assumes "\<And>r. r \<in> set rows \<Longrightarrow> p r \<Longrightarrow> row_evolves r (f r)"
  shows "queue_evolves rows (update_where p f rows)"
  unfolding queue_evolves_def
  by (intro exI [of _ "update_where p f rows"] exI [of _ "[]"])
    (use assms in \<open>auto simp: update_where_def list_all2_map2 list.rel_refl_strong\<close>)

lemma queue_evolves_append:
  "job_id n \<notin> job_id ` set rows \<Longrightarrow> job_ok n \<Longrightarrow> queue_evolves rows (rows @ [n])"
  unfolding queue_evolves_def by (intro exI [of _ rows] exI [of _ "[n]"]) (simp add: list.rel_refl)

lemma evolves_ids: "list_all2 row_evolves rows upd \<Longrightarrow> map job_id upd = map job_id rows"
  by (induction rule: list_all2_induct) (auto simp: row_evolves_def)

lemma queue_evolves_keeps:
  assumes "queue_evolves rows rows'" "distinct (map job_id rows)" "\<forall>j \<in> set rows. job_ok j"
  shows "distinct (map job_id rows') \<and> (\<forall>j \<in> set rows'. job_ok j)"
proof -
  from assms(1) obtain upd news where rows': "rows' = upd @ news" and all: "list_all2 row_evolves rows upd"
    and news: "\<forall>n \<in> set news. job_id n \<notin> job_id ` set rows \<and> job_ok n" "distinct (map job_id news)"
    by (auto simp: queue_evolves_def)
  have ids: "map job_id upd = map job_id rows" using all by (rule evolves_ids)
  then have "job_id ` set upd = job_id ` set rows" by (metis list.set_map)
  moreover have "distinct (map job_id upd)" using ids assms(2) by simp
  moreover have "\<forall>j \<in> set upd. job_ok j"
    using all assms(3) by (induction rule: list_all2_induct) (auto simp: row_evolves_def)
  ultimately show ?thesis using news unfolding rows' by auto (metis image_eqI)
qed

lemma count_where_mono:
  assumes "\<And>r. r \<in> set rows \<Longrightarrow> p r \<Longrightarrow> q (f r) \<Longrightarrow> q r"
  shows "count_where q (update_where p f rows) \<le> count_where q rows"
  using assms by (induction rows) (auto simp: count_where_def le_SucI)

lemma active_unique_mono:
  assumes "active_fingerprints_unique rows"
    and "\<And>r. r \<in> set rows \<Longrightarrow> p r \<Longrightarrow> job_fingerprint (f r) = job_fingerprint r \<and>
      (active_state (job_state (f r)) \<longrightarrow> active_state (job_state r))"
  shows "active_fingerprints_unique (update_where p f rows)"
proof -
  let ?act = "\<lambda>rows. map job_fingerprint (filter (\<lambda>j. active_state (job_state j)) rows)"
  have "set (?act (update_where p f rs)) \<subseteq> set (?act rs) \<and>
      (distinct (?act rs) \<longrightarrow> distinct (?act (update_where p f rs)))" if "set rs \<subseteq> set rows" for rs
    using that
  proof (induction rs)
    case Nil
    then show ?case by simp
  next
    case (Cons r rs)
    have "p r \<Longrightarrow> job_fingerprint (f r) = job_fingerprint r \<and>
        (active_state (job_state (f r)) \<longrightarrow> active_state (job_state r))"
      using Cons.prems assms(2) by simp
    with Cons show ?case by (cases "p r") auto
  qed
  with assms(1) show ?thesis by (auto simp: active_fingerprints_unique_def)
qed

lemma queue_ok_update:
  assumes ok: "queue_ok rows"
    and step: "\<And>r. r \<in> set rows \<Longrightarrow> p r \<Longrightarrow> row_evolves r (f r) \<and>
      (active_state (job_state (f r)) \<longrightarrow> active_state (job_state r)) \<and>
      (running_row (f r) \<longrightarrow> running_row r)"
  shows "queue_ok (update_where p f rows)"
proof -
  have "queue_evolves rows (update_where p f rows)" by (rule queue_evolves_update) (use step in blast)
  with ok have "distinct (map job_id (update_where p f rows)) \<and>
      (\<forall>j \<in> set (update_where p f rows). job_ok j)"
    using queue_evolves_keeps by (auto simp: queue_ok_def)
  moreover have "active_fingerprints_unique (update_where p f rows)"
    by (rule active_unique_mono) (use ok step in \<open>auto simp: queue_ok_def row_evolves_def\<close>)
  moreover have "count_where running_row (update_where p f rows) \<le> count_where running_row rows"
    by (rule count_where_mono) (use step in blast)
  ultimately show ?thesis using ok by (simp add: queue_ok_def)
qed

lemma running_active: "running_state s \<Longrightarrow> active_state s"
  by (cases s) simp_all

lemma count_key_1_iff:
  assumes "distinct (map job_id rows)"
  shows "count_where (\<lambda>j. job_id j = i \<and> q j) rows = 1 \<longleftrightarrow> (\<exists>j \<in> set rows. job_id j = i \<and> q j)"
proof -
  have "count_where (\<lambda>j. job_id j = i \<and> q j) rows \<le> 1" using assms by (rule count_where_key_le_1)
  moreover have "count_where (\<lambda>j. job_id j = i \<and> q j) rows = 0 \<longleftrightarrow> \<not> (\<exists>j \<in> set rows. job_id j = i \<and> q j)"
    by (auto simp: count_where_zero_iff list_ex_iff)
  ultimately show ?thesis by linarith
qed

subsection \<open>The owner's mutations\<close>

text \<open>The row a claim token speaks for, while the claim is alive.\<close>

definition live_claim :: "string \<Rightarrow> string \<Rightarrow> int \<Rightarrow> millis \<Rightarrow> job_row \<Rightarrow> bool" where
  "live_claim i owner g now j \<longleftrightarrow> claimed_as i owner g j \<and> running_row j \<and>
     lease_after (job_lease_expires_at j) now"

lemma owned_update_cases:
  assumes ids: "distinct (map job_id (jobs cat))"
    and states: "\<And>s. states s \<Longrightarrow> running_state s"
    and u: "owned_update states f i owner g now cat = (r, cat')"
    and keeps: "\<And>j. job_id (f j) = job_id j"
  shows "(r = Updated \<longleftrightarrow> (\<exists>j \<in> set (jobs cat). live_claim i owner g now j \<and> states (job_state j) \<and>
        job_cancel_requested_at j = None)) \<and>
    (r \<noteq> Updated \<longrightarrow> cat' = cat) \<and>
    (r = CancelRequested \<longleftrightarrow> (\<exists>j \<in> set (jobs cat). live_claim i owner g now j \<and>
        job_cancel_requested_at j \<noteq> None))"
proof -
  let ?sel = "\<lambda>j. claimed_as i owner g j \<and> states (job_state j) \<and>
    job_cancel_requested_at j = None \<and> lease_after (job_lease_expires_at j) now"
  let ?rows = "update_where ?sel f (jobs cat)"
  have sel: "?sel = (\<lambda>j. job_id j = i \<and> (job_claimed_by j = Some owner \<and> job_claim_generation j = g \<and>
      states (job_state j) \<and> job_cancel_requested_at j = None \<and> lease_after (job_lease_expires_at j) now))"
    by (auto simp: claimed_as_def fun_eq_iff)
  have one: "count_where ?sel (jobs cat) = 1 \<longleftrightarrow> (\<exists>j \<in> set (jobs cat). ?sel j)"
    unfolding sel using count_key_1_iff [OF ids] by auto
  have r: "r = owned_mutation_result i owner g now (count_where ?sel (jobs cat)) (cat\<lparr>jobs := ?rows\<rparr>)"
    and c: "cat' = cat\<lparr>jobs := ?rows\<rparr>"
    using u by (auto simp: owned_update_def Let_def)
  have live: "?sel j \<longleftrightarrow> live_claim i owner g now j \<and> states (job_state j) \<and> job_cancel_requested_at j = None"
    for j using states by (auto simp: live_claim_def running_row_def)
  show ?thesis
  proof (cases "\<exists>j \<in> set (jobs cat). ?sel j")
    case True
    then obtain j where j: "j \<in> set (jobs cat)" "?sel j" by blast
    have "\<not> (\<exists>k \<in> set (jobs cat). live_claim i owner g now k \<and> job_cancel_requested_at k \<noteq> None)"
    proof (rule notI, elim bexE conjE)
      fix k assume k: "k \<in> set (jobs cat)" "live_claim i owner g now k" "job_cancel_requested_at k \<noteq> None"
      have "k = j" using distinct_key_unique [OF ids k(1) j(1)] k(2) j(2)
        by (simp add: live_claim_def claimed_as_def)
      with k j show False by simp
    qed
    moreover have "r = Updated" using True one by (simp add: r owned_mutation_result_def)
    ultimately show ?thesis using True live by auto
  next
    case False
    then have "\<not> list_ex ?sel (jobs cat)" by (simp add: list_ex_iff)
    then have "?rows = jobs cat" by (rule update_where_none)
    then have "cat' = cat" by (simp add: c)
    moreover have "count_where ?sel (jobs cat) \<noteq> 1" using False one by simp
    then have "r = (if list_ex (\<lambda>j. claimed_as i owner g j \<and> running_state (job_state j) \<and>
        job_cancel_requested_at j \<noteq> None \<and> lease_after (job_lease_expires_at j) now) (jobs cat)
      then CancelRequested else OwnershipLost)"
      using \<open>?rows = jobs cat\<close> by (simp add: r owned_mutation_result_def)
    ultimately show ?thesis
      using False live by (auto simp: list_ex_iff live_claim_def running_row_def split: if_splits)
  qed
qed

lemma owned_update_evolves:
  assumes "owned_update states f i owner g now cat = (r, cat')"
    and "\<And>j. claimed_as i owner g j \<Longrightarrow> states (job_state j) \<Longrightarrow> job_cancel_requested_at j = None \<Longrightarrow>
      row_evolves j (f j) \<and> (active_state (job_state (f j)) \<longrightarrow> active_state (job_state j)) \<and>
      (running_row (f j) \<longrightarrow> running_row j)"
  shows "queue_evolves (jobs cat) (jobs cat') \<and> (queue_ok (jobs cat) \<longrightarrow> queue_ok (jobs cat'))"
proof -
  have "jobs cat' = update_where (\<lambda>j. claimed_as i owner g j \<and> states (job_state j) \<and>
      job_cancel_requested_at j = None \<and> lease_after (job_lease_expires_at j) now) f (jobs cat)"
    using assms(1) by (auto simp: owned_update_def Let_def)
  then show ?thesis using assms(2) by (auto intro: queue_evolves_update queue_ok_update)
qed

lemmas evolves_simps = row_evolves_def job_ok_def running_row_def claimed_as_def

lemma renew_evolves:
  assumes "renew_asr_job i owner g now lease cat = (r, cat')"
  shows "queue_evolves (jobs cat) (jobs cat') \<and> (queue_ok (jobs cat) \<longrightarrow> queue_ok (jobs cat'))"
  using assms unfolding renew_asr_job_def
  by (rule owned_update_evolves) (auto simp: evolves_simps)

lemma mark_evolves:
  assumes "mark_asr_job_transcribing i owner g now cat = (r, cat')"
  shows "queue_evolves (jobs cat) (jobs cat') \<and> (queue_ok (jobs cat) \<longrightarrow> queue_ok (jobs cat'))"
  using assms unfolding mark_asr_job_transcribing_def
  by (rule owned_update_evolves) (auto simp: evolves_simps)

lemma fail_evolves:
  assumes "fail_asr_job i owner g now code summary cat = (r, cat')"
  shows "queue_evolves (jobs cat) (jobs cat') \<and> (queue_ok (jobs cat) \<longrightarrow> queue_ok (jobs cat'))"
  using assms unfolding fail_asr_job_def
  by (rule owned_update_evolves) (auto simp: evolves_simps)

lemma acknowledge_evolves:
  assumes "acknowledge_asr_job_cancel i owner g now cat = (n, cat')"
  shows "queue_evolves (jobs cat) (jobs cat') \<and> (queue_ok (jobs cat) \<longrightarrow> queue_ok (jobs cat'))"
proof -
  let ?p = "\<lambda>j. claimed_as i owner g j \<and> running_state (job_state j) \<and>
    job_cancel_requested_at j \<noteq> None \<and> lease_after (job_lease_expires_at j) now"
  let ?f = "\<lambda>j. j\<lparr>job_state := Cancelled, job_claimed_by := None, job_lease_expires_at := None,
    job_error_code := Some ''cancelled'', job_error_summary := None, job_updated_at := now\<rparr>"
  have step: "row_evolves r (?f r) \<and> (active_state (job_state (?f r)) \<longrightarrow> active_state (job_state r)) \<and>
      (running_row (?f r) \<longrightarrow> running_row r)" for r
    by (auto simp: evolves_simps)
  have "jobs cat' = update_where ?p ?f (jobs cat)"
    using assms by (auto simp: acknowledge_asr_job_cancel_def Let_def)
  then show ?thesis using step by (auto intro!: queue_evolves_update queue_ok_update)
qed

lemma count_where_other:
  "count_where running_row (update_where p f rows) = count_where running_row rows"
  if "\<And>r. r \<in> set rows \<Longrightarrow> p r \<Longrightarrow> running_row (f r) = running_row r"
  using that by (induction rows) (auto simp: count_where_def)

lemma queue_evolves_trans:
  assumes "queue_evolves a b" "queue_evolves b c"
  shows "queue_evolves a c"
proof -
  from assms(1) obtain u n where b: "b = u @ n" and au: "list_all2 row_evolves a u"
    and n: "\<forall>x \<in> set n. job_id x \<notin> job_id ` set a \<and> job_ok x" "distinct (map job_id n)"
    by (auto simp: queue_evolves_def)
  from assms(2) obtain v m where c: "c = v @ m" and bv: "list_all2 row_evolves b v"
    and m: "\<forall>x \<in> set m. job_id x \<notin> job_id ` set b \<and> job_ok x" "distinct (map job_id m)"
    by (auto simp: queue_evolves_def)
  from bv b obtain v1 v2 where v: "v = v1 @ v2" and uv: "list_all2 row_evolves u v1"
    and nv: "list_all2 row_evolves n v2" by (auto simp: list_all2_append1)
  have trans: "row_evolves x z" if "row_evolves x y" "row_evolves y z" for x y z
    using that unfolding row_evolves_def by auto
  have "list_all2 row_evolves a v1" using list_all2_trans [OF trans au uv] .
  moreover have ids: "map job_id v2 = map job_id n" "map job_id u = map job_id a"
    using evolves_ids [OF nv] evolves_ids [OF au] by simp_all
  then have sets: "job_id ` set v2 = job_id ` set n" "job_id ` set u = job_id ` set a"
    by (metis list.set_map)+
  have "\<forall>x \<in> set v2. job_ok x"
    using nv n(1) by (induction rule: list_all2_induct) (auto simp: row_evolves_def)
  moreover have "\<forall>x \<in> set v2. job_id x \<notin> job_id ` set a"
    using sets(1) n(1) by (metis imageE imageI)
  moreover have "\<forall>x \<in> set m. job_id x \<notin> job_id ` set a \<and> job_id x \<notin> job_id ` set v2"
    using m(1) unfolding b set_append image_Un sets by blast
  moreover have "distinct (map job_id (v2 @ m))"
  proof -
    have "job_id x \<notin> job_id ` set v2" if "x \<in> set m" for x using m(1) that
      unfolding b set_append image_Un sets by blast
    then have "job_id ` set v2 \<inter> job_id ` set m = {}" by (rule image_disjoint)
    moreover have "distinct (map job_id v2)" using ids(1) n(2) by (simp only:)
    ultimately show ?thesis using m(2) by (simp only: map_append distinct_append set_map)
  qed
  ultimately show ?thesis
    unfolding queue_evolves_def c v
    by (intro exI [of _ v1] exI [of _ "v2 @ m"]) (use m(1) in auto)
qed

lemma cancel_evolves:
  assumes "request_asr_job_cancel i now cat = (r, cat')"
  shows "queue_evolves (jobs cat) (jobs cat') \<and> (queue_ok (jobs cat) \<longrightarrow> queue_ok (jobs cat'))"
proof -
  let ?p = "\<lambda>j. job_id j = i \<and> (job_state j = Queued \<or> job_state j = BlockedModel)"
  let ?f = "\<lambda>j. j\<lparr>job_state := Cancelled, job_cancel_requested_at := Some now,
     job_error_code := Some ''cancelled'', job_error_summary := None, job_claimed_by := None,
     job_lease_expires_at := None, job_updated_at := now\<rparr>"
  let ?q = "\<lambda>j. job_id j = i \<and> running_state (job_state j) \<and> job_cancel_requested_at j = None"
  let ?g = "\<lambda>j. j\<lparr>job_cancel_requested_at := Some now, job_updated_at := now\<rparr>"
  let ?one = "update_where ?p ?f (jobs cat)"
  have f: "row_evolves r (?f r) \<and> (active_state (job_state (?f r)) \<longrightarrow> active_state (job_state r)) \<and>
      (running_row (?f r) \<longrightarrow> running_row r)" for r
    by (auto simp: evolves_simps)
  have g: "row_evolves r (?g r) \<and> (active_state (job_state (?g r)) \<longrightarrow> active_state (job_state r)) \<and>
      (running_row (?g r) \<longrightarrow> running_row r)" if "?q r" for r
    using that by (auto simp: evolves_simps)
  have one: "queue_evolves (jobs cat) ?one" "queue_ok (jobs cat) \<Longrightarrow> queue_ok ?one"
    using f by (auto intro!: queue_evolves_update queue_ok_update)
  have two: "queue_evolves ?one (update_where ?q ?g ?one)"
    "queue_ok ?one \<Longrightarrow> queue_ok (update_where ?q ?g ?one)"
    using g by (auto intro!: queue_evolves_update queue_ok_update)
  have "jobs cat' = ?one \<or> jobs cat' = update_where ?q ?g ?one"
    using assms by (auto simp: request_asr_job_cancel_def Let_def split: if_splits)
  then show ?thesis
  proof
    assume "jobs cat' = ?one"
    with one show ?thesis by (simp only:) simp
  next
    assume "jobs cat' = update_where ?q ?g ?one"
    with one two queue_evolves_trans [OF one(1) two(1)] show ?thesis by (simp only:) simp
  qed
qed

lemma insert_evolves:
  assumes "insert_asr_job e st code summary cat = Inr (out, cat')"
    and "st = Queued \<or> st = BlockedModel \<or> st = Failed"
  shows "queue_evolves (jobs cat) (jobs cat') \<and> (queue_ok (jobs cat) \<longrightarrow> queue_ok (jobs cat'))"
proof (cases "active_asr_job_for_fingerprint (enq_fingerprint e) cat")
  case (Some i)
  with assms(1) have "cat' = cat" by (auto simp: insert_asr_job_def Let_def split: if_splits)
  then show ?thesis by simp
next
  case None
  let ?n = "job_of_enqueue e st code summary"
  have new: "enq_id e \<notin> job_id ` set (jobs cat)" and c: "cat' = cat\<lparr>jobs := jobs cat @ [?n]\<rparr>"
    using assms(1) None by (auto simp: insert_asr_job_def Let_def split: if_splits)
  have n: "job_id ?n = enq_id e" "job_fingerprint ?n = enq_fingerprint e" "job_ok ?n" "\<not> running_row ?n"
    using assms(2) by (auto simp: job_of_enqueue_def job_ok_def running_row_def)
  have "queue_evolves (jobs cat) (jobs cat')"
    unfolding c using new n by (simp add: queue_evolves_append)
  moreover have "active_fingerprints_unique (jobs cat @ [?n])" if "queue_ok (jobs cat)"
  proof -
    have "\<not> (\<exists>j \<in> set (jobs cat). job_fingerprint j = enq_fingerprint e \<and> active_state (job_state j))"
      using None by (auto simp: active_asr_job_for_fingerprint_def find_None_iff)
    with that n show ?thesis by (auto simp: queue_ok_def active_fingerprints_unique_def)
  qed
  moreover have "count_where running_row (jobs cat @ [?n]) = count_where running_row (jobs cat)"
    using n by (simp add: count_where_def)
  ultimately show ?thesis
    using new n unfolding c by (auto simp: queue_ok_def)
qed

lemma claim_candidates_set: "set (claim_candidates now cat) = {j \<in> set (jobs cat). claimable cat now j}"
  by (auto simp: claim_candidates_def)

lemma claim_first:
  assumes "claim_candidates now cat = c # cs"
  shows "c \<in> set (jobs cat)" "claimable cat now c"
    "\<forall>j \<in> set (jobs cat). claimable cat now j \<longrightarrow>
       (job_available_at c, job_created_at c, job_id c) \<le> (job_available_at j, job_created_at j, job_id j)"
proof -
  let ?k = "\<lambda>j. (job_available_at j, job_created_at j, job_id j)"
  have set: "set (c # cs) = {j \<in> set (jobs cat). claimable cat now j}"
    using claim_candidates_set [of now cat] assms by simp
  then show "c \<in> set (jobs cat)" "claimable cat now c" by auto
  have "sorted (map ?k (c # cs))"
    using sorted_sort_key [of ?k "filter (claimable cat now) (jobs cat)"]
    by (simp only: claim_candidates_def [of now cat, symmetric] assms)
  then have "\<forall>j \<in> set (c # cs). ?k c \<le> ?k j" by (simp del: less_eq_prod_simp)
  with set show "\<forall>j \<in> set (jobs cat). claimable cat now j \<longrightarrow> ?k c \<le> ?k j" by blast
qed

text \<open>The claimed row, as the UPDATE leaves it.\<close>

definition claimed_row :: "string \<Rightarrow> millis \<Rightarrow> millis \<Rightarrow> job_row \<Rightarrow> job_row" where
  "claimed_row owner now lease j = j\<lparr>job_state := Preparing, job_claimed_by := Some owner,
     job_lease_expires_at := Some lease, job_attempt_count := job_attempt_count j + 1,
     job_claim_generation := job_claim_generation j + 1, job_updated_at := now\<rparr>"

lemma claimed_row_eq: "(\<lambda>j. j\<lparr>job_state := Preparing, job_claimed_by := Some owner,
     job_lease_expires_at := Some lease, job_attempt_count := job_attempt_count j + 1,
     job_claim_generation := job_claim_generation j + 1, job_updated_at := now\<rparr>) =
   claimed_row owner now lease"
  by (simp add: claimed_row_def fun_eq_iff)

lemma claim_cases:
  assumes ids: "distinct (map job_id (jobs cat))"
  shows "(\<forall>j \<in> set (jobs cat). \<not> claimable cat now j) \<and> claim_asr_job owner now lease cat = (Inr None, cat) \<or>
    (\<exists>c \<in> set (jobs cat). claimable cat now c \<and>
       (\<forall>j \<in> set (jobs cat). claimable cat now j \<longrightarrow>
          (job_available_at c, job_created_at c, job_id c) \<le> (job_available_at j, job_created_at j, job_id j)) \<and>
       claim_asr_job owner now lease cat =
         (Inr (Some \<lparr>claimed_id = job_id c, claimed_attempt_count = job_attempt_count c + 1,
              claimed_generation = job_claim_generation c + 1\<rparr>),
          cat\<lparr>jobs := update_where (\<lambda>j. job_id j = job_id c) (claimed_row owner now lease) (jobs cat)\<rparr>))"
proof (cases "claim_candidates now cat")
  case Nil
  have "{j \<in> set (jobs cat). claimable cat now j} = {}"
    using claim_candidates_set [of now cat] Nil by simp
  then have "\<forall>j \<in> set (jobs cat). \<not> claimable cat now j" by blast
  moreover have "claim_asr_job owner now lease cat = (Inr None, cat)"
    by (simp add: claim_asr_job_def Nil)
  ultimately show ?thesis by blast
next
  case (Cons c cs)
  note c = claim_first [OF Cons]
  let ?sel = "\<lambda>j. job_id j = job_id c \<and> claimable cat now j"
  let ?f = "claimed_row owner now lease"
  have one: "count_where ?sel (jobs cat) = 1" using c(1,2) count_key_1_iff [OF ids] by blast
  have "?sel j \<longleftrightarrow> job_id j = job_id c" if "j \<in> set (jobs cat)" for j
    using distinct_key_unique [OF ids that c(1)] c(2) by auto
  then have rows: "update_where ?sel ?f (jobs cat) = update_where (\<lambda>j. job_id j = job_id c) ?f (jobs cat)"
    by (auto simp: update_where_def)
  let ?cat = "cat\<lparr>jobs := update_where (\<lambda>j. job_id j = job_id c) ?f (jobs cat)\<rparr>"
  have "map job_id (jobs ?cat) = map job_id (jobs cat)"
    by (simp add: update_where_def claimed_row_def)
  then have "distinct (map job_id (jobs ?cat))" using ids by simp
  moreover have "?f c \<in> set (jobs ?cat)" using c(1) by (auto simp: set_update_where)
  ultimately have found: "find_job (job_id c) ?cat = Some (?f c)"
    using find_unique [of job_id "jobs ?cat" "?f c"] by (simp add: find_job_def claimed_row_def)
  have "claim_asr_job owner now lease cat =
      (Inr (Some \<lparr>claimed_id = job_id (?f c), claimed_attempt_count = job_attempt_count (?f c),
         claimed_generation = job_claim_generation (?f c)\<rparr>), ?cat)"
    unfolding claim_asr_job_def Cons Let_def claimed_row_eq list.case rows one found
    by simp
  then show ?thesis using c by (intro disjI2 bexI [of _ c]) (simp_all add: claimed_row_def)
qed

lemma running_zero:
  assumes "queue_ok (jobs cat)" "\<not> claim_running cat"
  shows "count_where running_row (jobs cat) = 0"
  using assms by (auto simp: count_where_zero_iff list_ex_iff claim_running_def queue_ok_def job_ok_def running_row_def)

lemma count_where_update_key:
  assumes "distinct (map job_id rows)" "count_where running_row rows = 0"
  shows "count_where running_row (update_where (\<lambda>j. job_id j = i) f rows) \<le> 1"
  using assms
proof (induction rows)
  case Nil
  then show ?case by (simp add: count_where_def)
next
  case (Cons r rows)
  have none: "count_where running_row rows = 0" "\<not> running_row r"
    using Cons.prems(2) by (auto simp: count_where_def split: if_splits)
  show ?case
  proof (cases "job_id r = i")
    case True
    then have "\<not> list_ex (\<lambda>j. job_id j = i) rows"
      using Cons.prems(1) by (auto simp: list_ex_iff image_iff)
    then have "update_where (\<lambda>j. job_id j = i) f rows = rows" by (rule update_where_none)
    with True none show ?thesis by (simp add: count_where_def)
  next
    case False
    with Cons none show ?thesis by (simp add: count_where_def)
  qed
qed

lemma claim_evolves:
  assumes ok: "queue_ok (jobs cat)" and cl: "claim_asr_job owner now lease cat = (r, cat')"
  shows "queue_evolves (jobs cat) (jobs cat') \<and> queue_ok (jobs cat')"
proof -
  have ids: "distinct (map job_id (jobs cat))" using ok by (simp add: queue_ok_def)
  from claim_cases [OF ids, of now owner lease] show ?thesis
  proof (elim disjE bexE conjE)
    assume "claim_asr_job owner now lease cat = (Inr None, cat)"
    with cl ok show ?thesis by simp
  next
    fix c assume c: "c \<in> set (jobs cat)" "claimable cat now c"
      and eq: "claim_asr_job owner now lease cat =
         (Inr (Some \<lparr>claimed_id = job_id c, claimed_attempt_count = job_attempt_count c + 1,
              claimed_generation = job_claim_generation c + 1\<rparr>),
          cat\<lparr>jobs := update_where (\<lambda>j. job_id j = job_id c) (claimed_row owner now lease) (jobs cat)\<rparr>)"
    let ?rows = "update_where (\<lambda>j. job_id j = job_id c) (claimed_row owner now lease) (jobs cat)"
    have rows: "jobs cat' = ?rows" using cl eq by auto
    have only: "j = c" if "j \<in> set (jobs cat)" "job_id j = job_id c" for j
      using distinct_key_unique [OF ids that(1) c(1) that(2)] .
    have queued: "job_state c = Queued" "\<not> claim_running cat" using c(2) by (simp_all add: claimable_def)
    have step: "row_evolves j (claimed_row owner now lease j)"
      if "j \<in> set (jobs cat)" "job_id j = job_id c" for j
      using only [OF that] queued(1)
      by (auto simp: row_evolves_def claimed_row_def job_ok_def running_row_def)
    have ev: "queue_evolves (jobs cat) ?rows" by (rule queue_evolves_update) (rule step)
    moreover have "distinct (map job_id ?rows) \<and> (\<forall>j \<in> set ?rows. job_ok j)"
      using queue_evolves_keeps [OF ev ids] ok by (simp add: queue_ok_def)
    moreover have "active_fingerprints_unique ?rows"
    proof (rule active_unique_mono)
      show "active_fingerprints_unique (jobs cat)" using ok by (simp add: queue_ok_def)
      fix j assume "j \<in> set (jobs cat)" "job_id j = job_id c"
      from only [OF this] queued(1)
      show "job_fingerprint (claimed_row owner now lease j) = job_fingerprint j \<and>
          (active_state (job_state (claimed_row owner now lease j)) \<longrightarrow> active_state (job_state j))"
        by (simp add: claimed_row_def)
    qed
    moreover have "count_where running_row ?rows \<le> 1"
      using count_where_update_key [OF ids running_zero [OF ok queued(2)]] .
    ultimately show ?thesis unfolding rows by (simp add: queue_ok_def)
  qed
qed

subsection \<open>Retry\<close>

definition retried_row :: "millis \<Rightarrow> job_row \<Rightarrow> job_row" where
  "retried_row now j = j\<lparr>job_state := Queued, job_attempt_count := 0,
     job_claim_generation := job_claim_generation j + 1, job_available_at := now,
     job_claimed_by := None, job_lease_expires_at := None, job_cancel_requested_at := None,
     job_error_code := None, job_error_summary := None, job_updated_at := now\<rparr>"

lemma retried_row_eq: "(\<lambda>j. j\<lparr>job_state := Queued, job_attempt_count := 0,
     job_claim_generation := job_claim_generation j + 1, job_available_at := now,
     job_claimed_by := None, job_lease_expires_at := None, job_cancel_requested_at := None,
     job_error_code := None, job_error_summary := None, job_updated_at := now\<rparr>) = retried_row now"
  by (simp add: retried_row_def fun_eq_iff)

lemma retry_rows:
  assumes "retry_asr_job i m now cat = Inr (r, cat')"
  shows "cat' = cat \<or> (\<exists>p. jobs cat' = update_where p (retried_row now) (jobs cat) \<and>
    active_fingerprints_unique (jobs cat'))"
  using assms unfolding retry_asr_job_def retried_row_eq
  by (auto simp: Let_def split: option.splits if_splits)

lemma retry_evolves:
  assumes "retry_asr_job i m now cat = Inr (r, cat')"
  shows "queue_evolves (jobs cat) (jobs cat') \<and> (queue_ok (jobs cat) \<longrightarrow> queue_ok (jobs cat'))"
  using retry_rows [OF assms]
proof (elim disjE exE conjE)
  assume "cat' = cat"
  then show ?thesis by simp
next
  fix p assume rows: "jobs cat' = update_where p (retried_row now) (jobs cat)"
    and unique: "active_fingerprints_unique (jobs cat')"
  have step: "row_evolves j (retried_row now j) \<and> \<not> running_row (retried_row now j)" for j
    by (auto simp: evolves_simps retried_row_def)
  have ev: "queue_evolves (jobs cat) (jobs cat')"
    unfolding rows by (rule queue_evolves_update) (use step in blast)
  moreover have "count_where running_row (jobs cat') \<le> count_where running_row (jobs cat)"
    unfolding rows by (rule count_where_mono) (use step in blast)
  ultimately show ?thesis
    using unique queue_evolves_keeps [OF ev] by (auto simp: queue_ok_def)
qed

subsection \<open>Recovery\<close>

text \<open>What recovery does to one row: the claims of an earlier boot and the expired ones end.\<close>

definition abandoned :: "(string \<Rightarrow> string option) \<Rightarrow> string \<Rightarrow> millis \<Rightarrow> job_row \<Rightarrow> bool" where
  "abandoned boot_of boot now j \<longleftrightarrow> running_row j \<and> job_claimed_by j \<noteq> None \<and>
     \<not> still_owned boot_of boot now (candidate_of j)"

definition recovered_row :: "(int \<Rightarrow> millis) \<Rightarrow> millis \<Rightarrow> job_row \<Rightarrow> job_row" where
  "recovered_row retry_at now j =
     (let cancel = job_cancel_requested_at j \<noteq> None;
          spent = job_max_attempts j \<le> job_attempt_count j
      in j\<lparr>job_state := (if cancel then Cancelled else if spent then Failed else Queued),
           job_available_at := (if cancel \<or> spent then now else retry_at (job_attempt_count j)),
           job_claimed_by := None, job_lease_expires_at := None,
           job_error_code := (if cancel then Some ''cancelled''
              else if spent then Some ''recovery_retry_exhausted'' else None),
           job_error_summary := (if cancel \<or> \<not> spent then None
              else Some ''ASR recovery claim limit exhausted''),
           job_updated_at := now\<rparr>)"

definition recovered_counts :: "job_row list \<Rightarrow> RecoveryCounts" where
  "recovered_counts js = \<lparr>requeued = count_where (\<lambda>j. job_cancel_requested_at j = None \<and>
        job_attempt_count j < job_max_attempts j) js,
     cancelled = count_where (\<lambda>j. job_cancel_requested_at j \<noteq> None) js,
     exhausted = count_where (\<lambda>j. job_cancel_requested_at j = None \<and>
        job_max_attempts j \<le> job_attempt_count j) js\<rparr>"

definition add_counts :: "RecoveryCounts \<Rightarrow> RecoveryCounts \<Rightarrow> RecoveryCounts" where
  "add_counts a b = \<lparr>requeued = requeued a + requeued b, cancelled = cancelled a + cancelled b,
     exhausted = exhausted a + exhausted b\<rparr>"

lemma recovery_row_spec:
  "recovery_row retry_at now (candidate_of j) counts =
     ((job_state (recovered_row retry_at now j), job_available_at (recovered_row retry_at now j),
       job_error_code (recovered_row retry_at now j), job_error_summary (recovered_row retry_at now j)),
      add_counts counts (recovered_counts [j]))"
  by (auto simp: recovery_row_def candidate_of_def recovered_row_def recovered_counts_def
      add_counts_def count_where_def Let_def)

lemma candidate_of_sel [simp]:
  "cand_id (candidate_of j) = job_id j" "cand_claimed_by (candidate_of j) = the (job_claimed_by j)"
  "cand_generation (candidate_of j) = job_claim_generation j"
  by (simp_all add: candidate_of_def)

lemma update_where_cong:
  assumes "\<And>r. r \<in> set rows \<Longrightarrow> (if p r then f r else r) = (if q r then g r else r)"
  shows "update_where p f rows = update_where q g rows"
  using assms by (simp add: update_where_def)

lemma update_where_twice:
  assumes "\<And>r. q r \<Longrightarrow> \<not> p (f r)"
  shows "update_where p f (update_where q f rows) = update_where (\<lambda>r. q r \<or> p r) f rows"
  using assms by (induction rows) auto

lemma recovered_row_id [simp]: "job_id (recovered_row retry_at now j) = job_id j"
  by (simp add: recovered_row_def Let_def)

lemma add_counts_cons:
  "add_counts (add_counts counts (recovered_counts [j])) (recovered_counts js) =
     add_counts counts (recovered_counts (j # js))"
  by (auto simp: add_counts_def recovered_counts_def count_where_def)

lemma recover_step_rows:
  assumes ids: "distinct (map job_id rows)" and j: "j \<in> set rows" "running_row j" "job_claimed_by j \<noteq> None"
  shows "count_where (\<lambda>r. claimed_as (job_id j) (the (job_claimed_by j)) (job_claim_generation j) r \<and>
      running_state (job_state r)) rows = 1 \<and>
    update_where (\<lambda>r. claimed_as (job_id j) (the (job_claimed_by j)) (job_claim_generation j) r \<and>
      running_state (job_state r))
      (\<lambda>r. r\<lparr>job_state := job_state (recovered_row retry_at now j),
         job_available_at := job_available_at (recovered_row retry_at now j),
         job_claimed_by := None, job_lease_expires_at := None,
         job_error_code := job_error_code (recovered_row retry_at now j),
         job_error_summary := job_error_summary (recovered_row retry_at now j),
         job_updated_at := now\<rparr>) rows =
    update_where (\<lambda>r. job_id r = job_id j) (recovered_row retry_at now) rows"
proof
  have only: "r = j" if "r \<in> set rows" "job_id r = job_id j" for r
    using distinct_key_unique [OF ids that(1) j(1) that(2)] .
  have "(\<lambda>r. claimed_as (job_id j) (the (job_claimed_by j)) (job_claim_generation j) r \<and>
      running_state (job_state r)) = (\<lambda>r. job_id r = job_id j \<and>
      (job_claimed_by r = Some (the (job_claimed_by j)) \<and> job_claim_generation r = job_claim_generation j \<and>
       running_state (job_state r)))"
    by (auto simp: claimed_as_def fun_eq_iff)
  then show "count_where (\<lambda>r. claimed_as (job_id j) (the (job_claimed_by j)) (job_claim_generation j) r \<and>
      running_state (job_state r)) rows = 1"
    using count_key_1_iff [OF ids] j by (auto simp: running_row_def)
next
  have only: "r = j" if "r \<in> set rows" "job_id r = job_id j" for r
    using distinct_key_unique [OF ids that(1) j(1) that(2)] .
  show "update_where (\<lambda>r. claimed_as (job_id j) (the (job_claimed_by j)) (job_claim_generation j) r \<and>
      running_state (job_state r))
      (\<lambda>r. r\<lparr>job_state := job_state (recovered_row retry_at now j),
         job_available_at := job_available_at (recovered_row retry_at now j),
         job_claimed_by := None, job_lease_expires_at := None,
         job_error_code := job_error_code (recovered_row retry_at now j),
         job_error_summary := job_error_summary (recovered_row retry_at now j),
         job_updated_at := now\<rparr>) rows =
    update_where (\<lambda>r. job_id r = job_id j) (recovered_row retry_at now) rows"
  proof (rule update_where_cong)
    fix r assume r: "r \<in> set rows"
    show "(if claimed_as (job_id j) (the (job_claimed_by j)) (job_claim_generation j) r \<and>
        running_state (job_state r)
      then r\<lparr>job_state := job_state (recovered_row retry_at now j),
         job_available_at := job_available_at (recovered_row retry_at now j),
         job_claimed_by := None, job_lease_expires_at := None,
         job_error_code := job_error_code (recovered_row retry_at now j),
         job_error_summary := job_error_summary (recovered_row retry_at now j),
         job_updated_at := now\<rparr> else r) =
      (if job_id r = job_id j then recovered_row retry_at now r else r)"
    proof (cases "job_id r = job_id j")
      case True
      with only [OF r] have "r = j" by simp
      with j show ?thesis by (auto simp: claimed_as_def running_row_def recovered_row_def Let_def)
    next
      case False
      then show ?thesis by (simp add: claimed_as_def)
    qed
  qed
qed

lemma recover_loop_spec:
  assumes "distinct (map job_id (jobs cat))" "distinct (map job_id js)"
    and "\<forall>j \<in> set js. j \<in> set (jobs cat) \<and> running_row j \<and> job_claimed_by j \<noteq> None"
  shows "recover_loop boot_of boot retry_at now (map candidate_of js) counts cat =
    Inr (add_counts counts (recovered_counts (filter (abandoned boot_of boot now) js)),
      cat\<lparr>jobs := update_where (\<lambda>r. job_id r \<in> job_id ` set (filter (abandoned boot_of boot now) js))
         (recovered_row retry_at now) (jobs cat)\<rparr>)"
  using assms
proof (induction js arbitrary: counts cat)
  case Nil
  have "add_counts counts (recovered_counts []) = counts"
    by (simp add: add_counts_def recovered_counts_def count_where_def)
  moreover have "update_where (\<lambda>r. False) (recovered_row retry_at now) (jobs cat) = jobs cat"
    by (rule update_where_none) (simp add: list_ex_iff)
  ultimately show ?case by simp
next
  case (Cons j js)
  have j: "j \<in> set (jobs cat)" "running_row j" "job_claimed_by j \<noteq> None" using Cons.prems(3) by auto
  show ?case
  proof (cases "abandoned boot_of boot now j")
    case False
    with j have "still_owned boot_of boot now (candidate_of j)" by (simp add: abandoned_def)
    with False Cons.prems show ?thesis by (simp add: Cons.IH)
  next
    case True
    then have lost: "\<not> still_owned boot_of boot now (candidate_of j)" by (simp add: abandoned_def)
    let ?rows = "update_where (\<lambda>r. job_id r = job_id j) (recovered_row retry_at now) (jobs cat)"
    note step = recover_step_rows [OF Cons.prems(1) j, of now retry_at]
    have keeps: "map job_id ?rows = map job_id (jobs cat)"
      by (rule map_update_where) (simp add: recovered_row_def Let_def)
    have fresh: "job_id j \<notin> job_id ` set (filter (abandoned boot_of boot now) js)"
      using Cons.prems(2) by auto
    have rest: "\<forall>k \<in> set js. k \<in> set ?rows \<and> running_row k \<and> job_claimed_by k \<noteq> None"
    proof
      fix k assume k: "k \<in> set js"
      with Cons.prems(2) have "job_id k \<noteq> job_id j" by (auto simp: image_iff)
      moreover have "k \<in> set (jobs cat)" using Cons.prems(3) k by simp
      ultimately have "k \<in> set ?rows" unfolding set_update_where by (force simp: image_iff)
      with Cons.prems(3) k show "k \<in> set ?rows \<and> running_row k \<and> job_claimed_by k \<noteq> None" by simp
    qed
    have "recover_loop boot_of boot retry_at now (map candidate_of (j # js)) counts cat =
        recover_loop boot_of boot retry_at now (map candidate_of js)
          (add_counts counts (recovered_counts [j])) (cat\<lparr>jobs := ?rows\<rparr>)"
      using lost step by (simp add: recovery_row_spec Let_def)
    also have "\<dots> = Inr (add_counts (add_counts counts (recovered_counts [j]))
          (recovered_counts (filter (abandoned boot_of boot now) js)),
        (cat\<lparr>jobs := ?rows\<rparr>)\<lparr>jobs := update_where
          (\<lambda>r. job_id r \<in> job_id ` set (filter (abandoned boot_of boot now) js))
          (recovered_row retry_at now) (jobs (cat\<lparr>jobs := ?rows\<rparr>))\<rparr>)"
      by (rule Cons.IH) (use Cons.prems keeps rest in simp_all)
    also have "update_where (\<lambda>r. job_id r \<in> job_id ` set (filter (abandoned boot_of boot now) js))
          (recovered_row retry_at now) (jobs (cat\<lparr>jobs := ?rows\<rparr>)) =
        update_where (\<lambda>r. job_id r \<in> job_id ` set (filter (abandoned boot_of boot now) (j # js)))
          (recovered_row retry_at now) (jobs cat)"
    proof -
      let ?p = "\<lambda>r. job_id r \<in> job_id ` set (filter (abandoned boot_of boot now) js)"
      have "update_where ?p (recovered_row retry_at now) ?rows =
          update_where (\<lambda>r. job_id r = job_id j \<or> ?p r) (recovered_row retry_at now) (jobs cat)"
        by (rule update_where_twice) (use fresh in simp)
      with True show ?thesis by simp
    qed
    finally show ?thesis using True by (simp add: add_counts_cons)
  qed
qed

lemma recover_rows:
  assumes ids: "distinct (map job_id (jobs cat))"
  shows "recover_asr_jobs boot_of boot retry_at now cat =
    Inr (recovered_counts (filter (abandoned boot_of boot now) (jobs cat)),
      cat\<lparr>jobs := update_where (abandoned boot_of boot now) (recovered_row retry_at now) (jobs cat)\<rparr>)"
proof -
  let ?claimed = "\<lambda>j. running_state (job_state j) \<and> job_claimed_by j \<noteq> None"
  let ?ab = "abandoned boot_of boot now"
  let ?js = "sort_key (\<lambda>j. (job_created_at j, job_id j)) (filter ?claimed (jobs cat))"
  have set: "set ?js = {j \<in> set (jobs cat). ?claimed j}" by auto
  have dist: "distinct (map job_id ?js)"
  proof -
    have "inj_on job_id (set (jobs cat))" "distinct (jobs cat)" using ids by (simp_all add: distinct_map)
    moreover have "distinct ?js" using \<open>distinct (jobs cat)\<close> by simp
    ultimately show ?thesis unfolding distinct_map set by (auto simp: inj_on_def)
  qed
  have "recover_asr_jobs boot_of boot retry_at now cat =
    Inr (add_counts \<lparr>requeued = 0, cancelled = 0, exhausted = 0\<rparr> (recovered_counts (filter ?ab ?js)),
      cat\<lparr>jobs := update_where (\<lambda>r. job_id r \<in> job_id ` set (filter ?ab ?js))
         (recovered_row retry_at now) (jobs cat)\<rparr>)"
    unfolding recover_asr_jobs_def recovery_candidates_def
    by (rule recover_loop_spec) (use ids dist set in \<open>auto simp: running_row_def\<close>)
  also have "recovered_counts (filter ?ab ?js) = recovered_counts (filter ?ab (jobs cat))"
  proof -
    have "count_where p (filter ?ab ?js) = count_where p (filter ?ab (jobs cat))" for p
    proof -
      have ab: "?claimed x \<and> ?ab x \<and> p x \<longleftrightarrow> ?ab x \<and> p x" for x
        by (auto simp: abandoned_def running_row_def)
      show ?thesis by (simp add: count_where_def filter_sort ab [simplified])
    qed
    then show ?thesis by (simp add: recovered_counts_def)
  qed
  also have "update_where (\<lambda>r. job_id r \<in> job_id ` set (filter ?ab ?js)) (recovered_row retry_at now) (jobs cat) =
      update_where ?ab (recovered_row retry_at now) (jobs cat)"
  proof (rule update_where_cong)
    fix r assume r: "r \<in> set (jobs cat)"
    have "job_id r \<in> job_id ` set (filter ?ab ?js) \<longleftrightarrow> ?ab r"
    proof
      assume "job_id r \<in> job_id ` set (filter ?ab ?js)"
      then obtain k where "k \<in> set (jobs cat)" "?ab k" "job_id r = job_id k" by auto
      with distinct_key_unique [OF ids r] show "?ab r" by metis
    next
      assume "?ab r"
      then have "?claimed r" by (simp add: abandoned_def running_row_def)
      with r \<open>?ab r\<close> show "job_id r \<in> job_id ` set (filter ?ab ?js)" by auto
    qed
    then show "(if job_id r \<in> job_id ` set (filter ?ab ?js) then recovered_row retry_at now r else r) =
      (if ?ab r then recovered_row retry_at now r else r)" by simp
  qed
  finally show ?thesis by (simp add: add_counts_def)
qed

lemma recover_evolves:
  assumes ids: "distinct (map job_id (jobs cat))"
    and "recover_asr_jobs boot_of boot retry_at now cat = Inr (counts, cat')"
  shows "queue_evolves (jobs cat) (jobs cat') \<and> (queue_ok (jobs cat) \<longrightarrow> queue_ok (jobs cat'))"
proof -
  let ?rows = "update_where (abandoned boot_of boot now) (recovered_row retry_at now) (jobs cat)"
  have rows: "jobs cat' = ?rows" using assms(2) unfolding recover_rows [OF ids] by auto
  have step: "row_evolves r (recovered_row retry_at now r) \<and>
      (active_state (job_state (recovered_row retry_at now r)) \<longrightarrow> active_state (job_state r)) \<and>
      (running_row (recovered_row retry_at now r) \<longrightarrow> running_row r)" if "abandoned boot_of boot now r" for r
    using that running_active [of "job_state r"]
    by (auto simp: evolves_simps recovered_row_def abandoned_def Let_def)
  show ?thesis unfolding rows
    by (intro conjI impI queue_evolves_update queue_ok_update) (use step in blast)+
qed

subsection \<open>Properties\<close>

lemma claim_token_live:
  assumes "c \<in> set rows"
  shows "list_ex (\<lambda>j. claimed_as (job_id c) owner (job_claim_generation c + 1) j \<and>
    running_state (job_state j)) (update_where (\<lambda>j. job_id j = job_id c) (claimed_row owner now lease) rows)"
  unfolding list_ex_iff set_update_where
  by (rule bexI [OF _ imageI [OF assms]]) (simp add: claimed_as_def claimed_row_def)

lemma in_update_where:
  assumes "j \<in> set (update_where p f rows)"
  shows "(\<exists>k \<in> set rows. p k \<and> j = f k) \<or> j \<in> set rows \<and> \<not> p j"
  using assms by (auto simp: set_update_where split: if_splits)

lemma recovered_not_running: "\<not> running_row (recovered_row retry_at now j)"
  by (simp add: running_row_def recovered_row_def Let_def)

lemma only_claim_runs:
  assumes "queue_ok rows" "\<forall>j \<in> set rows. \<not> (running_state (job_state j) \<and> job_claimed_by j \<noteq> None)"
    and "k \<in> set (update_where (\<lambda>j. job_id j = i) f rows)" "running_row k" "\<And>j. job_id (f j) = job_id j"
  shows "job_id k = i"
  using assms by (auto simp: set_update_where queue_ok_def job_ok_def running_row_def split: if_splits)

text \<open>Identifiers are unique, so the statement writes the fields of the row that it selected.\<close>

lemma claimed_rows_written:
  assumes "distinct (map job_id rows)" "c \<in> set rows"
  shows "update_where (\<lambda>j. job_id j = job_id c) (claimed_row owner now lease) rows =
    map (\<lambda>j. if job_id j = job_id c then j\<lparr>job_state := Preparing,
        job_claimed_by := Some owner, job_lease_expires_at := Some lease,
        job_attempt_count := job_attempt_count c + 1, job_claim_generation := job_claim_generation c + 1,
        job_updated_at := now\<rparr> else j) rows"
  unfolding update_where_def
  by (rule map_cong [OF refl])
    (auto simp: claimed_row_def dest: distinct_key_unique [OF assms(1) _ assms(2)])

lemma claim_leaves_one_running:
  assumes "queue_ok (jobs cat)" "c \<in> set (jobs cat)" "claimable cat now c"
  shows "\<forall>j \<in> set (update_where (\<lambda>j. job_id j = job_id c) (claimed_row owner now lease) (jobs cat)).
    running_row j \<longrightarrow> job_id j = job_id c"
proof -
  have idle: "\<forall>j \<in> set (jobs cat). \<not> (running_state (job_state j) \<and> job_claimed_by j \<noteq> None)"
    using assms(3) by (simp add: claimable_def claim_running_def list_ex_iff)
  show ?thesis by (intro ballI impI, erule (1) only_claim_runs [OF assms(1) idle]) (simp add: claimed_row_def)
qed

text \<open>
  C5: claiming.  On a well-formed queue a claim never fails.  It answers None, changing
  nothing, exactly when no job is claimable; otherwise it hands out the claimable job that is first
  by availability, creation and identifier, raises that job's attempt and generation by one, writes
  no other row, leaves it the only running job, makes the token it returns the owner of it, and
  never lets a job exceed its allowed attempts.
\<close>
theorem claim_is_exclusive:
  assumes "queue_ok (jobs cat)"
  shows "case claim_asr_job owner now lease cat of
      (Inl e, cat') \<Rightarrow> False
    | (Inr None, cat') \<Rightarrow> cat' = cat \<and> (\<forall>j \<in> set (jobs cat). \<not> claimable cat now j)
    | (Inr (Some t), cat') \<Rightarrow> (\<exists>c \<in> set (jobs cat). claimable cat now c \<and>
         (\<forall>j \<in> set (jobs cat). claimable cat now j \<longrightarrow>
            (job_available_at c, job_created_at c, job_id c) \<le> (job_available_at j, job_created_at j, job_id j)) \<and>
         t = \<lparr>claimed_id = job_id c, claimed_attempt_count = job_attempt_count c + 1,
              claimed_generation = job_claim_generation c + 1\<rparr> \<and>
         claimed_attempt_count t \<le> job_max_attempts c \<and>
         cat' = cat\<lparr>jobs := map (\<lambda>j. if job_id j = job_id c then j\<lparr>job_state := Preparing,
            job_claimed_by := Some owner, job_lease_expires_at := Some lease,
            job_attempt_count := claimed_attempt_count t, job_claim_generation := claimed_generation t,
            job_updated_at := now\<rparr> else j) (jobs cat)\<rparr> \<and>
         owns_running_asr_job (claimed_id t) owner (claimed_generation t) cat' \<and>
         (\<forall>j \<in> set (jobs cat'). running_row j \<longrightarrow> job_id j = claimed_id t))"
proof -
  have ids: "distinct (map job_id (jobs cat))" using assms by (simp add: queue_ok_def)
  from claim_cases [OF ids, of now owner lease] show ?thesis
  proof (elim disjE bexE conjE)
    assume "\<forall>j \<in> set (jobs cat). \<not> claimable cat now j" "claim_asr_job owner now lease cat = (Inr None, cat)"
    then show ?thesis by simp
  next
    fix c assume c: "c \<in> set (jobs cat)" "claimable cat now c"
      and first: "\<forall>j \<in> set (jobs cat). claimable cat now j \<longrightarrow>
         (job_available_at c, job_created_at c, job_id c) \<le> (job_available_at j, job_created_at j, job_id j)"
      and eq: "claim_asr_job owner now lease cat =
         (Inr (Some \<lparr>claimed_id = job_id c, claimed_attempt_count = job_attempt_count c + 1,
              claimed_generation = job_claim_generation c + 1\<rparr>),
          cat\<lparr>jobs := update_where (\<lambda>j. job_id j = job_id c) (claimed_row owner now lease) (jobs cat)\<rparr>)"
    have ok: "job_ok c" "job_state c = Queued" using assms c by (simp_all add: queue_ok_def claimable_def)
    note only = claim_leaves_one_running [OF assms c]
    note rows = claimed_rows_written [OF ids c(1), of owner now lease]
    have owns: "owns_running_asr_job (job_id c) owner (job_claim_generation c + 1)
        (cat\<lparr>jobs := update_where (\<lambda>j. job_id j = job_id c) (claimed_row owner now lease) (jobs cat)\<rparr>)"
      using claim_token_live [OF c(1)] by (simp add: owns_running_asr_job_def)
    have attempts: "job_attempt_count c + 1 \<le> job_max_attempts c" using ok by (simp add: job_ok_def)
    have upd: "jobs (cat\<lparr>jobs := x\<rparr>) = x" for x by simp
    show ?thesis
      unfolding eq prod.case sum.case option.case ClaimedJobRow.select_convs
      by (intro bexI [OF _ c(1)] conjI)
        (rule c(2), rule first, rule refl, rule attempts, simp only: rows, rule owns, simp only: upd, rule only)
  qed
qed

lemma recover_asr_jobs_exact:
  assumes "queue_ok (jobs cat)"
  shows "\<exists>counts cat'. recover_asr_jobs boot_of boot retry_at now cat = Inr (counts, cat') \<and>
    queue_ok (jobs cat') \<and> cat' = cat\<lparr>jobs := jobs cat'\<rparr> \<and>
    list_all2 (\<lambda>j j'. if abandoned boot_of boot now j
       then job_claimed_by j' = None \<and> job_lease_expires_at j' = None \<and>
         job_claim_generation j' = job_claim_generation j \<and> job_attempt_count j' = job_attempt_count j \<and>
         (job_state j', job_available_at j', job_error_code j') =
           (if job_cancel_requested_at j \<noteq> None then (Cancelled, now, Some ''cancelled'')
            else if job_attempt_count j = job_max_attempts j
            then (Failed, now, Some ''recovery_retry_exhausted'')
            else (Queued, retry_at (job_attempt_count j), None))
       else j' = j) (jobs cat) (jobs cat') \<and>
    requeued counts + cancelled counts + exhausted counts = count_where (abandoned boot_of boot now) (jobs cat) \<and>
    cancelled counts =
      count_where (\<lambda>j. abandoned boot_of boot now j \<and> job_cancel_requested_at j \<noteq> None) (jobs cat) \<and>
    exhausted counts =
      count_where (\<lambda>j. abandoned boot_of boot now j \<and> job_cancel_requested_at j = None \<and>
        job_attempt_count j = job_max_attempts j) (jobs cat) \<and>
    (\<forall>j \<in> set (jobs cat'). running_row j \<longrightarrow> lease_after (job_lease_expires_at j) now \<and>
       (\<exists>owner. job_claimed_by j = Some owner \<and> boot_of owner = Some boot))"
proof -
  let ?ab = "abandoned boot_of boot now"
  let ?rows = "update_where ?ab (recovered_row retry_at now) (jobs cat)"
  have ids: "distinct (map job_id (jobs cat))" and ok: "\<forall>j \<in> set (jobs cat). job_ok j"
    using assms by (simp_all add: queue_ok_def)
  note run = recover_rows [OF ids, of boot_of boot retry_at now]
  have spent: "job_max_attempts j \<le> job_attempt_count j \<longleftrightarrow> job_attempt_count j = job_max_attempts j"
    if "j \<in> set (jobs cat)" for j
    using ok that by (auto simp: job_ok_def)
  have good: "queue_ok ?rows" using recover_evolves [OF ids run] assms by simp
  have all: "list_all2 (\<lambda>j j'. if ?ab j
       then job_claimed_by j' = None \<and> job_lease_expires_at j' = None \<and>
         job_claim_generation j' = job_claim_generation j \<and> job_attempt_count j' = job_attempt_count j \<and>
         (job_state j', job_available_at j', job_error_code j') =
           (if job_cancel_requested_at j \<noteq> None then (Cancelled, now, Some ''cancelled'')
            else if job_attempt_count j = job_max_attempts j
            then (Failed, now, Some ''recovery_retry_exhausted'')
            else (Queued, retry_at (job_attempt_count j), None))
       else j' = j) (jobs cat) ?rows"
    unfolding update_where_def list.rel_map
    by (rule list.rel_refl_strong) (simp add: recovered_row_def spent Let_def)
  have count: "count_where p (filter ?ab (jobs cat)) = count_where (\<lambda>j. ?ab j \<and> q j) (jobs cat)"
    if "\<And>j. j \<in> set (jobs cat) \<Longrightarrow> p j = q j" for p q
    unfolding count_where_def filter_filter
    by (rule arg_cong [of _ _ length], rule filter_cong) (use that in auto)
  have total_count: "requeued (recovered_counts js) + cancelled (recovered_counts js) +
      exhausted (recovered_counts js) = length js" for js
    by (induction js) (auto simp: recovered_counts_def count_where_def)
  have still: "lease_after (job_lease_expires_at j) now \<and>
      (\<exists>owner. job_claimed_by j = Some owner \<and> boot_of owner = Some boot)"
    if j: "j \<in> set ?rows" "running_row j" for j
  proof -
    have "j \<in> set (jobs cat)" "\<not> ?ab j"
      using in_update_where [OF j(1)] j(2) recovered_not_running by blast+
    moreover from this have "job_claimed_by j \<noteq> None" using ok j(2) by (auto simp: job_ok_def running_row_def)
    ultimately show ?thesis
      using j(2) by (auto simp: abandoned_def still_owned_def candidate_of_def lease_after_def split: option.splits)
  qed
  have "cancelled (recovered_counts (filter ?ab (jobs cat))) =
      count_where (\<lambda>j. ?ab j \<and> job_cancel_requested_at j \<noteq> None) (jobs cat)"
    "exhausted (recovered_counts (filter ?ab (jobs cat))) =
      count_where (\<lambda>j. ?ab j \<and> job_cancel_requested_at j = None \<and> job_attempt_count j = job_max_attempts j) (jobs cat)"
    by (simp_all add: recovered_counts_def count spent)
  then show ?thesis
    using good all still total_count [of "filter ?ab (jobs cat)"]
    by (intro exI [of _ "recovered_counts (filter ?ab (jobs cat))"] exI [of _ "cat\<lparr>jobs := ?rows\<rparr>"] conjI)
      (simp_all add: run count_where_def)
qed

text \<open>
  C27: recovery.  On a well-formed queue recovery never fails and changes nothing but jobs.
  Every running claim of another boot and every one whose lease has run out ends: cancelled when a
  cancellation was requested, failed when its attempts are spent, otherwise queued again at the time
  the retry policy gives for its attempts.  Every other job is as it was, the three counters count
  exactly these jobs, and whatever still runs belongs to the current boot under a lease still valid.
\<close>
theorem recovery_ends_abandoned_claims:
  assumes "queue_ok (jobs cat)"
  shows "\<exists>counts cat'. recover_asr_jobs boot_of boot retry_at now cat = Inr (counts, cat') \<and>
    queue_ok (jobs cat') \<and> cat' = cat\<lparr>jobs := jobs cat'\<rparr> \<and>
    list_all2 (\<lambda>j j'. if abandoned boot_of boot now j
       then job_claimed_by j' = None \<and> job_lease_expires_at j' = None \<and>
         job_claim_generation j' = job_claim_generation j \<and> job_attempt_count j' = job_attempt_count j \<and>
         (job_state j', job_available_at j', job_error_code j') =
           (if job_cancel_requested_at j \<noteq> None then (Cancelled, now, Some ''cancelled'')
            else if job_attempt_count j = job_max_attempts j
            then (Failed, now, Some ''recovery_retry_exhausted'')
            else (Queued, retry_at (job_attempt_count j), None))
       else j' = j) (jobs cat) (jobs cat') \<and>
    requeued counts + cancelled counts + exhausted counts = count_where (abandoned boot_of boot now) (jobs cat) \<and>
    cancelled counts =
      count_where (\<lambda>j. abandoned boot_of boot now j \<and> job_cancel_requested_at j \<noteq> None) (jobs cat) \<and>
    exhausted counts =
      count_where (\<lambda>j. abandoned boot_of boot now j \<and> job_cancel_requested_at j = None \<and>
        job_attempt_count j = job_max_attempts j) (jobs cat) \<and>
    (\<forall>j \<in> set (jobs cat'). running_row j \<longrightarrow> lease_after (job_lease_expires_at j) now \<and>
       (\<exists>owner. job_claimed_by j = Some owner \<and> boot_of owner = Some boot))"
  using assms by (rule recover_asr_jobs_exact)

text \<open>
  enqueueing.  When the chunk is the declared one and usable and the identifier is new, enqueueing
  a job answers with the job that already covers the same work if one is active, without inserting;
  otherwise it inserts one.  Either way exactly one active job carries the fingerprint afterwards, it
  is the one answered, and repeating any enqueue of the same work answers it again and inserts nothing.
\<close>
theorem enqueue_is_idempotent:
  assumes "queue_ok (jobs cat)" "enqueue_asr_job e cat = Inr (out, cat')"
    and "enq_fingerprint e' = enq_fingerprint e"
    and "validate_asr_input (enq_session_id e') (enq_chunk_id e') (enq_input_sha256 e') cat = InputAvailable"
  shows "enqueue_asr_job e' cat' = Inr (\<lparr>outcome_job_id = outcome_job_id out, outcome_inserted = False\<rparr>, cat') \<and>
    (\<exists>!j. j \<in> set (jobs cat') \<and> job_fingerprint j = enq_fingerprint e \<and> active_state (job_state j)) \<and>
    (\<exists>j \<in> set (jobs cat'). job_id j = outcome_job_id out \<and> job_fingerprint j = enq_fingerprint e \<and>
       active_state (job_state j)) \<and>
    (outcome_inserted out \<longleftrightarrow> (\<forall>j \<in> set (jobs cat). job_fingerprint j = enq_fingerprint e \<longrightarrow>
       \<not> active_state (job_state j))) \<and>
    cat' = cat\<lparr>jobs := jobs cat @ (if outcome_inserted out then [job_of_enqueue e Queued None None] else [])\<rparr>"
proof -
  let ?act = "\<lambda>j. job_fingerprint j = enq_fingerprint e \<and> active_state (job_state j)"
  have ins: "insert_asr_job e Queued None None cat = Inr (out, cat')"
    using assms(2) by (simp add: enqueue_asr_job_def)
  have ok': "queue_ok (jobs cat')" using insert_evolves [OF ins] assms(1) by simp
  have shape: "(find ?act (jobs cat) = None \<and> out = \<lparr>outcome_job_id = enq_id e, outcome_inserted = True\<rparr> \<and>
        cat' = cat\<lparr>jobs := jobs cat @ [job_of_enqueue e Queued None None]\<rparr>) \<or>
      (\<exists>j. find ?act (jobs cat) = Some j \<and> out = \<lparr>outcome_job_id = job_id j, outcome_inserted = False\<rparr> \<and>
        cat' = cat)"
    using ins by (auto simp: insert_asr_job_def active_asr_job_for_fingerprint_def Let_def
        split: option.splits if_splits)
  have new: "?act (job_of_enqueue e Queued None None)" "job_id (job_of_enqueue e Queued None None) = enq_id e"
    by (simp_all add: job_of_enqueue_def)
  have found: "\<exists>j \<in> set (jobs cat'). job_id j = outcome_job_id out \<and> ?act j"
    using shape new by (auto simp: find_Some_iff)
  have one: "j = k" if "j \<in> set (jobs cat')" "k \<in> set (jobs cat')" "?act j" "?act k" for j k
  proof -
    have "distinct (map job_fingerprint (filter (\<lambda>j. active_state (job_state j)) (jobs cat')))"
      using ok' by (simp add: queue_ok_def active_fingerprints_unique_def)
    from distinct_key_unique [OF this] that show ?thesis by simp
  qed
  obtain j where j: "j \<in> set (jobs cat')" "job_id j = outcome_job_id out" "?act j" using found by blast
  have "find ?act (jobs cat') = Some j"
  proof (cases "find ?act (jobs cat')")
    case None
    with j show ?thesis unfolding find_None_iff by blast
  next
    case (Some k)
    then have "k \<in> set (jobs cat')" "?act k" by (auto simp: find_Some_iff)
    with Some one [OF j(1) _ j(3)] show ?thesis by simp
  qed
  moreover have "find_chunk (enq_chunk_id e') cat' = find_chunk (enq_chunk_id e') cat"
    using shape by (auto simp: find_chunk_def)
  ultimately have "enqueue_asr_job e' cat' =
      Inr (\<lparr>outcome_job_id = outcome_job_id out, outcome_inserted = False\<rparr>, cat')"
    using assms(3,4) j(2)
    by (simp add: enqueue_asr_job_def insert_asr_job_def active_asr_job_for_fingerprint_def
        validate_asr_input_def Let_def)
  moreover have "\<exists>!j. j \<in> set (jobs cat') \<and> ?act j" using j one by blast
  moreover have "outcome_inserted out \<longleftrightarrow> (\<forall>j \<in> set (jobs cat). job_fingerprint j = enq_fingerprint e \<longrightarrow>
       \<not> active_state (job_state j))"
    using shape by (auto simp: find_None_iff find_Some_iff)
  moreover have "cat' = cat\<lparr>jobs := jobs cat @ (if outcome_inserted out then [job_of_enqueue e Queued None None] else [])\<rparr>"
    using shape by auto
  ultimately show ?thesis using found by blast
qed

lemma other_keys:
  assumes "distinct (map job_id (pre @ j0 # post))" "k \<in> set (pre @ post)"
  shows "job_id k \<noteq> job_id j0"
proof
  assume "job_id k = job_id j0"
  with assms(2) have "job_id j0 \<in> job_id ` set pre \<union> job_id ` set post" by (metis UnI1 UnI2 Un_iff image_eqI set_append)
  with assms(1) show False by auto
qed

lemma find_append: "find p (a @ b) = (case find p a of None \<Rightarrow> find p b | Some x \<Rightarrow> Some x)"
  by (induction a) auto

lemma update_key_split:
  fixes pre post :: "job_row list"
  assumes "distinct (map job_id (pre @ j0 # post))"
  shows "update_where (\<lambda>j. job_id j = job_id j0) f (pre @ j0 # post) = pre @ f j0 # post"
proof -
  have "update_where (\<lambda>j. job_id j = job_id j0) f pre = pre" "update_where (\<lambda>j. job_id j = job_id j0) f post = post"
    using other_keys [OF assms] by (auto intro!: update_where_none simp: list_ex_iff)
  moreover have "update_where p f (a @ b) = update_where p f a @ update_where p f b" for p and a b :: "job_row list"
    by (simp add: update_where_def)
  ultimately show ?thesis by simp
qed

lemma find_update_key:
  fixes rows :: "job_row list"
  assumes "distinct (map job_id rows)" "c \<in> set rows" "job_id (f c) = job_id c"
  shows "find (\<lambda>j. job_id j = job_id c) (update_where (\<lambda>j. job_id j = job_id c) f rows) = Some (f c)"
proof -
  from assms(2) obtain pre post where split: "rows = pre @ c # post" by (meson split_list)
  from assms(1) have "find (\<lambda>j. job_id j = job_id c) pre = None"
    unfolding split find_None_iff using other_keys by fastforce
  moreover have "update_where (\<lambda>j. job_id j = job_id c) f rows = pre @ f c # post"
    using update_key_split assms(1) unfolding split by blast
  ultimately show ?thesis using assms(3) by (simp add: find_append)
qed

lemma retried_unique:
  assumes "distinct (map job_id rows)" "active_fingerprints_unique rows"
    and "j0 \<in> set rows" "job_id j0 = i"
  shows "active_fingerprints_unique (update_where (\<lambda>j. job_id j = i) (retried_row now) rows) \<longleftrightarrow>
    \<not> (\<exists>k \<in> set rows. job_id k \<noteq> i \<and> job_fingerprint k = job_fingerprint j0 \<and> active_state (job_state k))"
proof -
  from assms(3) obtain pre post where split: "rows = pre @ j0 # post" by (meson split_list)
  have others: "job_id k \<noteq> job_id j0" if "k \<in> set (pre @ post)" for k
    using other_keys assms(1) that unfolding split by blast
  have upd: "update_where (\<lambda>j. job_id j = i) (retried_row now) rows = pre @ retried_row now j0 # post"
    using update_key_split assms(1,4) unfolding split by blast
  have r: "active_state (job_state (retried_row now j0))" "job_fingerprint (retried_row now j0) = job_fingerprint j0"
    by (simp_all add: retried_row_def)
  have "(\<exists>k \<in> set rows. job_id k \<noteq> i \<and> job_fingerprint k = job_fingerprint j0 \<and> active_state (job_state k)) \<longleftrightarrow>
      job_fingerprint j0 \<in> job_fingerprint ` set (filter (\<lambda>j. active_state (job_state j)) (pre @ post))"
    (is "?l \<longleftrightarrow> ?r")
  proof
    assume ?l
    then obtain k where "k \<in> set (pre @ post)" "job_fingerprint k = job_fingerprint j0" "active_state (job_state k)"
      using assms(4) unfolding split by auto
    then have "k \<in> set (filter (\<lambda>j. active_state (job_state j)) (pre @ post))"
      "job_fingerprint j0 = job_fingerprint k" by simp_all
    then show ?r by (metis image_eqI)
  next
    assume ?r
    then obtain k where k: "k \<in> set (pre @ post)" "job_fingerprint k = job_fingerprint j0" "active_state (job_state k)"
      by auto metis+
    moreover have "job_id k \<noteq> i" using others [OF k(1)] assms(4) by simp
    moreover have "k \<in> set rows" using k(1) unfolding split by auto
    ultimately show ?l by blast
  qed
  moreover have "active_fingerprints_unique (pre @ retried_row now j0 # post) \<longleftrightarrow>
      job_fingerprint j0 \<notin> job_fingerprint ` set (filter (\<lambda>j. active_state (job_state j)) (pre @ post))"
    using assms(2) r unfolding split active_fingerprints_unique_def by (auto split: if_splits)
  ultimately show ?thesis unfolding upd by simp
qed

text \<open>
  retry, on every branch.  A job that is unknown or neither blocked nor failed is refused; so is
  one whose model is not the named one, qualified at run time, or whose chunk is not available; when
  another active job already covers the same work the unique index rejects the update.  In all these
  cases the catalog is unchanged.  Otherwise the job is queued again with no attempts, no claim and a
  new generation, which is returned, so every earlier token of it is stale.
\<close>
theorem retry_exact:
  assumes "queue_ok (jobs cat)"
  shows "retry_asr_job i m now cat =
    (if \<not> (\<exists>j \<in> set (jobs cat). job_id j = i \<and> (job_state j = BlockedModel \<or> job_state j = Failed))
     then Inr (RetryInvalidTransition, cat)
     else if \<not> (\<exists>j \<in> set (jobs cat). job_id j = i \<and> job_model_matches m j \<and>
            chunk_available cat (job_chunk_id j) \<and> (\<exists>r \<in> set (installations cat). installation_ready m r))
     then Inr (RetryModelNotReady, cat)
     else if \<exists>j \<in> set (jobs cat). \<exists>k \<in> set (jobs cat). job_id j = i \<and> job_id k \<noteq> i \<and>
            job_fingerprint k = job_fingerprint j \<and> active_state (job_state k)
     then Inl ConstraintViolation
     else Inr (Retried (job_claim_generation (the (find_job i cat)) + 1),
            cat\<lparr>jobs := update_where (\<lambda>j. job_id j = i) (retried_row now) (jobs cat)\<rparr>))"
proof -
  have ids: "distinct (map job_id (jobs cat))" and act: "active_fingerprints_unique (jobs cat)"
    using assms by (simp_all add: queue_ok_def)
  show ?thesis
  proof (cases "find_job i cat")
    case None
    then have "\<not> (\<exists>j \<in> set (jobs cat). job_id j = i)" by (auto simp: find_job_def find_None_iff)
    with None show ?thesis by (auto simp: retry_asr_job_def)
  next
    case (Some j0)
    then have j0: "j0 \<in> set (jobs cat)" "job_id j0 = i" using find_job_Some by auto
    have only: "j = j0" if "j \<in> set (jobs cat)" "job_id j = i" for j
      using distinct_key_unique [OF ids that(1) j0(1)] that(2) j0(2) by simp
    let ?ready = "job_model_matches m j0 \<and> chunk_available cat (job_chunk_id j0) \<and>
      (\<exists>r \<in> set (installations cat). installation_ready m r)"
    define sel where "sel = (\<lambda>j. job_id j = i \<and> job_state j = job_state j0 \<and> job_model_matches m j \<and>
      chunk_available cat (job_chunk_id j) \<and> list_ex (installation_ready m) (installations cat))"
    define rows where "rows = update_where sel (retried_row now) (jobs cat)"
    let ?all = "update_where (\<lambda>j. job_id j = i) (retried_row now) (jobs cat)"
    let ?twin = "\<exists>k \<in> set (jobs cat). job_id k \<noteq> i \<and> job_fingerprint k = job_fingerprint j0 \<and>
      active_state (job_state k)"
    let ?can = "job_state j0 = BlockedModel \<or> job_state j0 = Failed"
    have ex: "(\<exists>j \<in> set (jobs cat). job_id j = i \<and> P j) \<longleftrightarrow> P j0" for P using j0 only by blast
    have run: "retry_asr_job i m now cat =
      (if \<not> ?can then Inr (RetryInvalidTransition, cat)
       else if \<not> active_fingerprints_unique rows then Inl ConstraintViolation
       else if count_where sel (jobs cat) \<noteq> 1 then Inr (RetryModelNotReady, cat\<lparr>jobs := rows\<rparr>)
       else case find_job i (cat\<lparr>jobs := rows\<rparr>) of None \<Rightarrow> Inl QueryReturnedNoRows
          | Some j \<Rightarrow> Inr (Retried (job_claim_generation j), cat\<lparr>jobs := rows\<rparr>))"
      unfolding retry_asr_job_def Some retried_row_eq rows_def sel_def by (simp only: option.case Let_def)
    have twin_ex: "(\<exists>j \<in> set (jobs cat). \<exists>k \<in> set (jobs cat). job_id j = i \<and> job_id k \<noteq> i \<and>
        job_fingerprint k = job_fingerprint j \<and> active_state (job_state k)) \<longleftrightarrow> ?twin"
      using j0 only by blast
    show ?thesis
    proof (cases "?ready")
      case False
      then have "\<not> sel j" if "j \<in> set (jobs cat)" for j
        using only [OF that] by (auto simp: sel_def list_ex_iff)
      then have none: "\<not> list_ex sel (jobs cat)" by (auto simp: list_ex_iff)
      have "rows = jobs cat" unfolding rows_def using none by (rule update_where_none)
      moreover have "count_where sel (jobs cat) = 0" using none by (simp only: count_where_zero_iff) simp
      ultimately have "retry_asr_job i m now cat =
          (if \<not> ?can then Inr (RetryInvalidTransition, cat) else Inr (RetryModelNotReady, cat))"
        using act unfolding run by simp
      with False show ?thesis by (simp only: ex if_False if_True simp_thms)
    next
      case True
      then have sel: "sel j \<longleftrightarrow> job_id j = i" if "j \<in> set (jobs cat)" for j
        using only [OF that] by (auto simp: sel_def list_ex_iff)
      have rows: "rows = ?all" unfolding rows_def by (rule update_where_cong) (simp add: sel)
      have one: "count_where sel (jobs cat) = 1"
      proof -
        have "count_where sel (jobs cat) = count_where (\<lambda>j. job_id j = i \<and> True) (jobs cat)"
          unfolding count_where_def by (rule arg_cong [of _ _ length], rule filter_cong) (simp_all add: sel)
        with count_key_1_iff [OF ids, of i "\<lambda>_. True"] j0 show ?thesis by auto
      qed
      have unique: "active_fingerprints_unique ?all \<longleftrightarrow> \<not> ?twin"
        by (rule retried_unique) (use ids act j0 in auto)
      have found: "find_job i (cat\<lparr>jobs := ?all\<rparr>) = Some (retried_row now j0)"
        using find_update_key [OF ids j0(1), of "retried_row now"] j0(2)
        by (simp add: find_job_def retried_row_def)
      have gen: "job_claim_generation (retried_row now j0) = job_claim_generation j0 + 1"
        by (simp add: retried_row_def)
      have "retry_asr_job i m now cat = (if \<not> ?can then Inr (RetryInvalidTransition, cat)
        else if ?twin then Inl ConstraintViolation
        else Inr (Retried (job_claim_generation j0 + 1), cat\<lparr>jobs := ?all\<rparr>))"
      proof (cases ?can)
        case can: True
        show ?thesis unfolding run rows one found unique gen option.case
          by (simp only: can if_True if_False simp_thms)
      next
        case False
        then show ?thesis unfolding run by (simp only: if_True simp_thms)
      qed
      with True show ?thesis by (simp only: ex twin_ex Some option.sel if_False if_True simp_thms)
    qed
  qed
qed


subsection \<open>A small queue\<close>

definition demo_enqueue :: "string \<Rightarrow> string \<Rightarrow> millis \<Rightarrow> EnqueueJob" where
  "demo_enqueue i f t = \<lparr>enq_id = i, enq_session_id = ''s'', enq_chunk_id = ''c'', enq_provider = ''whisper'',
     enq_model_id = ''m'', enq_manifest_version = ''1'', enq_archive_sha256 = ''h'',
     enq_required_file_hashes_json = ''{}'', enq_model_source_json = ''{}'', enq_vad_model_id = None,
     enq_vad_manifest_version = None, enq_vad_archive_sha256 = None,
     enq_vad_required_file_hashes_json = None, enq_parameters_json = ''{}'', enq_input_sha256 = ''x'',
     enq_fingerprint = f, enq_available_at = t, enq_created_at = 0\<rparr>"

definition demo_chunk :: chunk_row where
  "demo_chunk = \<lparr>chunk_id = ''c'', chunk_session_id = ''s'', chunk_source = SystemAudio, chunk_path = ''p'',
     chunk_sha256 = ''x'', chunk_byte_length = 9, chunk_session_offset_ms = 1000,
     chunk_duration_ms = Some 500, chunk_integrity = Available, chunk_last_error_code = None,
     chunk_last_error_at = None\<rparr>"

definition demo_model :: ReadyModel where
  "demo_model = \<lparr>ready_provider = ''whisper'', ready_model_id = ''m'', ready_manifest_version = ''1'',
     ready_bundle_identity = ''h'', ready_runtime_identity_json = ''r''\<rparr>"

definition demo_installation :: installation_row where
  "demo_installation = \<lparr>inst_model_id = ''m'', inst_provider = ''whisper'', inst_manifest_version = ''1'',
     inst_archive_sha256 = ''h'', inst_install_dir = ''d'', inst_state = RuntimeQualified,
     inst_installed_at = 0, inst_runtime_identity_json = Some ''r'', inst_qualified_at = Some 0,
     inst_last_error_code = None\<rparr>"

definition demo_queue :: catalog where
  "demo_queue = empty_catalog\<lparr>chunks := [demo_chunk], installations := [demo_installation],
     jobs := [job_of_enqueue (demo_enqueue ''a'' ''fa'' 5) Queued None None,
              job_of_enqueue (demo_enqueue ''b'' ''fb'' 3) Queued None None,
              job_of_enqueue (demo_enqueue ''d'' ''fd'' 3) Failed (Some ''e'') (Some ''e'')]\<rparr>"

definition demo_running :: catalog where
  "demo_running = snd (claim_asr_job ''w'' 10 40 demo_queue)"

lemma demo_queue_ok: "queue_ok (jobs demo_queue)"
  by code_simp

lemma demo_claim:
  "claim_asr_job ''w'' 10 40 demo_queue =
     (Inr (Some \<lparr>claimed_id = ''b'', claimed_attempt_count = 1, claimed_generation = 1\<rparr>), demo_running)"
proof -
  have "fst (claim_asr_job ''w'' 10 40 demo_queue) =
    Inr (Some \<lparr>claimed_id = ''b'', claimed_attempt_count = 1, claimed_generation = 1\<rparr>)" by code_simp
  then show ?thesis by (simp add: demo_running_def prod_eq_iff)
qed

lemma demo_running_ok: "queue_ok (jobs demo_running)"
  by code_simp

text \<open>The queue hands out job b, and nothing else runs afterwards.\<close>
theorem claim_is_exclusive_witness:
  "queue_ok (jobs demo_queue) \<and>
   fst (claim_asr_job ''w'' 10 40 demo_queue) =
     Inr (Some \<lparr>claimed_id = ''b'', claimed_attempt_count = 1, claimed_generation = 1\<rparr>) \<and>
   job_id ` {j \<in> set (jobs demo_running). running_row j} \<subseteq> {''b''}"
  using claim_is_exclusive [OF demo_queue_ok, where owner = "''w''" and now = 10 and lease = 40] demo_queue_ok
  unfolding demo_claim by auto

text \<open>At time 50 the lease of job b has run out; recovery queues it again.\<close>
theorem recovery_ends_abandoned_claims_witness:
  "queue_ok (jobs demo_running) \<and>
   (\<exists>counts cat'. recover_asr_jobs Some ''w'' (\<lambda>n. 60 + n) 50 demo_running = Inr (counts, cat') \<and>
      requeued counts + cancelled counts + exhausted counts = 1 \<and>
      {j \<in> set (jobs cat'). running_row j} \<subseteq> {j. lease_after (job_lease_expires_at j) 50})"
proof -
  have "count_where (abandoned Some ''w'' 50) (jobs demo_running) = 1" by code_simp
  then show ?thesis
    using recovery_ends_abandoned_claims [OF demo_running_ok, of Some "''w''" "\<lambda>n. 60 + n" 50] demo_running_ok
    by (elim exE conjE) (intro conjI exI, assumption+, auto)
qed

text \<open>Enqueueing the work of job a again answers job a.\<close>
theorem enqueue_is_idempotent_witness:
  "enqueue_asr_job (demo_enqueue ''z'' ''fa'' 9) demo_queue =
     Inr (\<lparr>outcome_job_id = ''a'', outcome_inserted = False\<rparr>, demo_queue)"
proof -
  have "map_sum id fst (enqueue_asr_job (demo_enqueue ''y'' ''fa'' 9) demo_queue) =
      Inr \<lparr>outcome_job_id = ''a'', outcome_inserted = False\<rparr>" by code_simp
  then obtain cat' where once: "enqueue_asr_job (demo_enqueue ''y'' ''fa'' 9) demo_queue =
      Inr (\<lparr>outcome_job_id = ''a'', outcome_inserted = False\<rparr>, cat')"
    by (cases "enqueue_asr_job (demo_enqueue ''y'' ''fa'' 9) demo_queue") auto
  have f: "enq_fingerprint (demo_enqueue ''z'' ''fa'' 9) = enq_fingerprint (demo_enqueue ''y'' ''fa'' 9)"
    by (simp add: demo_enqueue_def)
  have v: "validate_asr_input (enq_session_id (demo_enqueue ''z'' ''fa'' 9))
      (enq_chunk_id (demo_enqueue ''z'' ''fa'' 9)) (enq_input_sha256 (demo_enqueue ''z'' ''fa'' 9)) demo_queue =
    InputAvailable" by code_simp
  from enqueue_is_idempotent [OF demo_queue_ok once f v] show ?thesis by auto
qed

text \<open>The failed job d is queued again under its first generation.\<close>
theorem retry_exact_witness:
  "queue_ok (jobs demo_queue) \<and>
   retry_asr_job ''d'' demo_model 20 demo_queue = Inr (Retried 1,
     demo_queue\<lparr>jobs := update_where (\<lambda>j. job_id j = ''d'') (retried_row 20) (jobs demo_queue)\<rparr>)"
proof -
  have "\<exists>j \<in> set (jobs demo_queue). job_id j = ''d'' \<and> (job_state j = BlockedModel \<or> job_state j = Failed)"
    "\<exists>j \<in> set (jobs demo_queue). job_id j = ''d'' \<and> job_model_matches demo_model j \<and>
       chunk_available demo_queue (job_chunk_id j) \<and>
       (\<exists>r \<in> set (installations demo_queue). installation_ready demo_model r)"
    "\<not> (\<exists>j \<in> set (jobs demo_queue). \<exists>k \<in> set (jobs demo_queue). job_id j = ''d'' \<and> job_id k \<noteq> ''d'' \<and>
       job_fingerprint k = job_fingerprint j \<and> active_state (job_state k))"
    "job_claim_generation (the (find_job ''d'' demo_queue)) = 0"
    by code_simp+
  then show ?thesis
    using retry_exact [OF demo_queue_ok, of "''d''" demo_model 20] demo_queue_ok by simp
qed


end
