(* ===== verification/Receipt.thy ===== *)
theory Receipt
  imports Domain
begin

section \<open>Provider receipts: \<open>asr/receipt.rs\<close>\<close>

text \<open>
  A receipt states which model, runtime, parameters and input produced a transcript.  A draft of one
  is data anybody can build or parse; a receipt exists only behind the checks of this file.  The JSON
  library is the argument \<open>parse\<close>, of which the checks use only whether a text parses and whether
  the value is an object.
\<close>

datatype DataDestination = LocalDevice

datatype ProviderOutcome = OutcomeSucceeded

record ProviderReceiptDraft =
  draft_job_id :: string
  draft_chunk_id :: string
  draft_provider :: AsrProviderKind
  draft_model_id :: string
  draft_manifest_version :: string
  draft_archive_sha256 :: string
  draft_required_file_hashes_json :: string
  draft_model_source_json :: string
  draft_vad_model_id :: "string option"
  draft_vad_manifest_version :: "string option"
  draft_vad_archive_sha256 :: "string option"
  draft_vad_required_file_hashes_json :: "string option"
  draft_runtime_version :: string
  draft_runtime_build_id :: string
  draft_parameters_json :: string
  draft_input_sha256 :: string
  draft_started_at :: time
  draft_finished_at :: time
  draft_data_destination :: DataDestination
  draft_outcome :: ProviderOutcome

record ProviderReceipt =
  receipt_job_id :: string
  receipt_chunk_id :: string
  receipt_provider :: AsrProviderKind
  receipt_model_id :: string
  receipt_manifest_version :: string
  receipt_archive_sha256 :: string
  receipt_required_file_hashes_json :: string
  receipt_model_source_json :: string
  receipt_vad_model_id :: "string option"
  receipt_vad_manifest_version :: "string option"
  receipt_vad_archive_sha256 :: "string option"
  receipt_vad_required_file_hashes_json :: "string option"
  receipt_runtime_version :: string
  receipt_runtime_build_id :: string
  receipt_parameters_json :: string
  receipt_input_sha256 :: string
  receipt_started_at :: time
  receipt_finished_at :: time
  receipt_data_destination :: DataDestination
  receipt_outcome :: ProviderOutcome

datatype ProviderReceiptError =
    EmptyField string
  | InvalidSha256 string
  | InvalidJson string
  | ExpectedJsonObject string
  | PartialVadIdentity
  | FinishedBeforeStarted

definition SHA256_HEX_LENGTH :: nat where
  "SHA256_HEX_LENGTH = 64"

text \<open>What the checks see of a JSON value.\<close>

datatype json_kind = JsonObject | JsonOther

subsection \<open>The checks\<close>

definition validate_non_empty :: "string \<Rightarrow> string \<Rightarrow> ProviderReceiptError + unit" where
  "validate_non_empty field value = (if is_blank value then Inl (EmptyField field) else Inr ())"

definition validate_sha256 :: "string \<Rightarrow> string \<Rightarrow> ProviderReceiptError + unit" where
  "validate_sha256 field value =
     (if length value \<noteq> SHA256_HEX_LENGTH \<or> \<not> list_all is_ascii_hexdigit value
      then Inl (InvalidSha256 field) else Inr ())"

definition validate_json ::
    "(string \<Rightarrow> json_kind option) \<Rightarrow> string \<Rightarrow> string \<Rightarrow> ProviderReceiptError + json_kind" where
  "validate_json parse field value = ok_or (InvalidJson field) (parse value)"

definition validate_json_object ::
    "(string \<Rightarrow> json_kind option) \<Rightarrow> string \<Rightarrow> string \<Rightarrow> ProviderReceiptError + unit" where
  "validate_json_object parse field value =
     and_then (validate_json parse field value)
       (\<lambda>v. if v \<noteq> JsonObject then Inl (ExpectedJsonObject field) else Inr ())"

definition validate_vad_identity ::
    "(string \<Rightarrow> json_kind option) \<Rightarrow> ProviderReceiptDraft \<Rightarrow> ProviderReceiptError + unit" where
  "validate_vad_identity parse d =
     (case (draft_vad_model_id d, draft_vad_manifest_version d, draft_vad_archive_sha256 d,
            draft_vad_required_file_hashes_json d) of
        (None, None, None, None) \<Rightarrow> Inr ()
      | (Some model, Some manifest, Some hash, Some file_hashes) \<Rightarrow>
          and_then (validate_non_empty ''vad_model_id'' model) (\<lambda>_.
          and_then (validate_non_empty ''vad_manifest_version'' manifest) (\<lambda>_.
          and_then (validate_sha256 ''vad_archive_sha256'' hash) (\<lambda>_.
          and_then (validate_json parse ''vad_required_file_hashes_json'' file_hashes) (\<lambda>_. Inr ()))))
      | _ \<Rightarrow> Inl PartialVadIdentity)"

fun validate_non_empty_all :: "(string \<times> string) list \<Rightarrow> ProviderReceiptError + unit" where
  "validate_non_empty_all [] = Inr ()"
| "validate_non_empty_all ((field, value) # rest) =
     and_then (validate_non_empty field value) (\<lambda>_. validate_non_empty_all rest)"

definition validate_draft ::
    "(string \<Rightarrow> json_kind option) \<Rightarrow> ProviderReceiptDraft \<Rightarrow> ProviderReceiptError + unit" where
  "validate_draft parse d =
     and_then (validate_non_empty_all [(''job_id'', draft_job_id d), (''chunk_id'', draft_chunk_id d),
        (''model_id'', draft_model_id d), (''manifest_version'', draft_manifest_version d),
        (''runtime_version'', draft_runtime_version d), (''runtime_build_id'', draft_runtime_build_id d)]) (\<lambda>_.
     and_then (validate_sha256 ''archive_sha256'' (draft_archive_sha256 d)) (\<lambda>_.
     and_then (validate_sha256 ''input_sha256'' (draft_input_sha256 d)) (\<lambda>_.
     and_then (validate_json parse ''required_file_hashes_json'' (draft_required_file_hashes_json d)) (\<lambda>_.
     and_then (validate_json_object parse ''model_source_json'' (draft_model_source_json d)) (\<lambda>_.
     and_then (validate_json parse ''parameters_json'' (draft_parameters_json d)) (\<lambda>_.
     and_then (validate_vad_identity parse d) (\<lambda>_.
     if draft_finished_at d < draft_started_at d then Inl FinishedBeforeStarted else Inr ())))))))"

definition receipt_of_draft :: "ProviderReceiptDraft \<Rightarrow> ProviderReceipt" where
  "receipt_of_draft d = \<lparr>
     receipt_job_id = draft_job_id d, receipt_chunk_id = draft_chunk_id d,
     receipt_provider = draft_provider d, receipt_model_id = draft_model_id d,
     receipt_manifest_version = draft_manifest_version d,
     receipt_archive_sha256 = draft_archive_sha256 d,
     receipt_required_file_hashes_json = draft_required_file_hashes_json d,
     receipt_model_source_json = draft_model_source_json d,
     receipt_vad_model_id = draft_vad_model_id d,
     receipt_vad_manifest_version = draft_vad_manifest_version d,
     receipt_vad_archive_sha256 = draft_vad_archive_sha256 d,
     receipt_vad_required_file_hashes_json = draft_vad_required_file_hashes_json d,
     receipt_runtime_version = draft_runtime_version d,
     receipt_runtime_build_id = draft_runtime_build_id d,
     receipt_parameters_json = draft_parameters_json d,
     receipt_input_sha256 = draft_input_sha256 d, receipt_started_at = draft_started_at d,
     receipt_finished_at = draft_finished_at d,
     receipt_data_destination = draft_data_destination d,
     receipt_outcome = draft_outcome d\<rparr>"

definition try_from_draft ::
    "(string \<Rightarrow> json_kind option) \<Rightarrow> ProviderReceiptDraft \<Rightarrow> ProviderReceiptError + ProviderReceipt" where
  "try_from_draft parse d = and_then (validate_draft parse d) (\<lambda>_. Inr (receipt_of_draft d))"

subsection \<open>What a receipt guarantees\<close>

definition hex_digest :: "string \<Rightarrow> bool" where
  "hex_digest s \<longleftrightarrow> length s = 64 \<and> list_all is_ascii_hexdigit s"

definition vad_identity_sound :: "(string \<Rightarrow> json_kind option) \<Rightarrow> ProviderReceipt \<Rightarrow> bool" where
  "vad_identity_sound parse r \<longleftrightarrow>
     (receipt_vad_model_id r = None \<and> receipt_vad_manifest_version r = None \<and>
      receipt_vad_archive_sha256 r = None \<and> receipt_vad_required_file_hashes_json r = None) \<or>
     (\<exists>model manifest hash hashes. receipt_vad_model_id r = Some model \<and>
        receipt_vad_manifest_version r = Some manifest \<and> receipt_vad_archive_sha256 r = Some hash \<and>
        receipt_vad_required_file_hashes_json r = Some hashes \<and> \<not> is_blank model \<and>
        \<not> is_blank manifest \<and> hex_digest hash \<and> parse hashes \<noteq> None)"

definition receipt_sound :: "(string \<Rightarrow> json_kind option) \<Rightarrow> ProviderReceipt \<Rightarrow> bool" where
  "receipt_sound parse r \<longleftrightarrow>
     \<not> is_blank (receipt_job_id r) \<and> \<not> is_blank (receipt_chunk_id r) \<and>
     \<not> is_blank (receipt_model_id r) \<and> \<not> is_blank (receipt_manifest_version r) \<and>
     \<not> is_blank (receipt_runtime_version r) \<and> \<not> is_blank (receipt_runtime_build_id r) \<and>
     hex_digest (receipt_archive_sha256 r) \<and> hex_digest (receipt_input_sha256 r) \<and>
     parse (receipt_required_file_hashes_json r) \<noteq> None \<and>
     parse (receipt_model_source_json r) = Some JsonObject \<and>
     parse (receipt_parameters_json r) \<noteq> None \<and> vad_identity_sound parse r \<and>
     receipt_started_at r \<le> receipt_finished_at r"

lemma validate_non_empty_ok [result_simps]: "validate_non_empty f v = Inr u \<longleftrightarrow> \<not> is_blank v"
  by (simp add: validate_non_empty_def)

lemma validate_sha256_ok [result_simps]: "validate_sha256 f v = Inr u \<longleftrightarrow> hex_digest v"
  by (auto simp: validate_sha256_def hex_digest_def SHA256_HEX_LENGTH_def)

lemma validate_json_ok [result_simps]: "validate_json parse f v = Inr k \<longleftrightarrow> parse v = Some k"
  by (simp add: validate_json_def result_simps)

lemma validate_json_object_ok [result_simps]:
  "validate_json_object parse f v = Inr u \<longleftrightarrow> parse v = Some JsonObject"
  by (auto simp: validate_json_object_def result_simps)

lemma validate_vad_identity_ok:
  "validate_vad_identity parse d = Inr u \<longleftrightarrow> vad_identity_sound parse (receipt_of_draft d)"
  by (auto simp: validate_vad_identity_def vad_identity_sound_def receipt_of_draft_def result_simps
      split: option.splits)

lemma receipt_of_draft_sel:
  "receipt_job_id (receipt_of_draft d) = draft_job_id d"
  "receipt_chunk_id (receipt_of_draft d) = draft_chunk_id d"
  "receipt_model_id (receipt_of_draft d) = draft_model_id d"
  "receipt_manifest_version (receipt_of_draft d) = draft_manifest_version d"
  "receipt_archive_sha256 (receipt_of_draft d) = draft_archive_sha256 d"
  "receipt_required_file_hashes_json (receipt_of_draft d) = draft_required_file_hashes_json d"
  "receipt_model_source_json (receipt_of_draft d) = draft_model_source_json d"
  "receipt_runtime_version (receipt_of_draft d) = draft_runtime_version d"
  "receipt_runtime_build_id (receipt_of_draft d) = draft_runtime_build_id d"
  "receipt_parameters_json (receipt_of_draft d) = draft_parameters_json d"
  "receipt_input_sha256 (receipt_of_draft d) = draft_input_sha256 d"
  "receipt_started_at (receipt_of_draft d) = draft_started_at d"
  "receipt_finished_at (receipt_of_draft d) = draft_finished_at d"
  by (simp_all add: receipt_of_draft_def)


end
