(* ===== verification/Publication.thy ===== *)
theory Publication
  imports Receipt Job_Store
begin

section \<open>Publishing a transcript: \<open>catalog/publication.rs\<close>\<close>

text \<open>
  One immediate transaction that turns the result of a claimed job into a receipt, a numbered
  revision, its segments and their search rows, and ends the job.  An error rolls everything back,
  so a failed publication has no catalog to return.  The two generated identifiers are arguments;
  the round trip of the receipt through \<open>serde_json\<close> is the copy of its fields.  A foreign key
  cannot fire: the job refers to a session and a chunk by its own.
\<close>

subsection \<open>Data\<close>

record ClaimToken =
  token_job_id :: string
  token_claimed_by :: string
  token_claim_generation :: int

datatype RuntimeOwnershipError = AlreadyOwned | CatalogMismatch | UnsafePath | OwnershipIo string

datatype PublicationError =
    PubOwnership RuntimeOwnershipError
  | PubCancelled
  | PubOwnershipLost
  | PubInvalidResult string
  | PubCatalog db_error

record ReceiptRow =
  rr_job_id :: string
  rr_chunk_id :: string
  rr_provider :: AsrProviderKind
  rr_model_id :: string
  rr_manifest_version :: string
  rr_archive_sha256 :: string
  rr_required_file_hashes_json :: string
  rr_model_source_json :: string
  rr_vad_model_id :: "string option"
  rr_vad_manifest_version :: "string option"
  rr_vad_archive_sha256 :: "string option"
  rr_vad_required_file_hashes_json :: "string option"
  rr_runtime_version :: string
  rr_runtime_build_id :: string
  rr_parameters_json :: string
  rr_input_sha256 :: string
  rr_started_at :: time
  rr_finished_at :: time

record PublicationContext =
  ctx_session_id :: string
  ctx_chunk_id :: string
  ctx_chunk_offset_ms :: i64
  ctx_chunk_duration_ms :: "i64 option"
  ctx_chunk_source :: AudioSource
  ctx_provider :: string
  ctx_model_id :: string
  ctx_manifest_version :: string
  ctx_archive_sha256 :: string
  ctx_required_file_hashes_json :: string
  ctx_model_source_json :: string
  ctx_vad_model_id :: "string option"
  ctx_vad_manifest_version :: "string option"
  ctx_vad_archive_sha256 :: "string option"
  ctx_vad_required_file_hashes_json :: "string option"
  ctx_parameters_json :: string
  ctx_input_sha256 :: string

definition receipt_row_of :: "ProviderReceipt \<Rightarrow> ReceiptRow" where
  "receipt_row_of r = \<lparr>
     rr_job_id = receipt_job_id r, rr_chunk_id = receipt_chunk_id r,
     rr_provider = receipt_provider r, rr_model_id = receipt_model_id r,
     rr_manifest_version = receipt_manifest_version r,
     rr_archive_sha256 = receipt_archive_sha256 r,
     rr_required_file_hashes_json = receipt_required_file_hashes_json r,
     rr_model_source_json = receipt_model_source_json r, rr_vad_model_id = receipt_vad_model_id r,
     rr_vad_manifest_version = receipt_vad_manifest_version r,
     rr_vad_archive_sha256 = receipt_vad_archive_sha256 r,
     rr_vad_required_file_hashes_json = receipt_vad_required_file_hashes_json r,
     rr_runtime_version = receipt_runtime_version r,
     rr_runtime_build_id = receipt_runtime_build_id r,
     rr_parameters_json = receipt_parameters_json r, rr_input_sha256 = receipt_input_sha256 r,
     rr_started_at = receipt_started_at r, rr_finished_at = receipt_finished_at r\<rparr>"

definition stored_receipt :: "string \<Rightarrow> ReceiptRow \<Rightarrow> receipt_row" where
  "stored_receipt i r = \<lparr>rcpt_id = i,
     rcpt_job_id = rr_job_id r, rcpt_chunk_id = rr_chunk_id r,
     rcpt_provider = provider_name (rr_provider r), rcpt_model_id = rr_model_id r,
     rcpt_manifest_version = rr_manifest_version r, rcpt_archive_sha256 = rr_archive_sha256 r,
     rcpt_required_file_hashes_json = rr_required_file_hashes_json r,
     rcpt_model_source_json = rr_model_source_json r, rcpt_vad_model_id = rr_vad_model_id r,
     rcpt_vad_manifest_version = rr_vad_manifest_version r,
     rcpt_vad_archive_sha256 = rr_vad_archive_sha256 r,
     rcpt_vad_required_file_hashes_json = rr_vad_required_file_hashes_json r,
     rcpt_runtime_version = rr_runtime_version r, rcpt_runtime_build_id = rr_runtime_build_id r,
     rcpt_parameters_json = rr_parameters_json r, rcpt_input_sha256 = rr_input_sha256 r,
     rcpt_started_at = canonical_time (rr_started_at r),
     rcpt_finished_at = canonical_time (rr_finished_at r)\<rparr>"

subsection \<open>Validation\<close>

definition invalid_segment :: "TranscriptSegmentPublication \<Rightarrow> bool" where
  "invalid_segment s \<longleftrightarrow> is_blank (pub_segment_id s) \<or> is_blank (pub_text s) \<or> pub_chunk_start_ms s < 0 \<or>
     pub_chunk_end_ms s \<le> pub_chunk_start_ms s"

definition validate_segments :: "TranscriptSegmentPublication list \<Rightarrow> PublicationError + unit" where
  "validate_segments segs =
     (if list_ex invalid_segment segs then Inl (PubInvalidResult ''invalid segment'') else Inr ())"

definition validate_segment_bounds ::
    "TranscriptSegmentPublication list \<Rightarrow> i64 option \<Rightarrow> PublicationError + unit" where
  "validate_segment_bounds segs duration =
     (if (case duration of None \<Rightarrow> False | Some d \<Rightarrow> list_ex (\<lambda>s. d < pub_chunk_end_ms s) segs)
      then Inl (PubInvalidResult ''segment exceeds chunk'') else Inr ())"

definition validate_receipt :: "ReceiptRow \<Rightarrow> PublicationContext \<Rightarrow> PublicationError + unit" where
  "validate_receipt r c =
     (if rr_chunk_id r \<noteq> ctx_chunk_id c \<or> provider_name (rr_provider r) \<noteq> ctx_provider c \<or>
         rr_model_id r \<noteq> ctx_model_id c \<or> rr_manifest_version r \<noteq> ctx_manifest_version c \<or>
         rr_archive_sha256 r \<noteq> ctx_archive_sha256 c \<or>
         rr_required_file_hashes_json r \<noteq> ctx_required_file_hashes_json c \<or>
         rr_model_source_json r \<noteq> ctx_model_source_json c \<or>
         rr_vad_model_id r \<noteq> ctx_vad_model_id c \<or>
         rr_vad_manifest_version r \<noteq> ctx_vad_manifest_version c \<or>
         rr_vad_archive_sha256 r \<noteq> ctx_vad_archive_sha256 c \<or>
         rr_vad_required_file_hashes_json r \<noteq> ctx_vad_required_file_hashes_json c \<or>
         rr_parameters_json r \<noteq> ctx_parameters_json c \<or> rr_input_sha256 r \<noteq> ctx_input_sha256 c
      then Inl (PubInvalidResult ''receipt identity mismatch'') else Inr ())"

subsection \<open>The claim behind the result\<close>

definition publishable :: "ClaimToken \<Rightarrow> millis \<Rightarrow> job_row \<Rightarrow> bool" where
  "publishable t now j \<longleftrightarrow>
     claimed_as (token_job_id t) (token_claimed_by t) (token_claim_generation t) j \<and>
     job_state j = Transcribing \<and> job_cancel_requested_at j = None \<and>
     lease_after (job_lease_expires_at j) now"

definition context_of :: "job_row \<Rightarrow> chunk_row \<Rightarrow> PublicationContext" where
  "context_of j c = \<lparr>ctx_session_id = job_session_id j, ctx_chunk_id = job_chunk_id j,
     ctx_chunk_offset_ms = chunk_session_offset_ms c, ctx_chunk_duration_ms = chunk_duration_ms c,
     ctx_chunk_source = chunk_source c,
     ctx_provider = job_provider j, ctx_model_id = job_model_id j,
     ctx_manifest_version = job_manifest_version j, ctx_archive_sha256 = job_archive_sha256 j,
     ctx_required_file_hashes_json = job_required_file_hashes_json j,
     ctx_model_source_json = job_model_source_json j, ctx_vad_model_id = job_vad_model_id j,
     ctx_vad_manifest_version = job_vad_manifest_version j,
     ctx_vad_archive_sha256 = job_vad_archive_sha256 j,
     ctx_vad_required_file_hashes_json = job_vad_required_file_hashes_json j,
     ctx_parameters_json = job_parameters_json j, ctx_input_sha256 = job_input_sha256 j\<rparr>"

definition publication_context ::
    "ClaimToken \<Rightarrow> millis \<Rightarrow> catalog \<Rightarrow> PublicationError + PublicationContext" where
  "publication_context t now cat =
     (case find (\<lambda>j. publishable t now j \<and> find_chunk (job_chunk_id j) cat \<noteq> None) (jobs cat) of
        Some j \<Rightarrow> Inr (context_of j (the (find_chunk (job_chunk_id j) cat)))
      | None \<Rightarrow>
          if list_ex (\<lambda>j.
               claimed_as (token_job_id t) (token_claimed_by t) (token_claim_generation t) j \<and>
               job_state j = Transcribing \<and> job_cancel_requested_at j \<noteq> None \<and>
               lease_after (job_lease_expires_at j) now) (jobs cat)
          then Inl PubCancelled else Inl PubOwnershipLost)"

definition mark_job_succeeded :: "ClaimToken \<Rightarrow> millis \<Rightarrow> catalog \<Rightarrow> PublicationError + catalog" where
  "mark_job_succeeded t now cat =
     (if count_where (publishable t now) (jobs cat) \<noteq> 1 then Inl PubOwnershipLost
      else Inr (cat\<lparr>jobs := update_where (publishable t now) (\<lambda>j. j\<lparr>job_state := Succeeded,
        job_claimed_by := None, job_lease_expires_at := None, job_error_code := None,
        job_error_summary := None, job_updated_at := now\<rparr>) (jobs cat)\<rparr>))"

subsection \<open>The transaction\<close>

text \<open>The segments in order; the primary key of a segment is its identifier within the revision.\<close>

fun publish_segments ::
    "PublicationContext \<Rightarrow> string \<Rightarrow> TranscriptSegmentPublication list \<Rightarrow> catalog \<Rightarrow>
       PublicationError + TranscriptSegment list \<times> catalog" where
  "publish_segments c rid [] cat = Inr ([], cat)"
| "publish_segments c rid (s # segs) cat =
     (if pub_source s \<noteq> ctx_chunk_source c then Inl (PubInvalidResult ''segment source mismatch'')
      else and_then (ok_or (PubInvalidResult ''segment timestamp overflow'')
               (checked_add_i64 (ctx_chunk_offset_ms c) (pub_chunk_start_ms s))) (\<lambda>start.
           and_then (ok_or (PubInvalidResult ''segment timestamp overflow'')
               (checked_add_i64 (ctx_chunk_offset_ms c) (pub_chunk_end_ms s))) (\<lambda>stop.
           if list_ex (\<lambda>r. seg_id r = pub_segment_id s \<and> seg_revision_id r = rid) (segments cat)
           then Inl (PubCatalog ConstraintViolation)
           else and_then (publish_segments c rid segs
                  (cat\<lparr>segments := segments cat @ [\<lparr>seg_id = pub_segment_id s, seg_revision_id = rid,
                         seg_start_ms = start, seg_end_ms = stop, seg_source = pub_source s,
                         seg_text = pub_text s, seg_chunk_id = Some (ctx_chunk_id c),
                         seg_chunk_start_ms = Some (pub_chunk_start_ms s),
                         seg_chunk_end_ms = Some (pub_chunk_end_ms s),
                         seg_session_start_ms = Some start, seg_session_end_ms = Some stop\<rparr>],
                       segment_search := segment_search cat @ [(pub_segment_id s, rid, pub_text s)]\<rparr>))
                (\<lambda>(published, cat'). Inr (\<lparr>segment_id = pub_segment_id s, segment_start_ms = start,
                   segment_end_ms = stop, segment_source = pub_source s, segment_text = pub_text s,
                   segment_chunk_id = Some (ctx_chunk_id c),
                   segment_chunk_start_ms = Some (pub_chunk_start_ms s),
                   segment_chunk_end_ms = Some (pub_chunk_end_ms s)\<rparr> # published, cat')))))"

text \<open>\<open>SELECT COALESCE(MAX(number), 0) + 1\<close>.\<close>

definition next_number :: "string \<Rightarrow> catalog \<Rightarrow> int" where
  "next_number session cat =
     (let numbers = map rev_number (filter (\<lambda>r. rev_session_id r = session) (revisions cat))
      in (if numbers = [] then 0 else Max (set numbers)) + 1)"

definition insert_receipt :: "string \<Rightarrow> ReceiptRow \<Rightarrow> catalog \<Rightarrow> PublicationError + catalog" where
  "insert_receipt i r cat =
     (if list_ex (\<lambda>x. rcpt_id x = i \<or> rcpt_job_id x = rr_job_id r) (receipts cat)
      then Inl (PubCatalog ConstraintViolation)
      else Inr (cat\<lparr>receipts := receipts cat @ [stored_receipt i r]\<rparr>))"

definition insert_revision :: "revision_row \<Rightarrow> catalog \<Rightarrow> PublicationError + catalog" where
  "insert_revision v cat =
     (if list_ex (\<lambda>x. rev_id x = rev_id v \<or>
          rev_session_id x = rev_session_id v \<and> rev_number x = rev_number v) (revisions cat)
      then Inl (PubCatalog ConstraintViolation)
      else Inr (cat\<lparr>revisions := revisions cat @ [v]\<rparr>))"

definition link_receipt :: "string \<Rightarrow> string \<Rightarrow> catalog \<Rightarrow> PublicationError + catalog" where
  "link_receipt rid rcpt cat =
     (if list_ex (\<lambda>(v, r). r = rcpt) (revision_receipts cat)
      then Inl (PubCatalog ConstraintViolation)
      else Inr (cat\<lparr>revision_receipts := revision_receipts cat @ [(rid, rcpt)]\<rparr>))"

definition publish_revision ::
    "string \<Rightarrow> string \<Rightarrow> PublicationContext \<Rightarrow> ClaimToken \<Rightarrow> TranscriptSegmentPublication list \<Rightarrow>
       time \<Rightarrow> catalog \<Rightarrow> PublicationError + TranscriptRevision option \<times> catalog" where
  "publish_revision receipt_id rid c t segs now cat =
     (let number = next_number (ctx_session_id c) cat in
      and_then (insert_revision \<lparr>rev_id = rid, rev_session_id = ctx_session_id c, rev_number = number,
          rev_provider = ctx_provider c, rev_created_at = 1000000 * canonical_time now,
          rev_provenance = VerifiedLocalAsr\<rparr> cat) (\<lambda>cat.
      and_then (link_receipt rid receipt_id cat) (\<lambda>cat.
      and_then (publish_segments c rid segs cat) (\<lambda>(published, cat).
      and_then (mark_job_succeeded t (canonical_time now) cat) (\<lambda>cat.
      Inr (Some \<lparr>revision_id = rid, revision_session_id = ctx_session_id c, revision_number = number,
        revision_provider = ctx_provider c, revision_created_at = now,
        revision_segments = published\<rparr>, cat))))))"

definition publish_asr_result ::
    "string \<Rightarrow> string \<Rightarrow> ClaimToken \<Rightarrow> ProviderReceipt \<Rightarrow> TranscriptSegmentPublication list \<Rightarrow>
       time \<Rightarrow> catalog \<Rightarrow> PublicationError + TranscriptRevision option \<times> catalog" where
  "publish_asr_result receipt_id rid t receipt segs now cat =
     and_then (validate_segments segs) (\<lambda>_.
     let r = receipt_row_of receipt in
     if rr_job_id r \<noteq> token_job_id t then Inl (PubInvalidResult ''receipt job mismatch'')
     else and_then (publication_context t (canonical_time now) cat) (\<lambda>c.
          and_then (validate_receipt r c) (\<lambda>_.
          and_then (validate_segment_bounds segs (ctx_chunk_duration_ms c)) (\<lambda>_.
          and_then (insert_receipt receipt_id r cat) (\<lambda>cat.
          if segs = []
          then and_then (mark_job_succeeded t (canonical_time now) cat) (\<lambda>cat. Inr (None, cat))
          else publish_revision receipt_id rid c t segs now cat)))))"

subsection \<open>The transaction as one condition and one effect\<close>

definition placeable :: "PublicationContext \<Rightarrow> TranscriptSegmentPublication \<Rightarrow> bool" where
  "placeable c s \<longleftrightarrow> pub_source s = ctx_chunk_source c \<and>
     in_i64 (ctx_chunk_offset_ms c + pub_chunk_start_ms s) \<and>
     in_i64 (ctx_chunk_offset_ms c + pub_chunk_end_ms s)"

definition placed_row :: "PublicationContext \<Rightarrow> string \<Rightarrow> TranscriptSegmentPublication \<Rightarrow> segment_row" where
  "placed_row c rid s = \<lparr>seg_id = pub_segment_id s, seg_revision_id = rid,
     seg_start_ms = ctx_chunk_offset_ms c + pub_chunk_start_ms s,
     seg_end_ms = ctx_chunk_offset_ms c + pub_chunk_end_ms s, seg_source = pub_source s,
     seg_text = pub_text s, seg_chunk_id = Some (ctx_chunk_id c),
     seg_chunk_start_ms = Some (pub_chunk_start_ms s), seg_chunk_end_ms = Some (pub_chunk_end_ms s),
     seg_session_start_ms = Some (ctx_chunk_offset_ms c + pub_chunk_start_ms s),
     seg_session_end_ms = Some (ctx_chunk_offset_ms c + pub_chunk_end_ms s)\<rparr>"

definition placed_segment :: "PublicationContext \<Rightarrow> TranscriptSegmentPublication \<Rightarrow> TranscriptSegment" where
  "placed_segment c s = \<lparr>segment_id = pub_segment_id s,
     segment_start_ms = ctx_chunk_offset_ms c + pub_chunk_start_ms s,
     segment_end_ms = ctx_chunk_offset_ms c + pub_chunk_end_ms s, segment_source = pub_source s,
     segment_text = pub_text s, segment_chunk_id = Some (ctx_chunk_id c),
     segment_chunk_start_ms = Some (pub_chunk_start_ms s),
     segment_chunk_end_ms = Some (pub_chunk_end_ms s)\<rparr>"

definition with_segments ::
    "PublicationContext \<Rightarrow> string \<Rightarrow> TranscriptSegmentPublication list \<Rightarrow> catalog \<Rightarrow> catalog" where
  "with_segments c rid segs cat = cat\<lparr>segments := segments cat @ map (placed_row c rid) segs,
     segment_search := segment_search cat @ map (\<lambda>s. (pub_segment_id s, rid, pub_text s)) segs\<rparr>"

definition used_segment :: "catalog \<Rightarrow> string \<Rightarrow> string \<Rightarrow> bool" where
  "used_segment cat rid i \<longleftrightarrow> list_ex (\<lambda>r. seg_id r = i \<and> seg_revision_id r = rid) (segments cat)"

lemma used_with_segments:
  "used_segment (with_segments c rid [s] cat) rid i \<longleftrightarrow> used_segment cat rid i \<or> i = pub_segment_id s"
  by (auto simp: used_segment_def with_segments_def placed_row_def)

lemma with_segments_Cons:
  "with_segments c rid segs (with_segments c rid [s] cat) = with_segments c rid (s # segs) cat"
  by (simp add: with_segments_def)

lemma publish_segments_Cons:
  "publish_segments c rid (s # segs) cat = Inr (published, cat') \<longleftrightarrow>
     placeable c s \<and> \<not> used_segment cat rid (pub_segment_id s) \<and>
     (\<exists>ps. publish_segments c rid segs (with_segments c rid [s] cat) = Inr (ps, cat') \<and>
        published = placed_segment c s # ps)"
proof -
  have one: "with_segments c rid [s] cat = cat\<lparr>segments := segments cat @ [\<lparr>seg_id = pub_segment_id s,
      seg_revision_id = rid, seg_start_ms = ctx_chunk_offset_ms c + pub_chunk_start_ms s,
      seg_end_ms = ctx_chunk_offset_ms c + pub_chunk_end_ms s, seg_source = pub_source s,
      seg_text = pub_text s, seg_chunk_id = Some (ctx_chunk_id c),
      seg_chunk_start_ms = Some (pub_chunk_start_ms s),
      seg_chunk_end_ms = Some (pub_chunk_end_ms s),
      seg_session_start_ms = Some (ctx_chunk_offset_ms c + pub_chunk_start_ms s),
      seg_session_end_ms = Some (ctx_chunk_offset_ms c + pub_chunk_end_ms s)\<rparr>],
      segment_search := segment_search cat @ [(pub_segment_id s, rid, pub_text s)]\<rparr>"
    by (simp add: with_segments_def placed_row_def)
  show ?thesis
    unfolding publish_segments.simps one
    by (auto simp: placeable_def used_segment_def placed_segment_def checked_add_i64_def result_simps
        split: if_splits)
qed

lemma publish_segments_exact:
  "publish_segments c rid segs cat = Inr (published, cat') \<longleftrightarrow>
     list_all (placeable c) segs \<and> distinct (map pub_segment_id segs) \<and>
     list_all (\<lambda>s. \<not> used_segment cat rid (pub_segment_id s)) segs \<and>
     published = map (placed_segment c) segs \<and> cat' = with_segments c rid segs cat"
proof (induction segs arbitrary: cat published)
  case Nil
  then show ?case by (auto simp: with_segments_def)
next
  case (Cons s segs)
  show ?case
    unfolding publish_segments_Cons Cons.IH used_with_segments with_segments_Cons
    by (auto simp: list_all_iff image_iff)
qed

definition succeeded_row :: "millis \<Rightarrow> job_row \<Rightarrow> job_row" where
  "succeeded_row now j = j\<lparr>job_state := Succeeded, job_claimed_by := None,
     job_lease_expires_at := None, job_error_code := None, job_error_summary := None,
     job_updated_at := now\<rparr>"

lemma succeeded_row_eq: "(\<lambda>j. j\<lparr>job_state := Succeeded, job_claimed_by := None,
     job_lease_expires_at := None, job_error_code := None, job_error_summary := None,
     job_updated_at := now\<rparr>) = succeeded_row now"
  by (simp add: succeeded_row_def fun_eq_iff)

text \<open>What a publication demands of the catalog and of its arguments.\<close>

definition publication_ready ::
    "string \<Rightarrow> string \<Rightarrow> ClaimToken \<Rightarrow> ProviderReceipt \<Rightarrow> TranscriptSegmentPublication list \<Rightarrow> time \<Rightarrow>
       catalog \<Rightarrow> job_row \<Rightarrow> chunk_row \<Rightarrow> bool" where
  "publication_ready receipt_id rid t receipt segs now cat j c \<longleftrightarrow>
     j \<in> set (jobs cat) \<and> publishable t (canonical_time now) j \<and>
     find_chunk (job_chunk_id j) cat = Some c \<and> receipt_job_id receipt = job_id j \<and>
     validate_receipt (receipt_row_of receipt) (context_of j c) = Inr () \<and>
     list_all (\<lambda>s. \<not> invalid_segment s \<and>
        (case chunk_duration_ms c of None \<Rightarrow> True | Some d \<Rightarrow> pub_chunk_end_ms s \<le> d)) segs \<and>
     \<not> list_ex (\<lambda>x. rcpt_id x = receipt_id \<or> rcpt_job_id x = job_id j) (receipts cat) \<and>
     (segs = [] \<or> list_all (placeable (context_of j c)) segs \<and> distinct (map pub_segment_id segs) \<and>
        list_all (\<lambda>s. \<not> used_segment cat rid (pub_segment_id s)) segs \<and>
        \<not> list_ex (\<lambda>x. rev_id x = rid) (revisions cat) \<and>
        \<not> list_ex (\<lambda>(v, r). r = receipt_id) (revision_receipts cat))"

definition finish_job :: "ClaimToken \<Rightarrow> millis \<Rightarrow> catalog \<Rightarrow> catalog" where
  "finish_job t now cat = cat\<lparr>jobs := update_where (publishable t now) (succeeded_row now) (jobs cat)\<rparr>"

definition published_catalog ::
    "string \<Rightarrow> string \<Rightarrow> ClaimToken \<Rightarrow> ProviderReceipt \<Rightarrow> TranscriptSegmentPublication list \<Rightarrow> time \<Rightarrow>
       catalog \<Rightarrow> job_row \<Rightarrow> chunk_row \<Rightarrow> catalog" where
  "published_catalog receipt_id rid t receipt segs now cat j c =
     finish_job t (canonical_time now)
       (let stored = cat\<lparr>receipts := receipts cat @ [stored_receipt receipt_id (receipt_row_of receipt)]\<rparr>
        in if segs = [] then stored
           else with_segments (context_of j c) rid segs (stored\<lparr>
             revisions := revisions cat @ [\<lparr>rev_id = rid, rev_session_id = job_session_id j,
               rev_number = next_number (job_session_id j) cat, rev_provider = job_provider j,
               rev_created_at = 1000000 * canonical_time now, rev_provenance = VerifiedLocalAsr\<rparr>],
             revision_receipts := revision_receipts cat @ [(rid, receipt_id)]\<rparr>))"

definition published_result ::
    "string \<Rightarrow> TranscriptSegmentPublication list \<Rightarrow> time \<Rightarrow> catalog \<Rightarrow> job_row \<Rightarrow> chunk_row \<Rightarrow>
       TranscriptRevision option" where
  "published_result rid segs now cat j c =
     (if segs = [] then None
      else Some \<lparr>revision_id = rid, revision_session_id = job_session_id j,
        revision_number = next_number (job_session_id j) cat, revision_provider = job_provider j,
        revision_created_at = now, revision_segments = map (placed_segment (context_of j c)) segs\<rparr>)"

lemma publishable_unique:
  assumes "distinct (map job_id rows)" "j \<in> set rows" "publishable t now j" "k \<in> set rows" "publishable t now k"
  shows "k = j"
  using distinct_key_unique [OF assms(1,4,2)] assms(3,5) by (simp add: publishable_def claimed_as_def)

lemma publishable_count:
  assumes "distinct (map job_id rows)"
  shows "count_where (publishable t now) rows = 1 \<longleftrightarrow> (\<exists>j \<in> set rows. publishable t now j)"
proof -
  have key: "publishable t now j \<Longrightarrow> job_id j = token_job_id t" for j
    by (simp add: publishable_def claimed_as_def)
  have "count_where (publishable t now) rows = count_where (\<lambda>j. job_id j = token_job_id t \<and> publishable t now j) rows"
    by (rule arg_cong [of _ _ "\<lambda>p. count_where p rows"]) (use key in \<open>auto simp: fun_eq_iff\<close>)
  with count_key_1_iff [OF assms, of "token_job_id t" "publishable t now"] key show ?thesis by metis
qed

lemma publication_context_exact:
  assumes ids: "distinct (map job_id (jobs cat))"
  shows "publication_context t now cat = Inr x \<longleftrightarrow>
    (\<exists>j c. j \<in> set (jobs cat) \<and> publishable t now j \<and> find_chunk (job_chunk_id j) cat = Some c \<and>
       x = context_of j c)"
proof (cases "find (\<lambda>j. publishable t now j \<and> find_chunk (job_chunk_id j) cat \<noteq> None) (jobs cat)")
  case None
  then have "\<not> (\<exists>j \<in> set (jobs cat). publishable t now j \<and> find_chunk (job_chunk_id j) cat \<noteq> None)"
    by (auto simp: find_None_iff)
  with None show ?thesis by (auto simp: publication_context_def)
next
  case (Some j)
  then have j: "j \<in> set (jobs cat)" "publishable t now j" "find_chunk (job_chunk_id j) cat \<noteq> None"
    by (auto simp: find_Some_iff)
  then obtain c where c: "find_chunk (job_chunk_id j) cat = Some c" by blast
  have run: "publication_context t now cat = Inr (context_of j c)"
    unfolding publication_context_def Some option.case c option.sel ..
  show ?thesis
  proof
    assume "publication_context t now cat = Inr x"
    with run j c show "\<exists>j c. j \<in> set (jobs cat) \<and> publishable t now j \<and>
        find_chunk (job_chunk_id j) cat = Some c \<and> x = context_of j c" by auto
  next
    assume "\<exists>j c. j \<in> set (jobs cat) \<and> publishable t now j \<and>
        find_chunk (job_chunk_id j) cat = Some c \<and> x = context_of j c"
    then obtain k d where k: "k \<in> set (jobs cat)" "publishable t now k" "find_chunk (job_chunk_id k) cat = Some d"
      "x = context_of k d" by blast
    have "k = j" by (rule publishable_unique [OF ids j(1,2) k(1,2)])
    with k c run show "publication_context t now cat = Inr x" by simp
  qed
qed

lemma mark_job_succeeded_exact:
  assumes "distinct (map job_id (jobs cat))"
  shows "mark_job_succeeded t now cat = Inr cat' \<longleftrightarrow>
    (\<exists>j \<in> set (jobs cat). publishable t now j) \<and> cat' = finish_job t now cat"
  unfolding mark_job_succeeded_def succeeded_row_eq finish_job_def
  using publishable_count [OF assms] by auto

lemma next_number_fresh:
  "\<not> list_ex (\<lambda>x. rev_session_id x = session \<and> rev_number x = next_number session cat) (revisions cat)"
proof
  define ns where "ns = map rev_number (filter (\<lambda>r. rev_session_id r = session) (revisions cat))"
  have n: "next_number session cat = (if ns = [] then 0 else Max (set ns)) + 1"
    unfolding next_number_def ns_def Let_def ..
  assume "list_ex (\<lambda>x. rev_session_id x = session \<and> rev_number x = next_number session cat) (revisions cat)"
  then obtain x where "x \<in> set (revisions cat)" "rev_session_id x = session"
    "rev_number x = next_number session cat" by (auto simp: list_ex_iff)
  then have mem: "next_number session cat \<in> set ns" unfolding ns_def by force
  then have "next_number session cat \<le> Max (set ns)" by (intro Max_ge) auto
  moreover have "ns \<noteq> []" using mem by auto
  ultimately show False using n by simp
qed

lemma publish_revision_exact:
  assumes ids: "distinct (map job_id (jobs cat))"
  shows "publish_revision receipt_id rid c t segs now cat = Inr (out, cat') \<longleftrightarrow>
    \<not> list_ex (\<lambda>x. rev_id x = rid) (revisions cat) \<and>
    \<not> list_ex (\<lambda>(v, r). r = receipt_id) (revision_receipts cat) \<and>
    list_all (placeable c) segs \<and> distinct (map pub_segment_id segs) \<and>
    list_all (\<lambda>s. \<not> used_segment cat rid (pub_segment_id s)) segs \<and>
    (\<exists>j \<in> set (jobs cat). publishable t (canonical_time now) j) \<and>
    out = Some \<lparr>revision_id = rid, revision_session_id = ctx_session_id c,
      revision_number = next_number (ctx_session_id c) cat, revision_provider = ctx_provider c,
      revision_created_at = now, revision_segments = map (placed_segment c) segs\<rparr> \<and>
    cat' = finish_job t (canonical_time now) (with_segments c rid segs (cat\<lparr>
      revisions := revisions cat @ [\<lparr>rev_id = rid, rev_session_id = ctx_session_id c,
        rev_number = next_number (ctx_session_id c) cat, rev_provider = ctx_provider c,
        rev_created_at = 1000000 * canonical_time now, rev_provenance = VerifiedLocalAsr\<rparr>],
      revision_receipts := revision_receipts cat @ [(rid, receipt_id)]\<rparr>))"
proof -
  let ?v = "\<lparr>rev_id = rid, rev_session_id = ctx_session_id c,
        rev_number = next_number (ctx_session_id c) cat, rev_provider = ctx_provider c,
        rev_created_at = 1000000 * canonical_time now, rev_provenance = VerifiedLocalAsr\<rparr>"
  have ins: "insert_revision ?v cat = Inr x \<longleftrightarrow> \<not> list_ex (\<lambda>x. rev_id x = rid) (revisions cat) \<and>
      x = cat\<lparr>revisions := revisions cat @ [?v]\<rparr>" for x
    using next_number_fresh [of "ctx_session_id c" cat] by (auto simp: insert_revision_def list_ex_iff)
  have link: "link_receipt rid receipt_id y = Inr x \<longleftrightarrow>
      \<not> list_ex (\<lambda>(v, r). r = receipt_id) (revision_receipts y) \<and>
      x = y\<lparr>revision_receipts := revision_receipts y @ [(rid, receipt_id)]\<rparr>" for x y
    by (auto simp: link_receipt_def)
  define mid where "mid = with_segments c rid segs (cat\<lparr>revisions := revisions cat @ [?v],
      revision_receipts := revision_receipts cat @ [(rid, receipt_id)]\<rparr>)"
  have mid: "jobs mid = jobs cat" by (simp add: mid_def with_segments_def)
  then have mark: "mark_job_succeeded t (canonical_time now) mid = Inr x \<longleftrightarrow>
      (\<exists>j \<in> set (jobs cat). publishable t (canonical_time now) j) \<and> x = finish_job t (canonical_time now) mid" for x
    using mark_job_succeeded_exact [of mid] ids by simp
  have used: "used_segment (cat\<lparr>revisions := a, revision_receipts := b\<rparr>) rid i \<longleftrightarrow> used_segment cat rid i" for a b i
    by (simp add: used_segment_def)
  show ?thesis
    unfolding publish_revision_def Let_def and_then_Inr_iff ins link split_paired_Ex prod.case
      publish_segments_exact
    by (simp add: used mark [unfolded mid_def] mid_def [symmetric] cong: conj_cong) (auto simp: mark)
qed

lemma publication_commits_iff:
  assumes "queue_ok (jobs cat)"
  shows "publish_asr_result receipt_id rid t receipt segs now cat = Inr (out, cat') \<longleftrightarrow>
    (\<exists>j c. publication_ready receipt_id rid t receipt segs now cat j c \<and>
       out = published_result rid segs now cat j c \<and>
       cat' = published_catalog receipt_id rid t receipt segs now cat j c)"
proof -
  have ids: "distinct (map job_id (jobs cat))" using assms by (simp add: queue_ok_def)
  let ?t = "canonical_time now" and ?r = "receipt_row_of receipt"
  define stored where "stored = cat\<lparr>receipts := receipts cat @ [stored_receipt receipt_id ?r]\<rparr>"
  have same: "jobs stored = jobs cat" "revisions stored = revisions cat"
    "revision_receipts stored = revision_receipts cat" "next_number s stored = next_number s cat"
    "used_segment stored rid i = used_segment cat rid i" for s i
    by (simp_all add: stored_def next_number_def used_segment_def)
  have valid: "validate_segments segs = Inr u \<longleftrightarrow> list_all (\<lambda>s. \<not> invalid_segment s) segs" for u
    by (auto simp: validate_segments_def list_ex_iff list_all_iff)
  have bounds: "validate_segment_bounds segs d = Inr u \<longleftrightarrow>
      list_all (\<lambda>s. case d of None \<Rightarrow> True | Some d \<Rightarrow> pub_chunk_end_ms s \<le> d) segs" for u d
    by (cases d) (auto simp: validate_segment_bounds_def list_ex_iff list_all_iff, (meson not_less)+)
  have rcpt: "insert_receipt receipt_id ?r cat = Inr x \<longleftrightarrow> x = stored \<and>
      \<not> list_ex (\<lambda>x. rcpt_id x = receipt_id \<or> rcpt_job_id x = receipt_job_id receipt) (receipts cat)" for x
    by (auto simp: insert_receipt_def stored_def receipt_row_of_def)
  have job: "job_id j = token_job_id t" if "publishable t ?t j" for j
    using that by (simp add: publishable_def claimed_as_def)
  have mark: "mark_job_succeeded t ?t stored = Inr x \<longleftrightarrow>
      (\<exists>j \<in> set (jobs cat). publishable t ?t j) \<and> x = finish_job t ?t stored" for x
    using mark_job_succeeded_exact [of stored] ids by (simp add: same)
  have tail: "(if segs = [] then and_then (mark_job_succeeded t ?t stored) (\<lambda>cat. Inr (None, cat))
        else publish_revision receipt_id rid (context_of j c) t segs now stored) = Inr (out, cat') \<longleftrightarrow>
      (segs = [] \<or> list_all (placeable (context_of j c)) segs \<and> distinct (map pub_segment_id segs) \<and>
        list_all (\<lambda>s. \<not> used_segment cat rid (pub_segment_id s)) segs \<and>
        \<not> list_ex (\<lambda>x. rev_id x = rid) (revisions cat) \<and>
        \<not> list_ex (\<lambda>(v, r). r = receipt_id) (revision_receipts cat)) \<and>
      out = published_result rid segs now cat j c \<and>
      cat' = published_catalog receipt_id rid t receipt segs now cat j c"
    if "j \<in> set (jobs cat)" "publishable t ?t j" for j c
  proof -
    have ctx: "ctx_session_id (context_of j c) = job_session_id j" "ctx_provider (context_of j c) = job_provider j"
      by (simp_all add: context_of_def)
    have ex: "\<exists>j \<in> set (jobs cat). publishable t ?t j" using that by blast
    have ids': "distinct (map job_id (jobs stored))" using ids by (simp add: same)
    show ?thesis
    proof (cases "segs = []")
      case True
      then show ?thesis using ex
        by (auto simp: and_then_Inr_iff mark published_result_def published_catalog_def stored_def [symmetric] Let_def)
    next
      case False
      have cat': "published_catalog receipt_id rid t receipt segs now cat j c =
          finish_job t ?t (with_segments (context_of j c) rid segs (stored\<lparr>
            revisions := revisions cat @ [\<lparr>rev_id = rid, rev_session_id = job_session_id j,
               rev_number = next_number (job_session_id j) cat, rev_provider = job_provider j,
               rev_created_at = 1000000 * ?t, rev_provenance = VerifiedLocalAsr\<rparr>],
            revision_receipts := revision_receipts cat @ [(rid, receipt_id)]\<rparr>))"
        using False by (simp add: published_catalog_def stored_def Let_def)
      show ?thesis
        unfolding cat' using False ex
        by (auto simp: publish_revision_exact [OF ids'] same ctx published_result_def)
    qed
  qed
  have row: "rr_job_id ?r = receipt_job_id receipt" by (simp add: receipt_row_of_def)
  have dur: "ctx_chunk_duration_ms (context_of j c) = chunk_duration_ms c" for j c by (simp add: context_of_def)
  have all: "list_all (\<lambda>s. \<not> invalid_segment s \<and> (case d of None \<Rightarrow> True | Some d \<Rightarrow> pub_chunk_end_ms s \<le> d)) segs \<longleftrightarrow>
      list_all (\<lambda>s. \<not> invalid_segment s) segs \<and>
      list_all (\<lambda>s. case d of None \<Rightarrow> True | Some d \<Rightarrow> pub_chunk_end_ms s \<le> d) segs" for d
    by (auto simp: list_all_iff)
  define B where "B = (\<lambda>x. validate_receipt ?r x = Inr () \<and>
       list_all (\<lambda>s. case ctx_chunk_duration_ms x of None \<Rightarrow> True | Some d \<Rightarrow> pub_chunk_end_ms s \<le> d) segs \<and>
       \<not> list_ex (\<lambda>x. rcpt_id x = receipt_id \<or> rcpt_job_id x = receipt_job_id receipt) (receipts cat) \<and>
       (if segs = [] then and_then (mark_job_succeeded t ?t stored) (\<lambda>cat. Inr (None, cat))
        else publish_revision receipt_id rid x t segs now stored) = Inr (out, cat'))"
  have "publish_asr_result receipt_id rid t receipt segs now cat = Inr (out, cat') \<longleftrightarrow>
    list_all (\<lambda>s. \<not> invalid_segment s) segs \<and> receipt_job_id receipt = token_job_id t \<and>
    (\<exists>x. publication_context t ?t cat = Inr x \<and> B x)"
    unfolding publish_asr_result_def Let_def row B_def
    by (cases "receipt_job_id receipt = token_job_id t") (auto simp: result_simps valid bounds rcpt simp del: not_None_eq)
  also have "\<dots> \<longleftrightarrow> (\<exists>j c. list_all (\<lambda>s. \<not> invalid_segment s) segs \<and> receipt_job_id receipt = token_job_id t \<and>
      (j \<in> set (jobs cat) \<and> publishable t ?t j \<and> find_chunk (job_chunk_id j) cat = Some c) \<and> B (context_of j c))"
    unfolding publication_context_exact [OF ids] by blast
  also have "\<dots> \<longleftrightarrow> (\<exists>j c. publication_ready receipt_id rid t receipt segs now cat j c \<and>
       out = published_result rid segs now cat j c \<and>
       cat' = published_catalog receipt_id rid t receipt segs now cat j c)"
  proof (intro ex_cong1)
    fix j c
    show "(list_all (\<lambda>s. \<not> invalid_segment s) segs \<and> receipt_job_id receipt = token_job_id t \<and>
        (j \<in> set (jobs cat) \<and> publishable t ?t j \<and> find_chunk (job_chunk_id j) cat = Some c) \<and>
        B (context_of j c)) \<longleftrightarrow>
      (publication_ready receipt_id rid t receipt segs now cat j c \<and>
       out = published_result rid segs now cat j c \<and>
       cat' = published_catalog receipt_id rid t receipt segs now cat j c)"
    proof (cases "j \<in> set (jobs cat) \<and> publishable t ?t j")
      case True
      with job [of j] have id: "job_id j = token_job_id t" by simp
      from True have "(if segs = [] then and_then (mark_job_succeeded t ?t stored) (\<lambda>cat. Inr (None, cat))
        else publish_revision receipt_id rid (context_of j c) t segs now stored) = Inr (out, cat') \<longleftrightarrow>
        (segs = [] \<or> list_all (placeable (context_of j c)) segs \<and> distinct (map pub_segment_id segs) \<and>
        list_all (\<lambda>s. \<not> used_segment cat rid (pub_segment_id s)) segs \<and>
        \<not> list_ex (\<lambda>x. rev_id x = rid) (revisions cat) \<and>
        \<not> list_ex (\<lambda>(v, r). r = receipt_id) (revision_receipts cat)) \<and>
        out = published_result rid segs now cat j c \<and>
        cat' = published_catalog receipt_id rid t receipt segs now cat j c"
        by (intro tail) simp_all
      then show ?thesis using True
        unfolding publication_ready_def all B_def dur id
        by (cases "receipt_job_id receipt = token_job_id t"; simp only: simp_thms) blast
    next
      case False
      then show ?thesis unfolding publication_ready_def by blast
    qed
  qed
  finally show ?thesis .
qed


lemma published_jobs:
  "jobs (published_catalog receipt_id rid t receipt segs now cat j c) =
     update_where (publishable t (canonical_time now)) (succeeded_row (canonical_time now)) (jobs cat)"
  by (simp add: published_catalog_def finish_job_def with_segments_def Let_def)

lemma publication_evolves:
  assumes "queue_ok (jobs cat)" "publish_asr_result receipt_id rid t receipt segs now cat = Inr (out, cat')"
  shows "queue_evolves (jobs cat) (jobs cat') \<and> queue_ok (jobs cat')"
proof -
  from publication_commits_iff [OF assms(1)] assms(2)
  have rows: "jobs cat' = update_where (publishable t (canonical_time now)) (succeeded_row (canonical_time now)) (jobs cat)"
    by (auto simp: published_jobs)
  have step: "row_evolves r (succeeded_row (canonical_time now) r) \<and>
      (active_state (job_state (succeeded_row (canonical_time now) r)) \<longrightarrow> active_state (job_state r)) \<and>
      (running_row (succeeded_row (canonical_time now) r) \<longrightarrow> running_row r)"
    if "publishable t (canonical_time now) r" for r
    using that by (auto simp: evolves_simps succeeded_row_def publishable_def)
  show ?thesis unfolding rows
    by (intro conjI queue_evolves_update queue_ok_update assms(1)) (use step in blast)+
qed

text \<open>What the three parts of a committed publication are, for the row and the chunk of its token.\<close>

lemma published_job_changed:
  assumes ids: "distinct (map job_id (jobs cat))" and j: "j \<in> set (jobs cat)" "publishable t (canonical_time now) j"
  shows "list_all2 (\<lambda>k k'. if job_id k = token_job_id t
        then job_id k' = job_id k \<and> job_state k' = Succeeded \<and> job_claimed_by k' = None else k' = k)
      (jobs cat) (jobs (published_catalog receipt_id rid t receipt segs now cat j c))"
proof -
  have id: "job_id j = token_job_id t" using j(2) by (simp add: publishable_def claimed_as_def)
  have sel: "publishable t (canonical_time now) k \<longleftrightarrow> job_id k = token_job_id t" if "k \<in> set (jobs cat)" for k
    using distinct_key_unique [OF ids that j(1)] j(2) id by (auto simp: publishable_def claimed_as_def)
  show ?thesis unfolding published_jobs update_where_def list.rel_map
    by (rule list.rel_refl_strong) (simp add: sel succeeded_row_def)
qed

lemma next_number_exceeds:
  assumes "r \<in> set (revisions cat)" "rev_session_id r = i"
  shows "rev_number r < next_number i cat"
proof -
  define ns where "ns = map rev_number (filter (\<lambda>r. rev_session_id r = i) (revisions cat))"
  have "rev_number r \<in> set ns" using assms unfolding ns_def by simp
  then have "rev_number r \<le> Max (set ns)" "ns \<noteq> []" by auto
  then show ?thesis unfolding next_number_def ns_def [symmetric] Let_def by simp
qed

lemma published_segments_placed:
  assumes "publication_ready receipt_id rid t receipt segs now cat j c"
  shows "list_all2 (\<lambda>s r. seg_id r = pub_segment_id s \<and> seg_text r = pub_text s \<and> seg_revision_id r = rid \<and>
          seg_source r = chunk_source c \<and>
          seg_start_ms r = chunk_session_offset_ms c + pub_chunk_start_ms s \<and>
          seg_end_ms r = chunk_session_offset_ms c + pub_chunk_end_ms s \<and>
          chunk_session_offset_ms c \<le> seg_start_ms r \<and> seg_start_ms r < seg_end_ms r \<and>
          (\<forall>d. chunk_duration_ms c = Some d \<longrightarrow> seg_end_ms r \<le> chunk_session_offset_ms c + d))
        segs (map (placed_row (context_of j c) rid) segs)"
proof -
  have ctx: "ctx_chunk_offset_ms (context_of j c) = chunk_session_offset_ms c" "ctx_chunk_source (context_of j c) = chunk_source c"
    by (simp_all add: context_of_def)
  have segs: "\<not> invalid_segment s \<and> (\<forall>d. chunk_duration_ms c = Some d \<longrightarrow> pub_chunk_end_ms s \<le> d) \<and>
      pub_source s = chunk_source c" if "s \<in> set segs" for s
    using assms that by (auto simp: publication_ready_def list_all_iff placeable_def ctx split: option.splits)
  show ?thesis unfolding list.rel_map
    by (rule list.rel_refl_strong) (auto simp: placed_row_def ctx invalid_segment_def not_less not_le dest!: segs)
qed

text \<open>
  C24: What a committed publication leaves behind.  Exactly the published job changes: it has
  succeeded and has no claim.  One receipt is added.  Without segments nothing else changes;
  otherwise one verified revision is added whose number exceeds every number of the session by at
  least one, and each segment is stored and indexed once, in order, with its text, at its chunk time
  plus the chunk's offset, inside the chunk's part of the session.
\<close>

theorem publication_effect:
  assumes "queue_ok (jobs cat)" "publish_asr_result receipt_id rid t receipt segs now cat = Inr (out, cat')"
  shows "\<exists>j c. j \<in> set (jobs cat) \<and> job_id j = token_job_id t \<and> find_chunk (job_chunk_id j) cat = Some c \<and>
    list_all2 (\<lambda>k k'. if job_id k = token_job_id t
        then job_id k' = job_id k \<and> job_state k' = Succeeded \<and> job_claimed_by k' = None else k' = k)
      (jobs cat) (jobs cat') \<and>
    receipts cat' = receipts cat @ [stored_receipt receipt_id (receipt_row_of receipt)] \<and>
    (segs = [] \<longrightarrow> out = None \<and> revisions cat' = revisions cat \<and> segments cat' = segments cat \<and>
       segment_search cat' = segment_search cat) \<and>
    (segs \<noteq> [] \<longrightarrow> (\<exists>v ss. out = Some v \<and> revision_id v = rid \<and>
       revisions cat' = revisions cat @ [\<lparr>rev_id = rid, rev_session_id = job_session_id j,
          rev_number = revision_number v, rev_provider = job_provider j,
          rev_created_at = 1000000 * canonical_time now, rev_provenance = VerifiedLocalAsr\<rparr>] \<and>
       (\<forall>r \<in> set (revisions cat). rev_session_id r = job_session_id j \<longrightarrow> rev_number r < revision_number v) \<and>
       segments cat' = segments cat @ ss \<and>
       segment_search cat' = segment_search cat @ map (\<lambda>r. (seg_id r, rid, seg_text r)) ss \<and>
       list_all2 (\<lambda>s r. seg_id r = pub_segment_id s \<and> seg_text r = pub_text s \<and> seg_revision_id r = rid \<and>
          seg_source r = chunk_source c \<and>
          seg_start_ms r = chunk_session_offset_ms c + pub_chunk_start_ms s \<and>
          seg_end_ms r = chunk_session_offset_ms c + pub_chunk_end_ms s \<and>
          chunk_session_offset_ms c \<le> seg_start_ms r \<and> seg_start_ms r < seg_end_ms r \<and>
          (\<forall>d. chunk_duration_ms c = Some d \<longrightarrow> seg_end_ms r \<le> chunk_session_offset_ms c + d)) segs ss))"
proof -
  have ids: "distinct (map job_id (jobs cat))" using assms(1) by (simp add: queue_ok_def)
  from publication_commits_iff [OF assms(1)] assms(2) obtain j c
    where ready: "publication_ready receipt_id rid t receipt segs now cat j c"
      and res: "out = published_result rid segs now cat j c"
      and cat': "cat' = published_catalog receipt_id rid t receipt segs now cat j c" by auto
  have j: "j \<in> set (jobs cat)" "publishable t (canonical_time now) j" "find_chunk (job_chunk_id j) cat = Some c"
    using ready by (simp_all add: publication_ready_def)
  then have id: "job_id j = token_job_id t" by (simp add: publishable_def claimed_as_def)
  note rows = published_job_changed [OF ids j(1,2), where c = c, folded cat']
  let ?ctx = "context_of j c"
  have search: "map (\<lambda>s. (pub_segment_id s, rid, pub_text s)) segs =
      map (\<lambda>r. (seg_id r, rid, seg_text r)) (map (placed_row ?ctx rid) segs)"
    by (simp add: placed_row_def)
  show ?thesis
    using j(1,3) id rows published_segments_placed [OF ready] next_number_exceeds
    by (intro exI [of _ j] exI [of _ c] conjI impI exI [of _ "the out"] exI [of _ "map (placed_row ?ctx rid) segs"])
      (simp_all add: res cat' published_result_def published_catalog_def finish_job_def with_segments_def search Let_def)
qed

subsection \<open>A small publication\<close>

definition demo_token :: ClaimToken where
  "demo_token = \<lparr>token_job_id = ''b'', token_claimed_by = ''w'', token_claim_generation = 1\<rparr>"

definition demo_transcribing :: catalog where
  "demo_transcribing = snd (mark_asr_job_transcribing ''b'' ''w'' 1 20 demo_running)"

definition demo_receipt :: ProviderReceipt where
  "demo_receipt = \<lparr>receipt_job_id = ''b'', receipt_chunk_id = ''c'', receipt_provider = Whisper,
     receipt_model_id = ''m'', receipt_manifest_version = ''1'', receipt_archive_sha256 = ''h'',
     receipt_required_file_hashes_json = ''{}'', receipt_model_source_json = ''{}'',
     receipt_vad_model_id = None, receipt_vad_manifest_version = None, receipt_vad_archive_sha256 = None,
     receipt_vad_required_file_hashes_json = None, receipt_runtime_version = ''1'',
     receipt_runtime_build_id = ''1'', receipt_parameters_json = ''{}'', receipt_input_sha256 = ''x'',
     receipt_started_at = 0, receipt_finished_at = 1, receipt_data_destination = LocalDevice,
     receipt_outcome = OutcomeSucceeded\<rparr>"

definition demo_segments :: "TranscriptSegmentPublication list" where
  "demo_segments = [\<lparr>pub_segment_id = ''s1'', pub_chunk_start_ms = 0, pub_chunk_end_ms = 200,
      pub_source = SystemAudio, pub_text = ''hi''\<rparr>,
     \<lparr>pub_segment_id = ''s2'', pub_chunk_start_ms = 200, pub_chunk_end_ms = 500,
      pub_source = SystemAudio, pub_text = ''there''\<rparr>]"

lemma demo_transcribing_ok: "queue_ok (jobs demo_transcribing)"
  by code_simp

lemma demo_segments_valid: "validate_segments demo_segments = Inr ()"
  by (simp add: validate_segments_def demo_segments_def invalid_segment_def not_blank_Cons printable_def)

lemma demo_publishes:
  "\<exists>out cat'. publish_asr_result ''rc'' ''tr'' demo_token demo_receipt demo_segments 30000000 demo_transcribing =
     Inr (out, cat')"
proof -
  have "(case publish_asr_result ''rc'' ''tr'' demo_token demo_receipt demo_segments 30000000 demo_transcribing of
      Inl e \<Rightarrow> False | Inr x \<Rightarrow> True)"
    unfolding publish_asr_result_def demo_segments_valid and_then.simps by code_simp
  then show ?thesis by (auto split: sum.splits)
qed


text \<open>The published catalog holds one revision with both segments.\<close>
theorem publication_effect_witness:
  "\<exists>v cat'. publish_asr_result ''rc'' ''tr'' demo_token demo_receipt demo_segments 30000000 demo_transcribing =
     Inr (Some v, cat') \<and> revision_id v = ''tr'' \<and> length (segments cat') = 2 \<and> length (receipts cat') = 1"
proof -
  obtain out cat' where p: "publish_asr_result ''rc'' ''tr'' demo_token demo_receipt demo_segments 30000000
      demo_transcribing = Inr (out, cat')" using demo_publishes by blast
  have empty: "segments demo_transcribing = []" "receipts demo_transcribing = []" by code_simp+
  have two: "demo_segments \<noteq> []" "length demo_segments = 2" by (simp_all add: demo_segments_def)
  show ?thesis
    using publication_effect [OF demo_transcribing_ok p] p
    by (elim exE conjE) (simp add: two empty, elim exE conjE, simp add: two list_all2_conv_all_nth)
qed

end
