(* ===== verification/Queue_Life.thy ===== *)
theory Queue_Life
  imports Publication
begin

section \<open>The life of the queue\<close>

text \<open>
  Every statement that touches \<open>asr_jobs\<close> as one step relation, so that what holds across any
  interleaving of workers, controllers, boots and publications can be said: the queue stays well
  formed, a token that lost its claim never regains power, and a token publishes at most once.
\<close>

inductive queue_step :: "catalog \<Rightarrow> catalog \<Rightarrow> bool" where
  step_enqueue: "enqueue_asr_job e cat = Inr (out, cat') \<Longrightarrow> queue_step cat cat'"
| step_blocked: "insert_blocked_asr_job e code summary cat = Inr (out, cat') \<Longrightarrow> queue_step cat cat'"
| step_failed: "insert_failed_asr_job e code summary cat = Inr (out, cat') \<Longrightarrow> queue_step cat cat'"
| step_claim: "claim_asr_job owner now lease cat = (r, cat') \<Longrightarrow> queue_step cat cat'"
| step_renew: "renew_asr_job i owner g now lease cat = (res, cat') \<Longrightarrow> queue_step cat cat'"
| step_mark: "mark_asr_job_transcribing i owner g now cat = (res, cat') \<Longrightarrow> queue_step cat cat'"
| step_fail: "fail_asr_job i owner g now code summary cat = (res, cat') \<Longrightarrow> queue_step cat cat'"
| step_cancel: "request_asr_job_cancel i now cat = (cres, cat') \<Longrightarrow> queue_step cat cat'"
| step_acknowledge: "acknowledge_asr_job_cancel i owner g now cat = (n, cat') \<Longrightarrow> queue_step cat cat'"
| step_recover: "recover_asr_jobs boot_of boot retry_at now cat = Inr (counts, cat') \<Longrightarrow> queue_step cat cat'"
| step_retry: "retry_asr_job i m now cat = Inr (rr, cat') \<Longrightarrow> queue_step cat cat'"
| step_publish: "publish_asr_result receipt_id rid t receipt segs time cat = Inr (pub, cat') \<Longrightarrow>
    queue_step cat cat'"
| step_elsewhere: "jobs cat' = jobs cat \<Longrightarrow> queue_step cat cat'"

lemma queue_step_evolves:
  assumes "queue_step cat cat'" "queue_ok (jobs cat)"
  shows "queue_evolves (jobs cat) (jobs cat') \<and> queue_ok (jobs cat')"
  using assms
proof (induction rule: queue_step.induct)
  case (step_enqueue e cat out cat')
  then show ?case using insert_evolves by (simp add: enqueue_asr_job_def)
next
  case (step_blocked e code summary cat out cat')
  then show ?case using insert_evolves by (simp add: insert_blocked_asr_job_def)
next
  case (step_failed e code summary cat out cat')
  then show ?case using insert_evolves by (simp add: insert_failed_asr_job_def)
next
  case (step_recover boot_of boot retry_at now cat counts cat')
  then have "distinct (map job_id (jobs cat))" by (simp add: queue_ok_def)
  from recover_evolves [OF this step_recover(1)] step_recover(2) show ?case by simp
next
  case (step_publish receipt_id rid t receipt segs time cat pub cat')
  then show ?case using publication_evolves by simp
next
  case (step_claim owner now lease cat r cat')
  from claim_evolves [OF step_claim(2,1)] show ?case by simp
next
  case (step_renew i owner g now lease cat res cat')
  from renew_evolves [OF step_renew(1)] step_renew(2) show ?case by simp
next
  case (step_mark i owner g now cat res cat')
  from mark_evolves [OF step_mark(1)] step_mark(2) show ?case by simp
next
  case (step_fail i owner g now code summary cat res cat')
  from fail_evolves [OF step_fail(1)] step_fail(2) show ?case by simp
next
  case (step_cancel i now cat cres cat')
  from cancel_evolves [OF step_cancel(1)] step_cancel(2) show ?case by simp
next
  case (step_acknowledge i owner g now cat n cat')
  from acknowledge_evolves [OF step_acknowledge(1)] step_acknowledge(2) show ?case by simp
next
  case (step_retry i m now cat rr cat')
  from retry_evolves [OF step_retry(1)] step_retry(2) show ?case by simp
qed simp

interpretation queue_life: invariant_relation queue_step "\<lambda>cat. queue_ok (jobs cat)"
  by unfold_locales (use queue_step_evolves in blast)

text \<open>A row of the queue and what the steps have made of it.\<close>

lemma queue_steps_evolve:
  assumes "queue_step\<^sup>*\<^sup>* cat cat'" "queue_ok (jobs cat)"
  shows "queue_evolves (jobs cat) (jobs cat') \<and> queue_ok (jobs cat')"
  using assms
proof (induction rule: rtranclp_induct)
  case (step y z)
  then show ?case using queue_step_evolves queue_evolves_trans by blast
qed simp

lemma evolved_row:
  assumes "queue_evolves rows rows'" "distinct (map job_id rows)" "r \<in> set rows" "r' \<in> set rows'"
    and "job_id r' = job_id r"
  shows "row_evolves r r'"
proof -
  obtain upd news where rows': "rows' = upd @ news" and all: "list_all2 row_evolves rows upd"
    and news: "\<forall>n \<in> set news. job_id n \<notin> job_id ` set rows"
    using assms(1) by (auto simp: queue_evolves_def)
  have "r' \<in> set upd" using assms(3-5) news rows' by auto
  then obtain k where k: "k < length upd" "r' = upd ! k" by (auto simp: in_set_conv_nth)
  then have ev: "row_evolves (rows ! k) r'" "k < length rows"
    using all by (auto simp: list_all2_conv_all_nth)
  then have "job_id (rows ! k) = job_id r" using assms(5) by (simp add: row_evolves_def)
  then have "rows ! k = r" using distinct_key_unique [OF assms(2) _ assms(3)] ev(2) by simp
  with ev show ?thesis by simp
qed

text \<open>
  C23: From an empty queue, every interleaving of the operations keeps it well formed: identifiers
  are unique, no two active jobs do the same work, at most one job runs, a job has a claimant and a
  lease exactly while it runs, and attempts stay within the allowed number.
\<close>

theorem queue_always_well_formed:
  assumes "queue_step\<^sup>*\<^sup>* cat cat'" "jobs cat = []"
  shows "distinct (map job_id (jobs cat')) \<and>
    distinct (map job_fingerprint (filter (\<lambda>j. active_state (job_state j)) (jobs cat'))) \<and>
    length (filter (\<lambda>j. running_state (job_state j)) (jobs cat')) \<le> 1 \<and>
    (\<forall>j \<in> set (jobs cat').
      (job_claimed_by j \<noteq> None \<longleftrightarrow> running_state (job_state j)) \<and>
      (job_lease_expires_at j \<noteq> None \<longleftrightarrow> running_state (job_state j)) \<and>
      0 \<le> job_attempt_count j \<and> job_attempt_count j \<le> job_max_attempts j \<and> 0 \<le> job_claim_generation j)"
proof -
  have "queue_ok (jobs cat)"
    using assms(2) by (simp add: queue_ok_def active_fingerprints_unique_def count_where_def)
  then have "queue_ok (jobs cat')" using queue_life.reachable_inv [OF assms(1)] by simp
  then show ?thesis
    by (simp add: queue_ok_def active_fingerprints_unique_def count_where_def running_row_def [abs_def]
        job_ok_def)
qed

text \<open>A token is powerless when its job has moved on.\<close>

definition powerless :: "string \<Rightarrow> string \<Rightarrow> int \<Rightarrow> job_row list \<Rightarrow> bool" where
  "powerless i owner g rows \<longleftrightarrow> (\<exists>j \<in> set rows. job_id j = i \<and> g \<le> job_claim_generation j \<and>
     \<not> (running_row j \<and> job_claimed_by j = Some owner \<and> job_claim_generation j = g))"

lemma powerless_row:
  assumes "row_evolves r r'" "job_id r = i" "g \<le> job_claim_generation r"
    "\<not> (running_row r \<and> job_claimed_by r = Some owner \<and> job_claim_generation r = g)"
  shows "job_id r' = i \<and> g \<le> job_claim_generation r' \<and>
    \<not> (running_row r' \<and> job_claimed_by r' = Some owner \<and> job_claim_generation r' = g)"
  using assms by (auto simp: row_evolves_def)

lemma powerless_evolves:
  assumes "queue_evolves rows rows'" "powerless i owner g rows"
  shows "powerless i owner g rows'"
proof -
  from assms(1) obtain upd news where rows': "rows' = upd @ news" and all: "list_all2 row_evolves rows upd"
    by (auto simp: queue_evolves_def)
  have "powerless i owner g upd" using all assms(2)
  proof (induction rule: list_all2_induct)
    case Nil
    then show ?case by (simp add: powerless_def)
  next
    case (Cons r rs r' rs')
    from Cons.prems have "(job_id r = i \<and> g \<le> job_claim_generation r \<and>
        \<not> (running_row r \<and> job_claimed_by r = Some owner \<and> job_claim_generation r = g)) \<or> powerless i owner g rs"
      by (auto simp: powerless_def)
    then show ?case
    proof
      assume "job_id r = i \<and> g \<le> job_claim_generation r \<and>
        \<not> (running_row r \<and> job_claimed_by r = Some owner \<and> job_claim_generation r = g)"
      with powerless_row [OF Cons.hyps(1)] show ?thesis unfolding powerless_def by (meson list.set_intros(1))
    next
      assume "powerless i owner g rs"
      with Cons.IH show ?thesis unfolding powerless_def by (meson list.set_intros(2))
    qed
  qed
  then show ?thesis unfolding powerless_def rows' by auto
qed

lemma powerless_forever:
  assumes "queue_step\<^sup>*\<^sup>* cat cat'" "queue_ok (jobs cat)" "powerless i owner g (jobs cat)"
  shows "powerless i owner g (jobs cat') \<and> queue_ok (jobs cat')"
  using assms
proof (induction rule: rtranclp_induct)
  case base
  then show ?case by simp
next
  case (step y z)
  then show ?case using queue_step_evolves powerless_evolves by blast
qed

lemma powerless_claim:
  assumes "distinct (map job_id rows)" "powerless i owner g rows" "j \<in> set rows" "claimed_as i owner g j"
  shows "\<not> running_row j"
proof -
  from assms(2) obtain k where k: "k \<in> set rows" "job_id k = i"
    "\<not> (running_row k \<and> job_claimed_by k = Some owner \<and> job_claim_generation k = g)"
    unfolding powerless_def by blast
  moreover have "k = j" using distinct_key_unique [OF assms(1) k(1) assms(3)] assms(4) k(2)
    by (simp add: claimed_as_def)
  ultimately show ?thesis using assms(4) by (simp add: claimed_as_def)
qed

lemma powerless_owned_update:
  assumes "queue_ok (jobs cat)" "powerless i owner g (jobs cat)"
    and "\<And>s. states s \<Longrightarrow> running_state s" "\<And>j. job_id (f j) = job_id j"
  shows "owned_update states f i owner g now cat = (OwnershipLost, cat)"
proof -
  have ids: "distinct (map job_id (jobs cat))" using assms(1) by (simp add: queue_ok_def)
  have dead: "\<not> live_claim i owner g now j" if "j \<in> set (jobs cat)" for j
    using powerless_claim [OF ids assms(2) that] by (auto simp: live_claim_def)
  obtain r cat' where u: "owned_update states f i owner g now cat = (r, cat')" by fastforce
  from owned_update_cases [OF ids assms(3) u assms(4)] dead
  have "r \<noteq> Updated \<and> r \<noteq> CancelRequested \<and> cat' = cat" by auto
  then have "r = OwnershipLost \<and> cat' = cat" by (cases r) auto
  with u show ?thesis by simp
qed

lemma powerless_acknowledge:
  assumes "queue_ok (jobs cat)" "powerless i owner g (jobs cat)"
  shows "acknowledge_asr_job_cancel i owner g now cat = (0, cat) \<and> \<not> owns_running_asr_job i owner g cat"
proof -
  have ids: "distinct (map job_id (jobs cat))" using assms(1) by (simp add: queue_ok_def)
  define p where "p = (\<lambda>j. claimed_as i owner g j \<and> running_state (job_state j) \<and>
    job_cancel_requested_at j \<noteq> None \<and> lease_after (job_lease_expires_at j) now)"
  have dead: "\<not> (claimed_as i owner g j \<and> running_state (job_state j))" if "j \<in> set (jobs cat)" for j
    using powerless_claim [OF ids assms(2) that] by (auto simp: running_row_def)
  then have none: "\<not> list_ex p (jobs cat)" by (auto simp: list_ex_iff p_def)
  then have "count_where p (jobs cat) = 0" by (simp only: count_where_zero_iff) simp
  then have "acknowledge_asr_job_cancel i owner g now cat = (0, cat)"
    unfolding acknowledge_asr_job_cancel_def p_def [symmetric] Let_def update_where_none [OF none] by simp
  moreover have "\<not> owns_running_asr_job i owner g cat"
    using dead by (auto simp: owns_running_asr_job_def list_ex_iff)
  ultimately show ?thesis by simp
qed

lemma powerless_publish:
  assumes "queue_ok (jobs cat)"
    and "powerless (token_job_id t) (token_claimed_by t) (token_claim_generation t) (jobs cat)"
  shows "publish_asr_result receipt_id rid t receipt segs now cat \<noteq> Inr x"
proof
  assume p: "publish_asr_result receipt_id rid t receipt segs now cat = Inr x"
  obtain out cat' where "x = (out, cat')" by fastforce
  with p publication_commits_iff [OF assms(1)] obtain j where "j \<in> set (jobs cat)" "publishable t (canonical_time now) j"
    unfolding publication_ready_def by blast
  moreover have "distinct (map job_id (jobs cat))" using assms(1) by (simp add: queue_ok_def)
  ultimately have "\<not> running_row j" using powerless_claim [OF _ assms(2)] by (simp add: publishable_def)
  with \<open>publishable t (canonical_time now) j\<close> show False by (simp add: publishable_def running_row_def)
qed

text \<open>
  C7: Fencing.  Once a job is not running under a token, or has moved to a later generation, that
  token is powerless for ever: whatever happens to the queue afterwards, renewing, starting,
  failing or acknowledging with it changes nothing, it owns no running job, and it publishes nothing.
\<close>

theorem stale_token_is_powerless:
  assumes "queue_step\<^sup>*\<^sup>* cat cat'" "queue_ok (jobs cat)" "j \<in> set (jobs cat)"
    and "job_id j = token_job_id t" "token_claim_generation t \<le> job_claim_generation j"
    and "\<not> owns_running_asr_job (token_job_id t) (token_claimed_by t) (token_claim_generation t) cat"
  shows "renew_asr_job (token_job_id t) (token_claimed_by t) (token_claim_generation t) now lease cat' =
      (OwnershipLost, cat') \<and>
    mark_asr_job_transcribing (token_job_id t) (token_claimed_by t) (token_claim_generation t) now cat' =
      (OwnershipLost, cat') \<and>
    fail_asr_job (token_job_id t) (token_claimed_by t) (token_claim_generation t) now code summary cat' =
      (OwnershipLost, cat') \<and>
    acknowledge_asr_job_cancel (token_job_id t) (token_claimed_by t) (token_claim_generation t) now cat' =
      (0, cat') \<and>
    \<not> owns_running_asr_job (token_job_id t) (token_claimed_by t) (token_claim_generation t) cat' \<and>
    (\<nexists>x. publish_asr_result receipt_id rid t receipt segs time cat' = Inr x)"
proof -
  let ?i = "token_job_id t" and ?o = "token_claimed_by t" and ?g = "token_claim_generation t"
  have "powerless ?i ?o ?g (jobs cat)"
    using assms(3-6) by (auto simp: powerless_def owns_running_asr_job_def list_ex_iff claimed_as_def running_row_def)
  from powerless_forever [OF assms(1,2) this]
  have p: "powerless ?i ?o ?g (jobs cat')" and ok: "queue_ok (jobs cat')" by simp_all
  show ?thesis
    unfolding renew_asr_job_def mark_asr_job_transcribing_def fail_asr_job_def
    using powerless_publish [OF ok p] powerless_acknowledge [OF ok p]
    by (intro conjI powerless_owned_update [OF ok p]) auto
qed

text \<open>
  A result is published at most once: after a publication with a token, whatever happens next,
  no further publication with it succeeds, and the job is no longer its to fail or renew.
\<close>

theorem published_at_most_once:
  assumes "queue_ok (jobs cat)"
    and "publish_asr_result receipt_id rid t receipt segs time cat = Inr (out, cat')"
    and "queue_step\<^sup>*\<^sup>* cat' cat''"
  shows "(\<nexists>x. publish_asr_result receipt_id' rid' t receipt' segs' time' cat'' = Inr x) \<and>
    renew_asr_job (token_job_id t) (token_claimed_by t) (token_claim_generation t) now lease cat'' =
      (OwnershipLost, cat'')"
proof -
  let ?i = "token_job_id t" and ?o = "token_claimed_by t" and ?g = "token_claim_generation t"
  from publication_commits_iff [OF assms(1)] assms(2) obtain j c
    where ready: "publication_ready receipt_id rid t receipt segs time cat j c"
      and cat': "cat' = published_catalog receipt_id rid t receipt segs time cat j c" by auto
  have j: "j \<in> set (jobs cat)" "publishable t (canonical_time time) j" using ready by (simp_all add: publication_ready_def)
  let ?k = "succeeded_row (canonical_time time) j"
  have "?k \<in> set (jobs cat')" using j unfolding cat' published_jobs set_update_where by auto
  moreover have "job_id ?k = ?i" "?g \<le> job_claim_generation ?k" "\<not> running_row ?k"
    using j(2) by (simp_all add: succeeded_row_def publishable_def claimed_as_def running_row_def)
  ultimately have "powerless ?i ?o ?g (jobs cat')" unfolding powerless_def by blast
  moreover have "queue_ok (jobs cat')" using publication_evolves [OF assms(1,2)] by simp
  ultimately have p: "powerless ?i ?o ?g (jobs cat'')" and ok: "queue_ok (jobs cat'')"
    using powerless_forever [OF assms(3)] by simp_all
  show ?thesis unfolding renew_asr_job_def
    using powerless_publish [OF ok p] by (intro conjI powerless_owned_update [OF ok p]) auto
qed

text \<open>One enqueued job, from an empty queue.\<close>
theorem queue_always_well_formed_witness:
  "\<exists>cat'. queue_step\<^sup>*\<^sup>* (demo_queue\<lparr>jobs := []\<rparr>) cat' \<and> length (jobs cat') = 1 \<and>
     distinct (map job_id (jobs cat')) \<and> length (filter (\<lambda>j. running_state (job_state j)) (jobs cat')) \<le> 1"
proof -
  let ?cat = "demo_queue\<lparr>jobs := []\<rparr>" and ?e = "demo_enqueue ''a'' ''fa'' 5"
  have "find_chunk (enq_chunk_id ?e) ?cat = Some demo_chunk" by code_simp
  then have "enqueue_asr_job ?e ?cat = Inr (\<lparr>outcome_job_id = ''a'', outcome_inserted = True\<rparr>,
      ?cat\<lparr>jobs := [job_of_enqueue ?e Queued None None]\<rparr>)"
    by (simp add: enqueue_asr_job_def insert_asr_job_def active_asr_job_for_fingerprint_def validate_row_def
        demo_enqueue_def demo_chunk_def provider_names_def Let_def)
  then have step: "queue_step\<^sup>*\<^sup>* ?cat (?cat\<lparr>jobs := [job_of_enqueue ?e Queued None None]\<rparr>)"
    by (intro r_into_rtranclp step_enqueue)
  from queue_always_well_formed [OF step] show ?thesis
    by (intro exI [of _ "?cat\<lparr>jobs := [job_of_enqueue ?e Queued None None]\<rparr>"] conjI step) simp_all
qed

text \<open>After job b has been claimed as generation 1, a token of generation 0 is powerless.\<close>
theorem stale_token_is_powerless_witness:
  "renew_asr_job ''b'' ''w'' 0 20 70 demo_running = (OwnershipLost, demo_running)"
proof -
  let ?t = "\<lparr>token_job_id = ''b'', token_claimed_by = ''w'', token_claim_generation = 0\<rparr>"
  have stay: "queue_step\<^sup>*\<^sup>* demo_running demo_running" by simp
  have "list_ex (\<lambda>j. job_id j = ''b'' \<and> 0 \<le> job_claim_generation j) (jobs demo_running)" by code_simp
  then obtain j where j: "j \<in> set (jobs demo_running)" "job_id j = token_job_id ?t"
    "token_claim_generation ?t \<le> job_claim_generation j" by (auto simp: list_ex_iff)
  have stale: "\<not> owns_running_asr_job (token_job_id ?t) (token_claimed_by ?t) (token_claim_generation ?t) demo_running"
    by code_simp
  from stale_token_is_powerless [OF stay demo_running_ok j stale, of 20 70] show ?thesis by simp
qed

text \<open>The small publication cannot be repeated.\<close>
theorem published_at_most_once_witness:
  "\<exists>out cat'. publish_asr_result ''rc'' ''tr'' demo_token demo_receipt demo_segments 30000000 demo_transcribing =
     Inr (out, cat') \<and>
   (\<nexists>x. publish_asr_result ''rd'' ''ts'' demo_token demo_receipt demo_segments 31000000 cat' = Inr x)"
proof -
  obtain out cat' where p: "publish_asr_result ''rc'' ''tr'' demo_token demo_receipt demo_segments 30000000
      demo_transcribing = Inr (out, cat')" using demo_publishes by blast
  have stay: "queue_step\<^sup>*\<^sup>* cat' cat'" by simp
  from published_at_most_once [OF demo_transcribing_ok p stay] p show ?thesis by blast
qed

end
