(* ===== verification/Job_Coordinator.thy ===== *)
theory Job_Coordinator
  imports Queue_Life
begin

section \<open>The job coordinator: \<open>asr/job.rs\<close>\<close>

text \<open>
  One worker's view of the queue: it claims a job, keeps the lease alive, starts it, fails it,
  publishes it, and lets go of the claim when the catalog says so.  Every call of the repository
  reads the clock and goes through the ownership guard, which may refuse it, as may the database;
  both are the environment: \<open>env_clock\<close> gives the n-th clock reading and \<open>env_refusal\<close> the answer to
  the n-th guarded call.  \<open>env_owner\<close> is the JSON text of a claim owner and \<open>env_boot_of\<close> its parser.
\<close>

subsection \<open>Data\<close>

definition LEASE_SECONDS :: int where "LEASE_SECONDS = 30"
definition RENEW_SECONDS :: int where "RENEW_SECONDS = 5"

text \<open>\<open>Duration::seconds\<close>; times are nanoseconds.\<close>

definition seconds :: "int \<Rightarrow> time" where "seconds n = n * 1000000000"

record JobIdentity =
  identity_job_id :: string
  identity_session_id :: string
  identity_chunk_id :: string

datatype ExecutionStage = StagePreparing | StageTranscribing

fun stage_as_str :: "ExecutionStage \<Rightarrow> string" where
  "stage_as_str StagePreparing = ''preparing''"
| "stage_as_str StageTranscribing = ''transcribing''"

record ClaimedJob =
  claim_id :: string
  claim_attempt_count :: int
  claim_renew_at :: time
  claim_lease_expires_at :: time
  claim_token :: ClaimToken

record ModelReadiness =
  readiness_provider :: string
  readiness_model_id :: string
  readiness_manifest_version :: string
  readiness_bundle_identity :: string
  readiness_runtime_identity_json :: string

datatype CancellationOutcome = CancellationCancelled | CancellationRequested | CancellationUnchanged

record RecoveryOutcome =
  recovery_requeued :: nat
  recovery_cancelled :: nat
  recovery_exhausted :: nat

datatype JobCatalogError = GuardRefused RuntimeOwnershipError | DatabaseFailed db_error

datatype JobError =
    JobOwnership RuntimeOwnershipError
  | JobCatalogFailed db_error
  | JobOwnershipLost
  | JobCancelRequested
  | CoordinatorAlreadyActive
  | JobInvalidTransition
  | JobModelNotReady
  | JobInput AsrErrorCode

record job_env =
  env_clock :: "nat \<Rightarrow> time"
  env_refusal :: "nat \<Rightarrow> JobCatalogError option"
  env_owner :: "string \<Rightarrow> string \<Rightarrow> string"
  env_boot_of :: "string \<Rightarrow> string option"

text \<open>The catalog and how many clock readings and guarded calls there have been.\<close>

record job_world =
  world_catalog :: catalog
  world_readings :: nat
  world_calls :: nat

record coordinator_state =
  coordinator_boot_id :: string
  coordinator_worker_id :: string
  coordinator_active :: "ClaimedJob option"

subsection \<open>Results\<close>

definition map_catalog_error :: "JobCatalogError \<Rightarrow> JobError" where
  "map_catalog_error e = (case e of GuardRefused x \<Rightarrow> JobOwnership x | DatabaseFailed x \<Rightarrow> JobCatalogFailed x)"

definition owned :: "nat \<Rightarrow> JobError + unit" where
  "owned changed = (if changed = 1 then Inr () else Inl JobOwnershipLost)"

fun owned_mutation :: "OwnedMutationResult \<Rightarrow> JobError + unit" where
  "owned_mutation Updated = Inr ()"
| "owned_mutation CancelRequested = Inl JobCancelRequested"
| "owned_mutation OwnershipLost = Inl JobOwnershipLost"

definition ready_model :: "ModelReadiness \<Rightarrow> ReadyModel" where
  "ready_model r = \<lparr>ready_provider = readiness_provider r, ready_model_id = readiness_model_id r,
     ready_manifest_version = readiness_manifest_version r,
     ready_bundle_identity = readiness_bundle_identity r,
     ready_runtime_identity_json = readiness_runtime_identity_json r\<rparr>"

fun error_name :: "AsrErrorCode \<Rightarrow> string" where
  "error_name ModelNotInstalled = ''model_not_installed''"
| "error_name ModelCapabilityUnavailable = ''model_capability_unavailable''"
| "error_name ModelDownloadFailed = ''model_download_failed''"
| "error_name ModelIntegrityFailed = ''model_integrity_failed''"
| "error_name InsufficientDiskSpace = ''insufficient_disk_space''"
| "error_name UnsupportedOrCorruptAudio = ''unsupported_or_corrupt_audio''"
| "error_name InputIntegrityFailed = ''input_integrity_failed''"
| "error_name AsrErrorCode.InputUnavailable = ''input_unavailable''"
| "error_name InvalidProviderParameter = ''invalid_provider_parameter''"
| "error_name ProviderInitializationFailed = ''provider_initialization_failed''"
| "error_name TranscriptionFailed = ''transcription_failed''"
| "error_name CancelledCode = ''cancelled''"
| "error_name RecoveryRequired = ''recovery_required''"
| "error_name RecoveryRetryExhausted = ''recovery_retry_exhausted''"
| "error_name ReceiptInvalid = ''receipt_invalid''"

subsection \<open>The guarded catalog: \<open>JobCatalog\<close>\<close>

text \<open>Each call asks the ownership guard first; a refusal or a failing statement changes nothing.\<close>

definition guarded ::
    "job_env \<Rightarrow> (catalog \<Rightarrow> (db_error + 'a) \<times> catalog) \<Rightarrow> job_world \<Rightarrow> (JobCatalogError + 'a) \<times> job_world" where
  "guarded env f w =
     (let w' = w\<lparr>world_calls := world_calls w + 1\<rparr>
      in case env_refusal env (world_calls w) of
           Some e \<Rightarrow> (Inl e, w')
         | None \<Rightarrow> let (r, cat) = f (world_catalog w) in
             (map_err DatabaseFailed r, w'\<lparr>world_catalog := cat\<rparr>))"

definition read_clock :: "job_env \<Rightarrow> job_world \<Rightarrow> time \<times> job_world" where
  "read_clock env w = (env_clock env (world_readings w), w\<lparr>world_readings := world_readings w + 1\<rparr>)"

text \<open>A statement that cannot fail, a query, and a statement whose error rolls back.\<close>

definition total_op :: "(catalog \<Rightarrow> 'a \<times> catalog) \<Rightarrow> catalog \<Rightarrow> (db_error + 'a) \<times> catalog" where
  "total_op f cat = (let (r, cat') = f cat in (Inr r, cat'))"

definition query_op :: "(catalog \<Rightarrow> db_error + 'a) \<Rightarrow> catalog \<Rightarrow> (db_error + 'a) \<times> catalog" where
  "query_op f cat = (f cat, cat)"

definition rollback_op :: "(catalog \<Rightarrow> 'e + 'a \<times> catalog) \<Rightarrow> catalog \<Rightarrow> ('e + 'a) \<times> catalog" where
  "rollback_op f cat = (case f cat of Inl e \<Rightarrow> (Inl e, cat) | Inr (x, cat') \<Rightarrow> (Inr x, cat'))"

definition catalog_renew :: "job_env \<Rightarrow> ClaimToken \<Rightarrow> millis \<Rightarrow> millis \<Rightarrow> job_world \<Rightarrow>
    (JobCatalogError + OwnedMutationResult) \<times> job_world" where
  "catalog_renew env t now lease = guarded env (total_op
     (renew_asr_job (token_job_id t) (token_claimed_by t) (token_claim_generation t) now lease))"

definition catalog_mark_transcribing :: "job_env \<Rightarrow> ClaimToken \<Rightarrow> millis \<Rightarrow> job_world \<Rightarrow>
    (JobCatalogError + OwnedMutationResult) \<times> job_world" where
  "catalog_mark_transcribing env t now = guarded env (total_op
     (mark_asr_job_transcribing (token_job_id t) (token_claimed_by t) (token_claim_generation t) now))"

definition catalog_fail :: "job_env \<Rightarrow> ClaimToken \<Rightarrow> millis \<Rightarrow> string \<Rightarrow> string \<Rightarrow> job_world \<Rightarrow>
    (JobCatalogError + OwnedMutationResult) \<times> job_world" where
  "catalog_fail env t now code summary = guarded env (total_op
     (fail_asr_job (token_job_id t) (token_claimed_by t) (token_claim_generation t) now code summary))"

definition catalog_acknowledge_cancel :: "job_env \<Rightarrow> ClaimToken \<Rightarrow> millis \<Rightarrow> job_world \<Rightarrow>
    (JobCatalogError + nat) \<times> job_world" where
  "catalog_acknowledge_cancel env t now = guarded env (total_op
     (acknowledge_asr_job_cancel (token_job_id t) (token_claimed_by t) (token_claim_generation t) now))"

subsection \<open>The repository\<close>

definition repository_claim :: "job_env \<Rightarrow> string \<Rightarrow> string \<Rightarrow> job_world \<Rightarrow>
    (JobError + ClaimedJob option) \<times> job_world" where
  "repository_claim env boot worker w =
     (let (now, w) = read_clock env w;
          lease = now + seconds LEASE_SECONDS;
          owner = env_owner env boot worker;
          (r, w) = guarded env (claim_asr_job owner (canonical_time now) (canonical_time lease)) w
      in (map_err map_catalog_error (and_then r (\<lambda>row. Inr (map_option (\<lambda>row.
            \<lparr>claim_id = claimed_id row, claim_attempt_count = claimed_attempt_count row,
             claim_renew_at = now + seconds RENEW_SECONDS, claim_lease_expires_at = lease,
             claim_token = \<lparr>token_job_id = claimed_id row, token_claimed_by = owner,
               token_claim_generation = claimed_generation row\<rparr>\<rparr>) row))), w))"

definition repository_active_job_for_fingerprint ::
    "job_env \<Rightarrow> string \<Rightarrow> job_world \<Rightarrow> (JobError + string option) \<times> job_world" where
  "repository_active_job_for_fingerprint env f w =
     (let (r, w) = guarded env (query_op (\<lambda>cat. Inr (active_asr_job_for_fingerprint f cat))) w
      in (map_err map_catalog_error r, w))"

fun enqueue_error :: "JobCatalogError + EnqueueCommitError \<Rightarrow> JobError" where
  "enqueue_error (Inl e) = map_catalog_error e"
| "enqueue_error (Inr (EnqueueCatalog e)) = JobCatalogFailed e"
| "enqueue_error (Inr (EnqueueInput IdentityMismatch)) = JobInput InputIntegrityFailed"
| "enqueue_error (Inr (EnqueueInput InputMissing)) = JobInput AsrErrorCode.InputUnavailable"
| "enqueue_error (Inr (EnqueueInput InputValidation.InputUnavailable)) = JobInput AsrErrorCode.InputUnavailable"
| "enqueue_error (Inr (EnqueueInput InputAvailable)) = JobInput RecoveryRequired"

definition repository_commit_enqueue ::
    "job_env \<Rightarrow> EnqueueJob \<Rightarrow> job_world \<Rightarrow> (JobError + EnqueueOutcome) \<times> job_world" where
  "repository_commit_enqueue env e w =
     (let (r, w) = guarded env (\<lambda>cat. let (r, cat) = rollback_op (enqueue_asr_job e) cat in (Inr r, cat)) w
      in (case r of Inl e \<Rightarrow> Inl (enqueue_error (Inl e))
          | Inr (Inl e) \<Rightarrow> Inl (enqueue_error (Inr e)) | Inr (Inr x) \<Rightarrow> Inr x, w))"

definition repository_validate_input :: "job_env \<Rightarrow> string \<Rightarrow> string \<Rightarrow> string \<Rightarrow> job_world \<Rightarrow>
    (JobError + InputValidation) \<times> job_world" where
  "repository_validate_input env session chunk sha w =
     (let (r, w) = guarded env (query_op (\<lambda>cat. Inr (validate_asr_input session chunk sha cat))) w
      in (map_err map_catalog_error r, w))"

definition repository_job_identity ::
    "job_env \<Rightarrow> string \<Rightarrow> job_world \<Rightarrow> (JobError + JobIdentity) \<times> job_world" where
  "repository_job_identity env i w =
     (let (r, w) = guarded env (query_op (asr_job_identity i)) w
      in (map_err map_catalog_error (and_then r (\<lambda>(j, s, c).
            Inr \<lparr>identity_job_id = j, identity_session_id = s, identity_chunk_id = c\<rparr>)), w))"

definition repository_renew :: "job_env \<Rightarrow> ClaimToken \<Rightarrow> job_world \<Rightarrow> (JobError + unit) \<times> job_world" where
  "repository_renew env t w =
     (let (now, w) = read_clock env w;
          (r, w) = catalog_renew env t (canonical_time now) (canonical_time (now + seconds LEASE_SECONDS)) w
      in (and_then (map_err map_catalog_error r) owned_mutation, w))"

definition repository_mark_transcribing ::
    "job_env \<Rightarrow> ClaimToken \<Rightarrow> job_world \<Rightarrow> (JobError + unit) \<times> job_world" where
  "repository_mark_transcribing env t w =
     (let (now, w) = read_clock env w;
          (r, w) = catalog_mark_transcribing env t (canonical_time now) w
      in (and_then (map_err map_catalog_error r) owned_mutation, w))"

definition repository_fail ::
    "job_env \<Rightarrow> ClaimToken \<Rightarrow> AsrErrorCode \<Rightarrow> string \<Rightarrow> job_world \<Rightarrow> (JobError + unit) \<times> job_world" where
  "repository_fail env t code summary w =
     (let (now, w) = read_clock env w;
          (r, w) = catalog_fail env t (canonical_time now) (error_name code) summary w
      in (and_then (map_err map_catalog_error r) owned_mutation, w))"

fun cancellation_outcome :: "CancelResult \<Rightarrow> CancellationOutcome" where
  "cancellation_outcome CancelledNow = CancellationCancelled"
| "cancellation_outcome CancelRequestedNow = CancellationRequested"
| "cancellation_outcome CancelUnchanged = CancellationUnchanged"

definition repository_request_cancel ::
    "job_env \<Rightarrow> string \<Rightarrow> job_world \<Rightarrow> (JobError + CancellationOutcome) \<times> job_world" where
  "repository_request_cancel env i w =
     (let (now, w) = read_clock env w;
          (r, w) = guarded env (total_op (request_asr_job_cancel i (canonical_time now))) w
      in (map_err map_catalog_error (and_then r (\<lambda>x. Inr (cancellation_outcome x))), w))"

definition repository_acknowledge_cancel ::
    "job_env \<Rightarrow> ClaimToken \<Rightarrow> job_world \<Rightarrow> (JobError + unit) \<times> job_world" where
  "repository_acknowledge_cancel env t w =
     (let (now, w) = read_clock env w;
          (r, w) = catalog_acknowledge_cancel env t (canonical_time now) w
      in (and_then (map_err map_catalog_error r) owned, w))"

definition recovery_delay :: "int \<Rightarrow> int" where
  "recovery_delay attempt = (if attempt \<le> 1 then 5 else 30)"

definition repository_recover ::
    "job_env \<Rightarrow> string \<Rightarrow> job_world \<Rightarrow> (JobError + RecoveryOutcome) \<times> job_world" where
  "repository_recover env boot w =
     (let (now, w) = read_clock env w;
          (r, w) = guarded env (rollback_op (recover_asr_jobs (env_boot_of env) boot
             (\<lambda>attempt. canonical_time (now + seconds (recovery_delay attempt))) (canonical_time now))) w
      in (map_err map_catalog_error (and_then r (\<lambda>c. Inr \<lparr>recovery_requeued = requeued c,
            recovery_cancelled = cancelled c, recovery_exhausted = exhausted c\<rparr>)), w))"

fun publication_refusal :: "JobCatalogError \<Rightarrow> PublicationError" where
  "publication_refusal (GuardRefused e) = PubOwnership e"
| "publication_refusal (DatabaseFailed e) = PubCatalog e"

definition repository_publish ::
    "job_env \<Rightarrow> string \<Rightarrow> string \<Rightarrow> ClaimToken \<Rightarrow> ProviderReceipt \<Rightarrow> TranscriptSegmentPublication list \<Rightarrow>
       job_world \<Rightarrow> (PublicationError + TranscriptRevision option) \<times> job_world" where
  "repository_publish env receipt_id rid t receipt segs w =
     (let (now, w) = read_clock env w;
          (r, w) = guarded env (\<lambda>cat. let (r, cat) =
             rollback_op (publish_asr_result receipt_id rid t receipt segs now) cat in (Inr r, cat)) w
      in (case r of Inl e \<Rightarrow> Inl (publication_refusal e) | Inr x \<Rightarrow> x, w))"

definition repository_owns_running :: "job_env \<Rightarrow> ClaimToken \<Rightarrow> job_world \<Rightarrow> (JobError + bool) \<times> job_world" where
  "repository_owns_running env t w =
     (let (r, w) = guarded env (query_op (\<lambda>cat. Inr (owns_running_asr_job (token_job_id t)
             (token_claimed_by t) (token_claim_generation t) cat))) w
      in (map_err map_catalog_error r, w))"

definition repository_is_ready_to_retry ::
    "job_env \<Rightarrow> string \<Rightarrow> ModelReadiness \<Rightarrow> job_world \<Rightarrow> (JobError + bool) \<times> job_world" where
  "repository_is_ready_to_retry env i m w =
     (let (r, w) = guarded env (query_op (\<lambda>cat. Inr (asr_job_model_ready i (ready_model m) cat))) w
      in (map_err map_catalog_error r, w))"

fun retry_result :: "RetryResult \<Rightarrow> JobError + int" where
  "retry_result (Retried g) = Inr g"
| "retry_result RetryInvalidTransition = Inl JobInvalidTransition"
| "retry_result RetryModelNotReady = Inl JobModelNotReady"

definition repository_retry ::
    "job_env \<Rightarrow> string \<Rightarrow> ModelReadiness \<Rightarrow> job_world \<Rightarrow> (JobError + int) \<times> job_world" where
  "repository_retry env i m w =
     (let (now, w) = read_clock env w;
          (r, w) = guarded env (rollback_op (retry_asr_job i (ready_model m) (canonical_time now))) w
      in (and_then (map_err map_catalog_error r) retry_result, w))"

subsection \<open>The coordinator\<close>

definition try_reserve :: "bool \<Rightarrow> (JobError + unit) \<times> bool" where
  "try_reserve reserved = (if reserved then (Inl CoordinatorAlreadyActive, True) else (Inr (), True))"

definition release_reservation :: "bool \<Rightarrow> bool" where
  "release_reservation reserved = False"

definition new_job_coordinator :: "string \<Rightarrow> string \<Rightarrow> coordinator_state" where
  "new_job_coordinator boot worker =
     \<lparr>coordinator_boot_id = boot, coordinator_worker_id = worker, coordinator_active = None\<rparr>"

definition active_token :: "coordinator_state \<Rightarrow> JobError + ClaimToken" where
  "active_token c = ok_or JobOwnershipLost (map_option claim_token (coordinator_active c))"

definition clear_if_ownership_lost ::
    "coordinator_state \<Rightarrow> JobError + 'a \<Rightarrow> coordinator_state \<times> (JobError + 'a)" where
  "clear_if_ownership_lost c r =
     ((if (case r of Inl JobOwnershipLost \<Rightarrow> True | _ \<Rightarrow> False) then c\<lparr>coordinator_active := None\<rparr> else c), r)"

definition claim_next :: "job_env \<Rightarrow> coordinator_state \<Rightarrow> job_world \<Rightarrow>
    (JobError + ClaimedJob option) \<times> coordinator_state \<times> job_world" where
  "claim_next env c w = (case coordinator_active c of
      Some claim \<Rightarrow> (Inr (Some claim), c, w)
    | None \<Rightarrow> let (r, w) = repository_claim env (coordinator_boot_id c) (coordinator_worker_id c) w in
        (case r of Inl e \<Rightarrow> (Inl e, c, w)
         | Inr claim \<Rightarrow> (Inr claim, c\<lparr>coordinator_active := claim\<rparr>, w)))"

definition coordinator_acknowledge_cancel :: "job_env \<Rightarrow> coordinator_state \<Rightarrow> job_world \<Rightarrow>
    (JobError + unit) \<times> coordinator_state \<times> job_world" where
  "coordinator_acknowledge_cancel env c w = (case active_token c of
      Inl e \<Rightarrow> (Inl e, c, w)
    | Inr t \<Rightarrow> let (r, w) = repository_acknowledge_cancel env t w;
                   (c, r) = clear_if_ownership_lost c r
        in (r, (case r of Inr _ \<Rightarrow> c\<lparr>coordinator_active := None\<rparr> | Inl _ \<Rightarrow> c), w))"

definition handle_running_result :: "job_env \<Rightarrow> JobError + unit \<Rightarrow> coordinator_state \<Rightarrow> job_world \<Rightarrow>
    (JobError + unit) \<times> coordinator_state \<times> job_world" where
  "handle_running_result env r c w = (case r of
      Inl JobCancelRequested \<Rightarrow> (let (a, c, w) = coordinator_acknowledge_cancel env c w in
        (case a of Inl e \<Rightarrow> (Inl e, c, w) | Inr _ \<Rightarrow> (Inl JobCancelRequested, c, w)))
    | other \<Rightarrow> let (c, r) = clear_if_ownership_lost c other in (r, c, w))"

definition renew_active :: "job_env \<Rightarrow> coordinator_state \<Rightarrow> job_world \<Rightarrow>
    (JobError + unit) \<times> coordinator_state \<times> job_world" where
  "renew_active env c w = (case active_token c of
      Inl e \<Rightarrow> (Inl e, c, w)
    | Inr t \<Rightarrow> let (r, w) = repository_renew env t w;
                   (r, c, w) = handle_running_result env r c w
        in (case r of
              Inl e \<Rightarrow> (Inl e, c, w)
            | Inr _ \<Rightarrow> let (now, w) = read_clock env w in
                (case coordinator_active c of
                   None \<Rightarrow> (Inl JobOwnershipLost, c, w)
                 | Some claim \<Rightarrow> (Inr (), c\<lparr>coordinator_active := Some (claim\<lparr>
                     claim_renew_at := now + seconds RENEW_SECONDS,
                     claim_lease_expires_at := now + seconds LEASE_SECONDS\<rparr>)\<rparr>, w))))"

definition renew_if_due :: "job_env \<Rightarrow> coordinator_state \<Rightarrow> job_world \<Rightarrow>
    (JobError + bool) \<times> coordinator_state \<times> job_world" where
  "renew_if_due env c w = (case coordinator_active c of
      None \<Rightarrow> (Inr False, c, w)
    | Some claim \<Rightarrow> let (now, w) = read_clock env w in
        if now < claim_renew_at claim then (Inr False, c, w)
        else let (r, c, w) = renew_active env c w in (and_then r (\<lambda>_. Inr True), c, w))"

definition enter_transcribing :: "job_env \<Rightarrow> coordinator_state \<Rightarrow> job_world \<Rightarrow>
    (JobError + unit) \<times> coordinator_state \<times> job_world" where
  "enter_transcribing env c w =
     (let (r, c, w) = renew_active env c w in
      case r of
        Inl e \<Rightarrow> (Inl e, c, w)
      | Inr _ \<Rightarrow> (case active_token c of
          Inl e \<Rightarrow> (Inl e, c, w)
        | Inr t \<Rightarrow> let (r, w) = repository_mark_transcribing env t w in handle_running_result env r c w))"

definition finish_fail :: "job_env \<Rightarrow> AsrErrorCode \<Rightarrow> string \<Rightarrow> coordinator_state \<Rightarrow> job_world \<Rightarrow>
    (JobError + unit) \<times> coordinator_state \<times> job_world" where
  "finish_fail env code summary c w = (case active_token c of
      Inl e \<Rightarrow> (Inl e, c, w)
    | Inr t \<Rightarrow> let (r, w) = repository_fail env t code summary w;
                   (r, c, w) = handle_running_result env r c w
        in (r, (case r of Inr _ \<Rightarrow> c\<lparr>coordinator_active := None\<rparr> | Inl _ \<Rightarrow> c), w))"

definition coordinator_fail :: "job_env \<Rightarrow> AsrErrorCode \<Rightarrow> string \<Rightarrow> coordinator_state \<Rightarrow> job_world \<Rightarrow>
    (JobError + unit) \<times> coordinator_state \<times> job_world" where
  "coordinator_fail env code summary c w =
     (let (r, c, w) = renew_active env c w in
      case r of Inl e \<Rightarrow> (Inl e, c, w) | Inr _ \<Rightarrow> finish_fail env code summary c w)"

definition coordinator_recover :: "job_env \<Rightarrow> coordinator_state \<Rightarrow> job_world \<Rightarrow>
    (JobError + RecoveryOutcome) \<times> coordinator_state \<times> job_world" where
  "coordinator_recover env c w =
     (let (r, w) = repository_recover env (coordinator_boot_id c) w in
      case r of
        Inl e \<Rightarrow> (Inl e, c, w)
      | Inr outcome \<Rightarrow> (case coordinator_active c of
          None \<Rightarrow> (Inr outcome, c, w)
        | Some claim \<Rightarrow> let (r, w) = repository_owns_running env (claim_token claim) w in
            (case r of
               Inr True \<Rightarrow> (Inr outcome, c, w)
             | Inr False \<Rightarrow> (Inr outcome, c\<lparr>coordinator_active := None\<rparr>, w)
             | Inl e \<Rightarrow> (Inl e, c\<lparr>coordinator_active := None\<rparr>, w))))"

definition coordinator_publish ::
    "job_env \<Rightarrow> string \<Rightarrow> string \<Rightarrow> ClaimToken \<Rightarrow> ProviderReceipt \<Rightarrow> TranscriptSegmentPublication list \<Rightarrow>
       coordinator_state \<Rightarrow> job_world \<Rightarrow>
       (PublicationError + TranscriptRevision option) \<times> coordinator_state \<times> job_world" where
  "coordinator_publish env receipt_id rid t receipt segs c w =
     (let (r, w) = repository_publish env receipt_id rid t receipt segs w in (r, c, w))"

subsection \<open>What the statements do to the token's row\<close>

lemma find_job_in: "distinct (map job_id (jobs cat)) \<Longrightarrow> j \<in> set (jobs cat) \<Longrightarrow> find_job (job_id j) cat = Some j"
  by (simp add: find_job_def find_unique)

lemma find_job_update:
  assumes "distinct (map job_id (jobs cat))" "j \<in> set (jobs cat)" "job_id j = i" "job_id (f j) = i"
  shows "find_job i (cat\<lparr>jobs := update_where (\<lambda>r. job_id r = i) f (jobs cat)\<rparr>) = Some (f j)"
  using find_update_key [OF assms(1,2), of f] assms(3,4) by (simp add: find_job_def)

lemma owned_update_hit:
  assumes ids: "distinct (map job_id (jobs cat))" and j: "j \<in> set (jobs cat)"
    and sel: "claimed_as i owner g j" "states (job_state j)" "job_cancel_requested_at j = None"
      "lease_after (job_lease_expires_at j) now"
  shows "owned_update states f i owner g now cat =
    (Updated, cat\<lparr>jobs := update_where (\<lambda>r. job_id r = i) f (jobs cat)\<rparr>)"
proof -
  define p where "p = (\<lambda>j. claimed_as i owner g j \<and> states (job_state j) \<and>
    job_cancel_requested_at j = None \<and> lease_after (job_lease_expires_at j) now)"
  have id: "job_id j = i" using sel(1) by (simp add: claimed_as_def)
  have p: "p r \<longleftrightarrow> job_id r = i" if "r \<in> set (jobs cat)" for r
    using distinct_key_unique [OF ids that j] id sel by (auto simp: p_def claimed_as_def)
  have "update_where p f (jobs cat) = update_where (\<lambda>r. job_id r = i) f (jobs cat)"
    by (rule update_where_cong) (simp add: p)
  moreover have "count_where p (jobs cat) = count_where (\<lambda>j. job_id j = i \<and> True) (jobs cat)"
    unfolding count_where_def by (rule arg_cong [of _ _ length], rule filter_cong) (simp_all add: p)
  moreover have "count_where (\<lambda>j. job_id j = i \<and> True) (jobs cat) = 1"
    using count_key_1_iff [OF ids, of i "\<lambda>_. True"] j id by blast
  ultimately show ?thesis
    by (simp add: owned_update_def p_def [symmetric] owned_mutation_result_def Let_def)
qed

lemma owned_update_updated:
  assumes ids: "distinct (map job_id (jobs cat))" and states: "\<And>s. states s \<Longrightarrow> running_state s"
    and u: "owned_update states f i owner g now cat = (Updated, cat')"
    and keeps: "\<And>j. job_id (f j) = job_id j"
  obtains j where "j \<in> set (jobs cat)" "live_claim i owner g now j" "states (job_state j)"
    "job_cancel_requested_at j = None" "find_job i cat' = Some (f j)"
    "cat' = cat\<lparr>jobs := update_where (\<lambda>r. job_id r = i) f (jobs cat)\<rparr>"
proof -
  from owned_update_cases [OF ids states u keeps] obtain j where j: "j \<in> set (jobs cat)"
    "live_claim i owner g now j" "states (job_state j)" "job_cancel_requested_at j = None" by blast
  then have sel: "claimed_as i owner g j" "lease_after (job_lease_expires_at j) now" "job_id j = i"
    by (simp_all add: live_claim_def claimed_as_def)
  have cat': "cat' = cat\<lparr>jobs := update_where (\<lambda>r. job_id r = i) f (jobs cat)\<rparr>"
    using owned_update_hit [where states = states and f = f, OF ids j(1) sel(1) j(3,4) sel(2)] u by simp
  have "find_job i cat' = Some (f j)"
    unfolding cat' by (rule find_job_update [OF ids j(1) sel(3)]) (simp add: keeps sel(3))
  with j cat' show thesis by (intro that)
qed

lemma acknowledge_result:
  assumes ids: "distinct (map job_id (jobs cat))"
    and a: "acknowledge_asr_job_cancel i owner g now cat = (n, cat')"
  shows "(n = 1 \<and> (\<exists>j. find_job i cat' = Some j \<and> job_state j = Cancelled \<and> job_claimed_by j = None)) \<or>
    (n = 0 \<and> cat' = cat)"
proof -
  define p where "p = (\<lambda>j. claimed_as i owner g j \<and> running_state (job_state j) \<and>
    job_cancel_requested_at j \<noteq> None \<and> lease_after (job_lease_expires_at j) now)"
  define f where "f = (\<lambda>j::job_row. j\<lparr>job_state := Cancelled, job_claimed_by := None, job_lease_expires_at := None,
    job_error_code := Some ''cancelled'', job_error_summary := None, job_updated_at := now\<rparr>)"
  have run: "n = count_where p (jobs cat)" "cat' = cat\<lparr>jobs := update_where p f (jobs cat)\<rparr>"
    using a by (auto simp: acknowledge_asr_job_cancel_def p_def f_def Let_def)
  have "p = (\<lambda>j. job_id j = i \<and> (p j))" by (auto simp: p_def claimed_as_def fun_eq_iff)
  then have le: "count_where p (jobs cat) \<le> 1" using count_where_key_le_1 [OF ids, of i p] by metis
  show ?thesis
  proof (cases "\<exists>j \<in> set (jobs cat). p j")
    case True
    then obtain j where j: "j \<in> set (jobs cat)" "p j" by blast
    then have id: "job_id j = i" by (simp add: p_def claimed_as_def)
    have "update_where p f (jobs cat) = update_where (\<lambda>r. job_id r = i) f (jobs cat)"
    proof (rule update_where_cong)
      fix r assume r: "r \<in> set (jobs cat)"
      have "p r \<longleftrightarrow> job_id r = i"
      proof
        assume "p r"
        then show "job_id r = i" by (simp add: p_def claimed_as_def)
      next
        assume "job_id r = i"
        with distinct_key_unique [OF ids r j(1)] id j(2) show "p r" by simp
      qed
      then show "(if p r then f r else r) = (if job_id r = i then f r else r)" by simp
    qed
    then have "find_job i cat' = Some (f j)"
      using find_job_update [where f = f, OF ids j(1) id] id by (simp add: run f_def)
    moreover have "count_where p (jobs cat) \<noteq> 0"
    proof
      assume "count_where p (jobs cat) = 0"
      then have "\<not> list_ex p (jobs cat)" by (simp only: count_where_zero_iff) simp
      with j show False by (auto simp: list_ex_iff)
    qed
    ultimately show ?thesis using le by (simp add: run f_def)
  next
    case False
    then have none: "\<not> list_ex p (jobs cat)" by (auto simp: list_ex_iff)
    then have "count_where p (jobs cat) = 0" by (simp only: count_where_zero_iff) simp
    with update_where_none [OF none] show ?thesis by (simp add: run)
  qed
qed

subsection \<open>Steps of the coordinator\<close>

text \<open>A world is fine when its queue is; one call moves it along the queue's steps.\<close>

definition world_ok :: "job_world \<Rightarrow> bool" where
  "world_ok w \<longleftrightarrow> queue_ok (jobs (world_catalog w))"

lemma world_ids: "world_ok w \<Longrightarrow> distinct (map job_id (jobs (world_catalog w)))"
  by (simp add: world_ok_def queue_ok_def)

lemma read_clock_keeps [simp]:
  "world_catalog (snd (read_clock env w)) = world_catalog w"
  by (simp add: read_clock_def)

lemma read_clock_eq: "read_clock env w = (now, w') \<Longrightarrow> world_catalog w' = world_catalog w"
  by (auto simp: read_clock_def)

lemma guarded_total:
  assumes "guarded env (total_op f) w = (r, w')"
  shows "(\<exists>e. r = Inl e) \<and> world_catalog w' = world_catalog w \<or>
    (\<exists>x. r = Inr x \<and> f (world_catalog w) = (x, world_catalog w'))"
  using assms by (auto simp: guarded_def total_op_def Let_def split: option.splits prod.splits)

lemma catalog_error_not_lost:
  "map_catalog_error e \<noteq> JobOwnershipLost" "map_catalog_error e \<noteq> JobCancelRequested"
  by (simp_all add: map_catalog_error_def split: JobCatalogError.splits)

text \<open>The outcome of a statement of the owner, as the repository reports it.\<close>

definition owner_outcome ::
    "(catalog \<Rightarrow> OwnedMutationResult \<times> catalog) \<Rightarrow> job_world \<Rightarrow> JobError + unit \<Rightarrow> job_world \<Rightarrow> bool" where
  "owner_outcome f w r w' \<longleftrightarrow>
     (\<exists>e. r = Inl (map_catalog_error e)) \<and> world_catalog w' = world_catalog w \<or>
     r = Inr () \<and> f (world_catalog w) = (Updated, world_catalog w') \<or>
     r = Inl JobCancelRequested \<and> f (world_catalog w) = (CancelRequested, world_catalog w') \<or>
     r = Inl JobOwnershipLost \<and> f (world_catalog w) = (OwnershipLost, world_catalog w')"

lemma owner_outcome_guarded:
  assumes "guarded env (total_op f) w = (r, w')"
  shows "owner_outcome f w (and_then (map_err map_catalog_error r) owned_mutation) w'"
  using guarded_total [OF assms]
proof (elim disjE exE conjE)
  fix x assume "r = Inr x" "f (world_catalog w) = (x, world_catalog w')"
  then show ?thesis by (cases x) (simp_all add: owner_outcome_def)
qed (auto simp: owner_outcome_def)

lemma repository_renew_outcome:
  assumes "repository_renew env t w = (r, w')"
  shows "\<exists>now lease. owner_outcome
    (renew_asr_job (token_job_id t) (token_claimed_by t) (token_claim_generation t) now lease) w r w'"
proof -
  obtain now w1 where c: "read_clock env w = (now, w1)" by fastforce
  obtain x w2 where g: "catalog_renew env t (canonical_time now) (canonical_time (now + seconds LEASE_SECONDS)) w1 = (x, w2)"
    by fastforce
  have "r = and_then (map_err map_catalog_error x) owned_mutation" "w' = w2"
    using assms c g by (auto simp: repository_renew_def Let_def)
  with owner_outcome_guarded [OF g [unfolded catalog_renew_def]] read_clock_eq [OF c]
  show ?thesis unfolding owner_outcome_def by auto
qed

lemma repository_mark_outcome:
  assumes "repository_mark_transcribing env t w = (r, w')"
  shows "\<exists>now. owner_outcome
    (mark_asr_job_transcribing (token_job_id t) (token_claimed_by t) (token_claim_generation t) now) w r w'"
proof -
  obtain now w1 where c: "read_clock env w = (now, w1)" by fastforce
  obtain x w2 where g: "catalog_mark_transcribing env t (canonical_time now) w1 = (x, w2)" by fastforce
  have "r = and_then (map_err map_catalog_error x) owned_mutation" "w' = w2"
    using assms c g by (auto simp: repository_mark_transcribing_def Let_def)
  with owner_outcome_guarded [OF g [unfolded catalog_mark_transcribing_def]] read_clock_eq [OF c]
  show ?thesis unfolding owner_outcome_def by auto
qed

lemma repository_fail_outcome:
  assumes "repository_fail env t code summary w = (r, w')"
  shows "\<exists>now. owner_outcome (fail_asr_job (token_job_id t) (token_claimed_by t)
    (token_claim_generation t) now (error_name code) summary) w r w'"
proof -
  obtain now w1 where c: "read_clock env w = (now, w1)" by fastforce
  obtain x w2 where g: "catalog_fail env t (canonical_time now) (error_name code) summary w1 = (x, w2)" by fastforce
  have "r = and_then (map_err map_catalog_error x) owned_mutation" "w' = w2"
    using assms c g by (auto simp: repository_fail_def Let_def)
  with owner_outcome_guarded [OF g [unfolded catalog_fail_def]] read_clock_eq [OF c]
  show ?thesis unfolding owner_outcome_def by auto
qed

lemma repository_acknowledge_outcome:
  assumes "repository_acknowledge_cancel env t w = (r, w')" "world_ok w"
  shows "queue_step\<^sup>*\<^sup>* (world_catalog w) (world_catalog w') \<and>
    (case r of
       Inr _ \<Rightarrow> (\<exists>j. find_job (token_job_id t) (world_catalog w') = Some j \<and> job_state j = Cancelled \<and>
         job_claimed_by j = None)
     | Inl e \<Rightarrow> world_catalog w' = world_catalog w \<and> e \<noteq> JobCancelRequested)"
proof -
  obtain now w1 where c: "read_clock env w = (now, w1)" by fastforce
  obtain x w2 where g: "catalog_acknowledge_cancel env t (canonical_time now) w1 = (x, w2)" by fastforce
  have r: "r = and_then (map_err map_catalog_error x) owned" "w' = w2"
    using assms(1) c g by (auto simp: repository_acknowledge_cancel_def Let_def)
  have same: "world_catalog w1 = world_catalog w" using read_clock_eq [OF c] .
  from guarded_total [OF g [unfolded catalog_acknowledge_cancel_def]] show ?thesis
  proof (elim disjE exE conjE)
    fix e assume "x = Inl e" "world_catalog w2 = world_catalog w1"
    then show ?thesis using same catalog_error_not_lost by (simp add: r)
  next
    fix n assume n: "x = Inr n"
      and a: "acknowledge_asr_job_cancel (token_job_id t) (token_claimed_by t) (token_claim_generation t)
        (canonical_time now) (world_catalog w1) = (n, world_catalog w2)"
    have "queue_step\<^sup>*\<^sup>* (world_catalog w) (world_catalog w2)"
      using step_acknowledge [OF a] same by auto
    with acknowledge_result [OF _ a] world_ids [OF assms(2)] same n
    show ?thesis by (auto simp: r owned_def)
  qed
qed

text \<open>What a failing call of the coordinator leaves: a lost claim is dropped, a requested cancellation
  has been carried out and the claim dropped, and any other error keeps the coordinator as it was.\<close>

definition error_settled :: "ClaimToken \<Rightarrow> coordinator_state \<Rightarrow> JobError \<Rightarrow> coordinator_state \<Rightarrow> catalog \<Rightarrow> bool" where
  "error_settled t c e c' cat \<longleftrightarrow> (case e of
      JobOwnershipLost \<Rightarrow> coordinator_active c' = None
    | JobCancelRequested \<Rightarrow> coordinator_active c' = None \<and>
        (\<exists>j. find_job (token_job_id t) cat = Some j \<and> job_state j = Cancelled \<and> job_claimed_by j = None)
    | _ \<Rightarrow> c' = c)"

lemma acknowledge_settles:
  assumes "coordinator_acknowledge_cancel env c w = (r, c', w')" "world_ok w"
    and "coordinator_active c = Some claim"
  shows "queue_step\<^sup>*\<^sup>* (world_catalog w) (world_catalog w') \<and>
    (case r of
       Inr _ \<Rightarrow> coordinator_active c' = None \<and> (\<exists>j. find_job (token_job_id (claim_token claim)) (world_catalog w') = Some j \<and>
         job_state j = Cancelled \<and> job_claimed_by j = None)
     | Inl e \<Rightarrow> e \<noteq> JobCancelRequested \<and> error_settled (claim_token claim) c e c' (world_catalog w') \<and>
         world_catalog w' = world_catalog w)"
proof -
  obtain x w1 where a: "repository_acknowledge_cancel env (claim_token claim) w = (x, w1)" by fastforce
  from repository_acknowledge_outcome [OF a assms(2)] assms(1,3) a show ?thesis
    by (cases x) (auto simp: coordinator_acknowledge_cancel_def active_token_def clear_if_ownership_lost_def
        error_settled_def Let_def split: JobError.splits)
qed

lemma world_ok_steps:
  assumes "queue_step\<^sup>*\<^sup>* (world_catalog w) (world_catalog w')" "world_ok w"
  shows "world_ok w'"
  using queue_life.reachable_inv [OF assms(1)] assms(2) by (simp add: world_ok_def)

lemma handle_running_outcome:
  assumes out: "owner_outcome f w r w1"
    and run: "handle_running_result env r c w1 = (r', c', w')"
    and ok: "world_ok w" and act: "coordinator_active c = Some claim"
    and step: "queue_step (world_catalog w) (snd (f (world_catalog w)))"
  shows "queue_step\<^sup>*\<^sup>* (world_catalog w) (world_catalog w') \<and>
    (case r' of Inr _ \<Rightarrow> c' = c \<and> f (world_catalog w) = (Updated, world_catalog w')
     | Inl e \<Rightarrow> error_settled (claim_token claim) c e c' (world_catalog w'))"
  using out unfolding owner_outcome_def
proof (elim disjE exE conjE)
  fix e assume "r = Inl (map_catalog_error e)" "world_catalog w1 = world_catalog w"
  with run catalog_error_not_lost [of e] show ?thesis
    by (cases "map_catalog_error e")
      (auto simp: handle_running_result_def clear_if_ownership_lost_def error_settled_def Let_def)
next
  assume "r = Inr ()" "f (world_catalog w) = (Updated, world_catalog w1)"
  with run step show ?thesis
    by (auto simp: handle_running_result_def clear_if_ownership_lost_def Let_def)
next
  assume "r = Inl JobOwnershipLost" "f (world_catalog w) = (OwnershipLost, world_catalog w1)"
  with run step show ?thesis
    by (auto simp: handle_running_result_def clear_if_ownership_lost_def error_settled_def Let_def)
next
  assume r: "r = Inl JobCancelRequested" and f: "f (world_catalog w) = (CancelRequested, world_catalog w1)"
  have first: "queue_step (world_catalog w) (world_catalog w1)" using step f by simp
  then have ok1: "world_ok w1" using world_ok_steps ok by blast
  obtain a c2 w2 where ack: "coordinator_acknowledge_cancel env c w1 = (a, c2, w2)" by (metis prod_cases3)
  have res: "c' = c2 \<and> w' = w2 \<and> r' = (case a of Inl e \<Rightarrow> Inl e | Inr _ \<Rightarrow> Inl JobCancelRequested)"
    using run r ack by (auto simp: handle_running_result_def Let_def split: sum.splits)
  note settled = acknowledge_settles [OF ack ok1 act]
  then have steps: "queue_step\<^sup>*\<^sup>* (world_catalog w) (world_catalog w')"
    using first res by (auto intro: converse_rtranclp_into_rtranclp)
  show ?thesis
  proof (cases a)
    case (Inl e)
    with settled have "error_settled (claim_token claim) c e c2 (world_catalog w2)"
      unfolding Inl sum.case by (elim conjE)
    with Inl res steps show ?thesis by simp
  next
    case (Inr u)
    with settled res steps show ?thesis by (auto simp: error_settled_def)
  qed
qed


text \<open>The lease-renewing prefix of every running call.\<close>

lemma renew_active_outcome:
  assumes "renew_active env c w = (r, c', w')" "world_ok w" "coordinator_active c = Some claim"
  shows "queue_step\<^sup>*\<^sup>* (world_catalog w) (world_catalog w') \<and>
    (case r of
       Inr _ \<Rightarrow> (\<exists>claim' now lease. c' = c\<lparr>coordinator_active := Some claim'\<rparr> \<and> claim_token claim' = claim_token claim \<and>
         claim_id claim' = claim_id claim \<and>
         renew_asr_job (token_job_id (claim_token claim)) (token_claimed_by (claim_token claim))
           (token_claim_generation (claim_token claim)) now lease (world_catalog w) = (Updated, world_catalog w'))
     | Inl e \<Rightarrow> error_settled (claim_token claim) c e c' (world_catalog w'))"
proof -
  let ?t = "claim_token claim"
  obtain x w1 where a: "repository_renew env ?t w = (x, w1)" by fastforce
  obtain y c2 w2 where h: "handle_running_result env x c w1 = (y, c2, w2)" by (metis prod_cases3)
  from repository_renew_outcome [OF a] obtain now lease
    where out: "owner_outcome (renew_asr_job (token_job_id ?t) (token_claimed_by ?t) (token_claim_generation ?t) now lease) w x w1"
    by blast
  note res = handle_running_outcome [OF out h assms(2,3) step_renew [OF surjective_pairing]]
  show ?thesis
  proof (cases y)
    case (Inl e)
    with assms(1,3) a h have "r = Inl e" "c' = c2" "w' = w2"
      by (auto simp: renew_active_def active_token_def Let_def)
    with res Inl show ?thesis by simp
  next
    case (Inr u)
    with res have c2: "c2 = c" by simp
    obtain n w3 where n: "read_clock env w2 = (n, w3)" by fastforce
    have "r = Inr ()" "w' = w3" "c' = c\<lparr>coordinator_active := Some (claim\<lparr>claim_renew_at := n + seconds RENEW_SECONDS,
        claim_lease_expires_at := n + seconds LEASE_SECONDS\<rparr>)\<rparr>"
      using assms(1,3) a h Inr c2 n by (auto simp: renew_active_def active_token_def Let_def)
    moreover have "renew_asr_job (token_job_id ?t) (token_claimed_by ?t) (token_claim_generation ?t) now lease
        (world_catalog w) = (Updated, world_catalog w3)"
      "queue_step\<^sup>*\<^sup>* (world_catalog w) (world_catalog w3)"
      using res Inr read_clock_eq [OF n] by simp_all
    ultimately show ?thesis
      by (auto intro!: exI [of _ "claim\<lparr>claim_renew_at := n + seconds RENEW_SECONDS,
        claim_lease_expires_at := n + seconds LEASE_SECONDS\<rparr>"])
  qed
qed

lemma renew_active_none:
  "coordinator_active c = None \<Longrightarrow> renew_active env c w = (Inl JobOwnershipLost, c, w)"
  by (simp add: renew_active_def active_token_def)

text \<open>What a finished call says about the job and about the claim.\<close>

definition call_settled ::
    "(job_row \<Rightarrow> bool) \<Rightarrow> (ClaimedJob option \<Rightarrow> bool) \<Rightarrow> ClaimToken \<Rightarrow> JobError + unit \<Rightarrow> coordinator_state \<Rightarrow> catalog \<Rightarrow> bool" where
  "call_settled row kept t r c' cat \<longleftrightarrow> (case r of
      Inr _ \<Rightarrow> kept (coordinator_active c') \<and> (\<exists>j. find_job (token_job_id t) cat = Some j \<and> row j)
    | Inl JobOwnershipLost \<Rightarrow> coordinator_active c' = None
    | Inl JobCancelRequested \<Rightarrow> coordinator_active c' = None \<and>
        (\<exists>j. find_job (token_job_id t) cat = Some j \<and> job_state j = Cancelled \<and> job_claimed_by j = None)
    | Inl e \<Rightarrow> (\<exists>claim. coordinator_active c' = Some claim \<and> claim_token claim = t))"

lemma settled_error_call:
  assumes "error_settled t c e c' cat" "coordinator_active c = Some claim" "claim_token claim = t"
  shows "call_settled row kept t (Inl e) c' cat"
  using assms by (cases e) (auto simp: error_settled_def call_settled_def)

text \<open>
  Starting a claimed job, on every outcome.  Success means the job is being transcribed under
  this claim, with no cancellation requested, and the claim is kept; "ownership lost" means the
  claim has been dropped; "cancel requested" means the cancellation has been carried out in the
  catalog and the claim dropped; any other error leaves the claim as it was.  The catalog moves only
  by steps of the queue.
\<close>

theorem enter_transcribing_settles:
  assumes "world_ok w" "coordinator_active c = Some claim"
    and "enter_transcribing env c w = (r, c', w')"
  shows "queue_step\<^sup>*\<^sup>* (world_catalog w) (world_catalog w') \<and>
    call_settled (\<lambda>j. job_state j = Transcribing \<and> job_cancel_requested_at j = None \<and>
        claimed_as (token_job_id (claim_token claim)) (token_claimed_by (claim_token claim))
          (token_claim_generation (claim_token claim)) j)
      (\<lambda>a. \<exists>claim'. a = Some claim' \<and> claim_token claim' = claim_token claim)
      (claim_token claim) r c' (world_catalog w')"
proof -
  let ?t = "claim_token claim"
  obtain x c1 w1 where a: "renew_active env c w = (x, c1, w1)" by (metis prod_cases3)
  note first = renew_active_outcome [OF a assms(1,2)]
  show ?thesis
  proof (cases x)
    case (Inl e)
    with a assms(3) have "r = Inl e" "c' = c1" "w' = w1" by (auto simp: enter_transcribing_def)
    with first Inl show ?thesis using settled_error_call [OF _ assms(2) refl] by simp
  next
    case (Inr u)
    with first obtain claim' where c1: "c1 = c\<lparr>coordinator_active := Some claim'\<rparr>" "claim_token claim' = ?t" by auto
    have ok1: "world_ok w1" using first world_ok_steps assms(1) by blast
    obtain y w2 where m: "repository_mark_transcribing env ?t w1 = (y, w2)" by fastforce
    have h: "handle_running_result env y c1 w2 = (r, c', w')"
      using assms(3) a Inr m c1 by (simp add: enter_transcribing_def active_token_def)
    from repository_mark_outcome [OF m] obtain now
      where out: "owner_outcome (mark_asr_job_transcribing (token_job_id ?t) (token_claimed_by ?t) (token_claim_generation ?t) now) w1 y w2"
      by blast
    have act: "coordinator_active c1 = Some claim'" using c1 by simp
    note res = handle_running_outcome [OF out h ok1 act step_mark [OF surjective_pairing]]
    have steps: "queue_step\<^sup>*\<^sup>* (world_catalog w) (world_catalog w')" using first res by auto
    show ?thesis
    proof (cases r)
      case e: (Inl e)
      with res settled_error_call [OF _ act c1(2)] c1(2) steps show ?thesis by simp
    next
      case (Inr v)
      with res have "mark_asr_job_transcribing (token_job_id ?t) (token_claimed_by ?t) (token_claim_generation ?t) now
          (world_catalog w1) = (Updated, world_catalog w')" "c' = c1" by simp_all
      note upd = this(1) [unfolded mark_asr_job_transcribing_def]
      obtain j where "live_claim (token_job_id ?t) (token_claimed_by ?t) (token_claim_generation ?t) now j"
        "job_cancel_requested_at j = None"
        "find_job (token_job_id ?t) (world_catalog w') = Some (j\<lparr>job_state := Transcribing, job_updated_at := now\<rparr>)"
        by (rule owned_update_updated [OF world_ids [OF ok1] _ upd]) simp_all
      then show ?thesis using Inr steps c1 \<open>c' = c1\<close>
        by (auto simp: call_settled_def live_claim_def claimed_as_def)
    qed
  qed
qed

text \<open>
  Failing a claimed job, on every outcome.  Success means the job has failed with the named code
  and summary, has no claimant, and the claim is dropped; the errors are those of starting a job.
\<close>

theorem coordinator_fail_settles:
  assumes "world_ok w" "coordinator_active c = Some claim"
    and "coordinator_fail env code summary c w = (r, c', w')"
  shows "queue_step\<^sup>*\<^sup>* (world_catalog w) (world_catalog w') \<and>
    call_settled (\<lambda>j. job_state j = Failed \<and> job_claimed_by j = None \<and> job_lease_expires_at j = None \<and>
        job_error_code j = Some (error_name code) \<and> job_error_summary j = Some summary)
      (\<lambda>a. a = None) (claim_token claim) r c' (world_catalog w')"
proof -
  let ?t = "claim_token claim"
  obtain x c1 w1 where a: "renew_active env c w = (x, c1, w1)" by (metis prod_cases3)
  note first = renew_active_outcome [OF a assms(1,2)]
  show ?thesis
  proof (cases x)
    case (Inl e)
    with a assms(3) have "r = Inl e" "c' = c1" "w' = w1" by (auto simp: coordinator_fail_def)
    with first Inl show ?thesis using settled_error_call [OF _ assms(2) refl] by simp
  next
    case (Inr u)
    with first obtain claim' where c1: "c1 = c\<lparr>coordinator_active := Some claim'\<rparr>" "claim_token claim' = ?t" by auto
    have ok1: "world_ok w1" using first world_ok_steps assms(1) by blast
    obtain y w2 where m: "repository_fail env ?t code summary w1 = (y, w2)" by fastforce
    obtain z c2 w3 where h: "handle_running_result env y c1 w2 = (z, c2, w3)" by (metis prod_cases3)
    have fin: "r = z" "w' = w3" "c' = (case z of Inr _ \<Rightarrow> c2\<lparr>coordinator_active := None\<rparr> | Inl _ \<Rightarrow> c2)"
      using assms(3) a Inr m c1 h by (auto simp: coordinator_fail_def finish_fail_def active_token_def)
    from repository_fail_outcome [OF m] obtain now
      where out: "owner_outcome (fail_asr_job (token_job_id ?t) (token_claimed_by ?t) (token_claim_generation ?t) now
        (error_name code) summary) w1 y w2" by blast
    have act: "coordinator_active c1 = Some claim'" using c1 by simp
    note res = handle_running_outcome [OF out h ok1 act step_fail [OF surjective_pairing]]
    have steps: "queue_step\<^sup>*\<^sup>* (world_catalog w) (world_catalog w')" using first res fin by auto
    show ?thesis
    proof (cases z)
      case e: (Inl e)
      with res settled_error_call [OF _ act c1(2)] c1(2) steps fin show ?thesis by simp
    next
      case (Inr v)
      with res fin have "fail_asr_job (token_job_id ?t) (token_claimed_by ?t) (token_claim_generation ?t) now
          (error_name code) summary (world_catalog w1) = (Updated, world_catalog w')" by simp
      note upd = this [unfolded fail_asr_job_def]
      obtain j where "find_job (token_job_id ?t) (world_catalog w') = Some (j\<lparr>job_state := Failed, job_claimed_by := None,
          job_lease_expires_at := None, job_error_code := Some (error_name code), job_error_summary := Some summary,
          job_updated_at := now\<rparr>)"
        by (rule owned_update_updated [OF world_ids [OF ok1] _ upd]) simp_all
      then show ?thesis using Inr steps fin by (auto simp: call_settled_def)
    qed
  qed
qed

text \<open>
  Recovery as a worker runs it.  On success it keeps a claim only when the catalog says the claim
  is still its own, and whatever still runs belongs to this boot under a lease that had not run out;
  on an error it either keeps everything or drops its claim.  The catalog moves by queue steps only.
\<close>

theorem recover_keeps_only_owned:
  assumes "world_ok w" "coordinator_recover env c w = (r, c', w')"
  shows "queue_step\<^sup>*\<^sup>* (world_catalog w) (world_catalog w') \<and>
    (case r of
       Inr outcome \<Rightarrow>
         (\<forall>claim. coordinator_active c' = Some claim \<longrightarrow> coordinator_active c = Some claim \<and>
            owns_running_asr_job (token_job_id (claim_token claim)) (token_claimed_by (claim_token claim))
              (token_claim_generation (claim_token claim)) (world_catalog w')) \<and>
         (\<exists>now. \<forall>j \<in> set (jobs (world_catalog w')). running_row j \<longrightarrow> lease_after (job_lease_expires_at j) now \<and>
            (\<exists>owner. job_claimed_by j = Some owner \<and> env_boot_of env owner = Some (coordinator_boot_id c)))
     | Inl e \<Rightarrow> coordinator_active c' = None \<or> c' = c)"
proof -
  obtain now w1 where clk: "read_clock env w = (now, w1)" by fastforce
  let ?retry = "\<lambda>attempt. canonical_time (now + seconds (recovery_delay attempt))"
  obtain x w2 where g: "guarded env (rollback_op (recover_asr_jobs (env_boot_of env) (coordinator_boot_id c)
      ?retry (canonical_time now))) w1 = (x, w2)" by fastforce
  have rep: "repository_recover env (coordinator_boot_id c) w = (map_err map_catalog_error (and_then x (\<lambda>c.
      Inr \<lparr>recovery_requeued = requeued c, recovery_cancelled = cancelled c, recovery_exhausted = exhausted c\<rparr>)), w2)"
    using clk g by (simp add: repository_recover_def)
  have same: "world_catalog w1 = world_catalog w" using read_clock_eq [OF clk] .
  have ok1: "queue_ok (jobs (world_catalog w1))" using assms(1) same by (simp add: world_ok_def)
  from recover_asr_jobs_exact [OF ok1, of "env_boot_of env" "coordinator_boot_id c" ?retry "canonical_time now"]
  obtain counts cat' where rec: "recover_asr_jobs (env_boot_of env) (coordinator_boot_id c) ?retry (canonical_time now)
      (world_catalog w1) = Inr (counts, cat')"
    and live: "\<forall>j \<in> set (jobs cat'). running_row j \<longrightarrow> lease_after (job_lease_expires_at j) (canonical_time now) \<and>
       (\<exists>owner. job_claimed_by j = Some owner \<and> env_boot_of env owner = Some (coordinator_boot_id c))" by blast
  then have live_ex: "\<exists>now. \<forall>j \<in> set (jobs cat'). running_row j \<longrightarrow> lease_after (job_lease_expires_at j) now \<and>
       (\<exists>owner. job_claimed_by j = Some owner \<and> env_boot_of env owner = Some (coordinator_boot_id c))" by blast
  show ?thesis
  proof (cases "env_refusal env (world_calls w1)")
    case (Some e)
    with g have "x = Inl e" "world_catalog w2 = world_catalog w1" by (auto simp: guarded_def Let_def)
    with assms(2) rep same show ?thesis by (auto simp: coordinator_recover_def)
  next
    case None
    with g rec have x: "x = Inr counts" "world_catalog w2 = cat'"
      by (auto simp: guarded_def rollback_op_def Let_def)
    have step: "queue_step\<^sup>*\<^sup>* (world_catalog w) cat'" using step_recover [OF rec] same by auto
    show ?thesis
    proof (cases "coordinator_active c")
      case None
      with assms(2) rep x have "r = Inr \<lparr>recovery_requeued = requeued counts, recovery_cancelled = cancelled counts,
          recovery_exhausted = exhausted counts\<rparr>" "c' = c" "world_catalog w' = cat'"
        by (auto simp: coordinator_recover_def)
      with None step live_ex show ?thesis by simp
    next
      case (Some claim)
      obtain y w3 where own: "repository_owns_running env (claim_token claim) w2 = (y, w3)" by fastforce
      then have w3: "world_catalog w3 = cat'"
        and y: "y = Inr b \<Longrightarrow> b = owns_running_asr_job (token_job_id (claim_token claim))
          (token_claimed_by (claim_token claim)) (token_claim_generation (claim_token claim)) cat'" for b
        using x by (auto simp: repository_owns_running_def guarded_def query_op_def Let_def split: option.splits)
      have res: "(r, c', w') = (case y of Inr True \<Rightarrow> (Inr \<lparr>recovery_requeued = requeued counts,
            recovery_cancelled = cancelled counts, recovery_exhausted = exhausted counts\<rparr>, c, w3)
          | Inr False \<Rightarrow> (Inr \<lparr>recovery_requeued = requeued counts,
            recovery_cancelled = cancelled counts, recovery_exhausted = exhausted counts\<rparr>,
            c\<lparr>coordinator_active := None\<rparr>, w3)
          | Inl e \<Rightarrow> (Inl e, c\<lparr>coordinator_active := None\<rparr>, w3))"
        using assms(2) rep x Some own by (simp add: coordinator_recover_def)
      show ?thesis
      proof (cases y)
        case (Inl e)
        with res w3 step show ?thesis by simp
      next
        case (Inr b)
        with res y [OF Inr] w3 step live_ex Some show ?thesis by (cases b) simp_all
      qed
    qed
  qed
qed

text \<open>The result of a transcription fits a job: all that publishing asks besides the claim.\<close>

definition result_fits ::
    "string \<Rightarrow> string \<Rightarrow> ProviderReceipt \<Rightarrow> TranscriptSegmentPublication list \<Rightarrow> catalog \<Rightarrow> job_row \<Rightarrow> chunk_row \<Rightarrow> bool" where
  "result_fits receipt_id rid receipt segs cat j c \<longleftrightarrow>
     find_chunk (job_chunk_id j) cat = Some c \<and> receipt_job_id receipt = job_id j \<and>
     validate_receipt (receipt_row_of receipt) (context_of j c) = Inr () \<and>
     list_all (\<lambda>s. \<not> invalid_segment s \<and>
        (case chunk_duration_ms c of None \<Rightarrow> True | Some d \<Rightarrow> pub_chunk_end_ms s \<le> d)) segs \<and>
     \<not> list_ex (\<lambda>x. rcpt_id x = receipt_id \<or> rcpt_job_id x = job_id j) (receipts cat) \<and>
     (segs = [] \<or> list_all (placeable (context_of j c)) segs \<and> distinct (map pub_segment_id segs) \<and>
        list_all (\<lambda>s. \<not> used_segment cat rid (pub_segment_id s)) segs \<and>
        \<not> list_ex (\<lambda>x. rev_id x = rid) (revisions cat) \<and>
        \<not> list_ex (\<lambda>(v, r). r = receipt_id) (revision_receipts cat))"

lemma publication_ready_fits:
  "publication_ready receipt_id rid t receipt segs now cat j c \<longleftrightarrow>
     j \<in> set (jobs cat) \<and> publishable t (canonical_time now) j \<and> result_fits receipt_id rid receipt segs cat j c"
  by (simp add: publication_ready_def result_fits_def)

lemma result_fits_jobs:
  assumes "result_fits receipt_id rid receipt segs cat j c" "context_of k c = context_of j c" "job_id k = job_id j"
  shows "result_fits receipt_id rid receipt segs (cat\<lparr>jobs := rows\<rparr>) k c"
proof -
  have "job_chunk_id k = job_chunk_id j" using arg_cong [OF assms(2), of ctx_chunk_id] by (simp add: context_of_def)
  with assms show ?thesis by (simp add: result_fits_def find_chunk_def used_segment_def)
qed

lemma canonical_lease:
  assumes "t \<le> u + seconds 29"
  shows "canonical_time t < canonical_time (u + seconds LEASE_SECONDS)"
proof -
  have "t + 1000000000 \<le> u + 30000000000" using assms by (simp add: seconds_def)
  then have "(t + 1000 * 1000000) div 1000000 \<le> (u + 30000000000) div 1000000"
    by (intro zdiv_mono1) simp_all
  then show ?thesis by (simp add: canonical_time_def seconds_def LEASE_SECONDS_def div_mult_self1)
qed

lemma guarded_open:
  "env_refusal env = (\<lambda>_. None) \<Longrightarrow> guarded env (total_op f) w =
     (Inr (fst (f (world_catalog w))), w\<lparr>world_calls := world_calls w + 1, world_catalog := snd (f (world_catalog w))\<rparr>)"
  by (simp add: guarded_def total_op_def split: prod.splits)

text \<open>The rows a claim and a renewal leave behind.\<close>

definition renewed_row :: "millis \<Rightarrow> millis \<Rightarrow> job_row \<Rightarrow> job_row" where
  "renewed_row now lease j = j\<lparr>job_lease_expires_at := Some lease, job_updated_at := now\<rparr>"

definition started_row :: "millis \<Rightarrow> job_row \<Rightarrow> job_row" where
  "started_row now j = j\<lparr>job_state := Transcribing, job_updated_at := now\<rparr>"

lemma renew_hit:
  assumes "distinct (map job_id (jobs cat))" "j \<in> set (jobs cat)" "claimed_as i owner g j"
    "running_state (job_state j)" "job_cancel_requested_at j = None" "lease_after (job_lease_expires_at j) now"
  shows "renew_asr_job i owner g now lease cat =
    (Updated, cat\<lparr>jobs := update_where (\<lambda>r. job_id r = i) (renewed_row now lease) (jobs cat)\<rparr>)"
  unfolding renew_asr_job_def renewed_row_def [abs_def] using assms by (rule owned_update_hit)

lemma mark_hit:
  assumes "distinct (map job_id (jobs cat))" "j \<in> set (jobs cat)" "claimed_as i owner g j"
    "job_state j = Preparing" "job_cancel_requested_at j = None" "lease_after (job_lease_expires_at j) now"
  shows "mark_asr_job_transcribing i owner g now cat =
    (Updated, cat\<lparr>jobs := update_where (\<lambda>r. job_id r = i) (started_row now) (jobs cat)\<rparr>)"
  unfolding mark_asr_job_transcribing_def started_row_def [abs_def] using assms by (rule owned_update_hit)

lemma row_context:
  "context_of (claimed_row owner now lease j) c = context_of j c"
  "context_of (renewed_row now lease j) c = context_of j c"
  "context_of (started_row now j) c = context_of j c"
  by (simp_all add: context_of_def claimed_row_def renewed_row_def started_row_def)

lemma row_ids [simp]:
  "job_id (claimed_row owner now lease j) = job_id j" "job_id (renewed_row now lease j) = job_id j"
  "job_id (started_row now j) = job_id j"
  by (simp_all add: claimed_row_def renewed_row_def started_row_def)

lemma update_where_in:
  "j \<in> set rows \<Longrightarrow> p j \<Longrightarrow> f j \<in> set (update_where p f rows)"
  by (auto simp: set_update_where)

lemma update_key_ids:
  "(\<And>j. job_id (f j) = job_id j) \<Longrightarrow> map job_id (update_where p f rows) = map job_id rows"
  by (rule map_update_where)

lemma same_key_updates:
  assumes "\<And>j. job_id (f j) = job_id j"
  shows "update_where (\<lambda>r. job_id r = i) g (update_where (\<lambda>r. job_id r = i) f rows) =
    update_where (\<lambda>r. job_id r = i) (g \<circ> f) rows"
  using assms by (induction rows) auto

text \<open>From a claim to the started job, when nothing interferes.\<close>

lemma start_claimed:
  assumes ok: "queue_ok (jobs cat)" and j: "j \<in> set (jobs cat)" "job_id j = i"
    and first: "claim_asr_job owner t0 l0 cat = (Inr (Some \<lparr>claimed_id = i, claimed_attempt_count = n,
        claimed_generation = g\<rparr>), cat1)"
    and lease: "t1 < l0" "t2 < l1"
  shows "\<exists>f cat2 cat3. cat1 = cat\<lparr>jobs := update_where (\<lambda>r. job_id r = i) (claimed_row owner t0 l0) (jobs cat)\<rparr> \<and>
    renew_asr_job i owner g t1 l1 cat1 = (Updated, cat2) \<and>
    mark_asr_job_transcribing i owner g t2 cat2 = (Updated, cat3) \<and>
    cat3 = cat\<lparr>jobs := update_where (\<lambda>r. job_id r = i) f (jobs cat)\<rparr> \<and>
    (\<forall>j. job_id (f j) = job_id j) \<and> (\<forall>j c. context_of (f j) c = context_of j c) \<and>
    claimed_as i owner g (f j) \<and> job_state (f j) = Transcribing \<and>
    job_cancel_requested_at (f j) = None \<and> job_lease_expires_at (f j) = Some l1"
proof -
  have ids: "distinct (map job_id (jobs cat))" using ok by (simp add: queue_ok_def)
  let ?K = "\<lambda>r. job_id r = i"
  from claim_cases [OF ids, of t0 owner l0] first obtain c
    where c: "c \<in> set (jobs cat)" "claimable cat t0 c" "job_id c = i" "g = job_claim_generation c + 1"
      and cat1: "cat1 = cat\<lparr>jobs := update_where ?K (claimed_row owner t0 l0) (jobs cat)\<rparr>"
    by auto
  have "c = j" using distinct_key_unique [OF ids c(1) j(1)] c(3) j(2) by simp
  let ?r1 = "claimed_row owner t0 l0 j"
  let ?r2 = "renewed_row t1 l1 ?r1"
  have r1: "?r1 \<in> set (jobs cat1)" using update_where_in [OF j(1), of ?K] j(2) by (simp add: cat1)
  have s1: "claimed_as i owner g ?r1" "running_state (job_state ?r1)" "job_cancel_requested_at ?r1 = None"
    "lease_after (job_lease_expires_at ?r1) t1"
    using c(2-4) lease(1) j(2) by (simp_all add: \<open>c = j\<close> claimed_as_def claimed_row_def claimable_def lease_after_def)
  have ids1: "distinct (map job_id (jobs cat1))" using ids by (simp add: cat1 update_key_ids)
  note renew = renew_hit [OF ids1 r1 s1, of l1]
  let ?cat2 = "cat1\<lparr>jobs := update_where ?K (renewed_row t1 l1) (jobs cat1)\<rparr>"
  have r2: "?r2 \<in> set (jobs ?cat2)" using update_where_in [OF r1, of ?K] j(2) by simp
  have s2: "claimed_as i owner g ?r2" "job_state ?r2 = Preparing" "job_cancel_requested_at ?r2 = None"
    "lease_after (job_lease_expires_at ?r2) t2"
    using s1 lease(2) by (simp_all add: claimed_as_def renewed_row_def lease_after_def claimed_row_def)
  have ids2: "distinct (map job_id (jobs ?cat2))" using ids1 by (simp add: update_key_ids)
  note mark = mark_hit [OF ids2 r2 s2]
  let ?f = "started_row t2 \<circ> renewed_row t1 l1 \<circ> claimed_row owner t0 l0"
  have "jobs cat1 = update_where ?K (claimed_row owner t0 l0) (jobs cat)" by (simp add: cat1)
  then have cat3: "?cat2\<lparr>jobs := update_where ?K (started_row t2) (jobs ?cat2)\<rparr> =
      cat\<lparr>jobs := update_where ?K ?f (jobs cat)\<rparr>"
    by (simp add: cat1 same_key_updates comp_assoc)
  have "claimed_as i owner g (?f j)" "job_state (?f j) = Transcribing" "job_cancel_requested_at (?f j) = None"
    "job_lease_expires_at (?f j) = Some l1"
    using s2 by (simp_all add: claimed_as_def started_row_def renewed_row_def)
  then show ?thesis
    using renew mark cat1 cat3
    by (intro exI [of _ ?f] exI [of _ ?cat2] exI [of _ "cat\<lparr>jobs := update_where ?K ?f (jobs cat)\<rparr>"])
      (simp add: row_context)
qed

text \<open>The job that is first in line is the one a claim hands out.\<close>

lemma first_in_line_claimed:
  assumes ids: "distinct (map job_id (jobs cat))" and j: "j \<in> set (jobs cat)" "claimable cat now j"
    and first: "\<forall>k \<in> set (jobs cat). claimable cat now k \<longrightarrow>
      (job_available_at j, job_created_at j, job_id j) \<le> (job_available_at k, job_created_at k, job_id k)"
  shows "\<exists>cat1. claim_asr_job owner now lease cat =
    (Inr (Some \<lparr>claimed_id = job_id j, claimed_attempt_count = job_attempt_count j + 1,
       claimed_generation = job_claim_generation j + 1\<rparr>), cat1)"
proof -
  from claim_cases [OF ids, of now owner lease] j obtain d where d: "d \<in> set (jobs cat)" "claimable cat now d"
    "(job_available_at d, job_created_at d, job_id d) \<le> (job_available_at j, job_created_at j, job_id j)"
    "\<exists>x. claim_asr_job owner now lease cat = (Inr (Some \<lparr>claimed_id = job_id d,
       claimed_attempt_count = job_attempt_count d + 1, claimed_generation = job_claim_generation d + 1\<rparr>), x)"
    by (metis (no_types, lifting))
  have "(job_available_at j, job_created_at j, job_id j) \<le> (job_available_at d, job_created_at d, job_id d)"
    using first d(1,2) by simp
  with d(3) have "(job_available_at d, job_created_at d, job_id d) = (job_available_at j, job_created_at j, job_id j)"
    by (rule order_antisym)
  then have "d = j" using distinct_key_unique [OF ids d(1) j(1)] by simp
  with d(4) show ?thesis by blast
qed

text \<open>From a claim to the published result, when nothing interferes.\<close>

lemma claimed_job_publishes:
  assumes q: "queue_ok (jobs cat)" and j: "j \<in> set (jobs cat)"
    and claim: "claim_asr_job owner t0 l0 cat = (Inr (Some \<lparr>claimed_id = job_id j, claimed_attempt_count = n,
        claimed_generation = g\<rparr>), cat1)"
    and lease: "t1 < l0" "t2 < l1" "canonical_time now < l1"
    and fits: "result_fits receipt_id rid receipt segs cat j ch"
  shows "\<exists>cat2 cat3 out cat4 k. renew_asr_job (job_id j) owner g t1 l1 cat1 = (Updated, cat2) \<and>
    mark_asr_job_transcribing (job_id j) owner g t2 cat2 = (Updated, cat3) \<and>
    publish_asr_result receipt_id rid \<lparr>token_job_id = job_id j, token_claimed_by = owner, token_claim_generation = g\<rparr>
      receipt segs now cat3 = Inr (out, cat4) \<and>
    find_job (job_id j) cat4 = Some k \<and> job_state k = Succeeded"
proof -
  let ?i = "job_id j" and ?now = "canonical_time now"
  from start_claimed [OF q j refl claim lease(1,2)] obtain f cat2 cat3
    where renew: "renew_asr_job ?i owner g t1 l1 cat1 = (Updated, cat2)"
      and mark: "mark_asr_job_transcribing ?i owner g t2 cat2 = (Updated, cat3)"
      and cat3: "cat3 = cat\<lparr>jobs := update_where (\<lambda>r. job_id r = ?i) f (jobs cat)\<rparr>"
      and f: "\<forall>j. job_id (f j) = job_id j" "\<forall>j c. context_of (f j) c = context_of j c"
        "claimed_as ?i owner g (f j)" "job_state (f j) = Transcribing" "job_cancel_requested_at (f j) = None"
        "job_lease_expires_at (f j) = Some l1" by auto
  let ?t = "\<lparr>token_job_id = ?i, token_claimed_by = owner, token_claim_generation = g\<rparr>"
  have steps: "queue_step\<^sup>*\<^sup>* cat cat3"
    using step_claim [OF claim] step_renew [OF renew] step_mark [OF mark] by (meson r_into_rtranclp rtranclp_trans)
  have q3: "queue_ok (jobs cat3)" using queue_life.reachable_inv [OF steps] q by simp
  have fj: "f j \<in> set (jobs cat3)" using update_where_in [OF j] by (simp add: cat3)
  have pub: "publishable ?t ?now (f j)" using f lease(3) by (simp add: publishable_def lease_after_def)
  have "publication_ready receipt_id rid ?t receipt segs now cat3 (f j) ch"
    unfolding publication_ready_fits cat3
    using fj pub result_fits_jobs [OF fits, of "f j"] f(1,2) by (simp add: cat3)
  with publication_commits_iff [OF q3] obtain out cat4
    where pubd: "publish_asr_result receipt_id rid ?t receipt segs now cat3 = Inr (out, cat4)"
      and cat4: "cat4 = published_catalog receipt_id rid ?t receipt segs now cat3 (f j) ch" by blast
  have ids4: "distinct (map job_id (jobs cat4))"
    using publication_evolves [OF q3 pubd] by (simp add: queue_ok_def)
  have "succeeded_row ?now (f j) \<in> set (jobs cat4)"
    unfolding cat4 published_jobs by (rule update_where_in) (rule fj, rule pub)
  from find_job_in [OF ids4 this] f(1) have "find_job ?i cat4 = Some (succeeded_row ?now (f j))"
    by (simp add: succeeded_row_def)
  moreover have "job_state (succeeded_row ?now (f j)) = Succeeded" by (simp add: succeeded_row_def)
  ultimately show ?thesis using renew mark pubd by blast
qed

text \<open>
  C29: A waiting job can be transcribed.  When the guard and the database let calls through, the five
  clock readings lie within 29 seconds of each other, and the result fits the job that is first in
  line, then claiming, starting and publishing all succeed in turn, the claimed job is that job, and
  at the end it has succeeded.
\<close>

theorem transcription_can_complete:
  assumes ok: "world_ok w" and opened: "env_refusal env = (\<lambda>_. None)" and idle: "coordinator_active c = None"
    and clock: "\<And>m n. m \<le> 4 \<Longrightarrow> n \<le> 4 \<Longrightarrow>
      env_clock env (world_readings w + m) \<le> env_clock env (world_readings w + n) + seconds 29"
    and j: "j \<in> set (jobs (world_catalog w))"
      "claimable (world_catalog w) (canonical_time (env_clock env (world_readings w))) j"
    and first: "\<forall>k \<in> set (jobs (world_catalog w)).
      claimable (world_catalog w) (canonical_time (env_clock env (world_readings w))) k \<longrightarrow>
      (job_available_at j, job_created_at j, job_id j) \<le> (job_available_at k, job_created_at k, job_id k)"
    and fits: "result_fits receipt_id rid receipt segs (world_catalog w) j ch"
  shows "\<exists>claim c1 w1 c2 w2 out w3. claim_next env c w = (Inr (Some claim), c1, w1) \<and> claim_id claim = job_id j \<and>
    enter_transcribing env c1 w1 = (Inr (), c2, w2) \<and>
    coordinator_publish env receipt_id rid (claim_token claim) receipt segs c2 w2 = (Inr out, c2, w3) \<and>
    (\<exists>k. find_job (job_id j) (world_catalog w3) = Some k \<and> job_state k = Succeeded)"
proof -
  let ?cat = "world_catalog w" and ?n = "world_readings w" and ?i = "job_id j"
  let ?clk = "\<lambda>k. env_clock env (?n + k)"
  let ?o = "env_owner env (coordinator_boot_id c) (coordinator_worker_id c)"
  let ?t0 = "canonical_time (?clk 0)" and ?l0 = "canonical_time (?clk 0 + seconds LEASE_SECONDS)"
  let ?t1 = "canonical_time (?clk 1)" and ?l1 = "canonical_time (?clk 1 + seconds LEASE_SECONDS)"
  let ?t2 = "canonical_time (?clk 3)" and ?t3 = "canonical_time (?clk 4)"
  have q: "queue_ok (jobs ?cat)" using ok by (simp add: world_ok_def)
  have ids: "distinct (map job_id (jobs ?cat))" using q by (simp add: queue_ok_def)
  have lease: "?t1 < ?l0" "?t2 < ?l1" "?t3 < ?l1" by (intro canonical_lease clock; simp)+
  let ?g = "job_claim_generation j + 1"
  let ?token = "\<lparr>token_job_id = ?i, token_claimed_by = ?o, token_claim_generation = ?g\<rparr>"
  obtain cat1 where claim: "claim_asr_job ?o ?t0 ?l0 ?cat =
      (Inr (Some \<lparr>claimed_id = ?i, claimed_attempt_count = job_attempt_count j + 1, claimed_generation = ?g\<rparr>), cat1)"
    using first_in_line_claimed [OF ids, of j ?t0 ?o ?l0] j first by auto
  from claimed_job_publishes [OF q j(1) claim lease fits] obtain cat2 cat3 out cat4 k
    where renew: "renew_asr_job ?i ?o ?g ?t1 ?l1 cat1 = (Updated, cat2)"
      and mark: "mark_asr_job_transcribing ?i ?o ?g ?t2 cat2 = (Updated, cat3)"
      and pubd: "publish_asr_result receipt_id rid ?token receipt segs (?clk 4) cat3 = Inr (out, cat4)"
      and settled: "find_job ?i cat4 = Some k" "job_state k = Succeeded" by blast
  let ?claim = "\<lparr>claim_id = ?i, claim_attempt_count = job_attempt_count j + 1,
     claim_renew_at = ?clk 0 + seconds RENEW_SECONDS, claim_lease_expires_at = ?clk 0 + seconds LEASE_SECONDS,
     claim_token = ?token\<rparr>"
  let ?w1 = "w\<lparr>world_readings := ?n + 1, world_calls := world_calls w + 1, world_catalog := cat1\<rparr>"
  let ?w2 = "w\<lparr>world_readings := ?n + 4, world_calls := world_calls w + 3, world_catalog := cat3\<rparr>"
  let ?w3 = "w\<lparr>world_readings := ?n + 5, world_calls := world_calls w + 4, world_catalog := cat4\<rparr>"
  let ?c1 = "c\<lparr>coordinator_active := Some ?claim\<rparr>"
  let ?c2 = "c\<lparr>coordinator_active := Some (?claim\<lparr>claim_renew_at := ?clk 2 + seconds RENEW_SECONDS,
     claim_lease_expires_at := ?clk 2 + seconds LEASE_SECONDS\<rparr>)\<rparr>"
  have one: "claim_next env c w = (Inr (Some ?claim), ?c1, ?w1)"
    using claim by (simp add: claim_next_def idle repository_claim_def read_clock_def guarded_def opened Let_def)
  have two: "enter_transcribing env ?c1 ?w1 = (Inr (), ?c2, ?w2)"
    using renew mark
    by (simp add: enter_transcribing_def renew_active_def active_token_def repository_renew_def read_clock_def
        catalog_renew_def guarded_open [OF opened] handle_running_result_def clear_if_ownership_lost_def
        repository_mark_transcribing_def catalog_mark_transcribing_def Let_def eval_nat_numeral)
  have three: "coordinator_publish env receipt_id rid ?token receipt segs ?c2 ?w2 = (Inr out, ?c2, ?w3)"
    using pubd by (simp add: coordinator_publish_def repository_publish_def read_clock_def guarded_def opened
        rollback_op_def Let_def eval_nat_numeral)
  show ?thesis
    by (intro exI [of _ ?claim] exI [of _ ?c1] exI [of _ ?w1] exI [of _ ?c2] exI [of _ ?w2] exI [of _ out]
        exI [of _ ?w3] conjI)
      (simp_all only: one two ClaimedJob.select_convs three, simp add: settled)
qed

subsection \<open>A small run\<close>

definition demo_env :: job_env where
  "demo_env = \<lparr>env_clock = (\<lambda>n. 20000000 + int n * 1000000), env_refusal = (\<lambda>_. None),
     env_owner = (\<lambda>boot worker. boot), env_boot_of = Some\<rparr>"

definition demo_world :: "catalog \<Rightarrow> job_world" where
  "demo_world cat = \<lparr>world_catalog = cat, world_readings = 0, world_calls = 0\<rparr>"

definition demo_coordinator :: coordinator_state where
  "demo_coordinator = (new_job_coordinator ''w'' ''x'')\<lparr>coordinator_active := Some \<lparr>claim_id = ''b'',
     claim_attempt_count = 1, claim_renew_at = 15000000, claim_lease_expires_at = 40000000,
     claim_token = demo_token\<rparr>\<rparr>"

lemma demo_world_ok: "world_ok (demo_world demo_running)" "world_ok (demo_world demo_queue)"
  using demo_running_ok demo_queue_ok by (simp_all add: world_ok_def demo_world_def)

lemma demo_active: "coordinator_active demo_coordinator = Some \<lparr>claim_id = ''b'',
     claim_attempt_count = 1, claim_renew_at = 15000000, claim_lease_expires_at = 40000000,
     claim_token = demo_token\<rparr>"
  by (simp add: demo_coordinator_def)

text \<open>Job b is started by its claimant.\<close>
theorem enter_transcribing_settles_witness:
  "\<exists>c' w'. enter_transcribing demo_env demo_coordinator (demo_world demo_running) = (Inr (), c', w') \<and>
     (\<exists>j. find_job ''b'' (world_catalog w') = Some j \<and> job_state j = Transcribing)"
proof -
  have "(case enter_transcribing demo_env demo_coordinator (demo_world demo_running) of
      (Inl e, x) \<Rightarrow> False | (Inr u, x) \<Rightarrow> True)" by code_simp
  then obtain c' w' where run: "enter_transcribing demo_env demo_coordinator (demo_world demo_running) = (Inr (), c', w')"
    by (auto split: prod.splits sum.splits)
  from enter_transcribing_settles [OF demo_world_ok(1) demo_active run] run show ?thesis
    by (auto simp: call_settled_def demo_token_def)
qed

text \<open>Job b is failed by its claimant.\<close>
theorem coordinator_fail_settles_witness:
  "\<exists>c' w'. coordinator_fail demo_env TranscriptionFailed ''broken'' demo_coordinator (demo_world demo_running) =
     (Inr (), c', w') \<and> coordinator_active c' = None \<and>
     (\<exists>j. find_job ''b'' (world_catalog w') = Some j \<and> job_error_code j = Some ''transcription_failed'')"
proof -
  have "(case coordinator_fail demo_env TranscriptionFailed ''broken'' demo_coordinator (demo_world demo_running) of
      (Inl e, x) \<Rightarrow> False | (Inr u, x) \<Rightarrow> True)" by code_simp
  then obtain c' w' where run: "coordinator_fail demo_env TranscriptionFailed ''broken'' demo_coordinator
      (demo_world demo_running) = (Inr (), c', w')"
    by (auto split: prod.splits sum.splits)
  from coordinator_fail_settles [OF demo_world_ok(1) demo_active run] run show ?thesis
    by (auto simp: call_settled_def demo_token_def)
qed

text \<open>A recovery by the boot that owns the running job keeps the claim.\<close>
theorem recover_keeps_only_owned_witness:
  "\<exists>r c' w' claim. coordinator_recover demo_env demo_coordinator (demo_world demo_running) = (Inr r, c', w') \<and>
     coordinator_active c' = Some claim \<and> coordinator_active demo_coordinator = Some claim"
proof -
  have "(case coordinator_recover demo_env demo_coordinator (demo_world demo_running) of
      (Inl e, x) \<Rightarrow> False | (Inr u, c, w) \<Rightarrow> coordinator_active c \<noteq> None)" by code_simp
  then obtain r c' w' claim where run: "coordinator_recover demo_env demo_coordinator (demo_world demo_running) =
      (Inr r, c', w')" "coordinator_active c' = Some claim"
    by (auto split: prod.splits sum.splits)
  with recover_keeps_only_owned [OF demo_world_ok(1) run(1)] show ?thesis by auto
qed

text \<open>The waiting job b is transcribed to the end.\<close>
theorem transcription_can_complete_witness:
  "\<exists>claim c1 w1 c2 w2 out w3. claim_next demo_env (new_job_coordinator ''w'' ''x'') (demo_world demo_queue) =
      (Inr (Some claim), c1, w1) \<and> enter_transcribing demo_env c1 w1 = (Inr (), c2, w2) \<and>
    coordinator_publish demo_env ''rc'' ''tr'' (claim_token claim) demo_receipt demo_segments c2 w2 = (Inr out, c2, w3) \<and>
    (\<exists>k. find_job ''b'' (world_catalog w3) = Some k \<and> job_state k = Succeeded)"
proof -
  let ?w = "demo_world demo_queue" and ?j = "job_of_enqueue (demo_enqueue ''b'' ''fb'' 3) Queued None None"
  have c: "env_refusal demo_env = (\<lambda>_. None)" "coordinator_active (new_job_coordinator ''w'' ''x'') = None"
    by (simp_all add: demo_env_def new_job_coordinator_def)
  have clock: "env_clock demo_env (world_readings ?w + m) \<le> env_clock demo_env (world_readings ?w + n) + seconds 29"
    if "m \<le> 4" "n \<le> 4" for m n
    using that by (simp add: demo_env_def demo_world_def seconds_def)
  have j: "?j \<in> set (jobs (world_catalog ?w))" by (simp add: demo_world_def demo_queue_def)
  have t: "canonical_time (env_clock demo_env (world_readings ?w)) = 20"
    by (simp add: canonical_time_def demo_env_def demo_world_def)
  have claim: "claimable (world_catalog ?w) 20 ?j" by code_simp
  have first: "\<forall>k \<in> set (jobs (world_catalog ?w)). claimable (world_catalog ?w) 20 k \<longrightarrow>
      (job_available_at ?j, job_created_at ?j, job_id ?j) \<le> (job_available_at k, job_created_at k, job_id k)"
    by code_simp
  have "validate_receipt (receipt_row_of demo_receipt) (context_of ?j demo_chunk) = Inr ()"
    by (simp add: validate_receipt_def receipt_row_of_def demo_receipt_def context_of_def job_of_enqueue_def
        demo_enqueue_def)
  moreover have "list_all (placeable (context_of ?j demo_chunk)) demo_segments"
    by (simp add: placeable_def context_of_def demo_chunk_def demo_segments_def in_i64_def)
  moreover have "\<not> list_ex invalid_segment demo_segments"
    using demo_segments_valid by (simp add: validate_segments_def split: if_splits)
  ultimately have fits: "result_fits ''rc'' ''tr'' demo_receipt demo_segments (world_catalog ?w) ?j demo_chunk"
    by (auto simp: result_fits_def demo_world_def demo_queue_def empty_catalog_def find_chunk_def used_segment_def
        job_of_enqueue_def demo_enqueue_def demo_chunk_def demo_receipt_def demo_segments_def list_ex_iff)
  have id: "job_id ?j = ''b''" by (simp add: job_of_enqueue_def demo_enqueue_def)
  from transcription_can_complete [OF demo_world_ok(2) c clock j _ _ fits, unfolded t, OF _ _ claim first]
  show ?thesis unfolding id by blast
qed

end
