(* ===== verification/Capture_Store.thy ===== *)
theory Capture_Store
  imports Tables
begin

section \<open>Chunks and capture timing: \<open>catalog/capture.rs\<close>, \<open>catalog/chunks.rs\<close>\<close>

text \<open>
  The statements on the tables \<open>chunks\<close>, \<open>capture_sources\<close> and \<open>capture_chunk_timing\<close>.  A constraint
  of the schema is an error of the insert that meets it, in SQLite's order: CHECK, then keys, then
  foreign keys.  \<open>insert_native_capture_chunk\<close> is the one transaction that stores a sealed chunk and
  its timing; it is idempotent on the pair and refuses everything that contradicts a stored row.
\<close>

subsection \<open>Errors and constraints\<close>

datatype sqlite_error = PrimaryKeyViolated | UniqueViolated | CheckViolated | ForeignKeyViolated
  | ValueOutOfRange | DatabaseUnavailable

datatype NativeCaptureInsertError = InsertCatalog sqlite_error | InsertConflict

datatype NativeCaptureInsertOutcome = Inserted | Existing

fun map_insert_error :: "sqlite_error \<Rightarrow> NativeCaptureInsertError" where
  "map_insert_error PrimaryKeyViolated = InsertConflict"
| "map_insert_error UniqueViolated = InsertConflict"
| "map_insert_error e = InsertCatalog e"

text \<open>\<open>i64::try_from\<close> on an unsigned length, also how a \<open>u64\<close> is bound to a statement.\<close>

definition i64_try_from :: "u64 \<Rightarrow> i64 option" where
  "i64_try_from w = (if uint w < 2 ^ 63 then Some (uint w) else None)"

definition checked_sub_i64 :: "i64 \<Rightarrow> i64 \<Rightarrow> i64 option" where
  "checked_sub_i64 a b = (if in_i64 (a - b) then Some (a - b) else None)"

subsection \<open>Row inserts\<close>

definition insert_chunk_row :: "chunk_row \<Rightarrow> catalog \<Rightarrow> sqlite_error + catalog" where
  "insert_chunk_row c cat =
     (if chunk_id c \<in> set (map chunk_id (chunks cat)) then Inl PrimaryKeyViolated
      else if chunk_session_id c \<notin> set (map session_id (sessions cat)) then Inl ForeignKeyViolated
      else Inr (cat\<lparr>chunks := chunks cat @ [c]\<rparr>))"

definition timing_checks :: "CaptureChunkTiming \<Rightarrow> bool" where
  "timing_checks t \<longleftrightarrow> 0 \<le> timing_source_sequence t \<and> 0 \<le> timing_source_sample_start t \<and>
     timing_source_sample_start t \<le> timing_source_sample_end t \<and> 0 \<le> timing_session_start_ms t \<and>
     timing_session_start_ms t \<le> timing_session_end_ms t \<and> 0 \<le> timing_monotonic_start_ns t \<and>
     timing_monotonic_start_ns t \<le> timing_monotonic_end_ns t \<and> 0 \<le> timing_discontinuity_count t \<and>
     0 \<le> timing_dropped_frame_count t"

definition timing_key :: "CaptureChunkTiming \<Rightarrow> string \<times> i64" where
  "timing_key t = (timing_capture_source_id t, timing_source_sequence t)"

definition insert_timing_row :: "CaptureChunkTiming \<Rightarrow> catalog \<Rightarrow> sqlite_error + catalog" where
  "insert_timing_row t cat =
     (if \<not> timing_checks t then Inl CheckViolated
      else if timing_chunk_id t \<in> set (map timing_chunk_id (capture_timings cat)) then Inl PrimaryKeyViolated
      else if timing_key t \<in> set (map timing_key (capture_timings cat)) then Inl UniqueViolated
      else if timing_chunk_id t \<notin> set (map chunk_id (chunks cat)) \<or>
        timing_capture_source_id t \<notin> set (map source_id (capture_sources cat)) then Inl ForeignKeyViolated
      else Inr (cat\<lparr>capture_timings := capture_timings cat @ [t]\<rparr>))"

definition source_checks :: "CaptureSourceRecord \<Rightarrow> bool" where
  "source_checks s \<longleftrightarrow> source_source s \<noteq> Imported \<and> 1 \<le> uint (source_channel_count s) \<and>
     1 \<le> uint (source_sample_rate_hz s)"

definition insert_capture_source :: "CaptureSourceRecord \<Rightarrow> catalog \<Rightarrow> sqlite_error + catalog" where
  "insert_capture_source s cat =
     (if \<not> source_checks s then Inl CheckViolated
      else if source_id s \<in> set (map source_id (capture_sources cat)) then Inl PrimaryKeyViolated
      else if source_session_id s \<notin> set (map session_id (sessions cat)) then Inl ForeignKeyViolated
      else Inr (cat\<lparr>capture_sources := capture_sources cat @ [s]\<rparr>))"

text \<open>One transaction: an error of any insert rolls all of them back.\<close>

fun insert_capture_sources_atomic :: "CaptureSourceRecord list \<Rightarrow> catalog \<Rightarrow> sqlite_error + catalog" where
  "insert_capture_sources_atomic [] cat = Inr cat"
| "insert_capture_sources_atomic (s # ss) cat =
     and_then (insert_capture_source s cat) (insert_capture_sources_atomic ss)"

subsection \<open>Reading\<close>

definition chunk_from_row :: "chunk_row \<Rightarrow> AudioChunk" where
  "chunk_from_row r = \<lparr>chunk_id = chunk_id r, chunk_session_id = chunk_session_id r,
     chunk_source = chunk_source r, chunk_path = chunk_path r, chunk_sha256 = chunk_sha256 r,
     chunk_byte_length = chunk_byte_length r\<rparr>"

definition catalog_chunk :: "string \<Rightarrow> catalog \<Rightarrow> AudioChunk option" where
  "catalog_chunk i cat = map_option chunk_from_row (find_chunk i cat)"

definition capture_source :: "string \<Rightarrow> catalog \<Rightarrow> CaptureSourceRecord option" where
  "capture_source i cat = find (\<lambda>s. source_id s = i) (capture_sources cat)"

definition capture_chunk_timing :: "string \<Rightarrow> catalog \<Rightarrow> CaptureChunkTiming option" where
  "capture_chunk_timing i cat = find (\<lambda>t. timing_chunk_id t = i) (capture_timings cat)"

definition session_exists :: "string \<Rightarrow> catalog \<Rightarrow> bool" where
  "session_exists i cat \<longleftrightarrow> list_ex (\<lambda>s. session_id s = i) (sessions cat)"

definition list_chunks :: "catalog \<Rightarrow> AudioChunk list" where
  "list_chunks cat = map chunk_from_row (sort_key chunk_id (chunks cat))"

definition chunk_integrity_state :: "string \<Rightarrow> catalog \<Rightarrow> ChunkIntegrityState option" where
  "chunk_integrity_state i cat = map_option chunk_integrity (find_chunk i cat)"

fun integrity_name :: "ChunkIntegrityState \<Rightarrow> string" where
  "integrity_name Available = ''available''"
| "integrity_name Corrupted = ''corrupted''"
| "integrity_name Missing = ''missing''"

definition parse_integrity :: "string \<Rightarrow> ChunkIntegrityState option" where
  "parse_integrity v = (if v = ''available'' then Some Available else if v = ''corrupted'' then Some Corrupted
     else if v = ''missing'' then Some Missing else None)"

fun asr_error_name :: "AsrErrorCode \<Rightarrow> string" where
  "asr_error_name InputIntegrityFailed = ''input_integrity_failed''"
| "asr_error_name InputUnavailable = ''input_unavailable''"
| "asr_error_name _ = ''recovery_required''"

definition parse_asr_error_code :: "string \<Rightarrow> AsrErrorCode" where
  "parse_asr_error_code v = (if v = ''input_integrity_failed'' then InputIntegrityFailed
     else if v = ''input_unavailable'' then InputUnavailable else RecoveryRequired)"

record ChunkDiagnostics =
  diag_integrity_state :: ChunkIntegrityState
  diag_error_code :: "AsrErrorCode option"
  diag_error_at :: "time option"

definition chunk_diagnostics :: "string \<Rightarrow> catalog \<Rightarrow> ChunkDiagnostics option" where
  "chunk_diagnostics i cat = map_option (\<lambda>r. \<lparr>diag_integrity_state = chunk_integrity r,
     diag_error_code = map_option parse_asr_error_code (chunk_last_error_code r),
     diag_error_at = chunk_last_error_at r\<rparr>) (find_chunk i cat)"

subsection \<open>Writing chunks\<close>

definition plain_chunk_row :: "AudioChunk \<Rightarrow> i64 \<Rightarrow> i64 option \<Rightarrow> chunk_row" where
  "plain_chunk_row c offset duration = \<lparr>chunk_id = chunk_id c, chunk_session_id = chunk_session_id c,
     chunk_source = chunk_source c, chunk_path = chunk_path c, chunk_sha256 = chunk_sha256 c,
     chunk_byte_length = chunk_byte_length c, chunk_session_offset_ms = offset, chunk_duration_ms = duration,
     chunk_integrity = Available, chunk_last_error_code = None, chunk_last_error_at = None\<rparr>"

definition insert_chunk :: "AudioChunk \<Rightarrow> catalog \<Rightarrow> sqlite_error + catalog" where
  "insert_chunk c cat = (case i64_try_from (chunk_byte_length c) of
     None \<Rightarrow> Inl ValueOutOfRange
   | Some _ \<Rightarrow> insert_chunk_row (plain_chunk_row c 0 None) cat)"

definition insert_or_ignore_session :: "CaptureSession \<Rightarrow> catalog \<Rightarrow> catalog" where
  "insert_or_ignore_session s cat =
     (if session_id s \<in> set (map session_id (sessions cat)) then cat
      else cat\<lparr>sessions := sessions cat @ [s]\<rparr>)"

datatype 'e ImportedChunkInsertError = ImportCatalog sqlite_error | ImportEnsure 'e

text \<open>\<open>ensure\<close> is what \<open>ensure_current\<close> answers just before the commit.\<close>

definition insert_imported_chunk ::
    "CaptureSession \<Rightarrow> AudioChunk \<Rightarrow> 'e + unit \<Rightarrow> catalog \<Rightarrow> 'e ImportedChunkInsertError + catalog" where
  "insert_imported_chunk s c ensure cat =
     and_then (map_err ImportCatalog (insert_chunk c (insert_or_ignore_session s cat)))
       (\<lambda>cat'. and_then (map_err ImportEnsure ensure) (\<lambda>_. Inr cat'))"

definition update_chunk_integrity ::
    "time \<Rightarrow> string \<Rightarrow> ChunkIntegrityState \<Rightarrow> AsrErrorCode option \<Rightarrow> catalog \<Rightarrow> catalog" where
  "update_chunk_integrity now i st code cat = cat\<lparr>chunks := update_where (\<lambda>r. chunk_id r = i)
     (\<lambda>r. r\<lparr>chunk_integrity := st, chunk_last_error_code := map_option asr_error_name code,
       chunk_last_error_at := map_option (\<lambda>_. now) code\<rparr>) (chunks cat)\<rparr>"

subsection \<open>Sealed native chunks\<close>

definition file_extension_ok :: "string \<Rightarrow> bool" where
  "file_extension_ok ext \<longleftrightarrow> ext \<noteq> [] \<and> length ext \<le> 16 \<and>
     list_all (\<lambda>b. is_ascii_lowercase b \<or> is_ascii_digit b) ext"

definition native_chunk_path_matches :: "AudioChunk \<Rightarrow> bool" where
  "native_chunk_path_matches c = (case path_components (chunk_path c) of
     [Normal dir, Normal name] \<Rightarrow> dir = ''audio'' \<and>
       (case Option.bind (strip_prefix (chunk_id c) name) (strip_prefix ''.'') of
          None \<Rightarrow> False
        | Some ext \<Rightarrow> file_extension_ok ext)
   | _ \<Rightarrow> False)"

definition validated_native_capture :: "AudioChunk \<Rightarrow> CaptureChunkTiming \<Rightarrow> (i64 \<times> i64 \<times> i64) option" where
  "validated_native_capture c t =
     (if chunk_source c = Imported \<or> timing_chunk_id t \<noteq> chunk_id c \<or> \<not> native_chunk_path_matches c \<or>
         timing_source_sequence t < 0 \<or> timing_source_sample_start t < 0 \<or>
         timing_source_sample_end t < timing_source_sample_start t \<or> timing_session_start_ms t < 0 \<or>
         timing_session_end_ms t < timing_session_start_ms t \<or> timing_monotonic_start_ns t < 0 \<or>
         timing_monotonic_end_ns t < timing_monotonic_start_ns t \<or> timing_discontinuity_count t < 0 \<or>
         timing_dropped_frame_count t < 0
      then None
      else Option.bind (checked_sub_i64 (timing_session_end_ms t) (timing_session_start_ms t)) (\<lambda>duration.
        Option.bind (i64_try_from (chunk_byte_length c)) (\<lambda>len.
          Some (timing_session_start_ms t, duration, len))))"

definition insert_native_capture_chunk ::
    "AudioChunk \<Rightarrow> CaptureChunkTiming \<Rightarrow> catalog \<Rightarrow> NativeCaptureInsertError + NativeCaptureInsertOutcome \<times> catalog" where
  "insert_native_capture_chunk c t cat = (case validated_native_capture c t of
     None \<Rightarrow> Inl InsertConflict
   | Some (offset, duration, len) \<Rightarrow>
       (case (catalog_chunk (chunk_id c) cat, capture_chunk_timing (chunk_id c) cat) of
          (None, None) \<Rightarrow>
            if list_ex (\<lambda>r. chunk_path r = chunk_path c) (chunks cat) then Inl InsertConflict
            else (case capture_source (timing_capture_source_id t) cat of
              None \<Rightarrow> Inl InsertConflict
            | Some src \<Rightarrow>
                if source_session_id src \<noteq> chunk_session_id c \<or> source_source src \<noteq> chunk_source c
                then Inl InsertConflict
                else and_then (map_err map_insert_error
                    (insert_chunk_row (plain_chunk_row c offset (Some duration)) cat)) (\<lambda>cat1.
                  and_then (map_err map_insert_error (insert_timing_row t cat1)) (\<lambda>cat2.
                    Inr (Inserted, cat2))))
        | (ec, et) \<Rightarrow>
            if ec = Some c \<and> et = Some t then Inr (Existing, cat) else Inl InsertConflict))"

subsection \<open>Facts about the statements\<close>

lemma insert_chunk_row_Inr [result_simps]:
  "insert_chunk_row c cat = Inr cat' \<longleftrightarrow> chunk_id c \<notin> chunk_id ` set (chunks cat) \<and>
     chunk_session_id c \<in> session_id ` set (sessions cat) \<and> cat' = cat\<lparr>chunks := chunks cat @ [c]\<rparr>"
  by (auto simp: insert_chunk_row_def)

lemma insert_timing_row_Inr [result_simps]:
  "insert_timing_row t cat = Inr cat' \<longleftrightarrow> timing_checks t \<and>
     timing_chunk_id t \<notin> timing_chunk_id ` set (capture_timings cat) \<and>
     timing_key t \<notin> timing_key ` set (capture_timings cat) \<and>
     timing_chunk_id t \<in> chunk_id ` set (chunks cat) \<and>
     timing_capture_source_id t \<in> source_id ` set (capture_sources cat) \<and>
     cat' = cat\<lparr>capture_timings := capture_timings cat @ [t]\<rparr>"
  by (auto simp: insert_timing_row_def)

lemma insert_capture_source_Inr [result_simps]:
  "insert_capture_source s cat = Inr cat' \<longleftrightarrow> source_checks s \<and>
     source_id s \<notin> source_id ` set (capture_sources cat) \<and>
     source_session_id s \<in> session_id ` set (sessions cat) \<and>
     cat' = cat\<lparr>capture_sources := capture_sources cat @ [s]\<rparr>"
  by (auto simp: insert_capture_source_def)

lemma catalog_chunk_None: "catalog_chunk i cat = None \<longleftrightarrow> i \<notin> chunk_id ` set (chunks cat)"
  by (auto simp: catalog_chunk_def find_chunk_def find_None_iff)

lemma capture_chunk_timing_None:
  "capture_chunk_timing i cat = None \<longleftrightarrow> i \<notin> timing_chunk_id ` set (capture_timings cat)"
  by (auto simp: capture_chunk_timing_def find_None_iff)

lemma find_snoc: "find p (xs @ [x]) = (case find p xs of Some y \<Rightarrow> Some y | None \<Rightarrow> if p x then Some x else None)"
  by (induction xs) auto

lemma chunk_from_plain [simp]: "chunk_from_row (plain_chunk_row c a b) = c"
  by (simp add: chunk_from_row_def plain_chunk_row_def)

lemma plain_chunk_row_fields [simp]:
  "chunk_id (plain_chunk_row c a b) = chunk_id c" "chunk_session_id (plain_chunk_row c a b) = chunk_session_id c"
  "chunk_source (plain_chunk_row c a b) = chunk_source c" "chunk_path (plain_chunk_row c a b) = chunk_path c"
  "chunk_session_offset_ms (plain_chunk_row c a b) = a" "chunk_duration_ms (plain_chunk_row c a b) = b"
  "chunk_sha256 (plain_chunk_row c a b) = chunk_sha256 c"
  "chunk_byte_length (plain_chunk_row c a b) = chunk_byte_length c"
  by (simp_all add: plain_chunk_row_def)

lemma validated_native_capture_Some:
  "validated_native_capture c t = Some (offset, duration, len) \<longleftrightarrow>
     chunk_source c \<noteq> Imported \<and> timing_chunk_id t = chunk_id c \<and> native_chunk_path_matches c \<and>
     timing_checks t \<and> in_i64 (timing_session_end_ms t - timing_session_start_ms t) \<and>
     uint (chunk_byte_length c) < 2 ^ 63 \<and> offset = timing_session_start_ms t \<and>
     duration = timing_session_end_ms t - timing_session_start_ms t \<and> len = uint (chunk_byte_length c)"
  by (auto simp: validated_native_capture_def timing_checks_def checked_sub_i64_def i64_try_from_def
      not_less split: if_splits)

text \<open>When a sealed chunk is new and nothing stored contradicts it.\<close>

definition native_insertable :: "AudioChunk \<Rightarrow> CaptureChunkTiming \<Rightarrow> catalog \<Rightarrow> bool" where
  "native_insertable c t cat \<longleftrightarrow> validated_native_capture c t \<noteq> None \<and>
     chunk_id c \<notin> chunk_id ` set (chunks cat) \<and>
     chunk_id c \<notin> timing_chunk_id ` set (capture_timings cat) \<and>
     chunk_path c \<notin> chunk_path ` set (chunks cat) \<and>
     timing_key t \<notin> timing_key ` set (capture_timings cat) \<and>
     chunk_session_id c \<in> session_id ` set (sessions cat) \<and>
     (case capture_source (timing_capture_source_id t) cat of None \<Rightarrow> False
      | Some src \<Rightarrow> source_session_id src = chunk_session_id c \<and> source_source src = chunk_source c)"

definition with_native_chunk :: "AudioChunk \<Rightarrow> CaptureChunkTiming \<Rightarrow> catalog \<Rightarrow> catalog" where
  "with_native_chunk c t cat = cat\<lparr>chunks := chunks cat @
       [plain_chunk_row c (timing_session_start_ms t)
          (Some (timing_session_end_ms t - timing_session_start_ms t))],
     capture_timings := capture_timings cat @ [t]\<rparr>"

lemma capture_source_Some: "capture_source i cat = Some s \<Longrightarrow> s \<in> set (capture_sources cat) \<and> source_id s = i"
  by (auto simp: capture_source_def find_Some_iff)

lemma stored_key: "x \<in> f ` set xs \<longleftrightarrow> list_ex (\<lambda>r. f r = x) xs"
  by (auto simp: list_ex_iff)

lemma insert_rows_Inr:
  assumes "validated_native_capture c t = Some (offset, duration, len)"
    and "capture_source (timing_capture_source_id t) cat = Some src"
    and "chunk_id c \<notin> chunk_id ` set (chunks cat)" "chunk_id c \<notin> timing_chunk_id ` set (capture_timings cat)"
  shows "and_then (map_err map_insert_error (insert_chunk_row (plain_chunk_row c offset (Some duration)) cat)) (\<lambda>cat1.
      and_then (map_err map_insert_error (insert_timing_row t cat1)) (\<lambda>cat2. Inr (Inserted, cat2))) = Inr (outcome, cat')
    \<longleftrightarrow> chunk_session_id c \<in> session_id ` set (sessions cat) \<and>
      timing_key t \<notin> timing_key ` set (capture_timings cat) \<and>
      outcome = Inserted \<and> cat' = with_native_chunk c t cat"
proof -
  have v: "timing_chunk_id t = chunk_id c" "timing_checks t" "offset = timing_session_start_ms t"
      "duration = timing_session_end_ms t - timing_session_start_ms t"
    using assms(1) by (simp_all add: validated_native_capture_Some)
  have src: "timing_capture_source_id t \<in> source_id ` set (capture_sources cat)"
    using capture_source_Some [OF assms(2)] by (metis imageI)
  show ?thesis
  proof (cases "chunk_session_id c \<in> session_id ` set (sessions cat)")
    case True
    then have "insert_chunk_row (plain_chunk_row c offset (Some duration)) cat =
        Inr (cat\<lparr>chunks := chunks cat @ [plain_chunk_row c offset (Some duration)]\<rparr>)"
      using assms(3) by (simp add: insert_chunk_row_Inr)
    with True v src assms(4) show ?thesis
      by (auto simp: result_simps with_native_chunk_def)
  qed (auto simp: result_simps)
qed

lemma native_insert_new:
  assumes "catalog_chunk (chunk_id c) cat = None" "capture_chunk_timing (chunk_id c) cat = None"
  shows "insert_native_capture_chunk c t cat = Inr (outcome, cat') \<longleftrightarrow>
    native_insertable c t cat \<and> outcome = Inserted \<and> cat' = with_native_chunk c t cat"
proof -
  have new: "chunk_id c \<notin> chunk_id ` set (chunks cat)" "chunk_id c \<notin> timing_chunk_id ` set (capture_timings cat)"
    using assms by (simp_all add: catalog_chunk_None capture_chunk_timing_None)
  show ?thesis
  proof (cases "validated_native_capture c t")
    case None
    then show ?thesis by (simp add: insert_native_capture_chunk_def native_insertable_def)
  next
    case (Some v)
    obtain offset duration len where v: "v = (offset, duration, len)" by (cases v)
    note val = Some [unfolded v]
    show ?thesis
    proof (cases "capture_source (timing_capture_source_id t) cat")
      case None
      with val show ?thesis
        using assms by (simp add: insert_native_capture_chunk_def native_insertable_def)
    next
      case (Some src)
      note rows = insert_rows_Inr [OF val Some new, of outcome cat']
      show ?thesis
        unfolding insert_native_capture_chunk_def native_insertable_def
        by (simp add: val assms Some rows new stored_key [of "chunk_path c"]) blast
    qed
  qed
qed

lemma native_insert_known:
  assumes "catalog_chunk (chunk_id c) cat \<noteq> None \<or> capture_chunk_timing (chunk_id c) cat \<noteq> None"
  shows "insert_native_capture_chunk c t cat =
    (if validated_native_capture c t \<noteq> None \<and> catalog_chunk (chunk_id c) cat = Some c \<and>
        capture_chunk_timing (chunk_id c) cat = Some t then Inr (Existing, cat) else Inl InsertConflict)"
  using assms unfolding insert_native_capture_chunk_def
  by (auto split: option.splits prod.splits)

lemma stored_native_chunk:
  assumes "native_insertable c t cat"
  shows "catalog_chunk (chunk_id c) (with_native_chunk c t cat) = Some c"
    and "capture_chunk_timing (chunk_id c) (with_native_chunk c t cat) = Some t"
proof -
  have f: "find (\<lambda>r. chunk_id r = chunk_id c) (chunks cat) = None"
    "find (\<lambda>t. timing_chunk_id t = chunk_id c) (capture_timings cat) = None"
    using assms by (auto simp: native_insertable_def find_None_iff image_iff)
  have t: "timing_chunk_id t = chunk_id c"
    using assms by (auto simp: native_insertable_def validated_native_capture_Some)
  show "catalog_chunk (chunk_id c) (with_native_chunk c t cat) = Some c"
    using f by (simp add: catalog_chunk_def find_chunk_def with_native_chunk_def find_snoc)
  show "capture_chunk_timing (chunk_id c) (with_native_chunk c t cat) = Some t"
    using f t by (simp add: capture_chunk_timing_def with_native_chunk_def find_snoc)
qed

lemma native_insert_stored:
  assumes "insert_native_capture_chunk c t cat = Inr (outcome, cat')"
  shows "catalog_chunk (chunk_id c) cat' = Some c \<and> capture_chunk_timing (chunk_id c) cat' = Some t \<and>
    validated_native_capture c t \<noteq> None \<and> cat' = (if outcome = Inserted then with_native_chunk c t cat else cat)"
proof (cases "catalog_chunk (chunk_id c) cat = None \<and> capture_chunk_timing (chunk_id c) cat = None")
  case True
  then have "native_insertable c t cat \<and> outcome = Inserted \<and> cat' = with_native_chunk c t cat"
    using assms by (simp add: native_insert_new)
  then show ?thesis by (simp add: stored_native_chunk native_insertable_def)
next
  case False
  then show ?thesis using assms by (auto simp: native_insert_known split: if_splits)
qed

text \<open>
  Storing a sealed chunk is idempotent and never rewrites history: after a success the catalog
  answers exactly this chunk and this timing, repeating the call finds them and changes nothing,
  and every call with the same chunk identifier but any other content is refused as a conflict.
  The first success adds exactly the two rows.
\<close>

theorem native_insert_idempotent:
  assumes "insert_native_capture_chunk c t cat = Inr (outcome, cat')"
  shows "catalog_chunk (chunk_id c) cat' = Some c \<and> capture_chunk_timing (chunk_id c) cat' = Some t \<and>
    insert_native_capture_chunk c t cat' = Inr (Existing, cat') \<and>
    (\<forall>c' t'. chunk_id c' = chunk_id c \<and> (c', t') \<noteq> (c, t) \<longrightarrow>
       insert_native_capture_chunk c' t' cat' = Inl InsertConflict) \<and>
    cat' = (if outcome = Inserted then with_native_chunk c t cat else cat)"
proof -
  note stored = native_insert_stored [OF assms]
  have "insert_native_capture_chunk c' t' cat' = Inl InsertConflict"
    if "chunk_id c' = chunk_id c \<and> (c', t') \<noteq> (c, t)" for c' t'
    using that stored by (subst native_insert_known) auto
  moreover have "insert_native_capture_chunk c t cat' = Inr (Existing, cat')"
    using stored by (subst native_insert_known) auto
  ultimately show ?thesis using stored by blast
qed

definition demo_capture_session :: CaptureSession where
  "demo_capture_session = \<lparr>session_id = ''s'', session_title = ''t'', session_state = Recording,
     started_at = 0, ended_at = None\<rparr>"

definition demo_source :: CaptureSourceRecord where
  "demo_source = \<lparr>source_id = ''mic1'', source_session_id = ''s'', source_source = Microphone,
     source_device_uid = ''uid'', source_device_name = ''name'', source_channel_count = 1,
     source_sample_rate_hz = 16000, source_created_at = 0\<rparr>"

definition demo_capture_catalog :: catalog where
  "demo_capture_catalog = empty_catalog\<lparr>sessions := [demo_capture_session], capture_sources := [demo_source]\<rparr>"

definition demo_native_chunk :: AudioChunk where
  "demo_native_chunk = \<lparr>chunk_id = ''chk_1'', chunk_session_id = ''s'', chunk_source = Microphone,
     chunk_path = ''audio/chk_1.caf'', chunk_sha256 = ''h'', chunk_byte_length = 2\<rparr>"

definition demo_timing :: CaptureChunkTiming where
  "demo_timing = \<lparr>timing_chunk_id = ''chk_1'', timing_capture_source_id = ''mic1'',
     timing_source_sequence = 0, timing_source_sample_start = 0, timing_source_sample_end = 16,
     timing_session_start_ms = 5, timing_session_end_ms = 6, timing_monotonic_start_ns = 5000000,
     timing_monotonic_end_ns = 6000000, timing_utc_start_at = 1, timing_utc_end_at = 2,
     timing_discontinuity_count = 0, timing_dropped_frame_count = 0, timing_created_at = 1\<rparr>"

lemma demo_native_insert:
  "insert_native_capture_chunk demo_native_chunk demo_timing demo_capture_catalog =
     Inr (Inserted, with_native_chunk demo_native_chunk demo_timing demo_capture_catalog)"
  by code_simp

theorem native_insert_idempotent_witness:
  "insert_native_capture_chunk demo_native_chunk demo_timing
     (with_native_chunk demo_native_chunk demo_timing demo_capture_catalog) =
     Inr (Existing, with_native_chunk demo_native_chunk demo_timing demo_capture_catalog) \<and>
   insert_native_capture_chunk (demo_native_chunk\<lparr>chunk_sha256 := ''other''\<rparr>) demo_timing
     (with_native_chunk demo_native_chunk demo_timing demo_capture_catalog) = Inl InsertConflict"
proof -
  have "chunk_id (demo_native_chunk\<lparr>chunk_sha256 := ''other''\<rparr>) = chunk_id demo_native_chunk"
    "(demo_native_chunk\<lparr>chunk_sha256 := ''other''\<rparr>, demo_timing) \<noteq> (demo_native_chunk, demo_timing)"
    by (simp_all add: demo_native_chunk_def)
  then show ?thesis using native_insert_idempotent [OF demo_native_insert] by blast
qed

subsection \<open>The capture tables stay consistent\<close>

text \<open>
  What the timing rows promise about the rows they point to: their chunk and their source exist and
  agree on session and stream, and the chunk's place on the session's time line is the timing's.
\<close>

definition timing_backed :: "catalog \<Rightarrow> CaptureChunkTiming \<Rightarrow> bool" where
  "timing_backed cat t \<longleftrightarrow> timing_checks t \<and>
     (\<exists>c \<in> set (chunks cat). \<exists>s \<in> set (capture_sources cat).
        chunk_id c = timing_chunk_id t \<and> source_id s = timing_capture_source_id t \<and>
        source_session_id s = chunk_session_id c \<and> source_source s = chunk_source c \<and>
        chunk_session_offset_ms c = timing_session_start_ms t \<and>
        chunk_duration_ms c = Some (timing_session_end_ms t - timing_session_start_ms t) \<and>
        native_chunk_path_matches (chunk_from_row c))"

definition capture_consistent :: "catalog \<Rightarrow> bool" where
  "capture_consistent cat \<longleftrightarrow>
     distinct (map chunk_id (chunks cat)) \<and> distinct (map source_id (capture_sources cat)) \<and>
     distinct (map timing_chunk_id (capture_timings cat)) \<and> distinct (map timing_key (capture_timings cat)) \<and>
     list_all (timing_backed cat) (capture_timings cat) \<and> list_all source_checks (capture_sources cat) \<and>
     chunk_session_id ` set (chunks cat) \<subseteq> session_id ` set (sessions cat) \<and>
     source_session_id ` set (capture_sources cat) \<subseteq> session_id ` set (sessions cat)"

text \<open>The statements on these tables; a statement that fails leaves the catalog as it was.\<close>

inductive capture_step :: "catalog \<Rightarrow> catalog \<Rightarrow> bool" where
  capture_step_source: "insert_capture_source s cat = Inr cat' \<Longrightarrow> capture_step cat cat'"
| capture_step_sources: "insert_capture_sources_atomic ss cat = Inr cat' \<Longrightarrow> capture_step cat cat'"
| capture_step_chunk: "insert_chunk c cat = Inr cat' \<Longrightarrow> capture_step cat cat'"
| capture_step_imported: "insert_imported_chunk s c (ensure :: string + unit) cat = Inr cat' \<Longrightarrow> capture_step cat cat'"
| capture_step_native: "insert_native_capture_chunk c t cat = Inr (outcome, cat') \<Longrightarrow> capture_step cat cat'"
| capture_step_integrity: "capture_step cat (update_chunk_integrity now i st code cat)"
| capture_step_session: "capture_step cat (insert_or_ignore_session s cat)"

lemma timing_backed_mono:
  assumes "timing_backed cat t" "set (chunks cat) \<subseteq> set (chunks cat')"
    and "set (capture_sources cat) \<subseteq> set (capture_sources cat')"
  shows "timing_backed cat' t"
  using assms unfolding timing_backed_def by blast

lemma consistent_source:
  assumes "capture_consistent cat" "insert_capture_source s cat = Inr cat'"
  shows "capture_consistent cat'"
proof -
  have c': "cat' = cat\<lparr>capture_sources := capture_sources cat @ [s]\<rparr>"
    using assms(2) by (simp add: result_simps)
  have "timing_backed cat' t" if "timing_backed cat t" for t
    by (rule timing_backed_mono [OF that]) (auto simp: c')
  with assms show ?thesis by (auto simp: capture_consistent_def result_simps list_all_iff)
qed

lemma consistent_sources:
  "capture_consistent cat \<Longrightarrow> insert_capture_sources_atomic ss cat = Inr cat' \<Longrightarrow> capture_consistent cat'"
  by (induction ss arbitrary: cat) (auto simp: result_simps simp del: insert_capture_source_Inr dest: consistent_source)

lemma consistent_session:
  assumes "capture_consistent cat"
  shows "capture_consistent (insert_or_ignore_session s cat)"
proof -
  have "timing_backed (cat\<lparr>sessions := ss\<rparr>) = timing_backed cat" for ss
    by (rule ext) (simp add: timing_backed_def)
  with assms show ?thesis by (auto simp: capture_consistent_def insert_or_ignore_session_def)
qed

lemma consistent_chunk:
  assumes "capture_consistent cat" "insert_chunk c cat = Inr cat'"
  shows "capture_consistent cat'"
proof -
  have i: "insert_chunk_row (plain_chunk_row c 0 None) cat = Inr cat'"
    using assms(2) by (simp add: insert_chunk_def split: option.splits)
  then have c': "cat' = cat\<lparr>chunks := chunks cat @ [plain_chunk_row c 0 None]\<rparr>"
    by (simp add: result_simps)
  have "timing_backed cat' t" if "timing_backed cat t" for t
    by (rule timing_backed_mono [OF that]) (auto simp: c')
  with assms(1) i show ?thesis by (auto simp: capture_consistent_def result_simps list_all_iff)
qed

lemma with_native_chunk_fields [simp]:
  "sessions (with_native_chunk c t cat) = sessions cat"
  "capture_sources (with_native_chunk c t cat) = capture_sources cat"
  "capture_timings (with_native_chunk c t cat) = capture_timings cat @ [t]"
  "chunks (with_native_chunk c t cat) = chunks cat @ [plain_chunk_row c (timing_session_start_ms t)
     (Some (timing_session_end_ms t - timing_session_start_ms t))]"
  by (simp_all add: with_native_chunk_def)

lemma consistent_native:
  assumes "capture_consistent cat" "native_insertable c t cat"
  shows "capture_consistent (with_native_chunk c t cat)"
proof -
  let ?cat = "with_native_chunk c t cat"
  have old: "timing_backed ?cat u" if "timing_backed cat u" for u
    by (rule timing_backed_mono [OF that]) auto
  obtain src where src: "capture_source (timing_capture_source_id t) cat = Some src"
    "source_session_id src = chunk_session_id c" "source_source src = chunk_source c"
    using assms(2) by (auto simp: native_insertable_def split: option.splits)
  have v: "timing_checks t" "timing_chunk_id t = chunk_id c" "native_chunk_path_matches c"
    using assms(2) by (auto simp: native_insertable_def validated_native_capture_Some)
  have "timing_backed ?cat t"
    unfolding timing_backed_def using v src(2,3) capture_source_Some [OF src(1)] by auto
  with old assms v(2) show ?thesis
    by (auto simp: capture_consistent_def native_insertable_def list_all_iff)
qed

lemma consistent_integrity:
  assumes "capture_consistent cat"
  shows "capture_consistent (update_chunk_integrity now i st code cat)"
proof -
  let ?cat = "update_chunk_integrity now i st code cat"
  let ?f = "\<lambda>r. if chunk_id r = i then r\<lparr>chunk_integrity := st,
     chunk_last_error_code := map_option asr_error_name code,
     chunk_last_error_at := map_option (\<lambda>_. now) code\<rparr> else r"
  have f: "chunk_id (?f r) = chunk_id r" "chunk_session_id (?f r) = chunk_session_id r"
    "chunk_source (?f r) = chunk_source r" "chunk_session_offset_ms (?f r) = chunk_session_offset_ms r"
    "chunk_duration_ms (?f r) = chunk_duration_ms r" "chunk_from_row (?f r) = chunk_from_row r" for r
    by (simp_all add: chunk_from_row_def)
  have rows: "chunks ?cat = map ?f (chunks cat)"
    by (simp add: update_chunk_integrity_def update_where_def)
  have rest: "sessions ?cat = sessions cat" "capture_sources ?cat = capture_sources cat"
    "capture_timings ?cat = capture_timings cat"
    by (simp_all add: update_chunk_integrity_def)
  have "timing_backed ?cat t" if "timing_backed cat t" for t
    using that unfolding timing_backed_def rows rest by (simp only: set_map ball_simps bex_simps f)
  moreover have "map chunk_id (chunks ?cat) = map chunk_id (chunks cat)"
    "chunk_session_id ` set (chunks ?cat) = chunk_session_id ` set (chunks cat)"
    unfolding rows by (simp_all only: list.map_comp comp_def f set_map image_image)
  ultimately show ?thesis
    using assms unfolding capture_consistent_def rest by (simp add: list_all_iff)
qed

lemma capture_step_consistent: "capture_step cat cat' \<Longrightarrow> capture_consistent cat \<Longrightarrow> capture_consistent cat'"
proof (induction rule: capture_step.induct)
  case (capture_step_native c t cat outcome cat')
  show ?case
  proof (cases "catalog_chunk (chunk_id c) cat = None \<and> capture_chunk_timing (chunk_id c) cat = None")
    case True
    with capture_step_native show ?thesis by (simp add: native_insert_new consistent_native)
  next
    case False
    with capture_step_native show ?thesis by (auto simp: native_insert_known split: if_splits)
  qed
next
  case (capture_step_imported s c ensure cat cat')
  then have "insert_chunk c (insert_or_ignore_session s cat) = Inr cat'"
    by (auto simp: insert_imported_chunk_def result_simps)
  then show ?case using consistent_chunk consistent_session capture_step_imported.prems by blast
qed (blast intro: consistent_source consistent_sources consistent_chunk consistent_integrity consistent_session)+

interpretation capture_rows: invariant_relation capture_step capture_consistent
  by unfold_locales (rule capture_step_consistent)

text \<open>
  Whatever statements run on the chunk, source and timing tables, in whatever order: chunk,
  source and timing identifiers stay unique, no source uses a sequence number twice, every timing
  row has an existing chunk and source that agree on session and stream, and places its chunk on
  the session's time line exactly where the chunk row says.
\<close>

theorem capture_rows_consistent:
  assumes "capture_step\<^sup>*\<^sup>* empty_catalog cat"
  shows "capture_consistent cat"
  by (rule capture_rows.reachable_inv [OF assms]) (simp add: capture_consistent_def empty_catalog_def)

theorem capture_rows_consistent_witness:
  "capture_step\<^sup>*\<^sup>* empty_catalog (with_native_chunk demo_native_chunk demo_timing demo_capture_catalog) \<and>
   capture_consistent (with_native_chunk demo_native_chunk demo_timing demo_capture_catalog)"
proof -
  let ?c1 = "insert_or_ignore_session demo_capture_session empty_catalog"
  have "insert_capture_source demo_source ?c1 = Inr demo_capture_catalog" by code_simp
  then have "capture_step ?c1 demo_capture_catalog" by (rule capture_step_source)
  moreover have "capture_step empty_catalog ?c1" by (rule capture_step_session)
  ultimately have "capture_step\<^sup>*\<^sup>* empty_catalog (with_native_chunk demo_native_chunk demo_timing demo_capture_catalog)"
    using capture_step_native [OF demo_native_insert] by (meson converse_rtranclp_into_rtranclp rtranclp.rtrancl_refl)
  with capture_rows_consistent show ?thesis by blast
qed

end
