(* ===== verification/Effects.thy ===== *)
theory Effects
  imports Prelude
begin

section \<open>Fallible effects with a fault schedule\<close>

text \<open>
  Code that talks to the operating system: a program takes the number of calls made so far and the
  state it works on, and answers an error or a value with both advanced.  What fails, and what fresh
  identifiers are drawn, is a function of the call number, so a theorem that quantifies over it
  covers every schedule of failures - also a crash, after which every further call fails.  A \<open>triple\<close>
  states what holds on both ways out; its rules compose the proofs the way the code is composed.
\<close>

type_synonym ('c, 'e, 'a) program = "nat \<Rightarrow> 'c \<Rightarrow> ('e + 'a) \<times> nat \<times> 'c"

definition give :: "'a \<Rightarrow> ('c, 'e, 'a) program" where
  "give x = (\<lambda>n c. (Inr x, n, c))"

definition throw :: "'e \<Rightarrow> ('c, 'e, 'a) program" where
  "throw e = (\<lambda>n c. (Inl e, n, c))"

definition attempt :: "('c, 'e, 'a) program \<Rightarrow> ('e + 'a \<Rightarrow> ('c, 'f, 'b) program) \<Rightarrow> ('c, 'f, 'b) program" where
  "attempt m k = (\<lambda>n c. case m n c of (r, n', c') \<Rightarrow> k r n' c')"

definition chain :: "('c, 'e, 'a) program \<Rightarrow> ('a \<Rightarrow> ('c, 'e, 'b) program) \<Rightarrow> ('c, 'e, 'b) program" where
  "chain m k = attempt m (\<lambda>r. case r of Inl e \<Rightarrow> throw e | Inr x \<Rightarrow> k x)"

definition with_error :: "('e \<Rightarrow> 'f) \<Rightarrow> ('c, 'e, 'a) program \<Rightarrow> ('c, 'f, 'a) program" where
  "with_error g m = attempt m (\<lambda>r. case r of Inl e \<Rightarrow> throw (g e) | Inr x \<Rightarrow> give x)"

fun from_result :: "'e + 'a \<Rightarrow> ('c, 'e, 'a) program" where
  "from_result (Inl e) = throw e"
| "from_result (Inr x) = give x"

definition tick :: "('c, 'e, nat) program" where
  "tick = (\<lambda>n c. (Inr n, Suc n, c))"

definition inspect :: "('c \<Rightarrow> 'a) \<Rightarrow> ('c, 'e, 'a) program" where
  "inspect f = (\<lambda>n c. (Inr (f c), n, c))"

definition modify :: "('c \<Rightarrow> 'c) \<Rightarrow> ('c, 'e, unit) program" where
  "modify f = (\<lambda>n c. (Inr (), n, f c))"

text \<open>A call that may fail: with \<open>e\<close>, when the schedule says so.\<close>

definition call :: "(nat \<Rightarrow> bool) \<Rightarrow> 'e \<Rightarrow> ('c, 'e, unit) program" where
  "call fails e = chain tick (\<lambda>n. if fails n then throw e else give ())"

subsection \<open>Triples\<close>

definition triple ::
    "('c \<Rightarrow> bool) \<Rightarrow> ('c, 'e, 'a) program \<Rightarrow> ('a \<Rightarrow> 'c \<Rightarrow> bool) \<Rightarrow> ('e \<Rightarrow> 'c \<Rightarrow> bool) \<Rightarrow> bool" where
  "triple P m Q E \<longleftrightarrow> (\<forall>n c. P c \<longrightarrow>
     (case m n c of (Inl e, _, c') \<Rightarrow> E e c' | (Inr x, _, c') \<Rightarrow> Q x c'))"

lemma tripleI:
  assumes "\<And>n c x n' c'. P c \<Longrightarrow> m n c = (Inr x, n', c') \<Longrightarrow> Q x c'"
    and "\<And>n c e n' c'. P c \<Longrightarrow> m n c = (Inl e, n', c') \<Longrightarrow> E e c'"
  shows "triple P m Q E"
  unfolding triple_def
proof (intro allI impI)
  fix n c assume "P c"
  obtain r n' c' where m: "m n c = (r, n', c')" by (cases "m n c")
  show "case m n c of (Inl e, _, c') \<Rightarrow> E e c' | (Inr x, _, c') \<Rightarrow> Q x c'"
  proof (cases r)
    case (Inl e)
    with m assms(2) [OF \<open>P c\<close>, of n e n' c'] show ?thesis by simp
  next
    case (Inr x)
    with m assms(1) [OF \<open>P c\<close>, of n x n' c'] show ?thesis by simp
  qed
qed

lemma tripleD_Inr:
  assumes "triple P m Q E" "P c" "m n c = (Inr x, n', c')"
  shows "Q x c'"
  using assms(1) [unfolded triple_def, rule_format, OF assms(2), of n] assms(3) by simp

lemma tripleD_Inl:
  assumes "triple P m Q E" "P c" "m n c = (Inl e, n', c')"
  shows "E e c'"
  using assms(1) [unfolded triple_def, rule_format, OF assms(2), of n] assms(3) by simp

lemma triple_give: "(\<And>c. P c \<Longrightarrow> Q x c) \<Longrightarrow> triple P (give x) Q E"
  by (simp add: triple_def give_def)

lemma triple_throw: "(\<And>c. P c \<Longrightarrow> E e c) \<Longrightarrow> triple P (throw e) Q E"
  by (simp add: triple_def throw_def)

lemma triple_attempt:
  assumes "triple P m R F" "\<And>x. triple (R x) (k (Inr x)) Q E" "\<And>e. triple (F e) (k (Inl e)) Q E"
  shows "triple P (attempt m k) Q E"
  unfolding triple_def
proof (intro allI impI)
  fix n c assume P: "P c"
  obtain r n' c' where m: "m n c = (r, n', c')" by (cases "m n c")
  show "case attempt m k n c of (Inl e, _, c') \<Rightarrow> E e c' | (Inr x, _, c') \<Rightarrow> Q x c'"
  proof (cases r)
    case (Inl e)
    with m tripleD_Inl [OF assms(1) P] have "F e c'" by simp
    with assms(3) [of e] show ?thesis unfolding triple_def by (simp add: attempt_def m Inl)
  next
    case (Inr x)
    with m tripleD_Inr [OF assms(1) P] have "R x c'" by simp
    with assms(2) [of x] show ?thesis unfolding triple_def by (simp add: attempt_def m Inr)
  qed
qed

lemma triple_try:
  assumes "triple P m R F" "\<And>x. triple (R x) (k x) Q E" "\<And>e. triple (F e) (h e) Q E"
  shows "triple P (attempt m (\<lambda>r. case r of Inl e \<Rightarrow> h e | Inr x \<Rightarrow> k x)) Q E"
  by (rule triple_attempt [OF assms(1)]) (simp_all add: assms(2,3))

lemma triple_chain:
  assumes "triple P m R E" "\<And>x. triple (R x) (k x) Q E"
  shows "triple P (chain m k) Q E"
  unfolding chain_def
  by (rule triple_attempt [OF assms(1)]) (simp_all add: assms(2) triple_throw)

lemma triple_with_error:
  assumes "triple P m Q (\<lambda>e. E (g e))"
  shows "triple P (with_error g m) Q E"
  unfolding with_error_def
  by (rule triple_attempt [OF assms]) (simp_all add: triple_give triple_throw)

lemma triple_from_result:
  assumes "\<And>c x. r = Inr x \<Longrightarrow> P c \<Longrightarrow> Q x c" "\<And>c e. r = Inl e \<Longrightarrow> P c \<Longrightarrow> E e c"
  shows "triple P (from_result r) Q E"
  using assms by (cases r) (simp_all add: triple_give triple_throw)

lemma triple_tick: "triple P tick (\<lambda>_. P) E"
  by (simp add: triple_def tick_def)

lemma triple_inspect: "triple P (inspect f) (\<lambda>x c. P c \<and> x = f c) E"
  by (simp add: triple_def inspect_def)

lemma triple_modify: "triple P (modify f) (\<lambda>_ c'. \<exists>c. P c \<and> c' = f c) E"
  by (auto simp: triple_def modify_def)

lemma triple_call: "triple P (call fails e) (\<lambda>_. P) (\<lambda>e' c. P c \<and> e' = e \<and> (\<exists>n. fails n))"
  by (auto simp: triple_def call_def chain_def attempt_def tick_def throw_def give_def)

lemma triple_if:
  assumes "b \<Longrightarrow> triple P m Q E" "\<not> b \<Longrightarrow> triple P k Q E"
  shows "triple P (if b then m else k) Q E"
  using assms by simp

lemma triple_guard:
  assumes "\<And>c. P c \<Longrightarrow> b \<Longrightarrow> E e c" "\<not> b \<Longrightarrow> triple P m Q E"
  shows "triple P (if b then throw e else m) Q E"
  using assms by (simp add: triple_throw)

lemma triple_pre: "triple P m Q E \<Longrightarrow> (\<And>c. P' c \<Longrightarrow> P c) \<Longrightarrow> triple P' m Q E"
  by (simp add: triple_def)

lemma triple_post:
  assumes "triple P m Q E" "\<And>x c. Q x c \<Longrightarrow> Q' x c" "\<And>e c. E e c \<Longrightarrow> E' e c"
  shows "triple P m Q' E'"
  by (rule tripleI) (blast dest: tripleD_Inr [OF assms(1)] tripleD_Inl [OF assms(1)] intro: assms(2,3))+

text \<open>A fact that does not depend on the state can be moved out of the precondition.\<close>

lemma triple_fact: "(b \<Longrightarrow> triple P m Q E) \<Longrightarrow> triple (\<lambda>c. P c \<and> b) m Q E"
  by (simp add: triple_def)

lemma triple_exists: "(\<And>x. triple (P x) m Q E) \<Longrightarrow> triple (\<lambda>c. \<exists>x. P x c) m Q E"
  by (rule tripleI) (blast dest: tripleD_Inr tripleD_Inl)+

lemma triple_or: "triple P m Q E \<Longrightarrow> triple P' m Q E \<Longrightarrow> triple (\<lambda>c. P c \<or> P' c) m Q E"
  by (rule tripleI) (blast dest: tripleD_Inr tripleD_Inl)+

subsection \<open>Relations every run respects\<close>

text \<open>
  What holds of every run of a program from its first state to its last, on both ways out.
\<close>

definition evolves :: "('c \<Rightarrow> 'c \<Rightarrow> bool) \<Rightarrow> ('c, 'e, 'a) program \<Rightarrow> bool" where
  "evolves R m \<longleftrightarrow> (\<forall>n s. R s (snd (snd (m n s))))"

lemma evolvesD: "evolves R m \<Longrightarrow> m n s = (r, n', s') \<Longrightarrow> R s s'"
  unfolding evolves_def by (metis snd_conv)

locale state_order =
  fixes R :: "'c \<Rightarrow> 'c \<Rightarrow> bool"
  assumes same: "R s s" and after: "R s t \<Longrightarrow> R t u \<Longrightarrow> R s u"
begin

lemma evolves_give: "evolves R (give x)" by (simp add: evolves_def give_def same)
lemma evolves_throw: "evolves R (throw e)" by (simp add: evolves_def throw_def same)
lemma evolves_tick: "evolves R tick" by (simp add: evolves_def tick_def same)
lemma evolves_inspect: "evolves R (inspect f)" by (simp add: evolves_def inspect_def same)

lemma evolves_modify: "(\<And>s. R s (f s)) \<Longrightarrow> evolves R (modify f)"
  by (simp add: evolves_def modify_def)

lemma evolves_attempt:
  assumes "evolves R m" "\<And>r. evolves R (k r)"
  shows "evolves R (attempt m k)"
  unfolding evolves_def attempt_def
proof (intro allI)
  fix n s
  obtain r n' s' where m: "m n s = (r, n', s')" by (cases "m n s")
  have "R s s'" "R s' (snd (snd (k r n' s')))" using evolvesD [OF assms(1) m] assms(2) by (auto simp: evolves_def)
  then show "R s (snd (snd (case m n s of (r, n', c') \<Rightarrow> k r n' c')))" by (simp add: m after)
qed

lemma evolves_chain: "evolves R m \<Longrightarrow> (\<And>x. evolves R (k x)) \<Longrightarrow> evolves R (chain m k)"
  unfolding chain_def by (rule evolves_attempt) (auto intro: evolves_throw split: sum.split)

lemma evolves_call: "evolves R (call fails e)"
  unfolding call_def by (rule evolves_chain) (simp_all add: evolves_tick evolves_throw evolves_give)

lemmas evolves_basic = evolves_give evolves_throw evolves_tick evolves_inspect evolves_call

end

end
