(* ===== verification/Seal.thy ===== *)
theory Seal
  imports Effects Capture_Store "HOL-Library.AList"
begin

section \<open>Sealing a recorded chunk: \<open>capture/seal.rs\<close>\<close>

text \<open>
  A recorded chunk is moved from the staging directory to its final name, verified there and entered
  in the catalog, under a written intent that lets a later attempt finish what a failure interrupted.
  The model has the three directories as lists of entries in the order the system lists them, and the
  catalog.  Every system and catalog call may fail on its own: \<open>io_fails\<close> says which.  The hash,
  the JSON library and the identifiers are arguments.  The directories belong to the program while it
  runs, so nothing else changes them in between; an open file is the entry it was opened from.
  The faults that the code injects for its tests are left out: \<open>io_fails\<close> covers them.
\<close>

subsection \<open>Data\<close>

definition AUDIO_DIRECTORY :: string where "AUDIO_DIRECTORY = ''audio''"
definition PARTIAL_SUFFIX :: string where "PARTIAL_SUFFIX = ''.partial''"

record NativeChunkSealRequest =
  relative_staging_path :: string
  req_chunk_id :: string
  req_session_id :: string
  req_source :: AudioSource
  expected_sha256 :: string
  expected_byte_length :: u64
  req_timing :: CaptureChunkTiming

record NativeSealIntent =
  intent_chunk_id :: string
  intent_final_path :: string
  intent_sha256 :: string
  intent_byte_length :: u64
  intent_session_id :: string
  intent_source :: AudioSource
  intent_timing :: CaptureChunkTiming

datatype io_error = NotFound | AlreadyExists | OtherIo string

datatype NativeChunkSealError =
    InvalidPath
  | IntegrityMismatch
  | SealConflict
  | SealIo io_error
  | SealCatalog sqlite_error
  | SealRecoveryRequired io_error

text \<open>A directory entry; \<open>file_private\<close> is an owner's regular file of mode 0600.\<close>

record dir_entry =
  file_identity :: nat
  file_data :: bytes
  file_regular :: bool
  file_private :: bool

type_synonym folder = "(string \<times> dir_entry) list"

datatype place = Staging | Audio | Intents

text \<open>The staging directory was opened when the sealer was made; the others are created when missing.\<close>

record seal_state =
  tree :: "place \<Rightarrow> folder option"
  catalog_of :: catalog
  next_identity :: nat

record seal_env =
  io_fails :: "nat \<Rightarrow> bool"
  partial_write :: "nat \<Rightarrow> nat"
  new_uuid :: "nat \<Rightarrow> string"
  sha256_hex :: "bytes \<Rightarrow> string"
  print_intent :: "NativeSealIntent \<Rightarrow> bytes option"
  parse_intent :: "bytes \<Rightarrow> NativeSealIntent option"

type_synonym 'a io = "(seal_state, io_error, 'a) program"
type_synonym 'a sealing = "(seal_state, NativeChunkSealError, 'a) program"

definition entries_at :: "place \<Rightarrow> seal_state \<Rightarrow> folder" where
  "entries_at d s = (case tree s d of None \<Rightarrow> [] | Some f \<Rightarrow> f)"

definition look :: "place \<Rightarrow> string \<Rightarrow> seal_state \<Rightarrow> dir_entry option" where
  "look d name s = map_of (entries_at d s) name"

definition with_entries :: "place \<Rightarrow> (folder \<Rightarrow> folder) \<Rightarrow> seal_state \<Rightarrow> seal_state" where
  "with_entries d g s = s\<lparr>tree := (tree s)(d := Some (g (entries_at d s)))\<rparr>"

subsection \<open>System calls\<close>

definition sys :: "seal_env \<Rightarrow> unit io" where
  "sys env = call (io_fails env) (OtherIo ''input/output error'')"

definition sync :: "seal_env \<Rightarrow> unit io" where
  "sync env = sys env"

definition open_or_create_directory :: "seal_env \<Rightarrow> place \<Rightarrow> unit io" where
  "open_or_create_directory env d =
     chain (sys env) (\<lambda>_. chain (inspect (\<lambda>s. tree s d = None)) (\<lambda>created.
     chain (if created then modify (with_entries d (\<lambda>_. [])) else give ()) (\<lambda>_.
     chain (sys env) (\<lambda>_. if created then sync env else give ()))))"

definition open_regular :: "seal_env \<Rightarrow> place \<Rightarrow> string \<Rightarrow> dir_entry io" where
  "open_regular env d name =
     chain (sys env) (\<lambda>_. chain (inspect (look d name)) (\<lambda>entry. case entry of
       None \<Rightarrow> throw NotFound
     | Some f \<Rightarrow> chain (sys env) (\<lambda>_. if file_regular f then give f
         else throw (OtherIo ''native chunk staging entry is not a regular file''))))"

definition create_file :: "seal_env \<Rightarrow> place \<Rightarrow> string \<Rightarrow> dir_entry io" where
  "create_file env d name =
     chain (sys env) (\<lambda>_. chain (inspect (\<lambda>s. (look d name s, next_identity s))) (\<lambda>(entry, i).
       if entry \<noteq> None then throw AlreadyExists
       else let f = \<lparr>file_identity = i, file_data = [], file_regular = True, file_private = True\<rparr>
         in chain (modify (\<lambda>s. (with_entries d (AList.update name f) s)\<lparr>next_identity := Suc i\<rparr>))
              (\<lambda>_. give f)))"

text \<open>\<open>FileIdentity::of\<close> and the duplicate of a handle are one system call each.\<close>

definition identity_of :: "seal_env \<Rightarrow> dir_entry \<Rightarrow> nat io" where
  "identity_of env f = chain (sys env) (\<lambda>_. give (file_identity f))"

definition entry_identity :: "seal_env \<Rightarrow> place \<Rightarrow> string \<Rightarrow> nat option io" where
  "entry_identity env d name = attempt (open_regular env d name) (\<lambda>r. case r of
     Inr f \<Rightarrow> chain (identity_of env f) (\<lambda>i. give (Some i))
   | Inl NotFound \<Rightarrow> give None
   | Inl e \<Rightarrow> throw e)"

definition unlink :: "seal_env \<Rightarrow> place \<Rightarrow> string \<Rightarrow> unit io" where
  "unlink env d name = chain (sys env) (\<lambda>_. chain (inspect (look d name)) (\<lambda>entry. case entry of
     None \<Rightarrow> throw NotFound
   | Some _ \<Rightarrow> modify (with_entries d (AList.delete name))))"

definition rename_noreplace :: "seal_env \<Rightarrow> place \<Rightarrow> string \<Rightarrow> place \<Rightarrow> string \<Rightarrow> unit io" where
  "rename_noreplace env d name d' name' = chain (sys env) (\<lambda>_.
     chain (inspect (\<lambda>s. (look d name s, look d' name' s))) (\<lambda>(source, target). case source of
       None \<Rightarrow> throw NotFound
     | Some f \<Rightarrow> if target \<noteq> None then throw AlreadyExists
         else modify (\<lambda>s. with_entries d' (AList.update name' f) (with_entries d (AList.delete name) s))))"

definition list_entries :: "seal_env \<Rightarrow> place \<Rightarrow> string list io" where
  "list_entries env d = chain (sys env) (\<lambda>_. inspect (\<lambda>s. map fst (entries_at d s)))"

text \<open>\<open>write_all\<close>: on a failure some first part of the bytes has been written.\<close>

definition write_all :: "seal_env \<Rightarrow> place \<Rightarrow> string \<Rightarrow> dir_entry \<Rightarrow> bytes \<Rightarrow> unit io" where
  "write_all env d name f data = chain tick (\<lambda>n.
     let put = (\<lambda>bs. modify (with_entries d (AList.update name (f\<lparr>file_data := bs\<rparr>)))) in
     if io_fails env n
     then chain (put (take (partial_write env n) data)) (\<lambda>_. throw (OtherIo ''input/output error''))
     else put data)"

subsection \<open>Names\<close>

text \<open>\<open>std::str::from_utf8\<close>: the byte sequences of the Unicode standard's table of well-formed UTF-8.\<close>

definition utf8_tail :: "nat \<Rightarrow> bool" where
  "utf8_tail b \<longleftrightarrow> 0x80 \<le> b \<and> b \<le> 0xBF"

fun valid_utf8 :: "nat list \<Rightarrow> bool" where
  "valid_utf8 [] = True"
| "valid_utf8 (a # s) =
     (if a \<le> 0x7F then valid_utf8 s
      else case s of
        [] \<Rightarrow> False
      | b # s \<Rightarrow>
          if 0xC2 \<le> a \<and> a \<le> 0xDF then utf8_tail b \<and> valid_utf8 s
          else case s of
            [] \<Rightarrow> False
          | c # s \<Rightarrow>
              if a = 0xE0 then 0xA0 \<le> b \<and> b \<le> 0xBF \<and> utf8_tail c \<and> valid_utf8 s
              else if a = 0xED then 0x80 \<le> b \<and> b \<le> 0x9F \<and> utf8_tail c \<and> valid_utf8 s
              else if 0xE1 \<le> a \<and> a \<le> 0xEF then utf8_tail b \<and> utf8_tail c \<and> valid_utf8 s
              else case s of
                [] \<Rightarrow> False
              | d # s \<Rightarrow>
                  utf8_tail c \<and> utf8_tail d \<and> valid_utf8 s \<and>
                  (if a = 0xF0 then 0x90 \<le> b \<and> b \<le> 0xBF
                   else if 0xF1 \<le> a \<and> a \<le> 0xF3 then utf8_tail b
                   else a = 0xF4 \<and> 0x80 \<le> b \<and> b \<le> 0x8F))"

definition is_native_chunk_id :: "string \<Rightarrow> bool" where
  "is_native_chunk_id value = (case strip_prefix ''chk_'' value of
     None \<Rightarrow> False
   | Some identity \<Rightarrow> identity \<noteq> [] \<and> length identity \<le> 64 \<and>
       list_all (\<lambda>b. is_ascii_lowercase b \<or> is_ascii_digit b \<or> b = CHR ''_'') identity)"

text \<open>\<open>str::rsplit_once\<close> on one character.\<close>

definition rsplit_once :: "char \<Rightarrow> string \<Rightarrow> (string \<times> string) option" where
  "rsplit_once c s = (case dropWhile (\<lambda>x. x \<noteq> c) (rev s) of
     [] \<Rightarrow> None
   | _ # stem \<Rightarrow> Some (rev stem, rev (takeWhile (\<lambda>x. x \<noteq> c) (rev s))))"

definition is_native_final_name :: "string \<Rightarrow> bool" where
  "is_native_final_name name = (case rsplit_once CHR ''.'' name of
     None \<Rightarrow> False
   | Some (stem, extension) \<Rightarrow> is_native_chunk_id stem \<and> file_extension_ok extension)"

definition validated_names :: "string \<Rightarrow> string \<Rightarrow> NativeChunkSealError + string \<times> string" where
  "validated_names path i =
     (if \<not> is_native_chunk_id i then Inl InvalidPath
      else case path_components path of
        [Normal name] \<Rightarrow> (case strip_suffix PARTIAL_SUFFIX name of
            None \<Rightarrow> Inl InvalidPath
          | Some final \<Rightarrow>
              if final = [] then Inl InvalidPath
              else if \<not> is_native_final_name final \<or>
                Option.bind (strip_prefix i final) (strip_prefix ''.'') = None then Inl InvalidPath
              else Inr (name, final))
      | _ \<Rightarrow> Inl InvalidPath)"

definition intent_name :: "string \<Rightarrow> string" where
  "intent_name i = i @ ''.json''"

definition intent_temp_name :: "string \<Rightarrow> string" where
  "intent_temp_name u = ''.lifesub-native-intent-'' @ u @ ''.tmp''"

definition is_intent_temp_name :: "string \<Rightarrow> bool" where
  "is_intent_temp_name name =
     (case Option.bind (strip_prefix ''.lifesub-native-intent-'' name) (strip_suffix ''.tmp'') of
        None \<Rightarrow> False
      | Some u \<Rightarrow> length u = 32 \<and> list_all is_ascii_hexdigit u)"

definition is_intent_final_name :: "string \<Rightarrow> bool" where
  "is_intent_final_name name =
     (case strip_suffix ''.json'' name of None \<Rightarrow> False | Some i \<Rightarrow> is_native_chunk_id i)"

definition fresh_temp_name :: "seal_env \<Rightarrow> (seal_state, 'e, string) program" where
  "fresh_temp_name env = chain tick (\<lambda>n. give (intent_temp_name (new_uuid env n)))"

subsection \<open>Files and intents\<close>

definition verify_file :: "seal_env \<Rightarrow> dir_entry \<Rightarrow> AudioChunk \<Rightarrow> unit sealing" where
  "verify_file env f c = chain (with_error SealIo (sys env)) (\<lambda>_.
     if \<not> file_regular f \<or> length (file_data f) \<noteq> unat (chunk_byte_length c) then throw IntegrityMismatch
     else chain (with_error SealIo (sys env)) (\<lambda>_.
       if sha256_hex env (file_data f) \<noteq> chunk_sha256 c then throw IntegrityMismatch else give ()))"

definition validate_intent_file :: "seal_env \<Rightarrow> dir_entry \<Rightarrow> unit io" where
  "validate_intent_file env f = chain (sys env) (\<lambda>_.
     if \<not> file_regular f \<or> \<not> file_private f then throw (OtherIo ''unsafe native intent file'') else give ())"

definition cleanup_intent_file :: "seal_env \<Rightarrow> string \<Rightarrow> nat \<Rightarrow> unit io" where
  "cleanup_intent_file env name i = chain (fresh_temp_name env) (\<lambda>tombstone.
     chain (rename_noreplace env Intents name Intents tombstone) (\<lambda>_.
     chain (open_regular env Intents tombstone) (\<lambda>current.
     chain (identity_of env current) (\<lambda>j.
       if j \<noteq> i then throw (OtherIo ''native intent temp identity changed'')
       else chain (unlink env Intents tombstone) (\<lambda>_. sync env)))))"

definition cleanup_after_intent_failure ::
    "seal_env \<Rightarrow> string \<Rightarrow> nat \<Rightarrow> NativeChunkSealError \<Rightarrow> 'a sealing" where
  "cleanup_after_intent_failure env name i original = attempt (cleanup_intent_file env name i)
     (\<lambda>r. case r of Inr _ \<Rightarrow> throw original | Inl e \<Rightarrow> throw (SealRecoveryRequired e))"

fun reconcile_entries :: "seal_env \<Rightarrow> string list \<Rightarrow> unit io" where
  "reconcile_entries env [] = sync env"
| "reconcile_entries env (name # names) =
     (if \<not> valid_utf8 (map of_char name) then throw (OtherIo ''invalid native intent entry'')
      else chain (open_regular env Intents name) (\<lambda>f.
        chain (validate_intent_file env f) (\<lambda>_.
          if is_intent_temp_name name
          then chain (identity_of env f) (\<lambda>i.
            chain (cleanup_intent_file env name i) (\<lambda>_. reconcile_entries env names))
          else if \<not> is_intent_final_name name then throw (OtherIo ''unknown native intent entry'')
          else reconcile_entries env names)))"

definition reconcile_intent_directory :: "seal_env \<Rightarrow> unit io" where
  "reconcile_intent_directory env = chain (list_entries env Intents) (reconcile_entries env)"

definition read_intent :: "seal_env \<Rightarrow> string \<Rightarrow> NativeSealIntent option sealing" where
  "read_intent env name = attempt (open_regular env Intents name) (\<lambda>r. case r of
     Inl NotFound \<Rightarrow> give None
   | Inl e \<Rightarrow> throw (SealIo e)
   | Inr f \<Rightarrow> chain (with_error SealIo (sys env)) (\<lambda>_. case parse_intent env (file_data f) of
       Some intent \<Rightarrow> give (Some intent)
     | None \<Rightarrow> throw (SealRecoveryRequired (OtherIo ''invalid intent''))))"

definition remove_intent :: "seal_env \<Rightarrow> string \<Rightarrow> unit io" where
  "remove_intent env name = unlink env Intents name"

definition write_intent :: "seal_env \<Rightarrow> string \<Rightarrow> NativeSealIntent \<Rightarrow> unit sealing" where
  "write_intent env name intent = (case print_intent env intent of
     None \<Rightarrow> throw (SealIo (OtherIo ''serialization failed''))
   | Some data \<Rightarrow> chain (fresh_temp_name env) (\<lambda>temp.
       chain (with_error SealIo (create_file env Intents temp)) (\<lambda>f.
       chain (with_error SealIo (identity_of env f)) (\<lambda>i.
       attempt (write_all env Intents temp f data) (\<lambda>r. case r of
         Inl e \<Rightarrow> cleanup_after_intent_failure env temp i (SealIo e)
       | Inr _ \<Rightarrow> attempt (sync env) (\<lambda>r. case r of
         Inl e \<Rightarrow> cleanup_after_intent_failure env temp i (SealIo e)
       | Inr _ \<Rightarrow> attempt (rename_noreplace env Intents temp Intents name) (\<lambda>r. case r of
         Inl e \<Rightarrow> cleanup_after_intent_failure env temp i (SealIo e)
       | Inr _ \<Rightarrow> attempt (sync env) (\<lambda>r. case r of
         Inl e \<Rightarrow> cleanup_after_intent_failure env name i (SealIo e)
       | Inr _ \<Rightarrow> give ()))))))))"

subsection \<open>Sealing\<close>

definition chunk_of_request :: "NativeChunkSealRequest \<Rightarrow> string \<Rightarrow> AudioChunk" where
  "chunk_of_request req final = \<lparr>chunk_id = req_chunk_id req, chunk_session_id = req_session_id req,
     chunk_source = req_source req, chunk_path = AUDIO_DIRECTORY @ ''/'' @ final,
     chunk_sha256 = expected_sha256 req, chunk_byte_length = expected_byte_length req\<rparr>"

definition intent_of_request :: "NativeChunkSealRequest \<Rightarrow> string \<Rightarrow> NativeSealIntent" where
  "intent_of_request req final = \<lparr>intent_chunk_id = req_chunk_id req,
     intent_final_path = AUDIO_DIRECTORY @ ''/'' @ final, intent_sha256 = expected_sha256 req,
     intent_byte_length = expected_byte_length req, intent_session_id = req_session_id req,
     intent_source = req_source req, intent_timing = req_timing req\<rparr>"

text \<open>A read of the catalog, and its insert; a failed statement leaves the catalog unchanged.\<close>

definition query :: "seal_env \<Rightarrow> (catalog \<Rightarrow> 'a) \<Rightarrow> 'a sealing" where
  "query env q = chain (call (io_fails env) (SealCatalog DatabaseUnavailable)) (\<lambda>_.
     inspect (\<lambda>s. q (catalog_of s)))"

definition store_chunk ::
    "seal_env \<Rightarrow> AudioChunk \<Rightarrow> CaptureChunkTiming \<Rightarrow> (seal_state, NativeCaptureInsertError, unit) program" where
  "store_chunk env c t = chain (call (io_fails env) (InsertCatalog DatabaseUnavailable)) (\<lambda>_.
     chain (inspect (\<lambda>s. insert_native_capture_chunk c t (catalog_of s))) (\<lambda>r. case r of
       Inl e \<Rightarrow> throw e
     | Inr (_, cat) \<Rightarrow> modify (\<lambda>s. s\<lparr>catalog_of := cat\<rparr>)))"

fun insert_error :: "NativeCaptureInsertError \<Rightarrow> NativeChunkSealError" where
  "insert_error InsertConflict = SealConflict"
| "insert_error (InsertCatalog e) = SealCatalog e"

definition drop_intent :: "seal_env \<Rightarrow> string \<Rightarrow> unit sealing" where
  "drop_intent env iname = with_error SealIo (chain (remove_intent env iname) (\<lambda>_. sync env))"

definition restore_staging :: "seal_env \<Rightarrow> string \<Rightarrow> string \<Rightarrow> unit io" where
  "restore_staging env final name = chain (rename_noreplace env Audio final Staging name) (\<lambda>_.
     chain (sync env) (\<lambda>_. sync env))"

definition restore_or_recovery ::
    "seal_env \<Rightarrow> string \<Rightarrow> string \<Rightarrow> string \<Rightarrow> NativeChunkSealError \<Rightarrow> 'a sealing" where
  "restore_or_recovery env final name iname original = attempt (restore_staging env final name)
     (\<lambda>r. case r of
        Inr _ \<Rightarrow> attempt (chain (remove_intent env iname) (\<lambda>_. sync env)) (\<lambda>r. case r of
          Inr _ \<Rightarrow> throw original
        | Inl e \<Rightarrow> throw (SealRecoveryRequired e))
      | Inl e \<Rightarrow> throw (SealRecoveryRequired e))"

text \<open>The chunk is in the catalog already.\<close>

definition seal_known ::
    "seal_env \<Rightarrow> AudioChunk \<Rightarrow> CaptureChunkTiming \<Rightarrow> string \<Rightarrow> NativeSealIntent \<Rightarrow> string \<Rightarrow>
       NativeSealIntent option \<Rightarrow> AudioChunk \<Rightarrow> AudioChunk sealing" where
  "seal_known env c t final intent iname existing_intent existing =
     chain (query env (capture_chunk_timing (chunk_id c))) (\<lambda>timing.
     if existing \<noteq> c \<or> timing \<noteq> Some t then throw SealConflict
     else chain (with_error SealIo (open_or_create_directory env Audio)) (\<lambda>_.
       chain (with_error SealIo (open_regular env Audio final)) (\<lambda>f.
       chain (verify_file env f c) (\<lambda>_.
         if existing_intent = Some intent then chain (drop_intent env iname) (\<lambda>_. give c)
         else if existing_intent \<noteq> None then throw SealConflict
         else give c))))"

text \<open>The file has its final name already: an earlier attempt stopped before the catalog.\<close>

definition seal_resume ::
    "seal_env \<Rightarrow> AudioChunk \<Rightarrow> CaptureChunkTiming \<Rightarrow> NativeSealIntent \<Rightarrow> string \<Rightarrow>
       NativeSealIntent option \<Rightarrow> dir_entry \<Rightarrow> AudioChunk sealing" where
  "seal_resume env c t intent iname existing_intent f =
     (if existing_intent \<noteq> Some intent then throw SealConflict
      else chain (with_error SealIo (sync env)) (\<lambda>_.
        chain (with_error (\<lambda>e. if e = IntegrityMismatch then SealConflict else e) (verify_file env f c)) (\<lambda>_.
        chain (with_error SealIo (sync env)) (\<lambda>_.
        chain (with_error insert_error (store_chunk env c t)) (\<lambda>_.
        chain (drop_intent env iname) (\<lambda>_. give c))))))"

definition validate_published :: "seal_env \<Rightarrow> string \<Rightarrow> nat \<Rightarrow> AudioChunk \<Rightarrow> unit sealing" where
  "validate_published env final i c = chain (with_error SealIo (open_regular env Audio final)) (\<lambda>published.
     chain (with_error SealIo (identity_of env published)) (\<lambda>j.
       if j \<noteq> i then throw SealConflict else verify_file env published c))"

text \<open>After the rename: verify, make the rename durable, enter the chunk in the catalog - or undo.\<close>

definition seal_moved ::
    "seal_env \<Rightarrow> AudioChunk \<Rightarrow> CaptureChunkTiming \<Rightarrow> string \<Rightarrow> string \<Rightarrow> string \<Rightarrow> nat \<Rightarrow> AudioChunk sealing" where
  "seal_moved env c t name final iname i =
     attempt (validate_published env final i c) (\<lambda>r. case r of
       Inl e \<Rightarrow> restore_or_recovery env final name iname e
     | Inr _ \<Rightarrow> attempt (sync env) (\<lambda>r. case r of
       Inl e \<Rightarrow> restore_or_recovery env final name iname (SealIo e)
     | Inr _ \<Rightarrow> attempt (store_chunk env c t) (\<lambda>r. case r of
       Inl e \<Rightarrow> restore_or_recovery env final name iname (insert_error e)
     | Inr _ \<Rightarrow> chain (drop_intent env iname) (\<lambda>_. give c))))"

definition seal_publish ::
    "seal_env \<Rightarrow> AudioChunk \<Rightarrow> CaptureChunkTiming \<Rightarrow> string \<Rightarrow> string \<Rightarrow> NativeSealIntent \<Rightarrow> string \<Rightarrow>
       NativeSealIntent option \<Rightarrow> AudioChunk sealing" where
  "seal_publish env c t name final intent iname existing_intent =
     chain (with_error SealIo (open_regular env Staging name)) (\<lambda>f.
     chain (with_error SealIo (identity_of env f)) (\<lambda>i.
     chain (with_error SealIo (sys env)) (\<lambda>_.
     chain (verify_file env f c) (\<lambda>_.
     chain (case existing_intent of
         Some existing \<Rightarrow> if existing \<noteq> intent then throw SealConflict else give ()
       | None \<Rightarrow> write_intent env iname intent) (\<lambda>_.
     chain (with_error SealIo (sync env)) (\<lambda>_.
     chain (with_error SealIo (entry_identity env Staging name)) (\<lambda>j.
       if j \<noteq> Some i then throw SealConflict
       else attempt (rename_noreplace env Staging name Audio final) (\<lambda>r. case r of
         Inr _ \<Rightarrow> seal_moved env c t name final iname i
       | Inl e \<Rightarrow> chain (drop_intent env iname) (\<lambda>_.
           throw (if e = AlreadyExists then SealConflict else SealIo e))))))))))"

text \<open>The chunk is not in the catalog yet.\<close>

definition seal_unknown ::
    "seal_env \<Rightarrow> AudioChunk \<Rightarrow> CaptureChunkTiming \<Rightarrow> string \<Rightarrow> string \<Rightarrow> NativeSealIntent \<Rightarrow> string \<Rightarrow>
       NativeSealIntent option \<Rightarrow> AudioChunk sealing" where
  "seal_unknown env c t name final intent iname existing_intent =
     chain (query env (capture_chunk_timing (chunk_id c))) (\<lambda>timing.
       if timing \<noteq> None then throw SealConflict
       else chain (with_error SealIo (open_or_create_directory env Audio)) (\<lambda>_.
         attempt (open_regular env Audio final) (\<lambda>r. case r of
           Inl e \<Rightarrow> if e = NotFound then seal_publish env c t name final intent iname existing_intent
             else throw (SealIo e)
         | Inr f \<Rightarrow> seal_resume env c t intent iname existing_intent f)))"

definition seal_checked ::
    "seal_env \<Rightarrow> AudioChunk \<Rightarrow> CaptureChunkTiming \<Rightarrow> string \<Rightarrow> string \<Rightarrow> NativeSealIntent \<Rightarrow> string \<Rightarrow>
       AudioChunk sealing" where
  "seal_checked env c t name final intent iname =
     chain (with_error SealIo (open_or_create_directory env Intents)) (\<lambda>_.
     chain (with_error SealIo (reconcile_intent_directory env)) (\<lambda>_.
     chain (read_intent env iname) (\<lambda>existing_intent.
     chain (query env (catalog_chunk (chunk_id c))) (\<lambda>known. case known of
       Some existing \<Rightarrow> seal_known env c t final intent iname existing_intent existing
     | None \<Rightarrow> seal_unknown env c t name final intent iname existing_intent))))"

definition seal :: "seal_env \<Rightarrow> NativeChunkSealRequest \<Rightarrow> AudioChunk sealing" where
  "seal env req = (case validated_names (relative_staging_path req) (req_chunk_id req) of
     Inl e \<Rightarrow> throw e
   | Inr (name, final) \<Rightarrow>
       if req_source req = Imported \<or> timing_chunk_id (req_timing req) \<noteq> req_chunk_id req
       then throw SealConflict
       else seal_checked env (chunk_of_request req final) (req_timing req) name final
         (intent_of_request req final) (intent_name (req_chunk_id req)))"

subsection \<open>What the calls do\<close>

definition quiet :: "seal_env \<Rightarrow> bool" where
  "quiet env \<longleftrightarrow> (\<forall>n. \<not> io_fails env n)"

lemma entries_at_with [simp]:
  "entries_at d (with_entries d' g s) = (if d = d' then g (entries_at d s) else entries_at d s)"
  by (simp add: entries_at_def with_entries_def)

lemma with_entries_rest [simp]:
  "catalog_of (with_entries d g s) = catalog_of s" "next_identity (with_entries d g s) = next_identity s"
  by (simp_all add: with_entries_def)

lemma look_update [simp]:
  "look d n (with_entries d' (AList.update n' f) s) = (if d = d' \<and> n = n' then Some f else look d n s)"
  by (simp add: look_def update_conv')

lemma look_delete [simp]:
  "look d n (with_entries d' (AList.delete n') s) = (if d = d' \<and> n = n' then None else look d n s)"
  by (simp add: look_def delete_conv')

lemma look_fields [simp]:
  "look d n (s\<lparr>next_identity := i\<rparr>) = look d n s" "look d n (s\<lparr>catalog_of := cat\<rparr>) = look d n s"
  by (simp_all add: look_def entries_at_def)

lemma entries_fields [simp]:
  "entries_at d (s\<lparr>next_identity := i\<rparr>) = entries_at d s" "entries_at d (s\<lparr>catalog_of := cat\<rparr>) = entries_at d s"
  by (simp_all add: entries_at_def)

lemmas step_defs = chain_def attempt_def give_def throw_def inspect_def modify_def call_def tick_def sys_def quiet_def

lemma triple_sys: "triple P (sys env) (\<lambda>_. P) (\<lambda>e c. P c \<and> \<not> quiet env \<and> (\<exists>m. e = OtherIo m))"
  by (auto simp: triple_def step_defs)

lemma triple_open_regular:
  "triple P (open_regular env d n) (\<lambda>f c. P c \<and> look d n c = Some f \<and> file_regular f)
     (\<lambda>e c. P c \<and> (e = NotFound \<and> look d n c = None \<or>
        e \<noteq> NotFound \<and> (\<not> quiet env \<or> (\<exists>f. look d n c = Some f \<and> \<not> file_regular f))))"
  by (auto simp: triple_def open_regular_def step_defs split: option.splits)

lemma triple_identity_of:
  "triple P (identity_of env f) (\<lambda>i c. P c \<and> i = file_identity f) (\<lambda>e c. P c \<and> \<not> quiet env)"
  by (auto simp: triple_def identity_of_def step_defs)

lemma triple_unlink:
  "triple P (unlink env d n)
     (\<lambda>_ c. \<exists>c0. P c0 \<and> look d n c0 \<noteq> None \<and> c = with_entries d (AList.delete n) c0)
     (\<lambda>e c. P c \<and> (\<not> quiet env \<or> look d n c = None))"
  by (auto simp: triple_def unlink_def step_defs split: option.splits)

lemma triple_rename:
  "triple P (rename_noreplace env d n d' n')
     (\<lambda>_ c. \<exists>c0 f. P c0 \<and> look d n c0 = Some f \<and> look d' n' c0 = None \<and>
        c = with_entries d' (AList.update n' f) (with_entries d (AList.delete n) c0))
     (\<lambda>e c. P c \<and> (\<not> quiet env \<or> look d n c = None \<or> look d' n' c \<noteq> None))"
  by (auto simp: triple_def rename_noreplace_def step_defs split: option.splits)

lemma triple_create_file:
  "triple P (create_file env d n)
     (\<lambda>f c. \<exists>c0 i. P c0 \<and> look d n c0 = None \<and> file_regular f \<and> file_private f \<and>
        c = (with_entries d (AList.update n f) c0)\<lparr>next_identity := i\<rparr>)
     (\<lambda>e c. P c \<and> (\<not> quiet env \<or> look d n c \<noteq> None))"
  by (auto simp: triple_def create_file_def step_defs Let_def)

lemma triple_write_all:
  "triple P (write_all env d n f data)
     (\<lambda>_ c. \<exists>c0. P c0 \<and> c = with_entries d (AList.update n (f\<lparr>file_data := data\<rparr>)) c0)
     (\<lambda>e c. \<not> quiet env \<and> (\<exists>c0 bs. P c0 \<and> c = with_entries d (AList.update n (f\<lparr>file_data := bs\<rparr>)) c0))"
  by (auto simp: triple_def write_all_def step_defs Let_def)

lemma triple_list_entries:
  "triple P (list_entries env d) (\<lambda>ns c. P c \<and> ns = map fst (entries_at d c)) (\<lambda>e c. P c \<and> \<not> quiet env)"
  by (auto simp: triple_def list_entries_def step_defs)

lemma triple_fresh_temp_name:
  "triple P (fresh_temp_name env) (\<lambda>name c. P c \<and> (\<exists>n. name = intent_temp_name (new_uuid env n))) E"
  by (auto simp: triple_def fresh_temp_name_def step_defs)

text \<open>Predicates that a directory that comes into being empty does not change.\<close>

definition open_stable :: "place \<Rightarrow> (seal_state \<Rightarrow> bool) \<Rightarrow> bool" where
  "open_stable d P \<longleftrightarrow> (\<forall>c. tree c d = None \<longrightarrow> P c \<longrightarrow> P (with_entries d (\<lambda>_. []) c))"

lemma triple_open_or_create:
  assumes "open_stable d P"
  shows "triple P (open_or_create_directory env d) (\<lambda>_. P) (\<lambda>e c. P c \<and> \<not> quiet env)"
  using assms by (auto simp: triple_def open_or_create_directory_def sync_def open_stable_def step_defs)

lemma triple_query:
  "triple P (query env q) (\<lambda>x c. P c \<and> x = q (catalog_of c)) (\<lambda>e c. P c \<and> \<not> quiet env)"
  by (auto simp: triple_def query_def step_defs)

lemma triple_store_chunk:
  "triple P (store_chunk env c t)
     (\<lambda>_ s. \<exists>s0 out cat. P s0 \<and> insert_native_capture_chunk c t (catalog_of s0) = Inr (out, cat) \<and>
        s = s0\<lparr>catalog_of := cat\<rparr>)
     (\<lambda>e s. P s \<and> (\<not> quiet env \<or> (\<exists>e. insert_native_capture_chunk c t (catalog_of s) = Inl e)))"
  by (auto simp: triple_def store_chunk_def step_defs split: sum.splits prod.splits)

definition good_file :: "seal_env \<Rightarrow> AudioChunk \<Rightarrow> dir_entry \<Rightarrow> bool" where
  "good_file env c f \<longleftrightarrow> file_regular f \<and> length (file_data f) = unat (chunk_byte_length c) \<and>
     sha256_hex env (file_data f) = chunk_sha256 c"

lemma triple_verify_file:
  "triple P (verify_file env f c) (\<lambda>_ s. P s \<and> good_file env c f)
     (\<lambda>e s. P s \<and> (\<not> quiet env \<or> \<not> good_file env c f))"
  by (auto simp: triple_def verify_file_def with_error_def good_file_def step_defs)

lemma triple_entry_identity:
  "triple P (entry_identity env d n)
     (\<lambda>j c. P c \<and> j = map_option file_identity (look d n c))
     (\<lambda>e c. P c \<and> (\<not> quiet env \<or> (\<exists>f. look d n c = Some f \<and> \<not> file_regular f)))"
  unfolding entry_identity_def
  apply (rule triple_attempt [OF triple_open_regular])
   apply simp
   apply (rule triple_chain [OF triple_post [OF triple_identity_of]])
     apply assumption
    apply simp
   apply (rule triple_give)
   apply simp
  subgoal for e by (cases e) (auto intro: triple_give triple_throw)
  done

subsection \<open>Nothing is lost, whatever fails\<close>

text \<open>The recorded files and the catalog: what the intents directory cannot touch.\<close>

definition same_files :: "seal_state \<Rightarrow> seal_state \<Rightarrow> bool" where
  "same_files s0 s \<longleftrightarrow> (\<forall>d n. d \<noteq> Intents \<longrightarrow> look d n s = look d n s0)"

definition moved_files :: "string \<Rightarrow> string \<Rightarrow> seal_state \<Rightarrow> seal_state \<Rightarrow> bool" where
  "moved_files name final s0 s \<longleftrightarrow> look Staging name s0 \<noteq> None \<and> look Audio final s0 = None \<and>
     (\<forall>d n. d \<noteq> Intents \<longrightarrow> look d n s =
        (if d = Staging \<and> n = name then None else if d = Audio \<and> n = final then look Staging name s0
         else look d n s0))"

definition published :: "seal_env \<Rightarrow> AudioChunk \<Rightarrow> string \<Rightarrow> seal_state \<Rightarrow> bool" where
  "published env c final s \<longleftrightarrow> (\<exists>f. look Audio final s = Some f \<and> good_file env c f)"

definition at_rest :: "seal_state \<Rightarrow> seal_state \<Rightarrow> bool" where
  "at_rest s0 s \<longleftrightarrow> same_files s0 s \<and> catalog_of s = catalog_of s0"

definition moved :: "string \<Rightarrow> string \<Rightarrow> seal_state \<Rightarrow> seal_state \<Rightarrow> bool" where
  "moved name final s0 s \<longleftrightarrow> moved_files name final s0 s \<and> catalog_of s = catalog_of s0"

definition entered :: "seal_env \<Rightarrow> AudioChunk \<Rightarrow> CaptureChunkTiming \<Rightarrow> string \<Rightarrow> string \<Rightarrow> seal_state \<Rightarrow> seal_state \<Rightarrow> bool" where
  "entered env c t name final s0 s \<longleftrightarrow> (same_files s0 s \<or> moved_files name final s0 s) \<and>
     published env c final s \<and>
     (\<exists>out. insert_native_capture_chunk c t (catalog_of s0) = Inr (out, catalog_of s))"

text \<open>Predicates that only look at the recorded files and the catalog.\<close>

definition intents_free :: "(seal_state \<Rightarrow> bool) \<Rightarrow> bool" where
  "intents_free P \<longleftrightarrow> (\<forall>s s'. P s \<longrightarrow> (\<forall>d n. d \<noteq> Intents \<longrightarrow> look d n s' = look d n s) \<longrightarrow>
     catalog_of s' = catalog_of s \<longrightarrow> P s')"

lemma intents_freeD:
  "intents_free P \<Longrightarrow> P s \<Longrightarrow> (\<And>d n. d \<noteq> Intents \<Longrightarrow> look d n s' = look d n s) \<Longrightarrow>
     catalog_of s' = catalog_of s \<Longrightarrow> P s'"
  by (auto simp: intents_free_def)

lemma intents_free_facts [intro, simp]:
  "intents_free (at_rest s0)" "intents_free (moved name final s0)"
  "intents_free (entered env c t name final s0)"
  by (auto simp: intents_free_def at_rest_def moved_def entered_def same_files_def moved_files_def
      published_def)

lemma intents_free_conj: "intents_free P \<Longrightarrow> intents_free Q \<Longrightarrow> intents_free (\<lambda>s. P s \<and> Q s)"
  by (auto simp: intents_free_def)

lemma intents_free_const: "intents_free (\<lambda>s. b)"
  by (simp add: intents_free_def)

text \<open>Every step on the intents directory keeps such a predicate.\<close>

lemma keeps_intents:
  assumes "intents_free P"
  shows "triple P (unlink env Intents n) (\<lambda>_. P) (\<lambda>_. P)"
    and "triple P (rename_noreplace env Intents n Intents n') (\<lambda>_. P) (\<lambda>_. P)"
    and "triple P (create_file env Intents n) (\<lambda>_. P) (\<lambda>_. P)"
    and "triple P (write_all env Intents n f data) (\<lambda>_. P) (\<lambda>_. P)"
    and "triple P (open_or_create_directory env Intents) (\<lambda>_. P) (\<lambda>_. P)"
proof -
  have w: "P (with_entries Intents g s)" if "P s" for g s
    by (rule intents_freeD [OF assms that]) (simp_all add: look_def)
  have n: "P (s\<lparr>next_identity := i\<rparr>)" if "P s" for i s
    by (rule intents_freeD [OF assms that]) simp_all
  show "triple P (unlink env Intents n) (\<lambda>_. P) (\<lambda>_. P)"
    by (rule triple_post [OF triple_unlink]) (auto intro: w)
  show "triple P (rename_noreplace env Intents n Intents n') (\<lambda>_. P) (\<lambda>_. P)"
    by (rule triple_post [OF triple_rename]) (auto intro: w)
  show "triple P (create_file env Intents n) (\<lambda>_. P) (\<lambda>_. P)"
    by (rule triple_post [OF triple_create_file]) (auto intro: w n)
  show "triple P (write_all env Intents n f data) (\<lambda>_. P) (\<lambda>_. P)"
    by (rule triple_post [OF triple_write_all]) (auto intro: w)
  show "triple P (open_or_create_directory env Intents) (\<lambda>_. P) (\<lambda>_. P)"
    by (rule triple_post [OF triple_open_or_create]) (auto simp: open_stable_def intro: w)
qed

lemma keeps_reads:
  "triple P (sys env) (\<lambda>_. P) (\<lambda>_. P)" "triple P (sync env) (\<lambda>_. P) (\<lambda>_. P)"
  "triple P (open_regular env d n) (\<lambda>_. P) (\<lambda>_. P)" "triple P (identity_of env f) (\<lambda>_. P) (\<lambda>_. P)"
  "triple P (list_entries env d) (\<lambda>_. P) (\<lambda>_. P)" "triple P (fresh_temp_name env) (\<lambda>_. P) (\<lambda>_. P)"
  "triple P (query env q) (\<lambda>_. P) (\<lambda>_. P)" "triple P (verify_file env f c) (\<lambda>_. P) (\<lambda>_. P)"
  "triple P (entry_identity env d n) (\<lambda>_. P) (\<lambda>_. P)"
  unfolding sync_def
  by (rule triple_post [OF triple_sys] triple_post [OF triple_open_regular] triple_post [OF triple_identity_of]
      triple_post [OF triple_list_entries] triple_post [OF triple_fresh_temp_name]
      triple_post [OF triple_query] triple_post [OF triple_verify_file] triple_post [OF triple_entry_identity];
      blast)+

lemma keep_chain: "triple P m (\<lambda>_. P) E \<Longrightarrow> (\<And>x. triple P (k x) Q E) \<Longrightarrow> triple P (chain m k) Q E"
  by (rule triple_chain)

lemma keep_attempt: "triple P m (\<lambda>_. P) (\<lambda>_. P) \<Longrightarrow> (\<And>r. triple P (k r) Q E) \<Longrightarrow> triple P (attempt m k) Q E"
  by (rule triple_attempt)

lemma keep_give: "triple P (give x) (\<lambda>_. P) E" "triple P (throw e) Q (\<lambda>_. P)"
  by (simp_all add: triple_give triple_throw)

lemma keep_error: "triple P m (\<lambda>_. P) (\<lambda>_. P) \<Longrightarrow> triple P (with_error g m) (\<lambda>_. P) (\<lambda>_. P)"
  by (rule triple_with_error)

lemma keeps_cleanup:
  assumes "intents_free P"
  shows "triple P (cleanup_intent_file env n i) (\<lambda>_. P) (\<lambda>_. P)"
    and "triple P (cleanup_after_intent_failure env n i e) (\<lambda>_. P) (\<lambda>_. P)"
proof -
  show c: "triple P (cleanup_intent_file env n i) (\<lambda>_. P) (\<lambda>_. P)"
    unfolding cleanup_intent_file_def
    by (intro keep_chain keeps_reads keeps_intents assms triple_if keep_give)
  show "triple P (cleanup_after_intent_failure env n i e) (\<lambda>_. P) (\<lambda>_. P)"
    unfolding cleanup_after_intent_failure_def
    by (rule keep_attempt [OF c]) (auto split: sum.splits intro: keep_give)
qed

lemma keeps_reconcile:
  assumes "intents_free P"
  shows "triple P (reconcile_intent_directory env) (\<lambda>_. P) (\<lambda>_. P)"
proof -
  have "triple P (reconcile_entries env names) (\<lambda>_. P) (\<lambda>_. P)" for names
  proof (induction names)
    case Nil
    then show ?case by (simp add: keeps_reads)
  next
    case (Cons n names)
    have v: "triple P (validate_intent_file env f) (\<lambda>_. P) (\<lambda>_. P)" for f
      unfolding validate_intent_file_def by (intro keep_chain keeps_reads triple_if keep_give)
    show ?case
      unfolding reconcile_entries.simps
      by (intro keep_chain keeps_reads keeps_cleanup assms triple_if keep_give v Cons.IH)
  qed
  then show ?thesis
    unfolding reconcile_intent_directory_def by (intro keep_chain keeps_reads)
qed

lemma keeps_read_intent: "triple P (read_intent env n) (\<lambda>_. P) (\<lambda>_. P)"
  unfolding read_intent_def
  by (rule keep_attempt) (auto split: sum.splits io_error.splits option.splits
      intro!: keeps_reads keep_give keep_chain keep_error)

lemma keeps_write_intent:
  assumes "intents_free P"
  shows "triple P (write_intent env n intent) (\<lambda>_. P) (\<lambda>_. P)"
  unfolding write_intent_def
  by (cases "print_intent env intent")
    (auto split: sum.splits intro!: keep_chain keeps_reads keep_error keeps_intents assms
      keep_attempt keep_give keeps_cleanup)

lemma keeps_drop_intent:
  assumes "intents_free P"
  shows "triple P (drop_intent env n) (\<lambda>_. P) (\<lambda>_. P)"
  unfolding drop_intent_def remove_intent_def
  by (intro keep_chain keep_error keeps_intents keeps_reads assms)

text \<open>The catalog has exactly this chunk and this timing.\<close>

definition recorded :: "AudioChunk \<Rightarrow> CaptureChunkTiming \<Rightarrow> seal_state \<Rightarrow> bool" where
  "recorded c t s \<longleftrightarrow> catalog_chunk (chunk_id c) (catalog_of s) = Some c \<and>
     capture_chunk_timing (chunk_id c) (catalog_of s) = Some t"

lemma entered_recorded: "entered env c t name final s0 s \<Longrightarrow> recorded c t s"
  by (auto simp: entered_def recorded_def dest: native_insert_stored)

lemma drop_intent_gone:
  assumes "intents_free P"
  shows "triple P (drop_intent env iname) (\<lambda>_ s. P s \<and> look Intents iname s = None) (\<lambda>_. P)"
  unfolding drop_intent_def remove_intent_def
proof (rule triple_with_error, rule triple_chain)
  have w: "P (with_entries Intents g s)" if "P s" for g s
    by (rule intents_freeD [OF assms that]) (simp_all add: look_def)
  show "triple P (unlink env Intents iname) (\<lambda>_ s. P s \<and> look Intents iname s = None) (\<lambda>_. P)"
    by (rule triple_post [OF triple_unlink]) (auto intro: w)
  show "triple (\<lambda>s. P s \<and> look Intents iname s = None) (sync env)
      (\<lambda>_ s. P s \<and> look Intents iname s = None) (\<lambda>_. P)" for x
    by (rule triple_post [OF keeps_reads(2)]) simp_all
qed

lemma dropped:
  assumes "intents_free P" "\<And>s. P s \<Longrightarrow> look Intents iname s = None \<Longrightarrow> Q c s" "\<And>e s. P s \<Longrightarrow> E e s"
  shows "triple P (chain (drop_intent env iname) (\<lambda>_. give c)) Q E"
proof (rule triple_chain)
  show "triple P (drop_intent env iname) (\<lambda>_ s. P s \<and> look Intents iname s = None) E"
    by (rule triple_post [OF drop_intent_gone [OF assms(1)]]) (simp_all add: assms(3))
  show "triple (\<lambda>s. P s \<and> look Intents iname s = None) (give c) Q E" for x
    by (rule triple_give) (simp add: assms(2))
qed

lemma look_created: "tree s d = None \<Longrightarrow> look d' n (with_entries d (\<lambda>_. []) s) = look d' n s"
  by (simp add: look_def entries_at_def with_entries_def)

lemma restore_outcome:
  "triple (moved name final s0) (restore_or_recovery env final name iname e) Q
     (\<lambda>_ s. at_rest s0 s \<or> moved name final s0 s)"
proof -
  let ?A = "at_rest s0" and ?M = "moved name final s0"
  have undone: "?A (with_entries Staging (AList.update name f) (with_entries Audio (AList.delete final) s))"
    if "?M s" "look Audio final s = Some f" for s f
    using that by (auto simp: moved_def at_rest_def moved_files_def same_files_def)
  have r1: "triple ?M (rename_noreplace env Audio final Staging name) (\<lambda>_. ?A) (\<lambda>_ s. ?A s \<or> ?M s)"
    by (rule triple_post [OF triple_rename]) (auto intro: undone)
  have r2: "triple ?A (sync env) (\<lambda>_. ?A) (\<lambda>_ s. ?A s \<or> ?M s)"
    by (rule triple_post [OF keeps_reads(2)]) simp_all
  have r: "triple ?A (chain (remove_intent env iname) (\<lambda>_. sync env)) (\<lambda>_. ?A) (\<lambda>_. ?A)"
    unfolding remove_intent_def by (intro keep_chain keeps_intents keeps_reads) simp
  have k: "triple ?A (attempt (chain (remove_intent env iname) (\<lambda>_. sync env)) (\<lambda>r. case r of
      Inr _ \<Rightarrow> throw e | Inl e \<Rightarrow> throw (SealRecoveryRequired e))) Q (\<lambda>_ s. ?A s \<or> ?M s)"
    by (rule keep_attempt [OF r]) (simp add: triple_throw split: sum.split)
  show ?thesis
    unfolding restore_or_recovery_def restore_staging_def
    apply (rule triple_attempt [OF triple_chain [OF r1 triple_chain [OF r2 r2]]])
     apply (simp only: sum.case k)
    apply (simp add: triple_throw)
    done
qed

lemma moved_outcome:
  "triple (moved name final s0) (seal_moved env c t name final iname i)
     (\<lambda>ch s. ch = c \<and> entered env c t name final s0 s \<and> look Intents iname s = None)
     (\<lambda>_ s. at_rest s0 s \<or> moved name final s0 s \<or> entered env c t name final s0 s)"
proof -
  let ?A = "at_rest s0" and ?M = "moved name final s0" and ?N = "entered env c t name final s0"
  let ?P = "\<lambda>s. ?M s \<and> published env c final s"
  let ?E = "\<lambda>_ s. ?A s \<or> ?M s \<or> ?N s"
  have undo: "triple ?M (restore_or_recovery env final name iname e) Q ?E" for e Q
    by (rule triple_post [OF restore_outcome]) auto
  have v: "triple ?M (validate_published env final i c) (\<lambda>_. ?P) (\<lambda>_. ?M)"
    unfolding validate_published_def
  proof (rule triple_chain)
    show "triple ?M (with_error SealIo (open_regular env Audio final))
        (\<lambda>f s. ?M s \<and> look Audio final s = Some f) (\<lambda>_. ?M)"
      by (rule triple_with_error, rule triple_post [OF triple_open_regular]) simp_all
    show "triple (\<lambda>s. ?M s \<and> look Audio final s = Some f)
        (chain (with_error SealIo (identity_of env f)) (\<lambda>j.
           if j \<noteq> i then throw SealConflict else verify_file env f c)) (\<lambda>_. ?P) (\<lambda>_. ?M)" for f
    proof (rule triple_chain)
      let ?L = "\<lambda>s. ?M s \<and> look Audio final s = Some f"
      show "triple ?L (with_error SealIo (identity_of env f)) (\<lambda>_. ?L) (\<lambda>_. ?M)"
        by (rule triple_post [OF keep_error [OF keeps_reads(4)]]) simp_all
      show "triple ?L (if j \<noteq> i then throw SealConflict else verify_file env f c) (\<lambda>_. ?P) (\<lambda>_. ?M)" for j
      proof (rule triple_if)
        show "triple ?L (throw SealConflict) (\<lambda>_. ?P) (\<lambda>_. ?M)"
          by (rule triple_throw) simp
        show "triple ?L (verify_file env f c) (\<lambda>_. ?P) (\<lambda>_. ?M)"
          by (rule triple_post [OF triple_verify_file]) (auto simp: published_def)
      qed
    qed
  qed
  have st: "triple ?P (store_chunk env c t) (\<lambda>_. ?N) (\<lambda>_. ?M)"
    by (rule triple_post [OF triple_store_chunk])
      (auto simp: moved_def entered_def moved_files_def published_def)
  have sy: "triple ?P (sync env) (\<lambda>_. ?P) (\<lambda>_. ?M)"
    by (rule triple_post [OF keeps_reads(2)]) simp_all
  have dr: "triple ?N (chain (drop_intent env iname) (\<lambda>_. give c))
      (\<lambda>ch s. ch = c \<and> ?N s \<and> look Intents iname s = None) ?E"
    by (rule dropped) auto
  show ?thesis
    unfolding seal_moved_def
    by (intro triple_try [OF v] triple_try [OF sy] triple_try [OF st] undo dr)
qed

lemma publish_outcome:
  "triple (at_rest s0) (seal_publish env c t name final intent iname existing)
     (\<lambda>ch s. ch = c \<and> entered env c t name final s0 s \<and> look Intents iname s = None)
     (\<lambda>_ s. at_rest s0 s \<or> moved name final s0 s \<or> entered env c t name final s0 s)"
proof -
  let ?A = "at_rest s0" and ?M = "moved name final s0" and ?N = "entered env c t name final s0"
  let ?E = "\<lambda>_ s. ?A s \<or> ?M s \<or> ?N s"
  have e: "triple ?A m (\<lambda>_. ?A) ?E" if "triple ?A m (\<lambda>_. ?A) (\<lambda>_. ?A)" for m :: "'x sealing"
    by (rule triple_post [OF that]) auto
  have w: "triple ?A (case existing of Some x \<Rightarrow> if x \<noteq> intent then throw SealConflict else give ()
      | None \<Rightarrow> write_intent env iname intent) (\<lambda>_. ?A) (\<lambda>_. ?A)"
    by (auto split: option.splits intro!: keeps_write_intent keep_give)
  have mv: "triple ?A (rename_noreplace env Staging name Audio final) (\<lambda>_. ?M) (\<lambda>_. ?A)"
    by (rule triple_post [OF triple_rename])
      (auto simp: at_rest_def moved_def same_files_def moved_files_def)
  have d: "triple ?A (chain (drop_intent env iname) (\<lambda>_. throw x)) Q ?E" for x Q
    by (rule triple_post [where E = "\<lambda>_. ?A"], rule keep_chain) (auto intro: keeps_drop_intent keep_give)
  show ?thesis
    unfolding seal_publish_def
    apply (rule keep_chain [OF e [OF keep_error [OF keeps_reads(3)]]])
    apply (rule keep_chain [OF e [OF keep_error [OF keeps_reads(4)]]])
    apply (rule keep_chain [OF e [OF keep_error [OF keeps_reads(1)]]])
    apply (rule keep_chain [OF e [OF keeps_reads(8)]])
    apply (rule keep_chain [OF e [OF w]])
    apply (rule keep_chain [OF e [OF keep_error [OF keeps_reads(2)]]])
    apply (rule keep_chain [OF e [OF keep_error [OF keeps_reads(9)]]])
    apply (rule triple_guard)
     apply simp
    apply (rule triple_attempt [OF mv])
     apply (simp only: sum.case moved_outcome)
    apply (simp only: sum.case d)
    done
qed

lemma resume_outcome:
  "triple (\<lambda>s. at_rest s0 s \<and> look Audio final s = Some f) (seal_resume env c t intent iname existing f)
     (\<lambda>ch s. ch = c \<and> entered env c t name final s0 s \<and> look Intents iname s = None)
     (\<lambda>_ s. at_rest s0 s \<or> moved name final s0 s \<or> entered env c t name final s0 s)"
proof -
  let ?P = "\<lambda>s. at_rest s0 s \<and> look Audio final s = Some f" and ?N = "entered env c t name final s0"
  let ?P' = "\<lambda>s. ?P s \<and> good_file env c f"
  let ?E = "\<lambda>_ s. at_rest s0 s \<or> moved name final s0 s \<or> ?N s"
  have st: "triple ?P' (with_error insert_error (store_chunk env c t)) (\<lambda>_. ?N) ?E"
    by (rule triple_with_error, rule triple_post [OF triple_store_chunk])
      (auto simp: at_rest_def entered_def same_files_def published_def)
  have s1: "triple ?P (with_error SealIo (sync env)) (\<lambda>_. ?P) ?E"
    by (rule triple_post [OF keep_error [OF keeps_reads(2)]]) simp_all
  have s2: "triple ?P (with_error (\<lambda>e. if e = IntegrityMismatch then SealConflict else e) (verify_file env f c))
      (\<lambda>_. ?P') ?E"
    by (rule triple_with_error, rule triple_post [OF triple_verify_file]) simp_all
  have s3: "triple ?P' (with_error SealIo (sync env)) (\<lambda>_. ?P') ?E"
    by (rule triple_post [OF keep_error [OF keeps_reads(2)]]) simp_all
  have dr: "triple ?N (chain (drop_intent env iname) (\<lambda>_. give c))
      (\<lambda>ch s. ch = c \<and> ?N s \<and> look Intents iname s = None) ?E"
    by (rule dropped) auto
  show ?thesis
    unfolding seal_resume_def
    by (rule triple_guard, simp)
      (intro triple_chain [OF s1] triple_chain [OF s2] triple_chain [OF s3] triple_chain [OF st] dr)
qed

lemma known_outcome:
  "triple (\<lambda>s. at_rest s0 s \<and> (existing_intent = None \<longrightarrow> look Intents iname s = None) \<and>
       catalog_chunk (chunk_id c) (catalog_of s) = Some existing)
     (seal_known env c t final intent iname existing_intent existing)
     (\<lambda>ch s. ch = c \<and> at_rest s0 s \<and> published env c final s \<and> recorded c t s \<and> look Intents iname s = None)
     (\<lambda>_. at_rest s0)"
proof -
  let ?A = "at_rest s0"
  let ?K = "\<lambda>s. ?A s \<and> (existing_intent = None \<longrightarrow> look Intents iname s = None)"
  let ?R = "\<lambda>s. ?K s \<and> recorded c t s"
  let ?V = "\<lambda>s. ?A s \<and> recorded c t s \<and> published env c final s"
  have free: "intents_free ?V"
    by (auto simp: intents_free_def at_rest_def same_files_def recorded_def published_def)
  have stable: "open_stable Audio ?R"
    by (auto simp: open_stable_def at_rest_def same_files_def recorded_def look_created)
  let ?G = "\<lambda>f s. ?R s \<and> look Audio final s = Some f"
  let ?Q = "\<lambda>ch s. ch = c \<and> ?A s \<and> published env c final s \<and> recorded c t s \<and> look Intents iname s = None"
  let ?K' = "\<lambda>s. ?K s \<and> catalog_chunk (chunk_id c) (catalog_of s) = Some existing"
  have q: "triple ?K' (query env (capture_chunk_timing (chunk_id c)))
      (\<lambda>timing s. ?K' s \<and> timing = capture_chunk_timing (chunk_id c) (catalog_of s)) (\<lambda>_. ?A)"
    by (rule triple_post [OF triple_query]) simp_all
  have o: "triple ?R (with_error SealIo (open_or_create_directory env Audio)) (\<lambda>_. ?R) (\<lambda>_. ?A)"
    by (rule triple_with_error, rule triple_post [OF triple_open_or_create [OF stable]]) simp_all
  have f: "triple ?R (with_error SealIo (open_regular env Audio final)) ?G (\<lambda>_. ?A)"
    by (rule triple_with_error, rule triple_post [OF triple_open_regular]) simp_all
  have v: "triple (?G f) (verify_file env f c) (\<lambda>_ s. ?G f s \<and> good_file env c f) (\<lambda>_. ?A)" for f
    by (rule triple_post [OF triple_verify_file]) simp_all
  have d: "triple ?V (chain (drop_intent env iname) (\<lambda>_. give c)) ?Q (\<lambda>_. ?A)"
    by (rule dropped [OF free]) auto
  have fin: "triple (\<lambda>s. ?G f s \<and> good_file env c f)
      (if existing_intent = Some intent then chain (drop_intent env iname) (\<lambda>_. give c)
       else if existing_intent \<noteq> None then throw SealConflict else give c) ?Q (\<lambda>_. ?A)" for f
    by (intro triple_if triple_pre [OF d] triple_throw triple_give) (auto simp: published_def)
  show ?thesis
    unfolding seal_known_def
    apply (rule triple_pre [where P = ?K'], rule triple_chain [OF q])
    apply (rule triple_guard)
     apply simp
    apply (rule triple_chain [OF triple_pre [OF o]])
     apply (auto simp: recorded_def)[1]
     apply (intro triple_chain [OF f] triple_chain [OF v] fin)
    apply simp
    done
qed

lemma triple_read_intent:
  "triple P (read_intent env n)
     (\<lambda>r s. P s \<and> (case r of None \<Rightarrow> look Intents n s = None
        | Some x \<Rightarrow> \<exists>f. look Intents n s = Some f \<and> parse_intent env (file_data f) = Some x))
     (\<lambda>e s. P s \<and> (\<not> quiet env \<or> (\<exists>f. look Intents n s = Some f \<and>
        (\<not> file_regular f \<or> parse_intent env (file_data f) = None))))"
  unfolding read_intent_def
proof (rule triple_attempt [OF triple_open_regular])
  let ?E = "\<lambda>e s. P s \<and> (\<not> quiet env \<or> (\<exists>f. look Intents n s = Some f \<and>
        (\<not> file_regular f \<or> parse_intent env (file_data f) = None)))"
  let ?Q = "\<lambda>r s. P s \<and> (case r of None \<Rightarrow> look Intents n s = None
        | Some x \<Rightarrow> \<exists>f. look Intents n s = Some f \<and> parse_intent env (file_data f) = Some x)"
  fix f
  let ?P = "\<lambda>s. P s \<and> look Intents n s = Some f \<and> file_regular f"
  let ?k = "\<lambda>_. case parse_intent env (file_data f) of
       Some intent \<Rightarrow> give (Some intent)
     | None \<Rightarrow> throw (SealRecoveryRequired (OtherIo ''invalid intent''))"
  have s: "triple ?P (with_error SealIo (sys env)) (\<lambda>_. ?P) ?E"
    by (rule triple_with_error, rule triple_post [OF triple_sys]) simp_all
  have k: "triple ?P (?k u) ?Q ?E" for u :: unit
    by (cases "parse_intent env (file_data f)") (auto intro: triple_give triple_throw)
  show "triple ?P (case Inr f of Inl NotFound \<Rightarrow> give None | Inl e \<Rightarrow> throw (SealIo e)
      | Inr f \<Rightarrow> chain (with_error SealIo (sys env)) (\<lambda>_. case parse_intent env (file_data f) of
       Some intent \<Rightarrow> give (Some intent)
     | None \<Rightarrow> throw (SealRecoveryRequired (OtherIo ''invalid intent'')))) ?Q ?E"
    unfolding sum.case by (rule triple_chain [OF s k])
next
  fix e
  show "triple (\<lambda>c. P c \<and> (e = NotFound \<and> look Intents n c = None \<or>
        e \<noteq> NotFound \<and> (\<not> quiet env \<or> (\<exists>f. look Intents n c = Some f \<and> \<not> file_regular f))))
     (case Inl e of Inl NotFound \<Rightarrow> give None | Inl e \<Rightarrow> throw (SealIo e)
      | Inr f \<Rightarrow> chain (with_error SealIo (sys env)) (\<lambda>_. case parse_intent env (file_data f) of
       Some intent \<Rightarrow> give (Some intent)
     | None \<Rightarrow> throw (SealRecoveryRequired (OtherIo ''invalid intent''))))
     (\<lambda>r s. P s \<and> (case r of None \<Rightarrow> look Intents n s = None
        | Some x \<Rightarrow> \<exists>f. look Intents n s = Some f \<and> parse_intent env (file_data f) = Some x))
     (\<lambda>e s. P s \<and> (\<not> quiet env \<or> (\<exists>f. look Intents n s = Some f \<and>
        (\<not> file_regular f \<or> parse_intent env (file_data f) = None))))"
    by (cases e) (auto intro: triple_give triple_throw)
qed

text \<open>What any attempt leaves behind: nothing moved, the file moved, or the chunk entered as well.\<close>

definition settled :: "seal_env \<Rightarrow> NativeChunkSealRequest \<Rightarrow> seal_state \<Rightarrow> seal_state \<Rightarrow> bool" where
  "settled env req s0 s \<longleftrightarrow> at_rest s0 s \<or>
     (\<exists>name final. validated_names (relative_staging_path req) (req_chunk_id req) = Inr (name, final) \<and>
        (moved name final s0 s \<or>
         entered env (chunk_of_request req final) (req_timing req) name final s0 s))"

definition sealed :: "seal_env \<Rightarrow> NativeChunkSealRequest \<Rightarrow> AudioChunk \<Rightarrow> seal_state \<Rightarrow> bool" where
  "sealed env req c s \<longleftrightarrow>
     (\<exists>name final. validated_names (relative_staging_path req) (req_chunk_id req) = Inr (name, final) \<and>
        c = chunk_of_request req final \<and> published env c final s \<and> recorded c (req_timing req) s \<and>
        look Intents (intent_name (req_chunk_id req)) s = None)"

lemma entered_published: "entered env c t name final s0 s \<Longrightarrow> published env c final s"
  by (simp add: entered_def)

lemma unknown_outcome:
  "triple (at_rest s0) (seal_unknown env c t name final intent iname existing)
     (\<lambda>ch s. ch = c \<and> entered env c t name final s0 s \<and> look Intents iname s = None)
     (\<lambda>_ s. at_rest s0 s \<or> moved name final s0 s \<or> entered env c t name final s0 s)"
proof -
  let ?A = "at_rest s0"
  let ?E = "\<lambda>_ s. ?A s \<or> moved name final s0 s \<or> entered env c t name final s0 s"
  let ?Q = "\<lambda>ch s. ch = c \<and> entered env c t name final s0 s \<and> look Intents iname s = None"
  have q: "triple ?A (query env (capture_chunk_timing (chunk_id c))) (\<lambda>_. ?A) ?E"
    by (rule triple_post [OF keeps_reads(7)]) simp_all
  have d: "triple ?A (with_error SealIo (open_or_create_directory env Audio)) (\<lambda>_. ?A) ?E"
    by (rule triple_with_error, rule triple_post [OF triple_open_or_create])
      (auto simp: open_stable_def at_rest_def same_files_def look_created)
  have o: "triple ?A (open_regular env Audio final) (\<lambda>f s. ?A s \<and> look Audio final s = Some f) (\<lambda>_. ?A)"
    by (rule triple_post [OF triple_open_regular]) simp_all
  have p: "triple ?A (if e = NotFound then seal_publish env c t name final intent iname existing
      else throw (SealIo e)) ?Q ?E" for e
    by (rule triple_if [OF publish_outcome]) (rule triple_throw, simp)
  show ?thesis
    unfolding seal_unknown_def
    apply (rule triple_chain [OF q], rule triple_guard, simp)
    apply (intro triple_chain [OF d] triple_try [OF o] resume_outcome p)
    done
qed

lemma checked_outcome:
  "triple (at_rest s0) (seal_checked env c t name final intent iname)
     (\<lambda>ch s. ch = c \<and> (at_rest s0 s \<or> entered env c t name final s0 s) \<and> published env c final s \<and>
        recorded c t s \<and> look Intents iname s = None)
     (\<lambda>_ s. at_rest s0 s \<or> moved name final s0 s \<or> entered env c t name final s0 s)"
proof -
  let ?A = "at_rest s0"
  let ?E = "\<lambda>_ s. ?A s \<or> moved name final s0 s \<or> entered env c t name final s0 s"
  let ?Q = "\<lambda>ch s. ch = c \<and> (?A s \<or> entered env c t name final s0 s) \<and> published env c final s \<and>
        recorded c t s \<and> look Intents iname s = None"
  let ?K = "\<lambda>ei s. ?A s \<and> (ei = None \<longrightarrow> look Intents iname s = None)"
  have i: "triple ?A (with_error SealIo (open_or_create_directory env Intents)) (\<lambda>_. ?A) ?E"
    by (rule triple_post [OF keep_error [OF keeps_intents(5)]]) simp_all
  have r: "triple ?A (with_error SealIo (reconcile_intent_directory env)) (\<lambda>_. ?A) ?E"
    by (rule triple_post [OF keep_error [OF keeps_reconcile]]) simp_all
  have rd: "triple ?A (read_intent env iname) (\<lambda>ei. ?K ei) ?E"
    by (rule triple_post [OF triple_read_intent]) auto
  have q: "triple (?K ei) (query env (catalog_chunk (chunk_id c)))
      (\<lambda>known s. ?K ei s \<and> known = catalog_chunk (chunk_id c) (catalog_of s)) ?E" for ei
    by (rule triple_post [OF triple_query]) simp_all
  have k: "triple (\<lambda>s. ?K ei s \<and> known = catalog_chunk (chunk_id c) (catalog_of s))
      (case known of Some existing \<Rightarrow> seal_known env c t final intent iname ei existing
       | None \<Rightarrow> seal_unknown env c t name final intent iname ei) ?Q ?E" for ei known
  proof (cases known)
    case None
    have "triple ?A (seal_unknown env c t name final intent iname ei) ?Q ?E"
      by (rule triple_post [OF unknown_outcome]) (use entered_recorded entered_published in blast)+
    then show ?thesis unfolding None option.case by (rule triple_pre) simp
  next
    case (Some x)
    show ?thesis unfolding Some option.case
      by (rule triple_pre [OF triple_post [OF known_outcome [of s0 ei iname c x]]]) auto
  qed
  show ?thesis
    unfolding seal_checked_def
    by (intro triple_chain [OF i] triple_chain [OF r] triple_chain [OF rd] triple_chain [OF q] k)
qed

lemma seal_outcome:
  "triple (\<lambda>s. s = s0) (seal env req) (\<lambda>c s. settled env req s0 s \<and> sealed env req c s)
     (\<lambda>_. settled env req s0)"
proof (cases "validated_names (relative_staging_path req) (req_chunk_id req)")
  case (Inl e)
  then show ?thesis
    unfolding seal_def by (auto intro!: triple_throw simp: settled_def at_rest_def same_files_def)
next
  case (Inr names)
  obtain name final where names: "names = (name, final)" by (cases names)
  show ?thesis
    unfolding seal_def Inr names sum.case prod.case
  proof (rule triple_guard)
    show "triple (\<lambda>s. s = s0) (seal_checked env (chunk_of_request req final) (req_timing req) name final
        (intent_of_request req final) (intent_name (req_chunk_id req)))
      (\<lambda>c s. settled env req s0 s \<and> sealed env req c s) (\<lambda>_. settled env req s0)"
      by (rule triple_pre [OF triple_post [OF checked_outcome [of s0]]])
        (use Inr names in \<open>auto simp: settled_def sealed_def at_rest_def same_files_def\<close>)
  qed (simp add: settled_def at_rest_def same_files_def)
qed

lemma attempt_settled:
  assumes "seal env req n s0 = (r, n', s)"
  shows "settled env req s0 s"
proof (cases r)
  case (Inl e)
  show ?thesis using tripleD_Inl [OF seal_outcome refl assms [unfolded Inl]] .
next
  case (Inr c)
  show ?thesis using tripleD_Inr [OF seal_outcome refl assms [unfolded Inr]] by (rule conjunct1)
qed

text \<open>
  C1: No attempt to seal a chunk loses or changes a recorded file, whichever calls fail - also when
  every call fails from some point on, as in a crash: each file of the staging and the final
  directory is still where it was, unchanged, except that the file of the request may have reached
  its final name, unchanged; and no other file appears there.
\<close>

theorem sealing_loses_nothing:
  assumes "seal env req n s0 = (r, n', s)" "d \<noteq> Intents" "look d k s0 \<noteq> look d k s"
  shows "\<exists>name final f. validated_names (relative_staging_path req) (req_chunk_id req) = Inr (name, final) \<and>
    look Staging name s0 = Some f \<and> look Audio final s0 = None \<and>
    look Staging name s = None \<and> look Audio final s = Some f \<and>
    ((d = Staging \<and> k = name) \<or> (d = Audio \<and> k = final))"
proof -
  have "settled env req s0 s" by (rule attempt_settled [OF assms(1)])
  then obtain name final where n: "validated_names (relative_staging_path req) (req_chunk_id req) = Inr (name, final)"
    and m: "moved_files name final s0 s"
    using assms(2,3) by (auto simp: settled_def at_rest_def moved_def entered_def same_files_def)
  then obtain f where "look Staging name s0 = Some f" by (auto simp: moved_files_def)
  with n m assms(2,3) show ?thesis by (auto simp: moved_files_def split: if_splits)
qed

text \<open>
  A seal that succeeds has published the chunk it answers: the file with the requested length and
  digest is under its final name, the catalog holds exactly this chunk and its timing, and no intent
  is left behind.
\<close>

theorem seal_success_is_published:
  assumes "seal env req n s0 = (Inr c, n', s)"
  shows "(\<exists>name final f. validated_names (relative_staging_path req) (req_chunk_id req) = Inr (name, final) \<and>
      c = chunk_of_request req final \<and> look Audio final s = Some f \<and> file_regular f \<and>
      length (file_data f) = unat (expected_byte_length req) \<and>
      sha256_hex env (file_data f) = expected_sha256 req) \<and>
    catalog_chunk (req_chunk_id req) (catalog_of s) = Some c \<and>
    capture_chunk_timing (req_chunk_id req) (catalog_of s) = Some (req_timing req) \<and>
    look Intents (intent_name (req_chunk_id req)) s = None"
proof -
  have "sealed env req c s" using tripleD_Inr [OF seal_outcome refl assms] by simp
  then show ?thesis
    by (auto simp: sealed_def published_def good_file_def recorded_def chunk_of_request_def)
qed

text \<open>What the catalog promises about the final directory.\<close>

definition catalog_backed :: "seal_env \<Rightarrow> seal_state \<Rightarrow> bool" where
  "catalog_backed env s \<longleftrightarrow> (\<forall>r \<in> set (chunks (catalog_of s)). \<forall>k. chunk_path r = AUDIO_DIRECTORY @ ''/'' @ k \<longrightarrow>
     (\<exists>f. look Audio k s = Some f \<and> good_file env (chunk_from_row r) f))"

lemma good_file_cong:
  "chunk_byte_length c = chunk_byte_length c' \<Longrightarrow> chunk_sha256 c = chunk_sha256 c' \<Longrightarrow>
     good_file env c f = good_file env c' f"
  by (simp add: good_file_def)

lemma backed_moved:
  assumes "catalog_backed env s0" "same_files s0 s \<or> moved_files name final s0 s" "catalog_of s = catalog_of s0"
  shows "catalog_backed env s"
  unfolding catalog_backed_def
proof (intro ballI allI impI)
  fix r k assume "r \<in> set (chunks (catalog_of s))" "chunk_path r = AUDIO_DIRECTORY @ ''/'' @ k"
  then obtain f where f: "look Audio k s0 = Some f" "good_file env (chunk_from_row r) f"
    using assms(1,3) by (auto simp: catalog_backed_def)
  have "look Audio k s = look Audio k s0"
    using assms(2) f(1) by (auto simp: same_files_def moved_files_def)
  with f show "\<exists>f. look Audio k s = Some f \<and> good_file env (chunk_from_row r) f" by simp
qed

lemma backed_entered:
  assumes "catalog_backed env s0" "entered env c t name final s0 s" "chunk_path c = AUDIO_DIRECTORY @ ''/'' @ final"
  shows "catalog_backed env s"
proof -
  have files: "same_files s0 s \<or> moved_files name final s0 s" and pub: "published env c final s"
    using assms(2) by (auto simp: entered_def)
  obtain out where "insert_native_capture_chunk c t (catalog_of s0) = Inr (out, catalog_of s)"
    using assms(2) by (auto simp: entered_def)
  then have rows: "catalog_of s = (if out = Inserted then with_native_chunk c t (catalog_of s0) else catalog_of s0)"
    using native_insert_stored by blast
  let ?s = "s\<lparr>catalog_of := catalog_of s0\<rparr>"
  have old: "catalog_backed env ?s"
    by (rule backed_moved [OF assms(1)]) (use files in \<open>auto simp: same_files_def moved_files_def\<close>)
  show ?thesis
    unfolding catalog_backed_def
  proof (intro ballI allI impI)
    fix r k assume r: "r \<in> set (chunks (catalog_of s))" and k: "chunk_path r = AUDIO_DIRECTORY @ ''/'' @ k"
    show "\<exists>f. look Audio k s = Some f \<and> good_file env (chunk_from_row r) f"
    proof (cases "r \<in> set (chunks (catalog_of s0))")
      case True
      moreover have "\<forall>r \<in> set (chunks (catalog_of s0)). \<forall>k. chunk_path r = AUDIO_DIRECTORY @ ''/'' @ k \<longrightarrow>
          (\<exists>f. look Audio k s = Some f \<and> good_file env (chunk_from_row r) f)"
        using old by (simp add: catalog_backed_def)
      ultimately show ?thesis using k by blast
    next
      case False
      with r rows have "chunk_from_row r = c \<and> chunk_path r = chunk_path c" by (auto split: if_splits)
      with k assms(3) pub show ?thesis by (auto simp: published_def)
    qed
  qed
qed

lemma backed_attempt:
  assumes "catalog_backed env s0" "seal env req n s0 = (r, n', s)"
  shows "catalog_backed env s"
proof -
  have "settled env req s0 s" by (rule attempt_settled [OF assms(2)])
  then consider "at_rest s0 s" | name final where "moved name final s0 s"
    | name final where "entered env (chunk_of_request req final) (req_timing req) name final s0 s"
    by (auto simp: settled_def)
  then show ?thesis
  proof cases
    case 1
    then show ?thesis using backed_moved [OF assms(1)] by (auto simp: at_rest_def)
  next
    case 2
    then show ?thesis using backed_moved [OF assms(1)] by (auto simp: moved_def)
  next
    case 3
    then show ?thesis by (rule backed_entered [OF assms(1)]) (simp add: chunk_of_request_def)
  qed
qed

text \<open>
  C13: The catalog never names a missing or damaged recording: if every chunk it lists under the
  final directory is there with its length and digest, this is still so after any attempt to seal
  any chunk, whichever calls fail.
\<close>

theorem catalog_stays_backed:
  assumes "catalog_backed env s0" "seal env req n s0 = (r, n', s)"
  shows "catalog_backed env s"
  by (rule backed_attempt [OF assms])

subsection \<open>A concrete attempt\<close>

definition demo_request :: NativeChunkSealRequest where
  "demo_request = \<lparr>relative_staging_path = ''chk_1.caf.partial'', req_chunk_id = ''chk_1'',
     req_session_id = ''s'', req_source = Microphone, expected_sha256 = ''h'', expected_byte_length = 2,
     req_timing = demo_timing\<rparr>"

definition demo_env :: "(nat \<Rightarrow> bool) \<Rightarrow> char \<Rightarrow> seal_env" where
  "demo_env fails digit = \<lparr>io_fails = fails, partial_write = (\<lambda>_. 0), new_uuid = (\<lambda>_. replicate 32 digit),
     sha256_hex = (\<lambda>_. ''h''), print_intent = (\<lambda>_. Some [7]),
     parse_intent = (\<lambda>bs. if bs = [7] then Some (intent_of_request demo_request ''chk_1.caf'') else None)\<rparr>"

definition demo_recording :: dir_entry where
  "demo_recording = \<lparr>file_identity = 0, file_data = [1, 2], file_regular = True, file_private = True\<rparr>"

definition demo_seal_state :: seal_state where
  "demo_seal_state = \<lparr>tree = (\<lambda>d. if d = Staging then Some [(''chk_1.caf.partial'', demo_recording)] else None),
     catalog_of = demo_capture_catalog, next_identity = 1\<rparr>"

lemma demo_seal:
  "case seal (demo_env (\<lambda>_. False) CHR ''a'') demo_request 0 demo_seal_state of (r, _, s) \<Rightarrow>
     r = Inr demo_native_chunk \<and> look Staging ''chk_1.caf.partial'' s = None"
  by code_simp

theorem sealing_loses_nothing_witness:
  "\<exists>r n' s. seal (demo_env (\<lambda>_. False) CHR ''a'') demo_request 0 demo_seal_state = (r, n', s) \<and>
     look Audio ''chk_1.caf'' s = Some demo_recording"
proof -
  let ?env = "demo_env (\<lambda>_. False) CHR ''a''"
  obtain r n' s where run: "seal ?env demo_request 0 demo_seal_state = (r, n', s)"
    by (cases "seal ?env demo_request 0 demo_seal_state")
  have before: "look Staging ''chk_1.caf.partial'' demo_seal_state = Some demo_recording" by code_simp
  have names: "validated_names (relative_staging_path demo_request) (req_chunk_id demo_request) =
      Inr (''chk_1.caf.partial'', ''chk_1.caf'')" by code_simp
  have "look Staging ''chk_1.caf.partial'' s = None" using demo_seal run by simp
  with before have "look Staging ''chk_1.caf.partial'' demo_seal_state \<noteq> look Staging ''chk_1.caf.partial'' s" by simp
  from sealing_loses_nothing [OF run _ this] before names run show ?thesis by auto
qed

theorem seal_success_is_published_witness:
  "\<exists>n' s. seal (demo_env (\<lambda>_. False) CHR ''a'') demo_request 0 demo_seal_state = (Inr demo_native_chunk, n', s) \<and>
     catalog_chunk ''chk_1'' (catalog_of s) = Some demo_native_chunk"
proof -
  let ?env = "demo_env (\<lambda>_. False) CHR ''a''"
  obtain r n' s where run: "seal ?env demo_request 0 demo_seal_state = (r, n', s)"
    by (cases "seal ?env demo_request 0 demo_seal_state")
  with demo_seal have "seal ?env demo_request 0 demo_seal_state = (Inr demo_native_chunk, n', s)" by simp
  moreover note seal_success_is_published [OF this]
  moreover have "req_chunk_id demo_request = ''chk_1''" by (simp add: demo_request_def)
  ultimately show ?thesis by auto
qed

theorem catalog_stays_backed_witness:
  "\<exists>r n' s. seal (demo_env (\<lambda>n. 25 \<le> n) CHR ''a'') demo_request 0 demo_seal_state = (r, n', s) \<and>
     catalog_backed (demo_env (\<lambda>n. 25 \<le> n) CHR ''a'') s"
proof -
  let ?env = "demo_env (\<lambda>n. 25 \<le> n) CHR ''a''"
  have "catalog_backed ?env demo_seal_state"
    by (simp add: catalog_backed_def demo_seal_state_def demo_capture_catalog_def empty_catalog_def)
  moreover obtain r n' s where "seal ?env demo_request 0 demo_seal_state = (r, n', s)"
    by (cases "seal ?env demo_request 0 demo_seal_state")
  ultimately show ?thesis using catalog_stays_backed by blast
qed

end
