(* ===== verification/Seal_Recovery.thy ===== *)
theory Seal_Recovery
  imports Seal
begin

section \<open>Sealing survives every failure\<close>

text \<open>
  A request whose chunk was staged well is \<open>recoverable\<close>, and stays so through any sequence of
  attempts with any failures; an attempt in which no call fails then succeeds.
\<close>

definition tidy_entry :: "string \<times> dir_entry \<Rightarrow> bool" where
  "tidy_entry e \<longleftrightarrow> file_regular (snd e) \<and> file_private (snd e) \<and>
     (is_intent_temp_name (fst e) \<or> is_intent_final_name (fst e))"

text \<open>The intents directory holds what the program writes, and the chunk's intent is readable.\<close>

definition intents_ok :: "seal_env \<Rightarrow> string \<Rightarrow> NativeSealIntent \<Rightarrow> seal_state \<Rightarrow> bool" where
  "intents_ok env iname intent s \<longleftrightarrow> distinct (map fst (entries_at Intents s)) \<and>
     list_all tidy_entry (entries_at Intents s) \<and>
     (case look Intents iname s of None \<Rightarrow> True | Some f \<Rightarrow> parse_intent env (file_data f) = Some intent)"

definition names_free :: "seal_env \<Rightarrow> seal_state \<Rightarrow> bool" where
  "names_free env s \<longleftrightarrow> (\<forall>n. look Intents (intent_temp_name (new_uuid env n)) s = None)"

text \<open>What the libraries promise: fresh names are 32 hexadecimal digits, and reading undoes printing.\<close>

definition library_ok :: "seal_env \<Rightarrow> NativeSealIntent \<Rightarrow> bool" where
  "library_ok env intent \<longleftrightarrow> (\<forall>n. length (new_uuid env n) = 32 \<and> list_all is_ascii_hexdigit (new_uuid env n)) \<and>
     (case print_intent env intent of None \<Rightarrow> False | Some data \<Rightarrow> parse_intent env data = Some intent)"

lemma temp_name_of_uuid:
  assumes "library_ok env intent"
  shows "is_intent_temp_name (intent_temp_name (new_uuid env n))"
proof -
  have "strip_prefix ''.lifesub-native-intent-'' (intent_temp_name (new_uuid env n)) = Some (new_uuid env n @ ''.tmp'')"
    "strip_suffix ''.tmp'' (new_uuid env n @ ''.tmp'') = Some (new_uuid env n)"
    by (simp_all only: strip_prefix_Some_iff strip_suffix_Some_iff intent_temp_name_def append_assoc)
  then show ?thesis using assms by (simp add: library_ok_def is_intent_temp_name_def)
qed

subsection \<open>Names are ASCII\<close>

definition ascii :: "char \<Rightarrow> bool" where
  "ascii c \<longleftrightarrow> (of_char c :: nat) \<le> 127"

lemma ascii_valid_utf8: "list_all ascii s \<Longrightarrow> valid_utf8 (map of_char s)"
  by (induction s) (simp_all add: ascii_def)

lemma ascii_classes:
  "is_ascii_lowercase c \<Longrightarrow> ascii c" "is_ascii_digit c \<Longrightarrow> ascii c" "is_ascii_hexdigit c \<Longrightarrow> ascii c"
  by (auto simp: is_ascii_lowercase_def is_ascii_digit_def is_ascii_hexdigit_def ascii_def less_eq_char_def)

lemma ascii_chunk_id: "is_native_chunk_id i \<Longrightarrow> list_all ascii i"
proof -
  assume "is_native_chunk_id i"
  then obtain r where i: "i = ''chk_'' @ r"
    and r: "list_all (\<lambda>b. is_ascii_lowercase b \<or> is_ascii_digit b \<or> b = CHR ''_'') r"
    by (auto simp: is_native_chunk_id_def strip_prefix_Some_iff split: option.splits)
  have "list_all ascii r"
    by (rule list.pred_mono_strong [OF r]) (auto intro: ascii_classes, simp add: ascii_def)
  then show ?thesis by (simp add: i ascii_def)
qed

lemma ascii_temp_name: "is_intent_temp_name n \<Longrightarrow> list_all ascii n"
proof -
  assume "is_intent_temp_name n"
  then obtain r where n: "n = ''.lifesub-native-intent-'' @ r @ ''.tmp''" and r: "list_all is_ascii_hexdigit r"
    by (auto simp: is_intent_temp_name_def strip_prefix_Some_iff strip_suffix_Some_iff split: option.splits
        Option.bind_splits)
  have "list_all ascii r" by (rule list.pred_mono_strong [OF r]) (auto intro: ascii_classes)
  then show ?thesis by (simp add: n ascii_def)
qed

lemma ascii_final_name: "is_intent_final_name n \<Longrightarrow> list_all ascii n"
  by (auto simp: is_intent_final_name_def strip_suffix_Some_iff split: option.splits dest!: ascii_chunk_id)
    (simp_all add: ascii_def)

lemma tidy_valid: "tidy_entry (n, f) \<Longrightarrow> valid_utf8 (map of_char n)"
  by (auto simp: tidy_entry_def intro: ascii_valid_utf8 dest: ascii_temp_name ascii_final_name)

lemma intent_name_not_temp: "is_native_chunk_id i \<Longrightarrow> \<not> is_intent_temp_name (intent_name i)"
  by (auto simp: is_native_chunk_id_def is_intent_temp_name_def intent_name_def strip_prefix_Some_iff
      split: option.splits Option.bind_splits)

lemma intent_name_final: "is_native_chunk_id i \<Longrightarrow> is_intent_final_name (intent_name i)"
  by (simp add: is_intent_final_name_def intent_name_def strip_suffix_Some_iff split: option.splits)

subsection \<open>The intents directory\<close>

lemma look_Intents_tidy: "intents_ok env iname intent s \<Longrightarrow> look Intents n s = Some f \<Longrightarrow> tidy_entry (n, f)"
  unfolding intents_ok_def look_def list_all_iff by (blast dest: map_of_SomeD)

lemma list_all_update: "list_all P xs \<Longrightarrow> P (k, v) \<Longrightarrow> list_all P (AList.update k v xs)"
  by (induction xs) auto

lemma ok_delete: "intents_ok env iname intent s \<Longrightarrow> intents_ok env iname intent (with_entries Intents (AList.delete n) s)"
proof -
  have "list_all P (AList.delete n xs)" if "list_all P xs" for P :: "string \<times> dir_entry \<Rightarrow> bool" and xs
    using that by (simp add: AList.delete_eq list_all_iff)
  then show "intents_ok env iname intent s \<Longrightarrow> ?thesis"
    unfolding intents_ok_def by (auto simp: distinct_delete)
qed

lemma ok_update:
  assumes "intents_ok env iname intent s" "tidy_entry (n, f)"
    and "n = iname \<Longrightarrow> parse_intent env (file_data f) = Some intent"
  shows "intents_ok env iname intent (with_entries Intents (AList.update n f) s)"
  using assms unfolding intents_ok_def by (auto simp: distinct_update list_all_update split: option.splits)

lemma ok_fields [simp]:
  "intents_ok env iname intent (s\<lparr>next_identity := i\<rparr>) = intents_ok env iname intent s"
  "intents_ok env iname intent (s\<lparr>catalog_of := cat\<rparr>) = intents_ok env iname intent s"
  by (simp_all add: intents_ok_def)

lemma ok_other [simp]: "d \<noteq> Intents \<Longrightarrow>
    intents_ok env iname intent (with_entries d g s) = intents_ok env iname intent s"
  by (simp add: intents_ok_def look_def)

lemma ok_created: "tree s Intents = None \<Longrightarrow> intents_ok env iname intent (with_entries Intents (\<lambda>_. []) s)"
  by (simp add: intents_ok_def look_def)

lemma ok_rename:
  assumes "intents_ok env iname intent s" "look Intents n s = Some f"
    and "is_intent_temp_name n' \<or> is_intent_final_name n'"
    and "n' = iname \<Longrightarrow> parse_intent env (file_data f) = Some intent"
  shows "intents_ok env iname intent
    (with_entries Intents (AList.update n' f) (with_entries Intents (AList.delete n) s))"
proof (rule ok_update [OF ok_delete [OF assms(1)]])
  show "tidy_entry (n', f)"
    using look_Intents_tidy [OF assms(1,2)] assms(3) by (simp add: tidy_entry_def)
qed (rule assms(4))

lemma free_rename_intents:
  "intents_free B \<Longrightarrow> B s \<Longrightarrow> B (with_entries Intents g s)"
  by (erule intents_freeD) (simp_all add: look_def)

lemma free_identity: "intents_free B \<Longrightarrow> B s \<Longrightarrow> B (s\<lparr>next_identity := i\<rparr>)"
  by (erule intents_freeD) simp_all

definition tidy_fresh :: "seal_env \<Rightarrow> string \<Rightarrow> NativeSealIntent \<Rightarrow> seal_state \<Rightarrow> bool" where
  "tidy_fresh env iname intent s \<longleftrightarrow> intents_ok env iname intent s \<and> (quiet env \<longrightarrow> names_free env s)"

definition present :: "string list \<Rightarrow> seal_state \<Rightarrow> bool" where
  "present names s \<longleftrightarrow> (\<forall>n \<in> set names. look Intents n s \<noteq> None)"

text \<open>Predicates that an entry of the intents directory does not matter to.\<close>

definition stable_at :: "string \<Rightarrow> (seal_state \<Rightarrow> bool) \<Rightarrow> bool" where
  "stable_at n B \<longleftrightarrow> (\<forall>s. B s \<longrightarrow> B (with_entries Intents (AList.delete n) s) \<and>
     (\<forall>f. B (with_entries Intents (AList.update n f) s)))"

lemma stable_free: "intents_free B \<Longrightarrow> stable_at n B"
  by (simp add: stable_at_def free_rename_intents)

lemma recover_cleanup:
  assumes B: "stable_at name B" "\<And>n. is_intent_temp_name n \<Longrightarrow> stable_at n B" and lib: "library_ok env intent" and new: "name \<notin> set names"
    and iname: "\<not> is_intent_temp_name iname"
  shows "triple (\<lambda>s. B s \<and> tidy_fresh env iname intent s \<and> (quiet env \<longrightarrow> present names s \<and>
       (\<exists>f. look Intents name s = Some f \<and> file_identity f = i)))
     (cleanup_intent_file env name i)
     (\<lambda>_ s. B s \<and> tidy_fresh env iname intent s \<and> (quiet env \<longrightarrow> present names s))
     (\<lambda>_ s. B s \<and> intents_ok env iname intent s \<and> \<not> quiet env)"
proof -
  let ?P = "\<lambda>s. B s \<and> tidy_fresh env iname intent s \<and> (quiet env \<longrightarrow> present names s \<and>
       (\<exists>f. look Intents name s = Some f \<and> file_identity f = i))"
  let ?E = "\<lambda>_ s. B s \<and> intents_ok env iname intent s \<and> \<not> quiet env"
  let ?Q = "\<lambda>_ s. B s \<and> tidy_fresh env iname intent s \<and> (quiet env \<longrightarrow> present names s)"
  let ?T = "\<lambda>tomb. \<exists>n. tomb = intent_temp_name (new_uuid env n)"
  let ?R = "\<lambda>tomb s. B s \<and> intents_ok env iname intent s \<and> ?T tomb \<and> (quiet env \<longrightarrow>
      (\<forall>n. look Intents (intent_temp_name (new_uuid env n)) s = None \<or> intent_temp_name (new_uuid env n) = tomb) \<and>
      present names s \<and> tomb \<notin> set names \<and>
      (\<exists>f. look Intents tomb s = Some f \<and> file_identity f = i))"
  have temp: "is_intent_temp_name tomb \<and> tomb \<noteq> iname" if "?T tomb" for tomb
    using that temp_name_of_uuid [OF lib] iname by auto
  have f: "triple ?P (fresh_temp_name env) (\<lambda>tomb s. ?P s \<and> ?T tomb) ?E"
    by (rule triple_fresh_temp_name)
  have r: "triple (\<lambda>s. ?P s \<and> ?T tomb) (rename_noreplace env Intents name Intents tomb) (\<lambda>_. ?R tomb) ?E" for tomb
  proof (rule triple_post [OF triple_rename])
    fix u :: unit and s
    assume "\<exists>c0 f. (?P c0 \<and> ?T tomb) \<and> look Intents name c0 = Some f \<and> look Intents tomb c0 = None \<and>
      s = with_entries Intents (AList.update tomb f) (with_entries Intents (AList.delete name) c0)"
    then obtain c0 f where c0: "?P c0" "?T tomb" "look Intents name c0 = Some f" "look Intents tomb c0 = None"
      and s: "s = with_entries Intents (AList.update tomb f) (with_entries Intents (AList.delete name) c0)"
      by blast
    have ok: "intents_ok env iname intent s"
      unfolding s using c0(1) temp [OF c0(2)] by (intro ok_rename [OF _ c0(3)]) (auto simp: tidy_fresh_def)
    have b: "B s" unfolding s using c0(1) B(1) B(2) [of tomb] temp [OF c0(2)] by (simp add: stable_at_def)
    have q: "(\<forall>n. look Intents (intent_temp_name (new_uuid env n)) s = None \<or> intent_temp_name (new_uuid env n) = tomb) \<and>
        present names s \<and> tomb \<notin> set names \<and> (\<exists>f. look Intents tomb s = Some f \<and> file_identity f = i)"
      if "quiet env"
      using that c0 new by (auto simp: s tidy_fresh_def names_free_def present_def)
    show "?R tomb s" using ok b q c0(2) by blast
  next
    fix e s
    assume a: "(?P s \<and> ?T tomb) \<and> (\<not> quiet env \<or> look Intents name s = None \<or> look Intents tomb s \<noteq> None)"
    then have "\<not> quiet env" by (auto simp: tidy_fresh_def names_free_def)
    with a show "?E e s" by (simp add: tidy_fresh_def)
  qed
  have o: "triple (?R tomb) (open_regular env Intents tomb) (\<lambda>f s. ?R tomb s \<and> look Intents tomb s = Some f) ?E" for tomb
    by (rule triple_post [OF triple_open_regular]) (auto dest: look_Intents_tidy simp: tidy_entry_def)
  have j: "triple (\<lambda>s. ?R tomb s \<and> look Intents tomb s = Some f) (identity_of env f)
      (\<lambda>j s. ?R tomb s \<and> (quiet env \<longrightarrow> j = i)) ?E" for tomb f
    by (rule triple_post [OF triple_identity_of]) auto
  have u: "triple (?R tomb) (unlink env Intents tomb) ?Q ?E" for tomb
  proof (rule triple_post [OF triple_unlink])
    fix u :: unit and s
    assume "\<exists>c0. ?R tomb c0 \<and> look Intents tomb c0 \<noteq> None \<and> s = with_entries Intents (AList.delete tomb) c0"
    then obtain c0 where c0: "?R tomb c0" and s: "s = with_entries Intents (AList.delete tomb) c0" by blast
    have "B s" unfolding s using c0 B(2) [of tomb] temp [of tomb] by (simp add: stable_at_def)
    moreover have "intents_ok env iname intent s" unfolding s using c0 by (intro ok_delete) blast
    moreover have "names_free env s \<and> present names s" if "quiet env"
      using c0 that by (auto simp: s names_free_def present_def)
    ultimately show "?Q u s" by (simp add: tidy_fresh_def)
  qed auto
  have y: "triple (\<lambda>s. ?Q () s) (sync env) ?Q ?E"
    unfolding sync_def by (rule triple_post [OF triple_sys]) (auto simp: tidy_fresh_def)
  have g: "triple (\<lambda>s. ?R tomb s \<and> (quiet env \<longrightarrow> j = i))
      (if j \<noteq> i then throw (OtherIo ''native intent temp identity changed'')
       else chain (unlink env Intents tomb) (\<lambda>_. sync env)) ?Q ?E" for tomb j
  proof (rule triple_guard)
    show "?E e s" if "?R tomb s \<and> (quiet env \<longrightarrow> j = i)" "j \<noteq> i" for e :: io_error and s using that by blast
    show "triple (\<lambda>s. ?R tomb s \<and> (quiet env \<longrightarrow> j = i)) (chain (unlink env Intents tomb) (\<lambda>_. sync env)) ?Q ?E"
      by (rule triple_pre [OF triple_chain [OF u y]]) blast
  qed
  show ?thesis
    unfolding cleanup_intent_file_def
    by (intro triple_chain [OF f] triple_chain [OF r] triple_chain [OF o] triple_chain [OF j] g)
qed

lemma recover_entries:
  assumes B: "\<And>n. is_intent_temp_name n \<Longrightarrow> stable_at n B" and lib: "library_ok env intent" and iname: "\<not> is_intent_temp_name iname"
  shows "distinct names \<Longrightarrow>
    triple (\<lambda>s. B s \<and> tidy_fresh env iname intent s \<and> (quiet env \<longrightarrow> present names s) \<and> list_all (\<lambda>n. valid_utf8 (map of_char n)) names)
     (reconcile_entries env names)
     (\<lambda>_ s. B s \<and> tidy_fresh env iname intent s)
     (\<lambda>_ s. B s \<and> intents_ok env iname intent s \<and> \<not> quiet env)"
proof (induction names)
  case Nil
  show ?case unfolding reconcile_entries.simps sync_def
    by (rule triple_post [OF triple_pre [OF triple_sys]]) (auto simp: tidy_fresh_def)
next
  case (Cons n names)
  let ?E = "\<lambda>_ s. B s \<and> intents_ok env iname intent s \<and> \<not> quiet env"
  let ?Q = "\<lambda>_ s. B s \<and> tidy_fresh env iname intent s"
  let ?V = "list_all (\<lambda>n. valid_utf8 (map of_char n)) names"
  let ?P = "\<lambda>s. B s \<and> tidy_fresh env iname intent s \<and> (quiet env \<longrightarrow> present names s \<and> look Intents n s \<noteq> None) \<and> ?V"
  let ?P' = "\<lambda>f s. ?P s \<and> look Intents n s = Some f"
  have IH: "triple (\<lambda>s. B s \<and> tidy_fresh env iname intent s \<and> (quiet env \<longrightarrow> present names s) \<and> ?V)
      (reconcile_entries env names) ?Q ?E"
    using Cons by simp
  have o: "triple ?P (open_regular env Intents n) ?P' ?E"
    by (rule triple_post [OF triple_open_regular])
      (auto simp: tidy_fresh_def tidy_entry_def dest: look_Intents_tidy)
  have v: "triple (?P' f) (validate_intent_file env f) (\<lambda>_. ?P' f) ?E" for f
    unfolding validate_intent_file_def
  proof (rule triple_chain)
    show "triple (?P' f) (sys env) (\<lambda>_. ?P' f) ?E"
      by (rule triple_post [OF triple_sys]) (auto simp: tidy_fresh_def)
    show "triple (?P' f) (if \<not> file_regular f \<or> \<not> file_private f then throw (OtherIo ''unsafe native intent file'') else give ())
        (\<lambda>_. ?P' f) ?E"
      by (rule triple_guard) (auto simp: tidy_fresh_def tidy_entry_def intro: triple_give dest: look_Intents_tidy)
  qed
  have i: "triple (?P' f) (identity_of env f) (\<lambda>i s. ?P' f s \<and> i = file_identity f) ?E" for f
    by (rule triple_post [OF triple_identity_of]) (auto simp: tidy_fresh_def)
  have c: "triple (\<lambda>s. ?P' f s \<and> i = file_identity f) (cleanup_intent_file env n i)
      (\<lambda>_ s. B s \<and> tidy_fresh env iname intent s \<and> (quiet env \<longrightarrow> present names s) \<and> ?V) ?E"
    if "is_intent_temp_name n" for f i
  proof (rule triple_pre)
    have "n \<notin> set names" using Cons.prems by simp
    note cl = recover_cleanup [OF B [OF that] B lib this iname, of i]
    show "triple (\<lambda>s. (B s \<and> tidy_fresh env iname intent s \<and> (quiet env \<longrightarrow> present names s \<and>
       (\<exists>f. look Intents n s = Some f \<and> file_identity f = i))) \<and> ?V) (cleanup_intent_file env n i)
      (\<lambda>_ s. B s \<and> tidy_fresh env iname intent s \<and> (quiet env \<longrightarrow> present names s) \<and> ?V) ?E"
      by (rule triple_fact, rule triple_post [OF cl]) simp_all
  qed auto
  show ?case
    unfolding reconcile_entries.simps
  proof (rule triple_guard)
    show "triple (\<lambda>s. B s \<and> tidy_fresh env iname intent s \<and> (quiet env \<longrightarrow> present (n # names) s) \<and>
        list_all (\<lambda>n. valid_utf8 (map of_char n)) (n # names))
      (chain (open_regular env Intents n) (\<lambda>f.
        chain (validate_intent_file env f) (\<lambda>_.
          if is_intent_temp_name n
          then chain (identity_of env f) (\<lambda>i.
            chain (cleanup_intent_file env n i) (\<lambda>_. reconcile_entries env names))
          else if \<not> is_intent_final_name n then throw (OtherIo ''unknown native intent entry'')
          else reconcile_entries env names))) ?Q ?E"
    proof (rule triple_pre [where P = ?P])
      have l: "triple (?P' f) (if is_intent_temp_name n
          then chain (identity_of env f) (\<lambda>i.
            chain (cleanup_intent_file env n i) (\<lambda>_. reconcile_entries env names))
          else if \<not> is_intent_final_name n then throw (OtherIo ''unknown native intent entry'')
          else reconcile_entries env names) ?Q ?E" for f
      proof (rule triple_if)
        show "triple (?P' f) (chain (identity_of env f) (\<lambda>i.
            chain (cleanup_intent_file env n i) (\<lambda>_. reconcile_entries env names))) ?Q ?E"
          if "is_intent_temp_name n"
          by (intro triple_chain [OF i] triple_chain [OF c [OF that]] IH)
        assume t: "\<not> is_intent_temp_name n"
        show "triple (?P' f) (if \<not> is_intent_final_name n then throw (OtherIo ''unknown native intent entry'')
          else reconcile_entries env names) ?Q ?E"
        proof (rule triple_guard)
          show "triple (?P' f) (reconcile_entries env names) ?Q ?E"
            by (rule triple_pre [OF IH]) auto
        qed (use t in \<open>auto simp: tidy_fresh_def tidy_entry_def dest: look_Intents_tidy\<close>)
      qed
      show "triple ?P (chain (open_regular env Intents n) (\<lambda>f.
        chain (validate_intent_file env f) (\<lambda>_.
          if is_intent_temp_name n
          then chain (identity_of env f) (\<lambda>i.
            chain (cleanup_intent_file env n i) (\<lambda>_. reconcile_entries env names))
          else if \<not> is_intent_final_name n then throw (OtherIo ''unknown native intent entry'')
          else reconcile_entries env names))) ?Q ?E"
        by (intro triple_chain [OF o] triple_chain [OF v] l)
    qed (auto simp: present_def)
  qed (simp add: tidy_fresh_def)
qed

lemma recover_reconcile:
  assumes B: "\<And>n. is_intent_temp_name n \<Longrightarrow> stable_at n B" and lib: "library_ok env intent" and iname: "\<not> is_intent_temp_name iname"
  shows "triple (\<lambda>s. B s \<and> tidy_fresh env iname intent s) (reconcile_intent_directory env)
     (\<lambda>_ s. B s \<and> tidy_fresh env iname intent s)
     (\<lambda>_ s. B s \<and> intents_ok env iname intent s \<and> \<not> quiet env)"
  unfolding reconcile_intent_directory_def
proof (rule triple_chain)
  let ?P = "\<lambda>s. B s \<and> tidy_fresh env iname intent s"
  let ?E = "\<lambda>_ s. B s \<and> intents_ok env iname intent s \<and> \<not> quiet env"
  let ?L = "\<lambda>names s. ?P s \<and> names = map fst (entries_at Intents s)"
  show "triple ?P (list_entries env Intents) ?L ?E"
    by (rule triple_post [OF triple_list_entries]) (auto simp: tidy_fresh_def)
  show "triple (?L names) (reconcile_entries env names) (\<lambda>_. ?P) ?E" for names
  proof (cases "distinct names")
    case True
    show ?thesis
    proof (rule triple_pre [OF recover_entries [OF B lib iname True]])
      fix s assume l: "?L names s"
      then have "present names s" by (auto simp: present_def look_def map_of_eq_None_iff image_iff)
      moreover have "list_all (\<lambda>n. valid_utf8 (map of_char n)) names"
        using l by (auto simp: list_all_iff tidy_fresh_def intents_ok_def intro: tidy_valid)
      ultimately show "B s \<and> tidy_fresh env iname intent s \<and> (quiet env \<longrightarrow> present names s) \<and>
          list_all (\<lambda>n. valid_utf8 (map of_char n)) names"
        using l by blast
    qed
  next
    case False
    show ?thesis
      by (rule triple_pre [where P = "\<lambda>_. False"]) (use False in \<open>auto simp: triple_def tidy_fresh_def intents_ok_def\<close>)
  qed
qed

text \<open>The intent is written whole under its name, or not at all.\<close>

lemma recover_write:
  assumes B: "intents_free B" and lib: "library_ok env intent" and iname: "\<not> is_intent_temp_name iname"
    and final: "is_intent_final_name iname"
  shows "triple (\<lambda>s. B s \<and> tidy_fresh env iname intent s \<and> look Intents iname s = None) (write_intent env iname intent)
     (\<lambda>_ s. B s \<and> intents_ok env iname intent s \<and> look Intents iname s \<noteq> None)
     (\<lambda>_ s. B s \<and> intents_ok env iname intent s \<and> \<not> quiet env)"
proof -
  obtain data where data: "print_intent env intent = Some data" "parse_intent env data = Some intent"
    using lib by (auto simp: library_ok_def split: option.splits)
  let ?P = "\<lambda>s. B s \<and> tidy_fresh env iname intent s \<and> look Intents iname s = None"
  let ?N = "\<lambda>s. B s \<and> intents_ok env iname intent s \<and> \<not> quiet env"
  let ?E = "\<lambda>_ s. B s \<and> intents_ok env iname intent s \<and> \<not> quiet env"
  let ?Q = "\<lambda>_ s. B s \<and> intents_ok env iname intent s \<and> look Intents iname s \<noteq> None"
  let ?T = "\<lambda>temp. \<exists>n. temp = intent_temp_name (new_uuid env n)"
  let ?R = "\<lambda>temp f s. B s \<and> intents_ok env iname intent s \<and> ?T temp \<and> look Intents iname s = None \<and>
      file_regular f \<and> file_private f"
  let ?W = "\<lambda>temp s. B s \<and> intents_ok env iname intent s \<and> ?T temp \<and> look Intents iname s = None \<and>
      (\<exists>f. look Intents temp s = Some f \<and> file_data f = data)"
  have temp: "is_intent_temp_name t \<and> t \<noteq> iname" if "?T t" for t
    using that temp_name_of_uuid [OF lib] iname by auto
  have tidy: "tidy_entry (t, f)" if "?T t" "file_regular f" "file_private f" for t f
    using temp [OF that(1)] that by (simp add: tidy_entry_def)
  have clean: "triple ?N (cleanup_after_intent_failure env n i e) Q ?E" for n i e Q
  proof -
    have "triple (\<lambda>s. (B s \<and> intents_ok env iname intent s) \<and> \<not> quiet env) (cleanup_intent_file env n i) ?E ?E"
      by (rule triple_fact, rule triple_post [OF triple_pre [OF recover_cleanup [OF stable_free [OF B] stable_free [OF B] lib _ iname, where names = "[]"]]])
        (auto simp: tidy_fresh_def)
    then have "triple ?N (cleanup_intent_file env n i) ?E ?E" by (rule triple_pre) simp
    then show ?thesis
      unfolding cleanup_after_intent_failure_def
      by (rule triple_attempt) (simp_all add: triple_throw)
  qed
  have fr: "triple ?P (fresh_temp_name env) (\<lambda>t s. ?P s \<and> ?T t) ?E"
    by (rule triple_fresh_temp_name)
  have cr: "triple (\<lambda>s. ?P s \<and> ?T t) (with_error SealIo (create_file env Intents t)) (\<lambda>f. ?R t f) ?E" for t
  proof (rule triple_with_error, rule triple_post [OF triple_create_file])
    fix f s
    assume "\<exists>c0 i. (?P c0 \<and> ?T t) \<and> look Intents t c0 = None \<and> file_regular f \<and> file_private f \<and>
        s = (with_entries Intents (AList.update t f) c0)\<lparr>next_identity := i\<rparr>"
    then obtain c0 i where c0: "?P c0" "?T t" "file_regular f" "file_private f"
      and s: "s = (with_entries Intents (AList.update t f) c0)\<lparr>next_identity := i\<rparr>" by blast
    have "B s" unfolding s using c0(1) by (intro free_identity [OF B] free_rename_intents [OF B]) blast
    moreover have "intents_ok env iname intent s"
      unfolding s using c0 temp [OF c0(2)] by (auto intro!: ok_update tidy simp: tidy_fresh_def)
    ultimately show "?R t f s" using c0 temp [OF c0(2)] by (auto simp: s)
  qed (auto simp: tidy_fresh_def names_free_def)
  have idn: "triple (?R t f) (with_error SealIo (identity_of env f)) (\<lambda>_. ?R t f) ?E" for t f
    by (rule triple_with_error, rule triple_post [OF triple_identity_of]) auto
  have put: "B s \<and> intents_ok env iname intent s \<and> look Intents iname s = None"
    if "?R t f c0" "s = with_entries Intents (AList.update t (f\<lparr>file_data := bs\<rparr>)) c0" for t f bs c0 s
    using that temp [of t] by (auto intro!: free_rename_intents [OF B] ok_update tidy)
  have wr: "triple (?R t f) (write_all env Intents t f data) (\<lambda>_. ?W t) ?E" for t f
  proof (rule triple_post [OF triple_write_all])
    fix u :: unit and s
    assume "\<exists>c0. ?R t f c0 \<and> s = with_entries Intents (AList.update t (f\<lparr>file_data := data\<rparr>)) c0"
    then obtain c0 where c0: "?R t f c0" and s: "s = with_entries Intents (AList.update t (f\<lparr>file_data := data\<rparr>)) c0"
      by blast
    have "look Intents t s = Some (f\<lparr>file_data := data\<rparr>)" by (simp add: s)
    then have "\<exists>g. look Intents t s = Some g \<and> file_data g = data" by simp
    then show "?W t s" using put [OF c0 s] c0 by blast
  next
    fix e s
    assume "\<not> quiet env \<and> (\<exists>c0 bs. ?R t f c0 \<and> s = with_entries Intents (AList.update t (f\<lparr>file_data := bs\<rparr>)) c0)"
    then show "?E e s" using put by blast
  qed
  have sy: "triple (?W t) (sync env) (\<lambda>_. ?W t) ?E" for t
    unfolding sync_def by (rule triple_post [OF triple_sys]) auto
  have rn: "triple (?W t) (rename_noreplace env Intents t Intents iname) ?Q ?E" for t
  proof (rule triple_post [OF triple_rename])
    fix u :: unit and s
    assume "\<exists>c0 f. ?W t c0 \<and> look Intents t c0 = Some f \<and> look Intents iname c0 = None \<and>
      s = with_entries Intents (AList.update iname f) (with_entries Intents (AList.delete t) c0)"
    then obtain c0 f where c0: "?W t c0" "look Intents t c0 = Some f"
      and s: "s = with_entries Intents (AList.update iname f) (with_entries Intents (AList.delete t) c0)" by blast
    have "B s" unfolding s using c0 by (intro free_rename_intents [OF B]) blast
    moreover have "intents_ok env iname intent s"
      unfolding s using c0 final data by (intro ok_rename) auto
    ultimately show "?Q u s" by (simp add: s)
  qed auto
  have sy2: "triple (?Q ()) (sync env) ?Q ?E"
    unfolding sync_def by (rule triple_post [OF triple_sys]) auto
  show ?thesis
    unfolding write_intent_def data(1) option.case
    by (intro triple_chain [OF fr] triple_chain [OF cr] triple_chain [OF idn] triple_try [OF wr] triple_try [OF sy]
        triple_try [OF rn] triple_try [OF sy2] clean triple_give)
qed

subsection \<open>The states an attempt can leave\<close>

definition staged_state :: "seal_env \<Rightarrow> AudioChunk \<Rightarrow> CaptureChunkTiming \<Rightarrow> string \<Rightarrow> string \<Rightarrow> seal_state \<Rightarrow> bool" where
  "staged_state env c t name final s \<longleftrightarrow> (\<exists>f. look Staging name s = Some f \<and> good_file env c f) \<and>
     look Audio final s = None \<and> native_insertable c t (catalog_of s)"

definition moved_state :: "seal_env \<Rightarrow> AudioChunk \<Rightarrow> CaptureChunkTiming \<Rightarrow> string \<Rightarrow> string \<Rightarrow> seal_state \<Rightarrow> bool" where
  "moved_state env c t name final s \<longleftrightarrow> published env c final s \<and> look Staging name s = None \<and>
     native_insertable c t (catalog_of s)"

definition stored_state :: "seal_env \<Rightarrow> AudioChunk \<Rightarrow> CaptureChunkTiming \<Rightarrow> string \<Rightarrow> seal_state \<Rightarrow> bool" where
  "stored_state env c t final s \<longleftrightarrow> published env c final s \<and> recorded c t s"

definition recoverable ::
    "seal_env \<Rightarrow> AudioChunk \<Rightarrow> CaptureChunkTiming \<Rightarrow> string \<Rightarrow> string \<Rightarrow> string \<Rightarrow> NativeSealIntent \<Rightarrow> seal_state \<Rightarrow> bool" where
  "recoverable env c t name final iname intent s \<longleftrightarrow> intents_ok env iname intent s \<and>
     (staged_state env c t name final s \<or>
      (moved_state env c t name final s \<and> look Intents iname s \<noteq> None) \<or>
      stored_state env c t final s)"

lemma free_states [simp]:
  "intents_free (staged_state env c t name final)" "intents_free (moved_state env c t name final)"
  "intents_free (stored_state env c t final)"
  by (auto simp: intents_free_def staged_state_def moved_state_def stored_state_def published_def recorded_def)

lemma insertable_unknown:
  "native_insertable c t cat \<Longrightarrow> catalog_chunk (chunk_id c) cat = None"
  "native_insertable c t cat \<Longrightarrow> capture_chunk_timing (chunk_id c) cat = None"
  by (simp_all add: native_insertable_def catalog_chunk_None capture_chunk_timing_None)

lemma insertable_inserts:
  "native_insertable c t cat \<Longrightarrow> insert_native_capture_chunk c t cat = Inr (Inserted, with_native_chunk c t cat)"
  by (simp add: native_insert_new insertable_unknown)

lemma recover_drop:
  assumes "intents_free B"
  shows "triple (\<lambda>s. B s \<and> intents_ok env iname intent s \<and> look Intents iname s \<noteq> None)
     (chain (drop_intent env iname) (\<lambda>_. give c))
     (\<lambda>ch s. ch = c \<and> B s \<and> intents_ok env iname intent s \<and> look Intents iname s = None)
     (\<lambda>_ s. B s \<and> intents_ok env iname intent s \<and> \<not> quiet env)"
proof -
  let ?E = "\<lambda>_ s. B s \<and> intents_ok env iname intent s \<and> \<not> quiet env"
  let ?Z = "\<lambda>s. B s \<and> intents_ok env iname intent s \<and> look Intents iname s = None"
  have u: "triple (\<lambda>s. B s \<and> intents_ok env iname intent s \<and> look Intents iname s \<noteq> None) (unlink env Intents iname) (\<lambda>_. ?Z) ?E"
    by (rule triple_post [OF triple_unlink]) (auto intro: free_rename_intents [OF assms] ok_delete)
  have y: "triple ?Z (sync env) (\<lambda>_. ?Z) ?E"
    unfolding sync_def by (rule triple_post [OF triple_sys]) auto
  have "triple (\<lambda>s. B s \<and> intents_ok env iname intent s \<and> look Intents iname s \<noteq> None) (drop_intent env iname) (\<lambda>_. ?Z) ?E"
    unfolding drop_intent_def remove_intent_def
    by (rule triple_with_error, rule triple_chain [OF u y])
  then show ?thesis by (rule triple_chain) (rule triple_give, simp)
qed

text \<open>Undoing a move leaves a recoverable state, however far it comes.\<close>

lemma recover_restore:
  "triple (\<lambda>s. moved_state env c t name final s \<and> intents_ok env iname intent s \<and> look Intents iname s \<noteq> None \<and> \<not> quiet env)
     (restore_or_recovery env final name iname e) Q
     (\<lambda>_ s. recoverable env c t name final iname intent s \<and> \<not> quiet env)"
proof -
  let ?M = "moved_state env c t name final" and ?S = "staged_state env c t name final"
  let ?M' = "\<lambda>s. ?M s \<and> intents_ok env iname intent s \<and> look Intents iname s \<noteq> None \<and> \<not> quiet env"
  let ?S' = "\<lambda>s. ?S s \<and> intents_ok env iname intent s \<and> \<not> quiet env"
  let ?E = "\<lambda>_ s. recoverable env c t name final iname intent s \<and> \<not> quiet env"
  have sE: "?E e s" if "?S' s" for e s using that by (simp add: recoverable_def)
  have mE: "?E e s" if "?M' s" for e s using that by (simp add: recoverable_def)
  have r: "triple ?M' (rename_noreplace env Audio final Staging name) (\<lambda>_. ?S') ?E"
  proof (rule triple_post [OF triple_rename])
    fix u :: unit and s
    assume "\<exists>c0 f. ?M' c0 \<and> look Audio final c0 = Some f \<and> look Staging name c0 = None \<and>
      s = with_entries Staging (AList.update name f) (with_entries Audio (AList.delete final) c0)"
    then obtain c0 f where c0: "?M' c0" "look Audio final c0 = Some f"
      and s: "s = with_entries Staging (AList.update name f) (with_entries Audio (AList.delete final) c0)" by blast
    show "?S' s" using c0 by (auto simp: s staged_state_def moved_state_def published_def)
  qed (use mE in blast)
  have y: "triple ?S' (sync env) (\<lambda>_. ?S') ?E"
    unfolding sync_def by (rule triple_post [OF triple_sys]) (auto simp: recoverable_def)
  have d: "triple ?S' (chain (remove_intent env iname) (\<lambda>_. sync env)) (\<lambda>_. ?S') (\<lambda>_. ?S')"
    unfolding remove_intent_def
  proof (rule triple_chain)
    show "triple ?S' (unlink env Intents iname) (\<lambda>_. ?S') (\<lambda>_. ?S')"
      by (rule triple_post [OF triple_unlink]) (auto intro: free_rename_intents [OF free_states(1)] ok_delete)
    show "triple ?S' (sync env) (\<lambda>_. ?S') (\<lambda>_. ?S')" by (rule keeps_reads)
  qed
  have k: "triple ?S' (attempt (chain (remove_intent env iname) (\<lambda>_. sync env)) (\<lambda>r. case r of
      Inr _ \<Rightarrow> throw e | Inl e \<Rightarrow> throw (SealRecoveryRequired e))) Q ?E"
    by (rule triple_try [OF d]) (rule triple_throw, erule sE)+
  show ?thesis
    unfolding restore_or_recovery_def restore_staging_def
    by (rule triple_try [OF triple_chain [OF r triple_chain [OF y y]]], rule k, rule triple_throw)
qed

lemma recover_moved:
  "triple (\<lambda>s. moved_state env c t name final s \<and> intents_ok env iname intent s \<and> look Intents iname s \<noteq> None \<and>
       (\<exists>f. look Audio final s = Some f \<and> file_identity f = i))
     (seal_moved env c t name final iname i)
     (\<lambda>ch s. ch = c \<and> stored_state env c t final s \<and> intents_ok env iname intent s \<and> look Intents iname s = None)
     (\<lambda>_ s. recoverable env c t name final iname intent s \<and> \<not> quiet env)"
proof -
  let ?M = "\<lambda>s. moved_state env c t name final s \<and> intents_ok env iname intent s \<and> look Intents iname s \<noteq> None"
  let ?F = "\<lambda>_ s. moved_state env c t name final s \<and> intents_ok env iname intent s \<and> look Intents iname s \<noteq> None \<and> \<not> quiet env"
  let ?E = "\<lambda>_ s. recoverable env c t name final iname intent s \<and> \<not> quiet env"
  let ?N = "\<lambda>s. stored_state env c t final s \<and> intents_ok env iname intent s \<and> look Intents iname s \<noteq> None"
  let ?P = "\<lambda>s. ?M s \<and> (\<exists>f. look Audio final s = Some f \<and> file_identity f = i)"
  let ?G = "\<lambda>f s. ?M s \<and> look Audio final s = Some f \<and> file_identity f = i"
  have o: "triple ?P (with_error SealIo (open_regular env Audio final)) ?G ?F"
    by (rule triple_with_error, rule triple_post [OF triple_open_regular])
      (auto simp: moved_state_def published_def good_file_def)
  have j: "triple (?G f) (with_error SealIo (identity_of env f)) (\<lambda>j s. ?G f s \<and> j = i) ?F" for f
    by (rule triple_with_error, rule triple_post [OF triple_identity_of]) auto
  have w: "triple (?G f) (verify_file env f c) (\<lambda>_. ?M) ?F" for f
    by (rule triple_post [OF triple_verify_file]) (auto simp: moved_state_def published_def)
  have v: "triple ?P (validate_published env final i c) (\<lambda>_. ?M) ?F"
    unfolding validate_published_def
    by (rule triple_chain [OF o], rule triple_chain [OF j], rule triple_guard, blast, rule triple_pre [OF w], blast)
  have y: "triple ?M (sync env) (\<lambda>_. ?M) ?F"
    unfolding sync_def by (rule triple_post [OF triple_sys]) auto
  have st: "triple ?M (store_chunk env c t) (\<lambda>_. ?N) ?F"
  proof (rule triple_post [OF triple_store_chunk])
    fix u :: unit and s
    assume "\<exists>s0 out cat. ?M s0 \<and> insert_native_capture_chunk c t (catalog_of s0) = Inr (out, cat) \<and>
      s = s0\<lparr>catalog_of := cat\<rparr>"
    then obtain s0 out cat where s0: "?M s0" and ins: "insert_native_capture_chunk c t (catalog_of s0) = Inr (out, cat)"
      and s: "s = s0\<lparr>catalog_of := cat\<rparr>" by blast
    have "published env c final s" using s0 by (auto simp: s moved_state_def published_def)
    moreover have "recorded c t s" using conjunct1 [OF native_insert_stored [OF ins]] conjunct1 [OF conjunct2 [OF native_insert_stored [OF ins]]]
      by (simp add: s recorded_def)
    ultimately show "?N s" using s0 by (simp add: s stored_state_def)
  qed (auto simp: moved_state_def dest: insertable_inserts)
  have dr: "triple ?N (chain (drop_intent env iname) (\<lambda>_. give c))
      (\<lambda>ch s. ch = c \<and> stored_state env c t final s \<and> intents_ok env iname intent s \<and> look Intents iname s = None) ?E"
    by (rule triple_post [OF recover_drop]) (simp_all add: recoverable_def)
  have "triple ?P (seal_moved env c t name final iname i)
      (\<lambda>ch s. ch = c \<and> stored_state env c t final s \<and> intents_ok env iname intent s \<and> look Intents iname s = None) ?E"
    unfolding seal_moved_def
    by (intro triple_try [OF v] triple_try [OF y] triple_try [OF st] dr recover_restore)
  then show ?thesis by (rule triple_pre) blast
qed

lemma recover_publish:
  assumes lib: "library_ok env intent" and iname: "\<not> is_intent_temp_name iname" "is_intent_final_name iname"
  shows "triple (\<lambda>s. staged_state env c t name final s \<and> tidy_fresh env iname intent s \<and>
       (case existing of None \<Rightarrow> look Intents iname s = None | Some x \<Rightarrow> x = intent \<and> look Intents iname s \<noteq> None))
     (seal_publish env c t name final intent iname existing)
     (\<lambda>ch s. ch = c \<and> stored_state env c t final s \<and> intents_ok env iname intent s \<and> look Intents iname s = None)
     (\<lambda>_ s. recoverable env c t name final iname intent s \<and> \<not> quiet env)"
proof -
  let ?S = "staged_state env c t name final"
  let ?I = "\<lambda>s. case existing of None \<Rightarrow> look Intents iname s = None | Some x \<Rightarrow> x = intent \<and> look Intents iname s \<noteq> None"
  let ?P = "\<lambda>s. ?S s \<and> tidy_fresh env iname intent s \<and> ?I s"
  let ?G = "\<lambda>f s. ?P s \<and> look Staging name s = Some f"
  let ?F = "\<lambda>_ s. ?S s \<and> intents_ok env iname intent s \<and> \<not> quiet env"
  let ?E = "\<lambda>_ s. recoverable env c t name final iname intent s \<and> \<not> quiet env"
  let ?Q = "\<lambda>ch s. ch = c \<and> stored_state env c t final s \<and> intents_ok env iname intent s \<and> look Intents iname s = None"
  let ?W = "\<lambda>i s. (?S s \<and> (\<exists>f. look Staging name s = Some f \<and> file_identity f = i)) \<and>
      intents_ok env iname intent s \<and> look Intents iname s \<noteq> None"
  have FE: "triple P m Q ?E" if "triple P m Q ?F" for P m and Q :: "'x \<Rightarrow> seal_state \<Rightarrow> bool"
    by (rule triple_post [OF that]) (simp_all add: recoverable_def)
  have o: "triple ?P (with_error SealIo (open_regular env Staging name)) ?G ?F"
    by (rule triple_with_error, rule triple_post [OF triple_open_regular])
      (auto simp: staged_state_def good_file_def tidy_fresh_def)
  have j: "triple (?G f) (with_error SealIo (identity_of env f)) (\<lambda>i s. ?G f s \<and> i = file_identity f) ?F" for f
    by (rule triple_with_error, rule triple_post [OF triple_identity_of]) (auto simp: tidy_fresh_def)
  let ?H = "\<lambda>f i s. ?G f s \<and> i = file_identity f"
  have d: "triple (?H f i) (with_error SealIo (sys env)) (\<lambda>_. ?H f i) ?F" for f i
    by (rule triple_with_error, rule triple_post [OF triple_sys]) (auto simp: tidy_fresh_def)
  have v: "triple (?H f i) (verify_file env f c) (\<lambda>_. ?H f i) ?F" for f i
    by (rule triple_post [OF triple_verify_file]) (auto simp: staged_state_def tidy_fresh_def)
  have w: "triple (?H f i) (case existing of
         Some x \<Rightarrow> if x \<noteq> intent then throw SealConflict else give ()
       | None \<Rightarrow> write_intent env iname intent) (\<lambda>_. ?W i) ?F" for f i
  proof (cases existing)
    case None
    let ?B = "\<lambda>s. ?S s \<and> (\<exists>f. look Staging name s = Some f \<and> file_identity f = i)"
    have "intents_free ?B" by (auto simp: intents_free_def staged_state_def)
    note wr = recover_write [OF this lib iname]
    have "triple (?H f i) (write_intent env iname intent) (\<lambda>_. ?W i) ?F"
      by (rule triple_post [OF triple_pre [OF wr]]) (auto simp: None)
    then show ?thesis by (simp add: None)
  next
    case (Some x)
    show ?thesis unfolding Some option.case
      by (rule triple_guard, blast, rule triple_give) (auto simp: tidy_fresh_def)
  qed
  have y: "triple (?W i) (with_error SealIo (sync env)) (\<lambda>_. ?W i) ?F" for i
    unfolding sync_def by (rule triple_with_error, rule triple_post [OF triple_sys]) auto
  have e: "triple (?W i) (with_error SealIo (entry_identity env Staging name)) (\<lambda>j s. ?W i s \<and> j = Some i) ?F" for i
    by (rule triple_with_error, rule triple_post [OF triple_entry_identity])
      (auto simp: staged_state_def good_file_def)
  have r: "triple (?W i) (rename_noreplace env Staging name Audio final)
      (\<lambda>_ s. moved_state env c t name final s \<and> intents_ok env iname intent s \<and> look Intents iname s \<noteq> None \<and>
         (\<exists>f. look Audio final s = Some f \<and> file_identity f = i)) ?F" for i
    by (rule triple_post [OF triple_rename]) (auto simp: staged_state_def moved_state_def published_def)
  have dr: "triple (?F x) (chain (drop_intent env iname) (\<lambda>_. throw y)) ?Q ?F" for x :: io_error and y
  proof (rule triple_chain)
    show "triple (?F x) (drop_intent env iname) (\<lambda>_. ?F x) ?F"
      unfolding drop_intent_def remove_intent_def
    proof (rule triple_with_error, rule triple_chain)
      show "triple (?F x) (unlink env Intents iname) (\<lambda>_. ?F x) ?F"
        by (rule triple_post [OF triple_unlink])
          (auto intro: free_rename_intents [OF free_states(1)] ok_delete)
      show "triple (?F x) (sync env) (\<lambda>_. ?F x) ?F" by (rule keeps_reads)
    qed
    show "triple (?F x) (throw y) ?Q ?F" by (rule triple_throw)
  qed
  have fin: "triple (\<lambda>s. ?W i s \<and> j = Some i) (if j \<noteq> Some i then throw SealConflict
       else attempt (rename_noreplace env Staging name Audio final) (\<lambda>r. case r of
         Inl e \<Rightarrow> chain (drop_intent env iname) (\<lambda>_. throw (if e = AlreadyExists then SealConflict else SealIo e))
       | Inr _ \<Rightarrow> seal_moved env c t name final iname i)) ?Q ?E" for i j
  proof (rule triple_guard)
    have "triple (?W i) (attempt (rename_noreplace env Staging name Audio final) (\<lambda>r. case r of
         Inl e \<Rightarrow> chain (drop_intent env iname) (\<lambda>_. throw (if e = AlreadyExists then SealConflict else SealIo e))
       | Inr _ \<Rightarrow> seal_moved env c t name final iname i)) ?Q ?E"
      by (intro triple_try [OF r] recover_moved FE [OF dr])
    then show "triple (\<lambda>s. ?W i s \<and> j = Some i) (attempt (rename_noreplace env Staging name Audio final) (\<lambda>r. case r of
         Inl e \<Rightarrow> chain (drop_intent env iname) (\<lambda>_. throw (if e = AlreadyExists then SealConflict else SealIo e))
       | Inr _ \<Rightarrow> seal_moved env c t name final iname i)) ?Q ?E" by (rule triple_pre) blast
  qed blast
  show ?thesis
    unfolding seal_publish_def
    by (intro triple_chain [OF FE [OF o]] triple_chain [OF FE [OF j]] triple_chain [OF FE [OF d]]
        triple_chain [OF FE [OF v]] triple_chain [OF FE [OF w]] triple_chain [OF FE [OF y]]
        triple_chain [OF FE [OF e]] fin)
qed

lemma recover_resume:
  "triple (\<lambda>s. moved_state env c t name final s \<and> intents_ok env iname intent s \<and> look Intents iname s \<noteq> None \<and>
       look Audio final s = Some f)
     (seal_resume env c t intent iname (Some intent) f)
     (\<lambda>ch s. ch = c \<and> stored_state env c t final s \<and> intents_ok env iname intent s \<and> look Intents iname s = None)
     (\<lambda>_ s. recoverable env c t name final iname intent s \<and> \<not> quiet env)"
proof -
  let ?P = "\<lambda>s. moved_state env c t name final s \<and> intents_ok env iname intent s \<and> look Intents iname s \<noteq> None \<and>
       look Audio final s = Some f"
  let ?E = "\<lambda>_ s. recoverable env c t name final iname intent s \<and> \<not> quiet env"
  let ?N = "\<lambda>s. stored_state env c t final s \<and> intents_ok env iname intent s \<and> look Intents iname s \<noteq> None"
  let ?Q = "\<lambda>ch s. ch = c \<and> stored_state env c t final s \<and> intents_ok env iname intent s \<and> look Intents iname s = None"
  have y: "triple ?P (with_error SealIo (sync env)) (\<lambda>_. ?P) ?E"
    unfolding sync_def by (rule triple_with_error, rule triple_post [OF triple_sys]) (auto simp: recoverable_def)
  have v: "triple ?P (with_error (\<lambda>e. if e = IntegrityMismatch then SealConflict else e) (verify_file env f c))
      (\<lambda>_. ?P) ?E"
    by (rule triple_with_error, rule triple_post [OF triple_verify_file])
      (auto simp: recoverable_def moved_state_def published_def)
  have st: "triple ?P (with_error insert_error (store_chunk env c t)) (\<lambda>_. ?N) ?E"
  proof (rule triple_with_error, rule triple_post [OF triple_store_chunk])
    fix u :: unit and s
    assume "\<exists>s0 out cat. ?P s0 \<and> insert_native_capture_chunk c t (catalog_of s0) = Inr (out, cat) \<and>
      s = s0\<lparr>catalog_of := cat\<rparr>"
    then obtain s0 out cat where s0: "?P s0" and ins: "insert_native_capture_chunk c t (catalog_of s0) = Inr (out, cat)"
      and s: "s = s0\<lparr>catalog_of := cat\<rparr>" by blast
    have "published env c final s" using s0 by (auto simp: s moved_state_def published_def)
    moreover have "recorded c t s" using conjunct1 [OF native_insert_stored [OF ins]] conjunct1 [OF conjunct2 [OF native_insert_stored [OF ins]]]
      by (simp add: s recorded_def)
    ultimately show "?N s" using s0 by (simp add: s stored_state_def)
  qed (auto simp: moved_state_def recoverable_def dest: insertable_inserts)
  have dr: "triple ?N (chain (drop_intent env iname) (\<lambda>_. give c)) ?Q ?E"
    by (rule triple_post [OF recover_drop]) (simp_all add: recoverable_def)
  show ?thesis
    unfolding seal_resume_def
    by (rule triple_guard, simp)
      (intro triple_chain [OF y] triple_chain [OF v] triple_chain [OF st] dr)
qed

lemma recover_known:
  "triple (\<lambda>s. stored_state env c t final s \<and> intents_ok env iname intent s \<and>
       (case existing of None \<Rightarrow> look Intents iname s = None | Some x \<Rightarrow> x = intent \<and> look Intents iname s \<noteq> None))
     (seal_known env c t final intent iname existing c)
     (\<lambda>ch s. ch = c \<and> stored_state env c t final s \<and> intents_ok env iname intent s \<and> look Intents iname s = None)
     (\<lambda>_ s. recoverable env c t name final iname intent s \<and> \<not> quiet env)"
proof -
  let ?I = "\<lambda>s. case existing of None \<Rightarrow> look Intents iname s = None | Some x \<Rightarrow> x = intent \<and> look Intents iname s \<noteq> None"
  let ?P = "\<lambda>s. stored_state env c t final s \<and> intents_ok env iname intent s \<and> ?I s"
  let ?E = "\<lambda>_ s. recoverable env c t name final iname intent s \<and> \<not> quiet env"
  let ?Q = "\<lambda>ch s. ch = c \<and> stored_state env c t final s \<and> intents_ok env iname intent s \<and> look Intents iname s = None"
  let ?G = "\<lambda>f s. ?P s \<and> look Audio final s = Some f"
  have q: "triple ?P (query env (capture_chunk_timing (chunk_id c))) (\<lambda>timing s. ?P s \<and> timing = Some t) ?E"
    by (rule triple_post [OF triple_query]) (auto simp: stored_state_def recorded_def recoverable_def)
  have "open_stable Audio ?P"
    by (cases existing) (auto simp: open_stable_def stored_state_def published_def recorded_def look_created)
  then have o: "triple ?P (with_error SealIo (open_or_create_directory env Audio)) (\<lambda>_. ?P) ?E"
    by (intro triple_with_error triple_post [OF triple_open_or_create]) (auto simp: recoverable_def)
  have f: "triple ?P (with_error SealIo (open_regular env Audio final)) ?G ?E"
    by (rule triple_with_error, rule triple_post [OF triple_open_regular])
      (auto simp: recoverable_def stored_state_def published_def good_file_def)
  have v: "triple (?G f) (verify_file env f c) (\<lambda>_. ?P) ?E" for f
    by (rule triple_post [OF triple_verify_file]) (auto simp: recoverable_def stored_state_def published_def)
  have dr: "triple ?P (if existing = Some intent then chain (drop_intent env iname) (\<lambda>_. give c)
      else if existing \<noteq> None then throw SealConflict else give c) ?Q ?E"
  proof (cases existing)
    case None
    then show ?thesis by (simp add: triple_give)
  next
    case (Some x)
    have d: "triple (\<lambda>s. stored_state env c t final s \<and> intents_ok env iname intent s \<and> look Intents iname s \<noteq> None)
        (chain (drop_intent env iname) (\<lambda>_. give c)) ?Q ?E"
      by (rule triple_post [OF recover_drop]) (simp_all add: recoverable_def)
    show ?thesis
      by (rule triple_if) (rule triple_pre [OF d], simp add: Some, rule triple_guard, simp_all add: Some)
  qed
  show ?thesis
    unfolding seal_known_def
    by (rule triple_chain [OF q], rule triple_guard, simp)
      (intro triple_pre [OF triple_chain [OF o]] triple_chain [OF f] triple_chain [OF v] dr, blast)
qed

lemma recover_unknown:
  assumes lib: "library_ok env intent" and iname: "\<not> is_intent_temp_name iname" "is_intent_final_name iname"
  shows "triple (\<lambda>s. (staged_state env c t name final s \<or>
         (moved_state env c t name final s \<and> look Intents iname s \<noteq> None)) \<and> tidy_fresh env iname intent s \<and>
       (case existing of None \<Rightarrow> look Intents iname s = None | Some x \<Rightarrow> x = intent \<and> look Intents iname s \<noteq> None))
     (seal_unknown env c t name final intent iname existing)
     (\<lambda>ch s. ch = c \<and> stored_state env c t final s \<and> intents_ok env iname intent s \<and> look Intents iname s = None)
     (\<lambda>_ s. recoverable env c t name final iname intent s \<and> \<not> quiet env)"
proof -
  let ?I = "\<lambda>s. case existing of None \<Rightarrow> look Intents iname s = None | Some x \<Rightarrow> x = intent \<and> look Intents iname s \<noteq> None"
  let ?P = "\<lambda>s. (staged_state env c t name final s \<or>
      (moved_state env c t name final s \<and> look Intents iname s \<noteq> None)) \<and> tidy_fresh env iname intent s \<and> ?I s"
  let ?E = "\<lambda>_ s. recoverable env c t name final iname intent s \<and> \<not> quiet env"
  let ?Q = "\<lambda>ch s. ch = c \<and> stored_state env c t final s \<and> intents_ok env iname intent s \<and> look Intents iname s = None"
  have PE: "recoverable env c t name final iname intent s" if "?P s" for s
    using that by (auto simp: recoverable_def tidy_fresh_def)
  have q: "triple ?P (query env (capture_chunk_timing (chunk_id c))) (\<lambda>timing s. ?P s \<and> timing = None) ?E"
    by (rule triple_post [OF triple_query])
      (auto simp: staged_state_def moved_state_def insertable_unknown PE)
  have "open_stable Audio ?P"
    by (cases existing) (auto simp: open_stable_def staged_state_def moved_state_def published_def tidy_fresh_def
        names_free_def look_created)
  then have o: "triple ?P (with_error SealIo (open_or_create_directory env Audio)) (\<lambda>_. ?P) ?E"
    by (intro triple_with_error triple_post [OF triple_open_or_create]) (auto simp: PE)
  let ?M = "\<lambda>f s. moved_state env c t name final s \<and> intents_ok env iname intent s \<and> look Intents iname s \<noteq> None \<and>
       look Audio final s = Some f \<and> existing = Some intent"
  let ?S = "\<lambda>s. staged_state env c t name final s \<and> tidy_fresh env iname intent s \<and> ?I s"
  let ?F = "\<lambda>e s. e = NotFound \<and> ?S s \<or> recoverable env c t name final iname intent s \<and> \<not> quiet env \<and> e \<noteq> NotFound"
  have f: "triple ?P (open_regular env Audio final) ?M ?F"
  proof (rule triple_post [OF triple_open_regular])
    show "?M f s" if "?P s \<and> look Audio final s = Some f \<and> file_regular f" for f s
      using that by (auto simp: staged_state_def tidy_fresh_def split: option.splits)
    show "?F e s" if "?P s \<and> (e = NotFound \<and> look Audio final s = None \<or>
        e \<noteq> NotFound \<and> (\<not> quiet env \<or> (\<exists>f. look Audio final s = Some f \<and> \<not> file_regular f)))" for e s
      using that PE [of s] by (auto simp: staged_state_def moved_state_def published_def good_file_def)
  qed
  have r: "triple (?M f) (seal_resume env c t intent iname existing f) ?Q ?E" for f
  proof (cases "existing = Some intent")
    case True
    show ?thesis unfolding True by (rule triple_pre [OF recover_resume]) simp
  next
    case False
    then show ?thesis by (simp add: triple_def)
  qed
  have p: "triple (?F e) (if e = NotFound then seal_publish env c t name final intent iname existing
      else throw (SealIo e)) ?Q ?E" for e
    by (rule triple_if) (rule triple_pre [OF recover_publish [OF lib iname]], blast, rule triple_throw, blast)
  show ?thesis
    unfolding seal_unknown_def
    by (rule triple_chain [OF q], rule triple_guard, simp)
      (rule triple_pre [OF triple_chain [OF o]], intro triple_try [OF f] r p, blast)
qed

lemma recover_checked:
  assumes lib: "library_ok env intent" and iname: "\<not> is_intent_temp_name iname" "is_intent_final_name iname"
  shows "triple (\<lambda>s. recoverable env c t name final iname intent s \<and> (quiet env \<longrightarrow> names_free env s))
     (seal_checked env c t name final intent iname)
     (\<lambda>ch s. ch = c \<and> stored_state env c t final s \<and> intents_ok env iname intent s \<and> look Intents iname s = None)
     (\<lambda>_ s. recoverable env c t name final iname intent s \<and> \<not> quiet env)"
proof -
  let ?B = "\<lambda>s. staged_state env c t name final s \<or>
      (moved_state env c t name final s \<and> look Intents iname s \<noteq> None) \<or> stored_state env c t final s"
  let ?P = "\<lambda>s. ?B s \<and> tidy_fresh env iname intent s"
  let ?E = "\<lambda>_ s. recoverable env c t name final iname intent s \<and> \<not> quiet env"
  let ?Q = "\<lambda>ch s. ch = c \<and> stored_state env c t final s \<and> intents_ok env iname intent s \<and> look Intents iname s = None"
  let ?I = "\<lambda>ei s. case ei of None \<Rightarrow> look Intents iname s = None | Some x \<Rightarrow> x = intent \<and> look Intents iname s \<noteq> None"
  have stable: "stable_at n ?B" if "is_intent_temp_name n" for n
  proof -
    have "n \<noteq> iname" using that iname(1) by blast
    then show ?thesis
      by (auto simp: stable_at_def free_rename_intents)
  qed
  have "open_stable Intents ?P"
    by (auto simp: open_stable_def staged_state_def moved_state_def stored_state_def published_def recorded_def
        tidy_fresh_def names_free_def look_created ok_created)
  then have o: "triple ?P (with_error SealIo (open_or_create_directory env Intents)) (\<lambda>_. ?P) ?E"
    by (intro triple_with_error triple_post [OF triple_open_or_create]) (auto simp: recoverable_def tidy_fresh_def)
  have r: "triple ?P (with_error SealIo (reconcile_intent_directory env)) (\<lambda>_. ?P) ?E"
    by (rule triple_with_error, rule triple_post [OF recover_reconcile [OF stable lib iname(1)]])
      (auto simp: recoverable_def)
  have rd: "triple ?P (read_intent env iname) (\<lambda>ei s. ?P s \<and> ?I ei s) ?E"
  proof (rule triple_post [OF triple_read_intent])
    show "?P s \<and> ?I ei s" if "?P s \<and> (case ei of None \<Rightarrow> look Intents iname s = None
        | Some x \<Rightarrow> \<exists>f. look Intents iname s = Some f \<and> parse_intent env (file_data f) = Some x)" for ei s
      using that by (auto simp: tidy_fresh_def intents_ok_def split: option.splits)
    show "?E e s" if "?P s \<and> (\<not> quiet env \<or> (\<exists>f. look Intents iname s = Some f \<and>
        (\<not> file_regular f \<or> parse_intent env (file_data f) = None)))" for e s
    proof -
      from that have ok: "intents_ok env iname intent s" by (simp add: tidy_fresh_def)
      then have "\<not> quiet env"
        using that look_Intents_tidy [OF ok] by (auto simp: intents_ok_def tidy_entry_def)
      with that ok show ?thesis by (simp add: recoverable_def)
    qed
  qed
  let ?K = "\<lambda>ei known s. (?P s \<and> ?I ei s) \<and> known = catalog_chunk (chunk_id c) (catalog_of s)"
  have q: "triple (\<lambda>s. ?P s \<and> ?I ei s) (query env (catalog_chunk (chunk_id c))) (?K ei) ?E" for ei
    by (rule triple_post [OF triple_query]) (auto simp: recoverable_def tidy_fresh_def)
  have k: "triple (?K ei known) (case known of
       Some existing \<Rightarrow> seal_known env c t final intent iname ei existing
     | None \<Rightarrow> seal_unknown env c t name final intent iname ei) ?Q ?E" for ei known
  proof (cases known)
    case None
    show ?thesis unfolding None option.case
      by (rule triple_pre [OF recover_unknown [OF lib iname]]) (auto simp: stored_state_def recorded_def)
  next
    case (Some x)
    show ?thesis
    proof (cases "x = c")
      case True
      show ?thesis unfolding Some True option.case
        by (rule triple_pre [OF recover_known])
          (auto simp: staged_state_def moved_state_def insertable_unknown tidy_fresh_def)
    next
      case False
      have no: "\<not> ?K ei known s" for s
        using False by (auto simp: Some staged_state_def moved_state_def stored_state_def recorded_def insertable_unknown)
      show ?thesis by (rule triple_pre [where P = "\<lambda>_. False"], simp add: triple_def, rule notE [OF no])
    qed
  qed
  have "triple ?P (seal_checked env c t name final intent iname) ?Q ?E"
    unfolding seal_checked_def
    by (intro triple_chain [OF o] triple_chain [OF r] triple_chain [OF rd] triple_chain [OF q] k)
  then show ?thesis by (rule triple_pre) (auto simp: recoverable_def tidy_fresh_def)
qed

subsection \<open>Retrying\<close>

text \<open>
  What is given when a helper reports a chunk: a recorded file of the stated length and digest in the
  staging directory, a free final name, and a catalog in which nothing contradicts the chunk.
\<close>

definition ready :: "seal_env \<Rightarrow> NativeChunkSealRequest \<Rightarrow> seal_state \<Rightarrow> bool" where
  "ready env req s \<longleftrightarrow> (case validated_names (relative_staging_path req) (req_chunk_id req) of
     Inl _ \<Rightarrow> False
   | Inr (name, final) \<Rightarrow>
       (case look Staging name s of None \<Rightarrow> False | Some f \<Rightarrow> good_file env (chunk_of_request req final) f) \<and>
       look Audio final s = None \<and>
       native_insertable (chunk_of_request req final) (req_timing req) (catalog_of s) \<and>
       library_ok env (intent_of_request req final) \<and> entries_at Intents s = [])"

text \<open>Attempts one after the other, each with its own failures and its own fresh names.\<close>

fun attempts :: "seal_env list \<Rightarrow> NativeChunkSealRequest \<Rightarrow> seal_state \<Rightarrow> seal_state" where
  "attempts [] req s = s"
| "attempts (env # envs) req s = attempts envs req (snd (snd (seal env req 0 s)))"

text \<open>The libraries do not change from one attempt to the next.\<close>

definition same_libraries :: "seal_env \<Rightarrow> seal_env \<Rightarrow> bool" where
  "same_libraries env env' \<longleftrightarrow> sha256_hex env' = sha256_hex env \<and> parse_intent env' = parse_intent env \<and>
     print_intent env' = print_intent env \<and>
     (\<forall>n. length (new_uuid env' n) = 32 \<and> list_all is_ascii_hexdigit (new_uuid env' n))"

lemma same_libraries_recoverable:
  assumes "same_libraries env env'"
  shows "recoverable env' c t name final iname intent s = recoverable env c t name final iname intent s"
    and "library_ok env intent \<Longrightarrow> library_ok env' intent"
proof -
  from assms have eq: "sha256_hex env' = sha256_hex env" "parse_intent env' = parse_intent env"
    "print_intent env' = print_intent env"
    and new: "\<forall>n. length (new_uuid env' n) = 32 \<and> list_all is_ascii_hexdigit (new_uuid env' n)"
    by (auto simp: same_libraries_def)
  have good: "good_file env' = good_file env" by (intro ext) (simp add: good_file_def eq)
  show "recoverable env' c t name final iname intent s = recoverable env c t name final iname intent s"
    unfolding recoverable_def intents_ok_def staged_state_def moved_state_def stored_state_def published_def
      good eq ..
  show "library_ok env intent \<Longrightarrow> library_ok env' intent"
    unfolding library_ok_def eq using new by blast
qed

lemma seal_recoverable:
  assumes names: "validated_names (relative_staging_path req) (req_chunk_id req) = Inr (name, final)"
    and req: "req_source req \<noteq> Imported" "timing_chunk_id (req_timing req) = req_chunk_id req"
    and lib: "library_ok env (intent_of_request req final)"
  shows "triple (\<lambda>s. recoverable env (chunk_of_request req final) (req_timing req) name final
         (intent_name (req_chunk_id req)) (intent_of_request req final) s \<and> (quiet env \<longrightarrow> names_free env s))
     (seal env req)
     (\<lambda>ch s. ch = chunk_of_request req final \<and> stored_state env ch (req_timing req) final s \<and>
        intents_ok env (intent_name (req_chunk_id req)) (intent_of_request req final) s \<and>
        look Intents (intent_name (req_chunk_id req)) s = None)
     (\<lambda>_ s. recoverable env (chunk_of_request req final) (req_timing req) name final
         (intent_name (req_chunk_id req)) (intent_of_request req final) s \<and> \<not> quiet env)"
proof -
  have "is_native_chunk_id (req_chunk_id req)"
    using names by (auto simp: validated_names_def split: if_splits)
  note iname = intent_name_not_temp [OF this] intent_name_final [OF this]
  show ?thesis
    unfolding seal_def names sum.case prod.case
    by (rule triple_guard, simp add: req) (rule triple_post [OF recover_checked [OF lib iname]]; blast)
qed

lemma ready_recoverable:
  assumes "ready env req s"
  obtains name final where "validated_names (relative_staging_path req) (req_chunk_id req) = Inr (name, final)"
    and "req_source req \<noteq> Imported" "timing_chunk_id (req_timing req) = req_chunk_id req"
    and "library_ok env (intent_of_request req final)"
    and "recoverable env (chunk_of_request req final) (req_timing req) name final
      (intent_name (req_chunk_id req)) (intent_of_request req final) s"
proof (cases "validated_names (relative_staging_path req) (req_chunk_id req)")
  case (Inr nf)
  obtain name final where nf: "nf = (name, final)" by (cases nf)
  note r = assms [unfolded ready_def Inr nf sum.case prod.case]
  let ?c = "chunk_of_request req final"
  have v: "chunk_source ?c \<noteq> Imported" "timing_chunk_id (req_timing req) = chunk_id ?c"
    using r by (auto simp: native_insertable_def validated_native_capture_Some)
  have "intents_ok env (intent_name (req_chunk_id req)) (intent_of_request req final) s"
    using r by (simp add: intents_ok_def look_def)
  then have "recoverable env ?c (req_timing req) name final
      (intent_name (req_chunk_id req)) (intent_of_request req final) s"
    using r by (auto simp: recoverable_def staged_state_def split: option.splits)
  with Inr nf v r show ?thesis by (intro that) (auto simp: chunk_of_request_def)
qed (use assms in \<open>simp add: ready_def\<close>)

lemma attempts_recoverable:
  assumes names: "validated_names (relative_staging_path req) (req_chunk_id req) = Inr (name, final)"
    and req: "req_source req \<noteq> Imported" "timing_chunk_id (req_timing req) = req_chunk_id req"
    and lib: "library_ok env (intent_of_request req final)"
  shows "list_all (\<lambda>e. same_libraries env e \<and> \<not> quiet e) envs \<Longrightarrow>
    recoverable env (chunk_of_request req final) (req_timing req) name final
      (intent_name (req_chunk_id req)) (intent_of_request req final) s \<Longrightarrow>
    recoverable env (chunk_of_request req final) (req_timing req) name final
      (intent_name (req_chunk_id req)) (intent_of_request req final) (attempts envs req s)"
proof (induction envs arbitrary: s)
  case (Cons e envs)
  let ?R = "\<lambda>e s. recoverable e (chunk_of_request req final) (req_timing req) name final
      (intent_name (req_chunk_id req)) (intent_of_request req final) s"
  have e: "same_libraries env e" "\<not> quiet e" using Cons.prems by simp_all
  note same = same_libraries_recoverable [OF e(1)]
  obtain r n' s' where run: "seal e req 0 s = (r, n', s')" by (cases "seal e req 0 s")
  note tr = seal_recoverable [OF names req same(2) [OF lib]]
  have pre: "?R e s \<and> (quiet e \<longrightarrow> names_free e s)" using Cons.prems e by (simp add: same)
  have "?R e s'"
  proof (cases r)
    case (Inl x)
    show ?thesis using tripleD_Inl [OF tr pre run [unfolded Inl]] by blast
  next
    case (Inr ch)
    show ?thesis using tripleD_Inr [OF tr pre run [unfolded Inr]] by (auto simp: recoverable_def)
  qed
  with Cons run show ?case by (simp add: same)
qed simp

text \<open>
  C2: A staged chunk is sealed in the end: after any number of failed attempts - system calls, catalog
  statements and writes failing in any pattern, or a crash at any point - one attempt in which no
  call fails, with fresh names, succeeds and answers the chunk.
\<close>

theorem sealing_survives_failures:
  assumes "ready env req s" "list_all (\<lambda>e. same_libraries env e \<and> \<not> quiet e) envs"
    and "same_libraries env calm" "quiet calm" "names_free calm (attempts envs req s)"
  shows "\<exists>c n' s'. seal calm req 0 (attempts envs req s) = (Inr c, n', s') \<and> sealed calm req c s'"
proof -
  from ready_recoverable [OF assms(1)] obtain name final where
    names: "validated_names (relative_staging_path req) (req_chunk_id req) = Inr (name, final)"
    and req: "req_source req \<noteq> Imported" "timing_chunk_id (req_timing req) = req_chunk_id req"
    and lib: "library_ok env (intent_of_request req final)"
    and rec: "recoverable env (chunk_of_request req final) (req_timing req) name final
      (intent_name (req_chunk_id req)) (intent_of_request req final) s" .
  note same = same_libraries_recoverable [OF assms(3)]
  let ?s = "attempts envs req s"
  have "recoverable calm (chunk_of_request req final) (req_timing req) name final
      (intent_name (req_chunk_id req)) (intent_of_request req final) ?s"
    using attempts_recoverable [OF names req lib assms(2) rec] by (simp add: same)
  then have pre: "recoverable calm (chunk_of_request req final) (req_timing req) name final
      (intent_name (req_chunk_id req)) (intent_of_request req final) ?s \<and> (quiet calm \<longrightarrow> names_free calm ?s)"
    using assms(5) by blast
  note tr = seal_recoverable [OF names req same(2) [OF lib]]
  obtain r n' s' where run: "seal calm req 0 ?s = (r, n', s')" by (cases "seal calm req 0 ?s")
  show ?thesis
  proof (cases r)
    case (Inl x)
    have False using tripleD_Inl [OF tr pre run [unfolded Inl]] assms(4) by blast
    then show ?thesis ..
  next
    case (Inr c)
    have "sealed calm req c s'"
      using tripleD_Inr [OF tr pre run [unfolded Inr]] names by (auto simp: sealed_def stored_state_def)
    with run Inr show ?thesis by blast
  qed
qed

text \<open>A crash in the middle of writing the intent, then an attempt that goes through.\<close>

lemma demo_ready: "ready (demo_env (\<lambda>_. False) CHR ''b'') demo_request demo_seal_state"
proof -
  let ?env = "demo_env (\<lambda>_. False) CHR ''b''"
  have names: "validated_names (relative_staging_path demo_request) (req_chunk_id demo_request) =
      Inr (''chk_1.caf.partial'', ''chk_1.caf'')" by code_simp
  have lib: "library_ok ?env (intent_of_request demo_request ''chk_1.caf'')"
  proof -
    have "is_ascii_hexdigit CHR ''b''" by code_simp
    then show ?thesis by (simp add: library_ok_def demo_env_def list_all_iff)
  qed
  have "look Staging ''chk_1.caf.partial'' demo_seal_state = Some demo_recording"
    "look Audio ''chk_1.caf'' demo_seal_state = None" "entries_at Intents demo_seal_state = []"
    "good_file ?env (chunk_of_request demo_request ''chk_1.caf'') demo_recording"
    "native_insertable (chunk_of_request demo_request ''chk_1.caf'') (req_timing demo_request) (catalog_of demo_seal_state)"
    by code_simp+
  then show ?thesis by (simp add: ready_def names lib)
qed

theorem sealing_survives_failures_witness:
  "\<exists>c n' s'. seal (demo_env (\<lambda>_. False) CHR ''b'') demo_request 0
       (attempts [demo_env (\<lambda>n. 25 \<le> n) CHR ''a''] demo_request demo_seal_state) = (Inr c, n', s') \<and>
     sealed (demo_env (\<lambda>_. False) CHR ''b'') demo_request c s'"
proof (rule sealing_survives_failures [OF demo_ready])
  let ?crash = "demo_env (\<lambda>n. 25 \<le> n) CHR ''a''" and ?calm = "demo_env (\<lambda>_. False) CHR ''b''"
  have digits: "is_ascii_hexdigit CHR ''a''" "is_ascii_hexdigit CHR ''b''" by code_simp+
  show "list_all (\<lambda>e. same_libraries ?calm e \<and> \<not> quiet e) [?crash]"
    by (auto simp: same_libraries_def demo_env_def quiet_def digits list_all_iff)
  show "same_libraries ?calm ?calm" "quiet ?calm"
    by (simp_all add: same_libraries_def demo_env_def quiet_def digits list_all_iff)
  have "look Intents (intent_temp_name (replicate 32 CHR ''b''))
      (attempts [?crash] demo_request demo_seal_state) = None" by code_simp
  then show "names_free ?calm (attempts [?crash] demo_request demo_seal_state)"
    by (simp add: names_free_def demo_env_def)
qed

end
