(* ===== verification/Committer.thy ===== *)
theory Committer
  imports Coordinator Seal
begin

section \<open>Committing a sealed chunk: \<open>capture/committer.rs\<close>\<close>

text \<open>
  What the coordinator does with a chunk the helper reports: the chunk's place on the session's time
  line is computed from its host times and the session's anchor, and the chunk is sealed and handed
  to \<open>after_commit\<close>, an argument that may queue a transcription.  The clock is an argument; times
  are unbounded where \<open>chrono\<close> would stop at the year 262000.
\<close>

record committer_config =
  cfg_env :: seal_env
  cfg_session_id :: string
  cfg_source_ids :: "Source \<rightharpoonup> string"
  cfg_session_anchor_ns :: u64
  cfg_after_commit :: "AudioChunk \<Rightarrow> catalog \<Rightarrow> (string + unit) \<times> job_row list"
  cfg_utc_now :: "nat \<Rightarrow> time"

record committer_state =
  cm_files :: seal_state
  cm_calls :: nat
  cm_sequences :: "Source \<rightharpoonup> i64"

fun audio_source :: "Source \<Rightarrow> AudioSource" where
  "audio_source SrcMicrophone = Microphone"
| "audio_source SrcSystemAudio = SystemAudio"

definition chunk_id_from_path :: "string \<Rightarrow> string option" where
  "chunk_id_from_path path =
     Option.bind (file_name path) (\<lambda>name. Option.bind (strip_suffix ''.partial'' name) (\<lambda>rest.
       let stem = hd (split_on CHR ''.'' rest) in
       if prefix ''chk_'' stem \<and> 4 < length stem then Some stem else None))"

definition timing_of ::
    "string \<Rightarrow> string \<Rightarrow> i64 \<Rightarrow> u64 \<Rightarrow> u64 \<Rightarrow> time \<Rightarrow> ChunkSealed \<Rightarrow> CaptureChunkTiming" where
  "timing_of i sid current relative_start relative_end now sl =
     \<lparr>timing_chunk_id = i, timing_capture_source_id = sid, timing_source_sequence = current,
      timing_source_sample_start = u64_as_i64 (sealed_start_sample sl),
      timing_source_sample_end = u64_as_i64 (sealed_end_sample sl),
      timing_session_start_ms = u64_as_i64 (relative_start div 1000000),
      timing_session_end_ms = u64_as_i64 (relative_end div 1000000),
      timing_monotonic_start_ns = u64_as_i64 (sealed_start_host_time sl),
      timing_monotonic_end_ns = u64_as_i64 (sealed_end_host_time sl),
      timing_utc_start_at = now,
      timing_utc_end_at = now + 1000000 * u64_as_i64 (sealed_duration_ms sl),
      timing_discontinuity_count = 0, timing_dropped_frame_count = 0, timing_created_at = now\<rparr>"

definition request_of :: "committer_config \<Rightarrow> string \<Rightarrow> CaptureChunkTiming \<Rightarrow> ChunkSealed \<Rightarrow> NativeChunkSealRequest" where
  "request_of cfg i timing sl = \<lparr>relative_staging_path = sealed_path sl, req_chunk_id = i,
     req_session_id = cfg_session_id cfg, req_source = audio_source (sealed_source sl),
     expected_sha256 = sealed_sha256 sl, expected_byte_length = sealed_byte_length sl,
     req_timing = timing\<rparr>"

definition sha256_text_ok :: "string \<Rightarrow> bool" where
  "sha256_text_ok s \<longleftrightarrow> length s = 64 \<and> list_all is_ascii_hexdigit s"

text \<open>Sealing and the callback; the sealer's calls are counted on.\<close>

definition seal_and_notify :: "committer_config \<Rightarrow> NativeChunkSealRequest \<Rightarrow> committer_state \<Rightarrow>
    (NativeCaptureStableError + unit) \<times> committer_state" where
  "seal_and_notify cfg req k = (case seal (cfg_env cfg) req (cm_calls k) (cm_files k) of
     (Inl _, n, files) \<Rightarrow> (Inl CommitFailed, k\<lparr>cm_files := files, cm_calls := n\<rparr>)
   | (Inr chunk, n, files) \<Rightarrow> (case cfg_after_commit cfg chunk (catalog_of files) of
       (r, queue) \<Rightarrow> (map_err (\<lambda>_. CommitFailed) r,
          k\<lparr>cm_files := files\<lparr>catalog_of := (catalog_of files)\<lparr>jobs := queue\<rparr>\<rparr>, cm_calls := n\<rparr>)))"

definition commit :: "committer_config \<Rightarrow> committer_state committer" where
  "commit cfg sl k = (case cfg_source_ids cfg (sealed_source sl) of
     None \<Rightarrow> (Inl StableProtocolViolation, k)
   | Some sid \<Rightarrow>
       let current = (case cm_sequences k (sealed_source sl) of None \<Rightarrow> 0 | Some n \<Rightarrow> n) in
       (case checked_add_i64 current 1 of
          None \<Rightarrow> (Inl StableProtocolViolation,
            k\<lparr>cm_sequences := (cm_sequences k)(sealed_source sl \<mapsto> current)\<rparr>)
        | Some following \<Rightarrow>
            let k = k\<lparr>cm_sequences := (cm_sequences k)(sealed_source sl \<mapsto> following)\<rparr> in
            (case chunk_id_from_path (sealed_path sl) of
               None \<Rightarrow> (Inl StableProtocolViolation, k)
             | Some i \<Rightarrow>
                 (case (checked_sub (sealed_start_host_time sl) (cfg_session_anchor_ns cfg),
                        checked_sub (sealed_end_host_time sl) (cfg_session_anchor_ns cfg)) of
                    (Some relative_start, Some relative_end) \<Rightarrow>
                      if \<not> sha256_text_ok (sealed_sha256 sl) then (Inl StableProtocolViolation, k)
                      else seal_and_notify cfg (request_of cfg i (timing_of i sid current relative_start
                        relative_end (cfg_utc_now cfg (cm_calls k)) sl) sl) k
                  | _ \<Rightarrow> (Inl StableProtocolViolation, k)))))"

subsection \<open>A committed chunk is stored, and stays stored\<close>

definition sealed_chunk_id :: "ChunkSealed \<Rightarrow> string option" where
  "sealed_chunk_id s = chunk_id_from_path (sealed_path s)"

definition stored_chunks :: "committer_state \<Rightarrow> string option set" where
  "stored_chunks k = Some ` chunk_id ` set (chunks (catalog_of (cm_files k)))"

definition committer_sound :: "committer_config \<Rightarrow> committer_state \<Rightarrow> bool" where
  "committer_sound cfg k \<longleftrightarrow> catalog_backed (cfg_env cfg) (cm_files k)"

lemma settled_chunks:
  assumes "settled env req s0 s"
  shows "set (chunks (catalog_of s0)) \<subseteq> set (chunks (catalog_of s))"
proof -
  consider "catalog_of s = catalog_of s0"
    | c t out where "insert_native_capture_chunk c t (catalog_of s0) = Inr (out, catalog_of s)"
    using assms by (auto simp: settled_def at_rest_def moved_def entered_def)
  then show ?thesis
  proof cases
    case 2
    have "catalog_of s = (if out = Inserted then with_native_chunk c t (catalog_of s0) else catalog_of s0)"
      using native_insert_stored [OF 2] by blast
    then show ?thesis by (auto split: if_splits)
  qed simp
qed

lemma backed_jobs: "catalog_backed env (s\<lparr>catalog_of := (catalog_of s)\<lparr>jobs := q\<rparr>\<rparr>) = catalog_backed env s"
proof -
  have "catalog_backed env (s\<lparr>catalog_of := cat\<rparr>) = catalog_backed env s" if "chunks cat = chunks (catalog_of s)" for cat
    using that by (simp add: catalog_backed_def)
  then show ?thesis by simp
qed

lemma chunks_of_update:
  "chunks (catalog_of (cm_files (k\<lparr>cm_files := files\<lparr>catalog_of := cat\<rparr>, cm_calls := n\<rparr>))) = chunks cat"
  by simp

lemma jobs_chunks: "chunks (cat\<lparr>jobs := q\<rparr>) = chunks cat"
  by simp

lemma backed_of_update:
  "committer_sound cfg (k\<lparr>cm_files := files, cm_calls := n\<rparr>) = catalog_backed (cfg_env cfg) files"
  by (simp add: committer_sound_def)

lemma seal_and_notify_effect:
  assumes "seal_and_notify cfg req k = (r, k')"
  shows "(committer_sound cfg k \<longrightarrow> committer_sound cfg k') \<and> stored_chunks k \<subseteq> stored_chunks k' \<and>
    (r = Inr () \<longrightarrow> Some (req_chunk_id req) \<in> stored_chunks k')"
proof -
  obtain x n files where run: "seal (cfg_env cfg) req (cm_calls k) (cm_files k) = (x, n, files)"
    by (cases "seal (cfg_env cfg) req (cm_calls k) (cm_files k)")
  note grows = settled_chunks [OF attempt_settled [OF run]]
  have backed: "catalog_backed (cfg_env cfg) files" if "catalog_backed (cfg_env cfg) (cm_files k)"
    by (rule backed_attempt [OF that run])
  show ?thesis
  proof (cases x)
    case (Inl e)
    with assms run have "r = Inl CommitFailed" "k' = k\<lparr>cm_files := files, cm_calls := n\<rparr>"
      by (simp_all add: seal_and_notify_def)
    moreover from this have "stored_chunks k \<subseteq> stored_chunks k'"
      unfolding stored_chunks_def by (simp add: image_mono grows)
    ultimately show ?thesis using backed by (simp add: committer_sound_def)
  next
    case (Inr c)
    obtain q rest where q: "cfg_after_commit cfg c (catalog_of files) = (rest, q)"
      by (cases "cfg_after_commit cfg c (catalog_of files)")
    have k': "k' = k\<lparr>cm_files := files\<lparr>catalog_of := (catalog_of files)\<lparr>jobs := q\<rparr>\<rparr>, cm_calls := n\<rparr>"
      using assms run Inr q by (simp add: seal_and_notify_def)
    have "sealed (cfg_env cfg) req c files"
      using tripleD_Inr [OF seal_outcome refl run [unfolded Inr]] by (rule conjunct2)
    then have "catalog_chunk (req_chunk_id req) (catalog_of files) \<noteq> None"
      by (auto simp: sealed_def recorded_def chunk_of_request_def)
    then have known: "req_chunk_id req \<in> chunk_id ` set (chunks (catalog_of files))"
      unfolding catalog_chunk_None by (rule notnotD)
    have st: "stored_chunks k' = Some ` chunk_id ` set (chunks (catalog_of files))"
      unfolding stored_chunks_def k' chunks_of_update jobs_chunks ..
    have "stored_chunks k \<subseteq> stored_chunks k'"
      unfolding st unfolding stored_chunks_def by (rule image_mono [OF image_mono [OF grows]])
    moreover have "Some (req_chunk_id req) \<in> stored_chunks k'"
      unfolding st by (rule imageI [OF known])
    moreover have "committer_sound cfg k \<longrightarrow> committer_sound cfg k'"
      unfolding k' backed_of_update backed_jobs by (simp add: committer_sound_def backed)
    ultimately show ?thesis by blast
  qed
qed

lemma commit_effect:
  assumes "commit cfg sl k = (r, k')"
  shows "(committer_sound cfg k \<longrightarrow> committer_sound cfg k') \<and> stored_chunks k \<subseteq> stored_chunks k' \<and>
    (r = Inr () \<longrightarrow> sealed_chunk_id sl \<in> stored_chunks k')"
proof -
  have k: "stored_chunks (k\<lparr>cm_sequences := m\<rparr>) = stored_chunks k"
    "committer_sound cfg (k\<lparr>cm_sequences := m\<rparr>) = committer_sound cfg k" for m
    by (simp_all add: stored_chunks_def committer_sound_def)
  from assms consider "r = Inl StableProtocolViolation" "k' = k \<or> (\<exists>m. k' = k\<lparr>cm_sequences := m\<rparr>)"
    | i timing m where "chunk_id_from_path (sealed_path sl) = Some i"
      "seal_and_notify cfg (request_of cfg i timing sl) (k\<lparr>cm_sequences := m\<rparr>) = (r, k')"
    unfolding commit_def Let_def
    by (auto split: option.splits if_splits)
  then show ?thesis
  proof cases
    case 1
    then show ?thesis by (auto simp: k)
  next
    case 2
    then show ?thesis using seal_and_notify_effect [OF 2(2)]
      by (simp add: k sealed_chunk_id_def request_of_def)
  qed
qed

interpretation catalog_committer: chunk_committer "commit cfg" sealed_chunk_id stored_chunks "committer_sound cfg"
  for cfg
  by unfold_locales (use commit_effect in blast)+

text \<open>
  C21: Nothing the coordinator counts is lost: over any sequence of helper events, the chunks it counts
  as committed are at most those whose identifier is in the catalog at the end, the chunks that were
  in the catalog stay there, and the catalog still names only recordings that are on disk with their
  length and digest - whatever calls fail while sealing.
\<close>

theorem counted_chunks_are_stored:
  assumes "catalog_backed (cfg_env cfg) (cm_files k)"
    and "foldl (\<lambda>(c, k) ev. let (c, k, _) = handle_event (commit cfg) ev c k in (c, k)) (c, k) events = (c', k')"
  shows "committed_chunks c' - committed_chunks c \<le>
      length (filter (\<lambda>ev. \<exists>s. ev = Some (HdrChunkSealed s) \<and>
        (\<exists>r. r \<in> set (chunks (catalog_of (cm_files k'))) \<and> chunk_id_from_path (sealed_path s) = Some (chunk_id r)))
      events) \<and>
    chunk_id ` set (chunks (catalog_of (cm_files k))) \<subseteq> chunk_id ` set (chunks (catalog_of (cm_files k'))) \<and>
    catalog_backed (cfg_env cfg) (cm_files k')"
proof -
  note run = catalog_committer.run_stored [OF assms(1) [folded committer_sound_def] assms(2)]
  have id: "sealed_chunk_id s \<in> stored_chunks k' \<longleftrightarrow>
      (\<exists>r. r \<in> set (chunks (catalog_of (cm_files k'))) \<and> chunk_id_from_path (sealed_path s) = Some (chunk_id r))" for s
    by (auto simp: sealed_chunk_id_def stored_chunks_def)
  show ?thesis
    using run by (simp add: id committer_sound_def) (auto simp: stored_chunks_def)
qed

definition demo_config :: committer_config where
  "demo_config = \<lparr>cfg_env = (demo_env (\<lambda>_. False) CHR ''a'')\<lparr>sha256_hex := (\<lambda>_. replicate 64 CHR ''a'')\<rparr>,
     cfg_session_id = ''s'', cfg_source_ids = [SrcMicrophone \<mapsto> ''mic1''], cfg_session_anchor_ns = 1000000,
     cfg_after_commit = (\<lambda>_ cat. (Inr (), jobs cat)), cfg_utc_now = (\<lambda>n. int n)\<rparr>"

definition demo_committer :: committer_state where
  "demo_committer = \<lparr>cm_files = demo_seal_state, cm_calls = 0, cm_sequences = Map.empty\<rparr>"

definition demo_sealed :: ChunkSealed where
  "demo_sealed = \<lparr>sealed_source = SrcMicrophone, sealed_path = ''chk_1.caf.partial'', sealed_byte_length = 2,
     sealed_sha256 = replicate 64 CHR ''a'', sealed_duration_ms = 4, sealed_start_sample = 0,
     sealed_end_sample = 64, sealed_start_host_time = 2000000, sealed_end_host_time = 6000000\<rparr>"

lemma demo_commit:
  "case commit demo_config demo_sealed demo_committer of (r, k) \<Rightarrow> r = Inr () \<and>
     map chunk_session_offset_ms (chunks (catalog_of (cm_files k))) = [1] \<and>
     map chunk_duration_ms (chunks (catalog_of (cm_files k))) = [Some 4] \<and>
     cm_sequences k SrcMicrophone = Some 1"
  by code_simp

theorem counted_chunks_are_stored_witness:
  "\<exists>c' k'. foldl (\<lambda>(c, k) ev. let (c, k, _) = handle_event (commit demo_config) ev c k in (c, k))
       (mic_coordinator PhRunning, demo_committer) [Some (HdrChunkSealed demo_sealed)] = (c', k') \<and>
     committed_chunks c' = 1 \<and> chunks (catalog_of (cm_files k')) \<noteq> [] \<and>
     catalog_backed (cfg_env demo_config) (cm_files k')"
proof -
  let ?run = "foldl (\<lambda>(c, k) ev. let (c, k, _) = handle_event (commit demo_config) ev c k in (c, k))
       (mic_coordinator PhRunning, demo_committer) [Some (HdrChunkSealed demo_sealed)]"
  have sound: "catalog_backed (cfg_env demo_config) (cm_files demo_committer)"
    by (simp add: catalog_backed_def demo_committer_def demo_seal_state_def demo_capture_catalog_def empty_catalog_def)
  obtain c' k' where run: "?run = (c', k')" by (cases ?run)
  obtain k1 where k1: "commit demo_config demo_sealed demo_committer = (Inr (), k1)"
    using demo_commit by (auto split: prod.splits)
  have n: "committed_chunks c' = 1"
    using run k1 by (auto simp: handle_event_def ensure_not_failed_def mic_coordinator_def draining_def
        finish_if_stopped_def Let_def split: prod.splits)
  have "committed_chunks (mic_coordinator PhRunning) = 0" by (simp add: mic_coordinator_def)
  with counted_chunks_are_stored [OF sound run] n
  have "chunks (catalog_of (cm_files k')) \<noteq> [] \<and> catalog_backed (cfg_env demo_config) (cm_files k')"
    by auto
  with run n show ?thesis by blast
qed

subsection \<open>The time line\<close>

lemma timings_of_update:
  "capture_chunk_timing i (catalog_of (cm_files (k\<lparr>cm_files := files\<lparr>catalog_of := cat\<lparr>jobs := q\<rparr>\<rparr>, cm_calls := n\<rparr>))) =
     capture_chunk_timing i cat"
proof -
  have "capture_chunk_timing i (cat\<lparr>jobs := q\<rparr>) = capture_chunk_timing i cat"
    by (simp add: capture_chunk_timing_def)
  then show ?thesis by simp
qed

lemma sequences_of_update:
  "cm_sequences (k\<lparr>cm_sequences := m\<rparr>\<lparr>cm_files := files, cm_calls := n\<rparr>) = m"
  by simp

lemma millis_as_i64: "u64_as_i64 (w div 1000000) = int (unat w div 1000000)"
proof -
  have "unat (w div 1000000) = unat w div 1000000" by (simp add: unat_div_distrib)
  moreover have "unat w div 1000000 < 2 ^ 63"
    using unat_less_exp [of w] by (simp add: div_less_iff_less_mult)
  ultimately show ?thesis using u64_as_i64_small [of "w div 1000000"] by simp
qed

lemma commit_success:
  assumes "commit cfg sl k = (Inr (), k')"
  obtains sid current i relative_start relative_end where "cfg_source_ids cfg (sealed_source sl) = Some sid"
    and "current = (case cm_sequences k (sealed_source sl) of None \<Rightarrow> 0 | Some n \<Rightarrow> n)" "in_i64 (current + 1)"
    and "chunk_id_from_path (sealed_path sl) = Some i"
    and "checked_sub (sealed_start_host_time sl) (cfg_session_anchor_ns cfg) = Some relative_start"
    and "checked_sub (sealed_end_host_time sl) (cfg_session_anchor_ns cfg) = Some relative_end"
    and "seal_and_notify cfg (request_of cfg i (timing_of i sid current relative_start relative_end
      (cfg_utc_now cfg (cm_calls k)) sl) sl)
      (k\<lparr>cm_sequences := (cm_sequences k)(sealed_source sl \<mapsto> current + 1)\<rparr>) = (Inr (), k')"
proof -
  obtain sid where sid: "cfg_source_ids cfg (sealed_source sl) = Some sid"
    using assms by (cases "cfg_source_ids cfg (sealed_source sl)") (simp_all add: commit_def)
  define current where "current = (case cm_sequences k (sealed_source sl) of None \<Rightarrow> 0 | Some n \<Rightarrow> n)"
  note c1 = assms [unfolded commit_def sid option.case Let_def, folded current_def]
  obtain f where f: "checked_add_i64 current 1 = Some f"
    using c1 by (cases "checked_add_i64 current 1") simp_all
  then have f1: "f = current + 1" "in_i64 (current + 1)" by (auto simp: checked_add_i64_def split: if_splits)
  note c2 = c1 [unfolded f option.case]
  obtain i where i: "chunk_id_from_path (sealed_path sl) = Some i"
    using c2 by (cases "chunk_id_from_path (sealed_path sl)") simp_all
  note c3 = c2 [unfolded i option.case]
  obtain rs where rs: "checked_sub (sealed_start_host_time sl) (cfg_session_anchor_ns cfg) = Some rs"
    using c3 by (cases "checked_sub (sealed_start_host_time sl) (cfg_session_anchor_ns cfg)") simp_all
  obtain re where re: "checked_sub (sealed_end_host_time sl) (cfg_session_anchor_ns cfg) = Some re"
    using c3 rs by (cases "checked_sub (sealed_end_host_time sl) (cfg_session_anchor_ns cfg)") simp_all
  have "seal_and_notify cfg (request_of cfg i (timing_of i sid current rs re (cfg_utc_now cfg (cm_calls k)) sl) sl)
      (k\<lparr>cm_sequences := (cm_sequences k)(sealed_source sl \<mapsto> current + 1)\<rparr>) = (Inr (), k')"
    using c3 rs re f1(1) by (simp split: if_splits)
  with sid current_def f1(2) i rs re show ?thesis using that by blast
qed

text \<open>
  C33: An accepted chunk is placed on the session's time line exactly: its stored timing starts and ends
  at its host times less the session's anchor, in whole milliseconds and without wrapping, under the
  number of chunks its source had before, and that number grows by one.
\<close>

theorem committed_chunk_is_placed:
  assumes "commit cfg sl k = (Inr (), k')"
  shows "\<exists>i t. chunk_id_from_path (sealed_path sl) = Some i \<and>
    capture_chunk_timing i (catalog_of (cm_files k')) = Some t \<and>
    timing_session_start_ms t = (uint (sealed_start_host_time sl) - uint (cfg_session_anchor_ns cfg)) div 1000000 \<and>
    timing_session_end_ms t = (uint (sealed_end_host_time sl) - uint (cfg_session_anchor_ns cfg)) div 1000000 \<and>
    timing_source_sequence t = (case cm_sequences k (sealed_source sl) of None \<Rightarrow> 0 | Some n \<Rightarrow> n) \<and>
    cm_sequences k' = (cm_sequences k)(sealed_source sl \<mapsto> timing_source_sequence t + 1) \<and>
    Some (timing_capture_source_id t) = cfg_source_ids cfg (sealed_source sl) \<and>
    uint (cfg_session_anchor_ns cfg) \<le> uint (sealed_start_host_time sl)"
proof (rule commit_success [OF assms])
  fix sid current i rs re
  assume sid: "cfg_source_ids cfg (sealed_source sl) = Some sid"
    and current: "current = (case cm_sequences k (sealed_source sl) of None \<Rightarrow> 0 | Some n \<Rightarrow> n)"
    and i: "chunk_id_from_path (sealed_path sl) = Some i"
    and rs: "checked_sub (sealed_start_host_time sl) (cfg_session_anchor_ns cfg) = Some rs"
    and re: "checked_sub (sealed_end_host_time sl) (cfg_session_anchor_ns cfg) = Some re"
    and run: "seal_and_notify cfg (request_of cfg i (timing_of i sid current rs re (cfg_utc_now cfg (cm_calls k)) sl) sl)
      (k\<lparr>cm_sequences := (cm_sequences k)(sealed_source sl \<mapsto> current + 1)\<rparr>) = (Inr (), k')"
  let ?t = "timing_of i sid current rs re (cfg_utc_now cfg (cm_calls k)) sl"
  let ?k = "k\<lparr>cm_sequences := (cm_sequences k)(sealed_source sl \<mapsto> current + 1)\<rparr>"
  obtain x n files where seal: "seal (cfg_env cfg) (request_of cfg i ?t sl) (cm_calls k) (cm_files k) = (x, n, files)"
    by (cases "seal (cfg_env cfg) (request_of cfg i ?t sl) (cm_calls k) (cm_files k)")
  obtain c where x: "x = Inr c" using run seal by (cases x) (simp_all add: seal_and_notify_def)
  obtain rest q where q: "cfg_after_commit cfg c (catalog_of files) = (rest, q)"
    by (cases "cfg_after_commit cfg c (catalog_of files)")
  have k': "k' = ?k\<lparr>cm_files := files\<lparr>catalog_of := (catalog_of files)\<lparr>jobs := q\<rparr>\<rparr>, cm_calls := n\<rparr>"
    using run seal x q by (simp add: seal_and_notify_def)
  have "sealed (cfg_env cfg) (request_of cfg i ?t sl) c files"
    using tripleD_Inr [OF seal_outcome refl seal [unfolded x]] by (rule conjunct2)
  then have "capture_chunk_timing i (catalog_of files) = Some ?t"
    by (auto simp: sealed_def recorded_def request_of_def chunk_of_request_def)
  then have stored: "capture_chunk_timing i (catalog_of (cm_files k')) = Some ?t"
    unfolding k' timings_of_update .
  have ms: "int (unat w div 1000000) = uint w div 1000000" for w :: u64
    by (simp only: uint_nat zdiv_int of_nat_numeral)
  have diff: "uint rs = uint (sealed_start_host_time sl) - uint (cfg_session_anchor_ns cfg)"
    "uint re = uint (sealed_end_host_time sl) - uint (cfg_session_anchor_ns cfg)"
    "uint (cfg_session_anchor_ns cfg) \<le> uint (sealed_start_host_time sl)"
    using rs [unfolded checked_sub_Some_iff] re [unfolded checked_sub_Some_iff]
    unfolding uint_nat by linarith+
  have fields: "timing_session_start_ms ?t = uint rs div 1000000" "timing_session_end_ms ?t = uint re div 1000000"
    "timing_source_sequence ?t = current" "timing_capture_source_id ?t = sid"
    by (simp_all add: timing_of_def millis_as_i64 ms)
  have "cm_sequences k' = (cm_sequences k)(sealed_source sl \<mapsto> current + 1)"
    unfolding k' sequences_of_update ..
  with i stored fields current sid diff show ?thesis by (intro exI [of _ i] exI [of _ ?t]) simp
qed

theorem committed_chunk_is_placed_witness:
  "\<exists>k' t. commit demo_config demo_sealed demo_committer = (Inr (), k') \<and>
     capture_chunk_timing ''chk_1'' (catalog_of (cm_files k')) = Some t \<and>
     timing_session_start_ms t = 1 \<and> timing_session_end_ms t = 5 \<and> timing_source_sequence t = 0"
proof -
  obtain k' where k': "commit demo_config demo_sealed demo_committer = (Inr (), k')"
    using demo_commit by (auto split: prod.splits)
  have "chunk_id_from_path (sealed_path demo_sealed) = Some ''chk_1''" by code_simp
  moreover note committed_chunk_is_placed [OF k']
  ultimately show ?thesis
    using k' by (auto simp: demo_sealed_def demo_config_def demo_committer_def)
qed

end
