(* ===== verification/Capture_Session.thy ===== *)
theory Capture_Session
  imports Committer
begin

section \<open>The capture session: \<open>capture/session.rs\<close>\<close>

text \<open>
  The worker thread of a recording session: it prepares the coordinator, then runs a loop that takes
  the controls waiting in its channel, reads one helper event and handles it.  One iteration is
  \<open>worker_iteration\<close>; the controls that have arrived by then are its argument, so every interleaving
  of user and helper is a run of iterations.  The transport is the record of the coordinator's
  operations; the file system, the libraries and the callback come with the committer.  A hash map
  over the two sources is iterated here with the microphone first; the tables it fills do not depend
  on that order.  Error texts of other components are arguments.
\<close>

datatype NativeCaptureMode = Smart | MicOnly | SystemOnly

datatype NativeCaptureSessionError =
    AlreadyRunning
  | NotRunning
  | MissingSession
  | LaunchFailed string
  | SessionInvalidState string
  | SessionProtocolViolation
  | SessionCatalog string
  | SessionStable NativeCaptureStableError
  | WorkerExited

record LiveCaptureError =
  live_code :: string
  live_message :: string

definition MICROPHONE_SELECTION_REQUIRED_CODE :: string where
  "MICROPHONE_SELECTION_REQUIRED_CODE = ''microphone_selection_required''"
definition INVALID_SYSTEM_ONLY_SELECTION_CODE :: string where
  "INVALID_SYSTEM_ONLY_SELECTION_CODE = ''invalid_capture_mode_microphone_selection''"
definition SELECTED_MICROPHONE_IDENTITY_MISMATCH_CODE :: string where
  "SELECTED_MICROPHONE_IDENTITY_MISMATCH_CODE = ''selected_microphone_identity_mismatch''"
definition SELECTED_MICROPHONE_DISCONNECTED_REASON :: string where
  "SELECTED_MICROPHONE_DISCONNECTED_REASON = ''selected_microphone_disconnected''"

fun session_error_of :: "NativeCaptureCoordinatorError \<Rightarrow> NativeCaptureSessionError" where
  "session_error_of (InvalidState st) = SessionInvalidState st"
| "session_error_of (Stable e) = SessionStable e"
| "session_error_of (DuplicateSource _) = SessionProtocolViolation"
| "session_error_of NoEnabledSources = SessionProtocolViolation"
| "session_error_of (PreflightRejected _) = SessionProtocolViolation"

text \<open>The summaries shown to the user are Chinese texts; \<open>summary\<close> stands for them.\<close>

definition stable_fatal :: "string \<Rightarrow> string \<Rightarrow> NativeCaptureSessionError" where
  "stable_fatal code text = SessionStable (Fatal code text)"

fun requests_for_mode :: "NativeCaptureMode \<Rightarrow> NativeCaptureSourceRequest list" where
  "requests_for_mode Smart = [\<lparr>request_source = SrcMicrophone, request_enabled = True\<rparr>,
     \<lparr>request_source = SrcSystemAudio, request_enabled = True\<rparr>]"
| "requests_for_mode MicOnly = [\<lparr>request_source = SrcMicrophone, request_enabled = True\<rparr>]"
| "requests_for_mode SystemOnly = [\<lparr>request_source = SrcSystemAudio, request_enabled = True\<rparr>]"

definition validate_microphone_selection ::
    "(string \<Rightarrow> string) \<Rightarrow> NativeCaptureMode \<Rightarrow> string option \<Rightarrow> NativeCaptureSessionError + string option" where
  "validate_microphone_selection summary mode uid = (let normalized = map_option trim uid in
     case mode of
       SystemOnly \<Rightarrow> (case normalized of
           None \<Rightarrow> Inr None
         | Some u \<Rightarrow> if u \<noteq> [] then Inl (stable_fatal INVALID_SYSTEM_ONLY_SELECTION_CODE
               (summary INVALID_SYSTEM_ONLY_SELECTION_CODE)) else Inr None)
     | _ \<Rightarrow> (case normalized of
           None \<Rightarrow> Inl (stable_fatal MICROPHONE_SELECTION_REQUIRED_CODE
               (summary MICROPHONE_SELECTION_REQUIRED_CODE))
         | Some u \<Rightarrow> if u \<noteq> [] then Inr (Some u) else Inl (stable_fatal MICROPHONE_SELECTION_REQUIRED_CODE
               (summary MICROPHONE_SELECTION_REQUIRED_CODE))))"

definition live_capture_error ::
    "(NativeCaptureSessionError \<Rightarrow> string) \<Rightarrow> (string \<Rightarrow> string) \<Rightarrow> NativeCaptureSessionError \<Rightarrow> LiveCaptureError" where
  "live_capture_error display summary e = (case e of
     SessionStable (Fatal code text) \<Rightarrow> \<lparr>live_code = code, live_message = text\<rparr>
   | SessionStable (DeviceInterrupted _ reason) \<Rightarrow> \<lparr>live_code = reason,
       live_message = (if reason = SELECTED_MICROPHONE_DISCONNECTED_REASON then summary reason else reason)\<rparr>
   | _ \<Rightarrow> \<lparr>live_code = ''native_capture_failed'', live_message = display e\<rparr>)"

subsection \<open>Starting and stopping\<close>

record NativeCaptureSourceStatus =
  status_source :: Source
  status_permission :: string
  status_device_id :: string
  status_device_name :: string
  status_ready :: bool

record NativeCaptureStartStatus =
  status_state :: string
  status_session_id :: string
  status_enabled_sources :: "Source list"
  status_sources :: "NativeCaptureSourceStatus list"

text \<open>What is checked before the worker thread is spawned.\<close>

definition start_checks ::
    "(string \<Rightarrow> string) \<Rightarrow> bool \<Rightarrow> catalog \<Rightarrow> string \<Rightarrow> NativeCaptureMode \<Rightarrow> string option \<Rightarrow>
       NativeCaptureSessionError + string option" where
  "start_checks summary running cat sid mode uid =
     (if running then Inl AlreadyRunning
      else if \<not> session_exists sid cat then Inl MissingSession
      else validate_microphone_selection summary mode uid)"

text \<open>What the first message of the worker, or its end without one, is turned into.\<close>

definition start_status ::
    "string \<Rightarrow> NativeCaptureMode \<Rightarrow> (NativeCaptureSessionError + SourceStarted list) option \<Rightarrow>
       NativeCaptureSessionError + NativeCaptureStartStatus" where
  "start_status sid mode startup = (case startup of
     None \<Rightarrow> Inl WorkerExited
   | Some (Inl e) \<Rightarrow> Inl e
   | Some (Inr started) \<Rightarrow> Inr \<lparr>status_state = ''started'', status_session_id = sid,
       status_enabled_sources = map request_source (filter request_enabled (requests_for_mode mode)),
       status_sources = map (\<lambda>st. \<lparr>status_source = started_source st, status_permission = ''granted'',
         status_device_id = started_device_id st, status_device_name = started_device_name st,
         status_ready = True\<rparr>) started\<rparr>)"

text \<open>The result of \<open>stop\<close>: of the worker's error only a stable one is passed on.\<close>

definition stop_result ::
    "bool \<Rightarrow> NativeCaptureSessionError + unit \<Rightarrow> NativeCaptureSessionError option \<Rightarrow> NativeCaptureSessionError + unit" where
  "stop_result active reply last_error =
     (if \<not> active then Inl NotRunning
      else and_then reply (\<lambda>_. case last_error of
        Some (SessionStable e) \<Rightarrow> Inl (SessionStable e)
      | _ \<Rightarrow> Inr ()))"

subsection \<open>The worker\<close>

record 't worker_env =
  we_transport :: "'t transport_ops"
  we_requests :: "NativeCaptureSourceRequest list"
  we_microphone :: "string option"
  we_session_id :: string
  we_seal_env :: seal_env
  we_after_commit :: "AudioChunk \<Rightarrow> catalog \<Rightarrow> (string + unit) \<times> job_row list"
  we_utc_now :: "nat \<Rightarrow> time"
  we_source_uuid :: "Source \<Rightarrow> string"
  we_open_error :: "string option"
  we_error_text :: "sqlite_error \<Rightarrow> string"
  we_summary :: "string \<Rightarrow> string"

text \<open>\<open>wk_startup\<close> is what was sent through \<open>startup_tx\<close>, \<open>wk_store\<close> what the committer works on.\<close>

record 't worker =
  wk_coordinator :: coordinator
  wk_transport :: 't
  wk_started :: "Source \<rightharpoonup> SourceStarted"
  wk_committer :: "committer_config option"
  wk_store :: committer_state
  wk_startup :: "(NativeCaptureSessionError + SourceStarted list) option"
  wk_stop_requested :: bool
  wk_shutdown_sent :: bool
  wk_shutdown_ack :: bool

datatype control = ControlPause | ControlResume | ControlStop

definition control_call :: "'t worker_env \<Rightarrow> control \<Rightarrow> coordinator \<Rightarrow> 't \<Rightarrow> coordinator \<times> 't \<times> unit outcome" where
  "control_call env ctl = (case ctl of ControlPause \<Rightarrow> pause (we_transport env)
     | ControlResume \<Rightarrow> resume (we_transport env) | ControlStop \<Rightarrow> stop (we_transport env))"

definition handle_control :: "'t worker_env \<Rightarrow> control \<Rightarrow> 't worker \<Rightarrow> 't worker" where
  "handle_control env ctl w = (case control_call env ctl (wk_coordinator w) (wk_transport w) of
     (c, t, r) \<Rightarrow> w\<lparr>wk_coordinator := c, wk_transport := t,
       wk_stop_requested := wk_stop_requested w \<or> (ctl = ControlStop \<and> r = Inr ())\<rparr>)"

definition enabled_set :: "'t worker_env \<Rightarrow> Source list" where
  "enabled_set env = filter (\<lambda>s. list_ex (\<lambda>r. request_enabled r \<and> request_source r = s) (we_requests env))
     [SrcMicrophone, SrcSystemAudio]"

definition started_list :: "(Source \<rightharpoonup> SourceStarted) \<Rightarrow> SourceStarted list" where
  "started_list m = List.map_filter m [SrcMicrophone, SrcSystemAudio]"

definition send_startup :: "NativeCaptureSessionError + SourceStarted list \<Rightarrow> 't worker \<Rightarrow> 't worker" where
  "send_startup r w = (if wk_startup w = None then w\<lparr>wk_startup := Some r\<rparr> else w)"

definition source_id_of :: "'t worker_env \<Rightarrow> Source \<Rightarrow> string" where
  "source_id_of env s = ''src_'' @ we_source_uuid env s"

definition source_record :: "'t worker_env \<Rightarrow> time \<Rightarrow> SourceStarted \<Rightarrow> CaptureSourceRecord" where
  "source_record env now st = \<lparr>source_id = source_id_of env (started_source st),
     source_session_id = we_session_id env, source_source = audio_source (started_source st),
     source_device_uid = started_device_id st, source_device_name = started_device_name st,
     source_channel_count = started_channel_count st, source_sample_rate_hz = started_sample_rate st,
     source_created_at = now\<rparr>"

definition register_capture_sources ::
    "'t worker_env \<Rightarrow> time \<Rightarrow> (Source \<rightharpoonup> SourceStarted) \<Rightarrow> catalog \<Rightarrow>
       NativeCaptureSessionError + (Source \<rightharpoonup> string) \<times> catalog" where
  "register_capture_sources env now started cat =
     and_then (map_err (\<lambda>e. SessionCatalog (we_error_text env e))
       (insert_capture_sources_atomic (map (source_record env now) (started_list started)) cat))
     (\<lambda>cat. Inr (\<lambda>s. map_option (\<lambda>_. source_id_of env s) (started s), cat))"

definition anchor_of :: "SourceStarted list \<Rightarrow> u64 option" where
  "anchor_of sources = (case map started_host_time sources of
     [] \<Rightarrow> None | t # ts \<Rightarrow> Some (fold min ts t))"

definition set_catalog :: "catalog \<Rightarrow> 't worker \<Rightarrow> 't worker" where
  "set_catalog cat w = w\<lparr>wk_store := (wk_store w)\<lparr>cm_files := (cm_files (wk_store w))\<lparr>catalog_of := cat\<rparr>\<rparr>\<rparr>"

text \<open>All enabled sources run: register them and make the committer.\<close>

definition open_committer :: "'t worker_env \<Rightarrow> 't worker \<Rightarrow> 't worker \<times> (NativeCaptureSessionError + unit)" where
  "open_committer env w =
     (case register_capture_sources env (we_utc_now env (cm_calls (wk_store w))) (wk_started w)
        (catalog_of (cm_files (wk_store w))) of
        Inl e \<Rightarrow> (w, Inl e)
      | Inr (ids, cat) \<Rightarrow>
          let w = set_catalog cat w in
          (case anchor_of (started_list (wk_started w)) of
             None \<Rightarrow> (w, Inl SessionProtocolViolation)
           | Some anchor \<Rightarrow> (case we_open_error env of
               Some text \<Rightarrow> (w, Inl (SessionCatalog text))
             | None \<Rightarrow> (send_startup (Inr (started_list (wk_started w)))
                 (w\<lparr>wk_committer := Some \<lparr>cfg_env = we_seal_env env, cfg_session_id = we_session_id env,
                    cfg_source_ids = ids, cfg_session_anchor_ns = anchor,
                    cfg_after_commit = we_after_commit env, cfg_utc_now = we_utc_now env\<rparr>\<rparr>), Inr ()))))"

definition note_started :: "'t worker_env \<Rightarrow> SourceStarted \<Rightarrow> 't worker \<Rightarrow> 't worker \<times> (NativeCaptureSessionError + unit)" where
  "note_started env st w =
     (if started_source st \<notin> set (enabled_set env) then (w, Inl SessionProtocolViolation)
      else if started_source st = SrcMicrophone \<and>
        (case we_microphone env of None \<Rightarrow> False | Some uid \<Rightarrow> started_device_id st \<noteq> uid)
      then let e = stable_fatal SELECTED_MICROPHONE_IDENTITY_MISMATCH_CODE
               (we_summary env SELECTED_MICROPHONE_IDENTITY_MISMATCH_CODE)
        in (send_startup (Inl e) w, Inl e)
      else let w = w\<lparr>wk_started := (wk_started w)(started_source st \<mapsto> st)\<rparr> in
        if wk_committer w = None \<and> length (started_list (wk_started w)) = length (enabled_set env)
        then open_committer env w else (w, Inr ()))"

definition pending_committer :: "committer_state committer" where
  "pending_committer _ k = (Inl StableProtocolViolation, k)"

definition committer_for :: "'t worker \<Rightarrow> committer_state committer" where
  "committer_for w = (case wk_committer w of Some cfg \<Rightarrow> commit cfg | None \<Rightarrow> pending_committer)"

text \<open>The end of an iteration: shut the helper down when everything has drained, and leave when it acknowledged.\<close>

definition finish_iteration ::
    "'t worker_env \<Rightarrow> NativeCaptureDrainOutcome \<Rightarrow> 't worker \<Rightarrow> 't worker \<times> (NativeCaptureSessionError + unit) option" where
  "finish_iteration env out w =
     (let w = (if wk_committer w \<noteq> None then send_startup (Inr (started_list (wk_started w))) w else w) in
      if out = Complete \<and> wk_stop_requested w \<and> \<not> wk_shutdown_sent w
      then (case tr_shutdown (we_transport env) (wk_transport w) of
          (Inl e, t) \<Rightarrow> (w\<lparr>wk_transport := t\<rparr>, Some (Inl (SessionStable (transport_error_to_stable e))))
        | (Inr _, t) \<Rightarrow> let w = w\<lparr>wk_transport := t, wk_shutdown_sent := True\<rparr> in
            (w, if wk_shutdown_ack w then Some (Inr ()) else None))
      else (w, if wk_shutdown_sent w \<and> wk_shutdown_ack w then Some (Inr ()) else None))"

fun is_chunk_sealed :: "CaptureHeader option \<Rightarrow> bool" where
  "is_chunk_sealed (Some (HdrChunkSealed _)) = True"
| "is_chunk_sealed _ = False"

definition handle_worker_event ::
    "'t worker_env \<Rightarrow> CaptureHeader option \<Rightarrow> 't worker \<Rightarrow> 't worker \<times> (NativeCaptureSessionError + unit) option" where
  "handle_worker_event env ev w =
     (if is_chunk_sealed ev \<and> wk_committer w = None
      then (send_startup (Inl SessionProtocolViolation) w, Some (Inl SessionProtocolViolation))
      else let w = w\<lparr>wk_shutdown_ack := wk_shutdown_ack w \<or> ev = Some HdrShutdownAck\<rparr> in
        (case handle_event (committer_for w) ev (wk_coordinator w) (wk_store w) of
           (c, k, Inl e) \<Rightarrow> (send_startup (Inl (session_error_of e)) (w\<lparr>wk_coordinator := c, wk_store := k\<rparr>),
              Some (Inl (session_error_of e)))
         | (c, k, Inr out) \<Rightarrow> finish_iteration env out (w\<lparr>wk_coordinator := c, wk_store := k\<rparr>)))"

definition worker_iteration ::
    "'t worker_env \<Rightarrow> control list \<Rightarrow> 't worker \<Rightarrow> 't worker \<times> (NativeCaptureSessionError + unit) option" where
  "worker_iteration env controls w =
     (let w = fold (handle_control env) controls w in
      case tr_next_event (we_transport env) (wk_transport w) of
        (Inl e, t) \<Rightarrow> let err = SessionStable (transport_error_to_stable e) in
          (send_startup (Inl err) (w\<lparr>wk_transport := t\<rparr>), Some (Inl err))
      | (Inr ev, t) \<Rightarrow>
          let w = w\<lparr>wk_transport := t\<rparr> in
          (case (case ev of Some (HdrSourceStarted st) \<Rightarrow> note_started env st w | _ \<Rightarrow> (w, Inr ())) of
             (w, Inl e) \<Rightarrow> (w, Some (Inl e))
           | (w, Inr _) \<Rightarrow> handle_worker_event env ev w))"

text \<open>An error before the loop ends the thread: nothing was sent, so the caller sees \<open>WorkerExited\<close>.\<close>

definition new_worker :: "'t worker_env \<Rightarrow> 't \<Rightarrow> committer_state \<Rightarrow> NativeCaptureSessionError + 't worker" where
  "new_worker env t store =
     (case new_coordinator (we_requests env) of
        Inl e \<Rightarrow> Inl (session_error_of e)
      | Inr c \<Rightarrow> (case preflight (we_transport env) c t of
          (_, _, Inl e) \<Rightarrow> Inl (session_error_of e)
        | (c, t, Inr _) \<Rightarrow> (case start (we_transport env) (we_microphone env) c t of
            (_, _, Inl e) \<Rightarrow> Inl (session_error_of e)
          | (c, t, Inr _) \<Rightarrow> Inr \<lparr>wk_coordinator = c, wk_transport = t, wk_started = Map.empty,
              wk_committer = None, wk_store = store, wk_startup = None, wk_stop_requested = False,
              wk_shutdown_sent = False, wk_shutdown_ack = False\<rparr>)))"

text \<open>A run: iterations until one of them leaves the loop; each control batch is one iteration.\<close>

fun run_worker :: "'t worker_env \<Rightarrow> control list list \<Rightarrow> 't worker \<Rightarrow> 't worker \<times> (NativeCaptureSessionError + unit) option" where
  "run_worker env [] w = (w, None)"
| "run_worker env (controls # batches) w = (case worker_iteration env controls w of
     (w, Some r) \<Rightarrow> (w, Some r)
   | (w, None) \<Rightarrow> run_worker env batches w)"

subsection \<open>After the shutdown command\<close>

lemma handle_event_complete:
  assumes "handle_event cm ev c k = (c', k', Inr Complete)"
  shows "phase c' = PhStopped"
proof -
  have fin: "phase d' = PhStopped" if "finish_if_stopped d = (d', Inr Complete)" for d d'
    using that by (auto simp: finish_if_stopped_def split: if_splits)
  from assms have h: "handle_header cm ev c k = (c', k', Inr Complete)"
    by (auto simp: handle_event_def split: sum.splits if_splits)
  show ?thesis
  proof (cases ev)
    case None
    with h show ?thesis by (auto simp: Let_def dest: fin split: prod.splits)
  next
    case (Some hdr)
    with h show ?thesis
      by (cases hdr) (auto simp: Let_def enter_failed_def dest: fin split: prod.splits sum.splits if_splits)
  qed
qed

lemma control_stopped:
  "phase c = PhStopped \<Longrightarrow> control_call env ctl c t = (c', t', r) \<Longrightarrow> c' = c \<and> t' = t"
  by (cases ctl) (auto simp: control_call_def pause_def resume_def stop_def ensure_not_failed_def)

lemma controls_stopped:
  "phase (wk_coordinator w) = PhStopped \<Longrightarrow>
     wk_coordinator (fold (handle_control env) controls w) = wk_coordinator w \<and>
     wk_transport (fold (handle_control env) controls w) = wk_transport w"
proof (induction controls arbitrary: w)
  case (Cons ctl controls)
  obtain c' t' r where r: "control_call env ctl (wk_coordinator w) (wk_transport w) = (c', t', r)"
    by (cases "control_call env ctl (wk_coordinator w) (wk_transport w)")
  from control_stopped [OF Cons.prems r] have h: "wk_coordinator (handle_control env ctl w) = wk_coordinator w"
    "wk_transport (handle_control env ctl w) = wk_transport w"
    by (simp_all add: handle_control_def r)
  have "phase (wk_coordinator (handle_control env ctl w)) = PhStopped" using Cons.prems h by simp
  from Cons.IH [OF this] h show ?case by simp
qed simp

lemma handle_control_rest [simp]:
  "wk_started (handle_control env ctl w) = wk_started w" "wk_committer (handle_control env ctl w) = wk_committer w"
  "wk_store (handle_control env ctl w) = wk_store w" "wk_startup (handle_control env ctl w) = wk_startup w"
  "wk_shutdown_sent (handle_control env ctl w) = wk_shutdown_sent w"
  "wk_shutdown_ack (handle_control env ctl w) = wk_shutdown_ack w"
  by (simp_all add: handle_control_def split: prod.splits)

lemma controls_rest [simp]:
  "wk_started (fold (handle_control env) controls w) = wk_started w"
  "wk_committer (fold (handle_control env) controls w) = wk_committer w"
  "wk_store (fold (handle_control env) controls w) = wk_store w"
  "wk_startup (fold (handle_control env) controls w) = wk_startup w"
  "wk_shutdown_sent (fold (handle_control env) controls w) = wk_shutdown_sent w"
  "wk_shutdown_ack (fold (handle_control env) controls w) = wk_shutdown_ack w"
  by (induction controls arbitrary: w) simp_all

lemma send_startup_rest [simp]:
  "wk_coordinator (send_startup r w) = wk_coordinator w" "wk_transport (send_startup r w) = wk_transport w"
  "wk_started (send_startup r w) = wk_started w" "wk_committer (send_startup r w) = wk_committer w"
  "wk_store (send_startup r w) = wk_store w" "wk_shutdown_sent (send_startup r w) = wk_shutdown_sent w"
  "wk_shutdown_ack (send_startup r w) = wk_shutdown_ack w" "wk_stop_requested (send_startup r w) = wk_stop_requested w"
  by (simp_all add: send_startup_def)

lemma note_started_rest:
  assumes "note_started env st w = (w', r)"
  shows "wk_coordinator w' = wk_coordinator w \<and> wk_shutdown_sent w' = wk_shutdown_sent w \<and>
    wk_shutdown_ack w' = wk_shutdown_ack w \<and> wk_transport w' = wk_transport w \<and>
    wk_stop_requested w' = wk_stop_requested w"
  using assms
  by (auto simp: note_started_def open_committer_def set_catalog_def Let_def
      split: if_splits sum.splits option.splits)

definition stopped_when_sent :: "'t worker \<Rightarrow> bool" where
  "stopped_when_sent w \<longleftrightarrow> (wk_shutdown_sent w \<longrightarrow> phase (wk_coordinator w) = PhStopped)"

text \<open>The iteration up to the event: where it stands when the event has been noted.\<close>

lemma worker_iteration_cases:
  assumes "worker_iteration env controls w = (w', out)"
  obtains (transport) e t where "tr_next_event (we_transport env) (wk_transport (fold (handle_control env) controls w)) = (Inl e, t)"
      "w' = send_startup (Inl (SessionStable (transport_error_to_stable e)))
        ((fold (handle_control env) controls w)\<lparr>wk_transport := t\<rparr>)"
      "out = Some (Inl (SessionStable (transport_error_to_stable e)))"
  | (refused) st t e where "tr_next_event (we_transport env) (wk_transport (fold (handle_control env) controls w)) =
        (Inr (Some (HdrSourceStarted st)), t)"
      "note_started env st ((fold (handle_control env) controls w)\<lparr>wk_transport := t\<rparr>) = (w', Inl e)"
      "out = Some (Inl e)"
  | (event) ev t w1 where "tr_next_event (we_transport env) (wk_transport (fold (handle_control env) controls w)) = (Inr ev, t)"
      "w1 = (fold (handle_control env) controls w)\<lparr>wk_transport := t\<rparr> \<or>
       (\<exists>st. ev = Some (HdrSourceStarted st) \<and>
          note_started env st ((fold (handle_control env) controls w)\<lparr>wk_transport := t\<rparr>) = (w1, Inr ()))"
      "handle_worker_event env ev w1 = (w', out)"
proof -
  let ?w = "fold (handle_control env) controls w"
  obtain r t where n: "tr_next_event (we_transport env) (wk_transport ?w) = (r, t)"
    by (cases "tr_next_event (we_transport env) (wk_transport ?w)")
  note run = assms [unfolded worker_iteration_def Let_def n prod.case]
  show thesis
  proof (cases r)
    case (Inl e)
    with run n show thesis by (intro transport [of e t]) auto
  next
    case (Inr ev)
    show thesis
    proof (cases "\<exists>st. ev = Some (HdrSourceStarted st)")
      case True
      then obtain st where st: "ev = Some (HdrSourceStarted st)" by blast
      obtain w1 q where q: "note_started env st (?w\<lparr>wk_transport := t\<rparr>) = (w1, q)"
        by (cases "note_started env st (?w\<lparr>wk_transport := t\<rparr>)")
      show thesis
      proof (cases q)
        case (Inl e)
        with run n Inr st q show thesis by (intro refused [of st t e]) simp_all
      next
        case (Inr u)
        with run n \<open>r = Inr ev\<close> st q show thesis by (intro event [of ev t w1]) simp_all
      qed
    next
      case False
      then have "(case ev of Some (HdrSourceStarted st) \<Rightarrow> note_started env st (?w\<lparr>wk_transport := t\<rparr>)
          | _ \<Rightarrow> (?w\<lparr>wk_transport := t\<rparr>, Inr ())) = (?w\<lparr>wk_transport := t\<rparr>, Inr ())"
        by (simp split: option.splits CaptureHeader.splits)
      with run n Inr show thesis by (intro event [of ev t "?w\<lparr>wk_transport := t\<rparr>"]) simp_all
    qed
  qed
qed

lemma finish_iteration_sent:
  assumes "finish_iteration env o1 w = (w', r)" "wk_shutdown_sent w'" "\<not> wk_shutdown_sent w"
  shows "o1 = Complete \<and> wk_coordinator w' = wk_coordinator w"
  using assms by (auto simp: finish_iteration_def Let_def split: if_splits prod.splits sum.splits)

lemma finish_iteration_keeps:
  assumes "finish_iteration env o1 w = (w', r)"
  shows "wk_coordinator w' = wk_coordinator w \<and> wk_started w' = wk_started w \<and> wk_committer w' = wk_committer w \<and>
    wk_store w' = wk_store w \<and> wk_shutdown_ack w' = wk_shutdown_ack w \<and>
    (wk_startup w' = wk_startup w \<or> wk_startup w = None \<and> wk_committer w \<noteq> None \<and>
       wk_startup w' = Some (Inr (started_list (wk_started w)))) \<and>
    (r = Some (Inr ()) \<longrightarrow> wk_shutdown_sent w' \<and> wk_shutdown_ack w)"
  using assms by (auto simp: finish_iteration_def Let_def send_startup_def split: if_splits prod.splits sum.splits)

lemma worker_iteration_stopped:
  assumes "worker_iteration env controls w = (w', r)" "stopped_when_sent w" "r = None"
  shows "stopped_when_sent w'"
  using assms(1)
proof (cases rule: worker_iteration_cases)
  case (event ev t w1)
  let ?w = "fold (handle_control env) controls w"
  have w1: "wk_coordinator w1 = wk_coordinator ?w \<and> wk_shutdown_sent w1 = wk_shutdown_sent w"
    using event(2) note_started_rest [of env _ "?w\<lparr>wk_transport := t\<rparr>" w1] by auto
  let ?a = "w1\<lparr>wk_shutdown_ack := wk_shutdown_ack w1 \<or> ev = Some HdrShutdownAck\<rparr>"
  obtain c k q where h: "handle_event (committer_for ?a) ev (wk_coordinator ?a) (wk_store ?a) = (c, k, q)"
    by (cases "handle_event (committer_for ?a) ev (wk_coordinator ?a) (wk_store ?a)")
  show ?thesis
  proof (cases q)
    case (Inl e)
    with event(3) h assms(3) show ?thesis
      by (auto simp: handle_worker_event_def Let_def split: if_splits)
  next
    case (Inr out)
    with event(3) h assms(3) have f: "finish_iteration env out (?a\<lparr>wk_coordinator := c, wk_store := k\<rparr>) = (w', None)"
      by (auto simp: handle_worker_event_def Let_def split: if_splits)
    show ?thesis
    proof (cases "wk_shutdown_sent w")
      case True
      then have "phase (wk_coordinator ?w) = PhStopped"
        using assms(2) controls_stopped [of w env controls] by (simp add: stopped_when_sent_def)
      with h Inr w1 have False by (simp add: handle_event_def ensure_not_failed_def draining_def)
      then show ?thesis ..
    next
      case False
      then have "\<not> wk_shutdown_sent (?a\<lparr>wk_coordinator := c, wk_store := k\<rparr>)" using w1 by simp
      from finish_iteration_sent [OF f _ this] have "wk_shutdown_sent w' \<Longrightarrow> out = Complete \<and> wk_coordinator w' = c"
        by simp
      with handle_event_complete h Inr show ?thesis by (auto simp: stopped_when_sent_def)
    qed
  qed
qed (use assms(3) in simp_all)

lemma run_worker_stopped:
  "run_worker env batches w = (w', None) \<Longrightarrow> stopped_when_sent w \<Longrightarrow> stopped_when_sent w'"
proof (induction batches arbitrary: w)
  case (Cons controls batches)
  obtain w1 r where i: "worker_iteration env controls w = (w1, r)" by (cases "worker_iteration env controls w")
  with Cons.prems(1) have "r = None" "run_worker env batches w1 = (w', None)" by (auto split: option.splits)
  with Cons.IH worker_iteration_stopped [OF i Cons.prems(2)] show ?case by blast
qed simp

lemma new_worker_flags:
  "new_worker env t store = Inr w \<Longrightarrow> \<not> wk_shutdown_sent w \<and> wk_committer w = None \<and> wk_started w = Map.empty \<and>
     wk_startup w = None \<and> wk_store w = store"
  by (auto simp: new_worker_def split: sum.splits prod.splits)

text \<open>
  Once the worker has sent the shutdown command and the helper has not acknowledged before, it can
  only end in an error: the next helper event, whatever it is, ends the loop - and the helper's
  acknowledgement itself is answered with the error \<open>InvalidState("drain")\<close>, because the drained
  coordinator takes no more events.
\<close>

theorem shutdown_ends_in_error:
  assumes "new_worker env t store = Inr w0" "run_worker env batches w0 = (w, None)" "wk_shutdown_sent w"
  shows "\<exists>w' e. worker_iteration env controls w = (w', Some (Inl e)) \<and>
    (tr_next_event (we_transport env) (wk_transport w) = (Inr (Some HdrShutdownAck), t') \<longrightarrow>
       e = SessionInvalidState ''drain'')"
proof -
  have "stopped_when_sent w0" using new_worker_flags [OF assms(1)] by (simp add: stopped_when_sent_def)
  from run_worker_stopped [OF assms(2) this] assms(3) have stopped: "phase (wk_coordinator w) = PhStopped"
    by (simp add: stopped_when_sent_def)
  let ?w = "fold (handle_control env) controls w"
  note same = controls_stopped [OF stopped, of env controls]
  obtain w' r where run: "worker_iteration env controls w = (w', r)" by (cases "worker_iteration env controls w")
  from run show ?thesis
  proof (cases rule: worker_iteration_cases)
    case (event ev t w1)
    have w1: "wk_coordinator w1 = wk_coordinator w"
      using event(2) note_started_rest [of env _ "?w\<lparr>wk_transport := t\<rparr>" w1] same by auto
    have "handle_event cm ev (wk_coordinator w1) k = (wk_coordinator w1, k, Inl (InvalidState ''drain''))"
      for cm :: "committer_state committer" and k
      using stopped w1 by (simp add: handle_event_def ensure_not_failed_def draining_def)
    then have "r = Some (Inl SessionProtocolViolation) \<and> is_chunk_sealed ev \<or> r = Some (Inl (SessionInvalidState ''drain''))"
      using event(3) by (auto simp: handle_worker_event_def Let_def split: if_splits)
    moreover have "ev = Some HdrShutdownAck"
      if "tr_next_event (we_transport env) (wk_transport w) = (Inr (Some HdrShutdownAck), t')"
      using event(1) same that by simp
    ultimately show ?thesis using run by auto
  qed (use run same in auto)
qed

text \<open>A helper that plays a script, and acknowledges the shutdown command when it gets it.\<close>

definition script_transport :: "CaptureHeader option list transport_ops" where
  "script_transport = \<lparr>tr_preflight_source = (\<lambda>_ t. (Inr (), t)), tr_start_sources = (\<lambda>_ _ t. (Inr (), t)),
     tr_pause = (\<lambda>t. (Inr (), t)), tr_resume = (\<lambda>t. (Inr (), t)), tr_stop = (\<lambda>t. (Inr (), t)),
     tr_shutdown = (\<lambda>t. (Inr (), t @ [Some HdrShutdownAck])),
     tr_next_event = (\<lambda>t. case t of [] \<Rightarrow> (Inl HelperExited, []) | ev # t \<Rightarrow> (Inr ev, t))\<rparr>"

definition demo_started :: SourceStarted where
  "demo_started = \<lparr>started_source = SrcMicrophone, started_device_id = ''mic'', started_device_name = ''m'',
     started_sample_rate = 16000, started_channel_count = 1, started_host_time = 1000000\<rparr>"

definition demo_stopped :: SourceStopped where
  "demo_stopped = \<lparr>stopped_source = SrcMicrophone, stopped_final_sequence = 3,
     stopped_start_host_time = 1, stopped_end_host_time = 9\<rparr>"

definition demo_worker_env :: "CaptureHeader option list worker_env" where
  "demo_worker_env = \<lparr>we_transport = script_transport, we_requests = requests_for_mode MicOnly,
     we_microphone = Some ''mic'', we_session_id = ''s'', we_seal_env = cfg_env demo_config,
     we_after_commit = (\<lambda>_ cat. (Inr (), jobs cat)), we_utc_now = (\<lambda>n. int n), we_source_uuid = (\<lambda>_. ''u''),
     we_open_error = None, we_error_text = (\<lambda>_. []), we_summary = (\<lambda>s. s)\<rparr>"

definition demo_script :: "CaptureHeader option list" where
  "demo_script = [Some (HdrSourceStarted demo_started), Some (HdrSourceStopped demo_stopped), None]"

lemma demo_shutdown:
  "case new_worker demo_worker_env demo_script demo_committer of Inl _ \<Rightarrow> False
   | Inr w0 \<Rightarrow> (case run_worker demo_worker_env [[], [ControlStop], []] w0 of (w, r) \<Rightarrow>
       r = None \<and> wk_shutdown_sent w \<and> wk_transport w = [Some HdrShutdownAck] \<and>
       wk_startup w = Some (Inr [demo_started]))"
  by code_simp

theorem shutdown_ends_in_error_witness:
  "\<exists>w w'. wk_shutdown_sent w \<and> tr_next_event script_transport (wk_transport w) = (Inr (Some HdrShutdownAck), []) \<and>
     worker_iteration demo_worker_env [] w = (w', Some (Inl (SessionInvalidState ''drain'')))"
proof -
  obtain w0 where n: "new_worker demo_worker_env demo_script demo_committer = Inr w0"
    using demo_shutdown by (auto split: sum.splits)
  obtain w where r: "run_worker demo_worker_env [[], [ControlStop], []] w0 = (w, None)"
    and w: "wk_shutdown_sent w" "wk_transport w = [Some HdrShutdownAck]"
    using demo_shutdown n by (auto split: prod.splits)
  have t: "tr_next_event script_transport (wk_transport w) = (Inr (Some HdrShutdownAck), [])"
    by (simp add: w(2) script_transport_def)
  have "we_transport demo_worker_env = script_transport" by (simp add: demo_worker_env_def)
  with t w shutdown_ends_in_error [OF n r w(1), of "[]" "[]"] show ?thesis by auto
qed

subsection \<open>A capture that is reported as started\<close>

lemma sources_of_update:
  "capture_sources (catalog_of (cm_files (k\<lparr>cm_files := files\<lparr>catalog_of := cat\<rparr>, cm_calls := n\<rparr>))) = capture_sources cat"
  by simp

lemma commit_keeps_sources:
  assumes "commit cfg sl k = (r, k')"
  shows "capture_sources (catalog_of (cm_files k')) = capture_sources (catalog_of (cm_files k))"
proof -
  have s: "capture_sources (catalog_of files) = capture_sources (catalog_of s0)" if st: "settled env req s0 files" for env req s0 files
  proof -
    consider "catalog_of files = catalog_of s0"
      | c t out where "insert_native_capture_chunk c t (catalog_of s0) = Inr (out, catalog_of files)"
      using st by (auto simp: settled_def at_rest_def moved_def entered_def)
    then show ?thesis
    proof cases
      case 2
      have "catalog_of files = (if out = Inserted then with_native_chunk c t (catalog_of s0) else catalog_of s0)"
        using native_insert_stored [OF 2] by blast
      then show ?thesis by simp
    qed simp
  qed
  have j: "capture_sources (cat\<lparr>jobs := q\<rparr>) = capture_sources cat" for cat :: catalog and q by simp
  have n: "capture_sources (catalog_of (cm_files k')) = capture_sources (catalog_of (cm_files k0))"
    if "seal_and_notify cfg req k0 = (r, k')" for req k0
  proof -
    obtain x n files where run: "seal (cfg_env cfg) req (cm_calls k0) (cm_files k0) = (x, n, files)"
      by (cases "seal (cfg_env cfg) req (cm_calls k0) (cm_files k0)")
    note keep = s [OF attempt_settled [OF run]]
    show ?thesis
    proof (cases x)
      case (Inl e)
      with that run keep show ?thesis by (auto simp: seal_and_notify_def)
    next
      case (Inr c)
      obtain q rest where q: "cfg_after_commit cfg c (catalog_of files) = (rest, q)"
        by (cases "cfg_after_commit cfg c (catalog_of files)")
      have k': "k' = k0\<lparr>cm_files := files\<lparr>catalog_of := (catalog_of files)\<lparr>jobs := q\<rparr>\<rparr>, cm_calls := n\<rparr>"
        using that run Inr q by (simp add: seal_and_notify_def)
      show ?thesis unfolding k' sources_of_update j by (rule keep)
    qed
  qed
  from assms consider "k' = k \<or> (\<exists>m. k' = k\<lparr>cm_sequences := m\<rparr>)"
    | req m where "seal_and_notify cfg req (k\<lparr>cm_sequences := m\<rparr>) = (r, k')"
    unfolding commit_def Let_def by (auto split: option.splits if_splits)
  then show ?thesis
  proof cases
    case 2
    from n [OF this] show ?thesis by simp
  qed auto
qed

lemma handle_event_sources:
  assumes "handle_event (committer_for w) ev c k = (c', k', r)"
  shows "capture_sources (catalog_of (cm_files k')) = capture_sources (catalog_of (cm_files k))"
proof -
  have cm: "capture_sources (catalog_of (cm_files q')) = capture_sources (catalog_of (cm_files q))"
    if "committer_for w sl q = (x, q')" for sl q x q'
    using that commit_keeps_sources
    by (auto simp: committer_for_def pending_committer_def split: option.splits)
  show ?thesis
  proof (cases "ensure_not_failed c = Inr () \<and> draining c")
    case False
    with assms show ?thesis by (auto simp: handle_event_def split: sum.splits if_splits)
  next
    case True
    with assms have h: "handle_header (committer_for w) ev c k = (c', k', r)" by (simp add: handle_event_def)
    show ?thesis
    proof (cases ev)
      case None
      with h show ?thesis by (auto simp: Let_def split: prod.splits)
    next
      case (Some hdr)
      with h show ?thesis
        by (cases hdr) (auto simp: Let_def enter_failed_def dest: cm split: prod.splits sum.splits if_splits)
    qed
  qed
qed

text \<open>The row that \<open>register_capture_sources\<close> leaves for a source.\<close>

definition source_registered :: "'t worker_env \<Rightarrow> catalog \<Rightarrow> Source \<Rightarrow> bool" where
  "source_registered env cat s \<longleftrightarrow> (\<exists>r \<in> set (capture_sources cat). source_id r = source_id_of env s \<and>
     source_session_id r = we_session_id env \<and> source_source r = audio_source s \<and>
     (s = SrcMicrophone \<longrightarrow> we_microphone env = None \<or> we_microphone env = Some (source_device_uid r)))"

definition worker_honest :: "'t worker_env \<Rightarrow> 't worker \<Rightarrow> bool" where
  "worker_honest env w \<longleftrightarrow>
     (\<forall>s st. wk_started w s = Some st \<longrightarrow> started_source st = s \<and> s \<in> set (enabled_set env) \<and>
        (s = SrcMicrophone \<longrightarrow> we_microphone env = None \<or> we_microphone env = Some (started_device_id st))) \<and>
     (wk_committer w \<noteq> None \<longrightarrow> (\<forall>s \<in> set (enabled_set env).
        source_registered env (catalog_of (cm_files (wk_store w))) s)) \<and>
     (\<forall>l. wk_startup w = Some (Inr l) \<longrightarrow> wk_committer w \<noteq> None)"

lemma insert_sources_rows:
  "insert_capture_sources_atomic rs cat = Inr cat' \<Longrightarrow> capture_sources cat' = capture_sources cat @ rs"
proof (induction rs arbitrary: cat)
  case (Cons r rs)
  then obtain c1 where "insert_capture_source r cat = Inr c1" "insert_capture_sources_atomic rs c1 = Inr cat'"
    by (auto simp: and_then_Inr_iff simp del: insert_capture_source_Inr)
  with Cons.IH show ?case by (auto simp: insert_capture_source_Inr)
qed simp

lemma all_started:
  assumes "\<forall>s st. m s = Some st \<longrightarrow> s \<in> set (enabled_set env)" "length (started_list m) = length (enabled_set env)"
    and "s \<in> set (enabled_set env)"
  shows "m s \<noteq> None"
proof -
  have len: "length (started_list m) = length (filter (\<lambda>s. m s \<noteq> None) [SrcMicrophone, SrcSystemAudio])"
    by (auto simp: started_list_def List.map_filter_def)
  have sub: "set (filter (\<lambda>s. m s \<noteq> None) [SrcMicrophone, SrcSystemAudio]) \<subseteq> set (enabled_set env)"
    using assms(1) by auto
  have d: "distinct (filter (\<lambda>s. m s \<noteq> None) [SrcMicrophone, SrcSystemAudio])" "distinct (enabled_set env)"
    unfolding enabled_set_def by (intro distinct_filter; simp)+
  have "card (set (filter (\<lambda>s. m s \<noteq> None) [SrcMicrophone, SrcSystemAudio])) = card (set (enabled_set env))"
    using assms(2) by (simp only: distinct_card [OF d(1)] distinct_card [OF d(2)] len [symmetric])
  then have "set (filter (\<lambda>s. m s \<noteq> None) [SrcMicrophone, SrcSystemAudio]) = set (enabled_set env)"
    by (intro card_subset_eq [OF finite_set sub])
  with assms(3) have "s \<in> set (filter (\<lambda>s. m s \<noteq> None) [SrcMicrophone, SrcSystemAudio])" by blast
  then show ?thesis unfolding set_filter by blast
qed

lemma started_list_mem: "m s = Some st \<Longrightarrow> st \<in> set (started_list m)"
  by (cases s) (auto simp: started_list_def List.map_filter_def)

lemma honest_same:
  assumes "worker_honest env w" "wk_started w' = wk_started w" "wk_committer w' = wk_committer w"
    and "capture_sources (catalog_of (cm_files (wk_store w'))) = capture_sources (catalog_of (cm_files (wk_store w)))"
    and "wk_startup w' = wk_startup w \<or> (\<exists>e. wk_startup w' = Some (Inl e)) \<or> wk_committer w \<noteq> None"
  shows "worker_honest env w'"
proof -
  have "source_registered env (catalog_of (cm_files (wk_store w'))) = source_registered env (catalog_of (cm_files (wk_store w)))"
    by (rule ext) (simp add: source_registered_def assms(4))
  with assms show ?thesis unfolding worker_honest_def by auto
qed

lemma set_catalog_fields [simp]:
  "wk_started (set_catalog cat w) = wk_started w" "wk_committer (set_catalog cat w) = wk_committer w"
  "wk_startup (set_catalog cat w) = wk_startup w" "catalog_of (cm_files (wk_store (set_catalog cat w))) = cat"
  by (simp_all add: set_catalog_def)

lemma honest_note_started:
  assumes hon: "worker_honest env w" and run: "note_started env st w = (w', r)"
  shows "worker_honest env w'"
proof (cases "started_source st \<in> set (enabled_set env) \<and> \<not> (started_source st = SrcMicrophone \<and>
    (case we_microphone env of None \<Rightarrow> False | Some uid \<Rightarrow> started_device_id st \<noteq> uid))")
  case False
  then have "w' = w \<or> (\<exists>e. w' = send_startup (Inl e) w)"
    using run by (auto simp: note_started_def Let_def split: if_splits)
  then show ?thesis using honest_same [OF hon, of w'] by (auto simp: send_startup_def)
next
  case True
  let ?w = "w\<lparr>wk_started := (wk_started w)(started_source st \<mapsto> st)\<rparr>"
  have h: "worker_honest env ?w"
    using hon True by (auto simp: worker_honest_def split: option.splits)
  show ?thesis
  proof (cases "wk_committer w = None \<and> length (started_list (wk_started ?w)) = length (enabled_set env)")
    case False
    with run True have "w' = ?w" by (auto simp: note_started_def Let_def split: if_splits)
    with h show ?thesis by simp
  next
    case all: True
    then have o: "open_committer env ?w = (w', r)" using run True by (simp add: note_started_def Let_def)
    let ?cat = "catalog_of (cm_files (wk_store w))"
    have started: "\<forall>s. s \<in> set (enabled_set env) \<longrightarrow> wk_started ?w s \<noteq> None"
      using all_started [of "wk_started ?w" env] all h unfolding worker_honest_def by blast
    show ?thesis
    proof (cases "register_capture_sources env (we_utc_now env (cm_calls (wk_store w))) (wk_started ?w) ?cat")
      case (Inl e)
      with o have "w' = ?w" by (simp add: open_committer_def)
      with h show ?thesis by simp
    next
      case (Inr ic)
      obtain ids cat where ic: "ic = (ids, cat)" by (cases ic)
      let ?now = "we_utc_now env (cm_calls (wk_store w))"
      have rows: "capture_sources cat = capture_sources ?cat @ map (source_record env ?now) (started_list (wk_started ?w))"
        using Inr ic by (auto simp: register_capture_sources_def and_then_Inr_iff map_err_Inr_iff dest: insert_sources_rows)
      have reg: "source_registered env cat s" if mem: "s \<in> set (enabled_set env)" for s
      proof -
        obtain v where v: "wk_started ?w s = Some v" using started mem by blast
        have "started_source v = s \<and> (s = SrcMicrophone \<longrightarrow> we_microphone env = None \<or> we_microphone env = Some (started_device_id v))"
          using h v unfolding worker_honest_def by blast
        moreover have "source_record env ?now v \<in> set (capture_sources cat)"
          unfolding rows using started_list_mem [of "wk_started ?w" s v] v by (simp only: set_append set_map) blast
        ultimately show ?thesis unfolding source_registered_def
          by (intro bexI [of _ "source_record env ?now v"]) (simp_all add: source_record_def)
      qed
      have shape: "wk_started w' = wk_started ?w \<and> catalog_of (cm_files (wk_store w')) = cat \<and>
          (wk_startup w' = wk_startup w \<or> wk_committer w' \<noteq> None)"
      proof (cases "anchor_of (started_list (wk_started ?w))")
        case None
        with o Inr ic have "w' = set_catalog cat ?w" by (simp add: open_committer_def)
        then show ?thesis by simp
      next
        case (Some a)
        show ?thesis
        proof (cases "we_open_error env")
          case None
          with o Inr ic Some obtain cfg where "w' = send_startup (Inr (started_list (wk_started ?w)))
              ((set_catalog cat ?w)\<lparr>wk_committer := Some cfg\<rparr>)" by (auto simp: open_committer_def Let_def)
          then show ?thesis by simp
        next
          case (Some tx)
          with o Inr ic \<open>anchor_of (started_list (wk_started ?w)) = Some a\<close>
          have "w' = set_catalog cat ?w" by (simp add: open_committer_def)
          then show ?thesis by simp
        qed
      qed
      have "wk_startup w = Some (Inr l) \<Longrightarrow> False" for l using hon all unfolding worker_honest_def by blast
      with shape have c: "wk_startup w' = Some (Inr l) \<longrightarrow> wk_committer w' \<noteq> None" for l by auto
      have b: "\<forall>s \<in> set (enabled_set env). source_registered env (catalog_of (cm_files (wk_store w'))) s"
        using reg shape by (simp only:) blast
      show ?thesis
        unfolding worker_honest_def conjunct1 [OF shape]
        by (intro conjI allI impI b c [THEN mp]) (use h in \<open>unfold worker_honest_def, blast\<close>)+
    qed
  qed
qed

lemma honest_iteration:
  assumes "worker_iteration env controls w = (w', r)" "worker_honest env w"
  shows "worker_honest env w'"
  using assms(1)
proof (cases rule: worker_iteration_cases)
  case (transport e t)
  then show ?thesis by (intro honest_same [OF assms(2)]) (auto simp: send_startup_def)
next
  case (refused st t e)
  have "worker_honest env ((fold (handle_control env) controls w)\<lparr>wk_transport := t\<rparr>)"
    by (rule honest_same [OF assms(2)]) simp_all
  then show ?thesis by (rule honest_note_started [OF _ refused(2)])
next
  case (event ev t w1)
  have "worker_honest env ((fold (handle_control env) controls w)\<lparr>wk_transport := t\<rparr>)"
    by (rule honest_same [OF assms(2)]) simp_all
  then have h1: "worker_honest env w1" using event(2) honest_note_started by blast
  show ?thesis
  proof (cases "is_chunk_sealed ev \<and> wk_committer w1 = None")
    case True
    with event(3) have "w' = send_startup (Inl SessionProtocolViolation) w1" by (simp add: handle_worker_event_def)
    then show ?thesis by (intro honest_same [OF h1]) (auto simp: send_startup_def)
  next
    case False
    let ?a = "w1\<lparr>wk_shutdown_ack := wk_shutdown_ack w1 \<or> ev = Some HdrShutdownAck\<rparr>"
    obtain c k q where e: "handle_event (committer_for ?a) ev (wk_coordinator ?a) (wk_store ?a) = (c, k, q)"
      by (cases "handle_event (committer_for ?a) ev (wk_coordinator ?a) (wk_store ?a)")
    note src = handle_event_sources [OF e]
    note ev3 = event(3) [unfolded handle_worker_event_def if_not_P [OF False] Let_def e prod.case]
    show ?thesis
    proof (cases q)
      case (Inl x)
      with ev3 have "w' = send_startup (Inl (session_error_of x)) (?a\<lparr>wk_coordinator := c, wk_store := k\<rparr>)" by simp
      then show ?thesis using src by (intro honest_same [OF h1]) (auto simp: send_startup_def)
    next
      case (Inr out)
      with ev3 have "finish_iteration env out (?a\<lparr>wk_coordinator := c, wk_store := k\<rparr>) = (w', r)" by simp
      from finish_iteration_keeps [OF this] src show ?thesis by (intro honest_same [OF h1]) auto
    qed
  qed
qed

lemma honest_run:
  "run_worker env batches w = (w', r) \<Longrightarrow> worker_honest env w \<Longrightarrow> worker_honest env w'"
proof (induction batches arbitrary: w)
  case (Cons controls batches)
  obtain w1 q where i: "worker_iteration env controls w = (w1, q)" by (cases "worker_iteration env controls w")
  from honest_iteration [OF i Cons.prems(2)] have h: "worker_honest env w1" .
  from Cons i h show ?case by (cases q) auto
qed simp

text \<open>
  C22: A capture that is reported as started has really started: when the worker has told the caller so,
  at whatever later point, every requested stream has a source row of its own in the catalog under this
  session - and the row of the microphone names exactly the device the user selected, whatever device
  the helper tried to record from.
\<close>

theorem started_means_registered:
  assumes "new_worker env t store = Inr w0" "run_worker env batches w0 = (w, r)"
    and "wk_startup w = Some (Inr sources)" "s \<in> set (enabled_set env)"
  shows "\<exists>row \<in> set (capture_sources (catalog_of (cm_files (wk_store w)))).
    source_session_id row = we_session_id env \<and> source_source row = audio_source s \<and>
    (s = SrcMicrophone \<longrightarrow> we_microphone env = None \<or> we_microphone env = Some (source_device_uid row))"
proof -
  have "worker_honest env w0" using new_worker_flags [OF assms(1)] by (simp add: worker_honest_def)
  from honest_run [OF assms(2) this] assms(3,4)
  have "source_registered env (catalog_of (cm_files (wk_store w))) s" unfolding worker_honest_def by blast
  then show ?thesis unfolding source_registered_def by blast
qed

theorem started_means_registered_witness:
  "\<exists>w0 w row. run_worker demo_worker_env [[], [ControlStop], []] w0 = (w, None) \<and>
     wk_startup w = Some (Inr [demo_started]) \<and>
     row \<in> set (capture_sources (catalog_of (cm_files (wk_store w)))) \<and> source_device_uid row = ''mic''"
proof -
  obtain w0 where n: "new_worker demo_worker_env demo_script demo_committer = Inr w0"
    using demo_shutdown by (auto split: sum.splits)
  obtain w where r: "run_worker demo_worker_env [[], [ControlStop], []] w0 = (w, None)"
    and w: "wk_startup w = Some (Inr [demo_started])"
    using demo_shutdown n by (auto split: prod.splits)
  have "SrcMicrophone \<in> set (enabled_set demo_worker_env)" by code_simp
  from started_means_registered [OF n r w this] obtain row where
    "row \<in> set (capture_sources (catalog_of (cm_files (wk_store w))))"
    "we_microphone demo_worker_env = None \<or> we_microphone demo_worker_env = Some (source_device_uid row)"
    by blast
  moreover have "we_microphone demo_worker_env = Some ''mic''" by (simp add: demo_worker_env_def)
  ultimately show ?thesis using r w by auto
qed

end
