(* ===== verification/Json.thy ===== *)
theory Json
  imports Domain
begin

section \<open>JSON values and the libraries behind them\<close>

text \<open>
  \<open>serde_json::Value\<close> with the accessors the program uses.  An object is the list of its entries in
  the order of its map, which is the byte order of the keys, each key once.  Parsing, printing,
  canonical printing (RFC 8785), SHA-256 and URL parsing are libraries: a record of functions that
  every operation using one takes as its argument.
\<close>

datatype json_number = PosInt u64 | NegInt int | FloatNumber string

datatype json =
    JNull
  | JBool bool
  | JNumber json_number
  | JString string
  | JArray "json list"
  | JObject "(string \<times> json) list"

type_synonym json_object = "(string \<times> json) list"

fun as_object :: "json \<Rightarrow> json_object option" where
  "as_object (JObject members) = Some members"
| "as_object _ = None"

fun as_array :: "json \<Rightarrow> json list option" where
  "as_array (JArray vs) = Some vs"
| "as_array _ = None"

fun value_str :: "json \<Rightarrow> string option" where
  "value_str (JString s) = Some s"
| "value_str _ = None"

fun as_bool :: "json \<Rightarrow> bool option" where
  "as_bool (JBool b) = Some b"
| "as_bool _ = None"

fun as_u64 :: "json \<Rightarrow> u64 option" where
  "as_u64 (JNumber (PosInt n)) = Some n"
| "as_u64 _ = None"

text \<open>\<open>Value::get\<close>, which finds nothing in a value that is not an object.\<close>

definition json_get :: "json \<Rightarrow> string \<Rightarrow> json option" where
  "json_get v k = (case as_object v of None \<Rightarrow> None | Some members \<Rightarrow> map_of members k)"

text \<open>\<open>and_then\<close> on an optional value.\<close>

definition field_as :: "('v \<Rightarrow> 'a option) \<Rightarrow> 'v option \<Rightarrow> 'a option" where
  "field_as f v = Option.bind v f"

lemma field_as_simps [simp]: "field_as f (Some v) = f v" "field_as f None = None"
  by (simp_all add: field_as_def)

lemma field_as_Some_iff: "field_as f v = Some y \<longleftrightarrow> (\<exists>x. v = Some x \<and> f x = Some y)"
  by (cases v) (simp_all add: field_as_def)

definition exact_keys :: "json_object \<Rightarrow> string list \<Rightarrow> bool" where
  "exact_keys members expected \<longleftrightarrow>
     length members = length expected \<and> list_all (\<lambda>k. map_of members k \<noteq> None) expected"

text \<open>What \<open>reqwest::Url\<close> tells about a parsed address; the port is \<open>port_or_known_default\<close>.\<close>

record url_parts =
  url_scheme :: string
  url_host :: "string option"
  url_port :: "u16 option"
  url_username :: string
  url_password :: "string option"
  url_fragment :: "string option"

record libraries =
  lib_parse :: "string \<Rightarrow> json option"
  lib_print :: "json \<Rightarrow> string option"
  lib_canonical :: "json \<Rightarrow> string option"
  lib_sha256_hex :: "string \<Rightarrow> string"
  lib_parse_url :: "string \<Rightarrow> url_parts option"

text \<open>
  The part of the libraries' documented behaviour the development relies on: what they print for a
  value parses to that value again.
\<close>

definition prints_faithfully :: "'z libraries_scheme \<Rightarrow> json \<Rightarrow> bool" where
  "prints_faithfully lib v \<longleftrightarrow>
     (case lib_print lib v of None \<Rightarrow> False | Some s \<Rightarrow> lib_parse lib s = Some v) \<and>
     (case lib_canonical lib v of None \<Rightarrow> False | Some s \<Rightarrow> lib_parse lib s = Some v)"

lemma prints_faithfullyE:
  assumes "prints_faithfully lib v"
  obtains s c where "lib_print lib v = Some s" "lib_parse lib s = Some v"
    "lib_canonical lib v = Some c" "lib_parse lib c = Some v"
  using assms by (auto simp: prints_faithfully_def split: option.splits)

subsection \<open>Texts inside a value\<close>

text \<open>\<open>str::contains\<close>.\<close>

fun contains_text :: "string \<Rightarrow> string \<Rightarrow> bool" where
  "contains_text pat [] = (pat = [])"
| "contains_text pat (c # s) = (prefix pat (c # s) \<or> contains_text pat s)"

lemma contains_text_iff: "contains_text pat s \<longleftrightarrow> sublist pat s"
  by (induction s) (auto simp: sublist_Cons_right)

text \<open>A digest text: 64 lower-case hexadecimal digits, not all zero.\<close>

definition is_lower_hex :: "char \<Rightarrow> bool" where
  "is_lower_hex c \<longleftrightarrow> is_ascii_digit c \<or> (CHR ''a'' \<le> c \<and> c \<le> CHR ''f'')"

definition lower_sha256 :: "string \<Rightarrow> bool" where
  "lower_sha256 s \<longleftrightarrow> length s = 64 \<and> list_all is_lower_hex s \<and> s \<noteq> replicate 64 (CHR ''0'')"

text \<open>A text that says something: not blank and not a placeholder.\<close>

definition placeholder :: "string \<Rightarrow> bool" where
  "placeholder s \<longleftrightarrow> is_blank s \<or> contains_text ''TODO'' s \<or> contains_text ''PLACEHOLDER'' s \<or> s = ''null''"

text \<open>A host name: at most 253 bytes of dot-separated labels.\<close>

definition valid_label :: "string \<Rightarrow> bool" where
  "valid_label l \<longleftrightarrow> l \<noteq> [] \<and> length l \<le> 63 \<and> hd l \<noteq> CHR ''-'' \<and> last l \<noteq> CHR ''-'' \<and>
     list_all (\<lambda>c. is_ascii_lowercase c \<or> is_ascii_digit c \<or> c = CHR ''-'') l"

definition valid_hostname :: "string \<Rightarrow> bool" where
  "valid_hostname host \<longleftrightarrow>
     host \<noteq> [] \<and> length host \<le> 253 \<and> list_all valid_label (split_on CHR ''.'' host)"

definition is_ascii_uppercase :: "char \<Rightarrow> bool" where
  "is_ascii_uppercase c \<longleftrightarrow> CHR ''A'' \<le> c \<and> c \<le> CHR ''Z''"

lemma hex_bits [code]:
  "is_lower_hex (Char b0 b1 b2 b3 b4 b5 b6 b7) \<longleftrightarrow> \<not> b7 \<and> b5 \<and>
     (if b6 then \<not> b4 \<and> \<not> b3 \<and> (b2 \<or> b1 \<or> b0) \<and> \<not> (b2 \<and> b1 \<and> b0)
      else b4 \<and> (b3 \<longrightarrow> \<not> b2 \<and> \<not> b1))"
  "is_ascii_uppercase (Char b0 b1 b2 b3 b4 b5 b6 b7) \<longleftrightarrow>
     \<not> b7 \<and> b6 \<and> \<not> b5 \<and> (b0 \<or> b1 \<or> b2 \<or> b3 \<or> b4) \<and> (b4 \<and> b3 \<longrightarrow> \<not> b2 \<and> \<not> (b1 \<and> b0))"
  by (cases b0; cases b1; cases b2; cases b3; cases b4; cases b5; cases b6; cases b7;
      simp add: is_lower_hex_def is_ascii_digit_def is_ascii_uppercase_def less_eq_char_def)+

text \<open>The part of an address between \<open>https://\<close> and the next slash.\<close>

definition https_authority :: "string \<Rightarrow> string option" where
  "https_authority value = (case strip_prefix ''https://'' value of
      None \<Rightarrow> None | Some rest \<Rightarrow> Some (hd (split_on CHR ''/'' rest)))"

text \<open>What both the registry and the snapshot ask of a parsed address.\<close>

definition plain_https :: "url_parts \<Rightarrow> bool" where
  "plain_https u \<longleftrightarrow> url_scheme u = ''https'' \<and> url_host u \<noteq> None \<and> url_port u = Some 443 \<and>
     url_username u = [] \<and> url_password u = None \<and> url_fragment u = None"

text \<open>\<open>windows(2)\<close> with every pair increasing.\<close>

fun strictly_increasing :: "string list \<Rightarrow> bool" where
  "strictly_increasing (x # y # rest) = (x < y \<and> strictly_increasing (y # rest))"
| "strictly_increasing _ = True"

end
