(* ===== verification/Manifest.thy ===== *)
theory Manifest
  imports Json Complex_Main
begin

section \<open>The model registry's data: \<open>asr/manifest.rs\<close>\<close>

text \<open>
  The speech models the program can install: for each its artifacts with their sources, sizes and
  digests, the files an installation must contain, the runtime it needs and the device it runs on.
  The registry is a constant of the program and is written out here as the source has it.  An
  \<open>f32\<close> is its exact value, \<open>None\<close> for the infinities and NaN; the two constants compared by their
  bits are not zero, so equal bits are equal values.
\<close>

subsection \<open>Types\<close>

type_synonym f32 = "rat option"

datatype ArtifactInstallMode = InstallDirect | InstallExtractTarBz2

record ArtifactFile =
  artifact_id :: string
  artifact_source_repository :: string
  artifact_source_model :: string
  artifact_source_endpoint :: string
  artifact_resolved_url :: string
  artifact_revision :: string
  artifact_bytes :: u64
  artifact_sha256 :: string
  artifact_required_path :: string
  artifact_required :: bool
  artifact_install_mode :: ArtifactInstallMode
  artifact_license_spdx :: string
  artifact_provenance :: string
  artifact_redirect_hosts :: "string list"

record RequiredInstallFile =
  install_path :: string
  install_bytes :: u64
  install_sha256 :: string

record ArchiveInstallConstraints =
  archive_max_scanned_entries :: u64
  archive_max_written_file_bytes :: u64
  archive_max_total_written_bytes :: u64
  archive_required_files :: "RequiredInstallFile list"

record DirectInstallConstraints =
  direct_max_written_file_bytes :: u64
  direct_max_total_written_bytes :: u64
  direct_required_files :: "RequiredInstallFile list"

datatype InstallConstraints = Archive ArchiveInstallConstraints | Direct DirectInstallConstraints

record ArtifactBundle =
  bundle_artifacts :: "ArtifactFile list"
  bundle_required_paths :: "string list"
  bundle_identity_sha256 :: string
  bundle_install_constraints :: InstallConstraints

text \<open>The arguments are, in order, the fields of the source's variants.\<close>

datatype RuntimeRequirement =
    SherpaOnnx string string string string string
  | QwenCandleMetal string string string string string string string

datatype DeviceRequirement = AnyDesktop | AppleSiliconMetal u16 u16

datatype QualificationPolicy = StructuralWithPinnedRuntime | RuntimeSmokeRequired

record ModelSource =
  source_repository_url :: string
  source_model_card_url :: string
  source_license_spdx :: string
  source_provenance :: string

record ModelManifest =
  manifest_id :: string
  manifest_version :: string
  manifest_display_name :: string
  manifest_provider :: AsrProviderKind
  manifest_languages :: "string list"
  manifest_bundle :: ArtifactBundle
  manifest_runtime :: RuntimeRequirement
  manifest_device :: DeviceRequirement
  manifest_qualification :: QualificationPolicy
  manifest_source :: ModelSource

record VadManifest =
  vad_id :: string
  vad_version :: string
  vad_bundle :: ArtifactBundle
  vad_runtime :: RuntimeRequirement
  vad_qualification :: QualificationPolicy
  vad_source :: ModelSource
  vad_sherpa_version :: string
  vad_sherpa_commit :: string
  vad_silero_header :: string
  vad_config_header :: string
  vad_threshold :: f32
  vad_min_silence_seconds :: f32
  vad_min_speech_seconds :: f32
  vad_max_speech_seconds :: f32
  vad_window_size_samples :: int
  vad_sample_rate_hz :: int
  vad_num_threads :: int
  vad_provider :: string

subsection \<open>Sources\<close>

definition SHERPA_REPOSITORY :: string where
  "SHERPA_REPOSITORY = ''https://github.com/k2-fsa/sherpa-onnx''"

definition SHERPA_RELEASE_API :: string where
  "SHERPA_RELEASE_API = ''https://api.github.com/repos/k2-fsa/sherpa-onnx/releases/tags/asr-models''"

definition GITHUB_REDIRECT_HOSTS :: "string list" where
  "GITHUB_REDIRECT_HOSTS = [''api.github.com'', ''github.com'', ''release-assets.githubusercontent.com'']"

definition HUGGING_FACE_REDIRECT_HOSTS :: "string list" where
  "HUGGING_FACE_REDIRECT_HOSTS = [''cas-bridge.xethub.hf.co'', ''cdn-lfs-us-1.hf.co'', ''huggingface.co'']"

definition MODELSCOPE_DIRECT_HOSTS :: "string list" where
  "MODELSCOPE_DIRECT_HOSTS = [''www.modelscope.cn'']"

definition MODELSCOPE_LFS_HOSTS :: "string list" where
  "MODELSCOPE_LFS_HOSTS = [''cdn-lfs-cn-1.modelscope.cn'', ''www.modelscope.cn'']"

definition MODELSCOPE_REVISION :: string where
  "MODELSCOPE_REVISION = ''d69410f1c275f2b0fa60cbb9960edfcdb0ae0aec''"

definition HUGGING_FACE_REVISION :: string where
  "HUGGING_FACE_REVISION = ''bcd2b5b7f32b480ab5790554cfa8347f246a14f3''"

definition QWEN17_IDENTITY :: string where
  "QWEN17_IDENTITY = ''8a5c16d08be3c49e638689b6438a9a3be9d5d732e49f904d2c0666d5229c995a''"

definition install_file :: "string \<Rightarrow> u64 \<Rightarrow> string \<Rightarrow> RequiredInstallFile" where
  "install_file p n h = \<lparr>install_path = p, install_bytes = n, install_sha256 = h\<rparr>"

definition github_archive ::
    "string \<Rightarrow> string \<Rightarrow> string \<Rightarrow> string \<Rightarrow> u64 \<Rightarrow> string \<Rightarrow> string \<Rightarrow> string \<Rightarrow> string \<Rightarrow> ArtifactFile" where
  "github_archive i filename revision url n h required_path license provenance =
     \<lparr>artifact_id = i, artifact_source_repository = SHERPA_REPOSITORY,
      artifact_source_model = filename, artifact_source_endpoint = SHERPA_RELEASE_API,
      artifact_resolved_url = url, artifact_revision = revision, artifact_bytes = n,
      artifact_sha256 = h, artifact_required_path = required_path, artifact_required = True,
      artifact_install_mode = InstallExtractTarBz2, artifact_license_spdx = license,
      artifact_provenance = provenance, artifact_redirect_hosts = GITHUB_REDIRECT_HOSTS\<rparr>"

definition modelscope_file ::
    "string \<Rightarrow> string \<Rightarrow> string \<Rightarrow> string list \<Rightarrow> u64 \<Rightarrow> string \<Rightarrow> string \<Rightarrow> ArtifactFile" where
  "modelscope_file i path url hosts n h provenance =
     \<lparr>artifact_id = i,
      artifact_source_repository = ''https://www.modelscope.cn/models/Qwen/Qwen3-ASR-1.7B'',
      artifact_source_model = ''Qwen/Qwen3-ASR-1.7B'',
      artifact_source_endpoint =
        ''https://www.modelscope.cn/api/v1/models/Qwen/Qwen3-ASR-1.7B/repo/files?Revision=d69410f1c275f2b0fa60cbb9960edfcdb0ae0aec&Recursive=true'',
      artifact_resolved_url = url, artifact_revision = MODELSCOPE_REVISION, artifact_bytes = n,
      artifact_sha256 = h, artifact_required_path = path, artifact_required = True,
      artifact_install_mode = InstallDirect, artifact_license_spdx = ''Apache-2.0'',
      artifact_provenance = provenance, artifact_redirect_hosts = hosts\<rparr>"

subsection \<open>The runtimes\<close>

record PinnedSherpaRuntimeIdentity =
  pinned_version :: string
  pinned_git_commit :: string
  pinned_native_archive_sha256 :: string
  pinned_build_id :: string

definition pinned_sherpa_runtime_identity :: PinnedSherpaRuntimeIdentity where
  "pinned_sherpa_runtime_identity = \<lparr>pinned_version = ''1.13.5'',
     pinned_git_commit = ''3dc7c569f31ca2cd4a20ed6f7db780327e6714c5'',
     pinned_native_archive_sha256 =
       ''339c8fc19bb4b26e118c80792bbc4546eb263040fac36ef0cc027ec29c756b44'',
     pinned_build_id = ''sherpa-onnx-v1.13.5-osx-arm64-static-lib''\<rparr>"

definition SHERPA_RUNTIME :: RuntimeRequirement where
  "SHERPA_RUNTIME = (let p = pinned_sherpa_runtime_identity in
     SherpaOnnx (pinned_version p) (pinned_git_commit p) (pinned_native_archive_sha256 p)
       (pinned_build_id p) ''static'')"

definition QWEN_RUNTIME :: RuntimeRequirement where
  "QWEN_RUNTIME = QwenCandleMetal ''qwen3-asr'' ''0.2.2''
     ''https://github.com/alan890104/qwen3-asr-rs.git'' ''c5ef09646af6278d2ba8b8ceaf543ffb32d1a5dc''
     ''metal'' ''macos'' ''aarch64''"

definition VAD_SILERO_SOURCE_HEADER :: string where
  "VAD_SILERO_SOURCE_HEADER = ''sherpa-onnx/csrc/silero-vad-model-config.h''"

definition VAD_SOURCE_HEADER :: string where
  "VAD_SOURCE_HEADER = ''sherpa-onnx/csrc/vad-model-config.h''"

definition VAD_THRESHOLD :: f32 where "VAD_THRESHOLD = Some (1 / 2)"
definition VAD_MIN_SILENCE_SECONDS :: f32 where "VAD_MIN_SILENCE_SECONDS = Some (1 / 2)"
definition VAD_MIN_SPEECH_SECONDS :: f32 where "VAD_MIN_SPEECH_SECONDS = Some (1 / 4)"
definition VAD_MAX_SPEECH_SECONDS :: f32 where "VAD_MAX_SPEECH_SECONDS = Some 20"
definition VAD_WINDOW_SIZE_SAMPLES :: int where "VAD_WINDOW_SIZE_SAMPLES = 512"
definition VAD_SAMPLE_RATE_HZ :: int where "VAD_SAMPLE_RATE_HZ = 16000"
definition VAD_NUM_THREADS :: int where "VAD_NUM_THREADS = 1"
definition VAD_PROVIDER :: string where "VAD_PROVIDER = ''cpu''"

subsection \<open>Installed files\<close>

definition SENSE_INSTALL_FILES :: "RequiredInstallFile list" where
  "SENSE_INSTALL_FILES = [
     install_file ''model.int8.onnx'' 239233841
       ''c71f0ce00bec95b07744e116345e33d8cbbe08cef896382cf907bf4b51a2cd51'',
     install_file ''test_wavs/en.wav'' 228908
       ''eb1eb008904465b74c304aad8342e8c7d3c6e61ffe9f66adcaca9cf0f76a93f4'',
     install_file ''test_wavs/ja.wav'' 230444
       ''460bd8dccb0d2a5f4e29c628f837be4082d13defc64c3fc21dd1b6bb0e119095'',
     install_file ''test_wavs/ko.wav'' 147500
       ''0dc797a5c81ed30fc339d91f3da718ab02854e17ffa37cb93c4c039ac5c6bb9c'',
     install_file ''test_wavs/yue.wav'' 164780
       ''0960b2db54ae202071d250e6462fbf74a3c863f0e3e7f01273e4939c996875a0'',
     install_file ''test_wavs/zh.wav'' 178988
       ''b77f1794fe374a0ba1ee1dc458bfaf9349496cbbfc32780c50ba3c5a7ad8e373'',
     install_file ''tokens.txt'' 315894
       ''f449eb28dc567533d7fa59be34e2abca8784f771850c78a47fb731a31429a1dc'']"

definition TINY_INSTALL_FILES :: "RequiredInstallFile list" where
  "TINY_INSTALL_FILES = [
     install_file ''test_wavs/0.wav'' 212044
       ''6bc58a4efdf20daac252b6b1502632601a71efe0308f6757dc1eda34891a7e4f'',
     install_file ''test_wavs/1.wav'' 534924
       ''5143a6ba93c4b274e2c4ac22deb75c2c48936c853f0519add1de828b6c79cc5a'',
     install_file ''test_wavs/8k.wav'' 77244
       ''f6f3c8b33e2534cdc154fe773ad2750f1f6a2ca5096179cdf037ae782456613e'',
     install_file ''test_wavs/trans.txt'' 449
       ''b9ac44e7b794abb1a2d5faf0005e98a665971e7ac2ed15435832cc34edaa9100'',
     install_file ''tiny-decoder.onnx'' 114505801
       ''e144c07dc6b55cece24392811f2d934b97013811f5e677d1315d341a0a74a25d'',
     install_file ''tiny-encoder.onnx'' 37647080
       ''42c1d4cbf889632ba21ab6f0d4064c80209755f265ce5cd630db4a6793e7089c'',
     install_file ''tiny-tokens.txt'' 816730
       ''b34b360dbb493e781e479794586d661700670d65564001f23024971d1f2fa126'']"

definition BASE_INSTALL_FILES :: "RequiredInstallFile list" where
  "BASE_INSTALL_FILES = [
     install_file ''base-decoder.onnx'' 196548998
       ''8a12c3f6ad65bb5b86d7e6eccc302378f20f9fb2df6cb10747c62895da7ac194'',
     install_file ''base-encoder.onnx'' 95087154
       ''5a6b87cb313993f6c9fefec9e7027556f6cb30becddf49655bee36c50ecc12d7'',
     install_file ''base-tokens.txt'' 816730
       ''b34b360dbb493e781e479794586d661700670d65564001f23024971d1f2fa126'',
     install_file ''test_wavs/0.wav'' 212044
       ''6bc58a4efdf20daac252b6b1502632601a71efe0308f6757dc1eda34891a7e4f'',
     install_file ''test_wavs/1.wav'' 534924
       ''5143a6ba93c4b274e2c4ac22deb75c2c48936c853f0519add1de828b6c79cc5a'',
     install_file ''test_wavs/8k.wav'' 77244
       ''f6f3c8b33e2534cdc154fe773ad2750f1f6a2ca5096179cdf037ae782456613e'',
     install_file ''test_wavs/trans.txt'' 449
       ''b9ac44e7b794abb1a2d5faf0005e98a665971e7ac2ed15435832cc34edaa9100'']"

definition SMALL_INSTALL_FILES :: "RequiredInstallFile list" where
  "SMALL_INSTALL_FILES = [
     install_file ''small-decoder.onnx'' 559127829
       ''a4165cca5c77e381938c0e111032a384901b1e434ae2ad948859035392d21d2c'',
     install_file ''small-encoder.onnx'' 409528992
       ''119bd1e8ba0524baee1687f6b22bf0abd2fe539549cd000734edbca81c66751e'',
     install_file ''small-tokens.txt'' 816730
       ''b34b360dbb493e781e479794586d661700670d65564001f23024971d1f2fa126'',
     install_file ''test_wavs/0.wav'' 212044
       ''6bc58a4efdf20daac252b6b1502632601a71efe0308f6757dc1eda34891a7e4f'',
     install_file ''test_wavs/1.wav'' 534924
       ''5143a6ba93c4b274e2c4ac22deb75c2c48936c853f0519add1de828b6c79cc5a'',
     install_file ''test_wavs/8k.wav'' 77244
       ''f6f3c8b33e2534cdc154fe773ad2750f1f6a2ca5096179cdf037ae782456613e'',
     install_file ''test_wavs/trans.txt'' 449
       ''b9ac44e7b794abb1a2d5faf0005e98a665971e7ac2ed15435832cc34edaa9100'']"

definition QWEN06_INSTALL_FILES :: "RequiredInstallFile list" where
  "QWEN06_INSTALL_FILES = [
     install_file ''conv_frontend.onnx'' 44148281
       ''d22dc4423e0940e49884e903d2ea2f7e5567c14fc1aed97e4e26d6b8f208ef9e'',
     install_file ''decoder.int8.onnx'' 755914231
       ''4f6885be5959ae26af3089d38ee7972c5fafbeeb1cf8d5e76eab6d8b61ca5771'',
     install_file ''encoder.int8.onnx'' 182491662
       ''60748d3e6744a57c9c91e1b17424a6c2990567e8adceb0783940c03ed98fa9d9'',
     install_file ''test_wavs/ar1.wav'' 168044
       ''700b3c274f2fedffbb6016f03c574adaad7aa0291acc1a1ba72f07112051073f'',
     install_file ''test_wavs/cantonese.wav'' 526444
       ''ec832e035c13c670e0cf68dee0ca5dfae38bf2c583aab31e587441cb3eba3f3f'',
     install_file ''test_wavs/codeswitch.wav'' 549550
       ''2def7fa41004d0a7d148d4afbf4c467c9d112d8b373996123e9a4c43d94957c7'',
     install_file ''test_wavs/de.wav'' 215084
       ''80bb10c44085a7ce01a17abaf6a2095ed37e1695fca41cc0ea9733f1f24a749c'',
     install_file ''test_wavs/es1.wav'' 164844
       ''4543f94738445a38306fb80bb0329ef5ca6d81ab1b6c3f15af1de1c3382f4b31'',
     install_file ''test_wavs/f1_noise.wav'' 1677606
       ''7ae35f5d8f038e518f3abdeda5f78d71cb2f67c9ca29cb9a49a0b4d0702909bd'',
     install_file ''test_wavs/fast1.wav'' 1003794
       ''b43bbd0bd982c3cc88081f64389bf29fe9e9a01287d44f0b15887bc49c2b352a'',
     install_file ''test_wavs/fr1.wav'' 191916
       ''c6421b34feccbe7fdfaa8b641b8ecb7bcd7b9f2c237c7b82712c860be524db4e'',
     install_file ''test_wavs/ja1.wav'' 448100
       ''d926ed0159a2d750d1ae7835e60a5cb5f8737629f7bb3de6cd111a3614d5dc67'',
     install_file ''test_wavs/noise1-en.wav'' 2831516
       ''3664ef02fa664da93d94a1afc271bda31c0f8d07a9f3c74ac6cd1e5aabe8572c'',
     install_file ''test_wavs/noise2.wav'' 741186
       ''33f85268f7fbad6b3152b9ab051edab1a85082fde66bccff61d7f5ef7b437e58'',
     install_file ''test_wavs/qiqiu1.wav'' 1631150
       ''1b69a0fce35936979824c1751a11c285559a635aeb91160d1da3b00118321495'',
     install_file ''test_wavs/raokouling.wav'' 1831074
       ''3cc59ec494f71135ff5761717e20597f0559b43f793dd72ae4924b86c5e038d8'',
     install_file ''test_wavs/rap1.wav'' 935868
       ''ac6186d732b59c664776f84238f586d3e6c97adbc8b9f66e939ddcab5773cf3c'',
     install_file ''test_wavs/ru1.wav'' 152364
       ''e48b22f32d4d1c38f0a94a58acfc43bb8f5b7fc3b0ac01ea49372040ca831acf'',
     install_file ''test_wavs/transcript.txt'' 5386
       ''9cab82a507e1e5a7743336f2e40fabdaa1eb6181818d7a3768925abc03effd24'',
     install_file ''tokenizer/merges.txt'' 1671853
       ''8831e4f1a044471340f7c0a83d7bd71306a5b867e95fd870f74d0c5308a904d5'',
     install_file ''tokenizer/tokenizer_config.json'' 12487
       ''4942d005604266809309cabc9f4e9cb89ce855d59b14681fdc0e1cc62ea26c4c'',
     install_file ''tokenizer/vocab.json'' 2776833
       ''ca10d7e9fb3ed18575dd1e277a2579c16d108e32f27439684afa0e10b1440910'']"

definition SENSE_INSTALL_CONSTRAINTS :: InstallConstraints where
  "SENSE_INSTALL_CONSTRAINTS = Archive \<lparr>archive_max_scanned_entries = 12, archive_max_written_file_bytes = 239233841,
     archive_max_total_written_bytes = 240500355, archive_required_files = SENSE_INSTALL_FILES\<rparr>"

definition TINY_INSTALL_CONSTRAINTS :: InstallConstraints where
  "TINY_INSTALL_CONSTRAINTS = Archive \<lparr>archive_max_scanned_entries = 11, archive_max_written_file_bytes = 114505801,
     archive_max_total_written_bytes = 153794272, archive_required_files = TINY_INSTALL_FILES\<rparr>"

definition BASE_INSTALL_CONSTRAINTS :: InstallConstraints where
  "BASE_INSTALL_CONSTRAINTS = Archive \<lparr>archive_max_scanned_entries = 11, archive_max_written_file_bytes = 196548998,
     archive_max_total_written_bytes = 293277543, archive_required_files = BASE_INSTALL_FILES\<rparr>"

definition SMALL_INSTALL_CONSTRAINTS :: InstallConstraints where
  "SMALL_INSTALL_CONSTRAINTS = Archive \<lparr>archive_max_scanned_entries = 11, archive_max_written_file_bytes = 559127829,
     archive_max_total_written_bytes = 970298212, archive_required_files = SMALL_INSTALL_FILES\<rparr>"

definition QWEN06_INSTALL_CONSTRAINTS :: InstallConstraints where
  "QWEN06_INSTALL_CONSTRAINTS = Archive \<lparr>archive_max_scanned_entries = 27, archive_max_written_file_bytes = 755914231,
     archive_max_total_written_bytes = 1000089273, archive_required_files = QWEN06_INSTALL_FILES\<rparr>"

definition SENSE_PATHS :: "string list" where
  "SENSE_PATHS = [''model.int8.onnx'', ''tokens.txt'', ''test_wavs/en.wav'', ''test_wavs/ja.wav'',
     ''test_wavs/ko.wav'', ''test_wavs/yue.wav'', ''test_wavs/zh.wav'']"

definition WHISPER_TINY_PATHS :: "string list" where
  "WHISPER_TINY_PATHS = [''test_wavs/0.wav'', ''test_wavs/1.wav'', ''test_wavs/8k.wav'',
     ''test_wavs/trans.txt'', ''tiny-decoder.onnx'', ''tiny-encoder.onnx'',
     ''tiny-tokens.txt'']"

definition WHISPER_BASE_PATHS :: "string list" where
  "WHISPER_BASE_PATHS = [''base-decoder.onnx'', ''base-encoder.onnx'', ''base-tokens.txt'', ''test_wavs/0.wav'',
     ''test_wavs/1.wav'', ''test_wavs/8k.wav'', ''test_wavs/trans.txt'']"

definition WHISPER_SMALL_PATHS :: "string list" where
  "WHISPER_SMALL_PATHS = [''small-decoder.onnx'', ''small-encoder.onnx'', ''small-tokens.txt'',
     ''test_wavs/0.wav'', ''test_wavs/1.wav'', ''test_wavs/8k.wav'',
     ''test_wavs/trans.txt'']"

definition QWEN06_PATHS :: "string list" where
  "QWEN06_PATHS = [''conv_frontend.onnx'', ''decoder.int8.onnx'', ''encoder.int8.onnx'',
     ''test_wavs/ar1.wav'', ''test_wavs/cantonese.wav'', ''test_wavs/codeswitch.wav'',
     ''test_wavs/de.wav'', ''test_wavs/es1.wav'', ''test_wavs/f1_noise.wav'',
     ''test_wavs/fast1.wav'', ''test_wavs/fr1.wav'', ''test_wavs/ja1.wav'',
     ''test_wavs/noise1-en.wav'', ''test_wavs/noise2.wav'', ''test_wavs/qiqiu1.wav'',
     ''test_wavs/raokouling.wav'', ''test_wavs/rap1.wav'', ''test_wavs/ru1.wav'',
     ''test_wavs/transcript.txt'', ''tokenizer/merges.txt'',
     ''tokenizer/tokenizer_config.json'', ''tokenizer/vocab.json'']"

definition QWEN17_PATHS :: "string list" where
  "QWEN17_PATHS = [''config.json'', ''model-00001-of-00002.safetensors'',
     ''model-00002-of-00002.safetensors'', ''model.safetensors.index.json'',
     ''tokenizer.json'']"

subsection \<open>Artifacts\<close>

definition SENSE_ARTIFACTS :: "ArtifactFile list" where
  "SENSE_ARTIFACTS = [github_archive
     ''sense-voice-archive''
     ''sherpa-onnx-sense-voice-zh-en-ja-ko-yue-int8-2024-07-17.tar.bz2''
     ''github-release-asset:288366523''
     ''https://github.com/k2-fsa/sherpa-onnx/releases/download/asr-models/sherpa-onnx-sense-voice-zh-en-ja-ko-yue-int8-2024-07-17.tar.bz2''
     163002883
     ''7d1efa2138a65b0b488df37f8b89e3d91a60676e416f515b952358d83dfd347e''
     ''sherpa-onnx-sense-voice-zh-en-ja-ko-yue-int8-2024-07-17''
     ''LicenseRef-FunASR-Model-1.1''
     ''Official sherpa-onnx conversion of FunAudioLLM SenseVoiceSmall INT8; archive LICENSE points to the FunASR model license.'']"

definition WHISPER_TINY_ARTIFACTS :: "ArtifactFile list" where
  "WHISPER_TINY_ARTIFACTS = [github_archive
     ''whisper-tiny-archive''
     ''sherpa-onnx-whisper-tiny.tar.bz2''
     ''github-release-asset:179373699''
     ''https://github.com/k2-fsa/sherpa-onnx/releases/download/asr-models/sherpa-onnx-whisper-tiny.tar.bz2''
     116204861
     ''c46116994e539aa165266d96b325252728429c12535eb9d8b6a2b10f129e66b1''
     ''sherpa-onnx-whisper-tiny''
     ''MIT''
     ''Official sherpa-onnx ONNX export of OpenAI Whisper Tiny.'']"

definition WHISPER_BASE_ARTIFACTS :: "ArtifactFile list" where
  "WHISPER_BASE_ARTIFACTS = [github_archive
     ''whisper-base-archive''
     ''sherpa-onnx-whisper-base.tar.bz2''
     ''github-release-asset:196350768''
     ''https://github.com/k2-fsa/sherpa-onnx/releases/download/asr-models/sherpa-onnx-whisper-base.tar.bz2''
     207557382
     ''911b2083efd7c0dca2ac3b358b75222660dc09fb716d64fbfc417ba6c99ff3de''
     ''sherpa-onnx-whisper-base''
     ''MIT''
     ''Official sherpa-onnx ONNX export of OpenAI Whisper Base.'']"

definition WHISPER_SMALL_ARTIFACTS :: "ArtifactFile list" where
  "WHISPER_SMALL_ARTIFACTS = [github_archive
     ''whisper-small-archive''
     ''sherpa-onnx-whisper-small.tar.bz2''
     ''github-release-asset:179373989''
     ''https://github.com/k2-fsa/sherpa-onnx/releases/download/asr-models/sherpa-onnx-whisper-small.tar.bz2''
     639387718
     ''486a46afbb7ba798507190ffe02fea2dd726049af212e774537efac6afb210a6''
     ''sherpa-onnx-whisper-small''
     ''MIT''
     ''Official sherpa-onnx ONNX export of OpenAI Whisper Small.'']"

definition QWEN06_ARTIFACTS :: "ArtifactFile list" where
  "QWEN06_ARTIFACTS = [github_archive
     ''qwen06-archive''
     ''sherpa-onnx-qwen3-asr-0.6B-int8-2026-03-25.tar.bz2''
     ''github-release-asset:390698077''
     ''https://github.com/k2-fsa/sherpa-onnx/releases/download/asr-models/sherpa-onnx-qwen3-asr-0.6B-int8-2026-03-25.tar.bz2''
     878702423
     ''393f8a14e2f5fb96746aaab342997a40641001fbd5bf9592a080a8329178ee96''
     ''sherpa-onnx-qwen3-asr-0.6B-int8-2026-03-25''
     ''Apache-2.0''
     ''Sherpa release built from official Qwen3-ASR 0.6B using the linked Wasser1462 ONNX conversion.'']"

definition QWEN17_ARTIFACTS :: "ArtifactFile list" where
  "QWEN17_ARTIFACTS = [
     modelscope_file
       ''qwen17-config''
       ''config.json''
       ''https://www.modelscope.cn/models/Qwen/Qwen3-ASR-1.7B/resolve/d69410f1c275f2b0fa60cbb9960edfcdb0ae0aec/config.json''
       MODELSCOPE_DIRECT_HOSTS
       6194
       ''2e74a751548b8ad7d7526d29365ad8144c345d8b412b1152d25dc6698452712f''
       ''Official original config with top-level thinker_config; conversion none.'',
     modelscope_file
       ''qwen17-index''
       ''model.safetensors.index.json''
       ''https://www.modelscope.cn/models/Qwen/Qwen3-ASR-1.7B/resolve/d69410f1c275f2b0fa60cbb9960edfcdb0ae0aec/model.safetensors.index.json''
       MODELSCOPE_DIRECT_HOSTS
       64821
       ''f994739fe38e5210b9e3e8ce6c6307315e2ceac3cb630e7b7414d69dce520f60''
       ''Official original safetensors shard index; conversion none.'',
     \<lparr>artifact_id = ''qwen17-tokenizer'',
       artifact_source_repository = ''https://huggingface.co/Qwen/Qwen3-ASR-1.7B-hf'',
       artifact_source_model = ''Qwen/Qwen3-ASR-1.7B-hf'',
       artifact_source_endpoint = ''https://huggingface.co/api/models/Qwen/Qwen3-ASR-1.7B-hf/revision/bcd2b5b7f32b480ab5790554cfa8347f246a14f3'',
       artifact_resolved_url = ''https://huggingface.co/Qwen/Qwen3-ASR-1.7B-hf/resolve/bcd2b5b7f32b480ab5790554cfa8347f246a14f3/tokenizer.json'',
       artifact_revision = HUGGING_FACE_REVISION,
       artifact_bytes = 11429653,
       artifact_sha256 = ''fe1fad59be22a41ee293363fcf95fdedbc7c93f3b49270b1d2e18bd1399a7a05'',
       artifact_required_path = ''tokenizer.json'',
       artifact_required = True,
       artifact_install_mode = InstallDirect,
       artifact_license_spdx = ''Apache-2.0'',
       artifact_provenance = ''Official -hf tokenizer mixed with official original config and weights; conversion none.'',
       artifact_redirect_hosts = HUGGING_FACE_REDIRECT_HOSTS\<rparr>,
     modelscope_file
       ''qwen17-weights-00001''
       ''model-00001-of-00002.safetensors''
       ''https://www.modelscope.cn/models/Qwen/Qwen3-ASR-1.7B/resolve/d69410f1c275f2b0fa60cbb9960edfcdb0ae0aec/model-00001-of-00002.safetensors''
       MODELSCOPE_LFS_HOSTS
       4220320824
       ''a4cd1f1a04d90b757dc7f7dd26254e69a013b19e80efe590a83c6a3bde8608d6''
       ''Official original safetensors weight shard 1; conversion none.'',
     modelscope_file
       ''qwen17-weights-00002''
       ''model-00002-of-00002.safetensors''
       ''https://www.modelscope.cn/models/Qwen/Qwen3-ASR-1.7B/resolve/d69410f1c275f2b0fa60cbb9960edfcdb0ae0aec/model-00002-of-00002.safetensors''
       MODELSCOPE_LFS_HOSTS
       478200688
       ''6e0b9d9e09e2e0238e7ef3cc8a484ab387e91b90f1900bedf88bc92d7929ccfc''
       ''Official original safetensors weight shard 2; conversion none.'']"

definition QWEN17_INSTALL_FILES :: "RequiredInstallFile list" where
  "QWEN17_INSTALL_FILES = [
     install_file ''config.json'' 6194
       ''2e74a751548b8ad7d7526d29365ad8144c345d8b412b1152d25dc6698452712f'',
     install_file ''model.safetensors.index.json'' 64821
       ''f994739fe38e5210b9e3e8ce6c6307315e2ceac3cb630e7b7414d69dce520f60'',
     install_file ''tokenizer.json'' 11429653
       ''fe1fad59be22a41ee293363fcf95fdedbc7c93f3b49270b1d2e18bd1399a7a05'',
     install_file ''model-00001-of-00002.safetensors'' 4220320824
       ''a4cd1f1a04d90b757dc7f7dd26254e69a013b19e80efe590a83c6a3bde8608d6'',
     install_file ''model-00002-of-00002.safetensors'' 478200688
       ''6e0b9d9e09e2e0238e7ef3cc8a484ab387e91b90f1900bedf88bc92d7929ccfc'']"

definition QWEN17_INSTALL_CONSTRAINTS :: InstallConstraints where
  "QWEN17_INSTALL_CONSTRAINTS = Direct \<lparr>direct_max_written_file_bytes = 4220320824,
     direct_max_total_written_bytes = 4710022180, direct_required_files = QWEN17_INSTALL_FILES\<rparr>"

subsection \<open>The models\<close>

definition LANG_SENSE :: "string list" where
  "LANG_SENSE = [''auto'', ''zh'', ''en'', ''ja'', ''ko'', ''yue'']"

definition LANG_WHISPER :: "string list" where
  "LANG_WHISPER = [''auto'', ''zh'', ''en'', ''ja'', ''ko'', ''yue'']"

definition LANG_QWEN06 :: "string list" where
  "LANG_QWEN06 = [''auto'']"

definition LANG_QWEN17 :: "string list" where
  "LANG_QWEN17 = [''auto'', ''zh'', ''en'', ''yue'', ''ar'', ''de'', ''fr'', ''es'', ''pt'', ''id'',
     ''it'', ''ko'', ''ru'', ''th'', ''vi'', ''ja'', ''tr'', ''hi'', ''ms'', ''nl'', ''sv'',
     ''da'', ''fi'', ''pl'', ''cs'', ''fil'', ''fa'', ''el'', ''hu'', ''mk'', ''ro'']"

definition whisper_model ::
    "string \<Rightarrow> string \<Rightarrow> ArtifactFile list \<Rightarrow> string list \<Rightarrow> string \<Rightarrow> InstallConstraints \<Rightarrow> ModelManifest" where
  "whisper_model i name artifacts paths identity constraints = \<lparr>manifest_id = i,
     manifest_version = ''1'', manifest_display_name = name, manifest_provider = Whisper,
     manifest_languages = LANG_WHISPER,
     manifest_bundle = \<lparr>bundle_artifacts = artifacts, bundle_required_paths = paths,
       bundle_identity_sha256 = identity, bundle_install_constraints = constraints\<rparr>,
     manifest_runtime = SHERPA_RUNTIME, manifest_device = AnyDesktop,
     manifest_qualification = StructuralWithPinnedRuntime,
     manifest_source = \<lparr>source_repository_url = ''https://github.com/openai/whisper'',
       source_model_card_url = ''https://github.com/openai/whisper'', source_license_spdx = ''MIT'',
       source_provenance = ''OpenAI Whisper model exported and distributed by sherpa-onnx.''\<rparr>\<rparr>"

definition SENSE_VOICE_MODEL :: ModelManifest where
  "SENSE_VOICE_MODEL = \<lparr>manifest_id = ''sense-voice-small-int8-2024-07-17'',
     manifest_version = ''1'', manifest_display_name = ''SenseVoiceSmall INT8'',
     manifest_provider = SenseVoice, manifest_languages = LANG_SENSE,
     manifest_bundle = \<lparr>bundle_artifacts = SENSE_ARTIFACTS, bundle_required_paths = SENSE_PATHS,
       bundle_identity_sha256 = ''7d1efa2138a65b0b488df37f8b89e3d91a60676e416f515b952358d83dfd347e'',
       bundle_install_constraints = SENSE_INSTALL_CONSTRAINTS\<rparr>,
     manifest_runtime = SHERPA_RUNTIME, manifest_device = AnyDesktop,
     manifest_qualification = StructuralWithPinnedRuntime,
     manifest_source = \<lparr>source_repository_url = ''https://github.com/FunAudioLLM/SenseVoice'',
       source_model_card_url = ''https://github.com/FunAudioLLM/SenseVoice'',
       source_license_spdx = ''LicenseRef-FunASR-Model-1.1'',
       source_provenance = ''SenseVoiceSmall converted and distributed by sherpa-onnx.''\<rparr>\<rparr>"

definition QWEN06_MODEL :: ModelManifest where
  "QWEN06_MODEL = \<lparr>manifest_id = ''qwen3-asr-0.6b-int8-2026-03-25'',
     manifest_version = ''1'', manifest_display_name = ''Qwen3-ASR 0.6B INT8'',
     manifest_provider = Qwen3Asr, manifest_languages = LANG_QWEN06,
     manifest_bundle = \<lparr>bundle_artifacts = QWEN06_ARTIFACTS, bundle_required_paths = QWEN06_PATHS,
       bundle_identity_sha256 = ''393f8a14e2f5fb96746aaab342997a40641001fbd5bf9592a080a8329178ee96'',
       bundle_install_constraints = QWEN06_INSTALL_CONSTRAINTS\<rparr>,
     manifest_runtime = SHERPA_RUNTIME, manifest_device = AnyDesktop,
     manifest_qualification = StructuralWithPinnedRuntime,
     manifest_source = \<lparr>source_repository_url = ''https://github.com/QwenLM/Qwen3-ASR'',
       source_model_card_url = ''https://www.modelscope.cn/models/Qwen/Qwen3-ASR-0.6B'',
       source_license_spdx = ''Apache-2.0'',
       source_provenance = ''Official Qwen model converted to sherpa ONNX INT8 by the upstream release process.''\<rparr>\<rparr>"

definition QWEN17_MODEL :: ModelManifest where
  "QWEN17_MODEL = \<lparr>manifest_id = ''qwen3-asr-1.7b'',
     manifest_version = ''2'', manifest_display_name = ''Qwen3-ASR 1.7B'',
     manifest_provider = Qwen3Asr, manifest_languages = LANG_QWEN17,
     manifest_bundle = \<lparr>bundle_artifacts = QWEN17_ARTIFACTS, bundle_required_paths = QWEN17_PATHS,
       bundle_identity_sha256 = QWEN17_IDENTITY,
       bundle_install_constraints = QWEN17_INSTALL_CONSTRAINTS\<rparr>,
     manifest_runtime = QWEN_RUNTIME, manifest_device = AppleSiliconMetal 14 24,
     manifest_qualification = RuntimeSmokeRequired,
     manifest_source = \<lparr>source_repository_url = ''https://github.com/QwenLM/Qwen3-ASR'',
       source_model_card_url = ''https://www.modelscope.cn/models/Qwen/Qwen3-ASR-1.7B'',
       source_license_spdx = ''Apache-2.0'',
       source_provenance = ''Official original ModelScope config/weights plus official Hugging Face -hf tokenizer; conversion none.''\<rparr>\<rparr>"

definition MODELS :: "ModelManifest list" where
  "MODELS = [SENSE_VOICE_MODEL,
     whisper_model ''whisper-tiny'' ''Whisper Tiny'' WHISPER_TINY_ARTIFACTS WHISPER_TINY_PATHS
       ''c46116994e539aa165266d96b325252728429c12535eb9d8b6a2b10f129e66b1'' TINY_INSTALL_CONSTRAINTS,
     whisper_model ''whisper-base'' ''Whisper Base'' WHISPER_BASE_ARTIFACTS WHISPER_BASE_PATHS
       ''911b2083efd7c0dca2ac3b358b75222660dc09fb716d64fbfc417ba6c99ff3de'' BASE_INSTALL_CONSTRAINTS,
     whisper_model ''whisper-small'' ''Whisper Small'' WHISPER_SMALL_ARTIFACTS WHISPER_SMALL_PATHS
       ''486a46afbb7ba798507190ffe02fea2dd726049af212e774537efac6afb210a6'' SMALL_INSTALL_CONSTRAINTS,
     QWEN06_MODEL, QWEN17_MODEL]"

subsection \<open>The voice-activity model\<close>

definition VAD_ARTIFACTS :: "ArtifactFile list" where
  "VAD_ARTIFACTS = [\<lparr>artifact_id = ''silero-vad-onnx'',
       artifact_source_repository = SHERPA_REPOSITORY,
       artifact_source_model = ''silero_vad.onnx'',
       artifact_source_endpoint = SHERPA_RELEASE_API,
       artifact_resolved_url = ''https://github.com/k2-fsa/sherpa-onnx/releases/download/asr-models/silero_vad.onnx'',
       artifact_revision = ''github-release-asset:271935959'',
       artifact_bytes = 643854,
       artifact_sha256 = ''9e2449e1087496d8d4caba907f23e0bd3f78d91fa552479bb9c23ac09cbb1fd6'',
       artifact_required_path = ''silero_vad.onnx'',
       artifact_required = True,
       artifact_install_mode = InstallDirect,
       artifact_license_spdx = ''MIT'',
       artifact_provenance = ''Silero VAD ONNX model distributed by sherpa-onnx; detector defaults are frozen from sherpa-onnx 1.13.5 source headers at commit 3dc7c569f31ca2cd4a20ed6f7db780327e6714c5.'',
       artifact_redirect_hosts = GITHUB_REDIRECT_HOSTS\<rparr>]"

definition VAD_INSTALL_FILES :: "RequiredInstallFile list" where
  "VAD_INSTALL_FILES = [
     install_file ''silero_vad.onnx'' 643854
       ''9e2449e1087496d8d4caba907f23e0bd3f78d91fa552479bb9c23ac09cbb1fd6'']"

definition VAD_INSTALL_CONSTRAINTS :: InstallConstraints where
  "VAD_INSTALL_CONSTRAINTS = Direct \<lparr>direct_max_written_file_bytes = 643854,
     direct_max_total_written_bytes = 643854, direct_required_files = VAD_INSTALL_FILES\<rparr>"

definition VAD :: VadManifest where
  "VAD = (let p = pinned_sherpa_runtime_identity in
     \<lparr>vad_id = ''silero-vad-2024-01-17'', vad_version = ''1'',
      vad_bundle = \<lparr>bundle_artifacts = VAD_ARTIFACTS, bundle_required_paths = [''silero_vad.onnx''],
        bundle_identity_sha256 = ''9e2449e1087496d8d4caba907f23e0bd3f78d91fa552479bb9c23ac09cbb1fd6'',
        bundle_install_constraints = VAD_INSTALL_CONSTRAINTS\<rparr>,
      vad_runtime = SHERPA_RUNTIME, vad_qualification = StructuralWithPinnedRuntime,
      vad_source = \<lparr>source_repository_url = ''https://github.com/snakers4/silero-vad'',
        source_model_card_url = ''https://github.com/snakers4/silero-vad'',
        source_license_spdx = ''MIT'',
        source_provenance = ''Official Silero VAD ONNX asset redistributed by sherpa-onnx.''\<rparr>,
      vad_sherpa_version = pinned_version p, vad_sherpa_commit = pinned_git_commit p,
      vad_silero_header = VAD_SILERO_SOURCE_HEADER, vad_config_header = VAD_SOURCE_HEADER,
      vad_threshold = VAD_THRESHOLD, vad_min_silence_seconds = VAD_MIN_SILENCE_SECONDS,
      vad_min_speech_seconds = VAD_MIN_SPEECH_SECONDS,
      vad_max_speech_seconds = VAD_MAX_SPEECH_SECONDS,
      vad_window_size_samples = VAD_WINDOW_SIZE_SAMPLES, vad_sample_rate_hz = VAD_SAMPLE_RATE_HZ,
      vad_num_threads = VAD_NUM_THREADS, vad_provider = VAD_PROVIDER\<rparr>)"

end
