(* ===== verification/Asr_Settings.thy ===== *)
theory Asr_Settings
  imports Manifest
begin

section \<open>Transcription settings: \<open>asr/settings.rs\<close>, \<open>asr/model_lookup.rs\<close>\<close>

text \<open>
  What a user may choose for a transcription and the check of a choice against what the models can
  do.  The lookup of a model's capabilities is an argument, as in the source; the number of logical
  processors is another.
\<close>

subsection \<open>Capabilities\<close>

record ModelCapabilities =
  cap_provider :: AsrProviderKind
  cap_languages :: "string list"
  cap_selectable :: bool
  cap_installable :: bool
  cap_executable :: bool
  cap_reason_code :: "string option"

datatype DeviceSupport = DeviceCompatible | DeviceUnsupported

datatype InstallationQualification = NotInstalled | InstalledButUnqualified | QualifiedForRuntime

definition new_capabilities ::
    "AsrProviderKind \<Rightarrow> string list \<Rightarrow> bool \<Rightarrow> bool \<Rightarrow> bool \<Rightarrow> ModelCapabilities" where
  "new_capabilities provider languages selectable installable executable =
     \<lparr>cap_provider = provider, cap_languages = languages, cap_selectable = selectable,
      cap_installable = installable, cap_executable = executable, cap_reason_code = None\<rparr>"

definition supports_language :: "ModelCapabilities \<Rightarrow> AsrLanguage \<Rightarrow> bool" where
  "supports_language c l \<longleftrightarrow> list_ex (\<lambda>s. s = as_str l) (cap_languages c)"

definition with_reason_code :: "ModelCapabilities \<Rightarrow> string \<Rightarrow> ModelCapabilities" where
  "with_reason_code c reason = c\<lparr>cap_reason_code := Some reason\<rparr>"

type_synonym model_lookup = "string \<Rightarrow> ModelCapabilities option"

fun capabilities_in ::
    "DeviceSupport \<Rightarrow> InstallationQualification \<Rightarrow> ModelCapabilities \<Rightarrow> ModelCapabilities" where
  "capabilities_in DeviceUnsupported _ c = c\<lparr>cap_installable := False, cap_executable := False,
     cap_reason_code := Some ''model_device_unsupported''\<rparr>"
| "capabilities_in DeviceCompatible NotInstalled c = c\<lparr>cap_installable := True,
     cap_executable := False, cap_reason_code := Some ''model_not_installed''\<rparr>"
| "capabilities_in DeviceCompatible InstalledButUnqualified c = c\<lparr>cap_installable := True,
     cap_executable := False, cap_reason_code := Some ''model_runtime_unqualified''\<rparr>"
| "capabilities_in DeviceCompatible QualifiedForRuntime c = c\<lparr>cap_installable := True,
     cap_executable := True, cap_reason_code := None\<rparr>"

definition lookup_with_context ::
    "model_lookup \<Rightarrow> string \<Rightarrow> DeviceSupport \<Rightarrow> InstallationQualification \<Rightarrow> ModelCapabilities option" where
  "lookup_with_context lookup i device installation =
     map_option (capabilities_in device installation) (lookup i)"

subsection \<open>Settings\<close>

datatype WhisperTask = Transcribe | Translate

datatype AsrProviderOptions = SenseVoiceOptions bool | WhisperOptions WhisperTask | Qwen3AsrOptions

record AsrSettings =
  settings_provider :: AsrProviderKind
  settings_model_id :: string
  settings_language :: AsrLanguage
  settings_num_threads :: u16
  settings_vad_enabled :: bool
  settings_auto_transcribe_imports :: bool
  settings_options :: AsrProviderOptions

datatype AsrSettingsError =
    UnknownModel
  | ModelProviderMismatch
  | UnsupportedLanguage
  | ProviderOptionsMismatch
  | SettingsModelCapabilityUnavailable
  | InvalidThreadCount

fun matches_provider :: "AsrProviderOptions \<Rightarrow> AsrProviderKind \<Rightarrow> bool" where
  "matches_provider (SenseVoiceOptions _) SenseVoice = True"
| "matches_provider (WhisperOptions _) Whisper = True"
| "matches_provider Qwen3AsrOptions Qwen3Asr = True"
| "matches_provider _ _ = False"

definition DEFAULT_LANGUAGE :: string where "DEFAULT_LANGUAGE = ''auto''"
definition DEFAULT_MAX_THREADS :: nat where "DEFAULT_MAX_THREADS = 4"

definition default_num_threads :: "nat \<Rightarrow> u16" where
  "default_num_threads cpus =
     (let n = min cpus DEFAULT_MAX_THREADS in if n < 2 ^ 16 then of_nat n else 1)"

lemma default_num_threads_code [code]:
  "default_num_threads cpus = word_of_int (int (min cpus DEFAULT_MAX_THREADS))"
proof -
  have "min cpus DEFAULT_MAX_THREADS < 2 ^ 16" by (simp add: DEFAULT_MAX_THREADS_def min_def)
  then show ?thesis by (simp only: default_num_threads_def Let_def) simp
qed

definition new_settings :: "nat \<Rightarrow> AsrProviderKind \<Rightarrow> string \<Rightarrow> AsrProviderOptions \<Rightarrow> AsrSettings" where
  "new_settings cpus provider model_id options = \<lparr>settings_provider = provider,
     settings_model_id = model_id, settings_language = AsrLanguage DEFAULT_LANGUAGE,
     settings_num_threads = default_num_threads cpus, settings_vad_enabled = True,
     settings_auto_transcribe_imports = True, settings_options = options\<rparr>"

definition sense_voice :: "nat \<Rightarrow> string \<Rightarrow> AsrSettings" where
  "sense_voice cpus i = new_settings cpus SenseVoice i (SenseVoiceOptions True)"

definition whisper :: "nat \<Rightarrow> string \<Rightarrow> AsrSettings" where
  "whisper cpus i = new_settings cpus Whisper i (WhisperOptions Transcribe)"

definition qwen3_asr :: "nat \<Rightarrow> string \<Rightarrow> AsrSettings" where
  "qwen3_asr cpus i = new_settings cpus Qwen3Asr i Qwen3AsrOptions"

definition validate_settings :: "nat \<Rightarrow> model_lookup \<Rightarrow> AsrSettings \<Rightarrow> AsrSettingsError + unit" where
  "validate_settings cpus lookup s =
     and_then (ok_or UnknownModel (lookup (settings_model_id s))) (\<lambda>c.
     if cap_provider c \<noteq> settings_provider s then Inl ModelProviderMismatch
     else if \<not> supports_language c (settings_language s) then Inl UnsupportedLanguage
     else if \<not> matches_provider (settings_options s) (settings_provider s)
       then Inl ProviderOptionsMismatch
     else if \<not> cap_executable c then Inl SettingsModelCapabilityUnavailable
     else if settings_num_threads s = 0 \<or> cpus < unat (settings_num_threads s)
       then Inl InvalidThreadCount
     else Inr ())"

fun settings_error_code :: "AsrSettingsError \<Rightarrow> AsrErrorCode" where
  "settings_error_code UnknownModel = ModelNotInstalled"
| "settings_error_code SettingsModelCapabilityUnavailable = ModelCapabilityUnavailable"
| "settings_error_code ModelProviderMismatch = InvalidProviderParameter"
| "settings_error_code UnsupportedLanguage = InvalidProviderParameter"
| "settings_error_code ProviderOptionsMismatch = InvalidProviderParameter"
| "settings_error_code InvalidThreadCount = InvalidProviderParameter"

lemma validate_settings_ok [result_simps]:
  "validate_settings cpus lookup s = Inr u \<longleftrightarrow> (\<exists>c. lookup (settings_model_id s) = Some c \<and>
     cap_provider c = settings_provider s \<and> as_str (settings_language s) \<in> set (cap_languages c) \<and>
     matches_provider (settings_options s) (settings_provider s) \<and> cap_executable c \<and>
     settings_num_threads s \<noteq> 0 \<and> unat (settings_num_threads s) \<le> cpus)"
  by (auto simp: validate_settings_def result_simps supports_language_def list_ex_iff not_less)

end
