(* ===== verification/Registry.thy ===== *)
theory Registry
  imports Asr_Settings
begin

section \<open>The model registry: \<open>asr/manifest.rs\<close>\<close>

text \<open>
  Lookup in the registry, the canonical description of a model's bundle whose digest identifies it,
  and the validation of a registry.  JSON, SHA-256 and URL parsing are the \<open>libraries\<close> argument.
\<close>

record ModelRegistry =
  registry_models :: "ModelManifest list"

definition new_registry :: "ModelManifest list \<Rightarrow> ModelRegistry" where
  "new_registry ms = \<lparr>registry_models = ms\<rparr>"

definition REGISTRY :: ModelRegistry where
  "REGISTRY = new_registry MODELS"

definition model_registry :: ModelRegistry where
  "model_registry = REGISTRY"

definition vad_manifest :: VadManifest where
  "vad_manifest = VAD"

definition registry_model :: "ModelRegistry \<Rightarrow> string \<Rightarrow> ModelManifest option" where
  "registry_model r i = find (\<lambda>m. manifest_id m = i) (registry_models r)"

definition registry_lookup :: "ModelRegistry \<Rightarrow> model_lookup" where
  "registry_lookup r i = map_option (\<lambda>m. with_reason_code
     (new_capabilities (manifest_provider m) (manifest_languages m) True False False)
     ''model_context_required'') (registry_model r i)"

datatype RegistryValidationError =
    EmptyRegistry
  | DuplicateModelId
  | InvalidManifestField
  | InvalidArtifact
  | DuplicateArtifactId
  | InvalidRequiredPath
  | OverlappingRequiredPath
  | InvalidBundleIdentity
  | InvalidInstallConstraints

datatype ConfigCompatibilityError = InvalidConfigJson | MissingThinkerConfig

definition validate_qwen_config_shape ::
    "'z libraries_scheme \<Rightarrow> string \<Rightarrow> ConfigCompatibilityError + unit" where
  "validate_qwen_config_shape lib bytes =
     and_then (ok_or InvalidConfigJson (lib_parse lib bytes)) (\<lambda>v.
     case json_get v ''thinker_config'' of
       Some (JObject _) \<Rightarrow> Inr () | _ \<Rightarrow> Inl MissingThinkerConfig)"

subsection \<open>The canonical bundle\<close>

definition json_strings :: "string list \<Rightarrow> json" where
  "json_strings ss = JArray (map JString ss)"

fun install_mode_name :: "ArtifactInstallMode \<Rightarrow> string" where
  "install_mode_name InstallDirect = ''direct''"
| "install_mode_name InstallExtractTarBz2 = ''extract_tar_bz2''"

definition artifact_payload :: "ArtifactFile \<Rightarrow> json" where
  "artifact_payload a = JObject [
     (''artifact_id'', JString (artifact_id a)),
     (''bytes'', JNumber (PosInt (artifact_bytes a))),
     (''install_mode'', JString (install_mode_name (artifact_install_mode a))),
     (''license_spdx'', JString (artifact_license_spdx a)),
     (''provenance'', JString (artifact_provenance a)),
     (''redirect_hosts'', json_strings (artifact_redirect_hosts a)),
     (''required'', JBool (artifact_required a)),
     (''required_path'', JString (artifact_required_path a)),
     (''resolved_url'', JString (artifact_resolved_url a)),
     (''revision'', JString (artifact_revision a)),
     (''sha256'', JString (artifact_sha256 a)),
     (''source_endpoint'', JString (artifact_source_endpoint a)),
     (''source_model'', JString (artifact_source_model a)),
     (''source_repository'', JString (artifact_source_repository a))]"

definition compatibility_payload :: "ModelManifest \<Rightarrow> json" where
  "compatibility_payload m =
     (if manifest_id m = ''qwen3-asr-1.7b''
      then JObject [(''config_shape'', JString ''top_level_thinker_config''),
             (''conversion'', JString ''none''),
             (''tokenizer_source'', JString ''official_qwen3_asr_1.7b_hf'')]
      else JObject [(''archive_contract'', JString ''sherpa_release_required_paths_v1'')])"

fun runtime_payload :: "RuntimeRequirement \<Rightarrow> json" where
  "runtime_payload (SherpaOnnx version commit archive build_id feature) = JObject [
     (''build_id'', JString build_id), (''cargo_feature'', JString feature),
     (''crate'', JString ''sherpa-onnx''), (''git_commit'', JString commit),
     (''native_archive_sha256'', JString archive), (''version'', JString version)]"
| "runtime_payload (QwenCandleMetal name version url commit feature os arch) = JObject [
     (''backend'', JString ''candle_metal''), (''cargo_feature'', JString feature),
     (''crate'', JString name), (''git_commit'', JString commit), (''git_url'', JString url),
     (''target_arch'', JString arch), (''target_os'', JString os), (''version'', JString version)]"

fun device_payload :: "DeviceRequirement \<Rightarrow> json" where
  "device_payload AnyDesktop = JObject [(''kind'', JString ''any_desktop'')]"
| "device_payload (AppleSiliconMetal macos memory) = JObject [
     (''kind'', JString ''apple_silicon_metal''),
     (''minimum_macos_major'', JNumber (PosInt (ucast macos))),
     (''minimum_memory_gib'', JNumber (PosInt (ucast memory)))]"

fun qualification_name :: "QualificationPolicy \<Rightarrow> string" where
  "qualification_name StructuralWithPinnedRuntime = ''structural_with_pinned_runtime''"
| "qualification_name RuntimeSmokeRequired = ''runtime_smoke_required''"

fun kind_name :: "AsrProviderKind \<Rightarrow> string" where
  "kind_name SenseVoice = ''sense_voice''"
| "kind_name Whisper = ''whisper''"
| "kind_name Qwen3Asr = ''qwen3_asr''"

text \<open>\<open>sort_by\<close> is stable, as is \<open>sort_key\<close>; texts compare by their bytes.\<close>

definition bundle_value :: "ModelManifest \<Rightarrow> json" where
  "bundle_value m = JObject [
     (''artifacts'', JArray (map artifact_payload
        (sort_key artifact_id (bundle_artifacts (manifest_bundle m))))),
     (''compatibility_contract'', compatibility_payload m),
     (''device_requirement'', device_payload (manifest_device m)),
     (''manifest_version'', JString (manifest_version m)),
     (''model_id'', JString (manifest_id m)),
     (''provider'', JString (kind_name (manifest_provider m))),
     (''qualification_policy'', JString (qualification_name (manifest_qualification m))),
     (''required_paths'', json_strings (bundle_required_paths (manifest_bundle m))),
     (''runtime_requirement'', runtime_payload (manifest_runtime m)),
     (''schema'', JString ''lifesub.model-bundle.v1'')]"

definition canonical_bundle_payload :: "'z libraries_scheme \<Rightarrow> ModelManifest \<Rightarrow> string option" where
  "canonical_bundle_payload lib m = lib_canonical lib (bundle_value m)"

subsection \<open>Checks of single fields\<close>

definition any_blank :: "string list \<Rightarrow> bool" where
  "any_blank values \<longleftrightarrow> list_ex placeholder values"

definition is_sha256 :: "string \<Rightarrow> bool" where
  "is_sha256 value \<longleftrightarrow> lower_sha256 value"

definition valid_https_url :: "'z libraries_scheme \<Rightarrow> string \<Rightarrow> bool" where
  "valid_https_url lib value = (case https_authority value of
      None \<Rightarrow> False
    | Some authority \<Rightarrow>
        if authority = [] \<or> CHR ''@'' \<in> set authority \<or> suffix '':443'' authority \<or>
           list_ex is_ascii_uppercase authority
        then False
        else (case lib_parse_url lib value of None \<Rightarrow> False | Some u \<Rightarrow> plain_https u))"

text \<open>\<open>char::is_control\<close> on UTF-8: the ASCII controls, and U+0080 to U+009F as two bytes.\<close>

definition control_byte :: "char \<Rightarrow> bool" where
  "control_byte c \<longleftrightarrow> (of_char c :: nat) < 32 \<or> (of_char c :: nat) = 127"

definition control_pair :: "char \<Rightarrow> char \<Rightarrow> bool" where
  "control_pair c d \<longleftrightarrow> (of_char c :: nat) = 194 \<and> 128 \<le> (of_char d :: nat) \<and> (of_char d :: nat) < 160"

fun has_control :: "string \<Rightarrow> bool" where
  "has_control [] = False"
| "has_control [c] = control_byte c"
| "has_control (c # d # s) = (control_byte c \<or> control_pair c d \<or> has_control (d # s))"

lemma control_bits [code]:
  "control_byte (Char b0 b1 b2 b3 b4 b5 b6 b7) \<longleftrightarrow>
     \<not> b7 \<and> (\<not> b6 \<and> \<not> b5 \<or> b6 \<and> b5 \<and> b4 \<and> b3 \<and> b2 \<and> b1 \<and> b0)"
  "control_pair (Char b0 b1 b2 b3 b4 b5 b6 b7) (Char a0 a1 a2 a3 a4 a5 a6 a7) \<longleftrightarrow>
     (b7 \<and> b6 \<and> \<not> b5 \<and> \<not> b4 \<and> \<not> b3 \<and> \<not> b2 \<and> b1 \<and> \<not> b0) \<and> a7 \<and> \<not> a6 \<and> \<not> a5"
proof -
  show "control_byte (Char b0 b1 b2 b3 b4 b5 b6 b7) \<longleftrightarrow>
     \<not> b7 \<and> (\<not> b6 \<and> \<not> b5 \<or> b6 \<and> b5 \<and> b4 \<and> b3 \<and> b2 \<and> b1 \<and> b0)"
    by (cases b0; cases b1; cases b2; cases b3; cases b4; cases b5; cases b6; cases b7;
        simp add: control_byte_def)
  have "(of_char (Char b0 b1 b2 b3 b4 b5 b6 b7) :: nat) = 194 \<longleftrightarrow>
      b7 \<and> b6 \<and> \<not> b5 \<and> \<not> b4 \<and> \<not> b3 \<and> \<not> b2 \<and> b1 \<and> \<not> b0"
    by (cases b0; cases b1; cases b2; cases b3; cases b4; cases b5; cases b6; cases b7; simp)
  moreover have "128 \<le> (of_char (Char a0 a1 a2 a3 a4 a5 a6 a7) :: nat) \<and>
      (of_char (Char a0 a1 a2 a3 a4 a5 a6 a7) :: nat) < 160 \<longleftrightarrow> a7 \<and> \<not> a6 \<and> \<not> a5"
    by (cases a0; cases a1; cases a2; cases a3; cases a4; cases a5; cases a6; cases a7; simp)
  ultimately show "control_pair (Char b0 b1 b2 b3 b4 b5 b6 b7) (Char a0 a1 a2 a3 a4 a5 a6 a7) \<longleftrightarrow>
     (b7 \<and> b6 \<and> \<not> b5 \<and> \<not> b4 \<and> \<not> b3 \<and> \<not> b2 \<and> b1 \<and> \<not> b0) \<and> a7 \<and> \<not> a6 \<and> \<not> a5"
    by (simp add: control_pair_def)
qed

definition valid_relative_path :: "string \<Rightarrow> bool" where
  "valid_relative_path p \<longleftrightarrow>
     p \<noteq> [] \<and> hd p \<noteq> CHR ''/'' \<and> last p \<noteq> CHR ''/'' \<and> CHR 0x5C \<notin> set p \<and> \<not> has_control p \<and>
     list_all (\<lambda>c. c \<noteq> [] \<and> c \<noteq> ''.'' \<and> c \<noteq> ''..'') (split_on CHR ''/'' p)"

definition under_path :: "string \<Rightarrow> string \<Rightarrow> bool" where
  "under_path left right = (case strip_prefix left right of
      None \<Rightarrow> False | Some rest \<Rightarrow> prefix ''/'' rest)"

definition paths_overlap :: "string \<Rightarrow> string \<Rightarrow> bool" where
  "paths_overlap left right \<longleftrightarrow> left = right \<or> under_path left right \<or> under_path right left"

fun overlapping_from :: "string list \<Rightarrow> RegistryValidationError + unit" where
  "overlapping_from [] = Inr ()"
| "overlapping_from (p # ps) =
     (if \<not> valid_relative_path p then Inl InvalidRequiredPath
      else if list_ex (paths_overlap p) ps then Inl OverlappingRequiredPath
      else overlapping_from ps)"

definition language_byte :: "char \<Rightarrow> bool" where
  "language_byte c \<longleftrightarrow> is_ascii_lowercase c \<or> is_ascii_digit c \<or> c = CHR ''-'' \<or> c = CHR ''_''"

definition valid_languages :: "string list \<Rightarrow> bool" where
  "valid_languages ls \<longleftrightarrow> ls \<noteq> [] \<and> ''auto'' \<in> set ls \<and>
     list_all (\<lambda>l. l \<noteq> [] \<and> list_all language_byte l) ls \<and> distinct ls"

subsection \<open>Artifacts\<close>

definition allowed_hosts :: "ArtifactFile \<Rightarrow> string list option" where
  "allowed_hosts a =
     (if contains_text ''github.com/k2-fsa/'' (artifact_source_repository a) then Some GITHUB_REDIRECT_HOSTS
      else if prefix ''https://www.modelscope.cn/'' (artifact_source_repository a)
      then Some (if 20000000 < artifact_bytes a then MODELSCOPE_LFS_HOSTS else MODELSCOPE_DIRECT_HOSTS)
      else if prefix ''https://huggingface.co/'' (artifact_source_repository a)
      then Some HUGGING_FACE_REDIRECT_HOSTS
      else None)"

definition url_host_of :: "'z libraries_scheme \<Rightarrow> string \<Rightarrow> string option" where
  "url_host_of lib value = field_as url_host (lib_parse_url lib value)"

definition valid_redirect_allowlist :: "'z libraries_scheme \<Rightarrow> ArtifactFile \<Rightarrow> bool" where
  "valid_redirect_allowlist lib a = (case url_host_of lib (artifact_resolved_url a) of
      None \<Rightarrow> False
    | Some download_host \<Rightarrow> (case allowed_hosts a of
          None \<Rightarrow> False
        | Some expected \<Rightarrow> artifact_redirect_hosts a = expected \<and>
            download_host \<in> set (artifact_redirect_hosts a) \<and>
            list_all valid_hostname (artifact_redirect_hosts a)))"

definition pinned_revision :: "ArtifactFile \<Rightarrow> bool" where
  "pinned_revision a \<longleftrightarrow> prefix ''github-release-asset:'' (artifact_revision a) \<or>
     contains_text (artifact_revision a) (artifact_resolved_url a)"

definition valid_artifact :: "'z libraries_scheme \<Rightarrow> ArtifactFile \<Rightarrow> bool" where
  "valid_artifact lib a \<longleftrightarrow>
     \<not> any_blank [artifact_id a, artifact_source_repository a, artifact_source_model a,
         artifact_source_endpoint a, artifact_resolved_url a, artifact_revision a,
         artifact_required_path a, artifact_license_spdx a, artifact_provenance a] \<and>
     valid_https_url lib (artifact_source_repository a) \<and>
     valid_https_url lib (artifact_source_endpoint a) \<and>
     valid_https_url lib (artifact_resolved_url a) \<and>
     pinned_revision a \<and> 0 < artifact_bytes a \<and> is_sha256 (artifact_sha256 a) \<and>
     valid_relative_path (artifact_required_path a) \<and> artifact_required a \<and>
     valid_redirect_allowlist lib a \<and> strictly_increasing (artifact_redirect_hosts a)"

fun validate_artifacts_from ::
    "'z libraries_scheme \<Rightarrow> string set \<Rightarrow> ArtifactFile list \<Rightarrow> RegistryValidationError + unit" where
  "validate_artifacts_from lib seen [] = Inr ()"
| "validate_artifacts_from lib seen (a # rest) =
     (if artifact_id a \<in> seen then Inl DuplicateArtifactId
      else if \<not> valid_artifact lib a then Inl InvalidArtifact
      else validate_artifacts_from lib (insert (artifact_id a) seen) rest)"

subsection \<open>Install constraints\<close>

fun constraint_files :: "InstallConstraints \<Rightarrow> RequiredInstallFile list" where
  "constraint_files (Archive c) = archive_required_files c"
| "constraint_files (Direct c) = direct_required_files c"

fun constraint_max_file :: "InstallConstraints \<Rightarrow> u64" where
  "constraint_max_file (Archive c) = archive_max_written_file_bytes c"
| "constraint_max_file (Direct c) = direct_max_written_file_bytes c"

fun constraint_max_total :: "InstallConstraints \<Rightarrow> u64" where
  "constraint_max_total (Archive c) = archive_max_total_written_bytes c"
| "constraint_max_total (Direct c) = direct_max_total_written_bytes c"

fun sum_required_files ::
    "string set \<Rightarrow> u64 \<Rightarrow> u64 \<Rightarrow> RequiredInstallFile list \<Rightarrow> (u64 \<times> u64) option" where
  "sum_required_files seen written largest [] = Some (written, largest)"
| "sum_required_files seen written largest (f # rest) =
     (if \<not> valid_relative_path (install_path f) \<or> install_bytes f = 0 \<or>
         \<not> is_sha256 (install_sha256 f) \<or> install_path f \<in> seen then None
      else (case checked_add written (install_bytes f) of
          None \<Rightarrow> None
        | Some written' \<Rightarrow> sum_required_files (insert (install_path f) seen) written'
            (max largest (install_bytes f)) rest))"

definition same_file :: "RequiredInstallFile \<Rightarrow> ArtifactFile \<Rightarrow> bool" where
  "same_file f a \<longleftrightarrow> (install_path f, install_bytes f, install_sha256 f) =
     (artifact_required_path a, artifact_bytes a, artifact_sha256 a)"

fun install_modes_fit :: "ArtifactBundle \<Rightarrow> InstallConstraints \<Rightarrow> bool" where
  "install_modes_fit b (Archive c) \<longleftrightarrow>
     (case len_u64 (archive_required_files c) of None \<Rightarrow> - 1 | Some n \<Rightarrow> n) \<le> archive_max_scanned_entries c \<and>
     list_all (\<lambda>a. artifact_install_mode a = InstallExtractTarBz2) (bundle_artifacts b)"
| "install_modes_fit b (Direct c) \<longleftrightarrow>
     list_all (\<lambda>a. artifact_install_mode a = InstallDirect) (bundle_artifacts b) \<and>
     length (bundle_artifacts b) = length (direct_required_files c) \<and>
     list_all (\<lambda>a. list_ex (\<lambda>f. same_file f a) (direct_required_files c)) (bundle_artifacts b) \<and>
     list_all (\<lambda>f. count_where (same_file f) (bundle_artifacts b) = 1) (direct_required_files c)"

definition validate_install_constraints :: "ArtifactBundle \<Rightarrow> RegistryValidationError + unit" where
  "validate_install_constraints b =
     (let c = bundle_install_constraints b; files = constraint_files c in
      if files = [] then Inl InvalidInstallConstraints
      else case sum_required_files {} 0 0 files of
          None \<Rightarrow> Inl InvalidInstallConstraints
        | Some (written, largest) \<Rightarrow>
            if largest \<noteq> constraint_max_file c \<or> written \<noteq> constraint_max_total c \<or>
               length (bundle_required_paths b) \<noteq> length files \<or>
               \<not> list_all (\<lambda>p. p \<in> set (map install_path files)) (bundle_required_paths b)
            then Inl InvalidInstallConstraints
            else if \<not> install_modes_fit b c then Inl InvalidInstallConstraints
            else Inr ())"

definition validate_bundle :: "'z libraries_scheme \<Rightarrow> ArtifactBundle \<Rightarrow> RegistryValidationError + unit" where
  "validate_bundle lib b =
     (if bundle_artifacts b = [] \<or> bundle_required_paths b = [] \<or> \<not> is_sha256 (bundle_identity_sha256 b)
      then Inl InvalidBundleIdentity
      else and_then (validate_artifacts_from lib {} (bundle_artifacts b)) (\<lambda>_.
           and_then (overlapping_from (bundle_required_paths b)) (\<lambda>_.
           validate_install_constraints b)))"

subsection \<open>Models and the registry\<close>

definition expected_required_paths :: "string \<Rightarrow> string list option" where
  "expected_required_paths i = map_of [
     (''sense-voice-small-int8-2024-07-17'', SENSE_PATHS),
     (''whisper-tiny'', WHISPER_TINY_PATHS),
     (''whisper-base'', WHISPER_BASE_PATHS),
     (''whisper-small'', WHISPER_SMALL_PATHS),
     (''qwen3-asr-0.6b-int8-2026-03-25'', QWEN06_PATHS),
     (''qwen3-asr-1.7b'', QWEN17_PATHS)] i"

definition expected_platform :: "string \<Rightarrow> RuntimeRequirement \<times> DeviceRequirement \<times> QualificationPolicy" where
  "expected_platform i =
     (if i = ''qwen3-asr-1.7b'' then (QWEN_RUNTIME, AppleSiliconMetal 14 24, RuntimeSmokeRequired)
      else (SHERPA_RUNTIME, AnyDesktop, StructuralWithPinnedRuntime))"

definition validate_model_contract ::
    "'z libraries_scheme \<Rightarrow> ModelManifest \<Rightarrow> RegistryValidationError + unit" where
  "validate_model_contract lib m =
     (let s = manifest_source m in
      if any_blank [manifest_id m, manifest_version m, manifest_display_name m, source_repository_url s,
           source_model_card_url s, source_license_spdx s, source_provenance s] \<or>
         \<not> valid_https_url lib (source_repository_url s) \<or>
         \<not> valid_https_url lib (source_model_card_url s) \<or> \<not> valid_languages (manifest_languages m)
      then Inl InvalidManifestField
      else if (manifest_runtime m, manifest_device m, manifest_qualification m) \<noteq>
                expected_platform (manifest_id m)
      then Inl InvalidManifestField
      else if expected_required_paths (manifest_id m) \<noteq> Some (bundle_required_paths (manifest_bundle m))
      then Inl InvalidRequiredPath
      else validate_bundle lib (manifest_bundle m))"

definition positive :: "f32 \<Rightarrow> bool" where
  "positive x = (case x of None \<Rightarrow> False | Some v \<Rightarrow> 0 < v)"

definition at_most :: "f32 \<Rightarrow> f32 \<Rightarrow> bool" where
  "at_most x y = (case (x, y) of (Some v, Some w) \<Rightarrow> v \<le> w | _ \<Rightarrow> False)"

definition valid_vad_parameters :: "VadManifest \<Rightarrow> bool" where
  "valid_vad_parameters v \<longleftrightarrow>
     (let a = hd (bundle_artifacts (vad_bundle v)); p = pinned_sherpa_runtime_identity in
      list_all (\<lambda>x. x \<noteq> None) [vad_threshold v, vad_min_silence_seconds v, vad_min_speech_seconds v,
        vad_max_speech_seconds v] \<and>
      positive (vad_threshold v) \<and> at_most (vad_threshold v) (Some 1) \<and>
      positive (vad_min_silence_seconds v) \<and> positive (vad_min_speech_seconds v) \<and>
      at_most (vad_min_speech_seconds v) (vad_max_speech_seconds v) \<and>
      0 < vad_window_size_samples v \<and> 0 < vad_sample_rate_hz v \<and> 0 < vad_num_threads v \<and>
      vad_sherpa_version v = pinned_version p \<and> vad_sherpa_commit v = pinned_git_commit p \<and>
      vad_silero_header v = VAD_SILERO_SOURCE_HEADER \<and> vad_config_header v = VAD_SOURCE_HEADER \<and>
      vad_threshold v = VAD_THRESHOLD \<and> vad_min_silence_seconds v = VAD_MIN_SILENCE_SECONDS \<and>
      vad_min_speech_seconds v = VAD_MIN_SPEECH_SECONDS \<and>
      vad_max_speech_seconds v = VAD_MAX_SPEECH_SECONDS \<and>
      vad_window_size_samples v = VAD_WINDOW_SIZE_SAMPLES \<and>
      vad_sample_rate_hz v = VAD_SAMPLE_RATE_HZ \<and> vad_num_threads v = VAD_NUM_THREADS \<and>
      vad_provider v = VAD_PROVIDER \<and>
      artifact_resolved_url a =
        ''https://github.com/k2-fsa/sherpa-onnx/releases/download/asr-models/silero_vad.onnx'' \<and>
      artifact_bytes a = 643854 \<and>
      artifact_sha256 a = ''9e2449e1087496d8d4caba907f23e0bd3f78d91fa552479bb9c23ac09cbb1fd6'' \<and>
      artifact_required_path a = ''silero_vad.onnx'' \<and>
      bundle_required_paths (vad_bundle v) = [''silero_vad.onnx''])"

definition validate_vad_contract ::
    "'z libraries_scheme \<Rightarrow> VadManifest \<Rightarrow> RegistryValidationError + unit" where
  "validate_vad_contract lib v =
     (let s = vad_source v; b = vad_bundle v; a = hd (bundle_artifacts b) in
      if vad_id v \<noteq> ''silero-vad-2024-01-17'' \<or> vad_version v \<noteq> ''1'' \<or>
         any_blank [vad_id v, vad_version v, source_repository_url s, source_model_card_url s,
           source_license_spdx s, source_provenance s] \<or>
         \<not> valid_https_url lib (source_repository_url s) \<or>
         \<not> valid_https_url lib (source_model_card_url s) \<or>
         vad_runtime v \<noteq> SHERPA_RUNTIME \<or> vad_qualification v \<noteq> StructuralWithPinnedRuntime \<or>
         length (bundle_artifacts b) \<noteq> 1 \<or> artifact_install_mode a \<noteq> InstallDirect \<or>
         bundle_identity_sha256 b \<noteq> artifact_sha256 a \<or>
         bundle_install_constraints b \<noteq> VAD_INSTALL_CONSTRAINTS \<or>
         source_license_spdx s \<noteq> artifact_license_spdx a \<or> \<not> valid_vad_parameters v
      then Inl InvalidManifestField
      else validate_bundle lib b)"

definition sha256_identity :: "'z libraries_scheme \<Rightarrow> ModelManifest \<Rightarrow> RegistryValidationError + unit" where
  "sha256_identity lib m =
     (let b = manifest_bundle m in
      if 1 < length (bundle_artifacts b)
      then and_then (ok_or InvalidBundleIdentity (canonical_bundle_payload lib m)) (\<lambda>canonical.
        if lib_sha256_hex lib canonical \<noteq> bundle_identity_sha256 b
        then Inl InvalidBundleIdentity else Inr ())
      else if bundle_identity_sha256 b \<noteq> artifact_sha256 (hd (bundle_artifacts b))
      then Inl InvalidBundleIdentity else Inr ())"

fun validate_models_from ::
    "'z libraries_scheme \<Rightarrow> string set \<Rightarrow> ModelManifest list \<Rightarrow> RegistryValidationError + unit" where
  "validate_models_from lib seen [] = Inr ()"
| "validate_models_from lib seen (m # rest) =
     (if manifest_id m \<in> seen then Inl DuplicateModelId
      else and_then (validate_model_contract lib m) (\<lambda>_.
           and_then (sha256_identity lib m) (\<lambda>_.
           and_then (ok_or InvalidManifestField (find (\<lambda>e. manifest_id e = manifest_id m) MODELS)) (\<lambda>expected.
           if expected \<noteq> m then Inl InvalidManifestField
           else validate_models_from lib (insert (manifest_id m) seen) rest))))"

definition validate_registry ::
    "'z libraries_scheme \<Rightarrow> ModelRegistry \<Rightarrow> VadManifest \<Rightarrow> RegistryValidationError + unit" where
  "validate_registry lib r v =
     (if registry_models r = [] then Inl EmptyRegistry
      else and_then (validate_models_from lib {} (registry_models r)) (\<lambda>_. validate_vad_contract lib v))"

end
