(* ===== verification/Shipped_Registry.thy ===== *)
theory Shipped_Registry
  imports Registry
begin

section \<open>The registry that is compiled in\<close>

text \<open>
  The registry the program ships (\<open>asr/manifest.rs\<close>) passes its own validator, for every address
  parser that reads plain \<open>https\<close> addresses as the WHATWG rules say and every digest function under
  which the one bundle of several files has its pinned identity.
\<close>

subsection \<open>Addresses every parser reads the same way\<close>

text \<open>
  A host that is a plain domain name: lower-case labels, no punycode, and a last label that is not
  a number.  With no fragment, the parser returns the host as written and the default port.
\<close>

definition domain_name :: "string \<Rightarrow> bool" where
  "domain_name h \<longleftrightarrow> valid_hostname h \<and> \<not> contains_text ''xn--'' h \<and>
     is_ascii_lowercase (hd (last (split_on CHR ''.'' h)))"

definition plain_url :: "string \<Rightarrow> url_parts option" where
  "plain_url v = (case https_authority v of
      None \<Rightarrow> None
    | Some h \<Rightarrow>
        if domain_name h \<and> CHR ''#'' \<notin> set v
        then Some \<lparr>url_scheme = ''https'', url_host = Some h, url_port = Some 443,
          url_username = [], url_password = None, url_fragment = None\<rparr>
        else None)"

definition reads_plain_urls :: "'z libraries_scheme \<Rightarrow> bool" where
  "reads_plain_urls lib \<longleftrightarrow> (\<forall>v u. plain_url v = Some u \<longrightarrow> lib_parse_url lib v = Some u)"

definition plain_reader :: libraries where
  "plain_reader = \<lparr>lib_parse = (\<lambda>_. None), lib_print = (\<lambda>_. None), lib_canonical = (\<lambda>_. None),
     lib_sha256_hex = (\<lambda>s. s), lib_parse_url = plain_url\<rparr>"

lemma plain_reader_url [simp]: "lib_parse_url plain_reader = plain_url"
  by (simp add: plain_reader_def)

subsection \<open>The checks only ask the parser about plain addresses\<close>

lemma https_url_transfer:
  "reads_plain_urls lib \<Longrightarrow> valid_https_url plain_reader v \<Longrightarrow> valid_https_url lib v"
  by (auto simp: valid_https_url_def reads_plain_urls_def split: option.splits if_splits)

lemma redirects_transfer:
  "reads_plain_urls lib \<Longrightarrow> valid_redirect_allowlist plain_reader a \<Longrightarrow> valid_redirect_allowlist lib a"
  by (cases "plain_url (artifact_resolved_url a)")
    (auto simp: valid_redirect_allowlist_def url_host_of_def reads_plain_urls_def field_as_def
      split: option.splits)

lemma artifacts_transfer:
  "reads_plain_urls lib \<Longrightarrow> validate_artifacts_from plain_reader seen as = Inr () \<Longrightarrow>
     validate_artifacts_from lib seen as = Inr ()"
  by (induction as arbitrary: seen)
    (auto simp: valid_artifact_def https_url_transfer redirects_transfer split: if_splits)

lemma bundle_transfer:
  "reads_plain_urls lib \<Longrightarrow> validate_bundle plain_reader b = Inr () \<Longrightarrow> validate_bundle lib b = Inr ()"
  by (auto simp: validate_bundle_def result_simps artifacts_transfer split: if_splits)

lemma model_transfer:
  "reads_plain_urls lib \<Longrightarrow> validate_model_contract plain_reader m = Inr () \<Longrightarrow>
     validate_model_contract lib m = Inr ()"
  by (auto simp: validate_model_contract_def Let_def https_url_transfer bundle_transfer split: if_splits)

lemma vad_transfer:
  "reads_plain_urls lib \<Longrightarrow> validate_vad_contract plain_reader v = Inr () \<Longrightarrow>
     validate_vad_contract lib v = Inr ()"
  by (auto simp: validate_vad_contract_def Let_def https_url_transfer bundle_transfer split: if_splits)

subsection \<open>Each model\<close>

lemma shipped_sense:
  "validate_model_contract plain_reader SENSE_VOICE_MODEL = Inr ()"
  by code_simp

lemma shipped_tiny:
  "validate_model_contract plain_reader (whisper_model ''whisper-tiny'' ''Whisper Tiny'' WHISPER_TINY_ARTIFACTS
     WHISPER_TINY_PATHS ''c46116994e539aa165266d96b325252728429c12535eb9d8b6a2b10f129e66b1'' TINY_INSTALL_CONSTRAINTS) = Inr ()"
  by code_simp

lemma shipped_base:
  "validate_model_contract plain_reader (whisper_model ''whisper-base'' ''Whisper Base'' WHISPER_BASE_ARTIFACTS
     WHISPER_BASE_PATHS ''911b2083efd7c0dca2ac3b358b75222660dc09fb716d64fbfc417ba6c99ff3de'' BASE_INSTALL_CONSTRAINTS) = Inr ()"
  by code_simp

lemma shipped_small:
  "validate_model_contract plain_reader (whisper_model ''whisper-small'' ''Whisper Small'' WHISPER_SMALL_ARTIFACTS
     WHISPER_SMALL_PATHS ''486a46afbb7ba798507190ffe02fea2dd726049af212e774537efac6afb210a6'' SMALL_INSTALL_CONSTRAINTS) = Inr ()"
  by code_simp

lemma shipped_qwen06:
  "validate_model_contract plain_reader QWEN06_MODEL = Inr ()"
  by code_simp

lemma shipped_qwen17:
  "validate_model_contract plain_reader QWEN17_MODEL = Inr ()"
  by code_simp

lemmas shipped_models = shipped_sense shipped_tiny shipped_base shipped_small shipped_qwen06 shipped_qwen17

lemma shipped_vad: "validate_vad_contract plain_reader VAD = Inr ()"
  by code_simp

lemma shipped_identities:
  "list_all (\<lambda>m. bundle_identity_sha256 (manifest_bundle m) = artifact_sha256 (hd (bundle_artifacts (manifest_bundle m))) \<and>
     length (bundle_artifacts (manifest_bundle m)) = 1 \<or> m = QWEN17_MODEL) MODELS"
  by (simp add: MODELS_def SENSE_VOICE_MODEL_def whisper_model_def QWEN06_MODEL_def
      SENSE_ARTIFACTS_def WHISPER_TINY_ARTIFACTS_def WHISPER_BASE_ARTIFACTS_def WHISPER_SMALL_ARTIFACTS_def
      QWEN06_ARTIFACTS_def github_archive_def)

lemma shipped_ids: "map manifest_id MODELS = [''sense-voice-small-int8-2024-07-17'', ''whisper-tiny'',
    ''whisper-base'', ''whisper-small'', ''qwen3-asr-0.6b-int8-2026-03-25'', ''qwen3-asr-1.7b'']"
  by (simp add: MODELS_def SENSE_VOICE_MODEL_def whisper_model_def QWEN06_MODEL_def QWEN17_MODEL_def)

lemma shipped_ids_distinct: "distinct (map manifest_id MODELS)"
  unfolding shipped_ids by simp

lemma find_by_id: "distinct (map manifest_id ms) \<Longrightarrow> m \<in> set ms \<Longrightarrow>
    find (\<lambda>e. manifest_id e = manifest_id m) ms = Some m"
  by (induction ms) auto

lemma validate_models_ok:
  assumes "\<forall>m \<in> set ms. validate_model_contract lib m = Inr () \<and> sha256_identity lib m = Inr () \<and> m \<in> set MODELS"
    and "distinct (map manifest_id ms)" "manifest_id ` set ms \<inter> seen = {}"
  shows "validate_models_from lib seen ms = Inr ()"
  using assms
proof (induction ms arbitrary: seen)
  case (Cons m ms)
  then show ?case by (auto simp: find_by_id [OF shipped_ids_distinct])
qed simp

lemma shipped_identity:
  assumes "lib_canonical lib (bundle_value QWEN17_MODEL) = Some t" "lib_sha256_hex lib t = QWEN17_IDENTITY"
    and m: "m \<in> set MODELS"
  shows "sha256_identity lib m = Inr ()"
proof (cases "m = QWEN17_MODEL")
  case True
  have "bundle_identity_sha256 (manifest_bundle QWEN17_MODEL) = QWEN17_IDENTITY"
    "1 < length (bundle_artifacts (manifest_bundle QWEN17_MODEL))"
    by (simp_all add: QWEN17_MODEL_def QWEN17_ARTIFACTS_def)
  with assms(1,2) show ?thesis
    by (simp add: True sha256_identity_def canonical_bundle_payload_def Let_def)
next
  case False
  with m shipped_identities show ?thesis by (auto simp: sha256_identity_def list_all_iff Let_def)
qed

subsection \<open>The whole registry\<close>

lemma shipped_registry_ok:
  assumes "reads_plain_urls lib"
    and "lib_canonical lib (bundle_value QWEN17_MODEL) = Some t" "lib_sha256_hex lib t = QWEN17_IDENTITY"
  shows "validate_registry lib model_registry vad_manifest = Inr ()"
proof -
  have "validate_models_from lib {} MODELS = Inr ()"
  proof (rule validate_models_ok)
    show "\<forall>m \<in> set MODELS. validate_model_contract lib m = Inr () \<and> sha256_identity lib m = Inr () \<and> m \<in> set MODELS"
      using shipped_identity [OF assms(2,3)] shipped_models [THEN model_transfer [OF assms(1)]]
      by (auto simp: MODELS_def)
  qed (simp_all add: shipped_ids_distinct)
  moreover have "MODELS \<noteq> []" by (simp add: MODELS_def)
  ultimately show ?thesis
    using vad_transfer [OF assms(1) shipped_vad]
    by (simp add: validate_registry_def model_registry_def REGISTRY_def new_registry_def vad_manifest_def)
qed


text \<open>A reader whose digest is constant.\<close>

definition pinned_reader :: libraries where
  "pinned_reader = plain_reader\<lparr>lib_canonical := (\<lambda>_. Some []), lib_sha256_hex := (\<lambda>_. QWEN17_IDENTITY)\<rparr>"


end
