(* ===== verification/Snapshot.thy ===== *)
theory Snapshot
  imports Registry Job_Coordinator
begin

section \<open>Execution snapshots: \<open>catalog/job_snapshot.rs\<close>\<close>

text \<open>
  What a worker is given to execute a claimed job: the job's row joined with its chunk, after the
  claim has been checked against the catalog and every text of the row against its schema.  Decoding
  a settings object and a list of required files is \<open>serde\<close>'s derived code, an argument here; a
  snapshot of the source is a text column, the chunk's source a datatype whose name always parses.
\<close>

subsection \<open>Data\<close>

record RequiredFileSnapshot =
  required_path :: string
  required_byte_length :: u64
  required_sha256 :: string

record ChunkExecutionSnapshot =
  snap_chunk_id :: string
  snap_chunk_source :: AudioSource
  snap_chunk_relative_path :: string
  snap_chunk_sha256 :: string
  snap_chunk_byte_length :: u64
  snap_chunk_session_offset_ms :: i64
  snap_chunk_duration_ms :: "i64 option"

record ModelExecutionSnapshot =
  snap_provider :: AsrProviderKind
  snap_model_id :: string
  snap_manifest_version :: string
  snap_bundle_identity :: string
  snap_required_file_hashes_json :: string
  snap_required_files :: "RequiredFileSnapshot list"
  snap_model_source_json :: string
  snap_model_source :: json

record VadExecutionSnapshot =
  snap_vad_model_id :: string
  snap_vad_manifest_version :: string
  snap_vad_bundle_identity :: string
  snap_vad_required_file_hashes_json :: string
  snap_vad_required_files :: "RequiredFileSnapshot list"

record ExecutionParametersSnapshot =
  snap_parameters_json :: string
  snap_settings :: AsrSettings
  snap_language :: AsrLanguage
  snap_num_threads :: u16
  snap_options :: AsrProviderOptions

record ExecutionSnapshot =
  snap_job_id :: string
  snap_session_id :: string
  snap_chunk :: ChunkExecutionSnapshot
  snap_model :: ModelExecutionSnapshot
  snap_parameters :: ExecutionParametersSnapshot
  snap_vad :: "VadExecutionSnapshot option"

datatype SnapshotError =
    SnapshotOwnership RuntimeOwnershipError
  | SnapshotCatalog db_error
  | SnapshotOwnershipLost
  | SnapshotStageMismatch
  | SnapshotCancelRequested
  | SnapshotLeaseExpired
  | SnapshotInputUnavailable
  | InvalidSnapshot string

record snapshot_libraries = libraries +
  lib_settings_of :: "json \<Rightarrow> AsrSettings option"
  lib_required_files_of :: "string \<Rightarrow> RequiredFileSnapshot list option"
  lib_cpus :: nat

definition parameters_from_settings :: "string \<Rightarrow> AsrSettings \<Rightarrow> ExecutionParametersSnapshot" where
  "parameters_from_settings text s = \<lparr>snap_parameters_json = text, snap_settings = s,
     snap_language = settings_language s, snap_num_threads = settings_num_threads s,
     snap_options = settings_options s\<rparr>"

subsection \<open>Checks of single fields\<close>

definition check :: "string \<Rightarrow> bool \<Rightarrow> SnapshotError + unit" where
  "check field ok = (if ok then Inr () else Inl (InvalidSnapshot field))"

definition invalid_source :: SnapshotError where
  "invalid_source = InvalidSnapshot ''model_source_json''"

definition check_source :: "bool \<Rightarrow> SnapshotError + unit" where
  "check_source ok = (if ok then Inr () else Inl invalid_source)"

definition source_is_some :: "'a option \<Rightarrow> SnapshotError + 'a" where
  "source_is_some v = ok_or invalid_source v"

definition validate_nonempty :: "string \<Rightarrow> string \<Rightarrow> SnapshotError + unit" where
  "validate_nonempty value field = check field (\<not> is_blank value)"

definition validate_digest :: "string \<Rightarrow> string \<Rightarrow> SnapshotError + unit" where
  "validate_digest value field = check field (lower_sha256 value)"

fun is_normal :: "path_component \<Rightarrow> bool" where
  "is_normal (Normal _) = True"
| "is_normal _ = False"

definition relative_path :: "string \<Rightarrow> bool" where
  "relative_path value \<longleftrightarrow>
     value \<noteq> [] \<and> RootDir \<notin> set (path_components value) \<and> list_all is_normal (path_components value)"

definition validate_relative_path :: "string \<Rightarrow> string \<Rightarrow> SnapshotError + unit" where
  "validate_relative_path value field = check field (relative_path value)"

definition validate_exact_keys :: "json_object \<Rightarrow> string list \<Rightarrow> string \<Rightarrow> SnapshotError + unit" where
  "validate_exact_keys object expected field = check field (exact_keys object expected)"

definition validate_text :: "json option \<Rightarrow> string \<Rightarrow> SnapshotError + unit" where
  "validate_text v field = (case field_as value_str v of
      None \<Rightarrow> Inl (InvalidSnapshot field) | Some s \<Rightarrow> check field (\<not> placeholder s))"

definition string_field :: "json_object \<Rightarrow> string \<Rightarrow> SnapshotError + string" where
  "string_field object field =
     and_then (source_is_some (field_as value_str (map_of object field))) (\<lambda>value.
     and_then (validate_text (Some (JString value)) ''model_source_json'') (\<lambda>_. Inr value))"

fun string_items :: "string set \<Rightarrow> json list \<Rightarrow> SnapshotError + string list" where
  "string_items seen [] = Inr []"
| "string_items seen (v # vs) =
     and_then (source_is_some (value_str v)) (\<lambda>s.
     and_then (validate_text (Some (JString s)) ''model_source_json'') (\<lambda>_.
     if s \<in> seen then Inl invalid_source
     else and_then (string_items (insert s seen) vs) (\<lambda>rest. Inr (s # rest))))"

definition string_array :: "json option \<Rightarrow> SnapshotError + string list" where
  "string_array v = and_then (source_is_some (field_as as_array v)) (string_items {})"

definition validate_https :: "'z libraries_scheme \<Rightarrow> string \<Rightarrow> SnapshotError + unit" where
  "validate_https lib value =
     and_then (source_is_some (https_authority value)) (\<lambda>authority.
     and_then (source_is_some (lib_parse_url lib value)) (\<lambda>u.
     check_source (plain_https u \<and> \<not> list_ex is_ascii_uppercase authority)))"

definition validate_https_string ::
    "'z libraries_scheme \<Rightarrow> json option \<Rightarrow> string \<Rightarrow> SnapshotError + unit" where
  "validate_https_string lib v field =
     and_then (ok_or (InvalidSnapshot field) (field_as value_str v)) (validate_https lib)"

definition language_supported :: "string \<Rightarrow> string \<Rightarrow> bool" where
  "language_supported model_id language =
     (if model_id \<in> {''sense-voice-small-int8-2024-07-17'', ''whisper-tiny'', ''whisper-base'', ''whisper-small''}
      then language \<in> {''auto'', ''zh'', ''en'', ''ja'', ''ko'', ''yue''}
      else if model_id = ''qwen3-asr-0.6b-int8-2026-03-25'' then language = ''auto''
      else if model_id = ''qwen3-asr-1.7b'' then language \<in> set [''auto'', ''zh'', ''en'', ''yue'', ''ar'',
        ''de'', ''fr'', ''es'', ''pt'', ''id'', ''it'', ''ko'', ''ru'', ''th'', ''vi'', ''ja'', ''tr'', ''hi'', ''ms'',
        ''nl'', ''sv'', ''da'', ''fi'', ''pl'', ''cs'', ''fil'', ''fa'', ''el'', ''hu'', ''mk'', ''ro'']
      else False)"

text \<open>Both texts are canonical times, so comparing the times is comparing the numbers.\<close>

definition lease_is_current :: "millis option \<Rightarrow> millis \<Rightarrow> bool" where
  "lease_is_current lease now = (case lease of None \<Rightarrow> False | Some l \<Rightarrow> now < l)"

definition provider_of_name :: "string \<Rightarrow> AsrProviderKind option" where
  "provider_of_name name = map_of [(''sense_voice'', SenseVoice), (''whisper'', Whisper),
     (''qwen3_asr'', Qwen3Asr)] name"

subsection \<open>Required files\<close>

fun check_files :: "string \<Rightarrow> string set \<Rightarrow> u64 \<Rightarrow> RequiredFileSnapshot list \<Rightarrow> SnapshotError + unit" where
  "check_files field seen sum_bytes [] = Inr ()"
| "check_files field seen sum_bytes (f # rest) =
     and_then (validate_relative_path (required_path f) field) (\<lambda>_.
     and_then (validate_digest (required_sha256 f) field) (\<lambda>_.
     if required_byte_length f = 0 \<or> required_path f \<in> seen then Inl (InvalidSnapshot field)
     else and_then (ok_or (InvalidSnapshot field) (checked_add sum_bytes (required_byte_length f))) (\<lambda>sum_bytes.
       check_files field (insert (required_path f) seen) sum_bytes rest)))"

definition required_files ::
    "'z snapshot_libraries_scheme \<Rightarrow> string \<Rightarrow> string \<Rightarrow> SnapshotError + RequiredFileSnapshot list" where
  "required_files lib text field =
     and_then (ok_or (InvalidSnapshot field) (lib_required_files_of lib text)) (\<lambda>files.
     if files = [] then Inl (InvalidSnapshot field)
     else and_then (check_files field {} 0 files) (\<lambda>_. Inr files))"

subsection \<open>The model source\<close>

record ArtifactIdentity =
  identity_required_path :: string
  identity_byte_length :: u64
  identity_sha256 :: string
  identity_install_mode :: string

definition ARTIFACT_KEYS :: "string list" where
  "ARTIFACT_KEYS = [''artifact_id'', ''bytes'', ''install_mode'', ''license_spdx'', ''provenance'',
     ''redirect_hosts'', ''required'', ''required_path'', ''resolved_url'', ''revision'', ''sha256'',
     ''source_endpoint'', ''source_model'', ''source_repository'']"

definition artifact_identity ::
    "'z libraries_scheme \<Rightarrow> string set \<Rightarrow> string set \<Rightarrow> json_object \<Rightarrow>
       SnapshotError + string \<times> ArtifactIdentity" where
  "artifact_identity lib ids paths artifact =
     and_then (validate_exact_keys artifact ARTIFACT_KEYS ''model_source_json'') (\<lambda>_.
     and_then (string_field artifact ''artifact_id'') (\<lambda>artifact_id.
     and_then (string_field artifact ''required_path'') (\<lambda>path.
     and_then (string_field artifact ''source_repository'') (\<lambda>source_repository.
     and_then (string_field artifact ''source_endpoint'') (\<lambda>source_endpoint.
     and_then (string_field artifact ''resolved_url'') (\<lambda>resolved_url.
     and_then (string_field artifact ''revision'') (\<lambda>revision.
     and_then (string_field artifact ''sha256'') (\<lambda>sha256.
     and_then (string_field artifact ''install_mode'') (\<lambda>install_mode.
     and_then (validate_text (map_of artifact ''source_model'') ''model_source_json'') (\<lambda>_.
     and_then (validate_text (map_of artifact ''license_spdx'') ''model_source_json'') (\<lambda>_.
     and_then (validate_text (map_of artifact ''provenance'') ''model_source_json'') (\<lambda>_.
     and_then (validate_https lib source_repository) (\<lambda>_.
     and_then (validate_https lib source_endpoint) (\<lambda>_.
     and_then (validate_https lib resolved_url) (\<lambda>_.
     and_then (validate_digest sha256 ''model_source_json'') (\<lambda>_.
     and_then (validate_relative_path path ''model_source_json'') (\<lambda>_.
     and_then (check_source (field_as as_bool (map_of artifact ''required'') = Some True \<and>
         install_mode \<in> {''direct'', ''extract_tar_bz2''} \<and>
         (prefix ''github-release-asset:'' revision \<or> contains_text revision resolved_url) \<and>
         artifact_id \<notin> ids \<and> path \<notin> paths)) (\<lambda>_.
     and_then (source_is_some (field_as as_u64 (map_of artifact ''bytes''))) (\<lambda>byte_length.
     and_then (check_source (0 < byte_length)) (\<lambda>_.
     and_then (string_array (map_of artifact ''redirect_hosts'')) (\<lambda>redirect_hosts.
     and_then (source_is_some (url_host_of lib resolved_url)) (\<lambda>resolved_host.
     and_then (check_source (redirect_hosts \<noteq> [] \<and> resolved_host \<in> set redirect_hosts \<and>
         strictly_increasing redirect_hosts \<and> list_all valid_hostname redirect_hosts)) (\<lambda>_.
     Inr (artifact_id, \<lparr>identity_required_path = path, identity_byte_length = byte_length,
       identity_sha256 = sha256, identity_install_mode = install_mode\<rparr>))))))))))))))))))))))))"

fun artifact_identities ::
    "'z libraries_scheme \<Rightarrow> string set \<Rightarrow> string set \<Rightarrow> json list \<Rightarrow> SnapshotError + ArtifactIdentity list" where
  "artifact_identities lib ids paths [] = Inr []"
| "artifact_identities lib ids paths (v # vs) =
     and_then (source_is_some (as_object v)) (\<lambda>artifact.
     and_then (artifact_identity lib ids paths artifact) (\<lambda>(i, a).
     and_then (artifact_identities lib (insert i ids) (insert (identity_required_path a) paths) vs) (\<lambda>rest.
     Inr (a # rest))))"

definition validate_artifacts ::
    "'z libraries_scheme \<Rightarrow> json option \<Rightarrow> SnapshotError + ArtifactIdentity list" where
  "validate_artifacts lib v =
     and_then (source_is_some (field_as as_array v)) (artifact_identities lib {} {})"

definition file_is_artifact :: "RequiredFileSnapshot \<Rightarrow> ArtifactIdentity \<Rightarrow> bool" where
  "file_is_artifact f a \<longleftrightarrow> identity_required_path a = required_path f \<and>
     identity_byte_length a = required_byte_length f \<and> identity_sha256 a = required_sha256 f"

definition files_match_bundle ::
    "RequiredFileSnapshot list \<Rightarrow> string list \<Rightarrow> ArtifactIdentity list \<Rightarrow> bool" where
  "files_match_bundle files paths artifacts =
     (if list_all (\<lambda>a. identity_install_mode a = ''direct'') artifacts
      then length files = length artifacts \<and> list_all (\<lambda>f. list_ex (file_is_artifact f) artifacts) files
      else list_all (\<lambda>a. identity_install_mode a = ''extract_tar_bz2'') artifacts \<and>
        length files = length paths \<and> list_all (\<lambda>f. list_ex (\<lambda>p. p = required_path f) paths) files \<and>
        list_all (\<lambda>p. count_where (\<lambda>f. required_path f = p) files = 1) paths)"

definition validate_compatibility :: "json option \<Rightarrow> string \<Rightarrow> SnapshotError + unit" where
  "validate_compatibility v model_id =
     and_then (source_is_some (field_as as_object v)) (\<lambda>object.
     if model_id = ''qwen3-asr-1.7b''
     then and_then (validate_exact_keys object [''config_shape'', ''conversion'', ''tokenizer_source'']
              ''model_source_json'') (\<lambda>_.
          and_then (string_field object ''config_shape'') (\<lambda>shape.
          and_then (check_source (shape = ''top_level_thinker_config'')) (\<lambda>_.
          and_then (string_field object ''conversion'') (\<lambda>conversion.
          and_then (check_source (conversion = ''none'')) (\<lambda>_.
          and_then (string_field object ''tokenizer_source'') (\<lambda>tokenizer.
          check_source (tokenizer = ''official_qwen3_asr_1.7b_hf'')))))))
     else and_then (validate_exact_keys object [''archive_contract''] ''model_source_json'') (\<lambda>_.
          and_then (string_field object ''archive_contract'') (\<lambda>contract.
          check_source (contract = ''sherpa_release_required_paths_v1''))))"

definition small_positive :: "json option \<Rightarrow> bool" where
  "small_positive v = (case field_as as_u64 v of None \<Rightarrow> False | Some n \<Rightarrow> n \<noteq> 0 \<and> n \<le> 65535)"

definition validate_device :: "json option \<Rightarrow> SnapshotError + unit" where
  "validate_device v =
     and_then (source_is_some (field_as as_object v)) (\<lambda>object.
     and_then (string_field object ''kind'') (\<lambda>kind.
     if kind = ''any_desktop'' then validate_exact_keys object [''kind''] ''model_source_json''
     else if kind = ''apple_silicon_metal''
     then and_then (validate_exact_keys object [''kind'', ''minimum_macos_major'', ''minimum_memory_gib'']
              ''model_source_json'') (\<lambda>_.
          check_source (small_positive (map_of object ''minimum_macos_major'') \<and>
            small_positive (map_of object ''minimum_memory_gib'')))
     else Inl invalid_source))"

fun validate_texts :: "json_object \<Rightarrow> string list \<Rightarrow> SnapshotError + unit" where
  "validate_texts object [] = Inr ()"
| "validate_texts object (k # ks) =
     and_then (validate_text (map_of object k) ''model_source_json'') (\<lambda>_. validate_texts object ks)"

definition validate_runtime :: "'z libraries_scheme \<Rightarrow> json option \<Rightarrow> SnapshotError + unit" where
  "validate_runtime lib v =
     and_then (source_is_some (field_as as_object v)) (\<lambda>object.
     let keys = (if map_of object ''backend'' \<noteq> None
       then [''backend'', ''cargo_feature'', ''crate'', ''git_commit'', ''git_url'', ''target_arch'',
             ''target_os'', ''version'']
       else [''build_id'', ''cargo_feature'', ''crate'', ''git_commit'', ''native_archive_sha256'', ''version''])
     in and_then (validate_exact_keys object keys ''model_source_json'') (\<lambda>_.
        and_then (validate_texts object keys) (\<lambda>_.
        and_then (case field_as value_str (map_of object ''git_url'') of
            None \<Rightarrow> Inr () | Some url \<Rightarrow> validate_https lib url) (\<lambda>_.
        case field_as value_str (map_of object ''native_archive_sha256'') of
          None \<Rightarrow> Inr () | Some hash \<Rightarrow> validate_digest hash ''model_source_json''))))"

definition without_key :: "string \<Rightarrow> json_object \<Rightarrow> json_object" where
  "without_key k object = filter (\<lambda>(k', _). k' \<noteq> k) object"

definition validate_contract :: "'z libraries_scheme \<Rightarrow> json_object \<Rightarrow> SnapshotError + unit" where
  "validate_contract lib source =
     and_then (source_is_some (field_as value_str (map_of source ''source_contract_sha256''))) (\<lambda>digest.
     and_then (validate_digest digest ''model_source_json'') (\<lambda>_.
     and_then (source_is_some (lib_canonical lib (JObject (without_key ''source_contract_sha256'' source)))) (\<lambda>canonical.
     check_source (lib_sha256_hex lib canonical = digest))))"

definition validate_bundle_object ::
    "'z libraries_scheme \<Rightarrow> AsrProviderKind \<Rightarrow> string \<Rightarrow> string \<Rightarrow> string \<Rightarrow> RequiredFileSnapshot list \<Rightarrow>
       json_object \<Rightarrow> SnapshotError + unit" where
  "validate_bundle_object lib provider model_id version bundle_identity files bundle =
     and_then (validate_exact_keys bundle [''artifacts'', ''compatibility_contract'', ''device_requirement'',
        ''manifest_version'', ''model_id'', ''provider'', ''qualification_policy'', ''required_paths'',
        ''runtime_requirement'', ''schema''] ''model_source_json'') (\<lambda>_.
     and_then (string_field bundle ''schema'') (\<lambda>schema.
     and_then (check_source (schema = ''lifesub.model-bundle.v1'')) (\<lambda>_.
     and_then (string_field bundle ''model_id'') (\<lambda>b_model.
     and_then (check_source (b_model = model_id)) (\<lambda>_.
     and_then (string_field bundle ''manifest_version'') (\<lambda>b_version.
     and_then (check_source (b_version = version)) (\<lambda>_.
     and_then (string_field bundle ''provider'') (\<lambda>b_provider.
     and_then (check_source (b_provider = provider_name provider)) (\<lambda>_.
     and_then (validate_compatibility (map_of bundle ''compatibility_contract'') model_id) (\<lambda>_.
     and_then (validate_device (map_of bundle ''device_requirement'')) (\<lambda>_.
     and_then (validate_runtime lib (map_of bundle ''runtime_requirement'')) (\<lambda>_.
     and_then (string_field bundle ''qualification_policy'') (\<lambda>policy.
     and_then (check_source (policy \<in> {''structural_with_pinned_runtime'', ''runtime_smoke_required''})) (\<lambda>_.
     and_then (string_array (map_of bundle ''required_paths'')) (\<lambda>required_paths.
     and_then (validate_artifacts lib (map_of bundle ''artifacts'')) (\<lambda>artifacts.
     and_then (check_source (required_paths \<noteq> [] \<and> artifacts \<noteq> [])) (\<lambda>_.
     and_then (check_source (files_match_bundle files required_paths artifacts)) (\<lambda>_.
     and_then (source_is_some (lib_canonical lib (JObject bundle))) (\<lambda>canonical.
     let calculated = (if length artifacts = 1 then identity_sha256 (hd artifacts)
       else lib_sha256_hex lib canonical)
     in check_source (calculated = bundle_identity))))))))))))))))))))"

definition validate_model_source ::
    "'z libraries_scheme \<Rightarrow> string \<Rightarrow> AsrProviderKind \<Rightarrow> string \<Rightarrow> string \<Rightarrow> string \<Rightarrow>
       RequiredFileSnapshot list \<Rightarrow> SnapshotError + json" where
  "validate_model_source lib text provider model_id version bundle_identity files =
     and_then (source_is_some (lib_parse lib text)) (\<lambda>value.
     and_then (source_is_some (as_object value)) (\<lambda>source.
     and_then (validate_exact_keys source [''bundle'', ''repository_url'', ''model_card_url'', ''license_spdx'',
        ''provenance'', ''source_contract_sha256''] ''model_source_json'') (\<lambda>_.
     and_then (validate_https_string lib (map_of source ''repository_url'') ''model_source_json'') (\<lambda>_.
     and_then (validate_https_string lib (map_of source ''model_card_url'') ''model_source_json'') (\<lambda>_.
     and_then (validate_text (map_of source ''license_spdx'') ''model_source_json'') (\<lambda>_.
     and_then (validate_text (map_of source ''provenance'') ''model_source_json'') (\<lambda>_.
     and_then (validate_contract lib source) (\<lambda>_.
     and_then (source_is_some (field_as as_object (map_of source ''bundle''))) (\<lambda>bundle.
     and_then (validate_bundle_object lib provider model_id version bundle_identity files bundle) (\<lambda>_.
     Inr value))))))))))"

subsection \<open>Voice activity and parameters\<close>

definition vad_snapshot ::
    "'z snapshot_libraries_scheme \<Rightarrow> string option \<Rightarrow> string option \<Rightarrow> string option \<Rightarrow> string option \<Rightarrow>
       SnapshotError + VadExecutionSnapshot option" where
  "vad_snapshot lib model_id version bundle_identity hashes =
     (case (model_id, version, bundle_identity, hashes) of
        (None, None, None, None) \<Rightarrow> Inr None
      | (Some m, Some v, Some b, Some text) \<Rightarrow>
          and_then (validate_nonempty m ''vad.model_id'') (\<lambda>_.
          and_then (validate_nonempty v ''vad.manifest_version'') (\<lambda>_.
          and_then (validate_digest b ''vad.bundle_identity'') (\<lambda>_.
          and_then (required_files lib text ''vad_required_file_hashes_json'') (\<lambda>files.
          if length files \<noteq> 1 \<or> required_sha256 (hd files) \<noteq> b \<or> required_path (hd files) \<noteq> ''silero_vad.onnx''
          then Inl (InvalidSnapshot ''vad_required_file_hashes_json'')
          else Inr (Some \<lparr>snap_vad_model_id = m, snap_vad_manifest_version = v,
            snap_vad_bundle_identity = b, snap_vad_required_file_hashes_json = text,
            snap_vad_required_files = files\<rparr>)))))
      | _ \<Rightarrow> Inl (InvalidSnapshot ''vad_identity''))"

definition options_schema_valid :: "'z libraries_scheme \<Rightarrow> string \<Rightarrow> AsrProviderKind \<Rightarrow> bool" where
  "options_schema_valid lib text provider =
     (case lib_parse lib text of
        None \<Rightarrow> False
      | Some v \<Rightarrow> (case field_as as_object (json_get v ''options'') of
          None \<Rightarrow> False
        | Some options \<Rightarrow> exact_keys options (case provider of
              SenseVoice \<Rightarrow> [''provider'', ''use_itn'']
            | Whisper \<Rightarrow> [''provider'', ''task'']
            | Qwen3Asr \<Rightarrow> [''provider''])))"

definition parameters_snapshot ::
    "'z snapshot_libraries_scheme \<Rightarrow> job_row \<Rightarrow> AsrProviderKind \<Rightarrow> SnapshotError + AsrSettings" where
  "parameters_snapshot lib j provider =
     (let invalid = InvalidSnapshot ''parameters_json'' in
      and_then (ok_or invalid (lib_parse lib (job_parameters_json j))) (\<lambda>v.
      and_then (ok_or invalid (as_object v)) (\<lambda>object.
      and_then (validate_exact_keys object [''provider'', ''model_id'', ''language'', ''num_threads'',
         ''vad_enabled'', ''auto_transcribe_imports'', ''options''] ''parameters_json'') (\<lambda>_.
      and_then (ok_or invalid (lib_settings_of lib v)) (\<lambda>s.
      if settings_provider s \<noteq> provider \<or> settings_model_id s \<noteq> job_model_id j \<or>
         settings_num_threads s = 0 \<or> lib_cpus lib < unat (settings_num_threads s) \<or>
         \<not> language_supported (job_model_id j) (as_str (settings_language s)) \<or>
         \<not> matches_provider (settings_options s) provider \<or>
         \<not> options_schema_valid lib (job_parameters_json j) provider
      then Inl invalid else Inr s)))))"

subsection \<open>The snapshot\<close>

definition claim_check ::
    "ClaimToken \<Rightarrow> ExecutionStage \<Rightarrow> millis \<Rightarrow> job_row \<Rightarrow> chunk_row \<Rightarrow> SnapshotError + unit" where
  "claim_check t stage now j c =
     (if \<not> (job_claimed_by j = Some (token_claimed_by t) \<and>
            job_claim_generation j = token_claim_generation t)
      then Inl SnapshotOwnershipLost
      else if \<not> (case stage of StagePreparing \<Rightarrow> job_state j = Preparing
                  | StageTranscribing \<Rightarrow> job_state j = Transcribing)
      then Inl SnapshotStageMismatch
      else if job_cancel_requested_at j \<noteq> None then Inl SnapshotCancelRequested
      else if \<not> lease_is_current (job_lease_expires_at j) now then Inl SnapshotLeaseExpired
      else if \<not> (job_session_id j = chunk_session_id c \<and> chunk_integrity c = Available \<and>
                 job_input_sha256 j = chunk_sha256 c)
      then Inl SnapshotInputUnavailable
      else Inr ())"

definition into_snapshot ::
    "'z snapshot_libraries_scheme \<Rightarrow> ClaimToken \<Rightarrow> ExecutionStage \<Rightarrow> millis \<Rightarrow> job_row \<Rightarrow> chunk_row \<Rightarrow>
       SnapshotError + ExecutionSnapshot" where
  "into_snapshot lib t stage now j c =
     and_then (claim_check t stage now j c) (\<lambda>_.
     and_then (validate_nonempty (token_job_id t) ''job.id'') (\<lambda>_.
     and_then (validate_nonempty (job_session_id j) ''job.session_id'') (\<lambda>_.
     and_then (validate_nonempty (job_chunk_id j) ''chunk.id'') (\<lambda>_.
     and_then (validate_relative_path (chunk_path c) ''chunk.path'') (\<lambda>_.
     and_then (validate_digest (chunk_sha256 c) ''chunk.sha256'') (\<lambda>_.
     and_then (check ''chunk.byte_length'' (0 < chunk_byte_length c)) (\<lambda>_.
     and_then (check ''chunk.session_offset_ms'' (0 \<le> chunk_session_offset_ms c)) (\<lambda>_.
     and_then (check ''chunk.duration_ms'' (case chunk_duration_ms c of None \<Rightarrow> True | Some d \<Rightarrow> 0 < d)) (\<lambda>_.
     and_then (ok_or (InvalidSnapshot ''job.provider'') (provider_of_name (job_provider j))) (\<lambda>provider.
     and_then (validate_nonempty (job_model_id j) ''job.model_id'') (\<lambda>_.
     and_then (validate_nonempty (job_manifest_version j) ''job.manifest_version'') (\<lambda>_.
     and_then (validate_digest (job_archive_sha256 j) ''job.bundle_identity'') (\<lambda>_.
     and_then (required_files lib (job_required_file_hashes_json j) ''required_file_hashes_json'') (\<lambda>files.
     and_then (validate_model_source lib (job_model_source_json j) provider (job_model_id j)
         (job_manifest_version j) (job_archive_sha256 j) files) (\<lambda>source.
     and_then (parameters_snapshot lib j provider) (\<lambda>settings.
     and_then (vad_snapshot lib (job_vad_model_id j) (job_vad_manifest_version j)
         (job_vad_archive_sha256 j) (job_vad_required_file_hashes_json j)) (\<lambda>vad.
     if settings_vad_enabled settings \<noteq> (vad \<noteq> None) then Inl (InvalidSnapshot ''parameters_json'')
     else Inr \<lparr>snap_job_id = token_job_id t, snap_session_id = job_session_id j,
       snap_chunk = \<lparr>snap_chunk_id = job_chunk_id j, snap_chunk_source = chunk_source c,
         snap_chunk_relative_path = chunk_path c, snap_chunk_sha256 = chunk_sha256 c,
         snap_chunk_byte_length = chunk_byte_length c,
         snap_chunk_session_offset_ms = chunk_session_offset_ms c,
         snap_chunk_duration_ms = chunk_duration_ms c\<rparr>,
       snap_model = \<lparr>snap_provider = provider, snap_model_id = job_model_id j,
         snap_manifest_version = job_manifest_version j, snap_bundle_identity = job_archive_sha256 j,
         snap_required_file_hashes_json = job_required_file_hashes_json j,
         snap_required_files = files, snap_model_source_json = job_model_source_json j,
         snap_model_source = source\<rparr>,
       snap_parameters = parameters_from_settings (job_parameters_json j) settings,
       snap_vad = vad\<rparr>)))))))))))))))))"

definition load_execution_snapshot ::
    "'z snapshot_libraries_scheme \<Rightarrow> ClaimToken \<Rightarrow> ExecutionStage \<Rightarrow> millis \<Rightarrow> catalog \<Rightarrow>
       SnapshotError + ExecutionSnapshot" where
  "load_execution_snapshot lib t stage now cat =
     (case find (\<lambda>j. job_id j = token_job_id t) (jobs cat) of
        None \<Rightarrow> Inl SnapshotOwnershipLost
      | Some j \<Rightarrow> (case find_chunk (job_chunk_id j) cat of
          None \<Rightarrow> Inl SnapshotOwnershipLost
        | Some c \<Rightarrow> into_snapshot lib t stage now j c))"

text \<open>Through the ownership guard, as the repository calls it.\<close>

fun snapshot_refusal :: "JobCatalogError \<Rightarrow> SnapshotError" where
  "snapshot_refusal (GuardRefused e) = SnapshotOwnership e"
| "snapshot_refusal (DatabaseFailed e) = SnapshotCatalog e"

definition repository_load_snapshot ::
    "'z snapshot_libraries_scheme \<Rightarrow> job_env \<Rightarrow> ClaimToken \<Rightarrow> ExecutionStage \<Rightarrow> job_world \<Rightarrow>
       (SnapshotError + ExecutionSnapshot) \<times> job_world" where
  "repository_load_snapshot lib env t stage w =
     (let (now, w) = read_clock env w;
          (r, w) = guarded env (query_op (\<lambda>cat. Inr (load_execution_snapshot lib t stage (canonical_time now) cat))) w
      in (case r of Inl e \<Rightarrow> Inl (snapshot_refusal e) | Inr x \<Rightarrow> x, w))"

end
