(* ===== verification/Enqueue.thy ===== *)
theory Enqueue
  imports Snapshot
begin

section \<open>Enqueueing a transcription: \<open>asr/service.rs\<close>\<close>

text \<open>
  A request is checked against the models, the chunk and the providers, frozen into a job row with
  everything a worker will need, and stored unless the same work is already active.  The lookup of
  capabilities and the provider factory are arguments, as in the source; the fresh identifier too.
  One request at a time holds the reservation of a fingerprint; a request that finds it taken waits,
  so the model runs a request when it has it.
\<close>

subsection \<open>Reservations\<close>

type_synonym reservations = "string set"

text \<open>\<open>None\<close>: the caller waits on the condition variable.\<close>

definition reserve :: "string \<Rightarrow> reservations \<Rightarrow> reservations option" where
  "reserve fingerprint active = (if fingerprint \<in> active then None else Some (insert fingerprint active))"

definition release :: "string \<Rightarrow> reservations \<Rightarrow> reservations" where
  "release fingerprint active = active - {fingerprint}"

subsection \<open>Requests\<close>

definition DEFAULT_VAD_MODEL_ID :: string where
  "DEFAULT_VAD_MODEL_ID = ''silero-vad-2024-01-17''"

record ProviderSelection =
  selection_language :: string
  selection_num_threads :: u16
  selection_options :: AsrProviderOptions

record AsrEnqueueRequest =
  request_session_id :: string
  request_chunk_id :: string
  request_input_sha256 :: string
  request_settings :: AsrSettings
  request_selection :: ProviderSelection
  request_vad_model_id :: "string option"

record AsrEnqueueOutcome =
  enqueued_job_id :: string
  enqueued_inserted :: bool

record service_libraries = snapshot_libraries +
  lib_print_settings :: "AsrSettings \<Rightarrow> string option"

record enqueue_env =
  enqueue_models :: model_lookup
  enqueue_validate_constructible :: "AsrSettings \<Rightarrow> ProviderSelection \<Rightarrow> AsrErrorCode + unit"
  enqueue_uuid :: string

definition validate_selection :: "AsrSettings \<Rightarrow> ProviderSelection \<Rightarrow> AsrErrorCode + unit" where
  "validate_selection s sel =
     (if selection_language sel \<noteq> as_str (settings_language s) \<or>
         selection_num_threads sel \<noteq> settings_num_threads s \<or>
         selection_options sel \<noteq> settings_options s
      then Inl InvalidProviderParameter else Inr ())"

subsection \<open>What is frozen into the job\<close>

definition required_file_value :: "RequiredInstallFile \<Rightarrow> json" where
  "required_file_value f = JObject [(''bytes'', JNumber (PosInt (install_bytes f))),
     (''path'', JString (install_path f)), (''sha256'', JString (install_sha256 f))]"

definition required_files_value :: "ArtifactBundle \<Rightarrow> json" where
  "required_files_value b =
     JArray (map required_file_value (sort_key install_path (constraint_files (bundle_install_constraints b))))"

definition required_file_hashes_from_bundle ::
    "'z libraries_scheme \<Rightarrow> ArtifactBundle \<Rightarrow> AsrErrorCode + string" where
  "required_file_hashes_from_bundle lib b =
     ok_or InvalidProviderParameter (lib_canonical lib (required_files_value b))"

definition required_file_hashes :: "'z libraries_scheme \<Rightarrow> ModelManifest \<Rightarrow> AsrErrorCode + string" where
  "required_file_hashes lib m = required_file_hashes_from_bundle lib (manifest_bundle m)"

definition source_fields :: "json \<Rightarrow> ModelManifest \<Rightarrow> json_object" where
  "source_fields bundle m = [
     (''bundle'', bundle),
     (''license_spdx'', JString (source_license_spdx (manifest_source m))),
     (''model_card_url'', JString (source_model_card_url (manifest_source m))),
     (''provenance'', JString (source_provenance (manifest_source m))),
     (''repository_url'', JString (source_repository_url (manifest_source m)))]"

text \<open>The added key is the greatest, so the map keeps it last.\<close>

definition model_source :: "'z libraries_scheme \<Rightarrow> ModelManifest \<Rightarrow> AsrErrorCode + string" where
  "model_source lib m =
     and_then (ok_or InvalidProviderParameter (canonical_bundle_payload lib m)) (\<lambda>payload.
     and_then (ok_or InvalidProviderParameter (lib_parse lib payload)) (\<lambda>bundle.
     let source = source_fields bundle m in
     and_then (ok_or InvalidProviderParameter (lib_canonical lib (JObject source))) (\<lambda>canonical.
     ok_or InvalidProviderParameter (lib_print lib (JObject (source @
       [(''source_contract_sha256'', JString (lib_sha256_hex lib canonical))]))))))"

definition fingerprint ::
    "'z libraries_scheme \<Rightarrow> AsrEnqueueRequest \<Rightarrow> ModelManifest \<Rightarrow> string \<Rightarrow> VadManifest option \<Rightarrow> string" where
  "fingerprint lib req m parameters vad =
     (let zero = [CHR 0x00] in
      lib_sha256_hex lib (request_session_id req @ zero @ request_chunk_id req @ zero @
        request_input_sha256 req @ zero @ manifest_id m @ zero @
        bundle_identity_sha256 (manifest_bundle m) @ zero @ parameters @ zero @
        (case vad of None \<Rightarrow> [] | Some v \<Rightarrow> bundle_identity_sha256 (vad_bundle v))))"

subsection \<open>The checks before the catalog\<close>

definition choose_vad :: "enqueue_env \<Rightarrow> AsrEnqueueRequest \<Rightarrow> AsrErrorCode + VadManifest option" where
  "choose_vad env req =
     (if settings_vad_enabled (request_settings req)
      then and_then (ok_or ModelCapabilityUnavailable (request_vad_model_id req)) (\<lambda>vad_id.
           and_then (ok_or ModelCapabilityUnavailable (enqueue_models env vad_id)) (\<lambda>c.
           if \<not> cap_executable c \<or> vad_id \<noteq> DEFAULT_VAD_MODEL_ID then Inl ModelCapabilityUnavailable
           else Inr (Some vad_manifest)))
      else Inr None)"

record frozen_job =
  frozen_manifest :: ModelManifest
  frozen_vad :: "VadManifest option"
  frozen_parameters :: string
  frozen_files :: string
  frozen_source :: string
  frozen_vad_files :: "string option"

definition freeze ::
    "'z service_libraries_scheme \<Rightarrow> enqueue_env \<Rightarrow> AsrEnqueueRequest \<Rightarrow> AsrErrorCode + frozen_job" where
  "freeze lib env req =
     (let s = request_settings req in
      and_then (map_err settings_error_code (validate_settings (lib_cpus lib) (enqueue_models env) s)) (\<lambda>_.
      and_then (validate_selection s (request_selection req)) (\<lambda>_.
      and_then (ok_or ModelNotInstalled (registry_model model_registry (settings_model_id s))) (\<lambda>m.
      if manifest_provider m \<noteq> settings_provider s then Inl InvalidProviderParameter
      else and_then (choose_vad env req) (\<lambda>vad.
        and_then (ok_or InvalidProviderParameter (lib_print_settings lib s)) (\<lambda>parameters.
        and_then (required_file_hashes lib m) (\<lambda>files.
        and_then (model_source lib m) (\<lambda>source.
        and_then (case vad of None \<Rightarrow> Inr None
            | Some v \<Rightarrow> and_then (required_file_hashes_from_bundle lib (vad_bundle v)) (\<lambda>t. Inr (Some t))) (\<lambda>vad_files.
        Inr \<lparr>frozen_manifest = m, frozen_vad = vad, frozen_parameters = parameters,
          frozen_files = files, frozen_source = source, frozen_vad_files = vad_files\<rparr>)))))))))"

definition enqueue_job ::
    "enqueue_env \<Rightarrow> AsrEnqueueRequest \<Rightarrow> frozen_job \<Rightarrow> string \<Rightarrow> millis \<Rightarrow> EnqueueJob" where
  "enqueue_job env req f print now = \<lparr>enq_id = ''asr_'' @ enqueue_uuid env,
     enq_session_id = request_session_id req, enq_chunk_id = request_chunk_id req,
     enq_provider = provider_name (settings_provider (request_settings req)),
     enq_model_id = manifest_id (frozen_manifest f),
     enq_manifest_version = manifest_version (frozen_manifest f),
     enq_archive_sha256 = bundle_identity_sha256 (manifest_bundle (frozen_manifest f)),
     enq_required_file_hashes_json = frozen_files f, enq_model_source_json = frozen_source f,
     enq_vad_model_id = map_option vad_id (frozen_vad f),
     enq_vad_manifest_version = map_option vad_version (frozen_vad f),
     enq_vad_archive_sha256 = map_option (\<lambda>v. bundle_identity_sha256 (vad_bundle v)) (frozen_vad f),
     enq_vad_required_file_hashes_json = frozen_vad_files f,
     enq_parameters_json = frozen_parameters f, enq_input_sha256 = request_input_sha256 req,
     enq_fingerprint = print, enq_available_at = now, enq_created_at = now\<rparr>"

subsection \<open>Enqueueing\<close>

fun input_answer :: "InputValidation \<Rightarrow> AsrErrorCode + unit" where
  "input_answer InputAvailable = Inr ()"
| "input_answer InputMissing = Inl AsrErrorCode.InputUnavailable"
| "input_answer InputValidation.InputUnavailable = Inl AsrErrorCode.InputUnavailable"
| "input_answer IdentityMismatch = Inl InputIntegrityFailed"

fun commit_answer :: "JobError + EnqueueOutcome \<Rightarrow> AsrErrorCode + AsrEnqueueOutcome" where
  "commit_answer (Inr out) = Inr \<lparr>enqueued_job_id = outcome_job_id out,
     enqueued_inserted = outcome_inserted out\<rparr>"
| "commit_answer (Inl (JobInput code)) = Inl code"
| "commit_answer (Inl _) = Inl RecoveryRequired"

text \<open>Under the reservation: answer the active job of the same work, or store a new one.\<close>

definition enqueue_reserved ::
    "enqueue_env \<Rightarrow> job_env \<Rightarrow> AsrEnqueueRequest \<Rightarrow> frozen_job \<Rightarrow> string \<Rightarrow> job_world \<Rightarrow>
       (AsrErrorCode + AsrEnqueueOutcome) \<times> job_world" where
  "enqueue_reserved env jenv req f print w =
     (let (r, w) = repository_active_job_for_fingerprint jenv print w in
      case r of
        Inl _ \<Rightarrow> (Inl RecoveryRequired, w)
      | Inr (Some i) \<Rightarrow> (Inr \<lparr>enqueued_job_id = i, enqueued_inserted = False\<rparr>, w)
      | Inr None \<Rightarrow>
          (case enqueue_validate_constructible env (request_settings req) (request_selection req) of
             Inl e \<Rightarrow> (Inl e, w)
           | Inr _ \<Rightarrow>
               let (now, w) = read_clock jenv w;
                   (r, w) = repository_commit_enqueue jenv (enqueue_job env req f print (canonical_time now)) w
               in (commit_answer r, w)))"

definition enqueue ::
    "'z service_libraries_scheme \<Rightarrow> enqueue_env \<Rightarrow> job_env \<Rightarrow> AsrEnqueueRequest \<Rightarrow> job_world \<Rightarrow>
       (AsrErrorCode + AsrEnqueueOutcome) \<times> job_world" where
  "enqueue lib env jenv req w = (case freeze lib env req of
      Inl e \<Rightarrow> (Inl e, w)
    | Inr f \<Rightarrow>
        let print = fingerprint lib req (frozen_manifest f) (frozen_parameters f) (frozen_vad f);
            (r, w) = repository_validate_input jenv (request_session_id req) (request_chunk_id req)
              (request_input_sha256 req) w
        in (case r of
              Inl _ \<Rightarrow> (Inl RecoveryRequired, w)
            | Inr v \<Rightarrow> (case input_answer v of
                Inl e \<Rightarrow> (Inl e, w)
              | Inr _ \<Rightarrow> enqueue_reserved env jenv req f print w)))"

end
