(* ===== verification/Enqueue_Load.thy ===== *)
theory Enqueue_Load
  imports Enqueue Shipped_Registry "HOL-Library.Multiset"
begin

section \<open>From enqueueing to execution\<close>

text \<open>
  The registry, the enqueue service and the snapshot validation are three pieces of code that repeat
  each other's checks on different shapes of the same data.  Here the checks are shown to fit: what
  the service freezes into a job is what the worker's validation accepts.
\<close>

subsection \<open>The registry's checks imply the snapshot's\<close>

lemma check_ok [result_simps]: "check f b = Inr u \<longleftrightarrow> b" "check_source b = Inr u \<longleftrightarrow> b"
  by (auto simp: check_def check_source_def)

lemma source_is_some_ok [result_simps]: "source_is_some v = Inr x \<longleftrightarrow> v = Some x"
  by (simp add: source_is_some_def result_simps)

lemma snapshot_checks [simp]:
  "check f True = Inr ()" "check_source True = Inr ()" "source_is_some (Some x) = Inr x"
  by (simp_all add: check_def check_source_def source_is_some_def)

lemma validate_text_ok: "\<not> placeholder s \<Longrightarrow> validate_text (Some (JString s)) f = Inr ()"
  by (simp add: validate_text_def check_def)

lemma string_field_ok:
  "map_of members k = Some (JString s) \<Longrightarrow> \<not> placeholder s \<Longrightarrow> string_field members k = Inr s"
  by (simp add: string_field_def validate_text_ok)

lemma https_ok:
  assumes "valid_https_url lib url"
  shows "validate_https lib url = Inr ()"
  using assms by (auto simp: valid_https_url_def validate_https_def split: option.splits if_splits)

lemma not_any_blank: "\<not> any_blank ss \<longleftrightarrow> (\<forall>s \<in> set ss. \<not> placeholder s)"
  by (auto simp: any_blank_def list_ex_iff)

lemma relative_path_ok:
  assumes "valid_relative_path p"
  shows "relative_path p"
proof -
  have comps: "c \<noteq> [] \<and> c \<noteq> ''.'' \<and> c \<noteq> ''..''" if "c \<in> set (split_on CHR ''/'' p)" for c
    using assms that by (auto simp: valid_relative_path_def list_all_iff)
  have part: "part_component c = [Normal c]" if "c \<in> set (split_on CHR ''/'' p)" for c
    using comps [OF that] by (simp add: part_component_def)
  have "path_components p = map Normal (split_on CHR ''/'' p)"
  proof (cases "split_on CHR ''/'' p")
    case (Cons first rest)
    have "concat (map part_component rest) = map Normal rest"
      using part unfolding Cons by (induction rest) auto
    moreover have "part_component first = [Normal first]" "first \<noteq> []" "first \<noteq> ''.''"
      using part comps Cons by auto
    ultimately show ?thesis by (simp add: path_components_def Cons)
  qed simp
  then show ?thesis
    using assms by (auto simp: relative_path_def valid_relative_path_def list_all_iff)
qed

subsection \<open>Artifacts\<close>

definition identity_of :: "ArtifactFile \<Rightarrow> ArtifactIdentity" where
  "identity_of a = \<lparr>identity_required_path = artifact_required_path a,
     identity_byte_length = artifact_bytes a, identity_sha256 = artifact_sha256 a,
     identity_install_mode = install_mode_name (artifact_install_mode a)\<rparr>"

lemma string_items_ok:
  assumes "\<forall>s \<in> set ss. \<not> placeholder s" "distinct ss" "seen \<inter> set ss = {}"
  shows "string_items seen (map JString ss) = Inr ss"
  using assms by (induction ss arbitrary: seen) (auto simp: validate_text_ok)

lemma string_array_ok:
  assumes "\<forall>s \<in> set ss. \<not> placeholder s" "distinct ss"
  shows "string_array (Some (json_strings ss)) = Inr ss"
  using assms by (simp add: string_array_def json_strings_def string_items_ok)

lemma strictly_increasing_distinct: "strictly_increasing xs \<Longrightarrow> distinct xs"
proof -
  have "strictly_increasing xs \<Longrightarrow> sorted_wrt (<) xs" for xs :: "string list"
    by (induction xs rule: strictly_increasing.induct) (auto intro: less_trans)
  then show "strictly_increasing xs \<Longrightarrow> distinct xs"
    using strict_sorted_iff by blast
qed

lemma install_mode_text: "\<not> placeholder (install_mode_name m)"
  by (cases m) (simp_all add: placeholder_def not_blank_Cons printable_def)

lemma artifact_identity_ok:
  assumes a: "valid_artifact lib a" and ids: "artifact_id a \<notin> ids" "artifact_required_path a \<notin> paths"
    and hosts: "\<forall>h \<in> set (artifact_redirect_hosts a). \<not> placeholder h"
    and digest: "\<not> placeholder (artifact_sha256 a)"
  shows "as_object (artifact_payload a) = Some members \<Longrightarrow>
    artifact_identity lib ids paths members = Inr (artifact_id a, identity_of a)"
proof -
  assume m: "as_object (artifact_payload a) = Some members"
  have texts: "\<not> placeholder (artifact_id a)" "\<not> placeholder (artifact_source_repository a)"
    "\<not> placeholder (artifact_source_model a)" "\<not> placeholder (artifact_source_endpoint a)"
    "\<not> placeholder (artifact_resolved_url a)" "\<not> placeholder (artifact_revision a)"
    "\<not> placeholder (artifact_required_path a)" "\<not> placeholder (artifact_license_spdx a)"
    "\<not> placeholder (artifact_provenance a)"
    using a by (simp_all add: valid_artifact_def not_any_blank)
  have https: "validate_https lib (artifact_source_repository a) = Inr ()"
    "validate_https lib (artifact_source_endpoint a) = Inr ()"
    "validate_https lib (artifact_resolved_url a) = Inr ()"
    using a by (simp_all add: valid_artifact_def https_ok)
  obtain host where host: "url_host_of lib (artifact_resolved_url a) = Some host"
    "host \<in> set (artifact_redirect_hosts a)" "list_all valid_hostname (artifact_redirect_hosts a)"
    using a by (auto simp: valid_artifact_def valid_redirect_allowlist_def split: option.splits)
  then have some_host: "artifact_redirect_hosts a \<noteq> []" by auto
  have hs: "strictly_increasing (artifact_redirect_hosts a)"
    using a by (simp add: valid_artifact_def)
  have rest: "relative_path (artifact_required_path a)" "lower_sha256 (artifact_sha256 a)"
    "0 < artifact_bytes a" "artifact_required a" "pinned_revision a"
    using a by (simp_all add: valid_artifact_def relative_path_ok is_sha256_def)
  have arr: "string_array (Some (json_strings (artifact_redirect_hosts a))) = Inr (artifact_redirect_hosts a)"
    using hosts strictly_increasing_distinct [OF hs] by (rule string_array_ok)
  have mode: "install_mode_name (artifact_install_mode a) \<in> {''direct'', ''extract_tar_bz2''}"
    by (cases "artifact_install_mode a") simp_all
  have members: "members = [
     (''artifact_id'', JString (artifact_id a)),
     (''bytes'', JNumber (PosInt (artifact_bytes a))),
     (''install_mode'', JString (install_mode_name (artifact_install_mode a))),
     (''license_spdx'', JString (artifact_license_spdx a)),
     (''provenance'', JString (artifact_provenance a)),
     (''redirect_hosts'', json_strings (artifact_redirect_hosts a)),
     (''required'', JBool (artifact_required a)),
     (''required_path'', JString (artifact_required_path a)),
     (''resolved_url'', JString (artifact_resolved_url a)),
     (''revision'', JString (artifact_revision a)),
     (''sha256'', JString (artifact_sha256 a)),
     (''source_endpoint'', JString (artifact_source_endpoint a)),
     (''source_model'', JString (artifact_source_model a)),
     (''source_repository'', JString (artifact_source_repository a))]"
    using m by (simp add: artifact_payload_def)
  have keys: "exact_keys members ARTIFACT_KEYS"
    unfolding members exact_keys_def ARTIFACT_KEYS_def by simp
  have fields: "map_of members ''source_model'' = Some (JString (artifact_source_model a))"
    "map_of members ''license_spdx'' = Some (JString (artifact_license_spdx a))"
    "map_of members ''provenance'' = Some (JString (artifact_provenance a))"
    "map_of members ''required'' = Some (JBool (artifact_required a))"
    "map_of members ''bytes'' = Some (JNumber (PosInt (artifact_bytes a)))"
    "map_of members ''redirect_hosts'' = Some (json_strings (artifact_redirect_hosts a))"
    unfolding members by simp_all
  have strings: "string_field members ''artifact_id'' = Inr (artifact_id a)"
    "string_field members ''required_path'' = Inr (artifact_required_path a)"
    "string_field members ''source_repository'' = Inr (artifact_source_repository a)"
    "string_field members ''source_endpoint'' = Inr (artifact_source_endpoint a)"
    "string_field members ''resolved_url'' = Inr (artifact_resolved_url a)"
    "string_field members ''revision'' = Inr (artifact_revision a)"
    "string_field members ''sha256'' = Inr (artifact_sha256 a)"
    "string_field members ''install_mode'' = Inr (install_mode_name (artifact_install_mode a))"
    by (rule string_field_ok; simp add: members texts digest install_mode_text)+
  show ?thesis
    unfolding artifact_identity_def
    using keys fields strings texts https host some_host hs rest arr mode ids
    by (simp add: validate_exact_keys_def validate_text_ok validate_digest_def validate_relative_path_def
        identity_of_def pinned_revision_def check_source_def)
qed
lemma artifact_identities_ok:
  assumes "\<forall>a \<in> set as. valid_artifact lib a \<and> \<not> placeholder (artifact_sha256 a) \<and>
      (\<forall>h \<in> set (artifact_redirect_hosts a). \<not> placeholder h)"
    and "distinct (map artifact_id as)" "distinct (map artifact_required_path as)"
    and "ids \<inter> artifact_id ` set as = {}" "paths \<inter> artifact_required_path ` set as = {}"
  shows "artifact_identities lib ids paths (map artifact_payload as) = Inr (map identity_of as)"
  using assms
proof (induction as arbitrary: ids paths)
  case Nil
  then show ?case by simp
next
  case (Cons a as)
  obtain members where m: "as_object (artifact_payload a) = Some members"
    by (simp add: artifact_payload_def)
  have "artifact_identity lib ids paths members = Inr (artifact_id a, identity_of a)"
    using Cons.prems by (intro artifact_identity_ok [OF _ _ _ _ _ m]) auto
  moreover have "identity_required_path (identity_of a) = artifact_required_path a"
    by (simp add: identity_of_def)
  moreover have "artifact_identities lib (insert (artifact_id a) ids)
      (insert (artifact_required_path a) paths) (map artifact_payload as) = Inr (map identity_of as)"
    using Cons.prems by (intro Cons.IH) auto
  ultimately show ?case by (simp add: m)
qed

lemma validated_artifacts_from:
  "validate_artifacts_from lib seen as = Inr u \<Longrightarrow>
     distinct (map artifact_id as) \<and> seen \<inter> artifact_id ` set as = {} \<and> (\<forall>a \<in> set as. valid_artifact lib a)"
  by (induction lib seen as rule: validate_artifacts_from.induct) (auto split: if_splits)

subsection \<open>Required files\<close>

definition file_of :: "RequiredInstallFile \<Rightarrow> RequiredFileSnapshot" where
  "file_of f = \<lparr>required_path = install_path f, required_byte_length = install_bytes f,
     required_sha256 = install_sha256 f\<rparr>"

lemma file_of_sel [simp]:
  "required_path (file_of f) = install_path f" "required_byte_length (file_of f) = install_bytes f"
  "required_sha256 (file_of f) = install_sha256 f"
  by (simp_all add: file_of_def)

definition total_bytes :: "RequiredInstallFile list \<Rightarrow> nat" where
  "total_bytes fs = (\<Sum>f \<leftarrow> fs. unat (install_bytes f))"

lemma summed_files:
  "sum_required_files seen written largest fs = Some (n, m) \<Longrightarrow>
     (\<forall>f \<in> set fs. valid_relative_path (install_path f) \<and> install_bytes f \<noteq> 0 \<and> lower_sha256 (install_sha256 f)) \<and>
     distinct (map install_path fs) \<and> seen \<inter> install_path ` set fs = {} \<and>
     unat n = unat written + total_bytes fs"
proof (induction seen written largest fs rule: sum_required_files.induct)
  case (1 seen written largest)
  then show ?case by (simp add: total_bytes_def)
next
  case (2 seen written largest f rest)
  from 2(2) have ok: "valid_relative_path (install_path f)" "install_bytes f \<noteq> 0" "lower_sha256 (install_sha256 f)"
    "install_path f \<notin> seen"
    by (auto simp: is_sha256_def split: if_splits)
  from 2(2) ok obtain w where w: "checked_add written (install_bytes f) = Some w"
    "sum_required_files (insert (install_path f) seen) w (max largest (install_bytes f)) rest = Some (n, m)"
    by (auto simp: is_sha256_def split: if_splits option.splits)
  have "unat w = unat written + unat (install_bytes f)"
    using w(1) by (simp only: checked_simps)
  with 2(1) [OF _ w] ok show ?case by (auto simp: is_sha256_def total_bytes_def)
qed

lemma check_files_ok:
  assumes "\<forall>f \<in> set fs. valid_relative_path (install_path f) \<and> install_bytes f \<noteq> 0 \<and> lower_sha256 (install_sha256 f)"
    and "distinct (map install_path fs)" "seen \<inter> install_path ` set fs = {}"
    and "unat acc + total_bytes fs < 2 ^ 64"
  shows "check_files field seen acc (map file_of fs) = Inr ()"
  using assms
proof (induction fs arbitrary: seen acc)
  case Nil
  then show ?case by simp
next
  case (Cons f fs)
  have f: "relative_path (install_path f)" "lower_sha256 (install_sha256 f)" "install_bytes f \<noteq> 0"
    "install_path f \<notin> seen" using Cons.prems by (auto simp: relative_path_ok)
  have "unat acc + unat (install_bytes f) < 2 ^ 64"
    using Cons.prems(4) by (simp add: total_bytes_def)
  then obtain w where w: "checked_add acc (install_bytes f) = Some w"
    by (cases "checked_add acc (install_bytes f)") (auto simp: checked_add_None_iff)
  then have "unat w = unat acc + unat (install_bytes f)" by (simp only: checked_simps)
  then have "check_files field (insert (install_path f) seen) w (map file_of fs) = Inr ()"
    using Cons.prems by (intro Cons.IH) (auto simp: total_bytes_def)
  with f w show ?case by (simp add: validate_relative_path_def validate_digest_def)
qed

lemma total_bytes_sort: "total_bytes (sort_key k fs) = total_bytes fs"
  unfolding total_bytes_def by (simp flip: sum_mset_sum_list)

lemma distinct_map_sort: "distinct (map g (sort_key k xs)) = distinct (map g xs)"
  by (rule mset_eq_imp_distinct_iff) simp

lemma overlap_free: "overlapping_from ps = Inr u \<Longrightarrow> distinct ps \<and> (\<forall>p \<in> set ps. valid_relative_path p)"
  by (induction ps rule: overlapping_from.induct)
    (auto simp: list_ex_iff paths_overlap_def split: if_splits)

text \<open>Checked install constraints: the files are sound, and they are the bundle's.\<close>

lemma validated_constraints:
  assumes "validate_install_constraints b = Inr u"
  shows "constraint_files (bundle_install_constraints b) \<noteq> [] \<and>
    (\<forall>f \<in> set (constraint_files (bundle_install_constraints b)).
       valid_relative_path (install_path f) \<and> install_bytes f \<noteq> 0 \<and> lower_sha256 (install_sha256 f)) \<and>
    distinct (map install_path (constraint_files (bundle_install_constraints b))) \<and>
    total_bytes (constraint_files (bundle_install_constraints b)) < 2 ^ 64 \<and>
    length (bundle_required_paths b) = length (constraint_files (bundle_install_constraints b)) \<and>
    set (bundle_required_paths b) \<subseteq> install_path ` set (constraint_files (bundle_install_constraints b)) \<and>
    install_modes_fit b (bundle_install_constraints b)"
proof -
  obtain n m where s: "sum_required_files {} 0 0 (constraint_files (bundle_install_constraints b)) = Some (n, m)"
    using assms by (auto simp: validate_install_constraints_def Let_def split: if_splits option.splits)
  note facts = summed_files [OF s]
  then have "total_bytes (constraint_files (bundle_install_constraints b)) = unat n" by simp
  moreover have "unat n < 2 ^ 64" using unat_less_exp [of n] by simp
  ultimately have small: "total_bytes (constraint_files (bundle_install_constraints b)) < 2 ^ 64" by simp
  show ?thesis
    using assms facts s small
    by (auto simp: validate_install_constraints_def Let_def list_all_iff split: if_splits)
qed
subsection \<open>Facts about the models of the registry\<close>

text \<open>A text that is visibly no placeholder.\<close>

definition visible_text :: "string \<Rightarrow> bool" where
  "visible_text s \<longleftrightarrow> s \<noteq> [] \<and> printable (hd s) \<and> CHR ''T'' \<notin> set s \<and> CHR ''P'' \<notin> set s \<and> s \<noteq> ''null''"

lemma visible_text_ok: "visible_text s \<Longrightarrow> \<not> placeholder s"
proof -
  assume v: "visible_text s"
  then have "\<not> is_blank s" by (cases s) (auto simp: visible_text_def not_blank_Cons)
  moreover have "\<not> contains_text ''TODO'' s" "\<not> contains_text ''PLACEHOLDER'' s"
    using v by (auto simp: contains_text_iff visible_text_def sublist_def)
  ultimately show ?thesis using v by (simp add: placeholder_def visible_text_def)
qed

lemma sha256_visible: "lower_sha256 s \<Longrightarrow> \<not> placeholder s"
proof -
  assume s: "lower_sha256 s"
  then obtain c t where ct: "s = c # t" by (cases s) (auto simp: lower_sha256_def)
  have hex: "is_lower_hex x" if "x \<in> set s" for x
    using s that by (auto simp: lower_sha256_def list_all_iff)
  have "is_lower_hex c" using hex ct by simp
  then have "printable c"
    by (auto simp: is_lower_hex_def is_ascii_digit_def printable_def less_eq_char_def)
  moreover have "CHR ''T'' \<notin> set s" "CHR ''P'' \<notin> set s"
    using hex by (fastforce simp: is_lower_hex_def is_ascii_digit_def less_eq_char_def)+
  moreover have "s \<noteq> ''null''" using s by (auto simp: lower_sha256_def)
  ultimately show ?thesis using ct by (intro visible_text_ok) (simp add: visible_text_def)
qed

definition registry_facts :: "ModelManifest \<Rightarrow> bool" where
  "registry_facts m \<longleftrightarrow>
     distinct (map artifact_required_path (bundle_artifacts (manifest_bundle m))) \<and>
     list_all (\<lambda>a. list_all visible_text (artifact_redirect_hosts a)) (bundle_artifacts (manifest_bundle m)) \<and>
     list_all visible_text (bundle_required_paths (manifest_bundle m)) \<and>
     list_all (language_supported (manifest_id m)) (manifest_languages m)"

lemma models_facts: "list_all registry_facts MODELS"
proof -
  have "list_all (\<lambda>m. distinct (map artifact_required_path (bundle_artifacts (manifest_bundle m)))) MODELS"
    by code_simp
  moreover have "list_all (\<lambda>m. list_all (\<lambda>a. list_all visible_text (artifact_redirect_hosts a))
      (bundle_artifacts (manifest_bundle m))) MODELS" by code_simp
  moreover have "list_all (\<lambda>m. list_all visible_text (bundle_required_paths (manifest_bundle m))) MODELS"
    by code_simp
  moreover have "list_all (\<lambda>m. list_all (language_supported (manifest_id m)) (manifest_languages m)) MODELS"
    by code_simp
  ultimately show ?thesis by (simp add: registry_facts_def list_all_iff)
qed

subsection \<open>A bundle of the registry\<close>

lemma validate_bundle_parts:
  assumes "validate_bundle lib b = Inr u"
  shows "bundle_artifacts b \<noteq> [] \<and> bundle_required_paths b \<noteq> [] \<and>
    distinct (map artifact_id (bundle_artifacts b)) \<and> (\<forall>a \<in> set (bundle_artifacts b). valid_artifact lib a) \<and>
    distinct (bundle_required_paths b) \<and> validate_install_constraints b = Inr ()"
  using assms validated_artifacts_from [of lib "{}" "bundle_artifacts b"] overlap_free [of "bundle_required_paths b"]
  by (auto simp: validate_bundle_def result_simps split: if_splits)

lemma archive_files_are_paths:
  assumes "length paths = length fs" "set paths \<subseteq> install_path ` set fs" "distinct paths"
    "distinct (map install_path fs)"
  shows "set paths = install_path ` set fs"
proof (rule card_subset_eq)
  show "finite (install_path ` set fs)" by simp
  show "set paths \<subseteq> install_path ` set fs" by (rule assms(2))
  have "card (set paths) = length paths" using assms(3) by (rule distinct_card)
  moreover have "card (install_path ` set fs) = length fs"
    using distinct_card [OF assms(4)] by simp
  ultimately show "card (set paths) = card (install_path ` set fs)" using assms(1) by simp
qed

lemma files_match_ok:
  assumes "validate_bundle lib b = Inr u"
  shows "files_match_bundle (map file_of (sort_key install_path (constraint_files (bundle_install_constraints b))))
    (bundle_required_paths b) (map identity_of (sort_key artifact_id (bundle_artifacts b)))"
proof -
  note parts = validate_bundle_parts [OF assms]
  then have c: "validate_install_constraints b = Inr ()" by simp
  note facts = validated_constraints [OF c]
  show ?thesis
  proof (cases "bundle_install_constraints b")
    case (Direct d)
    with facts have d: "list_all (\<lambda>a. artifact_install_mode a = InstallDirect) (bundle_artifacts b)"
      "length (bundle_artifacts b) = length (direct_required_files d)"
      "\<forall>f \<in> set (direct_required_files d). count_where (same_file f) (bundle_artifacts b) = 1"
      by (simp_all add: list_all_iff)
    have "\<exists>a \<in> set (bundle_artifacts b). file_is_artifact (file_of f) (identity_of a)"
      if f: "f \<in> set (direct_required_files d)" for f
    proof -
      have "count_where (same_file f) (bundle_artifacts b) \<noteq> 0" using d(3) f by simp
      then have "list_ex (same_file f) (bundle_artifacts b)" by (simp only: count_where_zero_iff) simp
      then show ?thesis
        by (auto simp: list_ex_iff same_file_def file_is_artifact_def identity_of_def)
    qed
    with d Direct show ?thesis
      by (auto simp: files_match_bundle_def list_all_iff list_ex_iff identity_of_def)
  next
    case (Archive a)
    let ?fs = "archive_required_files a" and ?ps = "bundle_required_paths b"
    have modes: "\<forall>x \<in> set (bundle_artifacts b). artifact_install_mode x = InstallExtractTarBz2"
      and len: "length ?ps = length ?fs" and dist: "distinct (map install_path ?fs)"
      using facts Archive by (simp_all add: list_all_iff)
    have same: "set ?ps = install_path ` set ?fs"
      using facts parts Archive by (intro archive_files_are_paths) simp_all
    have "count_where (\<lambda>f. required_path f = p) (map file_of (sort_key install_path ?fs)) = 1"
      if p: "p \<in> set ?ps" for p
    proof -
      have "distinct (map required_path (map file_of (sort_key install_path ?fs)))"
        using dist by (simp add: comp_def distinct_map_sort)
      from count_where_key_iff [OF this, of p "\<lambda>_. True"] show ?thesis
        using p same by (auto simp: list_ex_iff)
    qed
    moreover have "bundle_artifacts b \<noteq> []" using parts by simp
    ultimately show ?thesis
      using modes len same Archive
      by (auto simp: files_match_bundle_def list_all_iff list_ex_iff identity_of_def)
  qed
qed

lemma validate_artifacts_ok:
  assumes b: "validate_bundle lib b = Inr u"
    and dist: "distinct (map artifact_required_path (bundle_artifacts b))"
    and hosts: "list_all (\<lambda>a. list_all visible_text (artifact_redirect_hosts a)) (bundle_artifacts b)"
  shows "validate_artifacts lib (Some (JArray (map artifact_payload (sort_key artifact_id (bundle_artifacts b))))) =
    Inr (map identity_of (sort_key artifact_id (bundle_artifacts b)))"
proof -
  have "valid_artifact lib a \<and> \<not> placeholder (artifact_sha256 a) \<and>
      (\<forall>h \<in> set (artifact_redirect_hosts a). \<not> placeholder h)" if "a \<in> set (bundle_artifacts b)" for a
    using validate_bundle_parts [OF b] hosts that
    by (auto simp: list_all_iff visible_text_ok valid_artifact_def is_sha256_def sha256_visible)
  then show ?thesis
    using validate_bundle_parts [OF b] dist
    by (simp add: validate_artifacts_def artifact_identities_ok distinct_map_sort)
qed

subsection \<open>The platform\<close>

lemma expected_platform_payloads:
  assumes "(r, d, q) = expected_platform i"
    and "validate_https lib ''https://github.com/alan890104/qwen3-asr-rs.git'' = Inr ()"
  shows "validate_device (Some (device_payload d)) = Inr ()"
    "validate_runtime lib (Some (runtime_payload r)) = Inr ()"
    "\<not> placeholder (qualification_name q)"
    "qualification_name q \<in> {''structural_with_pinned_runtime'', ''runtime_smoke_required''}"
proof -
  have dev: "validate_device (Some (device_payload AnyDesktop)) = Inr ()"
    "validate_device (Some (device_payload (AppleSiliconMetal 14 24))) = Inr ()" by code_simp+
  have texts: "validate_text (Some (JString s)) ''model_source_json'' = Inr ()" if "visible_text s" for s
    by (rule validate_text_ok [OF visible_text_ok [OF that]])
  show "validate_device (Some (device_payload d)) = Inr ()"
    using assms(1) dev by (auto simp: expected_platform_def split: if_splits)
  have "lower_sha256 ''339c8fc19bb4b26e118c80792bbc4546eb263040fac36ef0cc027ec29c756b44''" by code_simp
  moreover have "list_all visible_text [''1.13.5'', ''3dc7c569f31ca2cd4a20ed6f7db780327e6714c5'',
      ''339c8fc19bb4b26e118c80792bbc4546eb263040fac36ef0cc027ec29c756b44'',
      ''sherpa-onnx-v1.13.5-osx-arm64-static-lib'', ''static'', ''sherpa-onnx'', ''qwen3-asr'', ''0.2.2'',
      ''https://github.com/alan890104/qwen3-asr-rs.git'', ''c5ef09646af6278d2ba8b8ceaf543ffb32d1a5dc'',
      ''metal'', ''macos'', ''aarch64'', ''candle_metal'']" by code_simp
  ultimately show "validate_runtime lib (Some (runtime_payload r)) = Inr ()"
    using assms by (auto simp: expected_platform_def SHERPA_RUNTIME_def QWEN_RUNTIME_def Let_def
        pinned_sherpa_runtime_identity_def validate_runtime_def validate_exact_keys_def exact_keys_def texts
        validate_digest_def split: if_splits)
  have "list_all visible_text (map qualification_name [StructuralWithPinnedRuntime, RuntimeSmokeRequired])"
    by code_simp
  then show "\<not> placeholder (qualification_name q)"
    "qualification_name q \<in> {''structural_with_pinned_runtime'', ''runtime_smoke_required''}"
    by (cases q; simp add: visible_text_ok)+
qed

lemma compatibility_ok: "validate_compatibility (Some (compatibility_payload m)) (manifest_id m) = Inr ()"
proof -
  have v: "list_all visible_text [''top_level_thinker_config'', ''none'', ''official_qwen3_asr_1.7b_hf'',
      ''sherpa_release_required_paths_v1'']" by code_simp
  then show ?thesis
    by (simp add: compatibility_payload_def validate_compatibility_def validate_exact_keys_def exact_keys_def
        string_field_def validate_text_ok visible_text_ok)
qed
lemma sort_key_empty: "sort_key k xs = [] \<longleftrightarrow> xs = []"
  by (metis length_0_conv length_sort)

lemma kind_name_provider: "kind_name p = provider_name p"
  by (cases p) simp_all

lemma provider_text: "\<not> placeholder (provider_name p)" "provider_of_name (provider_name p) = Some p"
proof -
  have "list_all visible_text (map provider_name [SenseVoice, Whisper, Qwen3Asr])" by code_simp
  then show "\<not> placeholder (provider_name p)" by (cases p) (simp_all add: visible_text_ok)
  show "provider_of_name (provider_name p) = Some p" by (cases p) (simp_all add: provider_of_name_def)
qed

lemma placeholder_blank: "\<not> placeholder s \<Longrightarrow> \<not> is_blank s"
  by (simp add: placeholder_def)

text \<open>What the validation of a model says, and the identity of its bundle.\<close>

definition model_checked :: "'z libraries_scheme \<Rightarrow> ModelManifest \<Rightarrow> bool" where
  "model_checked lib m \<longleftrightarrow> validate_model_contract lib m = Inr () \<and> sha256_identity lib m = Inr () \<and>
     registry_facts m"

lemma validated_models_from:
  "validate_models_from lib seen ms = Inr u \<Longrightarrow> m \<in> set ms \<Longrightarrow>
     validate_model_contract lib m = Inr () \<and> sha256_identity lib m = Inr () \<and> m \<in> set MODELS"
proof (induction lib seen ms rule: validate_models_from.induct)
  case (2 lib seen x rest)
  from 2(2) obtain e where x: "manifest_id x \<notin> seen" "validate_model_contract lib x = Inr ()" "sha256_identity lib x = Inr ()"
    "find (\<lambda>e. manifest_id e = manifest_id x) MODELS = Some e" "e = x"
    "validate_models_from lib (insert (manifest_id x) seen) rest = Inr u"
    by (auto simp: result_simps split: if_splits)
  show ?case
  proof (cases "m = x")
    case True
    with x show ?thesis by (auto simp: find_Some_iff)
  next
    case False
    with 2(3) have "m \<in> set rest" by simp
    from 2(1) [OF x(1,2,3) _ _ x(6) this] x(4,5) show ?thesis by simp
  qed
qed simp

lemma validated_registry:
  assumes "validate_registry lib model_registry vad_manifest = Inr u" "registry_model model_registry i = Some m"
  shows "model_checked lib m \<and> manifest_id m = i \<and> validate_vad_contract lib VAD = Inr ()"
proof -
  have models: "validate_models_from lib {} MODELS = Inr ()" "validate_vad_contract lib VAD = Inr u"
    using assms(1) by (auto simp: validate_registry_def model_registry_def REGISTRY_def new_registry_def
        vad_manifest_def result_simps split: if_splits)
  have m: "m \<in> set MODELS" "manifest_id m = i"
    using assms(2) by (auto simp: registry_model_def model_registry_def REGISTRY_def new_registry_def find_Some_iff)
  from validated_models_from [OF models(1) m(1)] models_facts m models(2)
  show ?thesis by (simp add: model_checked_def list_all_iff)
qed

definition expected_files :: "ArtifactBundle \<Rightarrow> RequiredFileSnapshot list" where
  "expected_files b = map file_of (sort_key install_path (constraint_files (bundle_install_constraints b)))"

definition qwen_runtime_url :: string where
  "qwen_runtime_url = ''https://github.com/alan890104/qwen3-asr-rs.git''"

lemma checked_parts:
  assumes "model_checked lib m"
  shows "validate_bundle lib (manifest_bundle m) = Inr ()"
    "(manifest_runtime m, manifest_device m, manifest_qualification m) = expected_platform (manifest_id m)"
    "\<not> placeholder (manifest_id m)" "\<not> placeholder (manifest_version m)"
    "validate_https lib (source_repository_url (manifest_source m)) = Inr ()"
    "validate_https lib (source_model_card_url (manifest_source m)) = Inr ()"
    "\<not> placeholder (source_license_spdx (manifest_source m))" "\<not> placeholder (source_provenance (manifest_source m))"
  using assms by (auto simp: model_checked_def validate_model_contract_def Let_def not_any_blank https_ok
      split: if_splits)

lemma bundle_object_ok:
  assumes m: "model_checked lib m" and canon: "lib_canonical lib (bundle_value m) = Some payload"
    and url: "validate_https lib qwen_runtime_url = Inr ()"
    and members: "bundle_value m = JObject members"
  shows "validate_bundle_object lib (manifest_provider m) (manifest_id m) (manifest_version m)
    (bundle_identity_sha256 (manifest_bundle m)) (expected_files (manifest_bundle m)) members = Inr ()"
proof -
  let ?b = "manifest_bundle m"
  let ?as = "sort_key artifact_id (bundle_artifacts ?b)"
  note parts = checked_parts [OF m]
  have facts: "distinct (map artifact_required_path (bundle_artifacts ?b))"
    "list_all (\<lambda>a. list_all visible_text (artifact_redirect_hosts a)) (bundle_artifacts ?b)"
    "\<forall>p \<in> set (bundle_required_paths ?b). \<not> placeholder p"
    using m by (auto simp: model_checked_def registry_facts_def list_all_iff visible_text_ok)
  note parts2 = validate_bundle_parts [OF parts(1)]
  have mem: "members = [
     (''artifacts'', JArray (map artifact_payload ?as)),
     (''compatibility_contract'', compatibility_payload m),
     (''device_requirement'', device_payload (manifest_device m)),
     (''manifest_version'', JString (manifest_version m)),
     (''model_id'', JString (manifest_id m)),
     (''provider'', JString (kind_name (manifest_provider m))),
     (''qualification_policy'', JString (qualification_name (manifest_qualification m))),
     (''required_paths'', json_strings (bundle_required_paths ?b)),
     (''runtime_requirement'', runtime_payload (manifest_runtime m)),
     (''schema'', JString ''lifesub.model-bundle.v1'')]"
    using members by (simp add: bundle_value_def)
  have keys: "exact_keys members [''artifacts'', ''compatibility_contract'', ''device_requirement'',
        ''manifest_version'', ''model_id'', ''provider'', ''qualification_policy'', ''required_paths'',
        ''runtime_requirement'', ''schema'']"
    unfolding mem exact_keys_def by simp
  have schema: "visible_text ''lifesub.model-bundle.v1''" by code_simp
  note platform = expected_platform_payloads [OF parts(2) url [unfolded qwen_runtime_url_def]]
  have strings: "string_field members ''schema'' = Inr ''lifesub.model-bundle.v1''"
    "string_field members ''model_id'' = Inr (manifest_id m)"
    "string_field members ''manifest_version'' = Inr (manifest_version m)"
    "string_field members ''provider'' = Inr (provider_name (manifest_provider m))"
    "string_field members ''qualification_policy'' = Inr (qualification_name (manifest_qualification m))"
    by (rule string_field_ok; simp add: mem kind_name_provider provider_text parts platform schema visible_text_ok)+
  have fields: "map_of members ''compatibility_contract'' = Some (compatibility_payload m)"
    "map_of members ''device_requirement'' = Some (device_payload (manifest_device m))"
    "map_of members ''runtime_requirement'' = Some (runtime_payload (manifest_runtime m))"
    "map_of members ''required_paths'' = Some (json_strings (bundle_required_paths ?b))"
    "map_of members ''artifacts'' = Some (JArray (map artifact_payload ?as))"
    unfolding mem by simp_all
  have paths: "string_array (Some (json_strings (bundle_required_paths ?b))) = Inr (bundle_required_paths ?b)"
    using facts(3) parts2 by (intro string_array_ok) auto
  have artifacts: "validate_artifacts lib (Some (JArray (map artifact_payload ?as))) = Inr (map identity_of ?as)"
    using validate_artifacts_ok [OF parts(1) facts(1,2)] .
  have match: "files_match_bundle (expected_files ?b) (bundle_required_paths ?b) (map identity_of ?as)"
    unfolding expected_files_def by (rule files_match_ok [OF parts(1)])
  have some: "bundle_required_paths ?b \<noteq> []" "map identity_of ?as \<noteq> []" using parts2 by (auto simp: sort_key_empty)
  have ident: "(if length (map identity_of ?as) = 1 then identity_sha256 (hd (map identity_of ?as))
      else lib_sha256_hex lib payload) = bundle_identity_sha256 ?b"
  proof (cases "length (bundle_artifacts ?b) = 1")
    case True
    then obtain a where "bundle_artifacts ?b = [a]" by (cases "bundle_artifacts ?b") auto
    with m show ?thesis by (auto simp: model_checked_def sha256_identity_def identity_of_def split: if_splits)
  next
    case False
    moreover have "length (bundle_artifacts ?b) \<noteq> 0" using parts2 by simp
    ultimately have "1 < length (bundle_artifacts ?b)" by linarith
    with m False canon show ?thesis
      by (auto simp: model_checked_def sha256_identity_def canonical_bundle_payload_def split: if_splits)
  qed
  have canon': "lib_canonical lib (JObject members) = Some payload" using canon members by simp
  show ?thesis
    unfolding validate_bundle_object_def
    using keys strings fields paths artifacts match some ident canon' platform compatibility_ok [of m]
    by (simp add: validate_exact_keys_def Let_def)
qed

lemma model_source_ok:
  assumes m: "model_checked lib m" and url: "validate_https lib qwen_runtime_url = Inr ()"
    and sha: "\<And>t. lower_sha256 (lib_sha256_hex lib t)"
    and payload: "prints_faithfully lib (bundle_value m)"
    and contract: "prints_faithfully lib (JObject (source_fields (bundle_value m) m))"
    and full: "\<And>d. lower_sha256 d \<Longrightarrow> prints_faithfully lib
      (JObject (source_fields (bundle_value m) m @ [(''source_contract_sha256'', JString d)]))"
  obtains t v where "model_source lib m = Inr t"
    "validate_model_source lib t (manifest_provider m) (manifest_id m) (manifest_version m)
      (bundle_identity_sha256 (manifest_bundle m)) (expected_files (manifest_bundle m)) = Inr v"
proof -
  note parts = checked_parts [OF m]
  let ?src = "source_fields (bundle_value m) m"
  obtain p where p: "lib_canonical lib (bundle_value m) = Some p" "lib_parse lib p = Some (bundle_value m)"
    using payload by (elim prints_faithfullyE)
  obtain c where c: "lib_canonical lib (JObject ?src) = Some c"
    using contract by (elim prints_faithfullyE)
  define d where "d = lib_sha256_hex lib c"
  let ?all = "?src @ [(''source_contract_sha256'', JString d)]"
  have d: "lower_sha256 d" unfolding d_def by (rule sha)
  obtain t where t: "lib_print lib (JObject ?all) = Some t" "lib_parse lib t = Some (JObject ?all)"
    using full [OF d] by (elim prints_faithfullyE)
  obtain members where mem: "bundle_value m = JObject members" by (simp add: bundle_value_def)
  have strip: "without_key ''source_contract_sha256'' ?all = ?src"
    by (simp add: without_key_def source_fields_def)
  have fields: "map_of ?all ''repository_url'' = Some (JString (source_repository_url (manifest_source m)))"
    "map_of ?all ''model_card_url'' = Some (JString (source_model_card_url (manifest_source m)))"
    "map_of ?all ''license_spdx'' = Some (JString (source_license_spdx (manifest_source m)))"
    "map_of ?all ''provenance'' = Some (JString (source_provenance (manifest_source m)))"
    "map_of ?all ''source_contract_sha256'' = Some (JString d)"
    "map_of ?all ''bundle'' = Some (JObject members)"
    by (simp_all add: source_fields_def mem)
  have keys: "exact_keys ?all [''bundle'', ''repository_url'', ''model_card_url'', ''license_spdx'',
        ''provenance'', ''source_contract_sha256'']"
    by (simp add: exact_keys_def source_fields_def)
  have "validate_contract lib ?all = Inr ()"
    unfolding validate_contract_def strip fields using d c by (simp add: validate_digest_def d_def)
  moreover note bundle_object_ok [OF m p(1) url mem]
  ultimately have "validate_model_source lib t (manifest_provider m) (manifest_id m) (manifest_version m)
      (bundle_identity_sha256 (manifest_bundle m)) (expected_files (manifest_bundle m)) = Inr (JObject ?all)"
    unfolding validate_model_source_def
    using t keys fields parts
    by (simp add: validate_exact_keys_def validate_https_string_def validate_text_ok)
  moreover have "model_source lib m = Inr t"
    using p c t by (simp add: model_source_def canonical_bundle_payload_def Let_def d_def)
  ultimately show thesis by (intro that)
qed
subsection \<open>What the program relies on in its libraries\<close>

text \<open>The shape \<open>serde\<close>'s derived code gives settings.\<close>

fun options_value :: "AsrProviderOptions \<Rightarrow> json" where
  "options_value (SenseVoiceOptions itn) =
     JObject [(''provider'', JString ''sense_voice''), (''use_itn'', JBool itn)]"
| "options_value (WhisperOptions task) =
     JObject [(''provider'', JString ''whisper''),
       (''task'', JString (case task of Transcribe \<Rightarrow> ''transcribe'' | Translate \<Rightarrow> ''translate''))]"
| "options_value Qwen3AsrOptions = JObject [(''provider'', JString ''qwen3_asr'')]"

definition settings_value :: "AsrSettings \<Rightarrow> json" where
  "settings_value s = JObject [
     (''auto_transcribe_imports'', JBool (settings_auto_transcribe_imports s)),
     (''language'', JString (as_str (settings_language s))),
     (''model_id'', JString (settings_model_id s)),
     (''num_threads'', JNumber (PosInt (ucast (settings_num_threads s)))),
     (''options'', options_value (settings_options s)),
     (''provider'', JString (provider_name (settings_provider s))),
     (''vad_enabled'', JBool (settings_vad_enabled s))]"

definition settings_parse_back :: "'z service_libraries_scheme \<Rightarrow> AsrSettings \<Rightarrow> bool" where
  "settings_parse_back lib s = (case lib_print_settings lib s of
      None \<Rightarrow> False
    | Some t \<Rightarrow> lib_parse lib t = Some (settings_value s) \<and> lib_settings_of lib (settings_value s) = Some s)"

definition files_parse_back :: "'z snapshot_libraries_scheme \<Rightarrow> ArtifactBundle \<Rightarrow> bool" where
  "files_parse_back lib b = (case lib_canonical lib (required_files_value b) of
      None \<Rightarrow> False
    | Some t \<Rightarrow> lib_required_files_of lib t = Some (expected_files b))"

definition model_parses_back :: "'z snapshot_libraries_scheme \<Rightarrow> ModelManifest \<Rightarrow> bool" where
  "model_parses_back lib m \<longleftrightarrow>
     prints_faithfully lib (bundle_value m) \<and>
     prints_faithfully lib (JObject (source_fields (bundle_value m) m)) \<and>
     (\<forall>d. lower_sha256 d \<longrightarrow> prints_faithfully lib
        (JObject (source_fields (bundle_value m) m @ [(''source_contract_sha256'', JString d)]))) \<and>
     files_parse_back lib (manifest_bundle m)"

definition libraries_agree :: "'z service_libraries_scheme \<Rightarrow> AsrSettings \<Rightarrow> bool" where
  "libraries_agree lib s \<longleftrightarrow>
     (\<forall>t. lower_sha256 (lib_sha256_hex lib t)) \<and>
     (case lib_parse_url lib qwen_runtime_url of None \<Rightarrow> False | Some u \<Rightarrow> plain_https u) \<and>
     (\<forall>m. registry_model model_registry (settings_model_id s) = Some m \<longrightarrow> model_parses_back lib m) \<and>
     files_parse_back lib (vad_bundle VAD) \<and> settings_parse_back lib s"

lemma qwen_url_ok:
  assumes "libraries_agree lib s"
  shows "validate_https lib qwen_runtime_url = Inr ()"
proof -
  have "https_authority qwen_runtime_url = Some ''github.com''" by code_simp
  moreover have "\<not> list_ex is_ascii_uppercase ''github.com''" by code_simp
  ultimately show ?thesis
    using assms by (auto simp: libraries_agree_def validate_https_def split: option.splits)
qed

subsection \<open>The job's texts\<close>

lemma required_files_ok:
  assumes "validate_install_constraints b = Inr u" "lib_required_files_of lib t = Some (expected_files b)"
  shows "required_files lib t field = Inr (expected_files b)"
proof -
  note facts = validated_constraints [OF assms(1)]
  have "check_files field {} 0 (expected_files b) = Inr ()"
    unfolding expected_files_def using facts
    by (intro check_files_ok) (auto simp: distinct_map_sort total_bytes_sort)
  moreover have "expected_files b \<noteq> []" using facts by (simp add: expected_files_def sort_key_empty)
  ultimately show ?thesis using assms(2) by (simp add: required_files_def)
qed

lemma vad_constraints: "validate_vad_contract lib VAD = Inr u \<Longrightarrow> validate_install_constraints (vad_bundle VAD) = Inr ()"
  by (auto simp: validate_vad_contract_def Let_def split: if_splits dest: validate_bundle_parts)

lemma vad_facts:
  "expected_files (vad_bundle VAD) = [\<lparr>required_path = ''silero_vad.onnx'', required_byte_length = 643854,
     required_sha256 = bundle_identity_sha256 (vad_bundle VAD)\<rparr>]"
  "lower_sha256 (bundle_identity_sha256 (vad_bundle VAD))"
  "\<not> is_blank (vad_id VAD)" "\<not> is_blank (vad_version VAD)"
  by code_simp+

lemma vad_snapshot_ok:
  assumes "validate_vad_contract lib VAD = Inr u" "lib_required_files_of lib t = Some (expected_files (vad_bundle VAD))"
  shows "\<exists>v. vad_snapshot lib (Some (vad_id VAD)) (Some (vad_version VAD))
    (Some (bundle_identity_sha256 (vad_bundle VAD))) (Some t) = Inr (Some v)"
  using required_files_ok [OF vad_constraints [OF assms(1)] assms(2)] vad_facts
  by (simp add: vad_snapshot_def validate_nonempty_def validate_digest_def)

lemma options_schema_ok:
  assumes "lib_parse lib t = Some (settings_value s)" "matches_provider (settings_options s) p"
  shows "options_schema_valid lib t p"
  using assms by (cases "settings_options s"; cases p)
    (simp_all add: options_schema_valid_def json_get_def settings_value_def exact_keys_def)

lemma parameters_ok:
  assumes rt: "settings_parse_back lib s" and t: "lib_print_settings lib s = Some t"
    and j: "job_parameters_json j = t" "job_model_id j = settings_model_id s"
    and valid: "validate_settings (lib_cpus lib) models s = Inr u"
    and lang: "language_supported (settings_model_id s) (as_str (settings_language s))"
  shows "parameters_snapshot lib j (settings_provider s) = Inr s"
proof -
  have parse: "lib_parse lib t = Some (settings_value s)" "lib_settings_of lib (settings_value s) = Some s"
    using rt t by (simp_all add: settings_parse_back_def)
  have v: "matches_provider (settings_options s) (settings_provider s)" "settings_num_threads s \<noteq> 0"
    "unat (settings_num_threads s) \<le> lib_cpus lib"
    using valid by (auto simp: validate_settings_ok)
  obtain members where mem: "settings_value s = JObject members" by (simp add: settings_value_def)
  have "exact_keys members [''provider'', ''model_id'', ''language'', ''num_threads'',
         ''vad_enabled'', ''auto_transcribe_imports'', ''options'']"
    using mem by (auto simp: settings_value_def exact_keys_def)
  then show ?thesis
    using parse v j lang options_schema_ok [OF parse(1) v(1)]
    by (simp add: parameters_snapshot_def mem validate_exact_keys_def Let_def)
qed

text \<open>What an import leaves in the chunk's row.\<close>

definition chunk_sound :: "chunk_row \<Rightarrow> bool" where
  "chunk_sound c \<longleftrightarrow> relative_path (chunk_path c) \<and> lower_sha256 (chunk_sha256 c) \<and>
     0 < chunk_byte_length c \<and> 0 \<le> chunk_session_offset_ms c \<and>
     (case chunk_duration_ms c of None \<Rightarrow> True | Some d \<Rightarrow> 0 < d)"

definition lookup_fits :: "enqueue_env \<Rightarrow> bool" where
  "lookup_fits env \<longleftrightarrow> (\<forall>m \<in> set MODELS. case enqueue_models env (manifest_id m) of
      None \<Rightarrow> True | Some c \<Rightarrow> set (cap_languages c) \<subseteq> set (manifest_languages m))"

lemma frozen_parts:
  assumes "freeze lib env req = Inr f"
  shows "validate_settings (lib_cpus lib) (enqueue_models env) (request_settings req) = Inr () \<and>
    registry_model model_registry (settings_model_id (request_settings req)) = Some (frozen_manifest f) \<and>
    manifest_provider (frozen_manifest f) = settings_provider (request_settings req) \<and>
    lib_print_settings lib (request_settings req) = Some (frozen_parameters f) \<and>
    lib_canonical lib (required_files_value (manifest_bundle (frozen_manifest f))) = Some (frozen_files f) \<and>
    model_source lib (frozen_manifest f) = Inr (frozen_source f) \<and>
    frozen_vad f = (if settings_vad_enabled (request_settings req) then Some VAD else None) \<and>
    (if settings_vad_enabled (request_settings req)
     then \<exists>t. lib_canonical lib (required_files_value (vad_bundle VAD)) = Some t \<and> frozen_vad_files f = Some t
     else frozen_vad_files f = None)"
  using assms
  by (auto simp: freeze_def Let_def result_simps choose_vad_def vad_manifest_def required_file_hashes_def
      required_file_hashes_from_bundle_def split: if_splits)

lemma language_allowed:
  assumes "lookup_fits env" "validate_settings n (enqueue_models env) s = Inr u"
    and "registry_model model_registry (settings_model_id s) = Some m"
  shows "language_supported (settings_model_id s) (as_str (settings_language s))"
proof -
  have m: "m \<in> set MODELS" "manifest_id m = settings_model_id s"
    using assms(3) by (auto simp: registry_model_def model_registry_def REGISTRY_def new_registry_def find_Some_iff)
  obtain c where c: "enqueue_models env (settings_model_id s) = Some c"
    "as_str (settings_language s) \<in> set (cap_languages c)"
    using assms(2) by (auto simp: validate_settings_ok)
  have "set (cap_languages c) \<subseteq> set (manifest_languages m)"
    using bspec [OF assms(1) [unfolded lookup_fits_def] m(1)] m(2) c(1) by simp
  then have "as_str (settings_language s) \<in> set (manifest_languages m)" using c by auto
  moreover have "registry_facts m" using models_facts m by (simp add: list_all_iff)
  ultimately show ?thesis using m by (auto simp: registry_facts_def list_all_iff)
qed

lemma frozen_job_loads:
  assumes registry: "validate_registry lib model_registry vad_manifest = Inr ()"
    and libs: "libraries_agree lib (request_settings req)" and models: "lookup_fits env"
    and f: "freeze lib env req = Inr f"
    and j: "job_contract j = job_contract (job_of_enqueue (enqueue_job env req f print now0) Queued None None)"
    and claim: "claim_check t stage now j c = Inr ()" and chunk: "chunk_sound c"
    and ids: "\<not> is_blank (token_job_id t)" "\<not> is_blank (job_session_id j)" "\<not> is_blank (job_chunk_id j)"
  shows "\<exists>s. into_snapshot lib t stage now j c = Inr s \<and>
    snap_settings (snap_parameters s) = request_settings req \<and>
    snap_model_id (snap_model s) = settings_model_id (request_settings req) \<and>
    snap_required_files (snap_model s) = expected_files (manifest_bundle (frozen_manifest f)) \<and>
    (snap_vad s \<noteq> None \<longleftrightarrow> settings_vad_enabled (request_settings req))"
proof -
  let ?s = "request_settings req" and ?m = "frozen_manifest f"
  note parts = frozen_parts [OF f]
  have checked: "model_checked lib ?m" "manifest_id ?m = settings_model_id ?s" "validate_vad_contract lib VAD = Inr ()"
    using validated_registry [OF registry, of "settings_model_id ?s" ?m] parts by simp_all
  have rt: "model_parses_back lib ?m" "files_parse_back lib (vad_bundle VAD)" "settings_parse_back lib ?s"
    using libs parts by (simp_all add: libraries_agree_def)
  have sha: "lower_sha256 (lib_sha256_hex lib x)" for x using libs by (simp add: libraries_agree_def)
  have cols: "job_provider j = provider_name (settings_provider ?s)" "job_model_id j = manifest_id ?m"
    "job_manifest_version j = manifest_version ?m" "job_archive_sha256 j = bundle_identity_sha256 (manifest_bundle ?m)"
    "job_required_file_hashes_json j = frozen_files f" "job_model_source_json j = frozen_source f"
    "job_parameters_json j = frozen_parameters f"
    "job_vad_model_id j = map_option vad_id (frozen_vad f)" "job_vad_manifest_version j = map_option vad_version (frozen_vad f)"
    "job_vad_archive_sha256 j = map_option (\<lambda>v. bundle_identity_sha256 (vad_bundle v)) (frozen_vad f)"
    "job_vad_required_file_hashes_json j = frozen_vad_files f"
    using j by (simp_all add: job_contract_def job_of_enqueue_def enqueue_job_def)
  have bparts: "validate_bundle lib (manifest_bundle ?m) = Inr ()" using checked_parts(1) [OF checked(1)] .
  have files: "required_files lib (frozen_files f) ''required_file_hashes_json'' = Inr (expected_files (manifest_bundle ?m))"
    using rt(1) parts validate_bundle_parts [OF bparts]
    by (intro required_files_ok) (auto simp: model_parses_back_def files_parse_back_def)
  obtain x v where src: "model_source lib ?m = Inr x" "validate_model_source lib x (manifest_provider ?m) (manifest_id ?m)
      (manifest_version ?m) (bundle_identity_sha256 (manifest_bundle ?m)) (expected_files (manifest_bundle ?m)) = Inr v"
    using model_source_ok [OF checked(1) qwen_url_ok [OF libs] sha] rt(1)
    by (auto simp: model_parses_back_def)
  have params: "parameters_snapshot lib j (settings_provider ?s) = Inr ?s"
    using parts cols checked(2) language_allowed [OF models, of "lib_cpus lib" ?s "()" ?m]
    by (intro parameters_ok [OF rt(3)]) auto
  have vad: "\<exists>w. vad_snapshot lib (job_vad_model_id j) (job_vad_manifest_version j) (job_vad_archive_sha256 j)
      (job_vad_required_file_hashes_json j) = Inr w \<and> (w \<noteq> None \<longleftrightarrow> settings_vad_enabled ?s)"
  proof (cases "settings_vad_enabled ?s")
    case True
    then obtain y where y: "lib_canonical lib (required_files_value (vad_bundle VAD)) = Some y" "frozen_vad_files f = Some y"
      using parts by auto
    then have "lib_required_files_of lib y = Some (expected_files (vad_bundle VAD))"
      using rt(2) by (simp add: files_parse_back_def)
    from vad_snapshot_ok [OF checked(3) this] show ?thesis
      using True parts y by (auto simp: cols)
  next
    case False
    with parts show ?thesis by (simp add: cols vad_snapshot_def)
  qed
  have "lower_sha256 (bundle_identity_sha256 (manifest_bundle ?m))"
    using bparts by (auto simp: validate_bundle_def is_sha256_def split: if_splits)
  moreover have "\<not> is_blank (manifest_id ?m)" "\<not> is_blank (manifest_version ?m)"
    using checked_parts(3,4) [OF checked(1)] placeholder_blank by blast+
  ultimately show ?thesis
    using claim ids chunk files src params vad parts cols provider_text(2)
    unfolding into_snapshot_def
    by (auto simp: validate_nonempty_def validate_relative_path_def validate_digest_def chunk_sound_def
        parameters_from_settings_def checked(2))
qed
subsection \<open>From the request to the worker\<close>

lemma validate_input_keeps:
  "repository_validate_input jenv a b c w = (r, w') \<Longrightarrow> world_catalog w' = world_catalog w"
  by (auto simp: repository_validate_input_def guarded_def query_op_def Let_def split: option.splits)

lemma active_job_keeps:
  "repository_active_job_for_fingerprint jenv f w = (r, w') \<Longrightarrow> world_catalog w' = world_catalog w"
  by (auto simp: repository_active_job_for_fingerprint_def guarded_def query_op_def Let_def split: option.splits)

lemma commit_inserted:
  assumes "repository_commit_enqueue jenv e w = (r, w')" "commit_answer r = Inr out" "enqueued_inserted out"
  shows "enqueue_asr_job e (world_catalog w) = Inr (\<lparr>outcome_job_id = enqueued_job_id out, outcome_inserted = True\<rparr>, world_catalog w')"
proof -
  obtain x where r: "r = Inr x" "enqueued_job_id out = outcome_job_id x" "outcome_inserted x"
    using assms(2,3) by (cases r rule: commit_answer.cases) auto
  with assms(1) show ?thesis
    by (auto simp: repository_commit_enqueue_def guarded_def rollback_op_def Let_def
        split: option.splits sum.splits prod.splits)
qed

lemma enqueue_inserts:
  assumes "enqueue lib env jenv req w = (Inr out, w')" "enqueued_inserted out"
  obtains f print now where "freeze lib env req = Inr f"
    "enqueue_asr_job (enqueue_job env req f print now) (world_catalog w) =
      Inr (\<lparr>outcome_job_id = enqueued_job_id out, outcome_inserted = True\<rparr>, world_catalog w')"
proof -
  obtain f where f: "freeze lib env req = Inr f" using assms(1) by (auto simp: enqueue_def split: sum.splits)
  define print where "print = fingerprint lib req (frozen_manifest f) (frozen_parameters f) (frozen_vad f)"
  obtain r w1 where v: "repository_validate_input jenv (request_session_id req) (request_chunk_id req)
      (request_input_sha256 req) w = (r, w1)" by fastforce
  with assms(1) f have res: "enqueue_reserved env jenv req f print w1 = (Inr out, w')"
    by (auto simp: enqueue_def print_def Let_def split: sum.splits)
  obtain a w2 where a: "repository_active_job_for_fingerprint jenv print w1 = (a, w2)" by fastforce
  obtain now w3 where n: "read_clock jenv w2 = (now, w3)" by fastforce
  obtain x w4 where x: "repository_commit_enqueue jenv (enqueue_job env req f print (canonical_time now)) w3 = (x, w4)"
    by fastforce
  have none: "a = Inr None" "commit_answer x = Inr out" "w4 = w'"
    using res a n x assms(2) by (auto simp: enqueue_reserved_def Let_def split: sum.splits option.splits)
  have "world_catalog w3 = world_catalog w"
    using read_clock_eq [OF n] active_job_keeps [OF a] validate_input_keeps [OF v] by simp
  with commit_inserted [OF x none(2) assms(2)] none f show thesis by (intro that) simp_all
qed


subsection \<open>A request through the whole chain\<close>

text \<open>
  Libraries that work for one model: every value that is printed has a text of its own.  The digest
  function is constant, which is the multi-artifact model's identity.
\<close>

definition demo_manifest :: ModelManifest where
  "demo_manifest = whisper_model ''whisper-base'' ''Whisper Base'' WHISPER_BASE_ARTIFACTS WHISPER_BASE_PATHS
     ''911b2083efd7c0dca2ac3b358b75222660dc09fb716d64fbfc417ba6c99ff3de'' BASE_INSTALL_CONSTRAINTS"

definition demo_settings :: AsrSettings where
  "demo_settings = whisper 8 ''whisper-base''"

fun demo_print_value :: "json \<Rightarrow> string option" where
  "demo_print_value (JArray (JObject [bytes, (k, JString p), digest] # _)) = Some (''files:'' @ p)"
| "demo_print_value (JObject members) = (case map_of members ''source_contract_sha256'' of
      Some (JString d) \<Rightarrow> Some (''source:'' @ d)
    | _ \<Rightarrow> Some (if map_of members ''bundle'' = None then ''bundle'' else ''contract''))"
| "demo_print_value _ = None"

definition demo_contract :: json_object where
  "demo_contract = source_fields (bundle_value demo_manifest) demo_manifest"

definition demo_parse_text :: "string \<Rightarrow> json option" where
  "demo_parse_text t =
     (if t = ''bundle'' then Some (bundle_value demo_manifest)
      else if t = ''contract'' then Some (JObject demo_contract)
      else if t = ''settings'' then Some (settings_value demo_settings)
      else map_option (\<lambda>d. JObject (demo_contract @ [(''source_contract_sha256'', JString d)]))
        (strip_prefix ''source:'' t))"

definition demo_files_of :: "string \<Rightarrow> RequiredFileSnapshot list option" where
  "demo_files_of t =
     (if t = ''files:base-decoder.onnx'' then Some (expected_files (manifest_bundle demo_manifest))
      else if t = ''files:silero_vad.onnx'' then Some (expected_files (vad_bundle VAD)) else None)"

definition demo_libraries :: service_libraries where
  "demo_libraries = \<lparr>lib_parse = demo_parse_text, lib_print = demo_print_value,
     lib_canonical = demo_print_value, lib_sha256_hex = (\<lambda>_. QWEN17_IDENTITY), lib_parse_url = plain_url,
     lib_settings_of = (\<lambda>_. Some demo_settings), lib_required_files_of = demo_files_of, lib_cpus = 8,
     lib_print_settings = (\<lambda>_. Some ''settings'')\<rparr>"

definition demo_enqueue_env :: enqueue_env where
  "demo_enqueue_env = \<lparr>
     enqueue_models = (\<lambda>i. if i \<in> {''whisper-base'', DEFAULT_VAD_MODEL_ID}
       then Some (new_capabilities Whisper LANG_WHISPER True True True) else None),
     enqueue_validate_constructible = (\<lambda>_ _. Inr ()), enqueue_uuid = ''1''\<rparr>"

definition demo_request :: AsrEnqueueRequest where
  "demo_request = \<lparr>request_session_id = ''s'', request_chunk_id = ''c'',
     request_input_sha256 = QWEN17_IDENTITY, request_settings = demo_settings,
     request_selection = \<lparr>selection_language = ''auto'', selection_num_threads = 4,
       selection_options = WhisperOptions Transcribe\<rparr>,
     request_vad_model_id = Some DEFAULT_VAD_MODEL_ID\<rparr>"

definition demo_imported :: chunk_row where
  "demo_imported = demo_chunk\<lparr>chunk_sha256 := QWEN17_IDENTITY\<rparr>"

definition demo_idle :: job_world where
  "demo_idle = demo_world (empty_catalog\<lparr>chunks := [demo_imported]\<rparr>)"

definition demo_enqueued :: "(AsrErrorCode + AsrEnqueueOutcome) \<times> job_world" where
  "demo_enqueued = enqueue demo_libraries demo_enqueue_env demo_env demo_request demo_idle"

definition demo_claimed :: catalog where
  "demo_claimed = snd (claim_asr_job ''w'' 40 70 (world_catalog (snd demo_enqueued)))"

definition demo_claimed_row :: job_row where
  "demo_claimed_row = hd (jobs demo_claimed)"

lemma demo_registry: "validate_registry demo_libraries model_registry vad_manifest = Inr ()"
proof (rule shipped_registry_ok)
  show "lib_canonical demo_libraries (bundle_value QWEN17_MODEL) = Some ''bundle''"
    by (simp add: demo_libraries_def bundle_value_def)
qed (simp_all add: demo_libraries_def reads_plain_urls_def)

lemma demo_enqueues: "fst demo_enqueued = Inr \<lparr>enqueued_job_id = ''asr_1'', enqueued_inserted = True\<rparr>"
  by code_simp

lemma demo_prints:
  "demo_print_value (bundle_value demo_manifest) = Some ''bundle''"
  "demo_print_value (JObject demo_contract) = Some ''contract''"
  "demo_print_value (JObject (demo_contract @ [(''source_contract_sha256'', JString d)])) = Some (''source:'' @ d)"
  by (simp_all add: bundle_value_def demo_contract_def source_fields_def map_add_def)

lemma demo_prints_files:
  "demo_print_value (required_files_value (manifest_bundle demo_manifest)) = Some ''files:base-decoder.onnx''"
  "demo_print_value (required_files_value (vad_bundle VAD)) = Some ''files:silero_vad.onnx''"
  by code_simp+

lemma demo_model: "registry_model model_registry ''whisper-base'' = Some demo_manifest"
  using find_by_id [OF shipped_ids_distinct, of demo_manifest]
  by (simp add: registry_model_def model_registry_def REGISTRY_def new_registry_def demo_manifest_def
      MODELS_def whisper_model_def)

lemma demo_parses_back: "model_parses_back demo_libraries demo_manifest"
  using demo_prints demo_prints_files
  by (simp add: model_parses_back_def prints_faithfully_def files_parse_back_def demo_libraries_def
      demo_parse_text_def demo_files_of_def strip_prefix_def flip: demo_contract_def)

lemma demo_url_read: "plain_url qwen_runtime_url \<noteq> None"
  by code_simp

lemma demo_agree: "libraries_agree demo_libraries demo_settings"
proof -
  have "settings_model_id demo_settings = ''whisper-base''"
    by (simp add: demo_settings_def whisper_def new_settings_def)
  moreover have "files_parse_back demo_libraries (vad_bundle VAD)"
    using demo_prints_files by (simp add: files_parse_back_def demo_libraries_def demo_files_of_def)
  moreover have "settings_parse_back demo_libraries demo_settings"
    by (simp add: settings_parse_back_def demo_libraries_def demo_parse_text_def)
  moreover have "case plain_url qwen_runtime_url of None \<Rightarrow> False | Some u \<Rightarrow> plain_https u"
    using demo_url_read by (auto simp: plain_url_def plain_https_def split: option.splits)
  moreover have "lower_sha256 QWEN17_IDENTITY" by code_simp
  ultimately show ?thesis
    using demo_parses_back demo_model by (simp add: libraries_agree_def) (simp add: demo_libraries_def)
qed

lemma demo_fits: "lookup_fits demo_enqueue_env"
  unfolding lookup_fits_def by code_simp

lemma demo_idle_ok: "world_ok demo_idle"
  by (simp add: world_ok_def demo_idle_def demo_world_def empty_catalog_def queue_ok_def
      active_fingerprints_unique_def count_where_def)

lemma demo_loads_claim:
  "find_job ''asr_1'' demo_claimed = Some demo_claimed_row"
  "find_chunk (job_chunk_id demo_claimed_row) demo_claimed = Some demo_imported"
  "claim_check \<lparr>token_job_id = ''asr_1'', token_claimed_by = ''w'', token_claim_generation = 1\<rparr> StagePreparing 50
     demo_claimed_row demo_imported = Inr ()"
  by code_simp+

lemma demo_chunk_sound: "chunk_sound demo_imported"
  by code_simp


end
