(* ===== verification/Snapshot_Sound.thy ===== *)
theory Snapshot_Sound
  imports Enqueue_Load
begin

section \<open>What a snapshot guarantees\<close>

text \<open>
  The converse reading of the validation in \<open>catalog/job_snapshot.rs\<close>: whatever the rows of the
  catalog hold, a snapshot that is handed out has been checked against all of it.
\<close>

subsection \<open>Checked lists of files\<close>

definition sum_lengths :: "RequiredFileSnapshot list \<Rightarrow> nat" where
  "sum_lengths fs = (\<Sum>f \<leftarrow> fs. unat (required_byte_length f))"

definition file_sound :: "RequiredFileSnapshot \<Rightarrow> bool" where
  "file_sound f \<longleftrightarrow> relative_path (required_path f) \<and> lower_sha256 (required_sha256 f) \<and>
     required_byte_length f \<noteq> 0"

lemma check_files_exact:
  "check_files field seen acc fs = Inr () \<longleftrightarrow>
     list_all file_sound fs \<and> distinct (map required_path fs) \<and>
     seen \<inter> set (map required_path fs) = {} \<and> unat acc + sum_lengths fs < 2 ^ 64"
proof (induction fs arbitrary: seen acc)
  case Nil
  then show ?case using unat_less_exp [of acc] by (simp add: sum_lengths_def)
next
  case (Cons f fs)
  show ?case
  proof (cases "checked_add acc (required_byte_length f)")
    case None
    then have "2 ^ 64 \<le> unat acc + unat (required_byte_length f)" by (simp add: checked_simps)
    with None show ?thesis by (auto simp: result_simps sum_lengths_def)
  next
    case (Some w)
    then have "unat w = unat acc + unat (required_byte_length f)" by (simp add: checked_simps)
    with Some show ?thesis
      by (auto simp: result_simps Cons.IH file_sound_def validate_relative_path_def validate_digest_def
          sum_lengths_def)
  qed
qed

definition files_sound :: "RequiredFileSnapshot list \<Rightarrow> bool" where
  "files_sound fs \<longleftrightarrow> fs \<noteq> [] \<and> list_all file_sound fs \<and> distinct (map required_path fs) \<and>
     sum_lengths fs < 2 ^ 64"

lemma required_files_sound: "required_files lib text field = Inr fs \<Longrightarrow> files_sound fs"
  by (auto simp: required_files_def result_simps check_files_exact files_sound_def split: if_splits)

subsection \<open>The contract of the model's source\<close>

definition contract_sound :: "'z libraries_scheme \<Rightarrow> json \<Rightarrow> bool" where
  "contract_sound lib v = (case as_object v of
      None \<Rightarrow> False
    | Some source \<Rightarrow> (case field_as value_str (map_of source ''source_contract_sha256'') of
        None \<Rightarrow> False
      | Some digest \<Rightarrow> (case lib_canonical lib (JObject (without_key ''source_contract_sha256'' source)) of
          None \<Rightarrow> False
        | Some text_form \<Rightarrow> lib_sha256_hex lib text_form = digest)))"

lemma model_source_sound:
  assumes "validate_model_source lib t p i v b files = Inr x"
  shows "contract_sound lib x"
  using assms
  by (auto simp: validate_model_source_def validate_contract_def result_simps contract_sound_def
      source_is_some_def check_source_def split: if_splits)

subsection \<open>The voice-activity model and the settings\<close>

definition vad_sound :: "VadExecutionSnapshot \<Rightarrow> bool" where
  "vad_sound v \<longleftrightarrow> lower_sha256 (snap_vad_bundle_identity v) \<and> files_sound (snap_vad_required_files v) \<and>
     map required_path (snap_vad_required_files v) = [''silero_vad.onnx''] \<and>
     map required_sha256 (snap_vad_required_files v) = [snap_vad_bundle_identity v]"

lemma vad_snapshot_sound: "vad_snapshot lib m v b h = Inr (Some x) \<Longrightarrow> vad_sound x"
  by (auto simp: vad_snapshot_def result_simps vad_sound_def validate_digest_def required_files_sound
      length_Suc_conv split: option.splits if_splits)

definition settings_sound :: "nat \<Rightarrow> AsrProviderKind \<Rightarrow> string \<Rightarrow> AsrSettings \<Rightarrow> bool" where
  "settings_sound cpus provider model_id s \<longleftrightarrow>
     settings_provider s = provider \<and> settings_model_id s = model_id \<and>
     matches_provider (settings_options s) provider \<and>
     language_supported model_id (as_str (settings_language s)) \<and>
     settings_num_threads s \<noteq> 0 \<and> unat (settings_num_threads s) \<le> cpus"

lemma parameters_sound:
  "parameters_snapshot lib j p = Inr s \<Longrightarrow> settings_sound (lib_cpus lib) p (job_model_id j) s"
  by (auto simp: parameters_snapshot_def result_simps settings_sound_def Let_def split: if_splits)

subsection \<open>Whole snapshots\<close>

definition claim_is_live :: "ClaimToken \<Rightarrow> ExecutionStage \<Rightarrow> millis \<Rightarrow> job_row \<Rightarrow> bool" where
  "claim_is_live t stage now j \<longleftrightarrow>
     job_id j = token_job_id t \<and> job_claimed_by j = Some (token_claimed_by t) \<and>
     job_claim_generation j = token_claim_generation t \<and>
     job_state j = (case stage of StagePreparing \<Rightarrow> Preparing | StageTranscribing \<Rightarrow> Transcribing) \<and>
     job_cancel_requested_at j = None \<and> (case job_lease_expires_at j of None \<Rightarrow> False | Some l \<Rightarrow> now < l)"

definition snapshot_of_rows :: "job_row \<Rightarrow> chunk_row \<Rightarrow> ExecutionSnapshot \<Rightarrow> bool" where
  "snapshot_of_rows j c s \<longleftrightarrow>
     snap_job_id s = job_id j \<and> snap_session_id s = job_session_id j \<and>
     snap_chunk_id (snap_chunk s) = job_chunk_id j \<and> snap_chunk_source (snap_chunk s) = chunk_source c \<and>
     snap_chunk_relative_path (snap_chunk s) = chunk_path c \<and>
     snap_chunk_sha256 (snap_chunk s) = job_input_sha256 j \<and>
     snap_chunk_byte_length (snap_chunk s) = chunk_byte_length c \<and>
     snap_chunk_session_offset_ms (snap_chunk s) = chunk_session_offset_ms c \<and>
     snap_chunk_duration_ms (snap_chunk s) = chunk_duration_ms c \<and>
     job_provider j = provider_name (snap_provider (snap_model s)) \<and>
     snap_model_id (snap_model s) = job_model_id j \<and>
     snap_manifest_version (snap_model s) = job_manifest_version j \<and>
     snap_bundle_identity (snap_model s) = job_archive_sha256 j"

definition snapshot_sound :: "'z snapshot_libraries_scheme \<Rightarrow> ExecutionSnapshot \<Rightarrow> bool" where
  "snapshot_sound lib s \<longleftrightarrow>
     relative_path (snap_chunk_relative_path (snap_chunk s)) \<and>
     lower_sha256 (snap_chunk_sha256 (snap_chunk s)) \<and> 0 < snap_chunk_byte_length (snap_chunk s) \<and>
     files_sound (snap_required_files (snap_model s)) \<and> contract_sound lib (snap_model_source (snap_model s)) \<and>
     settings_sound (lib_cpus lib) (snap_provider (snap_model s)) (snap_model_id (snap_model s))
       (snap_settings (snap_parameters s)) \<and>
     (case snap_vad s of None \<Rightarrow> \<not> settings_vad_enabled (snap_settings (snap_parameters s))
      | Some v \<Rightarrow> settings_vad_enabled (snap_settings (snap_parameters s)) \<and> vad_sound v)"

lemma provider_name_of: "provider_of_name n = Some p \<Longrightarrow> n = provider_name p"
  by (auto simp: provider_of_name_def split: if_splits)

lemma claim_check_exact:
  "claim_check t stage now j c = Inr () \<and> job_id j = token_job_id t \<longleftrightarrow>
     claim_is_live t stage now j \<and> chunk_session_id c = job_session_id j \<and>
     chunk_integrity c = Available \<and> chunk_sha256 c = job_input_sha256 j"
  by (auto simp: claim_check_def claim_is_live_def lease_is_current_def split: if_splits ExecutionStage.splits
      option.splits)

lemma into_snapshot_sound:
  assumes "into_snapshot lib t stage now j c = Inr s" "job_id j = token_job_id t"
  shows "claim_is_live t stage now j \<and> chunk_session_id c = job_session_id j \<and>
    chunk_integrity c = Available \<and> snapshot_of_rows j c s \<and> snapshot_sound lib s"
proof -
  from assms(1) obtain provider files source settings vad where
    checks: "claim_check t stage now j c = Inr ()" "relative_path (chunk_path c)"
      "lower_sha256 (chunk_sha256 c)" "0 < chunk_byte_length c"
      "provider_of_name (job_provider j) = Some provider"
      "required_files lib (job_required_file_hashes_json j) ''required_file_hashes_json'' = Inr files"
      "validate_model_source lib (job_model_source_json j) provider (job_model_id j) (job_manifest_version j)
         (job_archive_sha256 j) files = Inr source"
      "parameters_snapshot lib j provider = Inr settings"
      "vad_snapshot lib (job_vad_model_id j) (job_vad_manifest_version j) (job_vad_archive_sha256 j)
         (job_vad_required_file_hashes_json j) = Inr vad" "settings_vad_enabled settings \<longleftrightarrow> vad \<noteq> None"
    and s: "snap_job_id s = token_job_id t" "snap_session_id s = job_session_id j"
      "snap_chunk s = \<lparr>snap_chunk_id = job_chunk_id j, snap_chunk_source = chunk_source c,
         snap_chunk_relative_path = chunk_path c, snap_chunk_sha256 = chunk_sha256 c,
         snap_chunk_byte_length = chunk_byte_length c, snap_chunk_session_offset_ms = chunk_session_offset_ms c,
         snap_chunk_duration_ms = chunk_duration_ms c\<rparr>"
      "snap_provider (snap_model s) = provider" "snap_model_id (snap_model s) = job_model_id j"
      "snap_manifest_version (snap_model s) = job_manifest_version j"
      "snap_bundle_identity (snap_model s) = job_archive_sha256 j"
      "snap_required_files (snap_model s) = files" "snap_model_source (snap_model s) = source"
      "snap_settings (snap_parameters s) = settings" "snap_vad s = vad"
    by (auto simp: into_snapshot_def result_simps validate_relative_path_def validate_digest_def
        parameters_from_settings_def split: if_splits)
  from checks(1) assms(2) claim_check_exact have live: "claim_is_live t stage now j"
    "chunk_session_id c = job_session_id j" "chunk_integrity c = Available" "chunk_sha256 c = job_input_sha256 j"
    by blast+
  moreover have "snapshot_of_rows j c s"
    using s checks(5) live(4) assms(2) by (simp add: snapshot_of_rows_def provider_name_of)
  moreover have "snapshot_sound lib s"
    using checks s vad_snapshot_sound
    by (cases vad) (auto simp: snapshot_sound_def required_files_sound model_source_sound parameters_sound)
  ultimately show ?thesis by blast
qed


lemma demo_loads:
  "case load_execution_snapshot demo_libraries \<lparr>token_job_id = ''asr_1'', token_claimed_by = ''w'',
     token_claim_generation = 1\<rparr> StagePreparing 50 demo_claimed of Inl _ \<Rightarrow> False | Inr _ \<Rightarrow> True"
  by code_simp


end
