(* ===== verification/Worker.thy ===== *)
theory Worker
  imports Snapshot
begin

section \<open>The worker loop: \<open>asr/worker.rs\<close>\<close>

text \<open>
  The thread that executes jobs: recover, claim, load the snapshot, prepare and start the engine,
  poll the run while keeping the lease alive, publish or fail, and tell the callbacks.  The engine is
  code outside this model: its answers are functions of the moment they are asked.  Other threads of
  the program work on the same catalog: before each call of the worker to the catalog or to the
  engine they may change it, by \<open>env_others\<close>.  A run that never answers keeps the loop going for
  ever, so the loop takes the number of polls it may make and gives \<open>None\<close> when they are used up.
\<close>

subsection \<open>Data\<close>

record DurableJobFailure =
  failure_session_id :: string
  failure_job_id :: string
  failure_chunk_id :: string
  failure_error_code :: string
  failure_error_summary :: string
  failure_retry_available :: bool
  failure_code :: AsrErrorCode

record ExecutionFailure =
  execution_code :: AsrErrorCode
  execution_summary :: string

record ExecutionSuccess =
  success_receipt :: ProviderReceipt
  success_segments :: "TranscriptSegmentPublication list"

datatype run_answer = RunPending | RunFailed ExecutionFailure | RunSucceeded ExecutionSuccess

datatype WorkerError =
    WorkerJob JobError
  | WorkerExecution ExecutionFailure
  | WorkerPublish PublicationError

text \<open>Durations are nanoseconds.\<close>

definition DEFAULT_IDLE_POLL :: int where "DEFAULT_IDLE_POLL = 250000000"
definition DEFAULT_RUN_POLL :: int where "DEFAULT_RUN_POLL = 200000000"

text \<open>What the worker does to the outside; the log keeps the catalog of the moment beside each event.\<close>

datatype worker_event =
    RevisionPublished TranscriptRevision
  | FailureNotified DurableJobFailure
  | RunCancelled
  | IdleWaited int

record ('z, 'p, 'r) worker_env =
  env_jobs :: job_env
  env_libraries :: "'z snapshot_libraries_scheme"
  env_others :: "nat \<Rightarrow> catalog \<Rightarrow> catalog"
  env_shutdown :: "nat \<Rightarrow> bool"
  env_prepare :: "nat \<Rightarrow> ExecutionSnapshot \<Rightarrow> ExecutionFailure + 'p"
  env_start :: "nat \<Rightarrow> 'p \<Rightarrow> time \<Rightarrow> ExecutionFailure + 'r"
  env_recv :: "nat \<Rightarrow> 'r \<Rightarrow> int \<Rightarrow> run_answer \<times> 'r"
  env_new_ids :: "nat \<Rightarrow> string \<times> string"
  env_publication_callback :: bool
  env_failure_callback :: bool
  env_idle_poll :: int
  env_run_poll :: int

record worker_state =
  worker_coordinator :: coordinator_state
  worker_world :: job_world
  worker_recovered :: bool
  worker_moment :: nat
  worker_log :: "(worker_event \<times> catalog) list"

definition new_worker :: "coordinator_state \<Rightarrow> job_world \<Rightarrow> worker_state" where
  "new_worker c w = \<lparr>worker_coordinator = c, worker_world = w, worker_recovered = False,
     worker_moment = 0, worker_log = []\<rparr>"

text \<open>The engine of a program without a native provider: it refuses to prepare anything.\<close>

definition fail_closed_prepare :: "nat \<Rightarrow> ExecutionSnapshot \<Rightarrow> ExecutionFailure + 'p" where
  "fail_closed_prepare n s = Inl \<lparr>execution_code = ProviderInitializationFailed,
     execution_summary = ''verified native ASR provider is not available''\<rparr>"

subsection \<open>Steps of the worker\<close>

type_synonym 'a worker_result = "(WorkerError + 'a) \<times> worker_state"

text \<open>The \<open>?\<close> operator with the state threaded through.\<close>

fun then_do :: "'a worker_result \<Rightarrow> ('a \<Rightarrow> worker_state \<Rightarrow> 'b worker_result) \<Rightarrow> 'b worker_result" where
  "then_do (Inl e, st) f = (Inl e, st)"
| "then_do (Inr x, st) f = f x st"

definition interfere :: "('z, 'p, 'r) worker_env \<Rightarrow> worker_state \<Rightarrow> worker_state" where
  "interfere env st = st\<lparr>worker_moment := worker_moment st + 1,
     worker_world := (worker_world st)\<lparr>world_catalog :=
       env_others env (worker_moment st) (world_catalog (worker_world st))\<rparr>\<rparr>"

definition emit :: "worker_event \<Rightarrow> worker_state \<Rightarrow> worker_state" where
  "emit e st = st\<lparr>worker_log := worker_log st @ [(e, world_catalog (worker_world st))]\<rparr>"

text \<open>A call of the coordinator, and a call of its repository.\<close>

definition coordinate ::
    "('z, 'p, 'r) worker_env \<Rightarrow> (job_env \<Rightarrow> coordinator_state \<Rightarrow> job_world \<Rightarrow> ('e + 'a) \<times> coordinator_state \<times> job_world) \<Rightarrow>
       worker_state \<Rightarrow> ('e + 'a) \<times> worker_state" where
  "coordinate env f st =
     (let st = interfere env st; (r, c, w) = f (env_jobs env) (worker_coordinator st) (worker_world st)
      in (r, st\<lparr>worker_coordinator := c, worker_world := w\<rparr>))"

definition repository_call ::
    "('z, 'p, 'r) worker_env \<Rightarrow> (job_env \<Rightarrow> job_world \<Rightarrow> ('e + 'a) \<times> job_world) \<Rightarrow> worker_state \<Rightarrow>
       ('e + 'a) \<times> worker_state" where
  "repository_call env f st =
     (let st = interfere env st; (r, w) = f (env_jobs env) (worker_world st)
      in (r, st\<lparr>worker_world := w\<rparr>))"

definition job_call :: "(JobError + 'a) \<times> worker_state \<Rightarrow> 'a worker_result" where
  "job_call x = (map_err WorkerJob (fst x), snd x)"

definition worker_clock :: "('z, 'p, 'r) worker_env \<Rightarrow> worker_state \<Rightarrow> time \<times> worker_state" where
  "worker_clock env st =
     (let (now, w) = read_clock (env_jobs env) (worker_world st) in (now, st\<lparr>worker_world := w\<rparr>))"

subsection \<open>Telling the callbacks\<close>

definition notify_publication :: "('z, 'p, 'r) worker_env \<Rightarrow> TranscriptRevision \<Rightarrow> worker_state \<Rightarrow> worker_state" where
  "notify_publication env r st = (if env_publication_callback env then emit (RevisionPublished r) st else st)"

definition stable_error_code :: "AsrErrorCode \<Rightarrow> string" where
  "stable_error_code code = error_name code"

definition notify_failure_identity ::
    "('z, 'p, 'r) worker_env \<Rightarrow> JobIdentity \<Rightarrow> ExecutionFailure \<Rightarrow> worker_state \<Rightarrow> worker_state" where
  "notify_failure_identity env i f st =
     (if env_failure_callback env
      then emit (FailureNotified \<lparr>failure_session_id = identity_session_id i, failure_job_id = identity_job_id i,
             failure_chunk_id = identity_chunk_id i, failure_error_code = stable_error_code (execution_code f),
             failure_error_summary = execution_summary f, failure_retry_available = True,
             failure_code = execution_code f\<rparr>) st
      else st)"

definition snapshot_identity :: "ExecutionSnapshot \<Rightarrow> JobIdentity" where
  "snapshot_identity s = \<lparr>identity_job_id = snap_job_id s, identity_session_id = snap_session_id s,
     identity_chunk_id = snap_chunk_id (snap_chunk s)\<rparr>"

definition notify_failure ::
    "('z, 'p, 'r) worker_env \<Rightarrow> ExecutionSnapshot \<Rightarrow> ExecutionFailure \<Rightarrow> worker_state \<Rightarrow> worker_state" where
  "notify_failure env s = notify_failure_identity env (snapshot_identity s)"

definition map_snapshot_error :: "SnapshotError \<Rightarrow> ExecutionFailure" where
  "map_snapshot_error e = (case e of
      SnapshotCancelRequested \<Rightarrow> \<lparr>execution_code = CancelledCode,
        execution_summary = ''job cancelled before execution''\<rparr>
    | SnapshotInputUnavailable \<Rightarrow> \<lparr>execution_code = AsrErrorCode.InputUnavailable,
        execution_summary = ''job input became unavailable''\<rparr>
    | _ \<Rightarrow> \<lparr>execution_code = RecoveryRequired,
        execution_summary = ''failed to load execution snapshot''\<rparr>)"

subsection \<open>Failing, recovering and giving up\<close>

text \<open>\<open>coordinator.fail\<close> followed by the notification, as every failing branch has it.\<close>

definition fail_and_notify ::
    "('z, 'p, 'r) worker_env \<Rightarrow> AsrErrorCode \<Rightarrow> ExecutionFailure \<Rightarrow> (worker_state \<Rightarrow> worker_state) \<Rightarrow>
       worker_state \<Rightarrow> unit worker_result" where
  "fail_and_notify env code f notify st =
     then_do (job_call (coordinate env (\<lambda>j. coordinator_fail j code (execution_summary f)) st)) (\<lambda>_ st.
       (Inr (), notify st))"

definition recover_and_return :: "('z, 'p, 'r) worker_env \<Rightarrow> worker_state \<Rightarrow> unit worker_result" where
  "recover_and_return env st = then_do (job_call (coordinate env coordinator_recover st)) (\<lambda>_ st. (Inr (), st))"

definition acknowledge_and_return :: "('z, 'p, 'r) worker_env \<Rightarrow> worker_state \<Rightarrow> unit worker_result" where
  "acknowledge_and_return env st = job_call (coordinate env coordinator_acknowledge_cancel st)"

definition handle_preparing_snapshot_error ::
    "('z, 'p, 'r) worker_env \<Rightarrow> SnapshotError \<Rightarrow> JobIdentity \<Rightarrow> worker_state \<Rightarrow> unit worker_result" where
  "handle_preparing_snapshot_error env e i st = (case e of
      SnapshotCancelRequested \<Rightarrow> acknowledge_and_return env st
    | SnapshotInputUnavailable \<Rightarrow>
        (let f = \<lparr>execution_code = AsrErrorCode.InputUnavailable,
           execution_summary = ''job input became unavailable before execution''\<rparr>
         in fail_and_notify env (execution_code f) f (notify_failure_identity env i f) st)
    | SnapshotOwnershipLost \<Rightarrow> recover_and_return env st
    | SnapshotLeaseExpired \<Rightarrow> recover_and_return env st
    | SnapshotStageMismatch \<Rightarrow> recover_and_return env st
    | SnapshotOwnership e \<Rightarrow> (Inl (WorkerJob (JobOwnership e)), st)
    | SnapshotCatalog e \<Rightarrow> (Inl (WorkerJob (JobCatalogFailed e)), st)
    | InvalidSnapshot _ \<Rightarrow>
        (let f = map_snapshot_error e
         in fail_and_notify env RecoveryRequired f (notify_failure_identity env i f) st))"

definition next_run_timeout :: "('z, 'p, 'r) worker_env \<Rightarrow> worker_state \<Rightarrow> int \<times> worker_state" where
  "next_run_timeout env st = (case coordinator_active (worker_coordinator st) of
      None \<Rightarrow> (env_run_poll env, st)
    | Some active \<Rightarrow> let (now, st) = worker_clock env st; renew_delay = claim_renew_at active - now
        in (if renew_delay \<le> 0 then 0 else min renew_delay (env_run_poll env), st))"

text \<open>The checks between two polls: \<open>None\<close> goes on polling.\<close>

definition observe_running ::
    "('z, 'p, 'r) worker_env \<Rightarrow> ClaimToken \<Rightarrow> ExecutionSnapshot \<Rightarrow> worker_state \<Rightarrow> unit option worker_result" where
  "observe_running env t snapshot st =
     (let finish = (\<lambda>r. then_do r (\<lambda>_ st. (Inr (Some ()), st)));
          (renew_due, st) = (case coordinator_active (worker_coordinator st) of
              None \<Rightarrow> (False, st)
            | Some claim \<Rightarrow> let (now, st) = worker_clock env st in (claim_renew_at claim \<le> now, st))
      in if renew_due
         then (let (r, st) = coordinate env renew_if_due st in
           case r of
             Inr _ \<Rightarrow> (Inr None, st)
           | Inl JobCancelRequested \<Rightarrow> (Inr (Some ()), emit RunCancelled st)
           | Inl JobOwnershipLost \<Rightarrow> finish (recover_and_return env (emit RunCancelled st))
           | Inl e \<Rightarrow> (Inl (WorkerJob e), st))
         else (let (r, st) = repository_call env (\<lambda>j. repository_load_snapshot (env_libraries env) j t StageTranscribing) st in
           case r of
             Inr _ \<Rightarrow> (Inr None, st)
           | Inl e \<Rightarrow> (case e of
               SnapshotCancelRequested \<Rightarrow> finish (acknowledge_and_return env (emit RunCancelled st))
             | SnapshotOwnershipLost \<Rightarrow> finish (recover_and_return env (emit RunCancelled st))
             | SnapshotLeaseExpired \<Rightarrow> finish (recover_and_return env (emit RunCancelled st))
             | SnapshotStageMismatch \<Rightarrow> finish (recover_and_return env (emit RunCancelled st))
             | SnapshotInputUnavailable \<Rightarrow>
                 (let f = \<lparr>execution_code = AsrErrorCode.InputUnavailable,
                    execution_summary = ''job input became unavailable while transcribing''\<rparr>
                  in finish (fail_and_notify env (execution_code f) f (notify_failure env snapshot f) (emit RunCancelled st)))
             | _ \<Rightarrow>
                 (let f = map_snapshot_error e
                  in finish (fail_and_notify env RecoveryRequired f (notify_failure env snapshot f) (emit RunCancelled st))))))"

subsection \<open>One round\<close>

text \<open>A finished run: publish, and let go of the claim.\<close>

definition publish_success ::
    "('z, 'p, 'r) worker_env \<Rightarrow> ClaimToken \<Rightarrow> ExecutionSuccess \<Rightarrow> worker_state \<Rightarrow> unit worker_result" where
  "publish_success env t success st =
     (let (receipt_id, revision_id) = env_new_ids env (worker_moment st);
          (r, st) = coordinate env (\<lambda>j. coordinator_publish j receipt_id revision_id t (success_receipt success)
            (success_segments success)) st
      in case r of
           Inr published \<Rightarrow> recover_and_return env
             (case published of None \<Rightarrow> st | Some x \<Rightarrow> notify_publication env x st)
         | Inl PubCancelled \<Rightarrow> acknowledge_and_return env (emit RunCancelled st)
         | Inl PubOwnershipLost \<Rightarrow> recover_and_return env (emit RunCancelled st)
         | Inl e \<Rightarrow> (Inl (WorkerPublish e), st))"

text \<open>One turn of the polling loop: what it ends the round with, or the run to poll again.\<close>

definition poll_run ::
    "('z, 'p, 'r) worker_env \<Rightarrow> ClaimToken \<Rightarrow> ExecutionSnapshot \<Rightarrow> 'r \<Rightarrow> worker_state \<Rightarrow> 'r option worker_result" where
  "poll_run env t snapshot run st =
     (let (timeout, st) = next_run_timeout env st;
          (answer, run) = env_recv env (worker_moment st) run timeout;
          st = interfere env st
      in case answer of
           RunSucceeded success \<Rightarrow> then_do (publish_success env t success st) (\<lambda>_ st. (Inr None, st))
         | RunFailed f \<Rightarrow> then_do (fail_and_notify env (execution_code f) f (notify_failure env snapshot f) st)
             (\<lambda>_ st. (Inr None, st))
         | RunPending \<Rightarrow> then_do (observe_running env t snapshot st) (\<lambda>outcome st.
             (Inr (case outcome of None \<Rightarrow> Some run | Some _ \<Rightarrow> None), st)))"

fun run_loop ::
    "('z, 'p, 'r) worker_env \<Rightarrow> nat \<Rightarrow> ClaimToken \<Rightarrow> ExecutionSnapshot \<Rightarrow> 'r \<Rightarrow> worker_state \<Rightarrow>
       (WorkerError + unit) option \<times> worker_state" where
  "run_loop env 0 t snapshot run st = (None, st)"
| "run_loop env (Suc n) t snapshot run st = (case poll_run env t snapshot run st of
      (Inl e, st) \<Rightarrow> (Some (Inl e), st)
    | (Inr None, st) \<Rightarrow> (Some (Inr ()), st)
    | (Inr (Some run), st) \<Rightarrow> run_loop env n t snapshot run st)"

text \<open>Starting the run of a prepared job; \<open>None\<close> when the round is over before that.\<close>

definition round_over :: "unit worker_result \<Rightarrow> 'b option worker_result" where
  "round_over r = then_do r (\<lambda>_ st. (Inr None, st))"

definition begin_run ::
    "('z, 'p, 'r) worker_env \<Rightarrow> ExecutionSnapshot \<Rightarrow> 'p \<Rightarrow> worker_state \<Rightarrow> ('r \<times> ExecutionSnapshot) option worker_result" where
  "begin_run env snapshot prepared st =
     then_do (job_call (coordinate env enter_transcribing st)) (\<lambda>_ st.
     let (started_at, st) = worker_clock env st;
         started = env_start env (worker_moment st) prepared started_at; st = interfere env st in
     case started of
       Inl f \<Rightarrow> round_over (fail_and_notify env (execution_code f) f (notify_failure env snapshot f) st)
     | Inr run \<Rightarrow> (Inr (Some (run, snapshot)), st))"

definition prepare_run ::
    "('z, 'p, 'r) worker_env \<Rightarrow> ExecutionSnapshot \<Rightarrow> worker_state \<Rightarrow> ('r \<times> ExecutionSnapshot) option worker_result" where
  "prepare_run env snapshot st =
     (let prepared = env_prepare env (worker_moment st) snapshot; st = interfere env st in
      case prepared of
        Inl f \<Rightarrow> round_over (fail_and_notify env (execution_code f) f (notify_failure env snapshot f) st)
      | Inr prepared \<Rightarrow> begin_run env snapshot prepared st)"

definition start_run ::
    "('z, 'p, 'r) worker_env \<Rightarrow> ClaimToken \<Rightarrow> worker_state \<Rightarrow> ('r \<times> ExecutionSnapshot) option worker_result" where
  "start_run env t st =
     then_do (job_call (repository_call env (\<lambda>j. repository_job_identity j (token_job_id t)) st)) (\<lambda>identity st.
     let (r, st) = repository_call env (\<lambda>j. repository_load_snapshot (env_libraries env) j t StagePreparing) st in
     case r of
       Inl e \<Rightarrow> round_over (handle_preparing_snapshot_error env e identity st)
     | Inr snapshot \<Rightarrow> prepare_run env snapshot st)"

definition recover_once :: "('z, 'p, 'r) worker_env \<Rightarrow> worker_state \<Rightarrow> unit worker_result" where
  "recover_once env st =
     (if worker_recovered st then (Inr (), st)
      else then_do (job_call (coordinate env coordinator_recover st)) (\<lambda>_ st.
        (Inr (), st\<lparr>worker_recovered := True\<rparr>)))"

definition load_shutdown :: "('z, 'p, 'r) worker_env \<Rightarrow> worker_state \<Rightarrow> bool \<times> worker_state" where
  "load_shutdown env st = (env_shutdown env (worker_moment st), interfere env st)"

definition run_once ::
    "('z, 'p, 'r) worker_env \<Rightarrow> nat \<Rightarrow> worker_state \<Rightarrow> (WorkerError + unit) option \<times> worker_state" where
  "run_once env polls st = (case recover_once env st of
      (Inl e, st) \<Rightarrow> (Some (Inl e), st)
    | (Inr _, st) \<Rightarrow>
        (let (stop, st) = load_shutdown env st in
         if stop \<and> coordinator_active (worker_coordinator st) = None then (Some (Inr ()), st)
         else (case job_call (coordinate env claim_next st) of
             (Inl e, st) \<Rightarrow> (Some (Inl e), st)
           | (Inr None, st) \<Rightarrow> (Some (Inr ()), emit (IdleWaited (env_idle_poll env)) (interfere env st))
           | (Inr (Some claim), st) \<Rightarrow> (case start_run env (claim_token claim) st of
               (Inl e, st) \<Rightarrow> (Some (Inl e), st)
             | (Inr None, st) \<Rightarrow> (Some (Inr ()), st)
             | (Inr (Some (run, snapshot)), st) \<Rightarrow> run_loop env polls (claim_token claim) snapshot run st))))"

text \<open>The thread's loop; a round that fails ends it.\<close>

fun run_until_shutdown ::
    "('z, 'p, 'r) worker_env \<Rightarrow> nat \<Rightarrow> nat \<Rightarrow> worker_state \<Rightarrow> (WorkerError + unit) option \<times> worker_state" where
  "run_until_shutdown env 0 polls st = (None, st)"
| "run_until_shutdown env (Suc rounds) polls st =
     (let (stop, st) = load_shutdown env st in
      if stop \<and> coordinator_active (worker_coordinator st) = None then (Some (Inr ()), st)
      else (case run_once env polls st of
          (Some (Inr _), st) \<Rightarrow> run_until_shutdown env rounds polls st
        | other \<Rightarrow> other))"

end
