(* ===== verification/Worker_Life.thy ===== *)
theory Worker_Life
  imports Worker
begin

section \<open>The life of a worker\<close>

text \<open>
  Whatever the engine answers and whatever other threads do in between, a worker only moves the
  queue by its steps, lets go of claims it lost, and announces nothing but what the catalog holds.
\<close>

subsection \<open>What every step of the worker keeps\<close>

definition fair_others :: "('z, 'p, 'r) worker_env \<Rightarrow> bool" where
  "fair_others env \<longleftrightarrow> (\<forall>n cat. queue_step\<^sup>*\<^sup>* cat (env_others env n cat))"

abbreviation worker_catalog :: "worker_state \<Rightarrow> catalog" where
  "worker_catalog st \<equiv> world_catalog (worker_world st)"

abbreviation worker_active :: "worker_state \<Rightarrow> ClaimedJob option" where
  "worker_active st \<equiv> coordinator_active (worker_coordinator st)"

text \<open>An event that tells the truth about the catalog of its moment.\<close>

fun event_true :: "worker_event \<times> catalog \<Rightarrow> bool" where
  "event_true (RevisionPublished v, cat) \<longleftrightarrow> list_ex (\<lambda>x. rev_id x = revision_id v \<and>
     rev_session_id x = revision_session_id v \<and> rev_number x = revision_number v \<and>
     rev_provenance x = VerifiedLocalAsr) (revisions cat)"
| "event_true (FailureNotified f, cat) \<longleftrightarrow> (case find_job (failure_job_id f) cat of
       None \<Rightarrow> False
     | Some j \<Rightarrow> job_state j = Failed \<and> job_claimed_by j = None \<and>
         job_error_code j = Some (failure_error_code f) \<and> job_error_summary j = Some (failure_error_summary f) \<and>
         job_session_id j = failure_session_id f \<and> job_chunk_id j = failure_chunk_id f)"
| "event_true _ \<longleftrightarrow> True"

definition worker_evolves :: "worker_state \<Rightarrow> worker_state \<Rightarrow> bool" where
  "worker_evolves st st' \<longleftrightarrow> queue_step\<^sup>*\<^sup>* (worker_catalog st) (worker_catalog st') \<and>
     (\<exists>events. worker_log st' = worker_log st @ events \<and> list_all event_true events)"

lemma evolves_refl [simp]: "worker_evolves st st"
  by (simp add: worker_evolves_def)

lemma evolves_trans [trans]: "worker_evolves a b \<Longrightarrow> worker_evolves b c \<Longrightarrow> worker_evolves a c"
  by (auto simp: worker_evolves_def)

lemma evolves_ok: "worker_evolves st st' \<Longrightarrow> world_ok (worker_world st) \<Longrightarrow> world_ok (worker_world st')"
  unfolding worker_evolves_def using world_ok_steps by blast

lemma evolves_same: "worker_catalog st' = worker_catalog st \<Longrightarrow> worker_log st' = worker_log st \<Longrightarrow> worker_evolves st st'"
  by (simp add: worker_evolves_def)

lemma emit_evolves: "event_true (e, worker_catalog st) \<Longrightarrow> worker_evolves st (emit e st)"
  by (simp add: worker_evolves_def emit_def)

lemma emit_keeps [simp]:
  "worker_coordinator (emit e st) = worker_coordinator st" "worker_world (emit e st) = worker_world st"
  by (simp_all add: emit_def)

lemma interfere_evolves: "fair_others env \<Longrightarrow> worker_evolves st (interfere env st)"
  by (simp add: worker_evolves_def interfere_def fair_others_def)

lemma interfere_keeps [simp]: "worker_coordinator (interfere env st) = worker_coordinator st"
  by (simp add: interfere_def)

lemma clock_evolves: "worker_clock env st = (now, st') \<Longrightarrow> worker_evolves st st' \<and>
    worker_coordinator st' = worker_coordinator st \<and> worker_catalog st' = worker_catalog st"
  by (auto simp: worker_clock_def read_clock_def worker_evolves_def Let_def)

lemma timeout_evolves: "next_run_timeout env st = (d, st') \<Longrightarrow> worker_evolves st st' \<and>
    worker_coordinator st' = worker_coordinator st \<and> worker_catalog st' = worker_catalog st"
  using clock_evolves [of env st]
  by (auto simp: next_run_timeout_def Let_def split: option.splits prod.splits)

text \<open>Where a job is identified, it stays identified.\<close>

definition identifies :: "JobIdentity \<Rightarrow> catalog \<Rightarrow> bool" where
  "identifies i cat \<longleftrightarrow> (case find_job (identity_job_id i) cat of
      None \<Rightarrow> False
    | Some j \<Rightarrow> job_session_id j = identity_session_id i \<and> job_chunk_id j = identity_chunk_id i)"

lemma evolved_find:
  assumes "queue_step\<^sup>*\<^sup>* cat cat'" "queue_ok (jobs cat)" "find_job i cat = Some j" "find_job i cat' = Some j'"
  shows "row_evolves j j'"
proof (rule evolved_row)
  show "queue_evolves (jobs cat) (jobs cat')" using queue_steps_evolve [OF assms(1,2)] by simp
  show "distinct (map job_id (jobs cat))" using assms(2) by (simp add: queue_ok_def)
  show "j \<in> set (jobs cat)" "j' \<in> set (jobs cat')" "job_id j' = job_id j"
    using find_job_Some [OF assms(3)] find_job_Some [OF assms(4)] by simp_all
qed

lemma identified_row:
  assumes "worker_evolves st st'" "world_ok (worker_world st)" "identifies i (worker_catalog st)"
    and "find_job (identity_job_id i) (worker_catalog st') = Some j"
  shows "job_session_id j = identity_session_id i \<and> job_chunk_id j = identity_chunk_id i"
proof -
  from assms(3) obtain j0 where "find_job (identity_job_id i) (worker_catalog st) = Some j0"
    "job_session_id j0 = identity_session_id i" "job_chunk_id j0 = identity_chunk_id i"
    by (auto simp: identifies_def split: option.splits)
  with evolved_find [OF _ _ this(1) assms(4)] assms(1,2) show ?thesis
    by (simp add: worker_evolves_def world_ok_def row_evolves_def)
qed

text \<open>The claim the worker holds is the token's, or it holds none.\<close>

definition holds :: "ClaimToken \<Rightarrow> worker_state \<Rightarrow> bool" where
  "holds t st \<longleftrightarrow> (case worker_active st of None \<Rightarrow> True | Some claim \<Rightarrow> claim_token claim = t)"

text \<open>What a round that went well leaves: no claim, or one the catalog still grants.\<close>

definition settled :: "worker_state \<Rightarrow> bool" where
  "settled st \<longleftrightarrow> (case worker_active st of
      None \<Rightarrow> True
    | Some claim \<Rightarrow> owns_running_asr_job (token_job_id (claim_token claim)) (token_claimed_by (claim_token claim))
        (token_claim_generation (claim_token claim)) (worker_catalog st))"

subsection \<open>The calls of the coordinator\<close>

lemma coordinate_evolves:
  assumes "fair_others env" "coordinate env f st = (r, st')"
    and "\<And>w. world_catalog w = world_catalog (worker_world (interfere env st)) \<Longrightarrow>
      queue_step\<^sup>*\<^sup>* (world_catalog w) (world_catalog (snd (snd (f (env_jobs env) (worker_coordinator st) w))))"
  shows "worker_evolves st st'"
proof -
  have "worker_evolves (interfere env st) st'"
    using assms(2) assms(3) [of "worker_world (interfere env st)"]
    by (auto simp: coordinate_def worker_evolves_def Let_def split: prod.splits)
  with interfere_evolves [OF assms(1)] show ?thesis by (rule evolves_trans)
qed

lemma repository_evolves:
  assumes "fair_others env" "repository_call env f st = (r, st')"
    and "\<And>w. world_catalog (snd (f (env_jobs env) w)) = world_catalog w"
  shows "worker_evolves st st' \<and> worker_coordinator st' = worker_coordinator st"
proof -
  have "worker_evolves (interfere env st) st'" "worker_coordinator st' = worker_coordinator st"
    using assms(2) assms(3) [of "worker_world (interfere env st)"]
    by (auto simp: repository_call_def worker_evolves_def Let_def split: prod.splits)
  with interfere_evolves [OF assms(1)] show ?thesis by (blast intro: evolves_trans)
qed

lemma recover_round:
  assumes "fair_others env" "world_ok (worker_world st)" "coordinate env coordinator_recover st = (r, st')"
  shows "worker_evolves st st' \<and> (case r of Inr _ \<Rightarrow> settled st' | Inl _ \<Rightarrow> True)"
proof -
  let ?st = "interfere env st"
  have ok: "world_ok (worker_world ?st)" using evolves_ok [OF interfere_evolves] assms by blast
  obtain c w where f: "coordinator_recover (env_jobs env) (worker_coordinator st) (worker_world ?st) = (r, c, w)"
    and st': "st' = ?st\<lparr>worker_coordinator := c, worker_world := w\<rparr>"
    using assms(3) by (auto simp: coordinate_def Let_def split: prod.splits)
  note res = recover_keeps_only_owned [OF ok f]
  then have "worker_evolves ?st st'" by (simp add: st' worker_evolves_def)
  with interfere_evolves [OF assms(1)] have "worker_evolves st st'" by (rule evolves_trans)
  moreover have "case r of Inr _ \<Rightarrow> settled st' | Inl _ \<Rightarrow> True"
    using res by (cases r) (auto simp: settled_def st' split: option.splits)
  ultimately show ?thesis by blast
qed

lemma acknowledge_round:
  assumes "fair_others env" "world_ok (worker_world st)" "coordinate env coordinator_acknowledge_cancel st = (r, st')"
  shows "worker_evolves st st' \<and> (case r of Inr _ \<Rightarrow> settled st' | Inl _ \<Rightarrow> True)"
proof -
  let ?st = "interfere env st"
  have ok: "world_ok (worker_world ?st)" using evolves_ok [OF interfere_evolves] assms by blast
  obtain c w where f: "coordinator_acknowledge_cancel (env_jobs env) (worker_coordinator st) (worker_world ?st) = (r, c, w)"
    and st': "st' = ?st\<lparr>worker_coordinator := c, worker_world := w\<rparr>"
    using assms(3) by (auto simp: coordinate_def Let_def split: prod.splits)
  have "queue_step\<^sup>*\<^sup>* (worker_catalog ?st) (world_catalog w) \<and> (case r of Inr _ \<Rightarrow> coordinator_active c = None | Inl _ \<Rightarrow> True)"
  proof (cases "worker_active st")
    case None
    with f show ?thesis by (auto simp: coordinator_acknowledge_cancel_def active_token_def)
  next
    case (Some claim)
    with acknowledge_settles [OF f ok] show ?thesis by (auto split: sum.splits)
  qed
  then have "worker_evolves ?st st'" "case r of Inr _ \<Rightarrow> settled st' | Inl _ \<Rightarrow> True"
    by (auto simp: st' worker_evolves_def settled_def split: sum.splits)
  with interfere_evolves [OF assms(1)] show ?thesis by (blast intro: evolves_trans)
qed

lemma job_call_eq: "job_call (r, st) = (map_err WorkerJob r, st)"
  by (simp add: job_call_def)

lemma then_do_Inr: "then_do x f = (Inr y, st') \<longleftrightarrow> (\<exists>v st. x = (Inr v, st) \<and> f v st = (Inr y, st'))"
  by (cases "(x, f)" rule: then_do.cases) auto

lemma then_do_Inl: "then_do x f = (Inl e, st') \<longleftrightarrow> x = (Inl e, st') \<or> (\<exists>v st. x = (Inr v, st) \<and> f v st = (Inl e, st'))"
  by (cases "(x, f)" rule: then_do.cases) auto

lemma evolved_keeps_ids:
  "queue_evolves rows rows' \<Longrightarrow> job_id ` set rows \<subseteq> job_id ` set rows'"
proof -
  assume "queue_evolves rows rows'"
  then obtain upd news where u: "rows' = upd @ news" "list_all2 row_evolves rows upd"
    by (auto simp: queue_evolves_def)
  from u(2) have "map job_id rows = map job_id upd"
    by (induction rule: list_all2_induct) (simp_all add: row_evolves_def)
  then have "job_id ` set rows = job_id ` set upd" by (metis set_map)
  with u(1) show ?thesis by auto
qed

lemma find_job_None: "find_job i cat = None \<longleftrightarrow> i \<notin> job_id ` set (jobs cat)"
  by (auto simp: find_job_def find_None_iff)

lemma identifies_stays:
  assumes "worker_evolves st st'" "world_ok (worker_world st)" "identifies i (worker_catalog st)"
  shows "identifies i (worker_catalog st')"
proof -
  have q: "queue_ok (jobs (worker_catalog st))" using assms(2) by (simp add: world_ok_def)
  have "queue_evolves (jobs (worker_catalog st)) (jobs (worker_catalog st'))"
    using queue_steps_evolve [OF _ q] assms(1) by (simp add: worker_evolves_def)
  note ids = evolved_keeps_ids [OF this]
  have "find_job (identity_job_id i) (worker_catalog st) \<noteq> None"
    using assms(3) by (auto simp: identifies_def split: option.splits)
  with ids have "find_job (identity_job_id i) (worker_catalog st') \<noteq> None"
    by (auto simp: find_job_None)
  with identified_row [OF assms] show ?thesis by (auto simp: identifies_def)
qed

lemma fail_round:
  assumes fair: "fair_others env" and ok: "world_ok (worker_world st)"
    and i: "holds t st" "token_job_id t = identity_job_id i" "identifies i (worker_catalog st)"
    and code: "code = execution_code f"
    and run: "fail_and_notify env code f (notify_failure_identity env i f) st = (r, st')"
  shows "worker_evolves st st' \<and> (case r of Inr _ \<Rightarrow> settled st' | Inl _ \<Rightarrow> True)"
proof -
  let ?st = "interfere env st"
  have first: "worker_evolves st ?st" by (rule interfere_evolves [OF fair])
  have ok1: "world_ok (worker_world ?st)" by (rule evolves_ok [OF first ok])
  obtain x c w where f: "coordinator_fail (env_jobs env) code (execution_summary f) (worker_coordinator st)
      (worker_world ?st) = (x, c, w)" by (metis prod_cases3)
  let ?st1 = "?st\<lparr>worker_coordinator := c, worker_world := w\<rparr>"
  have res: "(r, st') = (case x of Inl e \<Rightarrow> (Inl (WorkerJob e), ?st1) | Inr _ \<Rightarrow> (Inr (), notify_failure_identity env i f ?st1))"
    using run f by (auto simp: fail_and_notify_def coordinate_def job_call_def Let_def split: sum.splits)
  show ?thesis
  proof (cases "worker_active st")
    case None
    with f have "x = Inl JobOwnershipLost" "c = worker_coordinator st" "w = worker_world ?st"
      by (simp_all add: coordinator_fail_def renew_active_none)
    with res have "r = Inl (WorkerJob JobOwnershipLost)" "worker_catalog st' = worker_catalog ?st"
      "worker_log st' = worker_log ?st" by simp_all
    with first evolves_same show ?thesis by (auto intro: evolves_trans)
  next
    case (Some claim)
    then have t: "claim_token claim = t" using i(1) by (simp add: holds_def)
    note out = coordinator_fail_settles [OF ok1 _ f, of claim]
    have steps: "worker_evolves ?st ?st1" using out Some by (simp add: worker_evolves_def)
    then have ev: "worker_evolves st ?st1" by (rule evolves_trans [OF first])
    show ?thesis
    proof (cases x)
      case (Inl e)
      with res ev show ?thesis by simp
    next
      case (Inr u)
      with out Some t i(2) obtain j where none: "coordinator_active c = None"
        and j: "find_job (identity_job_id i) (world_catalog w) = Some j" "job_state j = Failed" "job_claimed_by j = None"
          "job_error_code j = Some (error_name code)" "job_error_summary j = Some (execution_summary f)"
        by (auto simp: call_settled_def)
      from identified_row [OF ev ok i(3)] j(1)
      have "job_session_id j = identity_session_id i" "job_chunk_id j = identity_chunk_id i" by simp_all
      with j have "worker_evolves ?st1 (notify_failure_identity env i f ?st1)"
        by (auto simp: notify_failure_identity_def code stable_error_code_def intro!: emit_evolves)
      moreover have "settled (notify_failure_identity env i f ?st1)"
        using none by (simp add: settled_def notify_failure_identity_def)
      ultimately show ?thesis using res Inr evolves_trans [OF ev] by simp
    qed
  qed
qed

lemma enter_round:
  assumes fair: "fair_others env" and ok: "world_ok (worker_world st)" and t: "holds t st"
    and run: "coordinate env enter_transcribing st = (r, st')"
  shows "worker_evolves st st' \<and> (case r of Inr _ \<Rightarrow> holds t st' | Inl _ \<Rightarrow> True)"
proof -
  let ?st = "interfere env st"
  have first: "worker_evolves st ?st" by (rule interfere_evolves [OF fair])
  have ok1: "world_ok (worker_world ?st)" by (rule evolves_ok [OF first ok])
  obtain c w where f: "enter_transcribing (env_jobs env) (worker_coordinator st) (worker_world ?st) = (r, c, w)"
    and st': "st' = ?st\<lparr>worker_coordinator := c, worker_world := w\<rparr>"
    using run by (auto simp: coordinate_def Let_def split: prod.splits)
  show ?thesis
  proof (cases "worker_active st")
    case None
    with f have "r = Inl JobOwnershipLost" "w = worker_world ?st"
      by (auto simp: enter_transcribing_def renew_active_none)
    with first st' show ?thesis by (auto simp: worker_evolves_def)
  next
    case (Some claim)
    with enter_transcribing_settles [OF ok1 _ f, of claim] t
    have "queue_step\<^sup>*\<^sup>* (worker_catalog ?st) (world_catalog w)" "case r of Inr _ \<Rightarrow> holds t st' | Inl _ \<Rightarrow> True"
      by (auto simp: call_settled_def holds_def st' split: sum.splits)
    then have "worker_evolves ?st st'" by (simp add: st' worker_evolves_def)
    with first \<open>case r of Inr _ \<Rightarrow> holds t st' | Inl _ \<Rightarrow> True\<close> show ?thesis by (blast intro: evolves_trans)
  qed
qed

lemma renew_round:
  assumes fair: "fair_others env" and ok: "world_ok (worker_world st)" and t: "holds t st"
    and run: "coordinate env renew_if_due st = (r, st')"
  shows "worker_evolves st st' \<and> (case r of Inr _ \<Rightarrow> holds t st' | Inl e \<Rightarrow> e = JobCancelRequested \<longrightarrow> settled st')"
proof -
  let ?st = "interfere env st"
  have first: "worker_evolves st ?st" by (rule interfere_evolves [OF fair])
  have ok1: "world_ok (worker_world ?st)" by (rule evolves_ok [OF first ok])
  obtain c w where f: "renew_if_due (env_jobs env) (worker_coordinator st) (worker_world ?st) = (r, c, w)"
    and st': "st' = ?st\<lparr>worker_coordinator := c, worker_world := w\<rparr>"
    using run by (auto simp: coordinate_def Let_def split: prod.splits)
  have "queue_step\<^sup>*\<^sup>* (worker_catalog ?st) (world_catalog w) \<and>
    (case r of Inr _ \<Rightarrow> holds t st' | Inl e \<Rightarrow> e = JobCancelRequested \<longrightarrow> settled st')"
  proof (cases "worker_active st")
    case None
    with f show ?thesis by (auto simp: renew_if_due_def holds_def st')
  next
    case (Some claim)
    then have ct: "claim_token claim = t" using t by (simp add: holds_def)
    obtain now w1 where clk: "read_clock (env_jobs env) (worker_world ?st) = (now, w1)" by fastforce
    have same: "world_catalog w1 = worker_catalog ?st" by (rule read_clock_eq [OF clk])
    show ?thesis
    proof (cases "now < claim_renew_at claim")
      case True
      with f Some clk same ct show ?thesis by (auto simp: renew_if_due_def holds_def st')
    next
      case False
      obtain x c1 w2 where a: "renew_active (env_jobs env) (worker_coordinator st) w1 = (x, c1, w2)" by (metis prod_cases3)
      have eq: "r = and_then x (\<lambda>_. Inr True)" "c = c1" "w = w2"
        using f Some clk False a by (auto simp: renew_if_due_def)
      have ok2: "world_ok w1" using ok1 same by (simp add: world_ok_def)
      from renew_active_outcome [OF a ok2 Some] show ?thesis
        using eq same ct
        by (cases x) (auto simp: holds_def settled_def st' error_settled_def split: JobError.splits)
    qed
  qed
  then have "worker_evolves ?st st'" "case r of Inr _ \<Rightarrow> holds t st' | Inl e \<Rightarrow> e = JobCancelRequested \<longrightarrow> settled st'"
    by (simp_all add: st' worker_evolves_def)
  with first show ?thesis by (blast intro: evolves_trans)
qed

text \<open>Publishing: on success the returned revision is in the catalog.\<close>

lemma published_revision:
  assumes "queue_ok (jobs cat)" "publish_asr_result receipt_id rid t receipt segs now cat = Inr (Some v, cat')"
  shows "event_true (RevisionPublished v, cat')"
proof -
  from publication_commits_iff [OF assms(1)] assms(2) obtain j c
    where v: "Some v = published_result rid segs now cat j c"
    and cat': "cat' = published_catalog receipt_id rid t receipt segs now cat j c" by auto
  have segs: "segs \<noteq> []" using v by (auto simp: published_result_def)
  have frame: "revisions (with_segments ctx r ss x) = revisions x" "revisions (finish_job a b x) = revisions x" for ctx r ss x a b
    by (simp_all add: with_segments_def finish_job_def)
  show ?thesis
    using v segs by (auto simp: cat' published_catalog_def published_result_def frame Let_def)
qed

lemma publish_round:
  assumes fair: "fair_others env" and ok: "world_ok (worker_world st)"
    and run: "coordinate env (\<lambda>j. coordinator_publish j a b t receipt segs) st = (r, st')"
  shows "worker_evolves st st' \<and> (case r of Inr (Some v) \<Rightarrow> event_true (RevisionPublished v, worker_catalog st') | _ \<Rightarrow> True)"
proof -
  let ?st = "interfere env st"
  have first: "worker_evolves st ?st" by (rule interfere_evolves [OF fair])
  have ok1: "queue_ok (jobs (worker_catalog ?st))" using evolves_ok [OF first ok] by (simp add: world_ok_def)
  obtain w where f: "repository_publish (env_jobs env) a b t receipt segs (worker_world ?st) = (r, w)"
    and st': "st' = ?st\<lparr>worker_world := w\<rparr>"
    using run by (auto simp: coordinate_def coordinator_publish_def Let_def split: prod.splits)
  obtain now w1 where clk: "read_clock (env_jobs env) (worker_world ?st) = (now, w1)" by fastforce
  have same: "world_catalog w1 = worker_catalog ?st" by (rule read_clock_eq [OF clk])
  have "world_catalog w = worker_catalog ?st \<and> (\<exists>e. r = Inl e) \<or>
    (\<exists>out. r = Inr out \<and> publish_asr_result a b t receipt segs now (worker_catalog ?st) = Inr (out, world_catalog w))"
    using f clk same
    by (auto simp: repository_publish_def guarded_def rollback_op_def Let_def split: option.splits sum.splits prod.splits)
  then show ?thesis
  proof (elim disjE conjE exE)
    fix e assume "world_catalog w = worker_catalog ?st" "r = Inl e"
    with first st' show ?thesis by (auto simp: worker_evolves_def)
  next
    fix out assume r: "r = Inr out"
      and p: "publish_asr_result a b t receipt segs now (worker_catalog ?st) = Inr (out, world_catalog w)"
    have "worker_evolves ?st st'" using step_publish [OF p] by (auto simp: st' worker_evolves_def)
    moreover have "case out of Some v \<Rightarrow> event_true (RevisionPublished v, worker_catalog st') | None \<Rightarrow> True"
      using published_revision [OF ok1] p by (auto simp: st' split: option.splits)
    ultimately show ?thesis using first r by (auto intro: evolves_trans split: option.splits)
  qed
qed

subsection \<open>A round keeps the queue sound and tells the truth\<close>

definition round_good :: "worker_state \<Rightarrow> 'e + 'a \<Rightarrow> worker_state \<Rightarrow> bool" where
  "round_good st r st' \<longleftrightarrow> worker_evolves st st' \<and> (case r of Inr _ \<Rightarrow> settled st' | Inl _ \<Rightarrow> True)"

lemma round_good_map [simp]: "round_good st (map_err g r) st' = round_good st r st'"
  by (cases r) (simp_all add: round_good_def)

lemma round_good_after: "worker_evolves st mid \<Longrightarrow> round_good mid r st' \<Longrightarrow> round_good st r st'"
  by (auto simp: round_good_def intro: evolves_trans)

lemma round_good_error: "worker_evolves st st' \<Longrightarrow> round_good st (Inl e) st'"
  by (simp add: round_good_def)

lemma recover_and_return_good:
  assumes "fair_others env" "world_ok (worker_world st)" "recover_and_return env st = (r, st')"
  shows "round_good st r st'"
proof -
  obtain x st1 where c: "coordinate env coordinator_recover st = (x, st1)" by fastforce
  with recover_round [OF assms(1,2) c] assms(3) show ?thesis
    by (cases x) (auto simp: recover_and_return_def job_call_eq round_good_def)
qed

lemma acknowledge_and_return_good:
  assumes "fair_others env" "world_ok (worker_world st)" "acknowledge_and_return env st = (r, st')"
  shows "round_good st r st'"
proof -
  obtain x st1 where c: "coordinate env coordinator_acknowledge_cancel st = (x, st1)" by fastforce
  with acknowledge_round [OF assms(1,2) c] assms(3) show ?thesis
    by (cases x) (auto simp: acknowledge_and_return_def job_call_eq round_good_def)
qed

lemma fail_and_notify_good:
  assumes "fair_others env" "world_ok (worker_world st)" "holds t st"
    "token_job_id t = identity_job_id i" "identifies i (worker_catalog st)"
    "fail_and_notify env code f (notify_failure_identity env i f) st = (r, st')" "code = execution_code f"
  shows "round_good st r st'"
  using fail_round [OF assms(1-5,7,6)] by (simp add: round_good_def)

lemma emit_cancel_keeps: "worker_evolves st (emit RunCancelled st)" "holds t (emit RunCancelled st) = holds t st"
  by (auto intro!: emit_evolves simp: holds_def)

lemma good_emit: "round_good (emit RunCancelled st) r st' \<Longrightarrow> round_good st r st'"
  by (rule round_good_after [OF emit_cancel_keeps(1)])

lemma publish_success_good:
  assumes fair: "fair_others env" and ok: "world_ok (worker_world st)"
    and run: "publish_success env t success st = (r, st')"
  shows "round_good st r st'"
proof -
  obtain a b where ids: "env_new_ids env (worker_moment st) = (a, b)" by fastforce
  obtain x st1 where c: "coordinate env (\<lambda>j. coordinator_publish j a b t (success_receipt success)
      (success_segments success)) st = (x, st1)" by fastforce
  note out = publish_round [OF fair ok c]
  then have ev: "worker_evolves st st1" by blast
  have ok1: "world_ok (worker_world st1)" by (rule evolves_ok [OF ev ok])
  show ?thesis
  proof (cases x)
    case (Inl e)
    show ?thesis
    proof (cases "e = PubCancelled \<or> e = PubOwnershipLost")
      case True
      then have "publish_success env t success st =
          (if e = PubCancelled then acknowledge_and_return env (emit RunCancelled st1)
           else recover_and_return env (emit RunCancelled st1))"
        using ids c Inl by (auto simp: publish_success_def)
      with run True ok1 have "round_good (emit RunCancelled st1) r st'"
        by (cases "e = PubCancelled")
          (auto intro: acknowledge_and_return_good [OF fair] recover_and_return_good [OF fair])
      then have "round_good st1 r st'" by (rule good_emit)
      with ev show ?thesis by (rule round_good_after)
    next
      case False
      then have "r = Inl (WorkerPublish e)" "st' = st1"
        using run ids c Inl by (auto simp: publish_success_def split: PublicationError.splits)
      with ev show ?thesis by (simp add: round_good_error)
    qed
  next
    case (Inr published)
    let ?st2 = "case published of None \<Rightarrow> st1 | Some v \<Rightarrow> notify_publication env v st1"
    have ev2: "worker_evolves st1 ?st2"
      using out Inr by (auto simp: notify_publication_def intro!: emit_evolves split: option.splits)
    have "recover_and_return env ?st2 = (r, st')" using run ids c Inr by (simp add: publish_success_def)
    from recover_and_return_good [OF fair evolves_ok [OF ev2 ok1] this] show ?thesis
      by (rule round_good_after [OF evolves_trans [OF ev ev2]])
  qed
qed

lemma loaded_identity:
  assumes "repository_load_snapshot lib j t stage w = (Inr s, w')"
  shows "identity_job_id (snapshot_identity s) = token_job_id t \<and> identifies (snapshot_identity s) (world_catalog w')"
proof -
  have cat: "world_catalog w' = world_catalog w"
    using assms by (auto simp: repository_load_snapshot_def read_clock_def guarded_def query_op_def Let_def
        split: option.splits sum.splits)
  obtain now where "load_execution_snapshot lib t stage now (world_catalog w) = Inr s"
    using assms by (auto simp: repository_load_snapshot_def read_clock_def guarded_def query_op_def Let_def
        split: option.splits sum.splits)
  then obtain r c where "find_job (token_job_id t) (world_catalog w) = Some r"
    "into_snapshot lib t stage now r c = Inr s"
    by (auto simp: load_execution_snapshot_def find_job_def split: option.splits)
  then show ?thesis
    by (auto simp: cat identifies_def snapshot_identity_def into_snapshot_def result_simps split: if_splits)
qed

lemma load_keeps: "world_catalog (snd (repository_load_snapshot lib j t stage w)) = world_catalog w"
  by (simp add: repository_load_snapshot_def read_clock_def guarded_def query_op_def Let_def
      split: option.splits)

lemma identity_keeps: "world_catalog (snd (repository_job_identity j i w)) = world_catalog w"
  by (simp add: repository_job_identity_def guarded_def query_op_def Let_def split: option.splits)

lemma find_job_self: "find_job i cat = Some j \<Longrightarrow> find_job (job_id j) cat = Some j \<and> job_id j = i"
  using find_job_Some by blast

lemma job_identified:
  assumes "repository_job_identity j i w = (Inr x, w')"
  shows "identity_job_id x = i \<and> identifies x (world_catalog w')"
proof -
  obtain r where r: "find_job i (world_catalog w) = Some r" "world_catalog w' = world_catalog w"
    "x = \<lparr>identity_job_id = job_id r, identity_session_id = job_session_id r, identity_chunk_id = job_chunk_id r\<rparr>"
    using assms
    by (auto simp: repository_job_identity_def guarded_def query_op_def asr_job_identity_def
        result_simps Let_def split: option.splits sum.splits prod.splits)
  with find_job_self [OF r(1)] show ?thesis by (simp add: identifies_def)
qed

lemma observe_renewing:
  assumes fair: "fair_others env" and ok: "world_ok (worker_world st)" and t: "holds t st"
    and run: "coordinate env renew_if_due st = (x, st1)"
    and res: "(r, st') = (case x of
        Inr _ \<Rightarrow> (Inr None, st1)
      | Inl JobCancelRequested \<Rightarrow> (Inr (Some ()), emit RunCancelled st1)
      | Inl JobOwnershipLost \<Rightarrow> then_do (recover_and_return env (emit RunCancelled st1)) (\<lambda>_ st. (Inr (Some ()), st))
      | Inl e \<Rightarrow> (Inl (WorkerJob e), st1))"
  shows "worker_evolves st st' \<and> (case r of Inr (Some _) \<Rightarrow> settled st' | Inr None \<Rightarrow> holds t st' | Inl _ \<Rightarrow> True)"
proof -
  note out = renew_round [OF fair ok t run]
  then have ev: "worker_evolves st st1" by blast
  have ok1: "world_ok (worker_world st1)" by (rule evolves_ok [OF ev ok])
  show ?thesis
  proof (cases x)
    case (Inr b)
    with res out show ?thesis by simp
  next
    case e: (Inl e)
    show ?thesis
    proof (cases "e = JobOwnershipLost")
      case True
      obtain y st2 where y: "recover_and_return env (emit RunCancelled st1) = (y, st2)" by fastforce
      have "round_good st1 y st2"
        by (rule good_emit, rule recover_and_return_good [OF fair _ y]) (simp add: ok1)
      then have "worker_evolves st st2" "case y of Inr _ \<Rightarrow> settled st2 | Inl _ \<Rightarrow> True"
        using ev by (auto simp: round_good_def intro: evolves_trans)
      with res e True y show ?thesis by (cases y) auto
    next
      case False
      have "worker_evolves st (emit RunCancelled st1)" by (rule evolves_trans [OF ev emit_cancel_keeps(1)])
      moreover have "settled (emit RunCancelled st1) = settled st1"
        by (cases "worker_active st1") (simp_all add: settled_def)
      ultimately show ?thesis using res e False out ev by (cases e) auto
    qed
  qed
qed

lemma observe_round:
  assumes fair: "fair_others env" and ok: "world_ok (worker_world st)" and t: "holds t st"
    and snap: "token_job_id t = identity_job_id (snapshot_identity s)" "identifies (snapshot_identity s) (worker_catalog st)"
    and run: "observe_running env t s st = (r, st')"
  shows "worker_evolves st st' \<and> (case r of Inr (Some _) \<Rightarrow> settled st' | Inr None \<Rightarrow> holds t st' | Inl _ \<Rightarrow> True)"
proof -
  define due where "due = (case worker_active st of None \<Rightarrow> (False, st)
    | Some claim \<Rightarrow> let (now, st) = worker_clock env st in (claim_renew_at claim \<le> now, st))"
  obtain d st0 where d: "due = (d, st0)" by fastforce
  have st0: "worker_evolves st st0" "worker_coordinator st0 = worker_coordinator st" "worker_catalog st0 = worker_catalog st"
    using d clock_evolves [of env st] by (auto simp: due_def split: option.splits prod.splits)
  have ok0: "world_ok (worker_world st0)" using ok st0(3) by (simp add: world_ok_def)
  have t0: "holds t st0" using t st0(2) by (simp add: holds_def)
  show ?thesis
  proof (cases d)
    case True
    obtain x st1 where c: "coordinate env renew_if_due st0 = (x, st1)" by fastforce
    have "(r, st') = (case x of
        Inr _ \<Rightarrow> (Inr None, st1)
      | Inl JobCancelRequested \<Rightarrow> (Inr (Some ()), emit RunCancelled st1)
      | Inl JobOwnershipLost \<Rightarrow> then_do (recover_and_return env (emit RunCancelled st1)) (\<lambda>_ st. (Inr (Some ()), st))
      | Inl e \<Rightarrow> (Inl (WorkerJob e), st1))"
      using run d True c by (simp add: observe_running_def due_def [symmetric] Let_def)
    from observe_renewing [OF fair ok0 t0 c this] show ?thesis by (blast intro: evolves_trans [OF st0(1)])
  next
    case False
    obtain x st1 where c: "repository_call env (\<lambda>j. repository_load_snapshot (env_libraries env) j t StageTranscribing) st0 = (x, st1)"
      by fastforce
    note step = repository_evolves [OF fair c load_keeps]
    have ev: "worker_evolves st st1" using step evolves_trans [OF st0(1)] by blast
    have ok1: "world_ok (worker_world st1)" by (rule evolves_ok [OF ev ok])
    have t1: "holds t (emit RunCancelled st1)" using t0 step by (simp add: holds_def)
    let ?i = "snapshot_identity s"
    have i1: "identifies ?i (worker_catalog (emit RunCancelled st1))"
      using identifies_stays [OF ev ok snap(2)] by simp
    note fails = fail_and_notify_good [OF fair _ t1 snap(1) i1]
    show ?thesis
    proof (cases x)
      case (Inr y)
      with run d False c have "r = Inr None" "st' = st1"
        by (simp_all add: observe_running_def due_def [symmetric] Let_def)
      with ev t1 show ?thesis by (simp add: emit_cancel_keeps)
    next
      case (Inl e)
      let ?f = "if e = SnapshotInputUnavailable then \<lparr>execution_code = AsrErrorCode.InputUnavailable,
          execution_summary = ''job input became unavailable while transcribing''\<rparr> else map_snapshot_error e"
      obtain y st2 where y: "(y, st2) = (case e of
          SnapshotCancelRequested \<Rightarrow> acknowledge_and_return env (emit RunCancelled st1)
        | SnapshotOwnershipLost \<Rightarrow> recover_and_return env (emit RunCancelled st1)
        | SnapshotLeaseExpired \<Rightarrow> recover_and_return env (emit RunCancelled st1)
        | SnapshotStageMismatch \<Rightarrow> recover_and_return env (emit RunCancelled st1)
        | _ \<Rightarrow> fail_and_notify env (execution_code ?f) ?f (notify_failure_identity env ?i ?f) (emit RunCancelled st1))"
        by (metis surj_pair)
      have "observe_running env t s st = then_do (y, st2) (\<lambda>_ st. (Inr (Some ()), st))"
        using d False c Inl y
        by (cases e) (simp_all add: observe_running_def due_def [symmetric] Let_def notify_failure_def
          map_snapshot_error_def)
      moreover have "round_good (emit RunCancelled st1) y st2"
        using y [symmetric] ok1
        by (cases e) (auto intro: acknowledge_and_return_good [OF fair] recover_and_return_good [OF fair] fails)
      then have "round_good st1 y st2" by (rule good_emit)
      ultimately show ?thesis using run ev
        by (cases y) (auto simp: round_good_def intro: evolves_trans)
    qed
  qed
qed

text \<open>What a run needs at each poll, and keeps.\<close>

definition run_ready :: "ClaimToken \<Rightarrow> ExecutionSnapshot \<Rightarrow> worker_state \<Rightarrow> bool" where
  "run_ready t s st \<longleftrightarrow> world_ok (worker_world st) \<and> holds t st \<and> token_job_id t = identity_job_id (snapshot_identity s) \<and>
     identifies (snapshot_identity s) (worker_catalog st)"

lemma ready_stays: "run_ready t s st \<Longrightarrow> worker_evolves st st' \<Longrightarrow> holds t st' \<Longrightarrow> run_ready t s st'"
  unfolding run_ready_def using evolves_ok identifies_stays by blast

lemma fail_snapshot_good:
  assumes "fair_others env" "run_ready t s st"
    "fail_and_notify env code f (notify_failure env s f) st = (r, st')" "code = execution_code f"
  shows "round_good st r st'"
  using fail_and_notify_good [OF assms(1), of st t "snapshot_identity s" code f r st'] assms(2-4)
  by (simp add: run_ready_def notify_failure_def)

lemma poll_round:
  assumes fair: "fair_others env" and ready: "run_ready t s st" and run: "poll_run env t s x st = (r, st')"
  shows "worker_evolves st st' \<and>
    (case r of Inr None \<Rightarrow> settled st' | Inr (Some _) \<Rightarrow> run_ready t s st' | Inl _ \<Rightarrow> True)"
proof -
  obtain d st0 where d: "next_run_timeout env st = (d, st0)" by fastforce
  obtain answer y where a: "env_recv env (worker_moment st0) x d = (answer, y)" by fastforce
  let ?st = "interfere env st0"
  have ev: "worker_evolves st ?st"
    using timeout_evolves [OF d] interfere_evolves [OF fair] by (blast intro: evolves_trans)
  have "holds t ?st" using ready timeout_evolves [OF d] by (simp add: run_ready_def holds_def)
  then have ready1: "run_ready t s ?st" by (rule ready_stays [OF ready ev])
  then have ok1: "world_ok (worker_world ?st)" by (simp add: run_ready_def)
  show ?thesis
  proof (cases answer)
    case RunPending
    obtain z st1 where o: "observe_running env t s ?st = (z, st1)" by fastforce
    from observe_round [OF fair ok1 _ _ _ o] ready1
    have out: "worker_evolves ?st st1" "case z of Inr (Some _) \<Rightarrow> settled st1 | Inr None \<Rightarrow> holds t st1 | Inl _ \<Rightarrow> True"
      by (simp_all add: run_ready_def)
    have "(r, st') = (case z of Inl e \<Rightarrow> (Inl e, st1)
        | Inr outcome \<Rightarrow> (Inr (case outcome of None \<Rightarrow> Some y | Some _ \<Rightarrow> None), st1))"
      using run d a RunPending o by (cases z) (simp_all add: poll_run_def)
    with out evolves_trans [OF ev out(1)] ready_stays [OF ready1 out(1)] show ?thesis
      by (auto split: sum.splits option.splits)
  next
    case (RunFailed f)
    obtain z st1 where z: "fail_and_notify env (execution_code f) f (notify_failure env s f) ?st = (z, st1)" by fastforce
    have "(r, st') = (case z of Inl e \<Rightarrow> (Inl e, st1) | Inr _ \<Rightarrow> (Inr None, st1))"
      using run d a RunFailed z by (cases z) (simp_all add: poll_run_def)
    with round_good_after [OF ev fail_snapshot_good [OF fair ready1 z refl]] show ?thesis
      by (cases z) (auto simp: round_good_def)
  next
    case (RunSucceeded success)
    obtain z st1 where z: "publish_success env t success ?st = (z, st1)" by fastforce
    have "(r, st') = (case z of Inl e \<Rightarrow> (Inl e, st1) | Inr _ \<Rightarrow> (Inr None, st1))"
      using run d a RunSucceeded z by (cases z) (simp_all add: poll_run_def)
    with round_good_after [OF ev publish_success_good [OF fair ok1 z]] show ?thesis
      by (cases z) (auto simp: round_good_def)
  qed
qed

definition outcome_good :: "worker_state \<Rightarrow> (WorkerError + unit) option \<Rightarrow> worker_state \<Rightarrow> bool" where
  "outcome_good st r st' \<longleftrightarrow> worker_evolves st st' \<and> (r = Some (Inr ()) \<longrightarrow> settled st')"

lemma outcome_good_after: "worker_evolves st mid \<Longrightarrow> outcome_good mid r st' \<Longrightarrow> outcome_good st r st'"
  by (auto simp: outcome_good_def intro: evolves_trans)

lemma run_loop_good:
  "fair_others env \<Longrightarrow> run_ready t s st \<Longrightarrow> run_loop env n t s x st = (r, st') \<Longrightarrow> outcome_good st r st'"
proof (induction env n t s x st rule: run_loop.induct)
  case (2 env n t s x st)
  obtain z st1 where p: "poll_run env t s x st = (z, st1)" by fastforce
  note out = poll_round [OF 2(2,3) p]
  show ?case
  proof (cases z)
    case (Inl e)
    with 2(4) p out show ?thesis by (auto simp: outcome_good_def)
  next
    case (Inr y)
    show ?thesis
    proof (cases y)
      case None
      with 2(4) p Inr out show ?thesis by (auto simp: outcome_good_def)
    next
      case (Some x')
      with 2(4) p Inr have "run_loop env n t s x' st1 = (r, st')" by simp
      from 2(1) [OF p [symmetric] Inr Some 2(2) _ this] out Inr Some show ?thesis
        by (auto intro: outcome_good_after)
    qed
  qed
qed (simp add: outcome_good_def)

lemma preparing_error_good:
  assumes fair: "fair_others env" and ok: "world_ok (worker_world st)" and t: "holds t st"
    "token_job_id t = identity_job_id i" "identifies i (worker_catalog st)"
    and run: "handle_preparing_snapshot_error env e i st = (r, st')"
  shows "round_good st r st'"
  using run
  by (cases e) (auto simp: handle_preparing_snapshot_error_def map_snapshot_error_def Let_def
      intro: acknowledge_and_return_good [OF fair ok] recover_and_return_good [OF fair ok]
        fail_and_notify_good [OF fair ok t] round_good_error)

text \<open>How far starting a run may get: the round is over and settled, or the run can be polled.\<close>

definition start_good ::
    "ClaimToken \<Rightarrow> worker_state \<Rightarrow> WorkerError + ('r \<times> ExecutionSnapshot) option \<Rightarrow> worker_state \<Rightarrow> bool" where
  "start_good t st r st' \<longleftrightarrow> worker_evolves st st' \<and>
     (case r of Inr None \<Rightarrow> settled st' | Inr (Some (x, s)) \<Rightarrow> run_ready t s st' | Inl _ \<Rightarrow> True)"

lemma start_good_after: "worker_evolves st mid \<Longrightarrow> start_good t mid r st' \<Longrightarrow> start_good t st r st'"
  by (auto simp: start_good_def intro: evolves_trans)

lemma over_good: "round_over (z, st1) = (r, st') \<Longrightarrow> round_good st z st1 \<Longrightarrow> start_good t st r st'"
  by (cases z) (auto simp: round_over_def round_good_def start_good_def)

lemma over_fails:
  assumes "fair_others env" "run_ready t s st"
    and "round_over (fail_and_notify env (execution_code f) f (notify_failure env s f) st) = (r, st')"
  shows "start_good t st r st'"
proof -
  obtain z st1 where z: "fail_and_notify env (execution_code f) f (notify_failure env s f) st = (z, st1)" by fastforce
  from over_good [OF _ fail_snapshot_good [OF assms(1,2) z refl]] assms(3) z show ?thesis by simp
qed

lemma begin_good:
  assumes fair: "fair_others env" and ready: "run_ready t s st" and run: "begin_run env s p st = (r, st')"
  shows "start_good t st r st'"
proof -
  obtain c st1 where c: "coordinate env enter_transcribing st = (c, st1)" by fastforce
  have out: "worker_evolves st st1" "case c of Inr _ \<Rightarrow> holds t st1 | Inl _ \<Rightarrow> True"
    using enter_round [OF fair _ _ c, of t] ready by (simp_all add: run_ready_def)
  show ?thesis
  proof (cases c)
    case (Inl e)
    with run c out(1) show ?thesis by (auto simp: begin_run_def job_call_eq start_good_def)
  next
    case u: (Inr u)
    obtain now st2 where clk: "worker_clock env st1 = (now, st2)" by fastforce
    let ?st = "interfere env st2"
    have ev: "worker_evolves st ?st" "worker_coordinator ?st = worker_coordinator st1"
      using out(1) clock_evolves [OF clk] interfere_evolves [OF fair] by (auto intro: evolves_trans)
    have "holds t ?st" using out(2) u ev(2) by (simp add: holds_def)
    then have ready1: "run_ready t s ?st" by (rule ready_stays [OF ready ev(1)])
    show ?thesis
    proof (cases "env_start env (worker_moment st2) p now")
      case (Inl f)
      with run c u clk have "round_over (fail_and_notify env (execution_code f) f (notify_failure env s f) ?st) = (r, st')"
        by (simp add: begin_run_def job_call_eq Let_def)
      from start_good_after [OF ev(1) over_fails [OF fair ready1 this]] show ?thesis .
    next
      case (Inr x)
      with run c u clk have "r = Inr (Some (x, s))" "st' = ?st"
        by (simp_all add: begin_run_def job_call_eq Let_def)
      with ev(1) ready1 show ?thesis by (simp add: start_good_def)
    qed
  qed
qed

lemma prepare_good:
  assumes fair: "fair_others env" and ready: "run_ready t s st" and run: "prepare_run env s st = (r, st')"
  shows "start_good t st r st'"
proof -
  let ?st = "interfere env st"
  have ev: "worker_evolves st ?st" by (rule interfere_evolves [OF fair])
  have ready1: "run_ready t s ?st" using ready_stays [OF ready ev] ready by (simp add: run_ready_def holds_def)
  show ?thesis
  proof (cases "env_prepare env (worker_moment st) s")
    case (Inl f)
    with run start_good_after [OF ev over_fails [OF fair ready1]] show ?thesis by (simp add: prepare_run_def)
  next
    case (Inr p)
    with run start_good_after [OF ev begin_good [OF fair ready1]] show ?thesis by (simp add: prepare_run_def)
  qed
qed

lemma start_round:
  assumes fair: "fair_others env" and ok: "world_ok (worker_world st)" and t: "holds t st"
    and run: "start_run env t st = (r, st')"
  shows "start_good t st r st'"
proof -
  obtain a st1 where a: "repository_call env (\<lambda>j. repository_job_identity j (token_job_id t)) st = (a, st1)" by fastforce
  have ev1: "worker_evolves st st1" "worker_coordinator st1 = worker_coordinator st"
    using repository_evolves [OF fair a identity_keeps] by simp_all
  show ?thesis
  proof (cases a)
    case (Inl e)
    with run a ev1 show ?thesis by (auto simp: start_run_def job_call_eq start_good_def)
  next
    case i: (Inr i)
    have id: "token_job_id t = identity_job_id i" "identifies i (worker_catalog st1)"
      using job_identified a i by (fastforce simp: repository_call_def Let_def split: prod.splits)+
    obtain b st2 where b: "repository_call env (\<lambda>j. repository_load_snapshot (env_libraries env) j t StagePreparing) st1 = (b, st2)"
      by fastforce
    have ev2: "worker_evolves st1 st2" "worker_coordinator st2 = worker_coordinator st1"
      using repository_evolves [OF fair b load_keeps] by simp_all
    have ev: "worker_evolves st st2" by (rule evolves_trans [OF ev1(1) ev2(1)])
    have ok2: "world_ok (worker_world st2)" by (rule evolves_ok [OF ev ok])
    have t2: "holds t st2" using t ev1(2) ev2(2) by (simp add: holds_def)
    have id2: "identifies i (worker_catalog st2)"
      using identifies_stays [OF ev2(1) evolves_ok [OF ev1(1) ok] id(2)] .
    show ?thesis
    proof (cases b)
      case (Inl e)
      obtain z st3 where z: "handle_preparing_snapshot_error env e i st2 = (z, st3)" by fastforce
      with run a i b Inl have "round_over (z, st3) = (r, st')" by (simp add: start_run_def job_call_eq Let_def)
      from start_good_after [OF ev over_good [OF this preparing_error_good [OF fair ok2 t2 id(1) id2 z]]] show ?thesis .
    next
      case (Inr s)
      have "token_job_id t = identity_job_id (snapshot_identity s)" "identifies (snapshot_identity s) (worker_catalog st2)"
        using loaded_identity b Inr by (fastforce simp: repository_call_def Let_def split: prod.splits)+
      then have ready: "run_ready t s st2" using ok2 t2 by (simp add: run_ready_def)
      have "prepare_run env s st2 = (r, st')" using run a i b Inr by (simp add: start_run_def job_call_eq Let_def)
      from start_good_after [OF ev prepare_good [OF fair ready this]] show ?thesis .
    qed
  qed
qed

lemma repository_claim_steps:
  "queue_step\<^sup>*\<^sup>* (world_catalog w) (world_catalog (snd (repository_claim env boot worker w)))"
proof -
  let ?now = "env_clock env (world_readings w)"
  obtain x cat where c: "claim_asr_job (env_owner env boot worker) (canonical_time ?now)
      (canonical_time (?now + seconds LEASE_SECONDS)) (world_catalog w) = (x, cat)" by fastforce
  have "queue_step (world_catalog w) cat" by (rule step_claim [OF c])
  with c show ?thesis
    by (auto simp: repository_claim_def guarded_def read_clock_def Let_def split: option.splits)
qed

lemma claim_round:
  assumes fair: "fair_others env" and run: "coordinate env claim_next st = (r, st')"
  shows "worker_evolves st st' \<and> (case r of Inr claim \<Rightarrow> worker_active st' = claim | Inl _ \<Rightarrow> True)"
proof -
  let ?st = "interfere env st"
  obtain c w where f: "claim_next (env_jobs env) (worker_coordinator st) (worker_world ?st) = (r, c, w)"
    and st': "st' = ?st\<lparr>worker_coordinator := c, worker_world := w\<rparr>"
    using run by (auto simp: coordinate_def Let_def split: prod.splits)
  have "queue_step\<^sup>*\<^sup>* (worker_catalog ?st) (world_catalog w) \<and>
      (case r of Inr claim \<Rightarrow> coordinator_active c = claim | Inl _ \<Rightarrow> True)"
    using f repository_claim_steps [of "worker_world ?st"]
    by (auto simp: claim_next_def Let_def split: option.splits sum.splits prod.splits)
      (metis snd_conv)+
  then have "worker_evolves ?st st'" "case r of Inr claim \<Rightarrow> worker_active st' = claim | Inl _ \<Rightarrow> True"
    by (auto simp: st' worker_evolves_def split: sum.splits)
  with interfere_evolves [OF fair] show ?thesis by (blast intro: evolves_trans)
qed

lemma round_is_good:
  assumes fair: "fair_others env" and ok: "world_ok (worker_world st)" and run: "run_once env polls st = (r, st')"
  shows "outcome_good st r st'"
proof -
  obtain a st1 where a: "recover_once env st = (a, st1)" by fastforce
  have ev1: "worker_evolves st st1"
  proof (cases "worker_recovered st")
    case True
    with a show ?thesis by (simp add: recover_once_def)
  next
    case False
    obtain x st0 where x: "coordinate env coordinator_recover st = (x, st0)" by fastforce
    with recover_round [OF fair ok x] a False show ?thesis
      by (cases x) (auto simp: recover_once_def job_call_eq worker_evolves_def)
  qed
  show ?thesis
  proof (cases a)
    case (Inl e)
    with run a ev1 show ?thesis by (auto simp: run_once_def outcome_good_def)
  next
    case u: (Inr u)
    obtain stop st2 where l: "load_shutdown env st1 = (stop, st2)" by fastforce
    have ev2: "worker_evolves st st2"
      using l ev1 interfere_evolves [OF fair, of st1] by (auto simp: load_shutdown_def intro: evolves_trans)
    show ?thesis
    proof (cases "stop \<and> worker_active st2 = None")
      case True
      with run a u l ev2 show ?thesis by (auto simp: run_once_def outcome_good_def settled_def)
    next
      case go: False
      obtain c st3 where c: "coordinate env claim_next st2 = (c, st3)" by fastforce
      note claim = claim_round [OF fair c]
      have ev3: "worker_evolves st st3" using claim evolves_trans [OF ev2] by blast
      have ok3: "world_ok (worker_world st3)" by (rule evolves_ok [OF ev3 ok])
      have rest: "run_once env polls st = (case c of
          Inl e \<Rightarrow> (Some (Inl (WorkerJob e)), st3)
        | Inr None \<Rightarrow> (Some (Inr ()), emit (IdleWaited (env_idle_poll env)) (interfere env st3))
        | Inr (Some claim) \<Rightarrow> (case start_run env (claim_token claim) st3 of
            (Inl e, st) \<Rightarrow> (Some (Inl e), st)
          | (Inr None, st) \<Rightarrow> (Some (Inr ()), st)
          | (Inr (Some (run, snapshot)), st) \<Rightarrow> run_loop env polls (claim_token claim) snapshot run st))"
        using a u l go c
        by (auto simp: run_once_def job_call_eq simp del: claim_next_def split: sum.splits option.splits)
      show ?thesis
      proof (cases c)
        case (Inl e)
        with run rest ev3 show ?thesis by (auto simp: outcome_good_def)
      next
        case (Inr found)
        show ?thesis
        proof (cases found)
          case None
          have "worker_evolves st3 (emit (IdleWaited (env_idle_poll env)) (interfere env st3))"
            by (rule evolves_trans [OF interfere_evolves [OF fair] emit_evolves]) simp
          with run rest Inr None claim evolves_trans [OF ev3] show ?thesis by (auto simp: outcome_good_def settled_def)
        next
          case (Some cl)
          have t: "holds (claim_token cl) st3" using claim Inr Some by (simp add: holds_def)
          obtain b st4 where b: "start_run env (claim_token cl) st3 = (b, st4)" by fastforce
          note good = start_good_after [OF ev3 start_round [OF fair ok3 t b]]
          show ?thesis
            using good run rest Inr Some b
            by (auto simp: start_good_def outcome_good_def
                dest!: run_loop_good [OF fair, unfolded outcome_good_def]
                intro: evolves_trans split: sum.splits option.splits prod.splits)
        qed
      qed
    qed
  qed
qed

lemma life_is_good:
  "fair_others env \<Longrightarrow> world_ok (worker_world st) \<Longrightarrow> run_until_shutdown env rounds polls st = (r, st') \<Longrightarrow>
     worker_evolves st st'"
proof (induction env rounds polls st rule: run_until_shutdown.induct)
  case (2 env rounds polls st)
  obtain stop st1 where l: "load_shutdown env st = (stop, st1)" by fastforce
  have ev: "worker_evolves st st1" using l interfere_evolves [OF 2(2), of st] by (simp add: load_shutdown_def)
  have ok: "world_ok (worker_world st1)" by (rule evolves_ok [OF ev 2(3)])
  obtain x st2 where o: "run_once env polls st1 = (x, st2)" by fastforce
  have ev2: "worker_evolves st1 st2" using round_is_good [OF 2(2) ok o] by (simp add: outcome_good_def)
  then have ok2: "world_ok (worker_world st2)" by (rule evolves_ok [OF _ ok])
  show ?case
  proof (cases "stop \<and> worker_active st1 = None")
    case True
    with 2(4) l ev show ?thesis by simp
  next
    case go: False
    show ?thesis
    proof (cases "x = Some (Inr ())")
      case True
      with 2(4) l go o have "run_until_shutdown env rounds polls st2 = (r, st')" by simp
      from 2(1) [OF l [symmetric] refl go o [symmetric] True refl 2(2) ok2 this]
      show ?thesis by (rule evolves_trans [OF ev evolves_trans [OF ev2]])
    next
      case False
      with 2(4) l go o have "st' = st2" by (auto split: option.splits sum.splits)
      with evolves_trans [OF ev ev2] show ?thesis by simp
    qed
  qed
qed simp

subsection \<open>What the worker promises\<close>


text \<open>
  A round that ends well lets go: afterwards the worker holds no claim, or one the catalog still
  grants it.  So however the round went - an idle queue, a job failed by the engine, a cancellation,
  a lost lease, a published transcript - the worker is not left working on a job that is no longer
  its own.
\<close>

theorem worker_round_lets_go:
  assumes "fair_others env" "world_ok (worker_world st)"
    and "run_once env polls st = (Some (Inr ()), st')"
  shows "settled st' \<and> worker_evolves st st'"
  using round_is_good [OF assms] by (simp add: outcome_good_def)

subsection \<open>Cancellation\<close>

text \<open>A claimed job that somebody has asked to cancel, whose lease outlives every clock reading.\<close>

definition cancel_pending :: "job_env \<Rightarrow> ClaimToken \<Rightarrow> AsrJobState \<Rightarrow> catalog \<Rightarrow> bool" where
  "cancel_pending env t state cat \<longleftrightarrow> (case find_job (token_job_id t) cat of
      None \<Rightarrow> False
    | Some j \<Rightarrow> claimed_as (token_job_id t) (token_claimed_by t) (token_claim_generation t) j \<and>
        job_state j = state \<and> running_state state \<and> job_cancel_requested_at j \<noteq> None \<and>
        (\<forall>n. lease_after (job_lease_expires_at j) (canonical_time (env_clock env n))))"

text \<open>From some moment on nobody else touches the catalog, and every call is let through.\<close>

definition undisturbed_from :: "nat \<Rightarrow> ('z, 'p, 'r) worker_env \<Rightarrow> bool" where
  "undisturbed_from m env \<longleftrightarrow> (\<forall>n \<ge> m. \<forall>cat. env_others env n cat = cat) \<and> (\<forall>n. env_refusal (env_jobs env) n = None)"

lemma undisturbed_interfere:
  "undisturbed_from m env \<Longrightarrow> m \<le> worker_moment st \<Longrightarrow>
     interfere env st = st\<lparr>worker_moment := worker_moment st + 1\<rparr>"
  by (simp add: undisturbed_from_def interfere_def)

definition job_cancelled :: "ClaimToken \<Rightarrow> catalog \<Rightarrow> bool" where
  "job_cancelled t cat \<longleftrightarrow> (case find_job (token_job_id t) cat of
      None \<Rightarrow> False
    | Some j \<Rightarrow> job_state j = Cancelled \<and> job_claimed_by j = None \<and> job_error_code j = Some ''cancelled'')"

lemma pending_row:
  assumes "cancel_pending env t state cat"
  obtains j where "find_job (token_job_id t) cat = Some j" "j \<in> set (jobs cat)" "job_cancel_requested_at j \<noteq> None"
    "job_state j = state" "running_state state"
    "\<And>n. live_claim (token_job_id t) (token_claimed_by t) (token_claim_generation t) (canonical_time (env_clock env n)) j"
  using assms
  by (auto simp: cancel_pending_def live_claim_def running_row_def split: option.splits dest: find_job_Some)

lemma acknowledge_pending:
  assumes p: "cancel_pending env t state (world_catalog w)" and ok: "world_ok w"
    and free: "\<forall>n. env_refusal env n = None" and act: "coordinator_active c = Some claim" "claim_token claim = t"
  shows "\<exists>w'. coordinator_acknowledge_cancel env c w = (Inr (), c\<lparr>coordinator_active := None\<rparr>, w') \<and>
    job_cancelled t (world_catalog w')"
proof -
  let ?now = "canonical_time (env_clock env (world_readings w))"
  obtain j where j: "j \<in> set (jobs (world_catalog w))" "job_cancel_requested_at j \<noteq> None"
    "live_claim (token_job_id t) (token_claimed_by t) (token_claim_generation t) ?now j"
    by (rule pending_row [OF p]) blast
  let ?sel = "\<lambda>j. claimed_as (token_job_id t) (token_claimed_by t) (token_claim_generation t) j \<and>
    running_state (job_state j) \<and> job_cancel_requested_at j \<noteq> None \<and> lease_after (job_lease_expires_at j) ?now"
  have sel: "?sel j" "job_id j = token_job_id t" using j by (simp_all add: live_claim_def running_row_def claimed_as_def)
  have "?sel = (\<lambda>r. job_id r = token_job_id t \<and> ?sel r)" by (auto simp: claimed_as_def fun_eq_iff)
  then have one: "count_where ?sel (jobs (world_catalog w)) = 1"
    using count_key_1_iff [OF world_ids [OF ok], of "token_job_id t" ?sel] j(1) sel by auto
  define f where "f = (\<lambda>j::job_row. j\<lparr>job_state := Cancelled, job_claimed_by := None, job_lease_expires_at := None,
    job_error_code := Some ''cancelled'', job_error_summary := None, job_updated_at := ?now\<rparr>)"
  let ?cat = "(world_catalog w)\<lparr>jobs := update_where ?sel f (jobs (world_catalog w))\<rparr>"
  have "f j \<in> set (jobs ?cat)" using j(1) sel by (auto simp: set_update_where)
  moreover have "distinct (map job_id (jobs ?cat))"
    using world_ids [OF ok] by (simp add: update_key_ids f_def)
  ultimately have "find_job (token_job_id t) ?cat = Some (f j)"
    using find_job_in [of ?cat "f j"] sel(2) by (simp add: f_def)
  then have "job_cancelled t ?cat" by (simp add: job_cancelled_def f_def)
  moreover have "acknowledge_asr_job_cancel (token_job_id t) (token_claimed_by t) (token_claim_generation t) ?now
      (world_catalog w) = (1, ?cat)"
    using one by (simp add: acknowledge_asr_job_cancel_def f_def Let_def)
  ultimately show ?thesis
    using free act
    by (simp add: coordinator_acknowledge_cancel_def active_token_def repository_acknowledge_cancel_def
        read_clock_def catalog_acknowledge_cancel_def guarded_def total_op_def clear_if_ownership_lost_def owned_def Let_def)
qed

lemma renew_pending:
  assumes p: "cancel_pending env t state (world_catalog w)" and ok: "world_ok w"
    and free: "\<forall>n. env_refusal env n = None" and act: "coordinator_active c = Some claim" "claim_token claim = t"
  shows "\<exists>w'. renew_active env c w = (Inl JobCancelRequested, c\<lparr>coordinator_active := None\<rparr>, w') \<and>
    job_cancelled t (world_catalog w')"
proof -
  let ?now = "env_clock env (world_readings w)"
  obtain j where j: "j \<in> set (jobs (world_catalog w))" "job_cancel_requested_at j \<noteq> None"
    "live_claim (token_job_id t) (token_claimed_by t) (token_claim_generation t) (canonical_time ?now) j"
    by (rule pending_row [OF p]) blast
  obtain x cat where u: "renew_asr_job (token_job_id t) (token_claimed_by t) (token_claim_generation t)
      (canonical_time ?now) (canonical_time (?now + seconds LEASE_SECONDS)) (world_catalog w) = (x, cat)" by fastforce
  note cases = owned_update_cases [OF world_ids [OF ok] _ u [unfolded renew_asr_job_def], simplified]
  have x: "x = CancelRequested" "cat = world_catalog w" using cases j by auto
  let ?w = "w\<lparr>world_readings := world_readings w + 1, world_calls := world_calls w + 1\<rparr>"
  have r: "repository_renew env t w = (Inl JobCancelRequested, ?w)"
    using free u x
    by (simp add: repository_renew_def read_clock_def catalog_renew_def guarded_def total_op_def Let_def)
  have "cancel_pending env t state (world_catalog ?w)" "world_ok ?w" using p ok by (simp_all add: world_ok_def)
  from acknowledge_pending [OF this free act] obtain w' where
    "coordinator_acknowledge_cancel env c ?w = (Inr (), c\<lparr>coordinator_active := None\<rparr>, w')" "job_cancelled t (world_catalog w')"
    by blast
  with r act show ?thesis
    by (simp add: renew_active_def active_token_def handle_running_result_def Let_def)
qed

text \<open>
  A cancellation reaches the run.  Let a job being transcribed by this worker have been asked to
  cancel, and from now on nothing disturb the worker or turn its clock back.  Then the checks after the next poll end the
  round: the run is cancelled, the job is cancelled in the catalog with its claim released, and the
  worker holds no claim - whether the lease was due to be renewed at that moment or not.
\<close>

theorem cancel_reaches_the_run:
  assumes free: "undisturbed_from (worker_moment st) env" and ok: "world_ok (worker_world st)"
    and clocks: "mono (env_clock (env_jobs env))"
    and act: "worker_active st = Some claim" "claim_token claim = t"
    and pending: "cancel_pending (env_jobs env) t Transcribing (worker_catalog st)"
    and chunk: "find_job (token_job_id t) (worker_catalog st) = Some j" "find_chunk (job_chunk_id j) (worker_catalog st) = Some c"
  shows "\<exists>st'. observe_running env t s st = (Inr (Some ()), st') \<and> worker_active st' = None \<and>
    job_cancelled t (worker_catalog st') \<and> list_ex (\<lambda>(e, _). e = RunCancelled) (worker_log st')"
proof -
  have none: "\<forall>n. env_refusal (env_jobs env) n = None" using free by (simp add: undisturbed_from_def)
  let ?w = "worker_world st" and ?c = "worker_coordinator st"
  let ?st = "interfere env (st\<lparr>worker_world := ?w\<lparr>world_readings := world_readings ?w + 1\<rparr>\<rparr>)"
  have st: "?st = st\<lparr>worker_world := ?w\<lparr>world_readings := world_readings ?w + 1\<rparr>,
      worker_moment := worker_moment st + 1\<rparr>"
    by (subst undisturbed_interfere [OF free]) simp_all
  have clock: "worker_clock env st = (env_clock (env_jobs env) (world_readings ?w),
      st\<lparr>worker_world := ?w\<lparr>world_readings := world_readings ?w + 1\<rparr>\<rparr>)"
    by (simp add: worker_clock_def read_clock_def)
  show ?thesis
  proof (cases "claim_renew_at claim \<le> env_clock (env_jobs env) (world_readings ?w)")
    case True
    let ?w2 = "?w\<lparr>world_readings := world_readings ?w + 2\<rparr>"
    have "env_clock (env_jobs env) (world_readings ?w) \<le> env_clock (env_jobs env) (world_readings ?w + 1)"
      using clocks by (simp add: monoD)
    with True have due: "\<not> env_clock (env_jobs env) (world_readings ?w + 1) < claim_renew_at claim" by linarith
    have "cancel_pending (env_jobs env) t Transcribing (world_catalog ?w2)" "world_ok ?w2"
      using pending ok by (simp_all add: world_ok_def)
    from renew_pending [OF this none act] obtain w' where
      renew: "renew_active (env_jobs env) ?c ?w2 = (Inl JobCancelRequested, ?c\<lparr>coordinator_active := None\<rparr>, w')"
        "job_cancelled t (world_catalog w')" by blast
    then have "coordinate env renew_if_due (st\<lparr>worker_world := ?w\<lparr>world_readings := world_readings ?w + 1\<rparr>\<rparr>) =
        (Inl JobCancelRequested, ?st\<lparr>worker_coordinator := ?c\<lparr>coordinator_active := None\<rparr>, worker_world := w'\<rparr>)"
      using due act(1) unfolding coordinate_def st
      by (simp add: renew_if_due_def read_clock_def Let_def numeral_2_eq_2)
    with True clock act(1) renew(2) show ?thesis by (simp add: observe_running_def emit_def)
  next
    case False
    obtain r where r: "find_job (token_job_id t) (worker_catalog st) = Some r" "job_cancel_requested_at r \<noteq> None"
      "job_state r = Transcribing" "live_claim (token_job_id t) (token_claimed_by t) (token_claim_generation t)
        (canonical_time (env_clock (env_jobs env) 0)) r"
      by (rule pending_row [OF pending]) blast
    then have "claim_check t StageTranscribing now r c = Inl SnapshotCancelRequested" for now
      by (simp add: claim_check_def live_claim_def claimed_as_def)
    then have load: "load_execution_snapshot lib t StageTranscribing now (worker_catalog st) = Inl SnapshotCancelRequested"
      for now and lib :: "'z snapshot_libraries_scheme"
      using r(1) chunk by (simp add: load_execution_snapshot_def into_snapshot_def find_job_def)
    let ?w2 = "?w\<lparr>world_readings := world_readings ?w + 2, world_calls := world_calls ?w + 1\<rparr>"
    let ?st2 = "?st\<lparr>worker_world := ?w2\<rparr>"
    have called: "repository_call env (\<lambda>j. repository_load_snapshot (env_libraries env) j t StageTranscribing)
        (st\<lparr>worker_world := ?w\<lparr>world_readings := world_readings ?w + 1\<rparr>\<rparr>) = (Inl SnapshotCancelRequested, ?st2)"
      using none load unfolding repository_call_def st
      by (simp add: repository_load_snapshot_def read_clock_def guarded_def query_op_def Let_def numeral_2_eq_2)
    have "cancel_pending (env_jobs env) t Transcribing (world_catalog ?w2)" "world_ok ?w2"
      using pending ok by (simp_all add: world_ok_def)
    from acknowledge_pending [OF this none act] obtain w' where
      ack: "coordinator_acknowledge_cancel (env_jobs env) ?c ?w2 = (Inr (), ?c\<lparr>coordinator_active := None\<rparr>, w')"
        "job_cancelled t (world_catalog w')" by blast
    have idle: "interfere env (emit RunCancelled ?st2) = (emit RunCancelled ?st2)\<lparr>worker_moment := worker_moment st + 2\<rparr>"
      unfolding st by (subst undisturbed_interfere [OF free]) (simp_all add: emit_def)
    have "acknowledge_and_return env (emit RunCancelled ?st2) = (Inr (), (emit RunCancelled ?st2)\<lparr>
        worker_moment := worker_moment st + 2, worker_coordinator := ?c\<lparr>coordinator_active := None\<rparr>, worker_world := w'\<rparr>)"
      unfolding acknowledge_and_return_def coordinate_def idle using ack(1) unfolding st
      by (simp add: job_call_eq emit_def Let_def)
    with False clock act(1) called ack(2) show ?thesis by (simp add: observe_running_def emit_def)
  qed
qed


subsection \<open>A small worker\<close>

text \<open>Libraries that parse nothing, and an engine that prepares anything.\<close>

definition null_libraries :: snapshot_libraries where
  "null_libraries = \<lparr>lib_parse = (\<lambda>_. None), lib_print = (\<lambda>_. None), lib_canonical = (\<lambda>_. None),
     lib_sha256_hex = (\<lambda>s. s), lib_parse_url = (\<lambda>_. None), lib_settings_of = (\<lambda>_. None),
     lib_required_files_of = (\<lambda>_. None), lib_cpus = 4\<rparr>"

definition still_env :: job_env where
  "still_env = demo_env\<lparr>env_clock := (\<lambda>_. 20000000)\<rparr>"

definition demo_worker_env :: "(unit, unit, unit) worker_env" where
  "demo_worker_env = \<lparr>env_jobs = still_env, env_libraries = null_libraries,
     env_others = (\<lambda>n cat. if n = 0 then snd (request_asr_job_cancel ''b'' 15 cat) else cat),
     env_shutdown = (\<lambda>n. 14 \<le> n), env_prepare = (\<lambda>_ _. Inr ()), env_start = (\<lambda>_ _ _. Inr ()),
     env_recv = (\<lambda>_ _ _. (RunPending, ())), env_new_ids = (\<lambda>_. (''rc'', ''tr'')),
     env_publication_callback = True, env_failure_callback = True,
     env_idle_poll = DEFAULT_IDLE_POLL, env_run_poll = DEFAULT_RUN_POLL\<rparr>"

definition demo_worker :: worker_state where
  "demo_worker = new_worker (new_job_coordinator ''w'' ''x'') (demo_world demo_queue)"

lemma demo_fair: "fair_others demo_worker_env"
proof -
  have "queue_step\<^sup>*\<^sup>* cat (snd (request_asr_job_cancel ''b'' 15 cat))" for cat
    by (rule r_into_rtranclp, rule step_cancel [OF surjective_pairing])
  then show ?thesis by (simp add: fair_others_def demo_worker_env_def)
qed

definition demo_life :: "(WorkerError + unit) option \<times> worker_state" where
  "demo_life = run_until_shutdown demo_worker_env 5 5 demo_worker"

text \<open>
  Job b is cancelled before the worker wakes up; job a is claimed and fails, because its texts do not
  parse; then the queue is idle until the shutdown.
\<close>

lemma demo_life_runs:
  "map (\<lambda>(e, _). case e of FailureNotified f \<Rightarrow> failure_job_id f | IdleWaited _ \<Rightarrow> ''idle'' | _ \<Rightarrow> ''other'') (worker_log (snd demo_life)) =
     [''a'', ''idle'', ''idle'']"
  by code_simp


lemma demo_round: "fst (run_once demo_worker_env 5 demo_worker) = Some (Inr ())"
  by code_simp

theorem worker_round_lets_go_witness:
  "\<exists>st. run_once demo_worker_env 5 demo_worker = (Some (Inr ()), st) \<and> settled st"
proof -
  obtain st where run: "run_once demo_worker_env 5 demo_worker = (Some (Inr ()), st)"
    using demo_round by (cases "run_once demo_worker_env 5 demo_worker") simp
  have "world_ok (worker_world demo_worker)" using demo_world_ok(2) by (simp add: demo_worker_def new_worker_def)
  from worker_round_lets_go [OF demo_fair this run] run show ?thesis by blast
qed

text \<open>A worker transcribing job b, which has been asked to cancel.\<close>

definition cancelled_catalog :: catalog where
  "cancelled_catalog = snd (request_asr_job_cancel ''b'' 15 demo_transcribing)"

definition running_worker :: "catalog \<Rightarrow> worker_state" where
  "running_worker cat = new_worker demo_coordinator (demo_world cat)\<lparr>worker_moment := 1\<rparr>"

lemma pending_still:
  "cancel_pending still_env t state cat \<longleftrightarrow> (case find_job (token_job_id t) cat of
      None \<Rightarrow> False
    | Some j \<Rightarrow> claimed_as (token_job_id t) (token_claimed_by t) (token_claim_generation t) j \<and>
        job_state j = state \<and> running_state state \<and> job_cancel_requested_at j \<noteq> None \<and>
        lease_after (job_lease_expires_at j) (canonical_time 20000000))"
  by (simp add: cancel_pending_def still_env_def cong: option.case_cong)

lemma demo_pending: "cancel_pending still_env demo_token Transcribing cancelled_catalog"
  unfolding pending_still by code_simp

lemma demo_cancelled_ok: "queue_ok (jobs cancelled_catalog)"
  by code_simp

lemma demo_cancelled_rows:
  "map_option job_chunk_id (find_job ''b'' cancelled_catalog) = Some ''c''"
  "find_chunk ''c'' cancelled_catalog = Some demo_chunk"
  by code_simp+

lemma demo_undisturbed: "0 < m \<Longrightarrow> undisturbed_from m demo_worker_env"
  by (simp add: undisturbed_from_def demo_worker_env_def still_env_def demo_env_def)

theorem cancel_reaches_the_run_witness:
  "\<forall>s. \<exists>st. observe_running demo_worker_env demo_token s (running_worker cancelled_catalog) = (Inr (Some ()), st) \<and>
     worker_active st = None \<and> job_cancelled demo_token (worker_catalog st)"
proof
  fix s
  let ?st = "running_worker cancelled_catalog"
  obtain j where j: "find_job ''b'' cancelled_catalog = Some j" "job_chunk_id j = ''c''"
    using demo_cancelled_rows(1) by (cases "find_job ''b'' cancelled_catalog") auto
  have facts: "worker_catalog ?st = cancelled_catalog" "env_jobs demo_worker_env = still_env"
    "worker_moment ?st = 1" "worker_coordinator ?st = demo_coordinator" "token_job_id demo_token = ''b''"
    by (simp_all add: running_worker_def new_worker_def demo_world_def demo_worker_env_def demo_token_def)
  have "\<exists>st'. observe_running demo_worker_env demo_token s ?st = (Inr (Some ()), st') \<and> worker_active st' = None \<and>
    job_cancelled demo_token (worker_catalog st') \<and> list_ex (\<lambda>(e, _). e = RunCancelled) (worker_log st')"
  proof (rule cancel_reaches_the_run)
    show "undisturbed_from (worker_moment ?st) demo_worker_env" using demo_undisturbed [of 1] by (simp add: facts)
    show "world_ok (worker_world ?st)" using demo_cancelled_ok by (simp add: world_ok_def facts)
    show "mono (env_clock (env_jobs demo_worker_env))" by (simp add: facts still_env_def mono_def)
    show "worker_active ?st = Some \<lparr>claim_id = ''b'', claim_attempt_count = 1, claim_renew_at = 15000000,
      claim_lease_expires_at = 40000000, claim_token = demo_token\<rparr>" by (simp add: facts demo_active)
    show "cancel_pending (env_jobs demo_worker_env) demo_token Transcribing (worker_catalog ?st)"
      using demo_pending by (simp add: facts)
    show "find_job (token_job_id demo_token) (worker_catalog ?st) = Some j" using j(1) by (simp add: facts)
    show "find_chunk (job_chunk_id j) (worker_catalog ?st) = Some demo_chunk"
      using demo_cancelled_rows(2) by (simp add: facts j(2))
  qed simp
  then show "\<exists>st. observe_running demo_worker_env demo_token s ?st = (Inr (Some ()), st) \<and>
    worker_active st = None \<and> job_cancelled demo_token (worker_catalog st)" by blast
qed

text \<open>A worker preparing job b, which somebody cancels meanwhile.\<close>

lemma demo_preparing:
  "queue_ok (jobs (snd (request_asr_job_cancel ''b'' 15 demo_running)))"
  "cancel_pending still_env demo_token Preparing (snd (request_asr_job_cancel ''b'' 15 demo_running))"
  unfolding pending_still by code_simp+


end
