(* ===== verification/Session_Store.thy ===== *)
theory Session_Store
  imports Queue_Life Capture_Store
begin

section \<open>Sessions and transcripts: \<open>catalog.rs\<close>\<close>

text \<open>
  The statements on sessions, revisions and segments that are not part of a publication: storing and
  updating a session, closing the sessions an interrupted program left open, reading a session's
  revisions, chunks and latest job, appending a revision, and the manual revision that an edit of
  the latest transcript makes.  A transaction that fails leaves nothing behind, so an error has no
  catalog.  The sorted readings order by texts of times, which sort like the times.
\<close>

subsection \<open>Sessions\<close>

definition insert_session :: "CaptureSession \<Rightarrow> catalog \<Rightarrow> catalog" where
  "insert_session s cat =
     (if session_id s \<in> set (map session_id (sessions cat)) then cat
      else cat\<lparr>sessions := sessions cat @ [s]\<rparr>)"

definition update_session :: "CaptureSession \<Rightarrow> catalog \<Rightarrow> catalog" where
  "update_session s cat = cat\<lparr>sessions := update_where (\<lambda>r. session_id r = session_id s)
     (\<lambda>r. r\<lparr>session_title := session_title s, session_state := session_state s, ended_at := ended_at s\<rparr>)
     (sessions cat)\<rparr>"

text \<open>The ends of the session's timed chunks: the inner \<open>SELECT\<close> of the reconciliation.\<close>

definition recorded_ends :: "string \<Rightarrow> catalog \<Rightarrow> time list" where
  "recorded_ends i cat = concat (map (\<lambda>c. map timing_utc_end_at
       (filter (\<lambda>t. timing_chunk_id t = chunk_id c) (capture_timings cat)))
     (filter (\<lambda>c. chunk_session_id c = i) (chunks cat)))"

definition interrupted :: "CaptureSession \<Rightarrow> bool" where
  "interrupted s \<longleftrightarrow> session_state s \<in> {Recording, Paused}"

definition reconcile_interrupted_capture_sessions :: "catalog \<Rightarrow> nat \<times> catalog" where
  "reconcile_interrupted_capture_sessions cat =
     (count_where interrupted (sessions cat),
      cat\<lparr>sessions := update_where interrupted (\<lambda>s. s\<lparr>session_state := Stopped,
        ended_at := Some (case recorded_ends (session_id s) cat of
            [] \<Rightarrow> started_at s | t # ts \<Rightarrow> foldl max t ts)\<rparr>) (sessions cat)\<rparr>)"

definition list_sessions :: "catalog \<Rightarrow> CaptureSession list" where
  "list_sessions cat = rev (sort_key (\<lambda>s. (started_at s, session_id s)) (sessions cat))"

fun state_name :: "CaptureState \<Rightarrow> string" where
  "state_name Idle = ''idle''"
| "state_name Recording = ''recording''"
| "state_name Paused = ''paused''"
| "state_name Stopped = ''stopped''"

definition parse_state :: "string \<Rightarrow> CaptureState option" where
  "parse_state v = (if v = ''idle'' then Some Idle else if v = ''recording'' then Some Recording
     else if v = ''paused'' then Some Paused else if v = ''stopped'' then Some Stopped else None)"

fun source_name :: "AudioSource \<Rightarrow> string" where
  "source_name Microphone = ''microphone''"
| "source_name SystemAudio = ''system_audio''"
| "source_name Imported = ''imported''"

definition parse_source :: "string \<Rightarrow> AudioSource" where
  "parse_source v = (if v = ''system_audio'' then SystemAudio
     else if v = ''imported'' then Imported else Microphone)"

lemma stored_names: "parse_state (state_name s) = Some s" "parse_source (source_name src) = src"
  by (cases s; simp add: parse_state_def) (cases src; simp add: parse_source_def)

subsection \<open>Reading a session\<close>

definition revisions_of :: "string \<Rightarrow> catalog \<Rightarrow> revision_row list" where
  "revisions_of i cat = sort_key rev_number (filter (\<lambda>r. rev_session_id r = i) (revisions cat))"

definition segment_from_row :: "segment_row \<Rightarrow> TranscriptSegment" where
  "segment_from_row r = \<lparr>segment_id = seg_id r, segment_start_ms = seg_start_ms r,
     segment_end_ms = seg_end_ms r, segment_source = seg_source r, segment_text = seg_text r,
     segment_chunk_id = seg_chunk_id r, segment_chunk_start_ms = seg_chunk_start_ms r,
     segment_chunk_end_ms = seg_chunk_end_ms r\<rparr>"

definition list_segments :: "string \<Rightarrow> catalog \<Rightarrow> TranscriptSegment list" where
  "list_segments rid cat = map segment_from_row
     (sort_key (\<lambda>r. (seg_start_ms r, seg_end_ms r, seg_id r))
       (filter (\<lambda>r. seg_revision_id r = rid) (segments cat)))"

definition revision_from_row :: "revision_row \<Rightarrow> TranscriptRevision" where
  "revision_from_row r = \<lparr>revision_id = rev_id r, revision_session_id = rev_session_id r,
     revision_number = rev_number r, revision_provider = rev_provider r,
     revision_created_at = rev_created_at r, revision_segments = []\<rparr>"

definition list_revisions :: "string \<Rightarrow> catalog \<Rightarrow> TranscriptRevision list" where
  "list_revisions i cat = map revision_from_row (revisions_of i cat)"

definition list_revisions_with_segments :: "string \<Rightarrow> catalog \<Rightarrow> TranscriptRevision list" where
  "list_revisions_with_segments i cat =
     map (\<lambda>v. v\<lparr>revision_segments := list_segments (revision_id v) cat\<rparr>) (list_revisions i cat)"

definition latest_chunk_for_session :: "string \<Rightarrow> catalog \<Rightarrow> AudioChunk option" where
  "latest_chunk_for_session i cat =
     map_option chunk_from_row (find (\<lambda>c. chunk_session_id c = i) (rev (chunks cat)))"

record TimelineChunk =
  timeline_chunk :: AudioChunk
  timeline_integrity_state :: ChunkIntegrityState
  timeline_error_code :: "string option"

definition list_chunks_for_session :: "string \<Rightarrow> catalog \<Rightarrow> TimelineChunk list" where
  "list_chunks_for_session i cat = map (\<lambda>c. \<lparr>timeline_chunk = chunk_from_row c,
       timeline_integrity_state = chunk_integrity c, timeline_error_code = chunk_last_error_code c\<rparr>)
     (filter (\<lambda>c. chunk_session_id c = i) (chunks cat))"

record TimelineJobSummary =
  summary_job_id :: string
  summary_chunk_id :: string
  summary_state :: AsrJobState
  summary_error_code :: "string option"
  summary_error_summary :: "string option"

definition latest_job_for_session :: "string \<Rightarrow> catalog \<Rightarrow> TimelineJobSummary option" where
  "latest_job_for_session i cat =
     (case rev (sort_key (\<lambda>j. (job_updated_at j, job_created_at j, job_id j))
         (filter (\<lambda>j. job_session_id j = i) (jobs cat))) of
        [] \<Rightarrow> None
      | j # _ \<Rightarrow> Some \<lparr>summary_job_id = job_id j, summary_chunk_id = job_chunk_id j,
          summary_state = job_state j, summary_error_code = job_error_code j,
          summary_error_summary = job_error_summary j\<rparr>)"

subsection \<open>Appending a revision\<close>

definition insert_revision_row :: "revision_row \<Rightarrow> catalog \<Rightarrow> sqlite_error + catalog" where
  "insert_revision_row v cat =
     (if rev_id v \<in> set (map rev_id (revisions cat)) then Inl PrimaryKeyViolated
      else if list_ex (\<lambda>x. rev_session_id x = rev_session_id v \<and> rev_number x = rev_number v) (revisions cat)
        then Inl UniqueViolated
      else if rev_session_id v \<notin> set (map session_id (sessions cat)) then Inl ForeignKeyViolated
      else Inr (cat\<lparr>revisions := revisions cat @ [v]\<rparr>))"

text \<open>A segment of a new revision; its place in the session is its start and end.\<close>

definition segment_row_of :: "string \<Rightarrow> TranscriptSegment \<Rightarrow> segment_row" where
  "segment_row_of rid s = \<lparr>seg_id = segment_id s, seg_revision_id = rid,
     seg_start_ms = segment_start_ms s, seg_end_ms = segment_end_ms s, seg_source = segment_source s,
     seg_text = segment_text s, seg_chunk_id = segment_chunk_id s,
     seg_chunk_start_ms = segment_chunk_start_ms s, seg_chunk_end_ms = segment_chunk_end_ms s,
     seg_session_start_ms = Some (segment_start_ms s), seg_session_end_ms = Some (segment_end_ms s)\<rparr>"

definition chunk_reference_ok :: "catalog \<Rightarrow> string option \<Rightarrow> bool" where
  "chunk_reference_ok cat r = (case r of None \<Rightarrow> True | Some c \<Rightarrow> c \<in> set (map chunk_id (chunks cat)))"

definition insert_segment_row :: "segment_row \<Rightarrow> catalog \<Rightarrow> sqlite_error + catalog" where
  "insert_segment_row r cat =
     (if list_ex (\<lambda>x. seg_id x = seg_id r \<and> seg_revision_id x = seg_revision_id r) (segments cat)
        then Inl PrimaryKeyViolated
      else if \<not> chunk_reference_ok cat (seg_chunk_id r) \<or>
        seg_revision_id r \<notin> set (map rev_id (revisions cat)) then Inl ForeignKeyViolated
      else Inr (cat\<lparr>segments := segments cat @ [r],
        segment_search := segment_search cat @ [(seg_id r, seg_revision_id r, seg_text r)]\<rparr>))"

fun insert_segment_rows :: "segment_row list \<Rightarrow> catalog \<Rightarrow> sqlite_error + catalog" where
  "insert_segment_rows [] cat = Inr cat"
| "insert_segment_rows (r # rs) cat = and_then (insert_segment_row r cat) (insert_segment_rows rs)"

definition append_revision ::
    "string \<Rightarrow> time \<Rightarrow> string \<Rightarrow> string \<Rightarrow> TranscriptSegment list \<Rightarrow> catalog \<Rightarrow>
       sqlite_error + TranscriptRevision \<times> catalog" where
  "append_revision uuid now i provider segs cat =
     (let rid = ''tr_'' @ uuid; number = next_number i cat in
      and_then (insert_revision_row \<lparr>rev_id = rid, rev_session_id = i, rev_number = number,
          rev_provider = provider, rev_created_at = now, rev_provenance = LegacyUnverified\<rparr> cat) (\<lambda>cat.
      and_then (insert_segment_rows (map (segment_row_of rid) segs) cat) (\<lambda>cat.
      Inr (\<lparr>revision_id = rid, revision_session_id = i, revision_number = number,
        revision_provider = provider, revision_created_at = now, revision_segments = segs\<rparr>, cat))))"

subsection \<open>Manual revisions\<close>

text \<open>The code flattens both kinds of error to a text.\<close>

datatype manual_error = Refused string | ManualDatabase sqlite_error

definition latest_revision :: "string \<Rightarrow> catalog \<Rightarrow> revision_row option" where
  "latest_revision i cat = (case rev (revisions_of i cat) of [] \<Rightarrow> None | r # _ \<Rightarrow> Some r)"

definition unbound :: "TranscriptSegment \<Rightarrow> bool" where
  "unbound s \<longleftrightarrow> segment_chunk_id s = None \<and> segment_chunk_start_ms s = None \<and> segment_chunk_end_ms s = None"

definition bound :: "TranscriptSegment \<Rightarrow> bool" where
  "bound s \<longleftrightarrow> segment_chunk_id s \<noteq> None \<and> segment_chunk_start_ms s \<noteq> None \<and> segment_chunk_end_ms s \<noteq> None"

definition available_in :: "string \<Rightarrow> catalog \<Rightarrow> string \<Rightarrow> bool" where
  "available_in i cat c \<longleftrightarrow>
     list_ex (\<lambda>r. chunk_id r = c \<and> chunk_session_id r = i \<and> chunk_integrity r = Available) (chunks cat)"

text \<open>The loop over the bound segments; what is bound has all three parts.\<close>

fun check_bindings :: "string \<Rightarrow> catalog \<Rightarrow> TranscriptSegment list \<Rightarrow> manual_error + unit" where
  "check_bindings i cat [] = Inr ()"
| "check_bindings i cat (s # ss) =
     (let start = the (segment_chunk_start_ms s); stop = the (segment_chunk_end_ms s) in
      if start < 0 \<or> stop \<le> start
        then Inl (Refused ''manual revision contains an invalid chunk time range'')
      else if \<not> available_in i cat (the (segment_chunk_id s))
        then Inl (Refused ''manual revision references an unavailable or unknown chunk'')
      else check_bindings i cat ss)"

definition legacy_chunk :: "string \<Rightarrow> catalog \<Rightarrow> manual_error + string \<times> i64" where
  "legacy_chunk i cat =
     (case filter (\<lambda>c. chunk_session_id c = i \<and> chunk_integrity c = Available) (chunks cat) of
        [] \<Rightarrow> Inl (Refused ''manual revision requires an available chunk before applying legacy chunk fallback'')
      | [c] \<Rightarrow> Inr (chunk_id c, chunk_session_offset_ms c)
      | _ \<Rightarrow> Inl (Refused ''manual revision requires explicit chunk bindings when legacy segments span multiple chunks''))"

definition saturating_sub_i64 :: "i64 \<Rightarrow> i64 \<Rightarrow> i64" where
  "saturating_sub_i64 a b = max (- (2 ^ 63)) (min (2 ^ 63 - 1) (a - b))"

definition or_else :: "'a option \<Rightarrow> 'a option \<Rightarrow> 'a option" where
  "or_else x y = (case x of None \<Rightarrow> y | Some _ \<Rightarrow> x)"

definition same_boundaries :: "TranscriptSegment \<Rightarrow> TranscriptSegment \<Rightarrow> bool" where
  "same_boundaries latest edited \<longleftrightarrow> segment_id latest = segment_id edited \<and>
     segment_start_ms latest = segment_start_ms edited \<and> segment_end_ms latest = segment_end_ms edited \<and>
     segment_source latest = segment_source edited"

definition derive_segment ::
    "(string \<times> i64) option \<Rightarrow> TranscriptSegment \<times> TranscriptSegment \<Rightarrow> manual_error + TranscriptSegment" where
  "derive_segment legacy p = (case p of (latest, edited) \<Rightarrow>
     if \<not> same_boundaries latest edited
       then Inl (Refused ''manual revision segments must match the latest revision boundaries'')
     else if trim (segment_text edited) = []
       then Inl (Refused ''manual revision segments must be non-empty'')
     else Inr \<lparr>segment_id = segment_id edited, segment_start_ms = segment_start_ms latest,
       segment_end_ms = segment_end_ms latest, segment_source = segment_source latest,
       segment_text = trim (segment_text edited),
       segment_chunk_id = or_else (segment_chunk_id latest) (map_option fst legacy),
       segment_chunk_start_ms = or_else (segment_chunk_start_ms latest)
         (map_option (\<lambda>(_, offset). saturating_sub_i64 (segment_start_ms latest) offset) legacy),
       segment_chunk_end_ms = or_else (segment_chunk_end_ms latest)
         (map_option (\<lambda>(_, offset). saturating_sub_i64 (segment_end_ms latest) offset) legacy)\<rparr>)"

definition append_manual_revision_from_latest ::
    "string \<Rightarrow> time \<Rightarrow> string \<Rightarrow> TranscriptSegment list \<Rightarrow> catalog \<Rightarrow>
       manual_error + TranscriptRevision \<times> catalog" where
  "append_manual_revision_from_latest uuid now i segs cat =
     (if segs = [] then Inl (Refused ''manual revision requires at least one segment'')
      else and_then (ok_or (Refused ''manual revision requires an existing revision'') (latest_revision i cat)) (\<lambda>v.
      let latest = list_segments (rev_id v) cat in
      if length latest \<noteq> length segs then Inl (Refused ''manual revision must cover every latest segment'')
      else if \<not> list_all unbound latest \<and> \<not> list_all bound latest
        then Inl (Refused ''manual revision rejects partial or mixed chunk bindings'')
      else and_then (if list_all bound latest then check_bindings i cat latest else Inr ()) (\<lambda>_.
      and_then (if list_all unbound latest then map_sum id Some (legacy_chunk i cat) else Inr None) (\<lambda>legacy.
      and_then (collect_results (derive_segment legacy) (zip latest segs)) (\<lambda>derived.
      let rid = ''tr_'' @ uuid; number = rev_number v + 1 in
      and_then (map_err ManualDatabase (insert_revision_row \<lparr>rev_id = rid, rev_session_id = i,
          rev_number = number, rev_provider = ''manual'', rev_created_at = now, rev_provenance = Manual\<rparr> cat)) (\<lambda>cat.
      and_then (map_err ManualDatabase (insert_segment_rows (map (segment_row_of rid) derived) cat)) (\<lambda>cat.
      Inr (\<lparr>revision_id = rid, revision_session_id = i, revision_number = number,
        revision_provider = ''manual'', revision_created_at = now, revision_segments = derived\<rparr>, cat))))))))"

subsection \<open>The inserts as one condition and one effect\<close>

definition seg_key :: "segment_row \<Rightarrow> string \<times> string" where
  "seg_key r = (seg_id r, seg_revision_id r)"

definition indexed_text :: "segment_row \<Rightarrow> string \<times> string \<times> string" where
  "indexed_text r = (seg_id r, seg_revision_id r, seg_text r)"

definition with_rows :: "segment_row list \<Rightarrow> catalog \<Rightarrow> catalog" where
  "with_rows rs cat = cat\<lparr>segments := segments cat @ rs,
     segment_search := segment_search cat @ map indexed_text rs\<rparr>"

definition insertable_row :: "catalog \<Rightarrow> segment_row \<Rightarrow> bool" where
  "insertable_row cat r \<longleftrightarrow> seg_key r \<notin> seg_key ` set (segments cat) \<and>
     chunk_reference_ok cat (seg_chunk_id r) \<and> seg_revision_id r \<in> rev_id ` set (revisions cat)"

lemma insert_segment_row_Inr:
  "insert_segment_row r cat = Inr cat' \<longleftrightarrow> insertable_row cat r \<and> cat' = with_rows [r] cat"
proof -
  have "list_ex (\<lambda>x. seg_id x = seg_id r \<and> seg_revision_id x = seg_revision_id r) (segments cat) \<longleftrightarrow>
      seg_key r \<in> seg_key ` set (segments cat)"
    by (simp only: list_ex_iff seg_key_def image_iff prod.inject eq_commute [of "seg_id r"]
        eq_commute [of "seg_revision_id r"])
  then show ?thesis
    by (auto simp: insert_segment_row_def insertable_row_def with_rows_def indexed_text_def)
qed

lemma insertable_after:
  "insertable_row (with_rows [r] cat) s \<longleftrightarrow> insertable_row cat s \<and> seg_key s \<noteq> seg_key r"
  by (auto simp: insertable_row_def with_rows_def chunk_reference_ok_def split: option.splits)

lemma with_rows_Cons: "with_rows rs (with_rows [r] cat) = with_rows (r # rs) cat"
  by (simp add: with_rows_def)

lemma insert_segment_rows_Inr:
  "insert_segment_rows rs cat = Inr cat' \<longleftrightarrow>
     distinct (map seg_key rs) \<and> list_all (insertable_row cat) rs \<and> cat' = with_rows rs cat"
proof (induction rs arbitrary: cat)
  case Nil
  then show ?case by (auto simp: with_rows_def)
next
  case (Cons r rs cat)
  have step: "insert_segment_rows (r # rs) cat = Inr cat' \<longleftrightarrow>
      insertable_row cat r \<and> insert_segment_rows rs (with_rows [r] cat) = Inr cat'"
    by (auto simp: insert_segment_row_Inr result_simps)
  show ?case
    unfolding step Cons.IH insertable_after with_rows_Cons by (auto simp: list_all_iff image_iff)
qed

lemma insert_revision_row_Inr:
  "insert_revision_row v cat = Inr cat' \<longleftrightarrow>
     rev_id v \<notin> rev_id ` set (revisions cat) \<and>
     (rev_session_id v, rev_number v) \<notin> (\<lambda>r. (rev_session_id r, rev_number r)) ` set (revisions cat) \<and>
     rev_session_id v \<in> session_id ` set (sessions cat) \<and> cat' = cat\<lparr>revisions := revisions cat @ [v]\<rparr>"
proof -
  have "list_ex (\<lambda>x. rev_session_id x = rev_session_id v \<and> rev_number x = rev_number v) (revisions cat) \<longleftrightarrow>
      (rev_session_id v, rev_number v) \<in> (\<lambda>r. (rev_session_id r, rev_number r)) ` set (revisions cat)"
    by (simp only: list_ex_iff image_iff prod.inject eq_commute [of "rev_session_id v"]
        eq_commute [of "rev_number v"])
  then show ?thesis by (auto simp: insert_revision_row_def)
qed

text \<open>The transcripts of a catalog: keys are unique, a segment belongs to a stored revision, and the
  full-text index holds each segment's text once.\<close>

definition transcripts_ok :: "catalog \<Rightarrow> bool" where
  "transcripts_ok cat \<longleftrightarrow> distinct (map rev_id (revisions cat)) \<and>
     distinct (map (\<lambda>r. (rev_session_id r, rev_number r)) (revisions cat)) \<and>
     distinct (map seg_key (segments cat)) \<and>
     seg_revision_id ` set (segments cat) \<subseteq> rev_id ` set (revisions cat) \<and>
     segment_search cat = map indexed_text (segments cat)"

text \<open>A new revision with its segments, as every writer of transcripts stores it.\<close>

definition with_revision :: "revision_row \<Rightarrow> segment_row list \<Rightarrow> catalog \<Rightarrow> catalog" where
  "with_revision v rs cat = with_rows rs (cat\<lparr>revisions := revisions cat @ [v]\<rparr>)"

definition newer_than :: "catalog \<Rightarrow> revision_row \<Rightarrow> bool" where
  "newer_than cat v \<longleftrightarrow>
     (\<forall>r \<in> set (revisions cat). rev_session_id r = rev_session_id v \<longrightarrow> rev_number r < rev_number v)"

definition new_revision :: "catalog \<Rightarrow> revision_row \<Rightarrow> segment_row list \<Rightarrow> bool" where
  "new_revision cat v rs \<longleftrightarrow> rev_id v \<notin> rev_id ` set (revisions cat) \<and> newer_than cat v \<and>
     distinct (map seg_id rs) \<and> (\<forall>r \<in> set rs. seg_revision_id r = rev_id v)"

lemma with_revision_fields [simp]:
  "revisions (with_revision v rs cat) = revisions cat @ [v]"
  "segments (with_revision v rs cat) = segments cat @ rs"
  "segment_search (with_revision v rs cat) = segment_search cat @ map indexed_text rs"
  "jobs (with_revision v rs cat) = jobs cat" "chunks (with_revision v rs cat) = chunks cat"
  "sessions (with_revision v rs cat) = sessions cat"
  by (simp_all add: with_revision_def with_rows_def)

lemma new_segments_distinct:
  assumes "distinct (map seg_id rs)" "\<forall>r \<in> set rs. seg_revision_id r = rid"
  shows "distinct (map seg_key rs)"
  using assms by (auto simp: distinct_map inj_on_def seg_key_def)

lemma with_revision_ok:
  assumes ok: "transcripts_ok cat" and new: "new_revision cat v rs"
  shows "transcripts_ok (with_revision v rs cat)"
proof -
  have "distinct (map seg_key rs)"
    using new new_segments_distinct by (auto simp: new_revision_def)
  moreover have "seg_key ` set rs \<inter> seg_key ` set (segments cat) = {}"
  proof -
    have "seg_revision_id s \<noteq> rev_id v" if "s \<in> set (segments cat)" for s
    proof -
      have "seg_revision_id s \<in> rev_id ` set (revisions cat)" using ok that by (auto simp: transcripts_ok_def)
      with new show ?thesis by (auto simp: new_revision_def)
    qed
    then show ?thesis using new by (fastforce simp: new_revision_def seg_key_def)
  qed
  moreover have "(rev_session_id v, rev_number v) \<notin> (\<lambda>r. (rev_session_id r, rev_number r)) ` set (revisions cat)"
    using new by (auto simp: new_revision_def newer_than_def)
  ultimately show ?thesis
    using ok new by (auto simp: transcripts_ok_def new_revision_def)
qed

lemma next_number_newer: "rev_session_id v = i \<Longrightarrow> rev_number v = next_number i cat \<Longrightarrow> newer_than cat v"
  by (simp add: newer_than_def next_number_exceeds)

lemma append_revision_new:
  assumes "append_revision uuid now i provider segs cat = Inr (v, cat')"
  shows "\<exists>row rs. new_revision cat row rs \<and> cat' = with_revision row rs cat"
proof -
  let ?row = "\<lparr>rev_id = ''tr_'' @ uuid, rev_session_id = i, rev_number = next_number i cat,
    rev_provider = provider, rev_created_at = now, rev_provenance = LegacyUnverified\<rparr>"
  let ?rs = "map (segment_row_of (''tr_'' @ uuid)) segs"
  from assms have new: "rev_id ?row \<notin> rev_id ` set (revisions cat)" and d: "distinct (map seg_key ?rs)"
    and cat': "cat' = with_revision ?row ?rs cat"
    by (auto simp: append_revision_def Let_def result_simps insert_revision_row_Inr insert_segment_rows_Inr
        with_revision_def)
  have "newer_than cat ?row" by (rule next_number_newer) simp_all
  moreover have "distinct (map seg_id ?rs)"
    using d by (simp add: distinct_map inj_on_def seg_key_def segment_row_of_def comp_def)
  ultimately have "new_revision cat ?row ?rs"
    using new by (auto simp: new_revision_def segment_row_of_def)
  with cat' show ?thesis by blast
qed

subsection \<open>A manual revision\<close>

definition well_bound :: "string \<Rightarrow> catalog \<Rightarrow> TranscriptSegment \<Rightarrow> bool" where
  "well_bound i cat s \<longleftrightarrow> (\<exists>c start stop. segment_chunk_id s = Some c \<and> segment_chunk_start_ms s = Some start \<and>
     segment_chunk_end_ms s = Some stop \<and> 0 \<le> start \<and> start < stop \<and> available_in i cat c)"

lemma check_bindings_Inr:
  "list_all bound ss \<Longrightarrow> check_bindings i cat ss = Inr u \<longleftrightarrow> list_all (well_bound i cat) ss"
  by (induction ss) (auto simp: bound_def well_bound_def Let_def)

text \<open>How the segments of the latest revision are bound to chunks: each on its own, or all through the
  session's only available chunk.\<close>

inductive binding_of :: "string \<Rightarrow> catalog \<Rightarrow> TranscriptSegment list \<Rightarrow> (string \<times> i64) option \<Rightarrow> bool"
  for i :: string and cat :: catalog where
  own_bindings: "list_all (well_bound i cat) latest \<Longrightarrow> binding_of i cat latest None"
| only_chunk: "list_all unbound latest \<Longrightarrow>
    filter (\<lambda>c. chunk_session_id c = i \<and> chunk_integrity c = Available) (chunks cat) = [c] \<Longrightarrow>
    binding_of i cat latest (Some (chunk_id c, chunk_session_offset_ms c))"

inductive_cases binding_ofE: "binding_of i cat latest legacy"

definition edited_segment ::
    "(string \<times> i64) option \<Rightarrow> TranscriptSegment \<Rightarrow> TranscriptSegment \<Rightarrow> TranscriptSegment" where
  "edited_segment legacy latest edited = \<lparr>segment_id = segment_id latest,
     segment_start_ms = segment_start_ms latest, segment_end_ms = segment_end_ms latest,
     segment_source = segment_source latest, segment_text = trim (segment_text edited),
     segment_chunk_id = or_else (segment_chunk_id latest) (map_option fst legacy),
     segment_chunk_start_ms = or_else (segment_chunk_start_ms latest)
       (map_option (\<lambda>(_, offset). saturating_sub_i64 (segment_start_ms latest) offset) legacy),
     segment_chunk_end_ms = or_else (segment_chunk_end_ms latest)
       (map_option (\<lambda>(_, offset). saturating_sub_i64 (segment_end_ms latest) offset) legacy)\<rparr>"

definition edits :: "TranscriptSegment \<Rightarrow> TranscriptSegment \<Rightarrow> bool" where
  "edits latest edited \<longleftrightarrow> same_boundaries latest edited \<and> \<not> is_blank (segment_text edited)"

lemma derive_segment_Inr:
  "derive_segment legacy (latest, edited) = Inr d \<longleftrightarrow> edits latest edited \<and> d = edited_segment legacy latest edited"
  by (auto simp: derive_segment_def edits_def edited_segment_def is_blank_def same_boundaries_def)

lemma derive_segments_Inr:
  assumes "length latest = length segs"
  shows "collect_results (derive_segment legacy) (zip latest segs) = Inr ds \<longleftrightarrow>
    list_all2 edits latest segs \<and> ds = map2 (edited_segment legacy) latest segs"
  using assms
proof (induction latest segs arbitrary: ds rule: list_induct2)
  case (Cons x xs y ys)
  then show ?case by (auto simp: result_simps derive_segment_Inr)
qed auto

lemma legacy_chunk_Inr:
  "legacy_chunk i cat = Inr p \<longleftrightarrow>
     (\<exists>c. filter (\<lambda>c. chunk_session_id c = i \<and> chunk_integrity c = Available) (chunks cat) = [c] \<and>
       p = (chunk_id c, chunk_session_offset_ms c))"
  by (auto simp: legacy_chunk_def split: list.splits)

lemma map_sum_Inr: "map_sum f g r = Inr y \<longleftrightarrow> (\<exists>x. r = Inr x \<and> y = g x)"
  by (cases r) auto

lemma well_bound_bound: "well_bound i cat s \<Longrightarrow> bound s"
  by (auto simp: well_bound_def bound_def)

lemma not_both: "bound s \<Longrightarrow> \<not> unbound s"
  by (auto simp: bound_def unbound_def)

text \<open>The code's checks of the bindings and its choice of the legacy chunk, together.\<close>

lemma bindings_Inr:
  assumes "latest \<noteq> []"
  shows "(if list_all unbound latest \<or> list_all bound latest
      then and_then (if list_all bound latest then check_bindings i cat latest else Inr ()) (\<lambda>_.
        if list_all unbound latest then map_sum id Some (legacy_chunk i cat) else Inr None) else Inl e) = Inr legacy \<longleftrightarrow>
    binding_of i cat latest legacy"
proof (cases "list_all bound latest")
  case True
  then have "\<not> list_all unbound latest" using assms not_both by (cases latest) auto
  with True show ?thesis
    by (auto simp: result_simps check_bindings_Inr binding_of.simps)
next
  case False
  then have "\<not> list_all (well_bound i cat) latest"
    using well_bound_bound by (auto simp: list_all_iff)
  with False show ?thesis
    by (auto simp: result_simps legacy_chunk_Inr map_sum_Inr binding_of.simps)
qed

definition manual_row :: "string \<Rightarrow> time \<Rightarrow> revision_row \<Rightarrow> revision_row" where
  "manual_row uuid now r = \<lparr>rev_id = ''tr_'' @ uuid, rev_session_id = rev_session_id r,
     rev_number = rev_number r + 1, rev_provider = ''manual'', rev_created_at = now, rev_provenance = Manual\<rparr>"

definition manual_result :: "revision_row \<Rightarrow> TranscriptSegment list \<Rightarrow> TranscriptRevision" where
  "manual_result v ss = (revision_from_row v)\<lparr>revision_segments := ss\<rparr>"

text \<open>What an edit must satisfy, and the segments it makes.\<close>

definition manual_edit ::
    "string \<Rightarrow> TranscriptSegment list \<Rightarrow> catalog \<Rightarrow> revision_row \<Rightarrow> TranscriptSegment list \<Rightarrow> bool" where
  "manual_edit i segs cat r ds \<longleftrightarrow> segs \<noteq> [] \<and> latest_revision i cat = Some r \<and>
     list_all2 edits (list_segments (rev_id r) cat) segs \<and>
     (\<exists>legacy. binding_of i cat (list_segments (rev_id r) cat) legacy \<and>
        ds = map2 (edited_segment legacy) (list_segments (rev_id r) cat) segs)"

lemma sorted_last_max:
  assumes "rev (sort_key f xs) = (r :: 'a) # rest" "x \<in> set xs"
  shows "f x \<le> (f r :: 'b::linorder)"
proof -
  have "sort_key f xs = rev rest @ [r]" using assms(1) by (simp add: rev_eq_Cons_iff)
  moreover have "sorted (map f (sort_key f xs))" by simp
  ultimately have "\<forall>y \<in> set (rev rest @ [r]). f y \<le> f r" by (auto simp: sorted_append)
  moreover have "x \<in> set (sort_key f xs)" using assms(2) by simp
  ultimately show ?thesis using \<open>sort_key f xs = rev rest @ [r]\<close> by auto
qed

lemma latest_revision_Some:
  assumes "latest_revision i cat = Some r"
  shows "r \<in> set (revisions cat)" "rev_session_id r = i"
    "\<And>x. x \<in> set (revisions cat) \<Longrightarrow> rev_session_id x = i \<Longrightarrow> rev_number x \<le> rev_number r"
proof -
  obtain rest where rest: "rev (sort_key rev_number (filter (\<lambda>r. rev_session_id r = i) (revisions cat))) = r # rest"
    using assms by (auto simp: latest_revision_def revisions_of_def split: list.splits)
  then have "r \<in> set (sort_key rev_number (filter (\<lambda>r. rev_session_id r = i) (revisions cat)))"
    by (metis list.set_intros(1) set_rev)
  then show "r \<in> set (revisions cat)" "rev_session_id r = i" by simp_all
  show "rev_number x \<le> rev_number r" if "x \<in> set (revisions cat)" "rev_session_id x = i" for x
    by (rule sorted_last_max [OF rest]) (use that in simp)
qed

lemma manual_row_newer:
  assumes "latest_revision i cat = Some r"
  shows "newer_than cat (manual_row uuid now r)"
  using latest_revision_Some [OF assms] by (fastforce simp: newer_than_def manual_row_def)

lemma list_segments_ids:
  assumes "transcripts_ok cat"
  shows "distinct (map segment_id (list_segments rid cat))"
proof -
  have "distinct (map seg_id (filter (\<lambda>r. seg_revision_id r = rid) (segments cat)))"
    using assms by (auto simp: transcripts_ok_def distinct_map inj_on_def seg_key_def)
  then have "distinct (map seg_id (sort_key (\<lambda>r. (seg_start_ms r, seg_end_ms r, seg_id r))
      (filter (\<lambda>r. seg_revision_id r = rid) (segments cat))))"
    by (simp add: distinct_map)
  then show ?thesis by (simp add: list_segments_def segment_from_row_def comp_def)
qed

lemma edited_ids: "length ls = length es \<Longrightarrow> map segment_id (map2 (edited_segment legacy) ls es) = map segment_id ls"
  by (induction ls es rule: list_induct2) (auto simp: edited_segment_def)

lemma edited_chunks:
  assumes "binding_of i cat ls legacy" "length ls = length es"
    and "d \<in> set (map2 (edited_segment legacy) ls es)"
  shows "\<exists>c. segment_chunk_id d = Some c \<and> available_in i cat c"
proof -
  from assms(3) obtain l e where l: "l \<in> set ls" "d = edited_segment legacy l e"
    by (auto dest: set_zip_leftD)
  from assms(1) show ?thesis
  proof (rule binding_ofE)
    assume "legacy = None" "list_all (well_bound i cat) ls"
    with l show ?thesis by (auto simp: list_all_iff well_bound_def edited_segment_def or_else_def)
  next
    fix c assume c: "legacy = Some (chunk_id c, chunk_session_offset_ms c)" "list_all unbound ls"
      "filter (\<lambda>c. chunk_session_id c = i \<and> chunk_integrity c = Available) (chunks cat) = [c]"
    have "c \<in> set (filter (\<lambda>c. chunk_session_id c = i \<and> chunk_integrity c = Available) (chunks cat))"
      unfolding c(3) by simp
    then have "available_in i cat (chunk_id c)" by (auto simp: available_in_def list_ex_iff)
    with c(1,2) l show ?thesis
      by (auto simp: list_all_iff unbound_def edited_segment_def or_else_def)
  qed
qed

lemma available_reference: "available_in i cat c \<Longrightarrow> chunk_reference_ok cat (Some c)"
  by (auto simp: available_in_def chunk_reference_ok_def list_ex_iff)

lemma manual_steps:
  "append_manual_revision_from_latest uuid now i segs cat = Inr (v, cat') \<longleftrightarrow>
     (\<exists>r ds cat1. manual_edit i segs cat r ds \<and> insert_revision_row (manual_row uuid now r) cat = Inr cat1 \<and>
        insert_segment_rows (map (segment_row_of (''tr_'' @ uuid)) ds) cat1 = Inr cat' \<and>
        v = manual_result (manual_row uuid now r) ds)"
proof (cases "segs = [] \<or> latest_revision i cat = None")
  case True
  then show ?thesis by (auto simp: append_manual_revision_from_latest_def manual_edit_def)
next
  case False
  then obtain r where segs: "segs \<noteq> []" and r: "latest_revision i cat = Some r" by auto
  define ls where "ls = list_segments (rev_id r) cat"
  have i: "rev_session_id r = i" using latest_revision_Some(2) [OF r] .
  show ?thesis
  proof (cases "length ls = length segs")
    case False
    then have "\<not> list_all2 edits ls segs" by (auto dest: list_all2_lengthD)
    with segs r False show ?thesis
      by (simp add: append_manual_revision_from_latest_def manual_edit_def Let_def ls_def)
  next
    case True
    then have ne: "ls \<noteq> []" using segs by auto
    have "append_manual_revision_from_latest uuid now i segs cat = Inr (v, cat') \<longleftrightarrow>
      (\<exists>legacy ds cat1. (if list_all unbound ls \<or> list_all bound ls
        then and_then (if list_all bound ls then check_bindings i cat ls else Inr ()) (\<lambda>_.
          if list_all unbound ls then map_sum id Some (legacy_chunk i cat) else Inr None)
        else Inl (Refused ''manual revision rejects partial or mixed chunk bindings'')) = Inr legacy \<and>
       collect_results (derive_segment legacy) (zip ls segs) = Inr ds \<and>
       insert_revision_row (manual_row uuid now r) cat = Inr cat1 \<and>
       insert_segment_rows (map (segment_row_of (''tr_'' @ uuid)) ds) cat1 = Inr cat' \<and>
       v = manual_result (manual_row uuid now r) ds)"
      using segs True unfolding append_manual_revision_from_latest_def ls_def [symmetric] r
      by (auto simp: Let_def result_simps ls_def [symmetric] manual_row_def manual_result_def revision_from_row_def i)
    then show ?thesis
      unfolding bindings_Inr [OF ne] derive_segments_Inr [OF True]
      using segs r by (auto simp: manual_edit_def ls_def [symmetric])
  qed
qed

text \<open>
  C25: Exactly which edits of a transcript are accepted.  On sound transcripts, with a fresh
  identifier, a manual revision succeeds if and only if there is a latest revision and at least one
  edited segment, the edits repeat the latest segments' identifiers, boundaries and sources one by one
  with texts that are not blank, and the latest segments are either all bound to valid ranges of
  available chunks of the session or all unbound while the session has exactly one available chunk;
  the result and the catalog it commits are the stated ones.
\<close>

theorem manual_revision_exact:
  assumes ok: "transcripts_ok cat" and session: "i \<in> session_id ` set (sessions cat)"
    and fresh: "''tr_'' @ uuid \<notin> rev_id ` set (revisions cat)"
  shows "append_manual_revision_from_latest uuid now i segs cat = Inr (v, cat') \<longleftrightarrow>
    (\<exists>r ds. manual_edit i segs cat r ds \<and> v = manual_result (manual_row uuid now r) ds \<and>
       cat' = with_revision (manual_row uuid now r) (map (segment_row_of (''tr_'' @ uuid)) ds) cat)"
proof -
  have "(\<exists>cat1. insert_revision_row (manual_row uuid now r) cat = Inr cat1 \<and>
      insert_segment_rows (map (segment_row_of (''tr_'' @ uuid)) ds) cat1 = Inr cat') \<longleftrightarrow>
    cat' = with_revision (manual_row uuid now r) (map (segment_row_of (''tr_'' @ uuid)) ds) cat"
    if edit: "manual_edit i segs cat r ds" for r ds
  proof -
    let ?v = "manual_row uuid now r" and ?rs = "map (segment_row_of (''tr_'' @ uuid)) ds"
    let ?cat1 = "cat\<lparr>revisions := revisions cat @ [?v]\<rparr>"
    obtain legacy where r: "latest_revision i cat = Some r" and len: "length (list_segments (rev_id r) cat) = length segs"
      and b: "binding_of i cat (list_segments (rev_id r) cat) legacy"
      and ds: "ds = map2 (edited_segment legacy) (list_segments (rev_id r) cat) segs"
      using edit by (auto simp: manual_edit_def dest: list_all2_lengthD)
    have "insert_revision_row ?v cat = Inr cat1 \<longleftrightarrow> cat1 = ?cat1" for cat1
      using manual_row_newer [OF r, of uuid now] session fresh latest_revision_Some(2) [OF r]
      by (auto simp: insert_revision_row_Inr newer_than_def manual_row_def)
    moreover have "insert_segment_rows ?rs ?cat1 = Inr x \<longleftrightarrow> x = with_rows ?rs ?cat1" for x
    proof -
      have "distinct (map segment_id ds)"
        unfolding ds edited_ids [OF len] by (rule list_segments_ids [OF ok])
      then have "distinct (map seg_id ?rs)" by (simp add: segment_row_of_def comp_def)
      then have "distinct (map seg_key ?rs)" by (rule new_segments_distinct [of _ "''tr_'' @ uuid"]) (simp add: segment_row_of_def)
      moreover have "insertable_row ?cat1 (segment_row_of (''tr_'' @ uuid) d)" if "d \<in> set ds" for d
      proof -
        obtain c where c: "segment_chunk_id d = Some c" "available_in i cat c"
          using edited_chunks [OF b len] \<open>d \<in> set ds\<close> unfolding ds by blast
        have "''tr_'' @ uuid \<notin> seg_revision_id ` set (segments cat)" using ok fresh by (auto simp: transcripts_ok_def)
        with available_reference [OF c(2)] c(1) show ?thesis
          by (auto simp: insertable_row_def segment_row_of_def seg_key_def manual_row_def chunk_reference_ok_def)
      qed
      ultimately show ?thesis by (auto simp: insert_segment_rows_Inr list_all_iff)
    qed
    ultimately show ?thesis by (auto simp: with_revision_def)
  qed
  then show ?thesis unfolding manual_steps by blast
qed

subsection \<open>Reading back what was stored\<close>

lemma insort_key_before:
  "\<forall>x \<in> set ys. f y \<le> (f x :: 'b::linorder) \<Longrightarrow> insort_key f y (zs @ ys) = insort_key f y zs @ ys"
  by (induction zs) (auto simp: insort_is_Cons)

lemma sort_key_append:
  fixes f :: "'a \<Rightarrow> 'b::linorder"
  shows "\<forall>x \<in> set xs. \<forall>y \<in> set ys. f x \<le> f y \<Longrightarrow> sort_key f (xs @ ys) = sort_key f xs @ sort_key f ys"
  by (induction xs) (simp_all add: insort_key_before)

definition segment_place :: "TranscriptSegment \<Rightarrow> i64 \<times> i64 \<times> string" where
  "segment_place s = (segment_start_ms s, segment_end_ms s, segment_id s)"

lemma list_segments_sorted: "sorted (map segment_place (list_segments rid cat))"
proof -
  have "map segment_place (list_segments rid cat) = map (\<lambda>r. (seg_start_ms r, seg_end_ms r, seg_id r))
      (sort_key (\<lambda>r. (seg_start_ms r, seg_end_ms r, seg_id r)) (filter (\<lambda>r. seg_revision_id r = rid) (segments cat)))"
    by (simp add: list_segments_def segment_place_def segment_from_row_def comp_def)
  then show ?thesis by simp
qed

lemma segment_revision_stored:
  "transcripts_ok cat \<Longrightarrow> s \<in> set (segments cat) \<Longrightarrow> seg_revision_id s \<in> rev_id ` set (revisions cat)"
  by (auto simp: transcripts_ok_def)

lemma segment_round_trip: "segment_from_row (segment_row_of rid d) = d"
  by (simp add: segment_from_row_def segment_row_of_def)

lemma list_segments_new:
  assumes "transcripts_ok cat" "rev_id v \<notin> rev_id ` set (revisions cat)" "sorted (map segment_place ds)"
  shows "list_segments (rev_id v) (with_revision v (map (segment_row_of (rev_id v)) ds) cat) = ds"
proof -
  have none: "filter (\<lambda>r. seg_revision_id r = rev_id v) (segments cat) = []"
    unfolding filter_empty_conv using segment_revision_stored [OF assms(1)] assms(2) by metis
  have all: "filter (\<lambda>r. seg_revision_id r = rev_id v) (map (segment_row_of (rev_id v)) ds) =
      map (segment_row_of (rev_id v)) ds"
    by (simp add: filter_id_conv segment_row_of_def)
  have "sort_key (\<lambda>r. (seg_start_ms r, seg_end_ms r, seg_id r)) (map (segment_row_of (rev_id v)) ds) =
      map (segment_row_of (rev_id v)) ds"
    by (rule sort_key_id_if_sorted) (use assms(3) in \<open>simp add: segment_place_def [abs_def] segment_row_of_def comp_def\<close>)
  then show ?thesis
    by (simp add: list_segments_def none all comp_def segment_round_trip)
qed

lemma list_segments_others:
  assumes "\<forall>r \<in> set rs. seg_revision_id r = rev_id v" "rid \<noteq> rev_id v"
  shows "list_segments rid (with_revision v rs cat) = list_segments rid cat"
proof -
  have "filter (\<lambda>r. seg_revision_id r = rid) rs = []" using assms by (auto simp: filter_empty_conv)
  then show ?thesis by (simp add: list_segments_def)
qed

lemma revisions_of_new:
  assumes "newer_than cat v"
  shows "revisions_of i (with_revision v rs cat) =
    (if rev_session_id v = i then revisions_of i cat @ [v] else revisions_of i cat)"
proof (cases "rev_session_id v = i")
  case True
  then have "\<forall>r \<in> set (filter (\<lambda>r. rev_session_id r = i) (revisions cat)). \<forall>w \<in> set [v]. rev_number r \<le> rev_number w"
    using assms by (auto simp: newer_than_def intro: less_imp_le)
  from sort_key_append [OF this] True show ?thesis by (simp add: revisions_of_def)
qed (simp add: revisions_of_def)

lemma edited_places:
  "length ls = length es \<Longrightarrow> map segment_place (map2 (edited_segment legacy) ls es) = map segment_place ls"
  by (induction ls es rule: list_induct2) (auto simp: edited_segment_def segment_place_def)

definition text_edit :: "string \<Rightarrow> catalog \<Rightarrow> TranscriptSegment \<Rightarrow> TranscriptSegment \<times> TranscriptSegment \<Rightarrow> bool" where
  "text_edit i cat new p \<longleftrightarrow> (case p of (old, edited) \<Rightarrow> same_boundaries old new \<and> same_boundaries old edited \<and>
     segment_text new = trim (segment_text edited) \<and> segment_text new \<noteq> [] \<and>
     (\<exists>c. segment_chunk_id new = Some c \<and> available_in i cat c))"

lemma edited_text_edit:
  assumes "binding_of i cat ls legacy" "list_all2 edits ls es"
  shows "list_all2 (text_edit i cat) (map2 (edited_segment legacy) ls es) (zip ls es)"
proof -
  have len: "length ls = length es" using assms(2) by (rule list_all2_lengthD)
  have "text_edit i cat (edited_segment legacy (ls ! n) (es ! n)) (ls ! n, es ! n)" if n: "n < length ls" for n
  proof -
    have "(ls ! n, es ! n) \<in> set (zip ls es)" using n len by (auto simp: set_zip)
    then have "edited_segment legacy (ls ! n) (es ! n) \<in> set (map2 (edited_segment legacy) ls es)" by force
    from edited_chunks [OF assms(1) len this] show ?thesis
      using list_all2_nthD [OF assms(2) n]
      by (auto simp: text_edit_def edits_def same_boundaries_def edited_segment_def is_blank_def)
  qed
  with len show ?thesis by (auto simp: list_all2_conv_all_nth)
qed

text \<open>
  C26: What an accepted edit does: it adds one revision, numbered one past the latest, after all
  others of its session.  Reading the new revision back gives what was returned: the latest segments
  with only their texts replaced by the trimmed edits, each bound to an available chunk of the session.
  Every other revision, of this session and of others, reads as before.
\<close>

theorem manual_revision_effect:
  assumes ok: "transcripts_ok cat" and run: "append_manual_revision_from_latest uuid now i segs cat = Inr (v, cat')"
  shows "\<exists>r. latest_revision i cat = Some r \<and> revision_number v = rev_number r + 1 \<and>
    list_revisions i cat' = list_revisions i cat @ [v\<lparr>revision_segments := []\<rparr>] \<and>
    map rev_id (revisions_of i cat') = map rev_id (revisions_of i cat) @ [revision_id v] \<and>
    list_segments (revision_id v) cat' = revision_segments v \<and>
    list_all2 (text_edit i cat) (revision_segments v) (zip (list_segments (rev_id r) cat) segs) \<and>
    (\<forall>j. j \<noteq> i \<longrightarrow> list_revisions j cat' = list_revisions j cat) \<and>
    (\<forall>rid. rid \<noteq> revision_id v \<longrightarrow> list_segments rid cat' = list_segments rid cat)"
proof -
  obtain r ds where edit: "manual_edit i segs cat r ds" and v: "v = manual_result (manual_row uuid now r) ds"
    and fresh: "rev_id (manual_row uuid now r) \<notin> rev_id ` set (revisions cat)"
    and cat': "cat' = with_revision (manual_row uuid now r) (map (segment_row_of (''tr_'' @ uuid)) ds) cat"
    using run by (auto simp: manual_steps insert_revision_row_Inr insert_segment_rows_Inr with_revision_def)
  let ?v = "manual_row uuid now r"
  have rid: "''tr_'' @ uuid = rev_id ?v" by (simp add: manual_row_def)
  note cat' = cat' [unfolded rid]
  obtain legacy where r: "latest_revision i cat = Some r" and e: "list_all2 edits (list_segments (rev_id r) cat) segs"
    and b: "binding_of i cat (list_segments (rev_id r) cat) legacy"
    and ds: "ds = map2 (edited_segment legacy) (list_segments (rev_id r) cat) segs"
    using edit by (auto simp: manual_edit_def)
  have session: "rev_session_id ?v = i" using latest_revision_Some(2) [OF r] by (simp add: manual_row_def)
  have "map segment_place ds = map segment_place (list_segments (rev_id r) cat)"
    unfolding ds by (rule edited_places [OF list_all2_lengthD [OF e]])
  then have "sorted (map segment_place ds)" by (simp add: list_segments_sorted)
  note reads = list_segments_new [OF ok fresh this] list_segments_others [of "map (segment_row_of (rev_id ?v)) ds" ?v]
    revisions_of_new [OF manual_row_newer [OF r, of uuid now]]
  have "revision_id v = rev_id ?v" "revision_segments v = ds" "revision_number v = rev_number r + 1"
    "v\<lparr>revision_segments := []\<rparr> = revision_from_row ?v"
    by (simp_all add: v manual_result_def revision_from_row_def manual_row_def)
  with r edited_text_edit [OF b e] show ?thesis
    by (intro exI [of _ r]) (simp add: cat' reads list_revisions_def session ds [symmetric] segment_row_of_def)
qed

subsection \<open>Transcripts only grow\<close>

text \<open>Everything that touches the transcripts, and any other statement, which leaves them alone.\<close>

inductive transcript_step :: "catalog \<Rightarrow> catalog \<Rightarrow> bool" where
  transcript_append: "append_revision uuid now i provider segs cat = Inr (v, cat') \<Longrightarrow> transcript_step cat cat'"
| transcript_manual: "append_manual_revision_from_latest uuid now i segs cat = Inr (v, cat') \<Longrightarrow> transcript_step cat cat'"
| transcript_publish: "publish_asr_result receipt_id rid t receipt psegs now cat = Inr (pub, cat') \<Longrightarrow> transcript_step cat cat'"
| transcript_elsewhere: "queue_step cat cat' \<Longrightarrow> revisions cat' = revisions cat \<Longrightarrow> segments cat' = segments cat \<Longrightarrow>
    segment_search cat' = segment_search cat \<Longrightarrow> transcript_step cat cat'"

definition grown :: "catalog \<Rightarrow> catalog \<Rightarrow> bool" where
  "grown cat cat' \<longleftrightarrow> (\<exists>vs ss. revisions cat' = revisions cat @ vs \<and> segments cat' = segments cat @ ss \<and>
     (\<forall>v \<in> set vs. newer_than cat v) \<and> (\<forall>s \<in> set ss. seg_revision_id s \<notin> rev_id ` set (revisions cat)))"

lemma grown_refl: "revisions cat' = revisions cat \<Longrightarrow> segments cat' = segments cat \<Longrightarrow> grown cat cat'"
  by (simp add: grown_def)

lemma grown_trans: "grown a b \<Longrightarrow> grown b c \<Longrightarrow> grown a c"
  by (fastforce simp: grown_def newer_than_def)

lemma grown_new: "new_revision cat v rs \<Longrightarrow> grown cat (with_revision v rs cat)"
  by (auto simp: grown_def new_revision_def)

lemma manual_revision_new:
  assumes "append_manual_revision_from_latest uuid now i segs cat = Inr (v, cat')"
  shows "\<exists>row rs. new_revision cat row rs \<and> cat' = with_revision row rs cat"
proof -
  obtain r ds where r: "latest_revision i cat = Some r"
    and fresh: "rev_id (manual_row uuid now r) \<notin> rev_id ` set (revisions cat)"
    and d: "distinct (map seg_key (map (segment_row_of (''tr_'' @ uuid)) ds))"
    and cat': "cat' = with_revision (manual_row uuid now r) (map (segment_row_of (''tr_'' @ uuid)) ds) cat"
    using assms by (auto simp: manual_steps manual_edit_def insert_revision_row_Inr insert_segment_rows_Inr
        with_revision_def)
  have "distinct (map seg_id (map (segment_row_of (''tr_'' @ uuid)) ds))"
    using d by (simp add: distinct_map inj_on_def seg_key_def segment_row_of_def comp_def)
  then have "new_revision cat (manual_row uuid now r) (map (segment_row_of (''tr_'' @ uuid)) ds)"
    using fresh manual_row_newer [OF r] by (auto simp: new_revision_def segment_row_of_def manual_row_def)
  with cat' show ?thesis by blast
qed

lemma publication_new:
  assumes "queue_ok (jobs cat)" "publish_asr_result receipt_id rid t receipt segs now cat = Inr (pub, cat')"
    and "transcripts_ok cat"
  shows "grown cat cat' \<and> transcripts_ok cat'"
proof -
  obtain j c where ready: "publication_ready receipt_id rid t receipt segs now cat j c"
    and cat': "cat' = published_catalog receipt_id rid t receipt segs now cat j c"
    using publication_commits_iff [OF assms(1)] assms(2) by blast
  show ?thesis
  proof (cases "segs = []")
    case True
    then show ?thesis using assms(3)
      by (simp add: cat' published_catalog_def finish_job_def grown_refl transcripts_ok_def)
  next
    case False
    let ?v = "\<lparr>rev_id = rid, rev_session_id = job_session_id j, rev_number = next_number (job_session_id j) cat,
      rev_provider = job_provider j, rev_created_at = 1000000 * canonical_time now, rev_provenance = VerifiedLocalAsr\<rparr>"
    let ?rs = "map (placed_row (context_of j c) rid) segs"
    have "newer_than cat ?v" by (rule next_number_newer) simp_all
    then have new: "new_revision cat ?v ?rs"
      using ready False by (auto simp: new_revision_def publication_ready_def list_ex_iff placed_row_def comp_def)
    have same: "revisions cat' = revisions (with_revision ?v ?rs cat)" "segments cat' = segments (with_revision ?v ?rs cat)"
      "segment_search cat' = segment_search (with_revision ?v ?rs cat)"
      using False by (simp_all add: cat' published_catalog_def finish_job_def with_segments_def indexed_text_def
          placed_row_def comp_def)
    from with_revision_ok [OF assms(3) new] grown_new [OF new] show ?thesis
      unfolding transcripts_ok_def grown_def same by simp
  qed
qed

definition store_ok :: "catalog \<Rightarrow> bool" where
  "store_ok cat \<longleftrightarrow> queue_ok (jobs cat) \<and> transcripts_ok cat"

lemma transcript_step_ok:
  assumes "transcript_step cat cat'" "store_ok cat"
  shows "grown cat cat' \<and> store_ok cat'"
  using assms
proof (induction rule: transcript_step.induct)
  case (transcript_append uuid now i provider segs cat v cat')
  then show ?case
    using append_revision_new [OF transcript_append(1)] with_revision_ok grown_new by (auto simp: store_ok_def)
next
  case (transcript_manual uuid now i segs cat v cat')
  then show ?case
    using manual_revision_new [OF transcript_manual(1)] with_revision_ok grown_new by (auto simp: store_ok_def)
next
  case (transcript_publish receipt_id rid t receipt psegs now cat pub cat')
  then show ?case
    using publication_new publication_evolves by (auto simp: store_ok_def)
next
  case (transcript_elsewhere cat cat')
  then show ?case
    using queue_step_evolves [OF transcript_elsewhere(1)] by (auto simp: store_ok_def transcripts_ok_def grown_refl)
qed

interpretation transcripts: invariant_relation transcript_step store_ok
  by unfold_locales (use transcript_step_ok in blast)

lemma transcripts_grow:
  assumes "transcript_step\<^sup>*\<^sup>* cat cat'" "store_ok cat"
  shows "grown cat cat'"
  using assms
proof (induction rule: rtranclp_induct)
  case (step y z)
  then show ?case using transcripts.reachable_inv transcript_step_ok grown_trans by blast
qed (simp add: grown_refl)

lemma grown_segments:
  assumes "grown cat cat'" "rid \<in> rev_id ` set (revisions cat)"
  shows "list_segments rid cat' = list_segments rid cat"
proof -
  obtain ss where ss: "segments cat' = segments cat @ ss" "\<forall>s \<in> set ss. seg_revision_id s \<notin> rev_id ` set (revisions cat)"
    using assms(1) by (auto simp: grown_def)
  then have "filter (\<lambda>r. seg_revision_id r = rid) ss = []" using assms(2) by (auto simp: filter_empty_conv)
  with ss(1) show ?thesis by (simp add: list_segments_def)
qed

lemma grown_revisions:
  assumes "grown cat cat'"
  shows "prefix (list_revisions i cat) (list_revisions i cat')"
proof -
  obtain vs where vs: "revisions cat' = revisions cat @ vs" "\<forall>v \<in> set vs. newer_than cat v"
    using assms by (auto simp: grown_def)
  let ?of = "filter (\<lambda>r. rev_session_id r = i)"
  have "\<forall>x \<in> set (?of (revisions cat)). \<forall>y \<in> set (?of vs). rev_number x \<le> rev_number y"
    using vs(2) by (fastforce simp: newer_than_def)
  from sort_key_append [OF this] have "revisions_of i cat' = revisions_of i cat @ sort_key rev_number (?of vs)"
    by (simp add: revisions_of_def vs(1))
  then show ?thesis by (simp add: list_revisions_def)
qed

text \<open>
  C11: History is never rewritten.  Whatever publications, appended revisions, manual edits and
  other statements run, in whatever order: a stored revision keeps its place and its number and reads
  the same for ever, newer ones follow it, and the transcripts stay sound - keys unique, segments owned
  by stored revisions, the full-text index holding each segment's text once.
\<close>

theorem transcripts_only_grow:
  assumes run: "transcript_step\<^sup>*\<^sup>* cat cat'" and ok: "store_ok cat"
  shows "store_ok cat' \<and> prefix (revisions cat) (revisions cat') \<and> prefix (segments cat) (segments cat') \<and>
    (\<forall>i. prefix (list_revisions i cat) (list_revisions i cat')) \<and>
    (\<forall>rid \<in> rev_id ` set (revisions cat). list_segments rid cat' = list_segments rid cat)"
proof -
  have grown: "grown cat cat'" by (rule transcripts_grow [OF assms])
  then have "prefix (revisions cat) (revisions cat')" "prefix (segments cat) (segments cat')"
    by (auto simp: grown_def)
  with transcripts.reachable_inv [OF assms] grown_segments [OF grown] grown_revisions [OF grown]
  show ?thesis by blast
qed

subsection \<open>Sessions an interrupted program left open\<close>

text \<open>The end of a recording: the latest end of its timed chunks, or its start when it has none.\<close>

definition recorded_until :: "CaptureSession \<Rightarrow> catalog \<Rightarrow> time \<Rightarrow> bool" where
  "recorded_until s cat e \<longleftrightarrow>
     (let ends = {timing_utc_end_at t |t. t \<in> set (capture_timings cat) \<and>
        (\<exists>c \<in> set (chunks cat). chunk_id c = timing_chunk_id t \<and> chunk_session_id c = session_id s)}
      in if ends = {} then e = started_at s else e \<in> ends \<and> (\<forall>x \<in> ends. x \<le> e))"

lemma foldl_max_greatest:
  fixes t :: "'a::linorder"
  shows "foldl max t ts \<in> set (t # ts) \<and> (\<forall>x \<in> set (t # ts). x \<le> foldl max t ts)"
proof (induction ts arbitrary: t)
  case (Cons u ts)
  from Cons [of "max t u"] show ?case by (auto simp: max_def split: if_splits)
qed simp

lemma recorded_ends_set:
  "set (recorded_ends i cat) = {timing_utc_end_at t |t. t \<in> set (capture_timings cat) \<and>
     (\<exists>c \<in> set (chunks cat). chunk_id c = timing_chunk_id t \<and> chunk_session_id c = i)}"
  by (fastforce simp: recorded_ends_def)

lemma reconciled_end:
  "recorded_until s cat (case recorded_ends (session_id s) cat of [] \<Rightarrow> started_at s | t # ts \<Rightarrow> foldl max t ts)"
proof (cases "recorded_ends (session_id s) cat")
  case Nil
  then show ?thesis using recorded_ends_set [of "session_id s" cat] by (simp add: recorded_until_def)
next
  case (Cons t ts)
  then show ?thesis
    using recorded_ends_set [of "session_id s" cat, symmetric] foldl_max_greatest [of t ts]
    by (simp add: recorded_until_def Let_def)
qed

text \<open>
  After an interruption every session that was being recorded or paused is stopped, and
  ends where its last timed chunk ends - or where it began, when it has none; nothing else changes, the
  count is the number of sessions closed, and a second run changes nothing.
\<close>

theorem reconciliation_closes_sessions:
  assumes "reconcile_interrupted_capture_sessions cat = (n, cat')"
  shows "cat' = cat\<lparr>sessions := sessions cat'\<rparr> \<and> n = length (filter interrupted (sessions cat)) \<and>
    list_all2 (\<lambda>s s'. if interrupted s
        then \<exists>e. recorded_until s cat e \<and> s' = s\<lparr>session_state := Stopped, ended_at := Some e\<rparr>
        else s' = s) (sessions cat) (sessions cat') \<and>
    reconcile_interrupted_capture_sessions cat' = (0, cat')"
proof -
  let ?close = "\<lambda>s. s\<lparr>session_state := Stopped, ended_at := Some (case recorded_ends (session_id s) cat of
            [] \<Rightarrow> started_at s | t # ts \<Rightarrow> foldl max t ts)\<rparr>"
  have n: "n = length (filter interrupted (sessions cat))"
    and cat': "cat' = cat\<lparr>sessions := update_where interrupted ?close (sessions cat)\<rparr>"
    using assms by (auto simp: reconcile_interrupted_capture_sessions_def count_where_def)
  have closed: "\<not> list_ex interrupted (sessions cat')"
    by (auto simp: cat' list_ex_iff set_update_where interrupted_def)
  have "list_all2 (\<lambda>s s'. if interrupted s
        then \<exists>e. recorded_until s cat e \<and> s' = s\<lparr>session_state := Stopped, ended_at := Some e\<rparr>
        else s' = s) (sessions cat) (update_where interrupted ?close (sessions cat))"
    using reconciled_end by (auto simp: update_where_def list_all2_conv_all_nth)
  moreover have "reconcile_interrupted_capture_sessions cat' = (0, cat')"
    using closed by (simp add: reconcile_interrupted_capture_sessions_def update_where_none table_simps)
  ultimately show ?thesis using n by (simp add: cat')
qed

subsection \<open>A small archive\<close>

definition demo_session :: CaptureSession where
  "demo_session = \<lparr>session_id = ''s'', session_title = ''Call'', session_state = Recording, started_at = 5,
     ended_at = None\<rparr>"

definition demo_recording :: chunk_row where
  "demo_recording = \<lparr>chunk_id = ''k'', chunk_session_id = ''s'', chunk_source = Microphone, chunk_path = ''audio/k.caf'',
     chunk_sha256 = ''00'', chunk_byte_length = 1, chunk_session_offset_ms = 0, chunk_duration_ms = Some 20,
     chunk_integrity = Available, chunk_last_error_code = None, chunk_last_error_at = None\<rparr>"

definition demo_timing :: CaptureChunkTiming where
  "demo_timing = \<lparr>timing_chunk_id = ''k'', timing_capture_source_id = ''m'', timing_source_sequence = 0,
     timing_source_sample_start = 0, timing_source_sample_end = 1, timing_session_start_ms = 0,
     timing_session_end_ms = 20, timing_monotonic_start_ns = 0, timing_monotonic_end_ns = 1,
     timing_utc_start_at = 5, timing_utc_end_at = 25, timing_discontinuity_count = 0,
     timing_dropped_frame_count = 0, timing_created_at = 26\<rparr>"

definition demo_archive :: catalog where
  "demo_archive = empty_catalog\<lparr>sessions := [demo_session], chunks := [demo_recording],
     capture_timings := [demo_timing]\<rparr>"

definition demo_text :: "string \<Rightarrow> TranscriptSegment" where
  "demo_text t = new_segment ''g'' 3 9 Microphone t"

definition demo_first :: catalog where
  "demo_first = (case append_revision ''1'' 7 ''s'' ''whisper'' [demo_text ''helo''] demo_archive of
     Inr (_, cat) \<Rightarrow> cat | Inl _ \<Rightarrow> demo_archive)"

definition demo_second :: catalog where
  "demo_second = (case append_manual_revision_from_latest ''2'' 8 ''s'' [demo_text '' hello''] demo_first of
     Inr (_, cat) \<Rightarrow> cat | Inl _ \<Rightarrow> demo_first)"

lemma demo_store:
  "store_ok demo_archive" "transcripts_ok demo_first" "''s'' \<in> session_id ` set (sessions demo_first)"
  "''tr_'' @ ''2'' \<notin> rev_id ` set (revisions demo_first)"
  unfolding store_ok_def by code_simp+

lemma demo_steps:
  "\<exists>v. append_revision ''1'' 7 ''s'' ''whisper'' [demo_text ''helo''] demo_archive = Inr (v, demo_first)"
  "\<exists>v. append_manual_revision_from_latest ''2'' 8 ''s'' [demo_text '' hello''] demo_first = Inr (v, demo_second) \<and>
     map segment_text (revision_segments v) = [''hello'']"
proof -
  have first: "case append_revision ''1'' 7 ''s'' ''whisper'' [demo_text ''helo''] demo_archive of
      Inr _ \<Rightarrow> True | Inl _ \<Rightarrow> False" by code_simp
  have second: "case append_manual_revision_from_latest ''2'' 8 ''s'' [demo_text '' hello''] demo_first of
      Inr (v, _) \<Rightarrow> map segment_text (revision_segments v) = [''hello''] | Inl _ \<Rightarrow> False" by code_simp
  show "\<exists>v. append_revision ''1'' 7 ''s'' ''whisper'' [demo_text ''helo''] demo_archive = Inr (v, demo_first)"
    using first by (auto simp: demo_first_def split: sum.splits)
  show "\<exists>v. append_manual_revision_from_latest ''2'' 8 ''s'' [demo_text '' hello''] demo_first = Inr (v, demo_second) \<and>
     map segment_text (revision_segments v) = [''hello'']"
    using second by (auto simp: demo_second_def split: sum.splits)
qed

theorem manual_revision_exact_witness:
  "\<exists>r ds. manual_edit ''s'' [demo_text '' hello''] demo_first r ds \<and> map segment_text ds = [''hello'']"
proof -
  obtain v where v: "append_manual_revision_from_latest ''2'' 8 ''s'' [demo_text '' hello''] demo_first = Inr (v, demo_second)"
    "map segment_text (revision_segments v) = [''hello'']" using demo_steps(2) by (elim exE conjE) (rule that)
  from manual_revision_exact [OF demo_store(2,3,4), THEN iffD1, OF v(1)]
  obtain r ds where "manual_edit ''s'' [demo_text '' hello''] demo_first r ds" "v = manual_result (manual_row ''2'' 8 r) ds"
    by blast
  moreover from this(2) have "revision_segments v = ds" by (simp add: manual_result_def)
  ultimately have "manual_edit ''s'' [demo_text '' hello''] demo_first r ds \<and> map segment_text ds = [''hello'']"
    using v(2) by simp
  then show ?thesis by (intro exI)
qed

theorem manual_revision_effect_witness:
  "\<exists>v. append_manual_revision_from_latest ''2'' 8 ''s'' [demo_text '' hello''] demo_first = Inr (v, demo_second) \<and>
     list_segments (revision_id v) demo_second = revision_segments v \<and> revision_segments v \<noteq> []"
proof -
  obtain v where v: "append_manual_revision_from_latest ''2'' 8 ''s'' [demo_text '' hello''] demo_first = Inr (v, demo_second)"
    "map segment_text (revision_segments v) = [''hello'']" using demo_steps(2) by (elim exE conjE) (rule that)
  have "list_segments (revision_id v) demo_second = revision_segments v"
    using manual_revision_effect [OF demo_store(2) v(1)] by blast
  moreover have "revision_segments v \<noteq> []" using v(2) by auto
  ultimately show ?thesis using v(1) by blast
qed

theorem transcripts_only_grow_witness:
  "store_ok demo_second \<and> list_segments ''tr_1'' demo_second = list_segments ''tr_1'' demo_first \<and>
     map rev_id (revisions demo_second) = [''tr_1'', ''tr_2'']"
proof -
  have a: "transcript_step demo_archive demo_first" using demo_steps(1) by (auto intro: transcript_append)
  have b: "transcript_step demo_first demo_second" using demo_steps(2) by (auto intro: transcript_manual)
  have ids: "map rev_id (revisions demo_first) = [''tr_1'']" "map rev_id (revisions demo_second) = [''tr_1'', ''tr_2'']"
    by code_simp+
  have run: "transcript_step\<^sup>*\<^sup>* demo_archive demo_first" using a by blast
  have ok: "store_ok demo_first" by (rule transcripts.reachable_inv [OF run demo_store(1)])
  have "''tr_1'' \<in> rev_id ` set (revisions demo_first)" using ids(1) by (metis list.set_intros(1) set_map)
  with transcripts_only_grow [OF r_into_rtranclp [of transcript_step, OF b] ok] ids(2) show ?thesis by blast
qed

theorem reconciliation_closes_sessions_witness:
  "\<exists>n cat'. reconcile_interrupted_capture_sessions demo_archive = (n, cat') \<and> n = 1 \<and>
     map ended_at (sessions cat') = [Some 25] \<and> reconcile_interrupted_capture_sessions cat' = (0, cat')"
proof -
  obtain n cat' where run: "reconcile_interrupted_capture_sessions demo_archive = (n, cat')" by force
  have "fst (reconcile_interrupted_capture_sessions demo_archive) = 1"
    "map ended_at (sessions (snd (reconcile_interrupted_capture_sessions demo_archive))) = [Some 25]" by code_simp+
  with run reconciliation_closes_sessions [OF run] show ?thesis by simp
qed

end
