(* ===== verification/Api_Contract.thy ===== *)
theory Api_Contract
  imports Json
begin

section \<open>The tool interface's contract: \<open>api/protocol.rs\<close>, \<open>api/auth.rs\<close>, \<open>api/socket.rs\<close>\<close>

text \<open>
  Agents and the program's own interface talk to the core in request envelopes.  A connection's
  peer is given a context - who it is, what it may do - that no payload can change, and a method is
  allowed or denied by that context alone.  Responses are JSON values.  The platform's call for a
  peer's credentials and binding the sockets are outside the model.
\<close>

subsection \<open>Names\<close>

definition AGENT_CONTRACT :: string where "AGENT_CONTRACT = ''agent.tool''"
definition APPLICATION_CONTRACT :: string where "APPLICATION_CONTRACT = ''core.application''"
definition CONTRACT_VERSION :: u32 where "CONTRACT_VERSION = 1"

definition AGENT_METHODS :: "string list" where
  "AGENT_METHODS = [''get_capabilities'', ''get_capture_status'', ''get_asr_job_status'', ''search_transcripts'',
     ''resolve_evidence'', ''open_evidence'', ''get_operation'', ''list_operations'']"

definition APPLICATION_ONLY_METHODS :: "string list" where
  "APPLICATION_ONLY_METHODS = [''start_capture'', ''stop_capture'', ''install_model'', ''uninstall_model'',
     ''get_model'', ''list_models'', ''import_audio'', ''enqueue_asr_job'', ''retry_asr_job'', ''cancel_asr_job'',
     ''retranscribe_chunk'', ''get_operation'', ''list_operations'', ''list_transcript_revisions'',
     ''get_transcript_revision'', ''list_provider_receipts'']"

definition CAP_AGENT_READ :: string where "CAP_AGENT_READ = ''agent_read''"
definition CAP_AGENT_EVIDENCE :: string where "CAP_AGENT_EVIDENCE = ''agent_evidence''"
definition CAP_CAPTURE_MANAGE :: string where "CAP_CAPTURE_MANAGE = ''capture_manage''"
definition CAP_MODEL_MANAGE :: string where "CAP_MODEL_MANAGE = ''model_manage''"
definition CAP_IMPORT_MANAGE :: string where "CAP_IMPORT_MANAGE = ''import_manage''"
definition CAP_ASR_JOB_MANAGE :: string where "CAP_ASR_JOB_MANAGE = ''asr_job_manage''"
definition CAP_OPERATION_READ :: string where "CAP_OPERATION_READ = ''operation_read''"
definition CAP_TRANSCRIPT_READ :: string where "CAP_TRANSCRIPT_READ = ''transcript_read''"
definition CAP_RECEIPT_READ :: string where "CAP_RECEIPT_READ = ''receipt_read''"

definition E_UNSUPPORTED_CAPABILITY :: string where "E_UNSUPPORTED_CAPABILITY = ''unsupported_capability''"
definition E_UNKNOWN_METHOD :: string where "E_UNKNOWN_METHOD = ''unknown_method''"
definition E_INVALID_REQUEST :: string where "E_INVALID_REQUEST = ''invalid_request''"
definition E_OPERATION_IN_PROGRESS :: string where "E_OPERATION_IN_PROGRESS = ''operation_in_progress''"
definition E_INTERNAL :: string where "E_INTERNAL = ''internal_error''"

subsection \<open>Envelopes and callers\<close>

datatype CallerKind = LocalAgent | TauriUi | Gateway

fun caller_kind_name :: "CallerKind \<Rightarrow> string" where
  "caller_kind_name LocalAgent = ''local_agent''"
| "caller_kind_name TauriUi = ''tauri_ui''"
| "caller_kind_name Gateway = ''gateway''"

record TrustedCallerContext =
  principal_id :: string
  caller_kind :: CallerKind
  caller_capabilities :: "string list"
  auth_source :: string

record RequestEnvelope =
  env_contract :: string
  env_contract_version :: u32
  env_request_id :: string
  env_method :: string
  env_params :: json

record ApiError =
  err_code :: string
  err_message_key :: string
  err_retryable :: bool
  err_details :: "json option"

definition new_error :: "string \<Rightarrow> string \<Rightarrow> bool \<Rightarrow> ApiError" where
  "new_error code key retryable = \<lparr>err_code = code, err_message_key = key, err_retryable = retryable,
     err_details = None\<rparr>"

text \<open>\<open>to_value\<close> of a struct: its members, which the map of a value keeps in the order of the keys.
  Printing the struct itself prints them in the order of declaration.\<close>

definition to_value :: "json_object \<Rightarrow> json" where
  "to_value members = JObject (sort_key fst members)"

definition json_text_option :: "string option \<Rightarrow> json" where
  "json_text_option v = (case v of None \<Rightarrow> JNull | Some s \<Rightarrow> JString s)"

definition json_value_option :: "json option \<Rightarrow> json" where
  "json_value_option v = (case v of None \<Rightarrow> JNull | Some j \<Rightarrow> j)"

definition json_u32 :: "u32 \<Rightarrow> json" where
  "json_u32 w = JNumber (PosInt (ucast w))"

definition json_int :: "int \<Rightarrow> json" where
  "json_int i = JNumber (if i < 0 then NegInt i else PosInt (word_of_int i))"

definition error_json :: "ApiError \<Rightarrow> json" where
  "error_json e = to_value [(''code'', JString (err_code e)), (''message_key'', JString (err_message_key e)),
     (''retryable'', JBool (err_retryable e)), (''details'', json_value_option (err_details e))]"

definition error_response :: "string \<Rightarrow> string \<Rightarrow> ApiError \<Rightarrow> json" where
  "error_response contract request_id e = to_value [(''contract'', JString contract),
     (''contract_version'', json_u32 CONTRACT_VERSION), (''request_id'', JString request_id), (''ok'', JBool False),
     (''error'', error_json e)]"

definition success_members :: "string \<Rightarrow> string \<Rightarrow> json \<Rightarrow> json_object" where
  "success_members contract request_id result = [(''contract'', JString contract),
     (''contract_version'', json_u32 CONTRACT_VERSION), (''request_id'', JString request_id), (''ok'', JBool True),
     (''result'', result)]"

definition success_response :: "string \<Rightarrow> string \<Rightarrow> json \<Rightarrow> json" where
  "success_response contract request_id result = to_value (success_members contract request_id result)"

definition with_details :: "json \<Rightarrow> ApiError \<Rightarrow> ApiError" where
  "with_details d e = e\<lparr>err_details := Some d\<rparr>"

definition unsupported_capability :: "string \<Rightarrow> ApiError" where
  "unsupported_capability c = with_details (to_value [(''capability'', JString c),
     (''available_at_milestone'', JString ''native_capture'')])
     (new_error E_UNSUPPORTED_CAPABILITY ''capability not available'' False)"

definition unknown_method :: "string \<Rightarrow> ApiError" where
  "unknown_method m = with_details (to_value [(''method'', JString m)]) (new_error E_UNKNOWN_METHOD ''unknown method'' False)"

subsection \<open>Who may call what\<close>

datatype AuthResult = Allowed | Denied string string

definition required_capability :: "string \<Rightarrow> string" where
  "required_capability m =
     (if m \<in> set [''get_capabilities'', ''get_capture_status'', ''get_asr_job_status''] then CAP_AGENT_READ
      else if m = ''search_transcripts'' then CAP_AGENT_READ
      else if m \<in> set [''resolve_evidence'', ''open_evidence''] then CAP_AGENT_EVIDENCE
      else if m \<in> set [''start_capture'', ''stop_capture''] then CAP_CAPTURE_MANAGE
      else if m \<in> set [''install_model'', ''uninstall_model'', ''get_model'', ''list_models''] then CAP_MODEL_MANAGE
      else if m = ''import_audio'' then CAP_IMPORT_MANAGE
      else if m \<in> set [''enqueue_asr_job'', ''retry_asr_job'', ''cancel_asr_job'', ''retranscribe_chunk'']
        then CAP_ASR_JOB_MANAGE
      else if m \<in> set [''get_operation'', ''list_operations''] then CAP_OPERATION_READ
      else if m \<in> set [''list_transcript_revisions'', ''get_transcript_revision''] then CAP_TRANSCRIPT_READ
      else if m = ''list_provider_receipts'' then CAP_RECEIPT_READ
      else ''unknown'')"

text \<open>The check of the contract; \<open>None\<close> lets the call through.\<close>

definition contract_refusal :: "string \<Rightarrow> string \<Rightarrow> AuthResult option" where
  "contract_refusal contract m =
     (if contract = AGENT_CONTRACT
        then (if m \<notin> set AGENT_METHODS then Some (Denied E_UNKNOWN_METHOD ''method not in agent contract'') else None)
      else if contract = APPLICATION_CONTRACT
        then (if m \<notin> set (AGENT_METHODS @ APPLICATION_ONLY_METHODS)
          then Some (Denied E_UNKNOWN_METHOD ''method not in application contract'') else None)
      else Some (Denied ''unknown_contract'' ''unknown contract''))"

definition authorize_method :: "string \<Rightarrow> string \<Rightarrow> TrustedCallerContext \<Rightarrow> AuthResult" where
  "authorize_method contract m caller = (case contract_refusal contract m of
     Some r \<Rightarrow> r
   | None \<Rightarrow>
       if caller_kind caller = LocalAgent \<and> m \<in> set APPLICATION_ONLY_METHODS \<and> m \<notin> set AGENT_METHODS
         then Denied E_UNSUPPORTED_CAPABILITY ''agent cannot call application-only methods''
       else if required_capability m \<notin> set (caller_capabilities caller)
         then Denied E_UNSUPPORTED_CAPABILITY ''missing required capability''
       else Allowed)"

subsection \<open>Authenticated peers\<close>

datatype SocketKind = AgentSocket | UiSocket

datatype SocketError = PeerUidMismatch | PeerCredentialsUnavailable

definition agent_capabilities :: "string list" where
  "agent_capabilities = [CAP_AGENT_READ, CAP_AGENT_EVIDENCE, CAP_OPERATION_READ]"

definition tauri_capabilities :: "string list" where
  "tauri_capabilities = [CAP_AGENT_READ, CAP_AGENT_EVIDENCE, CAP_OPERATION_READ, CAP_TRANSCRIPT_READ,
     CAP_RECEIPT_READ, CAP_CAPTURE_MANAGE, CAP_MODEL_MANAGE, CAP_IMPORT_MANAGE, CAP_ASR_JOB_MANAGE]"

text \<open>The platform answers the peer's user id, or nothing; the process id is a placeholder.\<close>

record PeerCred =
  cred_uid :: u32
  cred_pid :: i64

definition peer_credentials :: "u32 option \<Rightarrow> SocketError + PeerCred" where
  "peer_credentials uid = (case uid of
     None \<Rightarrow> Inl PeerCredentialsUnavailable
   | Some u \<Rightarrow> Inr \<lparr>cred_uid = u, cred_pid = 0\<rparr>)"

definition authenticate_agent_peer :: "u32 \<Rightarrow> u32 option \<Rightarrow> SocketError + TrustedCallerContext" where
  "authenticate_agent_peer my_uid peer = and_then (peer_credentials peer) (\<lambda>cred.
     if cred_uid cred \<noteq> my_uid then Inl PeerUidMismatch
     else Inr \<lparr>principal_id = ''agent-uid-'' @ int_display (uint (cred_uid cred)), caller_kind = LocalAgent,
       caller_capabilities = agent_capabilities, auth_source = ''peer_uid''\<rparr>)"

definition authenticate_ui_peer :: "u32 \<Rightarrow> u32 option \<Rightarrow> SocketError + TrustedCallerContext" where
  "authenticate_ui_peer my_uid peer = and_then (peer_credentials peer) (\<lambda>cred.
     if cred_uid cred \<noteq> my_uid then Inl PeerUidMismatch
     else Inr \<lparr>principal_id = ''tauri-pid-'' @ int_display (cred_pid cred), caller_kind = TauriUi,
       caller_capabilities = tauri_capabilities, auth_source = ''peer_uid_dev''\<rparr>)"

definition authenticate_peer :: "SocketKind \<Rightarrow> u32 \<Rightarrow> u32 option \<Rightarrow> SocketError + TrustedCallerContext" where
  "authenticate_peer kind my_uid peer = (case kind of
     AgentSocket \<Rightarrow> authenticate_agent_peer my_uid peer
   | UiSocket \<Rightarrow> authenticate_ui_peer my_uid peer)"

text \<open>What the checks amount to.\<close>

lemma authorize_iff:
  "authorize_method contract m caller = Allowed \<longleftrightarrow>
     (contract = AGENT_CONTRACT \<and> m \<in> set AGENT_METHODS \<or>
      contract = APPLICATION_CONTRACT \<and> m \<in> set (AGENT_METHODS @ APPLICATION_ONLY_METHODS) \<and>
        (caller_kind caller = LocalAgent \<longrightarrow> m \<in> set AGENT_METHODS)) \<and>
     required_capability m \<in> set (caller_capabilities caller)"
  by (auto simp: authorize_method_def contract_refusal_def AGENT_CONTRACT_def APPLICATION_CONTRACT_def
      split: option.splits if_splits)

lemma agent_allowed:
  assumes "authorize_method contract m caller = Allowed" "caller_kind caller = LocalAgent"
  shows "m \<in> set AGENT_METHODS"
  using assms by (auto simp: authorize_iff)

end
