(* ===== verification/Api_Cursor.thy ===== *)
theory Api_Cursor
  imports Api_Contract
begin

section \<open>Pagination cursors: \<open>api/cursor.rs\<close>\<close>

text \<open>
  A cursor names the contract, method, principal and catalog it was issued for, and when it expires.
  Hexadecimal text, the derived JSON reader and printer of the struct and the time format are
  libraries, gathered in one record with the clock and whatever else a request draws on.
\<close>

record Cursor =
  cur_version :: u8
  cur_contract :: string
  cur_method :: string
  cur_principal_id :: string
  cur_limit :: u32
  cur_last_keyset :: "json option"
  cur_catalog_instance_id :: string
  cur_issued_at :: string
  cur_expires_at :: string

datatype CursorError = InvalidCursor | CursorExpired | CursorScopeMismatch | CursorStale

record cursor_libraries =
  hex_encode :: "string \<Rightarrow> string"
  hex_decode :: "string \<Rightarrow> string option"
  utf8_ok :: "string \<Rightarrow> bool"
  print_cursor :: "Cursor \<Rightarrow> string option"
  read_cursor :: "string \<Rightarrow> Cursor option"
  rfc3339 :: "time \<Rightarrow> string"
  parse_rfc3339 :: "string \<Rightarrow> time option"

definition new_cursor :: "'z cursor_libraries_scheme \<Rightarrow> time \<Rightarrow> string \<Rightarrow> string \<Rightarrow> string \<Rightarrow> u32 \<Rightarrow> string \<Rightarrow> u32 \<Rightarrow> Cursor" where
  "new_cursor lib now contract m who limit inst ttl_seconds = \<lparr>cur_version = 1, cur_contract = contract,
     cur_method = m, cur_principal_id = who, cur_limit = limit, cur_last_keyset = None,
     cur_catalog_instance_id = inst, cur_issued_at = rfc3339 lib now,
     cur_expires_at = rfc3339 lib (now + uint ttl_seconds * 1000000000)\<rparr>"

definition encode_cursor :: "'z cursor_libraries_scheme \<Rightarrow> Cursor \<Rightarrow> string" where
  "encode_cursor lib c = hex_encode lib (case print_cursor lib c of None \<Rightarrow> [] | Some s \<Rightarrow> s)"

definition decode_cursor ::
    "'z cursor_libraries_scheme \<Rightarrow> time \<Rightarrow> string \<Rightarrow> string \<Rightarrow> string \<Rightarrow> string \<Rightarrow> string \<Rightarrow> CursorError + Cursor" where
  "decode_cursor lib now encoded contract m who inst =
     and_then (ok_or InvalidCursor (hex_decode lib encoded)) (\<lambda>bytes.
     and_then (if utf8_ok lib bytes then Inr bytes else Inl InvalidCursor) (\<lambda>json_text.
     and_then (ok_or InvalidCursor (read_cursor lib json_text)) (\<lambda>c.
     if cur_version c \<noteq> 1 then Inl InvalidCursor
     else if cur_contract c \<noteq> contract then Inl CursorScopeMismatch
     else if cur_method c \<noteq> m then Inl CursorScopeMismatch
     else if cur_principal_id c \<noteq> who then Inl CursorScopeMismatch
     else if cur_catalog_instance_id c \<noteq> inst then Inl CursorStale
     else and_then (ok_or CursorExpired (parse_rfc3339 lib (cur_expires_at c))) (\<lambda>expires_at.
       if expires_at < now then Inl CursorExpired else Inr c))))"

text \<open>The libraries' documented behaviour for one cursor and its times.\<close>

definition cursor_prints :: "'z cursor_libraries_scheme \<Rightarrow> Cursor \<Rightarrow> bool" where
  "cursor_prints lib c \<longleftrightarrow> (case print_cursor lib c of None \<Rightarrow> False | Some s \<Rightarrow>
     hex_decode lib (hex_encode lib s) = Some s \<and> utf8_ok lib s \<and> read_cursor lib s = Some c)"

text \<open>
  C38: A cursor serves whom it was issued to, until it expires, and nobody else.  Decoded for the
  contract, method, principal and catalog it names it is accepted exactly until its lifetime is
  over; for another contract, method or principal it is refused as out of scope, and for another
  catalog as stale - whatever the time.
\<close>

theorem cursor_lifecycle:
  assumes "c = new_cursor lib issued contract m who limit inst ttl" and "cursor_prints lib c"
    and "parse_rfc3339 lib (rfc3339 lib (issued + uint ttl * 1000000000)) = Some (issued + uint ttl * 1000000000)"
  shows "decode_cursor lib now (encode_cursor lib c) contract' m' who' inst' =
    (if (contract', m', who') \<noteq> (contract, m, who) then Inl CursorScopeMismatch
     else if inst' \<noteq> inst then Inl CursorStale
     else if issued + uint ttl * 1000000000 < now then Inl CursorExpired else Inr c)"
proof -
  obtain s where s: "print_cursor lib c = Some s" "hex_decode lib (hex_encode lib s) = Some s" "utf8_ok lib s"
    "read_cursor lib s = Some c" using assms(2) by (auto simp: cursor_prints_def split: option.splits)
  have fields: "cur_version c = 1" "cur_contract c = contract" "cur_method c = m" "cur_principal_id c = who"
    "cur_catalog_instance_id c = inst" "cur_expires_at c = rfc3339 lib (issued + uint ttl * 1000000000)"
    by (simp_all add: assms(1) new_cursor_def)
  show ?thesis
    by (simp add: decode_cursor_def encode_cursor_def s fields assms(3))
qed

text \<open>Libraries for one cursor: its text is a letter, a time's text its digits.\<close>

definition demo_cursor_libraries :: "Cursor \<Rightarrow> cursor_libraries" where
  "demo_cursor_libraries c = \<lparr>hex_encode = (\<lambda>s. s), hex_decode = Some, utf8_ok = (\<lambda>_. True),
     print_cursor = (\<lambda>_. Some ''c''), read_cursor = (\<lambda>_. Some c), rfc3339 = (\<lambda>t. replicate (nat t) CHR ''x''),
     parse_rfc3339 = (\<lambda>s. Some (int (length s)))\<rparr>"

theorem cursor_lifecycle_witness:
  "\<exists>(lib :: cursor_libraries) c. new_cursor lib 0 ''agent.tool'' ''search_transcripts'' ''p'' 2 ''i'' 1 = c \<and>
     decode_cursor lib 9 (encode_cursor lib c) ''agent.tool'' ''search_transcripts'' ''p'' ''i'' = Inr c \<and>
     decode_cursor lib 9 (encode_cursor lib c) ''agent.tool'' ''search_transcripts'' ''q'' ''i'' = Inl CursorScopeMismatch"
proof -
  define c where "c = new_cursor (demo_cursor_libraries undefined) 0 ''agent.tool'' ''search_transcripts'' ''p'' 2 ''i'' 1"
  let ?lib = "demo_cursor_libraries c"
  have c: "c = new_cursor ?lib 0 ''agent.tool'' ''search_transcripts'' ''p'' 2 ''i'' 1"
    by (simp add: c_def new_cursor_def demo_cursor_libraries_def)
  have prints: "cursor_prints ?lib c" by (simp add: cursor_prints_def demo_cursor_libraries_def)
  have parse: "parse_rfc3339 ?lib (rfc3339 ?lib (0 + uint (1::u32) * 1000000000)) = Some (0 + uint (1::u32) * 1000000000)"
    by (simp add: demo_cursor_libraries_def)
  note life = cursor_lifecycle [OF c prints parse]
  show ?thesis
    by (rule exI [of _ ?lib], rule exI [of _ c]) (simp add: life c [symmetric])
qed

end
