(* ===== verification/Dispatch.thy ===== *)
theory Dispatch
  imports Api_Cursor Session_Store Effects
begin

section \<open>Idempotent tool requests: \<open>api/idempotency.rs\<close>\<close>

text \<open>
  A mutation names an idempotency key.  The first request with a key claims a row of \<open>tool_requests\<close>;
  whoever comes later is answered from the row.  Every statement is a call that may fail, as the
  environment says; a query that fails is treated as finding nothing, as the code does with \<open>.ok()\<close>.
  \<open>check_or_claim\<close> holds the connection throughout, so it is one step.
\<close>

subsection \<open>Tables and environment\<close>

datatype request_state = RequestInProgress | RequestSucceeded | RequestFailed

record request_row =
  req_key :: string
  req_contract :: string
  req_contract_version :: u32
  req_principal_id :: string
  req_principal_kind :: string
  req_method :: string
  req_fingerprint :: string
  req_state :: request_state
  req_operation_id :: "string option"
  req_response_json :: "string option"
  req_error_code :: "string option"
  req_error_message_key :: "string option"
  req_created_at :: time
  req_committed_at :: time

datatype operation_state = OpQueued | OpRunning | OpSucceeded | OpFailed | OpCancelled | OpRecoveryRequired

record operation_row =
  op_id :: string
  op_kind :: string
  op_state :: operation_state
  op_principal_id :: string
  op_principal_kind :: string
  op_method :: string
  op_created_at :: time
  op_updated_at :: time
  op_last_error_code :: "string option"
  op_last_error_summary :: "string option"

record tool_store =
  tool_catalog :: catalog
  tool_requests :: "request_row list"
  operations :: "operation_row list"

datatype db_failure = DbUnavailable | DbConflict

text \<open>The n-th call of a request fails if \<open>db_fails\<close> says so; a clock reading or a fresh identifier is
  also drawn by its number.  \<open>match_text\<close> is the full-text engine: the matching entries of the index,
  best first, or nothing for a query it cannot parse.\<close>

record api_env = cursor_libraries +
  api_libraries :: libraries
  db_fails :: "nat \<Rightarrow> bool"
  clock_at :: "nat \<Rightarrow> time"
  uuid_at :: "nat \<Rightarrow> string"
  failure_text :: "db_failure \<Rightarrow> string"
  hash_text :: "string \<Rightarrow> string"
  canonical_text :: "millis \<Rightarrow> string"
  match_text :: "string \<Rightarrow> (string \<times> string \<times> string) list \<Rightarrow> (string \<times> string) list option"
  instance_id :: string

type_synonym 'a db = "(tool_store, db_failure, 'a) program"

definition database :: "api_env \<Rightarrow> unit db" where
  "database env = call (db_fails env) DbUnavailable"

definition query :: "api_env \<Rightarrow> (tool_store \<Rightarrow> 'a) \<Rightarrow> 'a db" where
  "query env f = chain (database env) (\<lambda>_. inspect f)"

definition execute :: "api_env \<Rightarrow> (tool_store \<Rightarrow> tool_store) \<Rightarrow> unit db" where
  "execute env f = chain (database env) (\<lambda>_. modify f)"

definition clock_now :: "api_env \<Rightarrow> (tool_store, 'e, time) program" where
  "clock_now env = chain tick (\<lambda>n. give (clock_at env n))"

definition fresh_uuid :: "api_env \<Rightarrow> (tool_store, 'e, string) program" where
  "fresh_uuid env = chain tick (\<lambda>n. give (uuid_at env n))"

subsection \<open>Claiming and committing a key\<close>

datatype IdempotencyResult = Proceed | InProgress string | SucceededWith string | FailedWith string string

text \<open>What a row is unique by.\<close>

type_synonym scope = "string \<times> u32 \<times> string \<times> string"

definition scope_of :: "request_row \<Rightarrow> scope" where
  "scope_of r = (req_contract r, req_contract_version r, req_principal_id r, req_key r)"

definition find_request :: "scope \<Rightarrow> tool_store \<Rightarrow> request_row option" where
  "find_request k s = find (\<lambda>r. scope_of r = k) (tool_requests s)"

definition or_default :: "string option \<Rightarrow> string" where
  "or_default v = (case v of None \<Rightarrow> [] | Some s \<Rightarrow> s)"

definition cached_result :: "request_row \<Rightarrow> IdempotencyResult" where
  "cached_result r = (case req_state r of
     RequestInProgress \<Rightarrow> InProgress (or_default (req_operation_id r))
   | RequestSucceeded \<Rightarrow> SucceededWith (or_default (req_response_json r))
   | RequestFailed \<Rightarrow> FailedWith (or_default (req_error_code r)) (or_default (req_error_message_key r)))"

definition insert_request :: "api_env \<Rightarrow> request_row \<Rightarrow> unit db" where
  "insert_request env row = chain (query env (find_request (scope_of row))) (\<lambda>existing.
     if existing \<noteq> None then throw DbConflict
     else modify (\<lambda>s. s\<lparr>tool_requests := tool_requests s @ [row]\<rparr>))"

definition check_or_claim ::
    "api_env \<Rightarrow> string \<Rightarrow> u32 \<Rightarrow> TrustedCallerContext \<Rightarrow> string \<Rightarrow> string \<Rightarrow> string \<Rightarrow> IdempotencyResult db" where
  "check_or_claim env contract version caller m key fingerprint =
     attempt (query env (find_request (contract, version, principal_id caller, key))) (\<lambda>r.
       case (case r of Inl _ \<Rightarrow> None | Inr existing \<Rightarrow> existing) of
         Some row \<Rightarrow> give (cached_result row)
       | None \<Rightarrow> chain (clock_now env) (\<lambda>now.
           chain (insert_request env \<lparr>req_key = key, req_contract = contract, req_contract_version = version,
             req_principal_id = principal_id caller, req_principal_kind = caller_kind_name (caller_kind caller),
             req_method = m, req_fingerprint = fingerprint, req_state = RequestInProgress,
             req_operation_id = None, req_response_json = None, req_error_code = None,
             req_error_message_key = None, req_created_at = now, req_committed_at = now\<rparr>)
             (\<lambda>_. give Proceed)))"

definition update_request :: "scope \<Rightarrow> (request_row \<Rightarrow> request_row) \<Rightarrow> tool_store \<Rightarrow> tool_store" where
  "update_request k f s = s\<lparr>tool_requests := update_where (\<lambda>r. scope_of r = k) f (tool_requests s)\<rparr>"

definition commit_success ::
    "api_env \<Rightarrow> string \<Rightarrow> u32 \<Rightarrow> string \<Rightarrow> string \<Rightarrow> string \<Rightarrow> string option \<Rightarrow> unit db" where
  "commit_success env contract version who key response_json operation_id =
     chain (clock_now env) (\<lambda>now. execute env (update_request (contract, version, who, key)
       (\<lambda>r. r\<lparr>req_state := RequestSucceeded, req_response_json := Some response_json,
         req_operation_id := operation_id, req_committed_at := now\<rparr>)))"

definition commit_failure :: "api_env \<Rightarrow> string \<Rightarrow> u32 \<Rightarrow> string \<Rightarrow> string \<Rightarrow> string \<Rightarrow> string \<Rightarrow> unit db" where
  "commit_failure env contract version who key error_code message_key =
     chain (clock_now env) (\<lambda>now. execute env (update_request (contract, version, who, key)
       (\<lambda>r. r\<lparr>req_state := RequestFailed, req_error_code := Some error_code,
         req_error_message_key := Some message_key, req_committed_at := now\<rparr>)))"
section \<open>The dispatcher: \<open>api/dispatch.rs\<close>\<close>

text \<open>
  A request is authorized, routed by its method to a handler and answered with a JSON value.  The
  reading handlers query the catalog; the mutating ones run under an idempotency key and record an
  operation.  A handler that unwraps the result of preparing a statement panics when that fails.
\<close>

datatype api_panic = Panicked

type_synonym handler = "(tool_store, api_panic, json) program"

subsection \<open>Helpers\<close>

definition text_param :: "RequestEnvelope \<Rightarrow> string \<Rightarrow> string" where
  "text_param e name = or_default (field_as value_str (json_get (env_params e) name))"

definition api_error :: "string \<Rightarrow> string \<Rightarrow> string \<Rightarrow> string \<Rightarrow> json" where
  "api_error contract rid code message = error_response contract rid (new_error code message False)"

definition limit_param :: "RequestEnvelope \<Rightarrow> u32" where
  "limit_param e = max 1 (min 50 (case field_as as_u64 (json_get (env_params e) ''limit'') of
     None \<Rightarrow> 20 | Some n \<Rightarrow> ucast n))"

definition hash_params :: "api_env \<Rightarrow> json \<Rightarrow> string" where
  "hash_params env params = hash_text env (or_default (lib_print (api_libraries env) params))"

fun job_state_name :: "AsrJobState \<Rightarrow> string" where
  "job_state_name Queued = ''queued''"
| "job_state_name BlockedModel = ''blocked_model''"
| "job_state_name Preparing = ''preparing''"
| "job_state_name Transcribing = ''transcribing''"
| "job_state_name Succeeded = ''succeeded''"
| "job_state_name Failed = ''failed''"
| "job_state_name Cancelled = ''cancelled''"

fun install_state_name :: "install_state \<Rightarrow> string" where
  "install_state_name InstalledUnqualified = ''installed_unqualified''"
| "install_state_name RuntimeQualified = ''runtime_qualified''"
| "install_state_name Deleting = ''deleting''"

fun operation_state_name :: "operation_state \<Rightarrow> string" where
  "operation_state_name OpQueued = ''queued''"
| "operation_state_name OpRunning = ''running''"
| "operation_state_name OpSucceeded = ''succeeded''"
| "operation_state_name OpFailed = ''failed''"
| "operation_state_name OpCancelled = ''cancelled''"
| "operation_state_name OpRecoveryRequired = ''recovery_required''"

subsection \<open>Summaries\<close>

text \<open>An attempt count that is no \<open>i32\<close> makes the row unreadable.\<close>

definition job_summary :: "api_env \<Rightarrow> job_row \<Rightarrow> json option" where
  "job_summary env j =
     (if job_attempt_count j < - (2 ^ 31) \<or> 2 ^ 31 \<le> job_attempt_count j then None
      else Some (to_value [(''id'', JString (job_id j)), (''session_id'', JString (job_session_id j)),
        (''chunk_id'', JString (job_chunk_id j)), (''provider'', JString (job_provider j)),
        (''model_id'', JString (job_model_id j)), (''state'', JString (job_state_name (job_state j))),
        (''attempt_count'', json_int (job_attempt_count j)), (''error_code'', json_text_option (job_error_code j)),
        (''created_at'', JString (canonical_text env (job_created_at j))),
        (''updated_at'', JString (canonical_text env (job_updated_at j)))]))"

definition model_summary :: "api_env \<Rightarrow> installation_row \<Rightarrow> json" where
  "model_summary env i = to_value [(''model_id'', JString (inst_model_id i)), (''provider'', JString (inst_provider i)),
     (''manifest_version'', JString (inst_manifest_version i)),
     (''state'', JString (install_state_name (inst_state i))),
     (''installed_at'', JString (rfc3339 env (inst_installed_at i))),
     (''qualified_at'', json_text_option (map_option (rfc3339 env) (inst_qualified_at i)))]"

definition operation_summary :: "api_env \<Rightarrow> operation_row \<Rightarrow> json" where
  "operation_summary env r = to_value [(''id'', JString (op_id r)), (''kind'', JString (op_kind r)),
     (''state'', JString (operation_state_name (op_state r))), (''method'', JString (op_method r)),
     (''created_at'', JString (rfc3339 env (op_created_at r))), (''updated_at'', JString (rfc3339 env (op_updated_at r))),
     (''last_error_code'', json_text_option (op_last_error_code r)),
     (''last_error_summary'', json_text_option (op_last_error_summary r))]"

definition segment_summary :: "TranscriptSegment \<Rightarrow> json" where
  "segment_summary s = to_value [(''segment_id'', JString (segment_id s)), (''revision_id'', JString ''''),
     (''start_ms'', json_int (segment_start_ms s)), (''end_ms'', json_int (segment_end_ms s)),
     (''text'', JString (segment_text s))]"

definition evidence_ref :: "string \<Rightarrow> string \<Rightarrow> string \<Rightarrow> json \<Rightarrow> json" where
  "evidence_ref intent state disposition metadata = to_value [(''intent_id'', JString intent), (''state'', JString state),
     (''disposition'', JString disposition), (''expires_at'', JString ''2099-01-01T00:00:00Z''),
     (''display_metadata'', metadata)]"

definition metadata_param :: "RequestEnvelope \<Rightarrow> json" where
  "metadata_param e = json_value_option (json_get (env_params e) ''display_metadata'')"

subsection \<open>Fixed answers\<close>

definition handle_get_capabilities :: "string \<Rightarrow> string \<Rightarrow> json" where
  "handle_get_capabilities contract rid = success_response contract rid (to_value
     [(''contract'', JString AGENT_CONTRACT), (''contract_version'', json_u32 CONTRACT_VERSION),
      (''capabilities'', JArray [JString ''agent_read'', JString ''agent_evidence'', JString ''operation_read'']),
      (''unsupported_capabilities'', JArray [to_value [(''capability'', JString ''native_capture''),
        (''reason'', JString ''native capture requires ScreenCaptureKit + AVAudioEngine milestone''),
        (''available_at_milestone'', JString ''native_capture'')]])])"

definition handle_get_capture_status :: "string \<Rightarrow> string \<Rightarrow> json" where
  "handle_get_capture_status contract rid = success_response contract rid (to_value
     [(''active'', JBool False), (''capability'', JString ''unsupported_capability''),
      (''state'', JString ''unsupported'')])"

definition handle_start_capture :: "string \<Rightarrow> string \<Rightarrow> json" where
  "handle_start_capture contract rid = error_response contract rid (unsupported_capability ''native_capture'')"

definition handle_stop_capture :: "string \<Rightarrow> string \<Rightarrow> json" where
  "handle_stop_capture contract rid = error_response contract rid (unsupported_capability ''native_capture'')"

definition handle_open_evidence :: "RequestEnvelope \<Rightarrow> TrustedCallerContext \<Rightarrow> string \<Rightarrow> string \<Rightarrow> json" where
  "handle_open_evidence e caller contract rid =
     (if caller_kind caller \<noteq> TauriUi
        then api_error contract rid E_UNSUPPORTED_CAPABILITY ''open_evidence requires Tauri UI caller''
      else if text_param e ''intent_id'' = [] then api_error contract rid ''invalid_request'' ''intent_id is required''
      else success_response contract rid (evidence_ref (text_param e ''intent_id'') ''consumed'' ''opened''
        (metadata_param e)))"

definition handle_stub :: "string \<Rightarrow> string \<Rightarrow> string \<Rightarrow> string \<Rightarrow> json" where
  "handle_stub contract rid m reason = error_response contract rid
     (with_details (to_value [(''method'', JString m)]) (new_error ''not_implemented'' reason False))"

subsection \<open>Reading handlers\<close>

definition handle_get_asr_job_status :: "api_env \<Rightarrow> RequestEnvelope \<Rightarrow> string \<Rightarrow> string \<Rightarrow> handler" where
  "handle_get_asr_job_status env e contract rid =
     (if text_param e ''job_id'' = [] then give (api_error contract rid ''invalid_request'' ''job_id is required'')
      else attempt (query env (\<lambda>s. find_job (text_param e ''job_id'') (tool_catalog s))) (\<lambda>r.
        give (case (case r of Inl _ \<Rightarrow> None | Inr j \<Rightarrow> Option.bind j (job_summary env)) of
          Some v \<Rightarrow> success_response contract rid v
        | None \<Rightarrow> api_error contract rid ''job_not_found'' ''job not found'')))"

text \<open>\<open>Catalog::search_segments\<close>: the matching index entries joined with their segments.\<close>

definition search_segments :: "api_env \<Rightarrow> string \<Rightarrow> catalog \<Rightarrow> TranscriptSegment list option" where
  "search_segments env q cat = map_option (\<lambda>hits. concat (map (\<lambda>(i, v).
       map (\<lambda>r. (segment_from_row r)\<lparr>segment_chunk_id := None, segment_chunk_start_ms := None,
           segment_chunk_end_ms := None\<rparr>)
         (filter (\<lambda>r. seg_id r = i \<and> seg_revision_id r = v) (segments cat))) hits))
     (match_text env q (segment_search cat))"

definition search_answer :: "api_env \<Rightarrow> TrustedCallerContext \<Rightarrow> string \<Rightarrow> string \<Rightarrow> u32 \<Rightarrow> time \<Rightarrow> TranscriptSegment list \<Rightarrow> json" where
  "search_answer env caller contract rid limit now found =
     (let items = map segment_summary (take (unat limit) found);
          next_cursor = (if length items = unat limit
            then Some (encode_cursor env (new_cursor env now contract ''search_transcripts'' (principal_id caller)
              limit (instance_id env) 300)) else None)
      in success_response contract rid (to_value [(''items'', JArray items),
           (''next_cursor'', json_text_option next_cursor)]))"

definition handle_search_transcripts ::
    "api_env \<Rightarrow> RequestEnvelope \<Rightarrow> TrustedCallerContext \<Rightarrow> string \<Rightarrow> string \<Rightarrow> handler" where
  "handle_search_transcripts env e caller contract rid =
     (let q = text_param e ''query'' in
      if q = [] then give (api_error contract rid ''invalid_request'' ''query is required'')
      else chain (clock_now env) (\<lambda>now.
        if (case field_as value_str (json_get (env_params e) ''cursor'') of None \<Rightarrow> False
            | Some c \<Rightarrow> (case decode_cursor env now c contract ''search_transcripts'' (principal_id caller)
                (instance_id env) of Inl _ \<Rightarrow> True | Inr _ \<Rightarrow> False))
          then give (api_error contract rid ''invalid_cursor'' ''invalid cursor'')
        else attempt (query env (\<lambda>s. search_segments env q (tool_catalog s))) (\<lambda>r.
          case (case r of Inl _ \<Rightarrow> None | Inr found \<Rightarrow> found) of
            None \<Rightarrow> give (api_error contract rid ''internal_error'' ''search failed'')
          | Some found \<Rightarrow> chain (clock_now env) (\<lambda>now.
              give (search_answer env caller contract rid (limit_param e) now found)))))"

definition handle_get_model :: "api_env \<Rightarrow> RequestEnvelope \<Rightarrow> string \<Rightarrow> string \<Rightarrow> handler" where
  "handle_get_model env e contract rid =
     (if text_param e ''model_id'' = [] then give (api_error contract rid ''invalid_request'' ''model_id is required'')
      else attempt (query env (\<lambda>s. find (\<lambda>i. inst_model_id i = text_param e ''model_id'')
          (installations (tool_catalog s)))) (\<lambda>r.
        give (case (case r of Inl _ \<Rightarrow> None | Inr found \<Rightarrow> found) of
          Some i \<Rightarrow> success_response contract rid (model_summary env i)
        | None \<Rightarrow> api_error contract rid ''model_not_found'' ''model not found'')))"

text \<open>Preparing a list's statement is unwrapped; reading its rows is not.\<close>

definition list_handler :: "api_env \<Rightarrow> string \<Rightarrow> string \<Rightarrow> (tool_store \<Rightarrow> json list) \<Rightarrow> handler" where
  "list_handler env contract rid rows = attempt (database env) (\<lambda>prepared. case prepared of
     Inl _ \<Rightarrow> throw Panicked
   | Inr _ \<Rightarrow> attempt (query env rows) (\<lambda>r. give (case r of
       Inl _ \<Rightarrow> api_error contract rid ''internal_error'' ''list failed''
     | Inr items \<Rightarrow> success_response contract rid (JArray items))))"

definition handle_list_models :: "api_env \<Rightarrow> string \<Rightarrow> string \<Rightarrow> handler" where
  "handle_list_models env contract rid = list_handler env contract rid (\<lambda>s. map (model_summary env)
     (sort_key (\<lambda>i. (inst_provider i, inst_model_id i)) (installations (tool_catalog s))))"

definition handle_get_operation :: "api_env \<Rightarrow> RequestEnvelope \<Rightarrow> string \<Rightarrow> string \<Rightarrow> handler" where
  "handle_get_operation env e contract rid =
     (if text_param e ''operation_id'' = [] then give (api_error contract rid ''invalid_request'' ''operation_id is required'')
      else attempt (query env (\<lambda>s. find (\<lambda>r. op_id r = text_param e ''operation_id'') (operations s))) (\<lambda>r.
        give (case (case r of Inl _ \<Rightarrow> None | Inr found \<Rightarrow> found) of
          Some row \<Rightarrow> success_response contract rid (operation_summary env row)
        | None \<Rightarrow> api_error contract rid ''operation_not_found'' ''operation not found'')))"

definition handle_list_operations ::
    "api_env \<Rightarrow> RequestEnvelope \<Rightarrow> TrustedCallerContext \<Rightarrow> string \<Rightarrow> string \<Rightarrow> handler" where
  "handle_list_operations env e caller contract rid = list_handler env contract rid (\<lambda>s.
     map (operation_summary env) (take (unat (limit_param e))
       (sort_key (\<lambda>r. (- op_created_at r, op_id r))
         (filter (\<lambda>r. op_principal_id r = principal_id caller) (operations s)))))"

subsection \<open>Mutations\<close>

definition new_operation ::
    "api_env \<Rightarrow> string \<Rightarrow> time \<Rightarrow> string \<Rightarrow> string \<Rightarrow> TrustedCallerContext \<Rightarrow> operation_row" where
  "new_operation env uuid now kind m caller = \<lparr>op_id = ''op_'' @ uuid, op_kind = kind, op_state = OpQueued,
     op_principal_id = principal_id caller, op_principal_kind = caller_kind_name (caller_kind caller),
     op_method = m, op_created_at = now, op_updated_at = now, op_last_error_code = None,
     op_last_error_summary = None\<rparr>"

definition create_operation :: "api_env \<Rightarrow> string \<Rightarrow> string \<Rightarrow> TrustedCallerContext \<Rightarrow> operation_row db" where
  "create_operation env kind m caller = chain (fresh_uuid env) (\<lambda>uuid. chain (clock_now env) (\<lambda>now.
     let row = new_operation env uuid now kind m caller in
     chain (query env (\<lambda>s. op_id row \<in> set (map op_id (operations s)))) (\<lambda>known.
       if known then throw DbConflict
       else chain (modify (\<lambda>s. s\<lparr>operations := operations s @ [row]\<rparr>)) (\<lambda>_. give row))))"

type_synonym work = "(tool_store, string \<times> string, json) program"

text \<open>What a mutation does once its key is claimed.\<close>

definition queue_operation :: "api_env \<Rightarrow> string \<Rightarrow> string \<Rightarrow> TrustedCallerContext \<Rightarrow> work" where
  "queue_operation env kind m caller = attempt (create_operation env kind m caller) (\<lambda>r. case r of
     Inr row \<Rightarrow> give (operation_summary env row)
   | Inl e \<Rightarrow> throw (E_INTERNAL, ''failed to create operation: '' @ failure_text env e))"

definition finalize_mutation ::
    "api_env \<Rightarrow> string \<Rightarrow> u32 \<Rightarrow> string \<Rightarrow> TrustedCallerContext \<Rightarrow> string \<Rightarrow> (string \<times> string) + json \<Rightarrow> handler" where
  "finalize_mutation env contract version rid caller key result = (case result of
     Inr v \<Rightarrow> attempt (commit_success env contract version (principal_id caller) key
         (or_default (lib_print (api_libraries env) (JObject (success_members contract rid v)))) None)
       (\<lambda>_. give (success_response contract rid v))
   | Inl (code, message) \<Rightarrow> attempt (commit_failure env contract version (principal_id caller) key code message)
       (\<lambda>_. give (api_error contract rid code message)))"

definition mutation_flow ::
    "api_env \<Rightarrow> RequestEnvelope \<Rightarrow> TrustedCallerContext \<Rightarrow> string \<Rightarrow> string \<Rightarrow> string \<Rightarrow> string \<Rightarrow> work \<Rightarrow> handler" where
  "mutation_flow env e caller contract rid m key on_proceed =
     attempt (check_or_claim env contract (env_contract_version e) caller m key (hash_params env (env_params e))) (\<lambda>r.
       case r of
         Inl _ \<Rightarrow> give (api_error contract rid E_INTERNAL ''idempotency check failed'')
       | Inr Proceed \<Rightarrow> attempt on_proceed
           (finalize_mutation env contract (env_contract_version e) rid caller key)
       | Inr (InProgress operation_id) \<Rightarrow> give (api_error contract rid E_OPERATION_IN_PROGRESS
           (''operation '' @ operation_id @ '' is in progress''))
       | Inr (SucceededWith response_json) \<Rightarrow> give (case lib_parse (api_libraries env) response_json of
             Some v \<Rightarrow> v
           | None \<Rightarrow> api_error contract rid E_INTERNAL ''cached response corrupted'')
       | Inr (FailedWith code message_key) \<Rightarrow> give (api_error contract rid code message_key))"

text \<open>The handlers; each checks its parameters first.\<close>

definition handle_install_model :: "api_env \<Rightarrow> RequestEnvelope \<Rightarrow> TrustedCallerContext \<Rightarrow> string \<Rightarrow> string \<Rightarrow> handler" where
  "handle_install_model env e caller contract rid =
     (let key = text_param e ''idempotency_key'' in
      if text_param e ''model_id'' = [] \<or> key = []
        then give (api_error contract rid E_INVALID_REQUEST ''model_id and idempotency_key are required'')
      else mutation_flow env e caller contract rid ''install_model'' key
        (queue_operation env ''model_download'' ''install_model'' caller))"

definition handle_uninstall_model :: "api_env \<Rightarrow> RequestEnvelope \<Rightarrow> TrustedCallerContext \<Rightarrow> string \<Rightarrow> string \<Rightarrow> handler" where
  "handle_uninstall_model env e caller contract rid =
     (let key = text_param e ''idempotency_key'' in
      if text_param e ''model_id'' = [] \<or> key = []
        then give (api_error contract rid E_INVALID_REQUEST ''model_id and idempotency_key are required'')
      else mutation_flow env e caller contract rid ''uninstall_model'' key
        (queue_operation env ''model_delete'' ''uninstall_model'' caller))"

definition handle_import_audio :: "api_env \<Rightarrow> RequestEnvelope \<Rightarrow> TrustedCallerContext \<Rightarrow> string \<Rightarrow> string \<Rightarrow> handler" where
  "handle_import_audio env e caller contract rid =
     (let key = text_param e ''idempotency_key'' in
      if key = [] then give (api_error contract rid E_INVALID_REQUEST ''idempotency_key is required'')
      else mutation_flow env e caller contract rid ''import_audio'' key
        (queue_operation env ''import_audio'' ''import_audio'' caller))"

definition handle_enqueue_asr_job :: "api_env \<Rightarrow> RequestEnvelope \<Rightarrow> TrustedCallerContext \<Rightarrow> string \<Rightarrow> string \<Rightarrow> handler" where
  "handle_enqueue_asr_job env e caller contract rid =
     (let key = text_param e ''idempotency_key'' in
      if text_param e ''chunk_id'' = [] \<or> text_param e ''model_id'' = [] \<or> key = []
        then give (api_error contract rid E_INVALID_REQUEST ''chunk_id, model_id, and idempotency_key are required'')
      else mutation_flow env e caller contract rid ''enqueue_asr_job'' key
        (queue_operation env ''asr_job'' ''enqueue_asr_job'' caller))"

definition handle_retry_asr_job :: "api_env \<Rightarrow> RequestEnvelope \<Rightarrow> TrustedCallerContext \<Rightarrow> string \<Rightarrow> string \<Rightarrow> handler" where
  "handle_retry_asr_job env e caller contract rid =
     (let key = text_param e ''idempotency_key'' in
      if text_param e ''job_id'' = [] \<or> key = []
        then give (api_error contract rid E_INVALID_REQUEST ''job_id and idempotency_key are required'')
      else mutation_flow env e caller contract rid ''retry_asr_job'' key
        (queue_operation env ''asr_retry'' ''retry_asr_job'' caller))"

definition handle_cancel_asr_job :: "api_env \<Rightarrow> RequestEnvelope \<Rightarrow> TrustedCallerContext \<Rightarrow> string \<Rightarrow> string \<Rightarrow> handler" where
  "handle_cancel_asr_job env e caller contract rid =
     (let key = text_param e ''idempotency_key'' in
      if text_param e ''job_id'' = [] \<or> key = []
        then give (api_error contract rid E_INVALID_REQUEST ''job_id and idempotency_key are required'')
      else mutation_flow env e caller contract rid ''cancel_asr_job'' key
        (queue_operation env ''asr_cancel'' ''cancel_asr_job'' caller))"

definition handle_retranscribe_chunk :: "api_env \<Rightarrow> RequestEnvelope \<Rightarrow> TrustedCallerContext \<Rightarrow> string \<Rightarrow> string \<Rightarrow> handler" where
  "handle_retranscribe_chunk env e caller contract rid =
     (let key = text_param e ''idempotency_key'' in
      if text_param e ''chunk_id'' = [] \<or> text_param e ''model_id'' = [] \<or> key = []
        then give (api_error contract rid E_INVALID_REQUEST ''chunk_id, model_id, and idempotency_key are required'')
      else mutation_flow env e caller contract rid ''retranscribe_chunk'' key
        (queue_operation env ''retranscribe'' ''retranscribe_chunk'' caller))"

definition handle_resolve_evidence :: "api_env \<Rightarrow> RequestEnvelope \<Rightarrow> TrustedCallerContext \<Rightarrow> string \<Rightarrow> string \<Rightarrow> handler" where
  "handle_resolve_evidence env e caller contract rid =
     (let intent = text_param e ''intent_id''; key = text_param e ''idempotency_key'' in
      if intent = [] \<or> key = []
        then give (api_error contract rid E_INVALID_REQUEST ''intent_id and idempotency_key are required'')
      else mutation_flow env e caller contract rid ''resolve_evidence'' key
        (give (evidence_ref intent ''pending'' ''requires_consent'' (metadata_param e))))"

subsection \<open>Dispatching\<close>

definition route :: "api_env \<Rightarrow> RequestEnvelope \<Rightarrow> TrustedCallerContext \<Rightarrow> handler" where
  "route env e caller =
     (let m = env_method e; contract = env_contract e; rid = env_request_id e in
      if m = ''get_capabilities'' then give (handle_get_capabilities contract rid)
      else if m = ''get_capture_status'' then give (handle_get_capture_status contract rid)
      else if m = ''get_asr_job_status'' then handle_get_asr_job_status env e contract rid
      else if m = ''search_transcripts'' then handle_search_transcripts env e caller contract rid
      else if m = ''resolve_evidence'' then handle_resolve_evidence env e caller contract rid
      else if m = ''open_evidence'' then give (handle_open_evidence e caller contract rid)
      else if m = ''get_operation'' then handle_get_operation env e contract rid
      else if m = ''list_operations'' then handle_list_operations env e caller contract rid
      else if m = ''start_capture'' then give (handle_start_capture contract rid)
      else if m = ''stop_capture'' then give (handle_stop_capture contract rid)
      else if m = ''install_model'' then handle_install_model env e caller contract rid
      else if m = ''uninstall_model'' then handle_uninstall_model env e caller contract rid
      else if m = ''get_model'' then handle_get_model env e contract rid
      else if m = ''list_models'' then handle_list_models env contract rid
      else if m = ''import_audio'' then handle_import_audio env e caller contract rid
      else if m = ''enqueue_asr_job'' then handle_enqueue_asr_job env e caller contract rid
      else if m = ''retry_asr_job'' then handle_retry_asr_job env e caller contract rid
      else if m = ''cancel_asr_job'' then handle_cancel_asr_job env e caller contract rid
      else if m = ''retranscribe_chunk'' then handle_retranscribe_chunk env e caller contract rid
      else if m = ''list_transcript_revisions'' then give (handle_stub contract rid m ''not yet implemented'')
      else if m = ''get_transcript_revision'' then give (handle_stub contract rid m ''not yet implemented'')
      else if m = ''list_provider_receipts'' then give (handle_stub contract rid m ''not yet implemented'')
      else give (error_response contract rid (unknown_method m)))"

definition dispatch_inner :: "api_env \<Rightarrow> RequestEnvelope \<Rightarrow> TrustedCallerContext \<Rightarrow> handler" where
  "dispatch_inner env e caller = (case authorize_method (env_contract e) (env_method e) caller of
     Denied code message \<Rightarrow> give (error_response (env_contract e) (env_request_id e) (new_error code message False))
   | Allowed \<Rightarrow> route env e caller)"

definition dispatch :: "api_env \<Rightarrow> RequestEnvelope \<Rightarrow> TrustedCallerContext \<Rightarrow> (tool_store, api_panic, string) program" where
  "dispatch env e caller = chain (dispatch_inner env e caller) (\<lambda>response.
     give (case lib_print (api_libraries env) response of Some s \<Rightarrow> s
       | None \<Rightarrow> or_default (lib_print (api_libraries env)
           (error_response ''unknown'' '''' (new_error ''internal_error'' ''serialization failed'' False)))))"

end
