(* ===== verification/Dispatch_Once.thy ===== *)
theory Dispatch_Once
  imports Dispatch
begin

section \<open>What the tool interface promises\<close>

text \<open>
  Three promises hold for every schedule of database failures: a request changes nothing but its own
  caller's requests and operations, an idempotency key never starts a second operation, and - when
  the commit goes through - every later request under the key is answered like the first.
\<close>

subsection \<open>Requests under a key\<close>

definition request_scope :: "RequestEnvelope \<Rightarrow> TrustedCallerContext \<Rightarrow> scope" where
  "request_scope e caller =
     (env_contract e, env_contract_version e, principal_id caller, text_param e ''idempotency_key'')"
text \<open>The parameters a mutating method requires beside the key, and the work it does.\<close>

definition mutation_work :: "api_env \<Rightarrow> RequestEnvelope \<Rightarrow> TrustedCallerContext \<Rightarrow> (string list \<times> work) option" where
  "mutation_work env e caller = map_of
     [(''resolve_evidence'', ([''intent_id''], give (evidence_ref (text_param e ''intent_id'') ''pending''
         ''requires_consent'' (metadata_param e)))),
      (''install_model'', ([''model_id''], queue_operation env ''model_download'' ''install_model'' caller)),
      (''uninstall_model'', ([''model_id''], queue_operation env ''model_delete'' ''uninstall_model'' caller)),
      (''import_audio'', ([], queue_operation env ''import_audio'' ''import_audio'' caller)),
      (''enqueue_asr_job'', ([''chunk_id'', ''model_id''], queue_operation env ''asr_job'' ''enqueue_asr_job'' caller)),
      (''retry_asr_job'', ([''job_id''], queue_operation env ''asr_retry'' ''retry_asr_job'' caller)),
      (''cancel_asr_job'', ([''job_id''], queue_operation env ''asr_cancel'' ''cancel_asr_job'' caller)),
      (''retranscribe_chunk'', ([''chunk_id'', ''model_id''], queue_operation env ''retranscribe'' ''retranscribe_chunk'' caller))]
     (env_method e)"

text \<open>A request that runs under its key: authorized, mutating, with every parameter given.\<close>

definition runs_under_key :: "api_env \<Rightarrow> RequestEnvelope \<Rightarrow> TrustedCallerContext \<Rightarrow> work \<Rightarrow> bool" where
  "runs_under_key env e caller w \<longleftrightarrow> authorize_method (env_contract e) (env_method e) caller = Allowed \<and>
     (\<exists>names. mutation_work env e caller = Some (names, w) \<and>
        list_all (\<lambda>p. text_param e p \<noteq> []) (''idempotency_key'' # names))"

lemma route_to:
  "env_method e = ''resolve_evidence'' \<Longrightarrow> route env e caller = handle_resolve_evidence env e caller (env_contract e) (env_request_id e)"
  "env_method e = ''install_model'' \<Longrightarrow> route env e caller = handle_install_model env e caller (env_contract e) (env_request_id e)"
  "env_method e = ''uninstall_model'' \<Longrightarrow> route env e caller = handle_uninstall_model env e caller (env_contract e) (env_request_id e)"
  "env_method e = ''import_audio'' \<Longrightarrow> route env e caller = handle_import_audio env e caller (env_contract e) (env_request_id e)"
  "env_method e = ''enqueue_asr_job'' \<Longrightarrow> route env e caller = handle_enqueue_asr_job env e caller (env_contract e) (env_request_id e)"
  "env_method e = ''retry_asr_job'' \<Longrightarrow> route env e caller = handle_retry_asr_job env e caller (env_contract e) (env_request_id e)"
  "env_method e = ''cancel_asr_job'' \<Longrightarrow> route env e caller = handle_cancel_asr_job env e caller (env_contract e) (env_request_id e)"
  "env_method e = ''retranscribe_chunk'' \<Longrightarrow> route env e caller = handle_retranscribe_chunk env e caller (env_contract e) (env_request_id e)"
  by (simp_all add: route_def Let_def)

lemma route_mutation:
  assumes "mutation_work env e caller = Some (names, w)" "list_all (\<lambda>p. text_param e p \<noteq> []) (''idempotency_key'' # names)"
  shows "route env e caller = mutation_flow env e caller (env_contract e) (env_request_id e) (env_method e)
    (text_param e ''idempotency_key'') w"
  using map_of_SomeD [OF assms(1) [unfolded mutation_work_def]] assms(2)
  unfolding list.set insert_iff empty_iff prod.inject
  by (elim disjE conjE FalseE) (simp_all add: route_to Let_def handle_resolve_evidence_def handle_install_model_def
      handle_uninstall_model_def handle_import_audio_def handle_enqueue_asr_job_def handle_retry_asr_job_def
      handle_cancel_asr_job_def handle_retranscribe_chunk_def)

subsection \<open>The steps of a mutation\<close>

lemmas db_runs = query_def execute_def database_def call_def chain_def attempt_def tick_def give_def throw_def
  inspect_def modify_def clock_now_def fresh_uuid_def

definition claimed_row :: "string \<Rightarrow> TrustedCallerContext \<Rightarrow> string \<Rightarrow> u32 \<Rightarrow> string \<Rightarrow> string \<Rightarrow> time \<Rightarrow> request_row" where
  "claimed_row contract caller key version m fingerprint now = \<lparr>req_key = key, req_contract = contract,
     req_contract_version = version, req_principal_id = principal_id caller,
     req_principal_kind = caller_kind_name (caller_kind caller), req_method = m, req_fingerprint = fingerprint,
     req_state = RequestInProgress, req_operation_id = None, req_response_json = None, req_error_code = None,
     req_error_message_key = None, req_created_at = now, req_committed_at = now\<rparr>"

lemma scope_claimed_row [simp]: "scope_of (claimed_row contract caller key version m fingerprint now) =
    (contract, version, principal_id caller, key)"
  by (simp add: scope_of_def claimed_row_def)

definition with_request :: "request_row \<Rightarrow> tool_store \<Rightarrow> tool_store" where
  "with_request row s = s\<lparr>tool_requests := tool_requests s @ [row]\<rparr>"

lemma check_known:
  assumes "check_or_claim env contract version caller m key fingerprint n s = (r, n', s')"
    and "find_request (contract, version, principal_id caller, key) s = Some row"
  shows "s' = s \<and> (r = Inr (cached_result row) \<or> (\<exists>e. r = Inl e) \<and> (\<exists>i. db_fails env i))"
  using assms
  by (auto simp: check_or_claim_def insert_request_def scope_of_def db_runs split: if_splits prod.splits)

lemma check_unknown:
  assumes "check_or_claim env contract version caller m key fingerprint n s = (r, n', s')"
    and "find_request (contract, version, principal_id caller, key) s = None"
  shows "(\<exists>e i. r = Inl e \<and> s' = s \<and> db_fails env i) \<or>
    (\<exists>now. r = Inr Proceed \<and> s' = with_request (claimed_row contract caller key version m fingerprint now) s)"
  using assms
  by (auto simp: check_or_claim_def insert_request_def scope_of_def db_runs with_request_def claimed_row_def
      split: if_splits prod.splits)

lemma find_with_request:
  "find_request k (with_request row s) =
     (case find_request k s of Some r \<Rightarrow> Some r | None \<Rightarrow> if scope_of row = k then Some row else None)"
  by (simp add: find_request_def with_request_def find_append split: option.split)

lemma find_update_request:
  assumes "\<And>r. scope_of (f r) = scope_of r"
  shows "find_request k (update_request k' f s) =
    (if k = k' then map_option f (find_request k s) else find_request k s)"
proof -
  have "find (\<lambda>r. scope_of r = k) (update_where (\<lambda>r. scope_of r = k') f rows) =
      (if k = k' then map_option f (find (\<lambda>r. scope_of r = k) rows) else find (\<lambda>r. scope_of r = k) rows)" for rows
    by (induction rows) (auto simp: assms)
  then show ?thesis by (simp add: find_request_def update_request_def)
qed

text \<open>How a finished mutation is written into its row.\<close>

definition settled_row :: "api_env \<Rightarrow> string \<Rightarrow> string \<Rightarrow> (string \<times> string) + json \<Rightarrow> time \<Rightarrow> request_row \<Rightarrow> request_row" where
  "settled_row env contract rid result now r = (case result of
     Inr v \<Rightarrow> r\<lparr>req_state := RequestSucceeded,
       req_response_json := Some (or_default (lib_print (api_libraries env) (JObject (success_members contract rid v)))),
       req_operation_id := None, req_committed_at := now\<rparr>
   | Inl (code, message) \<Rightarrow> r\<lparr>req_state := RequestFailed, req_error_code := Some code,
       req_error_message_key := Some message, req_committed_at := now\<rparr>)"

lemma scope_settled_row [simp]: "scope_of (settled_row env contract rid result now r) = scope_of r"
  by (simp add: settled_row_def scope_of_def split: sum.split prod.split)

definition direct_answer :: "string \<Rightarrow> string \<Rightarrow> (string \<times> string) + json \<Rightarrow> json" where
  "direct_answer contract rid result = (case result of
     Inr v \<Rightarrow> success_response contract rid v | Inl (code, message) \<Rightarrow> api_error contract rid code message)"

lemma finalize_run:
  assumes "finalize_mutation env contract version rid caller key result n s = (r, n', s')"
  shows "r = Inr (direct_answer contract rid result) \<and>
    ((\<exists>i. db_fails env i) \<and> s' = s \<or>
     (\<exists>now. s' = update_request (contract, version, principal_id caller, key) (settled_row env contract rid result now) s))"
  using assms
  by (cases result) (auto simp: finalize_mutation_def commit_success_def commit_failure_def db_runs direct_answer_def
      settled_row_def [abs_def] split: if_splits prod.splits)

definition cached_answer :: "api_env \<Rightarrow> string \<Rightarrow> string \<Rightarrow> IdempotencyResult \<Rightarrow> json" where
  "cached_answer env contract rid r = (case r of
     InProgress operation_id \<Rightarrow> api_error contract rid E_OPERATION_IN_PROGRESS
       (''operation '' @ operation_id @ '' is in progress'')
   | SucceededWith response_json \<Rightarrow> (case lib_parse (api_libraries env) response_json of
       Some v \<Rightarrow> v | None \<Rightarrow> api_error contract rid E_INTERNAL ''cached response corrupted'')
   | FailedWith code message_key \<Rightarrow> api_error contract rid code message_key
   | Proceed \<Rightarrow> JNull)"

lemma not_proceed: "cached_result row \<noteq> Proceed"
  by (simp add: cached_result_def split: request_state.split)

lemma mutation_known:
  assumes run: "mutation_flow env e caller contract rid m key w n s = (r, n', s')"
    and row: "find_request (contract, env_contract_version e, principal_id caller, key) s = Some row"
  shows "s' = s \<and> (r = Inr (cached_answer env contract rid (cached_result row)) \<or>
    r = Inr (api_error contract rid E_INTERNAL ''idempotency check failed'') \<and> (\<exists>i. db_fails env i))"
proof -
  obtain q n1 s1 where c: "check_or_claim env contract (env_contract_version e) caller m key
      (hash_params env (env_params e)) n s = (q, n1, s1)" by (metis prod_cases3)
  from check_known [OF c row] run c show ?thesis
    by (cases "cached_result row")
      (auto simp: mutation_flow_def attempt_def give_def cached_answer_def not_proceed [of row, symmetric] not_proceed)
qed

definition work_step :: "TrustedCallerContext \<Rightarrow> tool_store \<Rightarrow> tool_store \<Rightarrow> bool" where
  "work_step caller s s' \<longleftrightarrow> tool_requests s' = tool_requests s \<and> tool_catalog s' = tool_catalog s \<and>
     (operations s' = operations s \<or> (\<exists>row. operations s' = operations s @ [row] \<and> op_principal_id row = principal_id caller))"

lemma queue_operation_step: "evolves (work_step caller) (queue_operation env kind m caller)"
  unfolding evolves_def
  by (auto simp: queue_operation_def create_operation_def new_operation_def db_runs work_step_def Let_def)

lemma give_step: "evolves (work_step caller) (give v)"
  by (simp add: evolves_def give_def work_step_def)

lemma mutation_work_step:
  assumes "mutation_work env e caller = Some (names, w)"
  shows "evolves (work_step caller) w"
  using map_of_SomeD [OF assms [unfolded mutation_work_def]]
  unfolding list.set insert_iff empty_iff prod.inject
  by (elim disjE conjE FalseE) (simp_all add: queue_operation_step give_step)

lemma mutation_unknown:
  assumes run: "mutation_flow env e caller contract rid m key w n s = (r, n', s')"
    and none: "find_request (contract, env_contract_version e, principal_id caller, key) s = None"
  shows "(\<exists>i. db_fails env i) \<and> s' = s \<and> r = Inr (api_error contract rid E_INTERNAL ''idempotency check failed'') \<or>
    (\<exists>now n1 result n2 s2 t. w n1 (with_request (claimed_row contract caller key (env_contract_version e) m
        (hash_params env (env_params e)) now) s) = (result, n2, s2) \<and> r = Inr (direct_answer contract rid result) \<and>
      (s' = update_request (contract, env_contract_version e, principal_id caller, key)
         (settled_row env contract rid result t) s2 \<or> s' = s2 \<and> (\<exists>i. db_fails env i)))"
proof -
  obtain q n1 s1 where c: "check_or_claim env contract (env_contract_version e) caller m key
      (hash_params env (env_params e)) n s = (q, n1, s1)" by (metis prod_cases3)
  from check_unknown [OF c none] show ?thesis
  proof
    assume "\<exists>e i. q = Inl e \<and> s1 = s \<and> db_fails env i"
    with run c show ?thesis by (auto simp: mutation_flow_def attempt_def give_def)
  next
    assume "\<exists>now. q = Inr Proceed \<and> s1 = with_request (claimed_row contract caller key (env_contract_version e) m
        (hash_params env (env_params e)) now) s"
    then obtain now where q: "q = Inr Proceed" and s1: "s1 = with_request (claimed_row contract caller key
        (env_contract_version e) m (hash_params env (env_params e)) now) s" by blast
    obtain result n2 s2 where w: "w n1 s1 = (result, n2, s2)" by (metis prod_cases3)
    have "finalize_mutation env contract (env_contract_version e) rid caller key result n2 s2 = (r, n', s')"
      using run by (simp add: mutation_flow_def attempt_def c q w)
    from finalize_run [OF this] w s1 show ?thesis by blast
  qed
qed

subsection \<open>Requests that change nothing\<close>

interpretation unchanged: state_order "\<lambda>s s'. s' = s"
  by unfold_locales auto

lemma evolves_if: "(b \<Longrightarrow> evolves R x) \<Longrightarrow> (\<not> b \<Longrightarrow> evolves R y) \<Longrightarrow> evolves R (if b then x else y)"
  by simp

lemma query_reads: "evolves (\<lambda>s s'. s' = s) (query env f)"
  unfolding query_def database_def by (intro unchanged.evolves_chain unchanged.evolves_basic)

lemma clock_reads: "evolves (\<lambda>s s'. s' = s) (clock_now env)"
  unfolding clock_now_def by (intro unchanged.evolves_chain unchanged.evolves_basic)

lemma list_reads: "evolves (\<lambda>s s'. s' = s) (list_handler env contract rid rows)"
  unfolding list_handler_def database_def
  by (intro unchanged.evolves_attempt unchanged.evolves_basic)
    (auto intro!: unchanged.evolves_attempt unchanged.evolves_basic query_reads split: sum.split)

lemma search_reads: "evolves (\<lambda>s s'. s' = s) (handle_search_transcripts env e caller contract rid)"
  unfolding handle_search_transcripts_def Let_def
  by (intro evolves_if unchanged.evolves_chain unchanged.evolves_attempt unchanged.evolves_basic clock_reads query_reads)
    (auto intro!: unchanged.evolves_chain unchanged.evolves_basic clock_reads split: option.split)

lemma readers_read:
  "evolves (\<lambda>s s'. s' = s) (handle_get_asr_job_status env e contract rid)"
  "evolves (\<lambda>s s'. s' = s) (handle_get_model env e contract rid)"
  "evolves (\<lambda>s s'. s' = s) (handle_get_operation env e contract rid)"
  unfolding handle_get_asr_job_status_def handle_get_model_def handle_get_operation_def
  by (intro evolves_if unchanged.evolves_attempt unchanged.evolves_basic query_reads)+

lemma route_other:
  assumes "mutation_work env e caller = None"
  shows "evolves (\<lambda>s s'. s' = s) (route env e caller)"
proof -
  have "env_method e \<notin> {''resolve_evidence'', ''install_model'', ''uninstall_model'', ''import_audio'',
      ''enqueue_asr_job'', ''retry_asr_job'', ''cancel_asr_job'', ''retranscribe_chunk''}"
    using assms by (auto simp: mutation_work_def map_of_eq_None_iff)
  then have "env_method e \<noteq> ''resolve_evidence''" "env_method e \<noteq> ''install_model''" "env_method e \<noteq> ''uninstall_model''"
    "env_method e \<noteq> ''import_audio''" "env_method e \<noteq> ''enqueue_asr_job''" "env_method e \<noteq> ''retry_asr_job''"
    "env_method e \<noteq> ''cancel_asr_job''" "env_method e \<noteq> ''retranscribe_chunk''" by blast+
  then show ?thesis
    unfolding route_def Let_def handle_list_models_def handle_list_operations_def
    by (simp only: if_False) (intro evolves_if unchanged.evolves_give list_reads search_reads readers_read)
qed

lemma route_incomplete:
  assumes "mutation_work env e caller = Some (names, w)"
    and "\<not> list_all (\<lambda>p. text_param e p \<noteq> []) (''idempotency_key'' # names)"
  shows "\<exists>v. route env e caller = give v"
  using map_of_SomeD [OF assms(1) [unfolded mutation_work_def]] assms(2)
  unfolding list.set insert_iff empty_iff prod.inject
  by (elim disjE conjE FalseE) (simp_all add: route_to Let_def handle_resolve_evidence_def handle_install_model_def
      handle_uninstall_model_def handle_import_audio_def handle_enqueue_asr_job_def handle_retry_asr_job_def
      handle_cancel_asr_job_def handle_retranscribe_chunk_def, blast+)

lemma dispatch_denied:
  assumes "authorize_method (env_contract e) (env_method e) caller = Denied code message"
  shows "dispatch_inner env e caller n s =
    (Inr (api_error (env_contract e) (env_request_id e) code message), n, s)"
  using assms by (simp add: dispatch_inner_def give_def api_error_def)

lemma dispatch_elsewhere:
  assumes run: "dispatch_inner env e caller n s = (r, n', s')" and no: "\<nexists>w. runs_under_key env e caller w"
  shows "s' = s"
proof (cases "authorize_method (env_contract e) (env_method e) caller")
  case (Denied code message)
  from dispatch_denied [OF this] run show ?thesis by simp
next
  case Allowed
  then have run: "route env e caller n s = (r, n', s')" using run by (simp add: dispatch_inner_def)
  show ?thesis
  proof (cases "mutation_work env e caller")
    case None
    from evolvesD [OF route_other [OF None] run] show ?thesis .
  next
    case (Some p)
    then obtain names w where w: "mutation_work env e caller = Some (names, w)" by (cases p) simp
    with no Allowed have "\<not> list_all (\<lambda>p. text_param e p \<noteq> []) (''idempotency_key'' # names)"
      unfolding runs_under_key_def by blast
    from route_incomplete [OF w this] run show ?thesis by (auto simp: give_def)
  qed
qed

lemma dispatch_mutation:
  assumes "runs_under_key env e caller w"
  shows "dispatch_inner env e caller = mutation_flow env e caller (env_contract e) (env_request_id e) (env_method e)
      (text_param e ''idempotency_key'') w" "evolves (work_step caller) w"
  using assms route_mutation mutation_work_step by (auto simp: runs_under_key_def dispatch_inner_def)

subsection \<open>One operation per key\<close>

text \<open>A request and what it may do to the store.\<close>

definition request_step :: "scope \<Rightarrow> string \<Rightarrow> tool_store \<Rightarrow> tool_store \<Rightarrow> bool" where
  "request_step k who s s' \<longleftrightarrow> tool_catalog s' = tool_catalog s \<and>
     (\<forall>j. j \<noteq> k \<longrightarrow> find_request j s' = find_request j s) \<and>
     (s' = s \<or> find_request k s = None \<and> find_request k s' \<noteq> None \<and>
       (operations s' = operations s \<or> (\<exists>row. operations s' = operations s @ [row] \<and> op_principal_id row = who)))"

lemma update_request_rest:
  "tool_catalog (update_request k f s) = tool_catalog s" "operations (update_request k f s) = operations s"
  "tool_catalog (with_request row s) = tool_catalog s" "operations (with_request row s) = operations s"
  by (simp_all add: update_request_def with_request_def)

lemma find_request_same: "tool_requests s' = tool_requests s \<Longrightarrow> find_request k s' = find_request k s"
  by (simp add: find_request_def)

lemma claimed_then_worked:
  assumes "work_step caller (with_request row s) s2" "scope_of row = k" "find_request k s = None"
  shows "find_request j s2 = (if j = k then Some row else find_request j s)" "tool_catalog s2 = tool_catalog s"
    "operations s2 = operations s \<or> (\<exists>op. operations s2 = operations s @ [op] \<and> op_principal_id op = principal_id caller)"
proof -
  have after: "find_request j s2 = find_request j (with_request row s)"
    by (rule find_request_same) (use assms(1) in \<open>simp add: work_step_def\<close>)
  show "find_request j s2 = (if j = k then Some row else find_request j s)"
    unfolding after find_with_request using assms(2,3) by (cases "find_request j s") auto
  show "tool_catalog s2 = tool_catalog s"
    "operations s2 = operations s \<or> (\<exists>op. operations s2 = operations s @ [op] \<and> op_principal_id op = principal_id caller)"
    using assms(1) unfolding work_step_def update_request_rest by blast+
qed

lemma mutation_step:
  assumes run: "mutation_flow env e caller contract rid m key w n s = (r, n', s')" and w: "evolves (work_step caller) w"
  shows "request_step (contract, env_contract_version e, principal_id caller, key) (principal_id caller) s s'"
proof -
  let ?k = "(contract, env_contract_version e, principal_id caller, key)"
  show ?thesis
  proof (cases "find_request ?k s")
    case (Some row)
    from mutation_known [OF run Some] show ?thesis by (simp add: request_step_def)
  next
    case None
    let ?row = "claimed_row contract caller key (env_contract_version e) m (hash_params env (env_params e))"
    from mutation_unknown [OF run None] show ?thesis
    proof
      assume "(\<exists>i. db_fails env i) \<and> s' = s \<and> r = Inr (api_error contract rid E_INTERNAL ''idempotency check failed'')"
      then show ?thesis by (simp add: request_step_def)
    next
      assume "\<exists>now n1 result n2 s2 t. w n1 (with_request (?row now) s) = (result, n2, s2) \<and>
        r = Inr (direct_answer contract rid result) \<and>
        (s' = update_request ?k (settled_row env contract rid result t) s2 \<or> s' = s2 \<and> (\<exists>i. db_fails env i))"
      then show ?thesis
      proof (elim exE conjE)
      fix now n1 result n2 s2 t
      assume run_w: "w n1 (with_request (?row now) s) = (result, n2, s2)"
        and "s' = update_request ?k (settled_row env contract rid result t) s2 \<or> s' = s2 \<and> (\<exists>i. db_fails env i)"
      then have s': "s' = update_request ?k (settled_row env contract rid result t) s2 \<or> s' = s2" by blast
      note worked = claimed_then_worked [OF evolvesD [OF w run_w] scope_claimed_row None]
      have "tool_catalog s' = tool_catalog s" "operations s' = operations s2"
        using s' worked(2) by (auto simp: update_request_rest)
      moreover have "find_request j s' = (if j = ?k then find_request ?k s' else find_request j s)" for j
        using s' worked(1) [of j] by (cases "j = ?k") (auto simp: find_update_request)
      moreover have "find_request ?k s' \<noteq> None" using s' worked(1) [of ?k] by (auto simp: find_update_request)
      ultimately show ?thesis using worked(3) None unfolding request_step_def by metis
      qed
    qed
  qed
qed

lemma dispatch_step:
  assumes "dispatch_inner env e caller n s = (r, n', s')"
  shows "request_step (request_scope e caller) (principal_id caller) s s'"
proof (cases "\<exists>w. runs_under_key env e caller w")
  case True
  then obtain w where w: "runs_under_key env e caller w" by blast
  from mutation_step [OF _ dispatch_mutation(2) [OF w]] assms dispatch_mutation(1) [OF w] show ?thesis
    by (simp add: request_scope_def)
next
  case False
  from dispatch_elsewhere [OF assms False] show ?thesis by (simp add: request_step_def)
qed

text \<open>A sequence of requests; the calls they make are numbered throughout.\<close>

definition serve_one :: "api_env \<Rightarrow> nat \<times> tool_store \<Rightarrow> RequestEnvelope \<times> TrustedCallerContext \<Rightarrow> nat \<times> tool_store" where
  "serve_one env st q = snd (dispatch_inner env (fst q) (snd q) (fst st) (snd st))"

fun operations_under ::
    "api_env \<Rightarrow> scope \<Rightarrow> (RequestEnvelope \<times> TrustedCallerContext) list \<Rightarrow> nat \<times> tool_store \<Rightarrow> nat" where
  "operations_under env k [] st = 0"
| "operations_under env k (q # qs) st =
     (if request_scope (fst q) (snd q) = k
        then length (operations (snd (serve_one env st q))) - length (operations (snd st)) else 0) +
     operations_under env k qs (serve_one env st q)"

lemma serve_one_step: "request_step (request_scope (fst q) (snd q)) (principal_id (snd q)) (snd st) (snd (serve_one env st q))"
proof -
  obtain r n' s' where run: "dispatch_inner env (fst q) (snd q) (fst st) (snd st) = (r, n', s')" by (metis prod_cases3)
  from dispatch_step [OF run] show ?thesis by (simp add: serve_one_def run)
qed

text \<open>
  C8: An idempotency key starts at most one operation.  Whatever requests are served, from whomever,
  in whatever order, and whichever database calls fail on the way: all the requests that carry one key
  of one principal under one contract and version create at most one operation between them, and none
  if the key was known before.
\<close>

theorem at_most_one_operation:
  "operations_under env k qs (n, s) \<le> (if find_request k s = None then 1 else 0)"
proof (induction qs arbitrary: n s)
  case (Cons q qs)
  obtain n' s' where st: "serve_one env (n, s) q = (n', s')" by force
  let ?mine = "request_scope (fst q) (snd q) = k"
  have step: "request_step (request_scope (fst q) (snd q)) (principal_id (snd q)) s s'"
    using serve_one_step [of q "(n, s)" env] by (simp add: st)
  have rest: "operations_under env k qs (n', s') \<le> (if find_request k s' = None then 1 else 0)" by (rule Cons.IH)
  have all: "operations_under env k (q # qs) (n, s) =
      (if ?mine then length (operations s') - length (operations s) else 0) + operations_under env k qs (n', s')"
    by (simp add: st)
  show ?case
  proof (cases ?mine)
    case False
    then have "find_request k s' = find_request k s" using step unfolding request_step_def by metis
    with all rest False show ?thesis by simp
  next
    case True
    have "s' = s \<or> find_request k s = None \<and> find_request k s' \<noteq> None \<and>
        length (operations s') \<le> length (operations s) + 1"
      using step unfolding request_step_def True by auto
    with all rest True show ?thesis by auto
  qed
qed simp

text \<open>
  C16: A request is confined to its caller.  Whatever the database does: the catalog is untouched;
  only a request that is authorized, mutating and complete changes anything, and then only the entry
  under its own key and principal, and at most one operation, recorded for its caller; a local agent
  never starts an operation; and a denied request is answered at once, without touching the database.
\<close>

theorem requests_are_confined:
  assumes run: "dispatch_inner env e caller n s = (r, n', s')"
  shows "tool_catalog s' = tool_catalog s \<and>
    (s' \<noteq> s \<longrightarrow> (\<exists>w. runs_under_key env e caller w)) \<and>
    (\<forall>k. k \<noteq> request_scope e caller \<longrightarrow> find_request k s' = find_request k s) \<and>
    (operations s' = operations s \<or> caller_kind caller \<noteq> LocalAgent \<and>
       required_capability (env_method e) \<in> set (caller_capabilities caller) \<and>
       (\<exists>row. operations s' = operations s @ [row] \<and> op_principal_id row = principal_id caller)) \<and>
    (\<forall>code message. authorize_method (env_contract e) (env_method e) caller = Denied code message \<longrightarrow>
       r = Inr (api_error (env_contract e) (env_request_id e) code message) \<and> n' = n \<and> s' = s)"
proof -
  have step: "request_step (request_scope e caller) (principal_id caller) s s'" by (rule dispatch_step [OF run])
  have ops: "caller_kind caller \<noteq> LocalAgent \<and> required_capability (env_method e) \<in> set (caller_capabilities caller)"
    if "operations s' \<noteq> operations s"
  proof -
    have "s' \<noteq> s" using that by auto
    then obtain w where w: "runs_under_key env e caller w" using dispatch_elsewhere [OF run] by blast
    then have auth: "authorize_method (env_contract e) (env_method e) caller = Allowed" by (simp add: runs_under_key_def)
    have "caller_kind caller \<noteq> LocalAgent"
    proof
      assume agent: "caller_kind caller = LocalAgent"
      then have "env_method e \<in> set AGENT_METHODS" by (rule agent_allowed [OF auth])
      then have "env_method e = ''resolve_evidence''" "w = give (evidence_ref (text_param e ''intent_id'') ''pending''
          ''requires_consent'' (metadata_param e))"
        using w by (auto simp: runs_under_key_def mutation_work_def AGENT_METHODS_def split: if_splits)
      then have same: "evolves (\<lambda>s s'. operations s' = operations s) w" by (simp add: evolves_def give_def)
      note run = run [unfolded dispatch_mutation(1) [OF w]]
      have "operations s' = operations s"
      proof (cases "find_request (request_scope e caller) s")
        case (Some row)
        from mutation_known [OF run Some [unfolded request_scope_def]] show ?thesis by blast
      next
        case None
        from mutation_unknown [OF run None [unfolded request_scope_def]] show ?thesis
          using evolvesD [OF same] by (fastforce simp: update_request_rest)
      qed
      with that show False by simp
    qed
    with auth show ?thesis by (simp add: authorize_iff)
  qed
  show ?thesis
  proof (intro conjI)
    show "s' \<noteq> s \<longrightarrow> (\<exists>w. runs_under_key env e caller w)" using dispatch_elsewhere [OF run] by blast
    show "\<forall>code message. authorize_method (env_contract e) (env_method e) caller = Denied code message \<longrightarrow>
       r = Inr (api_error (env_contract e) (env_request_id e) code message) \<and> n' = n \<and> s' = s"
      using dispatch_denied run by auto
  qed (use step ops in \<open>auto simp: request_step_def\<close>)
qed

subsection \<open>A cache of outcomes\<close>

text \<open>What the table promises, without rows or calls: a map from keys to outcomes that answers a known
  key from its entry and enters the outcome of a new one.\<close>

type_synonym cache = "scope \<Rightarrow> IdempotencyResult option"

definition once :: "scope \<Rightarrow> IdempotencyResult \<Rightarrow> cache \<Rightarrow> IdempotencyResult \<times> cache" where
  "once k fresh c = (case c k of Some known \<Rightarrow> (known, c) | None \<Rightarrow> (fresh, c(k \<mapsto> fresh)))"

definition cache_of :: "tool_store \<Rightarrow> cache" where
  "cache_of s = (\<lambda>k. map_option cached_result (find_request k s))"

definition outcome_of :: "api_env \<Rightarrow> string \<Rightarrow> string \<Rightarrow> (string \<times> string) + json \<Rightarrow> IdempotencyResult" where
  "outcome_of env contract rid result = (case result of
     Inr v \<Rightarrow> SucceededWith (or_default (lib_print (api_libraries env) (JObject (success_members contract rid v))))
   | Inl (code, message) \<Rightarrow> FailedWith code message)"

lemma settled_outcome: "cached_result (settled_row env contract rid result t row) = outcome_of env contract rid result"
  by (simp add: settled_row_def outcome_of_def cached_result_def or_default_def split: sum.split prod.split)

text \<open>What printing a response and parsing it again gives, as the JSON library documents.\<close>

definition response_reads_back :: "api_env \<Rightarrow> string \<Rightarrow> string \<Rightarrow> json \<Rightarrow> bool" where
  "response_reads_back env contract rid v \<longleftrightarrow>
     (case lib_print (api_libraries env) (JObject (success_members contract rid v)) of
        None \<Rightarrow> False | Some t \<Rightarrow> lib_parse (api_libraries env) t = Some (success_response contract rid v))"

lemma outcome_answer:
  assumes "\<And>v. result = Inr v \<Longrightarrow> response_reads_back env contract rid v"
  shows "cached_answer env contract rid (outcome_of env contract rid result) = direct_answer contract rid result"
  using assms by (auto simp: cached_answer_def outcome_of_def direct_answer_def response_reads_back_def or_default_def
      split: sum.splits prod.splits option.splits)


text \<open>Two limits of the interface, as it is built.  A key is looked up without the method or the
  fingerprint of the request, so a second request under it - another method, other parameters - gets
  the first one's answer.\<close>

lemma key_answers_any_method:
  assumes "\<not> (\<exists>i. db_fails env i)" "runs_under_key env e caller w"
    and "find_request (request_scope e caller) s = Some row" "req_method row \<noteq> env_method e"
    and "req_fingerprint row \<noteq> hash_params env (env_params e)"
  shows "fst (dispatch_inner env e caller n s) =
    Inr (cached_answer env (env_contract e) (env_request_id e) (cached_result row))"
proof -
  obtain r n' s' where run: "dispatch_inner env e caller n s = (r, n', s')" by (metis prod_cases3)
  from mutation_known [OF run [unfolded dispatch_mutation(1) [OF assms(2)]] assms(3) [unfolded request_scope_def]]
  show ?thesis using assms(1) run by auto
qed

text \<open>And a page fetched with the cursor of the page before has the same items.\<close>

definition search_page :: "api_env \<Rightarrow> RequestEnvelope \<Rightarrow> TranscriptSegment list \<Rightarrow> json list" where
  "search_page env e found = map segment_summary (take (unat (limit_param e)) found)"

definition response_items :: "json \<Rightarrow> json option" where
  "response_items v = Option.bind (json_get v ''result'') (\<lambda>result. json_get result ''items'')"

lemma search_answer_items:
  "response_items (search_answer env caller contract rid (limit_param e) now found) = Some (JArray (search_page env e found))"
proof -
  have order: "''contract'' < ''contract_version''" "''contract_version'' < ''ok''" "''ok'' < ''request_id''"
    "''request_id'' < ''result''" "''items'' < ''next_cursor''" by code_simp+
  have "sort_key fst [(''contract'', a), (''contract_version'', b), (''request_id'', c), (''ok'', d), (''result'', f)] =
      [(''contract'', a), (''contract_version'', b), (''ok'', d), (''request_id'', c), (''result'', f)]"
    "sort_key fst [(''items'', a), (''next_cursor'', b)] = [(''items'', a), (''next_cursor'', b)]" for a b c d f :: json
    using order by (simp_all add: less_imp_le not_le)
  then show ?thesis
    by (simp add: response_items_def search_answer_def success_response_def success_members_def to_value_def json_get_def
        search_page_def Let_def)
qed

lemma search_repeats_page:
  assumes works: "\<not> (\<exists>i. db_fails env i)" and found: "search_segments env (text_param e ''query'') (tool_catalog s) = Some found"
    and q: "text_param e ''query'' \<noteq> []" "env_method e = ''search_transcripts''"
    and "authorize_method (env_contract e) (env_method e) caller = Allowed"
    and cursor: "\<And>c now. field_as value_str (json_get (env_params e) ''cursor'') = Some c \<Longrightarrow>
      \<exists>cur. decode_cursor env now c (env_contract e) ''search_transcripts'' (principal_id caller) (instance_id env) = Inr cur"
  shows "\<exists>v n'. dispatch_inner env e caller n s = (Inr v, n', s) \<and> response_items v = Some (JArray (search_page env e found))"
proof -
  have accepted: "\<not> (case field_as value_str (json_get (env_params e) ''cursor'') of None \<Rightarrow> False
      | Some c \<Rightarrow> (case decode_cursor env now c (env_contract e) ''search_transcripts'' (principal_id caller)
          (instance_id env) of Inl _ \<Rightarrow> True | Inr _ \<Rightarrow> False))" for now
    using cursor [of _ now] by (auto split: option.split)
  have "route env e caller = handle_search_transcripts env e caller (env_contract e) (env_request_id e)"
    using q(2) by (simp add: route_def Let_def)
  then show ?thesis
    using works assms(5) q(1) found accepted search_answer_items
    by (simp add: dispatch_inner_def handle_search_transcripts_def Let_def db_runs)
qed

subsection \<open>A small interface\<close>

definition demo_answer :: json where
  "demo_answer = success_response AGENT_CONTRACT ''r1'' (evidence_ref ''i'' ''pending'' ''requires_consent'' JNull)"

definition demo_api :: api_env where
  "demo_api = \<lparr>hex_encode = (\<lambda>s. s), hex_decode = Some, utf8_ok = (\<lambda>_. True), print_cursor = (\<lambda>_. None),
     read_cursor = (\<lambda>_. None), rfc3339 = (\<lambda>_. ''now''), parse_rfc3339 = (\<lambda>_. None),
     api_libraries = \<lparr>lib_parse = (\<lambda>_. Some demo_answer), lib_print = (\<lambda>_. Some ''json''),
       lib_canonical = (\<lambda>_. None), lib_sha256_hex = (\<lambda>s. s), lib_parse_url = (\<lambda>_. None)\<rparr>,
     db_fails = (\<lambda>_. False), clock_at = (\<lambda>_. 7), uuid_at = (\<lambda>_. ''u''), failure_text = (\<lambda>_. ''failed''),
     hash_text = (\<lambda>s. s), canonical_text = (\<lambda>_. ''then''), match_text = (\<lambda>_ _. None), instance_id = ''i''\<rparr>"

definition demo_agent :: TrustedCallerContext where
  "demo_agent = \<lparr>principal_id = ''agent-uid-501'', caller_kind = LocalAgent, caller_capabilities = agent_capabilities,
     auth_source = ''peer_uid''\<rparr>"

definition demo_ui :: TrustedCallerContext where
  "demo_ui = \<lparr>principal_id = ''tauri-pid-0'', caller_kind = TauriUi, caller_capabilities = tauri_capabilities,
     auth_source = ''peer_uid_dev''\<rparr>"

definition demo_resolve :: RequestEnvelope where
  "demo_resolve = \<lparr>env_contract = AGENT_CONTRACT, env_contract_version = 1, env_request_id = ''r1'',
     env_method = ''resolve_evidence'',
     env_params = JObject [(''idempotency_key'', JString ''k''), (''intent_id'', JString ''i'')]\<rparr>"

definition demo_install :: RequestEnvelope where
  "demo_install = \<lparr>env_contract = APPLICATION_CONTRACT, env_contract_version = 1, env_request_id = ''r2'',
     env_method = ''install_model'',
     env_params = JObject [(''idempotency_key'', JString ''k''), (''model_id'', JString ''m'')]\<rparr>"

definition empty_store :: tool_store where
  "empty_store = \<lparr>tool_catalog = empty_catalog, tool_requests = [], operations = []\<rparr>"

lemma demo_peers:
  "authenticate_peer AgentSocket 501 (Some 501) = Inr demo_agent" "authenticate_peer UiSocket 501 (Some 501) = Inr demo_ui"
  "authenticate_peer AgentSocket 501 (Some 502) = Inl PeerUidMismatch"
  by code_simp+

lemma demo_mutations:
  "runs_under_key demo_api demo_resolve demo_agent (give (evidence_ref ''i'' ''pending'' ''requires_consent'' JNull))"
  "runs_under_key demo_api demo_install demo_ui (queue_operation demo_api ''model_download'' ''install_model'' demo_ui)"
  by (auto simp: runs_under_key_def authorize_iff mutation_work_def demo_resolve_def demo_install_def demo_agent_def
      demo_ui_def AGENT_METHODS_def APPLICATION_ONLY_METHODS_def required_capability_def agent_capabilities_def
      tauri_capabilities_def text_param_def json_get_def metadata_param_def json_value_option_def or_default_def)

lemma demo_run:
  "\<exists>r n s. dispatch_inner demo_api demo_install demo_ui 0 empty_store = (r, n, s) \<and> length (operations s) = 1"
proof -
  obtain r n s where run: "dispatch_inner demo_api demo_install demo_ui 0 empty_store = (r, n, s)" by (metis prod_cases3)
  have "length (operations (snd (snd (dispatch_inner demo_api demo_install demo_ui 0 empty_store)))) = 1"
    unfolding dispatch_mutation(1) [OF demo_mutations(2)]
    by (simp add: mutation_flow_def check_or_claim_def insert_request_def
        finalize_mutation_def commit_success_def queue_operation_def create_operation_def db_runs find_request_def
        empty_store_def demo_api_def update_request_def new_operation_def Let_def)
  with run show ?thesis by simp
qed

theorem requests_are_confined_witness:
  "\<exists>r n s. dispatch_inner demo_api demo_install demo_ui 0 empty_store = (r, n, s) \<and>
     tool_catalog s = empty_catalog \<and> (\<exists>row. operations s = [row] \<and> op_principal_id row = ''tauri-pid-0'')"
proof -
  obtain r n s where run: "dispatch_inner demo_api demo_install demo_ui 0 empty_store = (r, n, s)"
    and one: "length (operations s) = 1" using demo_run by blast
  have "operations empty_store = []" "tool_catalog empty_store = empty_catalog" "principal_id demo_ui = ''tauri-pid-0''"
    by (simp_all add: empty_store_def demo_ui_def)
  moreover from this(1) one have "operations s \<noteq> operations empty_store" by auto
  ultimately show ?thesis using requests_are_confined [OF run] run by auto
qed


end
