(* ===== verification/Model_Plan.thy ===== *)
theory Model_Plan
  imports Shipped_Registry
begin

section \<open>Installation plans: \<open>asr/model_manager/types.rs\<close>, \<open>asr/model_manager/fs_support.rs\<close>\<close>

text \<open>
  What the model manager installs: a plan made from the model's manifest, with its artifacts and the
  files an installation must hold, and the checks every operation makes of a plan and of the device.
  An error is its code; the detail text is only shown.  A required file of a plan has the fields of
  the manifest's, so the record is shared, as is the qualification policy.
\<close>

subsection \<open>Types\<close>

record FullSherpaRuntimeIdentity =
  sherpa_version :: string
  sherpa_git_commit :: string
  sherpa_native_archive_sha256 :: string
  sherpa_build_id :: string

record DeviceProfile =
  profile_os :: string
  profile_arch :: string
  profile_macos_major :: u16
  profile_memory_gib :: u16
  profile_metal_available :: bool
  profile_chip :: string

record DeviceIdentity =
  device_os :: string
  device_arch :: string
  device_backend :: string
  device_index :: u16
  device_macos_major :: u16
  device_memory_gib :: u16
  device_chip :: string

text \<open>The arguments are the least system version, the least memory and the chip.\<close>

datatype plan_device = PlanAnyDesktop | PlanAppleSiliconMetal u16 u16 string

datatype InstallMode = PlanDirect | PlanExtractTarBz2

record ArtifactPlan =
  plan_artifact_id :: string
  plan_source_repository :: string
  plan_source_model :: string
  plan_url :: string
  plan_revision :: string
  plan_expected_bytes :: u64
  plan_expected_sha256 :: string
  plan_required_path :: string
  plan_install_mode :: InstallMode
  plan_redirect_hosts :: "string list"
  plan_license_spdx :: string
  plan_provenance :: string

text \<open>The fields in the order of the source; an archive begins with its root and the most entries.\<close>

datatype InstallContract =
    ArchiveContract string u64 u64 u64 "RequiredInstallFile list"
  | DirectContract u64 u64 "RequiredInstallFile list"

fun contract_files :: "InstallContract \<Rightarrow> RequiredInstallFile list" where
  "contract_files (ArchiveContract _ _ _ _ fs) = fs"
| "contract_files (DirectContract _ _ fs) = fs"

fun max_total_written_bytes :: "InstallContract \<Rightarrow> u64" where
  "max_total_written_bytes (ArchiveContract _ _ _ amount _) = amount"
| "max_total_written_bytes (DirectContract _ amount _) = amount"

fun max_written_file_bytes :: "InstallContract \<Rightarrow> u64" where
  "max_written_file_bytes (ArchiveContract _ _ largest _ _) = largest"
| "max_written_file_bytes (DirectContract largest _ _) = largest"

record ModelInstallPlan =
  plan_model_id :: string
  plan_provider :: string
  plan_manifest_version :: string
  plan_bundle_identity :: string
  plan_device :: plan_device
  plan_policy :: QualificationPolicy
  plan_runtime :: "FullSherpaRuntimeIdentity option"
  plan_artifacts :: "ArtifactPlan list"
  plan_contract :: InstallContract

type_synonym manager_code = string

definition INVALID_SOURCE :: manager_code where "INVALID_SOURCE = ''model_source_rejected''"
definition NETWORK :: manager_code where "NETWORK = ''model_download_failed''"
definition INTEGRITY :: manager_code where "INTEGRITY = ''model_integrity_failed''"
definition STRUCTURAL :: manager_code where "STRUCTURAL = ''model_structural_incompatible''"
definition CATALOG_FAILED :: manager_code where "CATALOG_FAILED = ''model_catalog_failed''"
definition IO_FAILED :: manager_code where "IO_FAILED = ''model_io_failed''"
definition OWNERSHIP_LOST :: manager_code where "OWNERSHIP_LOST = ''runtime_ownership_lost''"

lemmas manager_codes = INVALID_SOURCE_def NETWORK_def INTEGRITY_def STRUCTURAL_def CATALOG_FAILED_def
  IO_FAILED_def OWNERSHIP_LOST_def

subsection \<open>A plan from a manifest\<close>

fun provider_directory :: "AsrProviderKind \<Rightarrow> string" where
  "provider_directory SenseVoice = ''sense_voice''"
| "provider_directory Whisper = ''whisper''"
| "provider_directory Qwen3Asr = ''qwen3_asr''"

fun device_requirement :: "DeviceRequirement \<Rightarrow> plan_device" where
  "device_requirement AnyDesktop = PlanAnyDesktop"
| "device_requirement (AppleSiliconMetal major gib) = PlanAppleSiliconMetal major gib ''M4''"

fun runtime_identity :: "RuntimeRequirement \<Rightarrow> FullSherpaRuntimeIdentity option" where
  "runtime_identity (SherpaOnnx version commit native build feature) = Some \<lparr>sherpa_version = version,
     sherpa_git_commit = commit, sherpa_native_archive_sha256 = native, sherpa_build_id = build\<rparr>"
| "runtime_identity (QwenCandleMetal _ _ _ _ _ _ _) = None"

fun plan_mode :: "ArtifactInstallMode \<Rightarrow> InstallMode" where
  "plan_mode InstallDirect = PlanDirect"
| "plan_mode InstallExtractTarBz2 = PlanExtractTarBz2"

definition artifact_plan :: "ArtifactFile \<Rightarrow> ArtifactPlan" where
  "artifact_plan a = \<lparr>plan_artifact_id = artifact_id a,
     plan_source_repository = artifact_source_repository a, plan_source_model = artifact_source_model a,
     plan_url = artifact_resolved_url a, plan_revision = artifact_revision a,
     plan_expected_bytes = artifact_bytes a, plan_expected_sha256 = artifact_sha256 a,
     plan_required_path = artifact_required_path a, plan_install_mode = plan_mode (artifact_install_mode a),
     plan_redirect_hosts = artifact_redirect_hosts a, plan_license_spdx = artifact_license_spdx a,
     plan_provenance = artifact_provenance a\<rparr>"

definition contract_of :: "ArtifactBundle \<Rightarrow> InstallContract" where
  "contract_of b = (case bundle_install_constraints b of
     Archive v \<Rightarrow> ArchiveContract (artifact_required_path (hd (bundle_artifacts b)))
       (archive_max_scanned_entries v) (archive_max_written_file_bytes v)
       (archive_max_total_written_bytes v) (archive_required_files v)
   | Direct v \<Rightarrow> DirectContract (direct_max_written_file_bytes v) (direct_max_total_written_bytes v)
       (direct_required_files v))"

definition plan_from_manifest :: "ModelManifest \<Rightarrow> ModelInstallPlan" where
  "plan_from_manifest m = \<lparr>plan_model_id = manifest_id m,
     plan_provider = provider_directory (manifest_provider m), plan_manifest_version = manifest_version m,
     plan_bundle_identity = bundle_identity_sha256 (manifest_bundle m),
     plan_device = device_requirement (manifest_device m), plan_policy = manifest_qualification m,
     plan_runtime = runtime_identity (manifest_runtime m),
     plan_artifacts = map artifact_plan (bundle_artifacts (manifest_bundle m)),
     plan_contract = contract_of (manifest_bundle m)\<rparr>"

definition plan_from_vad_manifest :: "VadManifest \<Rightarrow> ModelInstallPlan" where
  "plan_from_vad_manifest v = \<lparr>plan_model_id = vad_id v, plan_provider = ''vad'',
     plan_manifest_version = vad_version v, plan_bundle_identity = bundle_identity_sha256 (vad_bundle v),
     plan_device = PlanAnyDesktop, plan_policy = vad_qualification v,
     plan_runtime = runtime_identity (vad_runtime v),
     plan_artifacts = map artifact_plan (bundle_artifacts (vad_bundle v)),
     plan_contract = contract_of (vad_bundle v)\<rparr>"

definition resolve_current_plan :: "string \<Rightarrow> manager_code + ModelInstallPlan" where
  "resolve_current_plan i = (case registry_model model_registry i of
     Some m \<Rightarrow> Inr (plan_from_manifest m)
   | None \<Rightarrow> if vad_id vad_manifest = i then Inr (plan_from_vad_manifest vad_manifest) else Inl STRUCTURAL)"

definition resolve_plan :: "string \<Rightarrow> string \<Rightarrow> string \<Rightarrow> manager_code + ModelInstallPlan" where
  "resolve_plan i version bundle = and_then (resolve_current_plan i) (\<lambda>p.
     if plan_manifest_version p \<noteq> version \<or> plan_bundle_identity p \<noteq> bundle then Inl STRUCTURAL else Inr p)"

subsection \<open>Checks\<close>

definition component_char :: "char \<Rightarrow> bool" where
  "component_char c \<longleftrightarrow> is_ascii_lowercase c \<or> is_ascii_uppercase c \<or> is_ascii_digit c \<or>
     c = CHR ''-'' \<or> c = CHR ''_'' \<or> c = CHR ''.''"

text \<open>One name of a path; the characters are ASCII by the last check.\<close>

definition validate_component :: "string \<Rightarrow> manager_code + unit" where
  "validate_component v =
     (if v = [] \<or> 128 < length v \<or> v = ''.'' \<or> v = ''..'' \<or> \<not> list_all component_char v
      then Inl STRUCTURAL else Inr ())"

fun normal_component :: "path_component \<Rightarrow> bool" where
  "normal_component (Normal _) \<longleftrightarrow> True"
| "normal_component _ \<longleftrightarrow> False"

text \<open>The path is its components, by which \<open>Path\<close> compares; an absolute path begins with the root.\<close>

definition safe_relative_path :: "string \<Rightarrow> manager_code + path_component list" where
  "safe_relative_path v =
     (if v = [] \<or> CHR 0x5C \<in> set v then Inl STRUCTURAL
      else if \<not> list_all normal_component (path_components v) then Inl STRUCTURAL
      else Inr (path_components v))"

fun check_artifacts ::
    "string set \<Rightarrow> path_component list list \<Rightarrow> ArtifactPlan list \<Rightarrow> manager_code + unit" where
  "check_artifacts ids paths [] = Inr ()"
| "check_artifacts ids paths (a # rest) =
     and_then (validate_component (plan_artifact_id a)) (\<lambda>_.
     if plan_artifact_id a \<in> ids then Inl STRUCTURAL
     else if length (plan_expected_sha256 a) \<noteq> 64 then Inl INTEGRITY
     else and_then (safe_relative_path (plan_required_path a)) (\<lambda>p.
       if list_ex (\<lambda>x. prefix p x \<or> prefix x p) paths then Inl STRUCTURAL
       else check_artifacts (insert (plan_artifact_id a) ids) (paths @ [p]) rest))"

fun check_install_files ::
    "string set \<Rightarrow> u64 \<Rightarrow> u64 \<Rightarrow> RequiredInstallFile list \<Rightarrow> manager_code + u64 \<times> u64" where
  "check_install_files seen amount largest [] = Inr (amount, largest)"
| "check_install_files seen amount largest (f # rest) =
     and_then (safe_relative_path (install_path f)) (\<lambda>_.
     if install_bytes f = 0 \<or> length (install_sha256 f) \<noteq> 64 \<or>
       \<not> list_all is_ascii_hexdigit (install_sha256 f) \<or> install_path f \<in> seen then Inl STRUCTURAL
     else and_then (ok_or STRUCTURAL (checked_add amount (install_bytes f))) (\<lambda>amount.
       check_install_files (insert (install_path f) seen) amount (max largest (install_bytes f)) rest))"

definition file_of_artifact :: "RequiredInstallFile \<Rightarrow> ArtifactPlan \<Rightarrow> bool" where
  "file_of_artifact f a \<longleftrightarrow> install_path f = plan_required_path a \<and> install_bytes f = plan_expected_bytes a \<and>
     install_sha256 f = plan_expected_sha256 a"

definition check_contract :: "ModelInstallPlan \<Rightarrow> manager_code + unit" where
  "check_contract p = (case plan_contract p of
     ArchiveContract archive_root max_scanned _ _ required \<Rightarrow>
       and_then (safe_relative_path archive_root) (\<lambda>_.
       if max_scanned < of_nat (length required) \<or> length (plan_artifacts p) \<noteq> 1 \<or>
         plan_install_mode (hd (plan_artifacts p)) \<noteq> PlanExtractTarBz2 \<or>
         plan_required_path (hd (plan_artifacts p)) \<noteq> archive_root then Inl STRUCTURAL else Inr ())
   | DirectContract _ _ required \<Rightarrow>
       if list_ex (\<lambda>a. plan_install_mode a \<noteq> PlanDirect) (plan_artifacts p) \<or>
         length (plan_artifacts p) \<noteq> length required \<or>
         list_ex (\<lambda>a. \<not> list_ex (\<lambda>f. file_of_artifact f a) required) (plan_artifacts p)
       then Inl STRUCTURAL else Inr ())"

definition validate_plan :: "ModelInstallPlan \<Rightarrow> manager_code + unit" where
  "validate_plan p =
     (if plan_artifacts p = [] then Inl STRUCTURAL
      else and_then (collect_results validate_component
          [plan_model_id p, plan_provider p, plan_manifest_version p, plan_bundle_identity p]) (\<lambda>_.
      and_then (case resolve_plan (plan_model_id p) (plan_manifest_version p) (plan_bundle_identity p) of
          Inl _ \<Rightarrow> Inr () | Inr canonical \<Rightarrow> if canonical \<noteq> p then Inl STRUCTURAL else Inr ()) (\<lambda>_.
      and_then (check_artifacts {} [] (plan_artifacts p)) (\<lambda>_.
      if contract_files (plan_contract p) = [] then Inl STRUCTURAL
      else and_then (check_install_files {} 0 0 (contract_files (plan_contract p))) (\<lambda>(amount, largest).
        if amount \<noteq> max_total_written_bytes (plan_contract p) \<or>
          largest \<noteq> max_written_file_bytes (plan_contract p) then Inl STRUCTURAL
        else check_contract p)))))"

definition validate_device :: "plan_device \<Rightarrow> DeviceProfile \<Rightarrow> manager_code + unit" where
  "validate_device r d = (case r of
     PlanAnyDesktop \<Rightarrow> Inr ()
   | PlanAppleSiliconMetal major gib chip \<Rightarrow>
       if profile_os d = ''macos'' \<and> profile_arch d = ''aarch64'' \<and> major \<le> profile_macos_major d \<and>
         gib \<le> profile_memory_gib d \<and> profile_metal_available d \<and> profile_chip d = chip
       then Inr () else Inl ''model_device_unsupported'')"

text \<open>The text of a line feed.\<close>

abbreviation newline :: string where "newline \<equiv> [CHR 0x0A]"

definition source_identity :: "ArtifactPlan \<Rightarrow> string" where
  "source_identity a = plan_source_repository a @ newline @ plan_source_model a @ newline @ plan_revision a @
     newline @ plan_url a @ newline @ plan_expected_sha256 a @ newline @ plan_required_path a"

definition DISK_SAFETY_MARGIN_BYTES :: u64 where "DISK_SAFETY_MARGIN_BYTES = 512 * 1024 * 1024"

definition checked_required_additional_free :: "u64 \<Rightarrow> u64 \<Rightarrow> u64 \<Rightarrow> u64 option" where
  "checked_required_additional_free remaining peak margin =
     (case checked_add remaining peak of None \<Rightarrow> None | Some v \<Rightarrow> checked_add v margin)"

subsection \<open>The shipped plans\<close>

lemma shipped_plan_vad: "validate_plan (plan_from_vad_manifest VAD) = Inr ()"
  by code_simp

lemma shipped_plan_models: "list_all (\<lambda>m. validate_plan (plan_from_manifest m) = Inr ()) MODELS"
  unfolding MODELS_def list.pred_inject simp_thms
  by (intro conjI) code_simp+

text \<open>Whatever the manager resolves by a name passes its own check of plans.\<close>

lemma resolved_plan_valid:
  assumes "resolve_current_plan i = Inr p"
  shows "validate_plan p = Inr ()" "plan_model_id p = i"
proof -
  have "registry_model model_registry i = Some m \<Longrightarrow> m \<in> set MODELS \<and> manifest_id m = i" for m
    by (auto simp: registry_model_def model_registry_def REGISTRY_def new_registry_def find_Some_iff)
  with assms shipped_plan_models shipped_plan_vad show "validate_plan p = Inr ()" "plan_model_id p = i"
    by (auto simp: resolve_current_plan_def list_all_iff vad_manifest_def plan_from_manifest_def
        plan_from_vad_manifest_def split: option.splits if_splits)
qed

end
