(* ===== verification/Model_Store.thy ===== *)
theory Model_Store
  imports Model_Plan Capture_Store Job_Store
begin

section \<open>Downloads and installations in the catalog: \<open>catalog/models.rs\<close>\<close>

text \<open>
  The tables \<open>model_downloads\<close>, \<open>model_download_artifacts\<close> and \<open>model_installations\<close> with their
  constraints and every statement of the model manager and the runtime qualifier on them.  A
  statement or transaction that fails leaves the tables as they were, so an error has no store.  A
  \<open>u64\<close> that is no \<open>i64\<close> cannot be bound.  Identifiers and the clock are arguments; the qualifier's
  errors have the code of the catalog, too.
\<close>

subsection \<open>Tables\<close>

datatype DownloadState = DlQueued | DlDownloading | DlVerifying | DlInstalling | DlSucceeded | DlFailed | DlCancelled

datatype ArtifactState = ArtPending | ArtDownloading | ArtDownloaded | ArtVerifying | ArtVerified
  | ArtFailed | ArtCancelled

record download_row =
  dl_id :: string
  dl_model_id :: string
  dl_manifest_version :: string
  dl_archive_sha256 :: string
  dl_state :: DownloadState
  dl_downloaded_bytes :: i64
  dl_expected_bytes :: i64
  dl_error_code :: "string option"
  dl_error_summary :: "string option"
  dl_created_at :: time
  dl_updated_at :: time

record artifact_row =
  art_download_id :: string
  art_artifact_id :: string
  art_source_repository :: string
  art_source_model :: string
  art_source_url :: string
  art_source_revision :: string
  art_expected_bytes :: i64
  art_downloaded_bytes :: i64
  art_expected_sha256 :: string
  art_verified_sha256 :: "string option"
  art_required_path :: string
  art_temp_path :: "string option"
  art_etag :: "string option"
  art_last_modified :: "string option"
  art_checkpointed_at :: "time option"
  art_verified_at :: "time option"
  art_state :: ArtifactState
  art_error_code :: "string option"
  art_error_summary :: "string option"
  art_created_at :: time
  art_updated_at :: time

record model_store =
  downloads :: "download_row list"
  artifacts :: "artifact_row list"
  model_catalog :: catalog

type_synonym 'a statement = "model_store \<Rightarrow> manager_code + 'a \<times> model_store"

fun active_download :: "DownloadState \<Rightarrow> bool" where
  "active_download DlQueued \<longleftrightarrow> True"
| "active_download DlDownloading \<longleftrightarrow> True"
| "active_download DlVerifying \<longleftrightarrow> True"
| "active_download DlInstalling \<longleftrightarrow> True"
| "active_download _ \<longleftrightarrow> False"

text \<open>The models of the active downloads, which the partial index keeps unique.\<close>

definition active_models :: "download_row list \<Rightarrow> string list" where
  "active_models rows = map dl_model_id (filter (\<lambda>r. active_download (dl_state r)) rows)"

subsection \<open>Downloads\<close>

definition insert_download :: "download_row \<Rightarrow> model_store \<Rightarrow> manager_code + model_store" where
  "insert_download r s =
     (if dl_id r \<in> set (map dl_id (downloads s)) \<or> \<not> distinct (active_models (downloads s @ [r]))
      then Inl CATALOG_FAILED else Inr (s\<lparr>downloads := downloads s @ [r]\<rparr>))"

definition artifact_key :: "artifact_row \<Rightarrow> string \<times> string" where
  "artifact_key r = (art_download_id r, art_artifact_id r)"

definition artifact_checks :: "artifact_row \<Rightarrow> bool" where
  "artifact_checks r \<longleftrightarrow> 0 \<le> art_downloaded_bytes r \<and> art_downloaded_bytes r \<le> art_expected_bytes r \<and>
     length (art_expected_sha256 r) = 64 \<and>
     (case art_verified_sha256 r of None \<Rightarrow> True | Some h \<Rightarrow> length h = 64)"

definition insert_artifact :: "artifact_row \<Rightarrow> model_store \<Rightarrow> manager_code + model_store" where
  "insert_artifact r s =
     (if \<not> artifact_checks r \<or> artifact_key r \<in> set (map artifact_key (artifacts s)) \<or>
        (art_download_id r, art_required_path r) \<in> set (map (\<lambda>x. (art_download_id x, art_required_path x)) (artifacts s)) \<or>
        art_download_id r \<notin> set (map dl_id (downloads s))
      then Inl CATALOG_FAILED else Inr (s\<lparr>artifacts := artifacts s @ [r]\<rparr>))"

definition new_artifact_row :: "string \<Rightarrow> time \<Rightarrow> ArtifactPlan \<Rightarrow> i64 \<Rightarrow> artifact_row" where
  "new_artifact_row i now a expected = \<lparr>art_download_id = i, art_artifact_id = plan_artifact_id a,
     art_source_repository = plan_source_repository a, art_source_model = plan_source_model a,
     art_source_url = plan_url a, art_source_revision = plan_revision a, art_expected_bytes = expected,
     art_downloaded_bytes = 0, art_expected_sha256 = plan_expected_sha256 a, art_verified_sha256 = None,
     art_required_path = plan_required_path a, art_temp_path = None, art_etag = None,
     art_last_modified = None, art_checkpointed_at = None, art_verified_at = None, art_state = ArtPending,
     art_error_code = None, art_error_summary = None, art_created_at = now, art_updated_at = now\<rparr>"

fun insert_artifacts :: "string \<Rightarrow> time \<Rightarrow> ArtifactPlan list \<Rightarrow> model_store \<Rightarrow> manager_code + model_store" where
  "insert_artifacts i now [] s = Inr s"
| "insert_artifacts i now (a # rest) s =
     and_then (ok_or CATALOG_FAILED (i64_try_from (plan_expected_bytes a))) (\<lambda>expected.
     and_then (insert_artifact (new_artifact_row i now a expected) s) (insert_artifacts i now rest))"

text \<open>The sum of the sizes wraps, as in a release build.\<close>

definition begin_download :: "string \<Rightarrow> time \<Rightarrow> ModelInstallPlan \<Rightarrow> string statement" where
  "begin_download uuid now p s = (let i = ''mdl_'' @ uuid in
     and_then (ok_or CATALOG_FAILED (i64_try_from (sum_list (map plan_expected_bytes (plan_artifacts p))))) (\<lambda>expected.
     and_then (insert_download \<lparr>dl_id = i, dl_model_id = plan_model_id p,
        dl_manifest_version = plan_manifest_version p, dl_archive_sha256 = plan_bundle_identity p,
        dl_state = DlQueued, dl_downloaded_bytes = 0, dl_expected_bytes = expected, dl_error_code = None,
        dl_error_summary = None, dl_created_at = now, dl_updated_at = now\<rparr> s) (\<lambda>s.
     and_then (insert_artifacts i now (plan_artifacts p) s) (\<lambda>s. Inr (i, s)))))"

record ArtifactCheckpoint =
  cp_artifact_id :: string
  cp_source_identity :: string
  cp_downloaded_bytes :: u64
  cp_expected_bytes :: u64
  cp_temp_path :: string
  cp_etag :: "string option"
  cp_last_modified :: "string option"
  cp_verified_sha256 :: "string option"
  cp_state :: ArtifactState

definition row_identity :: "artifact_row \<Rightarrow> string" where
  "row_identity r = art_source_repository r @ newline @ art_source_model r @ newline @ art_source_revision r @
     newline @ art_source_url r @ newline @ art_expected_sha256 r @ newline @ art_required_path r"

definition checkpoint_of :: "artifact_row \<Rightarrow> string \<Rightarrow> ArtifactCheckpoint" where
  "checkpoint_of r path = \<lparr>cp_artifact_id = art_artifact_id r, cp_source_identity = row_identity r,
     cp_downloaded_bytes = word_of_int (art_downloaded_bytes r), cp_expected_bytes = word_of_int (art_expected_bytes r),
     cp_temp_path = path, cp_etag = art_etag r, cp_last_modified = art_last_modified r,
     cp_verified_sha256 = art_verified_sha256 r, cp_state = art_state r\<rparr>"

definition find_artifact :: "string \<Rightarrow> string \<Rightarrow> model_store \<Rightarrow> artifact_row option" where
  "find_artifact i a s = find (\<lambda>r. artifact_key r = (i, a)) (artifacts s)"

definition checkpoint :: "string \<Rightarrow> string \<Rightarrow> model_store \<Rightarrow> ArtifactCheckpoint option" where
  "checkpoint i a s = Option.bind (find_artifact i a s) (\<lambda>r. map_option (checkpoint_of r) (art_temp_path r))"

definition checkpointed_row :: "time \<Rightarrow> i64 \<Rightarrow> ArtifactCheckpoint \<Rightarrow> artifact_row \<Rightarrow> artifact_row" where
  "checkpointed_row now bytes cp r = r\<lparr>art_downloaded_bytes := bytes, art_temp_path := Some (cp_temp_path cp),
     art_etag := cp_etag cp, art_last_modified := cp_last_modified cp,
     art_verified_sha256 := cp_verified_sha256 cp, art_checkpointed_at := Some now,
     art_verified_at := map_option (\<lambda>_. now) (cp_verified_sha256 cp), art_state := cp_state cp,
     art_error_code := None, art_error_summary := None, art_updated_at := now\<rparr>"

definition downloaded_total :: "string \<Rightarrow> model_store \<Rightarrow> int" where
  "downloaded_total i s = sum_list (map art_downloaded_bytes (filter (\<lambda>r. art_download_id r = i) (artifacts s)))"

text \<open>One transaction: the artifact's row, then the sum in the row of the download; SQLite's \<open>SUM\<close> of
  integers refuses to overflow.\<close>

definition save_checkpoint :: "time \<Rightarrow> string \<Rightarrow> ArtifactCheckpoint \<Rightarrow> unit statement" where
  "save_checkpoint now i cp s =
     and_then (ok_or CATALOG_FAILED (i64_try_from (cp_downloaded_bytes cp))) (\<lambda>bytes.
     let mine = (\<lambda>r. artifact_key r = (i, cp_artifact_id cp)); f = checkpointed_row now bytes cp;
         t = s\<lparr>artifacts := update_where mine f (artifacts s)\<rparr> in
     if \<not> list_all (\<lambda>r. mine r \<longrightarrow> artifact_checks (f r)) (artifacts s) then Inl CATALOG_FAILED
     else if count_where mine (artifacts s) \<noteq> 1 then Inl CATALOG_FAILED
     else if \<not> in_i64 (downloaded_total i t) then Inl CATALOG_FAILED
     else if count_where (\<lambda>r. dl_id r = i) (downloads s) \<noteq> 1 then Inl CATALOG_FAILED
     else Inr ((), t\<lparr>downloads := update_where (\<lambda>r. dl_id r = i)
       (\<lambda>r. r\<lparr>dl_downloaded_bytes := downloaded_total i t, dl_updated_at := now\<rparr>) (downloads s)\<rparr>))"

definition set_download_state :: "time \<Rightarrow> string \<Rightarrow> DownloadState \<Rightarrow> string option \<Rightarrow> unit statement" where
  "set_download_state now i st code s =
     (let rows = update_where (\<lambda>r. dl_id r = i) (\<lambda>r. r\<lparr>dl_state := st, dl_error_code := code,
        dl_error_summary := code, dl_updated_at := now\<rparr>) (downloads s) in
     if \<not> distinct (active_models rows) then Inl CATALOG_FAILED
     else if count_where (\<lambda>r. dl_id r = i) (downloads s) \<noteq> 1 then Inl CATALOG_FAILED
     else Inr ((), s\<lparr>downloads := rows\<rparr>))"

definition mark_download_recovery_required :: "time \<Rightarrow> string \<Rightarrow> model_store \<Rightarrow> model_store" where
  "mark_download_recovery_required now i s = s\<lparr>downloads := update_where
     (\<lambda>r. dl_id r = i \<and> active_download (dl_state r))
     (\<lambda>r. r\<lparr>dl_state := DlFailed, dl_error_code := Some ''recovery_required'', dl_updated_at := now\<rparr>) (downloads s)\<rparr>"

definition model_download_artifact_ids :: "string \<Rightarrow> model_store \<Rightarrow> string list" where
  "model_download_artifact_ids i s =
     sort_key id (map art_artifact_id (filter (\<lambda>r. art_download_id r = i) (artifacts s)))"

record ModelDownloadRecord =
  record_id :: string
  record_model_id :: string
  record_manifest_version :: string
  record_bundle_identity :: string
  record_state :: DownloadState
  record_updated_at :: time
  record_downloaded_bytes :: u64
  record_expected_bytes :: u64
  record_artifact_count :: nat
  record_verified_artifact_count :: nat
  record_error_code :: "string option"
  record_error_summary :: "string option"

definition download_record :: "model_store \<Rightarrow> download_row \<Rightarrow> manager_code + ModelDownloadRecord" where
  "download_record s r =
     (if dl_downloaded_bytes r < 0 \<or> dl_expected_bytes r < 0 then Inl CATALOG_FAILED
      else Inr \<lparr>record_id = dl_id r, record_model_id = dl_model_id r,
        record_manifest_version = dl_manifest_version r, record_bundle_identity = dl_archive_sha256 r,
        record_state = dl_state r, record_updated_at = dl_updated_at r,
        record_downloaded_bytes = word_of_int (dl_downloaded_bytes r),
        record_expected_bytes = word_of_int (dl_expected_bytes r),
        record_artifact_count = count_where (\<lambda>a. art_download_id a = dl_id r) (artifacts s),
        record_verified_artifact_count =
          count_where (\<lambda>a. art_download_id a = dl_id r \<and> art_state a = ArtVerified) (artifacts s),
        record_error_code = dl_error_code r, record_error_summary = dl_error_summary r\<rparr>)"

text \<open>The latest first: ascending order reversed, as identifiers are distinct.\<close>

definition model_download_records :: "model_store \<Rightarrow> manager_code + ModelDownloadRecord list" where
  "model_download_records s = collect_results (download_record s)
     (rev (sort_key (\<lambda>r. (dl_updated_at r, dl_id r)) (downloads s)))"

subsection \<open>Installations\<close>

record StoredInstallation =
  stored_model_id :: string
  stored_provider :: string
  stored_manifest_version :: string
  stored_bundle_identity :: string
  stored_install_dir :: string
  stored_state :: install_state
  stored_runtime_identity_json :: "string option"

definition with_installations :: "(installation_row list \<Rightarrow> installation_row list) \<Rightarrow> model_store \<Rightarrow> model_store" where
  "with_installations f s = s\<lparr>model_catalog := (model_catalog s)\<lparr>installations := f (installations (model_catalog s))\<rparr>\<rparr>"

abbreviation installed :: "model_store \<Rightarrow> installation_row list" where
  "installed s \<equiv> installations (model_catalog s)"

definition find_installation :: "string \<Rightarrow> model_store \<Rightarrow> installation_row option" where
  "find_installation i s = find (\<lambda>r. inst_model_id r = i) (installed s)"

definition installation_of :: "time \<Rightarrow> StoredInstallation \<Rightarrow> installation_row" where
  "installation_of now i = \<lparr>inst_model_id = stored_model_id i, inst_provider = stored_provider i,
     inst_manifest_version = stored_manifest_version i, inst_archive_sha256 = stored_bundle_identity i,
     inst_install_dir = stored_install_dir i, inst_state = stored_state i, inst_installed_at = now,
     inst_runtime_identity_json = stored_runtime_identity_json i,
     inst_qualified_at = (if stored_state i = RuntimeQualified then Some now else None),
     inst_last_error_code = None\<rparr>"

definition publish_installation :: "time \<Rightarrow> StoredInstallation \<Rightarrow> unit statement" where
  "publish_installation now i s = (let r = installation_of now i in
     if inst_provider r \<notin> {''sense_voice'', ''whisper'', ''qwen3_asr'', ''vad''} then Inl CATALOG_FAILED
     else if list_ex (\<lambda>x. inst_model_id x \<noteq> inst_model_id r \<and> inst_install_dir x = inst_install_dir r) (installed s)
     then Inl CATALOG_FAILED
     else if list_ex (\<lambda>x. inst_model_id x = inst_model_id r) (installed s)
     then Inr ((), with_installations (update_where (\<lambda>x. inst_model_id x = inst_model_id r) (\<lambda>_. r)) s)
     else Inr ((), with_installations (\<lambda>rows. rows @ [r]) s))"

definition record_installation_recovery :: "string \<Rightarrow> string \<Rightarrow> model_store \<Rightarrow> model_store" where
  "record_installation_recovery i code = with_installations (update_where (\<lambda>r. inst_model_id r = i)
     (\<lambda>r. r\<lparr>inst_state := InstalledUnqualified, inst_runtime_identity_json := None,
        inst_qualified_at := None, inst_last_error_code := Some code\<rparr>))"

definition execution_installation :: "string \<Rightarrow> model_store \<Rightarrow> installation_row option" where
  "execution_installation i s = find_installation i s"

definition model_installation_records :: "model_store \<Rightarrow> installation_row list" where
  "model_installation_records s = sort_key inst_model_id (installed s)"

subsection \<open>Deletion\<close>

record DeletionLease =
  lease_model_id :: string
  lease_install_dir :: string
  lease_prior_state :: install_state
  lease_prior_runtime_identity_json :: "string option"
  lease_prior_qualified_at :: "time option"
  lease_prior_last_error_code :: "string option"

text \<open>The lease of a job is a text in milliseconds that ends in \<open>Z\<close>, the clock's text here has the
  fraction it needs and ends in \<open>+00:00\<close>; as texts the lease is the later one exactly when its
  millisecond is not before the clock's.\<close>

definition model_in_use :: "string \<Rightarrow> time \<Rightarrow> job_row \<Rightarrow> bool" where
  "model_in_use i now j \<longleftrightarrow> job_model_id j = i \<and> running_state (job_state j) \<and> job_claimed_by j \<noteq> None \<and>
     (case job_lease_expires_at j of None \<Rightarrow> True | Some l \<Rightarrow> now div 1000000 \<le> l)"

definition lease_of_row :: "installation_row \<Rightarrow> DeletionLease" where
  "lease_of_row r = \<lparr>lease_model_id = inst_model_id r, lease_install_dir = inst_install_dir r,
     lease_prior_state = inst_state r, lease_prior_runtime_identity_json = inst_runtime_identity_json r,
     lease_prior_qualified_at = inst_qualified_at r, lease_prior_last_error_code = inst_last_error_code r\<rparr>"

definition begin_delete :: "string \<Rightarrow> time \<Rightarrow> DeletionLease option statement" where
  "begin_delete i now s =
     (case find (\<lambda>r. inst_model_id r = i \<and> inst_state r \<noteq> Deleting \<and>
        \<not> list_ex (model_in_use i now) (jobs (model_catalog s))) (installed s) of
        None \<Rightarrow> Inr (None, s)
      | Some r \<Rightarrow> (let mine = (\<lambda>x. inst_model_id x = i \<and> inst_state x = inst_state r) in
          if count_where mine (installed s) \<noteq> 1 then Inl CATALOG_FAILED
          else Inr (Some (lease_of_row r),
            with_installations (update_where mine (\<lambda>x. x\<lparr>inst_state := Deleting\<rparr>)) s)))"

definition deleting_at :: "DeletionLease \<Rightarrow> installation_row \<Rightarrow> bool" where
  "deleting_at l r \<longleftrightarrow> inst_model_id r = lease_model_id l \<and> inst_state r = Deleting \<and>
     inst_install_dir r = lease_install_dir l"

definition finish_delete :: "DeletionLease \<Rightarrow> unit statement" where
  "finish_delete l s = (if count_where (deleting_at l) (installed s) = 1
     then Inr ((), with_installations (filter (\<lambda>r. \<not> deleting_at l r)) s) else Inl CATALOG_FAILED)"

definition restored_row :: "DeletionLease \<Rightarrow> installation_row \<Rightarrow> installation_row" where
  "restored_row l r = r\<lparr>inst_state := lease_prior_state l,
     inst_runtime_identity_json := lease_prior_runtime_identity_json l,
     inst_qualified_at := lease_prior_qualified_at l, inst_last_error_code := lease_prior_last_error_code l\<rparr>"

definition abort_delete :: "DeletionLease \<Rightarrow> unit statement" where
  "abort_delete l s = (let mine = (\<lambda>r. inst_model_id r = lease_model_id l \<and> inst_state r = Deleting) in
     if count_where mine (installed s) = 1
     then Inr ((), with_installations (update_where mine (restored_row l)) s) else Inl CATALOG_FAILED)"

text \<open>After a restart the state before the deletion is read off the time of qualification.\<close>

definition prior_state_of :: "installation_row \<Rightarrow> install_state" where
  "prior_state_of r = (if inst_qualified_at r \<noteq> None then RuntimeQualified else InstalledUnqualified)"

definition model_deletion_lease :: "string \<Rightarrow> model_store \<Rightarrow> DeletionLease option" where
  "model_deletion_lease i s = map_option (\<lambda>r. (lease_of_row r)\<lparr>lease_prior_state := prior_state_of r\<rparr>)
     (find (\<lambda>r. inst_model_id r = i \<and> inst_state r = Deleting) (installed s))"

definition complete_deletion_recovery :: "DeletionLease \<Rightarrow> unit statement" where
  "complete_deletion_recovery l s = (if count_where (deleting_at l) (installed s) = 1
     then Inr ((), with_installations (filter (\<lambda>r. \<not> deleting_at l r)) s) else Inl CATALOG_FAILED)"

subsection \<open>Qualification\<close>

record QualificationHandle =
  handle_model_id :: string
  handle_manifest_version :: string
  handle_bundle_identity :: string
  handle_install_dir :: string
  handle_device :: DeviceIdentity

definition handle_names :: "QualificationHandle \<Rightarrow> installation_row \<Rightarrow> bool" where
  "handle_names h r \<longleftrightarrow> inst_model_id r = handle_model_id h \<and>
     inst_manifest_version r = handle_manifest_version h \<and>
     inst_archive_sha256 r = handle_bundle_identity h \<and> inst_install_dir r = handle_install_dir h"

definition cas_runtime_qualified ::
    "QualificationHandle \<Rightarrow> string \<Rightarrow> time \<Rightarrow> model_store \<Rightarrow> bool \<times> model_store" where
  "cas_runtime_qualified h runtime now s =
     (let mine = (\<lambda>r. handle_names h r \<and> inst_state r = InstalledUnqualified) in
      (count_where mine (installed s) = 1,
       with_installations (update_where mine (\<lambda>r. r\<lparr>inst_state := RuntimeQualified,
         inst_runtime_identity_json := Some runtime, inst_qualified_at := Some now,
         inst_last_error_code := None\<rparr>)) s))"

definition demote_runtime_qualification ::
    "QualificationHandle \<Rightarrow> string \<Rightarrow> model_store \<Rightarrow> bool \<times> model_store" where
  "demote_runtime_qualification h code s =
     (let mine = (\<lambda>r. handle_names h r \<and> inst_state r = RuntimeQualified) in
      (count_where mine (installed s) = 1,
       with_installations (update_where mine (\<lambda>r. r\<lparr>inst_state := InstalledUnqualified,
         inst_runtime_identity_json := None, inst_qualified_at := None,
         inst_last_error_code := Some code\<rparr>)) s))"

definition record_qualification_error :: "QualificationHandle \<Rightarrow> string \<Rightarrow> model_store \<Rightarrow> model_store" where
  "record_qualification_error h code = with_installations (update_where
     (\<lambda>r. handle_names h r \<and> inst_state r = InstalledUnqualified) (\<lambda>r. r\<lparr>inst_last_error_code := Some code\<rparr>))"

subsection \<open>Deleting an installation\<close>

lemma with_installations_rows [simp]:
  "installed (with_installations f s) = f (installed s)"
  "jobs (model_catalog (with_installations f s)) = jobs (model_catalog s)"
  "downloads (with_installations f s) = downloads s" "artifacts (with_installations f s) = artifacts s"
  by (simp_all add: with_installations_def)

text \<open>A row says when it was qualified exactly when it is; a row being deleted has kept what it said.\<close>

fun installation_ok :: "install_state \<Rightarrow> time option \<Rightarrow> bool" where
  "installation_ok RuntimeQualified qualified \<longleftrightarrow> qualified \<noteq> None"
| "installation_ok InstalledUnqualified qualified \<longleftrightarrow> qualified = None"
| "installation_ok Deleting qualified \<longleftrightarrow> True"

definition installations_ok :: "installation_row list \<Rightarrow> bool" where
  "installations_ok rows \<longleftrightarrow> distinct (map inst_model_id rows) \<and> distinct (map inst_install_dir rows) \<and>
     list_all (\<lambda>r. installation_ok (inst_state r) (inst_qualified_at r)) rows"

lemma count_key_one:
  assumes "distinct (map k rows)" "r \<in> set rows" "q r"
  shows "count_where (\<lambda>x. k x = k r \<and> q x) rows = 1"
  unfolding count_where_key_iff [OF assms(1)] using assms(2,3) by (auto simp: list_ex_iff)

lemma update_where_id: "(\<And>r. r \<in> set rows \<Longrightarrow> p r \<Longrightarrow> f r = r) \<Longrightarrow> update_where p f rows = rows"
  by (simp add: update_where_def map_idI)

lemma find_unique_key:
  assumes "distinct (map k rows)" "r \<in> set rows" "q r"
  shows "find (\<lambda>x. k x = k r \<and> q x) rows = Some r"
proof -
  obtain x where "find (\<lambda>x. k x = k r \<and> q x) rows = Some x"
    using assms(2,3) by (cases "find (\<lambda>x. k x = k r \<and> q x) rows") (auto simp: find_None_iff)
  moreover from this have "x \<in> set rows" "k x = k r" by (auto simp: find_Some_iff)
  ultimately show ?thesis using distinct_key_unique [OF assms(1) _ assms(2)] by metis
qed

lemma begin_delete_exact:
  assumes "installations_ok (installed s)"
  shows "begin_delete i now s = Inr (Some l, s') \<longleftrightarrow>
    (\<exists>r \<in> set (installed s). inst_model_id r = i \<and> inst_state r \<noteq> Deleting \<and>
       \<not> list_ex (model_in_use i now) (jobs (model_catalog s)) \<and> l = lease_of_row r \<and>
       s' = with_installations (update_where (\<lambda>x. inst_model_id x = i) (\<lambda>x. x\<lparr>inst_state := Deleting\<rparr>)) s)"
    (is "_ \<longleftrightarrow> ?R")
proof -
  have ids: "distinct (map inst_model_id (installed s))" using assms by (simp add: installations_ok_def)
  let ?p = "\<lambda>r. inst_model_id r = i \<and> inst_state r \<noteq> Deleting \<and> \<not> list_ex (model_in_use i now) (jobs (model_catalog s))"
  show ?thesis
  proof (cases "find ?p (installed s)")
    case None
    then have "\<not> ?R" by (auto simp: find_None_iff)
    with None show ?thesis by (simp add: begin_delete_def)
  next
    case (Some r)
    then have r: "r \<in> set (installed s)" "?p r" by (auto simp: find_Some_iff)
    have one: "count_where (\<lambda>x. inst_model_id x = i \<and> inst_state x = inst_state r) (installed s) = 1"
      using count_key_one [OF ids r(1), of "\<lambda>x. inst_state x = inst_state r"] r(2) by simp
    have only: "x \<in> set (installed s) \<Longrightarrow> inst_model_id x = i \<Longrightarrow> x = r" for x
      using distinct_key_unique [OF ids _ r(1)] r(2) by auto
    have rows: "update_where (\<lambda>x. inst_model_id x = i \<and> inst_state x = inst_state r) f (installed s) =
        update_where (\<lambda>x. inst_model_id x = i) f (installed s)" for f
      using only by (auto simp: update_where_def)
    have store: "with_installations (update_where (\<lambda>x. inst_model_id x = i \<and> inst_state x = inst_state r) f) s =
        with_installations (update_where (\<lambda>x. inst_model_id x = i) f) s" for f
      by (simp add: with_installations_def rows)
    have eq: "begin_delete i now s = Inr (Some (lease_of_row r),
        with_installations (update_where (\<lambda>x. inst_model_id x = i) (\<lambda>x. x\<lparr>inst_state := Deleting\<rparr>)) s)"
      using one by (simp add: begin_delete_def Some Let_def store)
    show ?thesis
    proof
      assume "begin_delete i now s = Inr (Some l, s')"
      with eq have "l = lease_of_row r" "s' = with_installations (update_where (\<lambda>x. inst_model_id x = i) (\<lambda>x. x\<lparr>inst_state := Deleting\<rparr>)) s"
        by simp_all
      with r show ?R by blast
    next
      assume ?R
      then obtain q where q: "q \<in> set (installed s)" "inst_model_id q = i" "l = lease_of_row q"
        "s' = with_installations (update_where (\<lambda>x. inst_model_id x = i) (\<lambda>x. x\<lparr>inst_state := Deleting\<rparr>)) s" by blast
      then have "q = r" using only by blast
      with eq q(3,4) show "begin_delete i now s = Inr (Some l, s')" by simp
    qed
  qed
qed

text \<open>What a lease can do to the rows it was taken from.\<close>

lemma lease_powers:
  assumes ok: "installations_ok rows" and r: "r \<in> set rows" "inst_state r \<noteq> Deleting"
    and now: "installed t = update_where (\<lambda>x. inst_model_id x = inst_model_id r) (\<lambda>x. x\<lparr>inst_state := Deleting\<rparr>) rows"
  shows "model_deletion_lease (inst_model_id r) t = Some (lease_of_row r)"
    "abort_delete (lease_of_row r) t = Inr ((), with_installations (\<lambda>_. rows) t)"
    "finish_delete (lease_of_row r) t =
       Inr ((), with_installations (\<lambda>_. filter (\<lambda>x. inst_model_id x \<noteq> inst_model_id r) rows) t)"
    "begin_delete (inst_model_id r) time t = Inr (None, t)"
proof -
  let ?i = "inst_model_id r" and ?d = "r\<lparr>inst_state := Deleting\<rparr>"
  have ids: "distinct (map inst_model_id rows)" using ok by (simp add: installations_ok_def)
  have only: "x \<in> set rows \<Longrightarrow> inst_model_id x = ?i \<Longrightarrow> x = r" for x
    using distinct_key_unique [OF ids _ r(1)] by simp
  have ids': "distinct (map inst_model_id (installed t))"
    using ids by (simp add: now update_where_def comp_def if_distrib cong: if_cong)
  have d: "?d \<in> set (installed t)" using r(1) by (auto simp: now set_update_where)
  have prior: "prior_state_of ?d = inst_state r"
    using ok r by (cases "inst_state r") (auto simp: installations_ok_def list_all_iff prior_state_of_def)
  have "find (\<lambda>x. inst_model_id x = ?i \<and> inst_state x = Deleting) (installed t) = Some ?d"
    using find_unique_key [OF ids' d, of "\<lambda>x. inst_state x = Deleting"] by simp
  then show "model_deletion_lease ?i t = Some (lease_of_row r)"
    using prior by (simp add: model_deletion_lease_def lease_of_row_def)
  have restored: "update_where (\<lambda>x. inst_model_id x = ?i \<and> inst_state x = Deleting) (restored_row (lease_of_row r)) (installed t) = rows"
    unfolding now update_where_def map_map
    by (rule map_idI) (auto dest: only simp: restored_row_def lease_of_row_def)
  have one: "count_where (\<lambda>x. inst_model_id x = ?i \<and> inst_state x = Deleting) (installed t) = 1"
    using count_key_one [OF ids' d, of "\<lambda>x. inst_state x = Deleting"] by simp
  show "abort_delete (lease_of_row r) t = Inr ((), with_installations (\<lambda>_. rows) t)"
    using one restored by (simp add: abort_delete_def Let_def lease_of_row_def with_installations_def)
  have deleting: "deleting_at (lease_of_row r) x \<longleftrightarrow> inst_model_id x = ?i" if "x \<in> set (installed t)" for x
  proof -
    from that obtain y where y: "y \<in> set rows" "x = (if inst_model_id y = ?i then y\<lparr>inst_state := Deleting\<rparr> else y)"
      by (auto simp: now set_update_where)
    show ?thesis
    proof (cases "inst_model_id y = ?i")
      case True
      with only [OF y(1)] y(2) show ?thesis by (simp add: deleting_at_def lease_of_row_def)
    next
      case False
      with y(2) show ?thesis by (simp add: deleting_at_def lease_of_row_def)
    qed
  qed
  have gone: "filter (\<lambda>x. \<not> deleting_at (lease_of_row r) x) (installed t) = filter (\<lambda>x. inst_model_id x \<noteq> ?i) rows"
  proof -
    have "filter (\<lambda>x. \<not> deleting_at (lease_of_row r) x) (installed t) = filter (\<lambda>x. inst_model_id x \<noteq> ?i) (installed t)"
      using deleting by (auto intro: filter_cong)
    also have "\<dots> = filter (\<lambda>x. inst_model_id x \<noteq> ?i) rows"
      unfolding now by (induction rows) (auto simp: update_where_def)
    finally show ?thesis .
  qed
  have "count_where (deleting_at (lease_of_row r)) (installed t) = count_where (\<lambda>x. inst_model_id x = ?i \<and> True) (installed t)"
    unfolding count_where_def using deleting by (simp cong: filter_cong)
  also have "\<dots> = 1" using count_key_one [OF ids' d, of "\<lambda>_. True"] by simp
  finally show "finish_delete (lease_of_row r) t =
      Inr ((), with_installations (\<lambda>_. filter (\<lambda>x. inst_model_id x \<noteq> ?i) rows) t)"
    using gone by (simp add: finish_delete_def with_installations_def)
  have "find (\<lambda>x. inst_model_id x = ?i \<and> inst_state x \<noteq> Deleting \<and> q) (installed t) = None" for q
    by (auto simp: find_None_iff now set_update_where)
  then show "begin_delete ?i time t = Inr (None, t)" by (simp add: begin_delete_def)
qed

text \<open>
  C32: Taking a deletion lease never loses an installation.  A lease is granted only for a model whose
  row is not being deleted and that no running job with a live claim uses.  Whatever happens to the
  other tables afterwards, nobody can take a second lease, a restarted program reads the very same
  lease off the row, giving up the deletion puts all installations back as they were - also with the
  lease read after a restart - and finishing it removes exactly the model's row.
\<close>

theorem deletion_lease_roundtrip:
  assumes "installations_ok (installed s)" "begin_delete i now s = Inr (Some l, s')"
    and "installed t = installed s'"
  shows "\<not> list_ex (model_in_use i now) (jobs (model_catalog s)) \<and>
    (\<exists>r \<in> set (installed s). inst_model_id r = i \<and> inst_state r \<noteq> Deleting \<and> lease_install_dir l = inst_install_dir r) \<and>
    begin_delete i later t = Inr (None, t) \<and> model_deletion_lease i t = Some l \<and>
    abort_delete l t = Inr ((), with_installations (\<lambda>_. installed s) t) \<and>
    finish_delete l t = Inr ((), with_installations (\<lambda>_. filter (\<lambda>r. inst_model_id r \<noteq> i) (installed s)) t) \<and>
    complete_deletion_recovery l t = finish_delete l t"
proof -
  from begin_delete_exact [OF assms(1), THEN iffD1, OF assms(2)] obtain r where r: "r \<in> set (installed s)"
    "inst_model_id r = i" "inst_state r \<noteq> Deleting" "\<not> list_ex (model_in_use i now) (jobs (model_catalog s))"
    "l = lease_of_row r"
    "s' = with_installations (update_where (\<lambda>x. inst_model_id x = i) (\<lambda>x. x\<lparr>inst_state := Deleting\<rparr>)) s"
    by blast
  have "installed t = update_where (\<lambda>x. inst_model_id x = inst_model_id r) (\<lambda>x. x\<lparr>inst_state := Deleting\<rparr>) (installed s)"
    by (simp add: assms(3) r(2,6))
  note powers = lease_powers [OF assms(1) r(1,3) this]
  from powers r show ?thesis
    by (auto simp: complete_deletion_recovery_def finish_delete_def lease_of_row_def)
qed

subsection \<open>Every order of statements\<close>

definition downloads_ok :: "model_store \<Rightarrow> bool" where
  "downloads_ok s \<longleftrightarrow> distinct (map dl_id (downloads s)) \<and> distinct (active_models (downloads s)) \<and>
     distinct (map artifact_key (artifacts s)) \<and> list_all artifact_checks (artifacts s) \<and>
     list_all (\<lambda>a. art_download_id a \<in> dl_id ` set (downloads s)) (artifacts s) \<and>
     list_all (\<lambda>r. dl_downloaded_bytes r = downloaded_total (dl_id r) s) (downloads s)"

definition models_ok :: "model_store \<Rightarrow> bool" where
  "models_ok s \<longleftrightarrow> downloads_ok s \<and> installations_ok (installed s)"

definition lease_ok :: "DeletionLease \<Rightarrow> bool" where
  "lease_ok l \<longleftrightarrow> lease_prior_state l \<noteq> Deleting \<and> installation_ok (lease_prior_state l) (lease_prior_qualified_at l)"

text \<open>A deletion is given up with a lease that was granted or read back, which are sound, as shown below;
  the last step is any statement on the tables of other components.\<close>

inductive model_step :: "model_store \<Rightarrow> model_store \<Rightarrow> bool" where
  step_download: "begin_download uuid now p s = Inr (i, s') \<Longrightarrow> model_step s s'"
| step_checkpoint: "save_checkpoint now i cp s = Inr (u, s') \<Longrightarrow> model_step s s'"
| step_state: "set_download_state now i st code s = Inr (u, s') \<Longrightarrow> model_step s s'"
| step_mark: "model_step s (mark_download_recovery_required now i s)"
| step_publish: "publish_installation now inst s = Inr (u, s') \<Longrightarrow> stored_state inst \<noteq> Deleting \<Longrightarrow> model_step s s'"
| step_recovery: "model_step s (record_installation_recovery i code s)"
| step_begin_delete: "begin_delete i now s = Inr (l, s') \<Longrightarrow> model_step s s'"
| step_finish_delete: "finish_delete l s = Inr (u, s') \<Longrightarrow> model_step s s'"
| step_abort_delete: "abort_delete l s = Inr (u, s') \<Longrightarrow> lease_ok l \<Longrightarrow> model_step s s'"
| step_complete: "complete_deletion_recovery l s = Inr (u, s') \<Longrightarrow> model_step s s'"
| step_cas: "cas_runtime_qualified h runtime now s = (won, s') \<Longrightarrow> model_step s s'"
| step_demote: "demote_runtime_qualification h code s = (won, s') \<Longrightarrow> model_step s s'"
| step_error: "model_step s (record_qualification_error h code s)"
| step_elsewhere: "installations cat = installed s \<Longrightarrow> model_step s (s\<lparr>model_catalog := cat\<rparr>)"

lemma granted_lease_ok:
  assumes "installations_ok (installed s)"
  shows "begin_delete i now s = Inr (Some l, s') \<Longrightarrow> lease_ok l" "model_deletion_lease i s = Some l \<Longrightarrow> lease_ok l"
proof -
  assume "begin_delete i now s = Inr (Some l, s')"
  with begin_delete_exact [OF assms] assms show "lease_ok l"
    by (auto simp: lease_ok_def lease_of_row_def installations_ok_def list_all_iff)
next
  assume "model_deletion_lease i s = Some l"
  then obtain r where "l = (lease_of_row r)\<lparr>lease_prior_state := prior_state_of r\<rparr>"
    by (auto simp: model_deletion_lease_def)
  then show "lease_ok l"
    by (cases "inst_qualified_at r") (simp_all add: lease_ok_def prior_state_of_def lease_of_row_def)
qed

lemma total_other:
  assumes "\<And>r. mine r \<Longrightarrow> art_download_id r = i \<and> art_download_id (f r) = i" "j \<noteq> i"
  shows "downloaded_total j (s\<lparr>artifacts := update_where mine f (artifacts s)\<rparr>) = downloaded_total j s"
proof -
  have "filter (\<lambda>r. art_download_id r = j) (update_where mine f rows) = filter (\<lambda>r. art_download_id r = j) rows" for rows
    using assms by (induction rows) auto
  then show ?thesis by (simp add: downloaded_total_def)
qed

lemma downloaded_total_fields [simp]:
  "downloaded_total i (s\<lparr>downloads := d\<rparr>) = downloaded_total i s"
  "downloaded_total i (s\<lparr>model_catalog := c\<rparr>) = downloaded_total i s"
  "downloaded_total i (with_installations g s) = downloaded_total i s"
  by (simp_all add: downloaded_total_def with_installations_def)

lemma downloads_ok_rest [simp]:
  "downloads_ok (with_installations g s) = downloads_ok s" "downloads_ok (s\<lparr>model_catalog := c\<rparr>) = downloads_ok s"
  by (simp_all add: downloads_ok_def)

lemma active_models_update:
  "(\<And>r. p r \<Longrightarrow> dl_state (f r) = dl_state r \<and> dl_model_id (f r) = dl_model_id r) \<Longrightarrow>
     active_models (update_where p f rows) = active_models rows"
  by (induction rows) (auto simp: active_models_def)

lemma image_update_where: "(\<And>r. p r \<Longrightarrow> k (f r) = k r) \<Longrightarrow> k ` set (update_where p f rows) = k ` set rows"
  by (metis list.set_map map_update_where)

lemma insert_download_ok:
  assumes "downloads_ok s" "insert_download r s = Inr s'" "dl_downloaded_bytes r = 0"
  shows "downloads_ok s'" "dl_id r \<in> dl_id ` set (downloads s')"
proof -
  have new: "dl_id r \<notin> dl_id ` set (downloads s)"
    using assms(2) by (auto simp: insert_download_def split: if_splits)
  have "art_download_id a \<noteq> dl_id r" if "a \<in> set (artifacts s)" for a
    using assms(1) that new unfolding downloads_ok_def list_all_iff by metis
  then have "filter (\<lambda>a. art_download_id a = dl_id r) (artifacts s) = []" by (simp add: filter_empty_conv)
  then have "downloaded_total (dl_id r) s = 0" by (simp add: downloaded_total_def)
  with assms show "downloads_ok s'" "dl_id r \<in> dl_id ` set (downloads s')"
    by (auto simp: downloads_ok_def insert_download_def list_all_iff split: if_splits)
qed

lemma insert_artifact_ok:
  assumes "downloads_ok s" "insert_artifact r s = Inr s'" "art_downloaded_bytes r = 0"
  shows "downloads_ok s' \<and> downloads s' = downloads s \<and> model_catalog s' = model_catalog s"
  using assms by (auto simp: downloads_ok_def insert_artifact_def list_all_iff downloaded_total_def split: if_splits)

lemma insert_artifacts_ok:
  assumes "downloads_ok s" "insert_artifacts i now as s = Inr s'"
  shows "downloads_ok s' \<and> downloads s' = downloads s \<and> model_catalog s' = model_catalog s"
  using assms
proof (induction "as" arbitrary: s)
  case (Cons a rest)
  then obtain n t where "insert_artifact (new_artifact_row i now a n) s = Inr t" "insert_artifacts i now rest t = Inr s'"
    by (auto simp: result_simps)
  with Cons.IH [of t] insert_artifact_ok [OF Cons.prems(1)] show ?case
    by (auto simp: new_artifact_row_def)
qed simp

lemma checkpoint_ok:
  assumes ok: "downloads_ok s" and run: "save_checkpoint now i cp s = Inr (u, s')"
  shows "downloads_ok s'" "model_catalog s' = model_catalog s"
proof -
  from run obtain bytes where bytes: "i64_try_from (cp_downloaded_bytes cp) = Some bytes"
    by (auto simp: save_checkpoint_def result_simps)
  let ?mine = "\<lambda>r. artifact_key r = (i, cp_artifact_id cp)" and ?f = "checkpointed_row now bytes cp"
  let ?t = "s\<lparr>artifacts := update_where ?mine ?f (artifacts s)\<rparr>"
  have f: "artifact_key (?f r) = artifact_key r" "art_download_id (?f r) = art_download_id r" for r
    by (simp_all add: checkpointed_row_def artifact_key_def)
  have s': "s' = ?t\<lparr>downloads := update_where (\<lambda>r. dl_id r = i)
       (\<lambda>r. r\<lparr>dl_downloaded_bytes := downloaded_total i ?t, dl_updated_at := now\<rparr>) (downloads s)\<rparr>"
    and checks: "list_all (\<lambda>r. ?mine r \<longrightarrow> artifact_checks (?f r)) (artifacts s)"
    using run by (auto simp: save_checkpoint_def bytes ok_or_def Let_def split: if_splits)
  show "model_catalog s' = model_catalog s" by (simp add: s')
  have other: "downloaded_total j ?t = downloaded_total j s" if "j \<noteq> i" for j
    using that by (intro total_other) (auto simp: artifact_key_def checkpointed_row_def)
  have keys: "map artifact_key (artifacts ?t) = map artifact_key (artifacts s)"
    "map art_download_id (artifacts ?t) = map art_download_id (artifacts s)"
    by (simp_all add: update_where_def f)
  have rows: "map dl_id (downloads s') = map dl_id (downloads s)" "active_models (downloads s') = active_models (downloads s)"
    by (simp_all add: s' map_update_where active_models_update)
  have "list_all (\<lambda>r. dl_downloaded_bytes r = downloaded_total (dl_id r) ?t) (downloads s')"
    using ok other by (auto simp: s' list_all_iff set_update_where downloads_ok_def)
  moreover have "list_all artifact_checks (artifacts ?t)"
    using ok checks by (auto simp: list_all_iff set_update_where downloads_ok_def)
  moreover have "list_all (\<lambda>a. art_download_id a \<in> dl_id ` set (downloads s')) (artifacts ?t)"
  proof -
    have "dl_id ` set (downloads s') = dl_id ` set (downloads s)" using rows(1) by (metis set_map)
    then show ?thesis using ok f by (auto simp: list_all_iff set_update_where downloads_ok_def)
  qed
  ultimately show "downloads_ok s'"
    using ok keys rows by (simp add: downloads_ok_def s')
qed

lemma marked_active: "active_models (update_where (\<lambda>r. dl_id r = i \<and> active_download (dl_state r))
      (\<lambda>r. r\<lparr>dl_state := DlFailed, dl_error_code := e, dl_updated_at := now\<rparr>) rows) =
    map dl_model_id (filter (\<lambda>r. dl_id r \<noteq> i) (filter (\<lambda>r. active_download (dl_state r)) rows))"
  by (induction rows) (auto simp: active_models_def)

lemma mark_ok:
  assumes "downloads_ok s"
  shows "downloads_ok (mark_download_recovery_required now i s)"
proof -
  let ?p = "\<lambda>r. dl_id r = i \<and> active_download (dl_state r)"
    and ?f = "\<lambda>r. r\<lparr>dl_state := DlFailed, dl_error_code := Some ''recovery_required'', dl_updated_at := now\<rparr>"
  have "distinct (active_models (update_where ?p ?f (downloads s)))"
    unfolding marked_active
    by (rule distinct_map_filter) (use assms in \<open>simp add: downloads_ok_def active_models_def\<close>)
  moreover have "map dl_id (update_where ?p ?f (downloads s)) = map dl_id (downloads s)"
    "dl_id ` set (update_where ?p ?f (downloads s)) = dl_id ` set (downloads s)"
    by (simp_all add: map_update_where image_update_where)
  moreover have "list_all (\<lambda>r. dl_downloaded_bytes r = downloaded_total (dl_id r) s) (update_where ?p ?f (downloads s))"
    using assms by (auto simp: downloads_ok_def list_all_iff set_update_where)
  ultimately show ?thesis
    using assms by (simp add: downloads_ok_def mark_download_recovery_required_def)
qed

lemma state_ok:
  assumes "downloads_ok s" "set_download_state now i st code s = Inr (u, s')"
  shows "downloads_ok s'" "model_catalog s' = model_catalog s"
proof -
  let ?p = "\<lambda>r. dl_id r = i" and ?f = "\<lambda>r. r\<lparr>dl_state := st, dl_error_code := code, dl_error_summary := code, dl_updated_at := now\<rparr>"
  have s': "s' = s\<lparr>downloads := update_where ?p ?f (downloads s)\<rparr>"
    and unique: "distinct (active_models (update_where ?p ?f (downloads s)))"
    using assms(2) by (auto simp: set_download_state_def Let_def split: if_splits)
  have "map dl_id (update_where ?p ?f (downloads s)) = map dl_id (downloads s)"
    "dl_id ` set (update_where ?p ?f (downloads s)) = dl_id ` set (downloads s)"
    by (simp_all add: map_update_where image_update_where)
  moreover have "list_all (\<lambda>r. dl_downloaded_bytes r = downloaded_total (dl_id r) s) (update_where ?p ?f (downloads s))"
    using assms(1) by (auto simp: downloads_ok_def list_all_iff set_update_where)
  ultimately show "downloads_ok s'" "model_catalog s' = model_catalog s"
    using assms(1) unique by (simp_all add: downloads_ok_def s')
qed

lemma installations_ok_update:
  assumes "installations_ok rows" "\<And>r. r \<in> set rows \<Longrightarrow> p r \<Longrightarrow> inst_model_id (f r) = inst_model_id r \<and>
      inst_install_dir (f r) = inst_install_dir r \<and> installation_ok (inst_state (f r)) (inst_qualified_at (f r))"
  shows "installations_ok (update_where p f rows)"
proof -
  have "map inst_model_id (update_where p f rows) = map inst_model_id rows"
    "map inst_install_dir (update_where p f rows) = map inst_install_dir rows"
    using assms(2) by (auto simp: update_where_def)
  with assms show ?thesis by (auto simp: installations_ok_def list_all_iff set_update_where)
qed

lemma installations_ok_filter: "installations_ok rows \<Longrightarrow> installations_ok (filter p rows)"
  by (auto simp: installations_ok_def distinct_map_filter list_all_iff)

lemma publish_ok:
  assumes "installations_ok (installed s)" "publish_installation now inst s = Inr (u, s')" "stored_state inst \<noteq> Deleting"
  shows "installations_ok (installed s') \<and> downloads s' = downloads s \<and> artifacts s' = artifacts s"
proof -
  let ?r = "installation_of now inst"
  have fresh: "\<not> list_ex (\<lambda>x. inst_model_id x \<noteq> inst_model_id ?r \<and> inst_install_dir x = inst_install_dir ?r) (installed s)"
    using assms(2) by (auto simp: publish_installation_def Let_def split: if_splits)
  have row: "installation_ok (inst_state ?r) (inst_qualified_at ?r)"
    using assms(3) by (cases "stored_state inst") (simp_all add: installation_of_def)
  show ?thesis
  proof (cases "list_ex (\<lambda>x. inst_model_id x = inst_model_id ?r) (installed s)")
    case True
    then have s': "s' = with_installations (update_where (\<lambda>x. inst_model_id x = inst_model_id ?r) (\<lambda>_. ?r)) s"
      using assms(2) by (auto simp: publish_installation_def Let_def split: if_splits)
    have "distinct (map inst_install_dir (update_where (\<lambda>x. inst_model_id x = inst_model_id ?r) (\<lambda>_. ?r) rows))"
      if "distinct (map inst_install_dir rows)" "distinct (map inst_model_id rows)"
        "\<not> list_ex (\<lambda>x. inst_model_id x \<noteq> inst_model_id ?r \<and> inst_install_dir x = inst_install_dir ?r) rows" for rows
      using that
    proof (induction rows)
      case (Cons x rows)
      show ?case
      proof (cases "inst_model_id x = inst_model_id ?r")
        case True
        then have "update_where (\<lambda>x. inst_model_id x = inst_model_id ?r) (\<lambda>_. ?r) rows = rows"
          using Cons.prems(2) by (intro update_where_none) (auto simp: list_ex_iff image_iff)
        moreover have "inst_install_dir ?r \<notin> inst_install_dir ` set rows"
          using Cons.prems(2,3) True by (auto simp: list_ex_iff image_iff) metis
        ultimately show ?thesis using Cons.prems(1) True by simp
      next
        case False
        then have "inst_install_dir x \<noteq> inst_install_dir ?r" using Cons.prems(3) by auto
        with False Cons show ?thesis by (auto simp: set_update_where split: if_splits)
      qed
    qed simp
    with assms(1) fresh row show ?thesis
      by (auto simp: s' installations_ok_def list_all_iff set_update_where map_update_where)
  next
    case False
    then have "s' = with_installations (\<lambda>rows. rows @ [?r]) s"
      using assms(2) by (auto simp: publish_installation_def Let_def split: if_splits)
    with False fresh assms(1) row show ?thesis by (auto simp: installations_ok_def list_ex_iff)
  qed
qed

lemma model_step_ok:
  assumes "model_step s s'" "models_ok s"
  shows "models_ok s'"
  using assms
proof (induction rule: model_step.induct)
  case (step_download uuid now p s i s')
  then obtain r t where t: "insert_download r s = Inr t" "insert_artifacts i now (plan_artifacts p) t = Inr s'"
    "dl_downloaded_bytes r = 0"
    by (auto simp: begin_download_def Let_def result_simps)
  have "downloads_ok t" using insert_download_ok [OF _ t(1,3)] step_download(2) by (simp add: models_ok_def)
  moreover have "model_catalog t = model_catalog s" using t(1) by (auto simp: insert_download_def split: if_splits)
  ultimately show ?case using insert_artifacts_ok [OF _ t(2)] step_download(2) by (simp add: models_ok_def)
next
  case (step_publish now inst s u s')
  with publish_ok [OF _ step_publish(1,2)] show ?case
    by (auto simp: models_ok_def downloads_ok_def downloaded_total_def)
next
  case (step_begin_delete i now s l s')
  show ?case
  proof (cases l)
    case None
    with step_begin_delete(1) have "s' = s" by (auto simp: begin_delete_def Let_def split: option.splits if_splits)
    with step_begin_delete(2) show ?thesis by simp
  next
    case (Some lease)
    from step_begin_delete(2) have ok: "installations_ok (installed s)" by (simp add: models_ok_def)
    have "s' = with_installations (update_where (\<lambda>x. inst_model_id x = i) (\<lambda>x. x\<lparr>inst_state := Deleting\<rparr>)) s"
      using begin_delete_exact [OF ok] step_begin_delete(1) Some by blast
    with ok step_begin_delete(2) show ?thesis
      by (simp add: models_ok_def installations_ok_update)
  qed
next
  case (step_checkpoint now i cp s u s')
  with checkpoint_ok [OF _ step_checkpoint(1)] show ?case by (simp add: models_ok_def)
next
  case (step_state now i st code s u s')
  with state_ok [OF _ step_state(1)] show ?case by (simp add: models_ok_def)
next
  case step_mark
  then show ?case by (simp add: models_ok_def mark_ok) (simp add: mark_download_recovery_required_def)
next
  case step_recovery
  then show ?case by (simp add: models_ok_def record_installation_recovery_def installations_ok_update)
next
  case step_finish_delete
  then show ?case by (auto simp: models_ok_def finish_delete_def installations_ok_filter split: if_splits)
next
  case step_complete
  then show ?case by (auto simp: models_ok_def complete_deletion_recovery_def installations_ok_filter split: if_splits)
next
  case step_abort_delete
  then show ?case
    by (auto simp: models_ok_def abort_delete_def Let_def restored_row_def lease_ok_def installations_ok_update
        split: if_splits)
next
  case step_cas
  then show ?case by (auto simp: models_ok_def cas_runtime_qualified_def Let_def installations_ok_update)
next
  case step_demote
  then show ?case by (auto simp: models_ok_def demote_runtime_qualification_def Let_def installations_ok_update)
next
  case (step_error s h code)
  then have ok: "installations_ok (installed s)" by (simp add: models_ok_def)
  have "installations_ok (update_where (\<lambda>r. handle_names h r \<and> inst_state r = InstalledUnqualified)
      (\<lambda>r. r\<lparr>inst_last_error_code := Some code\<rparr>) (installed s))"
    by (rule installations_ok_update [OF ok]) (use ok in \<open>auto simp: installations_ok_def list_all_iff\<close>)
  with step_error show ?case by (simp add: models_ok_def record_qualification_error_def)
next
  case step_elsewhere
  then show ?case by (simp add: models_ok_def)
qed

interpretation model_tables: invariant_relation model_step models_ok
  by unfold_locales (rule model_step_ok)

text \<open>
  C20: In any order of the statements of the model manager and the qualifier, and whatever other
  components do in between, the tables of models stay consistent: identifiers and keys are unique, at
  most one download of a model is active, an artifact never counts more bytes than it has and a
  download counts exactly what its artifacts have, no two installations share a directory, and an
  installation has a time of qualification exactly when it is qualified.
\<close>

theorem model_tables_consistent:
  assumes "model_step\<^sup>*\<^sup>* s s'" "models_ok s"
  shows "models_ok s' \<and>
    (\<forall>r \<in> set (downloads s'). \<forall>q \<in> set (downloads s').
       dl_model_id r = dl_model_id q \<and> active_download (dl_state r) \<and> active_download (dl_state q) \<longrightarrow> r = q)"
proof -
  have ok: "models_ok s'" by (rule model_tables.reachable_inv [OF assms])
  then have "distinct (map dl_model_id (filter (\<lambda>r. active_download (dl_state r)) (downloads s')))"
    by (simp add: models_ok_def downloads_ok_def active_models_def)
  from distinct_key_unique [OF this] ok show ?thesis by auto
qed

subsection \<open>A concrete store\<close>

definition demo_artifact :: ArtifactPlan where
  "demo_artifact = \<lparr>plan_artifact_id = ''weights'', plan_source_repository = ''https://h/r'', plan_source_model = ''m'',
     plan_url = ''https://h/w'', plan_revision = ''1'', plan_expected_bytes = 3,
     plan_expected_sha256 = replicate 64 CHR ''a'', plan_required_path = ''w'', plan_install_mode = PlanDirect,
     plan_redirect_hosts = [''h''], plan_license_spdx = ''MIT'', plan_provenance = ''p''\<rparr>"

definition demo_plan :: ModelInstallPlan where
  "demo_plan = \<lparr>plan_model_id = ''m'', plan_provider = ''whisper'', plan_manifest_version = ''1'',
     plan_bundle_identity = ''b'', plan_device = PlanAnyDesktop, plan_policy = StructuralWithPinnedRuntime,
     plan_runtime = None, plan_artifacts = [demo_artifact],
     plan_contract = DirectContract 3 3 [\<lparr>install_path = ''w'', install_bytes = 3, install_sha256 = replicate 64 CHR ''a''\<rparr>]\<rparr>"

definition demo_store :: model_store where
  "demo_store = \<lparr>downloads = [], artifacts = [], model_catalog = demo_queue\<rparr>"

lemma demo_store_ok: "models_ok demo_store"
  by (simp add: models_ok_def downloads_ok_def installations_ok_def demo_store_def demo_queue_def
      demo_installation_def active_models_def empty_catalog_def)

lemma demo_begins:
  "case begin_delete ''m'' 0 demo_store of Inr (Some _, _) \<Rightarrow> True | _ \<Rightarrow> False"
  "case begin_download ''1'' 5 demo_plan demo_store of Inr (_, s) \<Rightarrow> downloads s \<noteq> [] | _ \<Rightarrow> False"
  by code_simp+

theorem deletion_lease_roundtrip_witness:
  "\<exists>l s. begin_delete ''m'' 0 demo_store = Inr (Some l, s) \<and>
     abort_delete l s = Inr ((), with_installations (\<lambda>_. installed demo_store) s)"
proof -
  obtain l s where run: "begin_delete ''m'' 0 demo_store = Inr (Some l, s)"
    using demo_begins(1) by (auto split: sum.splits option.splits prod.splits)
  with deletion_lease_roundtrip [OF _ run, of s 0] demo_store_ok show ?thesis
    by (auto simp: models_ok_def)
qed

theorem model_tables_consistent_witness:
  "\<exists>i s. begin_download ''1'' 5 demo_plan demo_store = Inr (i, s) \<and> models_ok s \<and> downloads s \<noteq> []"
proof -
  obtain i s where run: "begin_download ''1'' 5 demo_plan demo_store = Inr (i, s)" and some: "downloads s \<noteq> []"
    using demo_begins(2) by (auto split: sum.splits prod.splits)
  have "model_step\<^sup>*\<^sup>* demo_store s" using step_download [OF run] by blast
  from model_tables_consistent [OF this demo_store_ok] run some show ?thesis by blast
qed

end
