(* ===== verification/Model_Download.thy ===== *)
theory Model_Download
  imports Model_Store Effects
begin

section \<open>Downloading a model: \<open>asr/model_manager/download.rs\<close>\<close>

text \<open>
  The artifacts of a plan are downloaded one after the other into part files, with checkpoints in the
  catalog from which a later attempt resumes.  The world is the part files, the store and the
  addresses the client has sent requests to.  Every call of the file system, the database and the
  ownership guard may fail on its own, and the cancellation flag is read by the number of the call;
  the HTTP client and its parser of addresses are parameters.  A body is the list of the results of
  reading it, an empty read or the list's end being the end of the body.  A part file is held open
  while its artifact is downloaded and nobody else touches it.
\<close>

subsection \<open>World and environment\<close>

text \<open>\<open>reqwest::Url\<close>: what it says about itself and its text.\<close>

record web_url = url_parts +
  web_text :: string

datatype body_read = ReadBytes bytes | ReadFailed

text \<open>The headers in the order received; \<open>None\<close> is a value that is no visible ASCII text.\<close>

record http_response =
  http_status :: nat
  http_headers :: "(string \<times> string option) list"
  http_body :: "body_read list"

record download_world =
  part_files :: "string \<Rightarrow> bytes option"
  model_store :: model_store
  contacted :: "web_url list"

record download_env =
  call_fails :: "nat \<Rightarrow> bool"
  written_before_failure :: "nat \<Rightarrow> nat"
  cancel_asked :: "nat \<Rightarrow> bool"
  clock_reading :: "nat \<Rightarrow> time"
  drawn_uuid :: "nat \<Rightarrow> string"
  free_space :: "nat \<Rightarrow> u64"
  digest :: "bytes \<Rightarrow> string"
  data_root :: string
  parse_web_url :: "string \<Rightarrow> web_url option"
  join_web_url :: "web_url \<Rightarrow> string \<Rightarrow> web_url option"
  http_get :: "nat \<Rightarrow> web_url \<Rightarrow> u64 option \<Rightarrow> string option \<Rightarrow> http_response option"

type_synonym 'a downloading = "(download_world, manager_code, 'a) program"

definition CANCELLED :: manager_code where "CANCELLED = ''model_download_cancelled''"
definition NO_SPACE :: manager_code where "NO_SPACE = ''insufficient_disk_space''"

definition file_call :: "download_env \<Rightarrow> unit downloading" where
  "file_call env = call (call_fails env) IO_FAILED"

definition revalidate :: "download_env \<Rightarrow> unit downloading" where
  "revalidate env = call (call_fails env) INTEGRITY"

definition ensure_runtime_current :: "download_env \<Rightarrow> unit downloading" where
  "ensure_runtime_current env = call (call_fails env) OWNERSHIP_LOST"

definition statement :: "download_env \<Rightarrow> (time \<Rightarrow> 'a statement) \<Rightarrow> 'a downloading" where
  "statement env f = chain (call (call_fails env) CATALOG_FAILED) (\<lambda>_. chain tick (\<lambda>n. \<lambda>m w.
     case f (clock_reading env n) (model_store w) of
       Inl e \<Rightarrow> (Inl e, m, w)
     | Inr (x, s) \<Rightarrow> (Inr x, m, w\<lparr>model_store := s\<rparr>)))"

definition query :: "download_env \<Rightarrow> (model_store \<Rightarrow> 'a) \<Rightarrow> 'a downloading" where
  "query env f = chain (call (call_fails env) CATALOG_FAILED) (\<lambda>_. inspect (\<lambda>w. f (model_store w)))"

definition cancelled :: "download_env \<Rightarrow> bool downloading" where
  "cancelled env = chain tick (\<lambda>n. give (cancel_asked env n))"

subsection \<open>Part files: \<open>asr/model_manager/storage.rs\<close>\<close>

definition part_path :: "download_env \<Rightarrow> string \<Rightarrow> string \<Rightarrow> string" where
  "part_path env i a = data_root env @ ''/downloads/'' @ i @ ''/'' @ a @ ''.part''"

definition part_bytes :: "string \<Rightarrow> download_world \<Rightarrow> bytes" where
  "part_bytes path w = (case part_files w path of None \<Rightarrow> [] | Some bs \<Rightarrow> bs)"

definition put_part :: "string \<Rightarrow> bytes \<Rightarrow> download_world \<Rightarrow> download_world" where
  "put_part path bs w = w\<lparr>part_files := (part_files w)(path \<mapsto> bs)\<rparr>"

definition open_download_part :: "download_env \<Rightarrow> string \<Rightarrow> unit downloading" where
  "open_download_part env path = chain (file_call env) (\<lambda>_.
     chain (modify (\<lambda>w. put_part path (part_bytes path w) w)) (\<lambda>_. file_call env))"

definition part_len :: "download_env \<Rightarrow> string \<Rightarrow> nat downloading" where
  "part_len env path = chain (file_call env) (\<lambda>_. inspect (\<lambda>w. length (part_bytes path w)))"

text \<open>A file that is made longer is filled with zeros.\<close>

definition set_len :: "string \<Rightarrow> nat \<Rightarrow> download_world \<Rightarrow> download_world" where
  "set_len path n w = (let bs = part_bytes path w in
     put_part path (take n bs @ replicate (n - length bs) 0) w)"

definition truncate_and_sync :: "download_env \<Rightarrow> string \<Rightarrow> nat \<Rightarrow> unit downloading" where
  "truncate_and_sync env path n = chain (file_call env) (\<lambda>_. chain (modify (set_len path n)) (\<lambda>_.
     chain (file_call env) (\<lambda>_. revalidate env)))"

definition prepare_write :: "download_env \<Rightarrow> string \<Rightarrow> nat \<Rightarrow> unit downloading" where
  "prepare_write env path n = chain (file_call env) (\<lambda>_. chain (modify (set_len path n)) (\<lambda>_. revalidate env))"

text \<open>At the position \<open>pos\<close> of the open file; a failed write has written some first part.\<close>

definition write_at :: "nat \<Rightarrow> bytes \<Rightarrow> bytes \<Rightarrow> bytes" where
  "write_at pos data bs = take pos bs @ data @ drop (pos + length data) bs"

definition write_part :: "download_env \<Rightarrow> string \<Rightarrow> nat \<Rightarrow> bytes \<Rightarrow> unit downloading" where
  "write_part env path pos data = chain tick (\<lambda>n.
     if call_fails env n
     then chain (modify (\<lambda>w. put_part path (write_at pos (take (written_before_failure env n) data) (part_bytes path w)) w))
       (\<lambda>_. throw IO_FAILED)
     else modify (\<lambda>w. put_part path (write_at pos data (part_bytes path w)) w))"

definition sync_part :: "download_env \<Rightarrow> unit downloading" where
  "sync_part env = file_call env"

definition part_sha256 :: "download_env \<Rightarrow> string \<Rightarrow> string downloading" where
  "part_sha256 env path = chain (file_call env) (\<lambda>_. inspect (\<lambda>w. digest env (part_bytes path w)))"

subsection \<open>The client\<close>

definition MAX_REDIRECTS :: nat where "MAX_REDIRECTS = 10"

definition ascii_lower :: "char \<Rightarrow> char" where
  "ascii_lower c = (if is_ascii_uppercase c then char_of (of_char c + (32 :: nat)) else c)"

definition allowed :: "'z url_parts_scheme \<Rightarrow> string list \<Rightarrow> manager_code + unit" where
  "allowed u hosts = (case url_host u of
     None \<Rightarrow> Inl INVALID_SOURCE
   | Some host \<Rightarrow> if list_ex (\<lambda>h. map ascii_lower h = map ascii_lower host) hosts then Inr () else Inl INVALID_SOURCE)"

definition validate_shipping :: "'z url_parts_scheme \<Rightarrow> string list \<Rightarrow> manager_code + unit" where
  "validate_shipping u hosts =
     (if url_scheme u \<noteq> ''https'' \<or> url_username u \<noteq> [] \<or> url_password u \<noteq> None then Inl INVALID_SOURCE
      else allowed u hosts)"

record DownloadRequest =
  want_url :: string
  want_range_start :: "u64 option"
  want_if_range :: "string option"
  want_redirect_hosts :: "string list"

record DownloadResponse =
  got_status :: nat
  got_final_url :: string
  got_headers :: "(string \<times> string) list"
  got_body :: "body_read list"

text \<open>A map keeps the last value of a name, the list here has it first.\<close>

definition collected_headers :: "(string \<times> string option) list \<Rightarrow> (string \<times> string) list" where
  "collected_headers hs = rev (concat (map (\<lambda>(k, v). case v of None \<Rightarrow> [] | Some v \<Rightarrow> [(map ascii_lower k, v)]) hs))"

definition location_header :: "(string \<times> string option) list \<Rightarrow> string option" where
  "location_header hs = Option.bind (map_of (map (\<lambda>(k, v). (map ascii_lower k, v)) hs) ''location'') id"

fun follow :: "download_env \<Rightarrow> DownloadRequest \<Rightarrow> nat \<Rightarrow> web_url \<Rightarrow> DownloadResponse downloading" where
  "follow env r 0 current = throw INVALID_SOURCE"
| "follow env r (Suc k) current =
     chain (modify (\<lambda>w. w\<lparr>contacted := contacted w @ [current]\<rparr>)) (\<lambda>_. chain tick (\<lambda>n.
     case http_get env n current (want_range_start r) (want_if_range r) of
       None \<Rightarrow> throw NETWORK
     | Some response \<Rightarrow>
         if 300 \<le> http_status response \<and> http_status response < 400
         then chain (from_result (ok_or NETWORK (location_header (http_headers response)))) (\<lambda>loc.
           chain (from_result (ok_or INVALID_SOURCE (join_web_url env current loc))) (\<lambda>next_url.
           chain (from_result (validate_shipping next_url (want_redirect_hosts r))) (\<lambda>_. follow env r k next_url)))
         else give \<lparr>got_status = http_status response, got_final_url = web_text current,
           got_headers = collected_headers (http_headers response), got_body = http_body response\<rparr>))"

definition execute_reqwest :: "download_env \<Rightarrow> DownloadRequest \<Rightarrow> DownloadResponse downloading" where
  "execute_reqwest env r = chain (from_result (ok_or INVALID_SOURCE (parse_web_url env (want_url r)))) (\<lambda>current.
     chain (from_result (validate_shipping current (want_redirect_hosts r))) (\<lambda>_. follow env r (Suc MAX_REDIRECTS) current))"

definition validate_response :: "download_env \<Rightarrow> string \<Rightarrow> string list \<Rightarrow> manager_code + unit" where
  "validate_response env v hosts = and_then (ok_or INVALID_SOURCE (parse_web_url env v)) (\<lambda>u.
     if url_scheme u = ''http'' \<and> url_host u \<notin> {Some ''127.0.0.1'', Some ''localhost'', Some ''::1''}
     then Inl INVALID_SOURCE else allowed u hosts)"

text \<open>The names asked for are lower-case, so asking again in lower case finds nothing new.\<close>

definition header :: "DownloadResponse \<Rightarrow> string \<Rightarrow> string option" where
  "header r n = map_of (got_headers r) n"

subsection \<open>One artifact\<close>

definition CHECKPOINT_INTERVAL_BYTES :: u64 where "CHECKPOINT_INTERVAL_BYTES = 4 * 1024 * 1024"

definition save_progress ::
    "download_env \<Rightarrow> string \<Rightarrow> ArtifactPlan \<Rightarrow> string \<Rightarrow> string \<Rightarrow> u64 \<Rightarrow> string option \<Rightarrow> string option \<Rightarrow>
       ArtifactState \<Rightarrow> unit downloading" where
  "save_progress env i a identity path bytes etag modified st =
     chain (ensure_runtime_current env) (\<lambda>_. chain (revalidate env) (\<lambda>_.
     statement env (\<lambda>now. save_checkpoint now i \<lparr>cp_artifact_id = plan_artifact_id a, cp_source_identity = identity,
       cp_downloaded_bytes = bytes, cp_expected_bytes = plan_expected_bytes a, cp_temp_path = path,
       cp_etag = etag, cp_last_modified = modified, cp_verified_sha256 = None, cp_state = st\<rparr>)))"

definition save_verified :: "download_env \<Rightarrow> string \<Rightarrow> ArtifactPlan \<Rightarrow> string \<Rightarrow> unit downloading" where
  "save_verified env i a path =
     chain (ensure_runtime_current env) (\<lambda>_. chain (revalidate env) (\<lambda>_.
     statement env (\<lambda>now. save_checkpoint now i \<lparr>cp_artifact_id = plan_artifact_id a,
       cp_source_identity = source_identity a, cp_downloaded_bytes = plan_expected_bytes a,
       cp_expected_bytes = plan_expected_bytes a, cp_temp_path = path, cp_etag = None, cp_last_modified = None,
       cp_verified_sha256 = Some (plan_expected_sha256 a), cp_state = ArtVerified\<rparr>)))"

text \<open>What stays the same while one response is read.\<close>

record stream_context =
  sc_download :: string
  sc_artifact :: ArtifactPlan
  sc_path :: string
  sc_base :: u64
  sc_etag :: "string option"
  sc_modified :: "string option"
  sc_expected :: u64

definition checkpoint_stream :: "download_env \<Rightarrow> stream_context \<Rightarrow> u64 \<Rightarrow> ArtifactState \<Rightarrow> unit downloading" where
  "checkpoint_stream env c written st = chain (sync_part env) (\<lambda>_.
     save_progress env (sc_download c) (sc_artifact c) (source_identity (sc_artifact c)) (sc_path c)
       (sc_base c + written) (sc_etag c) (sc_modified c) st)"

definition COPY_BUFFER_BYTES :: nat where "COPY_BUFFER_BYTES = 64 * 1024"

text \<open>What a read leaves for the next one when it has more than the buffer holds.\<close>

definition unread :: "bytes \<Rightarrow> body_read list \<Rightarrow> body_read list" where
  "unread data rest =
     (if length data \<le> COPY_BUFFER_BYTES then rest else ReadBytes (drop COPY_BUFFER_BYTES data) # rest)"

fun body_size :: "body_read list \<Rightarrow> nat" where
  "body_size [] = 0"
| "body_size (ReadFailed # rest) = Suc (body_size rest)"
| "body_size (ReadBytes data # rest) = Suc (length data + body_size rest)"

lemma unread_smaller: "body_size (unread data rest) < body_size (ReadBytes data # rest)"
  by (simp add: unread_def COPY_BUFFER_BYTES_def) linarith

function stream :: "download_env \<Rightarrow> stream_context \<Rightarrow> u64 \<Rightarrow> u64 \<Rightarrow> body_read list \<Rightarrow> u64 downloading" where
  "stream env c written checkpointed body = chain (cancelled env) (\<lambda>stop.
     if stop then chain (checkpoint_stream env c written ArtCancelled) (\<lambda>_. throw CANCELLED)
     else (case body of
        [] \<Rightarrow> chain (checkpoint_stream env c written ArtDownloading) (\<lambda>_. give written)
      | ReadFailed # _ \<Rightarrow> chain (checkpoint_stream env c written ArtDownloading) (\<lambda>_.
          chain (cancelled env) (\<lambda>stop. if stop then throw CANCELLED else throw NETWORK))
      | ReadBytes data # rest \<Rightarrow>
          if data = [] then chain (checkpoint_stream env c written ArtDownloading) (\<lambda>_. give written)
          else (let chunk = take COPY_BUFFER_BYTES data in
          chain (from_result (ok_or NETWORK (checked_add written (of_nat (length chunk))))) (\<lambda>after.
          if sc_expected c < after
          then chain (checkpoint_stream env c written ArtDownloading) (\<lambda>_. throw NETWORK)
          else chain (write_part env (sc_path c) (unat (sc_base c + written)) chunk) (\<lambda>_.
            chain (from_result (ok_or NETWORK (checked_sub after checkpointed))) (\<lambda>since.
            if CHECKPOINT_INTERVAL_BYTES \<le> since
            then chain (checkpoint_stream env c after ArtDownloading) (\<lambda>_. stream env c after after (unread data rest))
            else stream env c after checkpointed (unread data rest)))))))"
  by pat_completeness auto
termination
  by (relation "measure (\<lambda>(env, c, written, checkpointed, body). body_size body)")
    (simp_all only: in_measure prod.case unread_smaller wf_measure)

declare stream.simps [simp del]

text \<open>\<open>str::parse\<close> of a \<open>u64\<close>: an optional plus sign and decimal digits.\<close>

definition parse_u64 :: "string \<Rightarrow> u64 option" where
  "parse_u64 s = (let ds = (case strip_prefix ''+'' s of None \<Rightarrow> s | Some rest \<Rightarrow> rest);
       v = foldl (\<lambda>n d. 10 * n + (of_char d - 48)) (0 :: int) ds in
     if ds \<noteq> [] \<and> list_all is_ascii_digit ds \<and> v < 2 ^ 64 then Some (word_of_int v) else None)"

definition content_range :: "u64 \<Rightarrow> u64 \<Rightarrow> string" where
  "content_range start expected = ''bytes '' @ nat_digits (unat start) @ ''-'' @ nat_digits (unat (expected - 1)) @
     ''/'' @ nat_digits (unat expected)"

text \<open>Whether the response continues the part file or starts it anew.\<close>

definition appends :: "ArtifactPlan \<Rightarrow> u64 \<Rightarrow> DownloadResponse \<Rightarrow> manager_code + bool" where
  "appends a start r =
     (if got_status r = 206 \<and> 0 < start
      then (if header r ''content-range'' \<noteq> Some (content_range start (plan_expected_bytes a)) then Inl NETWORK else Inr True)
      else if got_status r = 200 then Inr False else Inl NETWORK)"

definition declared_length :: "DownloadResponse \<Rightarrow> manager_code + u64" where
  "declared_length r = and_then (ok_or NETWORK (header r ''content-length'')) (\<lambda>t. ok_or NETWORK (parse_u64 t))"

definition receive :: "download_env \<Rightarrow> string \<Rightarrow> ArtifactPlan \<Rightarrow> string \<Rightarrow> u64 \<Rightarrow> DownloadResponse \<Rightarrow> unit downloading" where
  "receive env i a path start r =
     chain (from_result (appends a start r)) (\<lambda>append.
     let expected = (if append then plan_expected_bytes a - start else plan_expected_bytes a);
         base = (if append then start else 0); etag = header r ''etag''; modified = header r ''last-modified'' in
     chain (from_result (declared_length r)) (\<lambda>declared.
     if declared \<noteq> expected then throw NETWORK
     else chain (prepare_write env path (unat base)) (\<lambda>_.
     chain (stream env \<lparr>sc_download = i, sc_artifact = a, sc_path = path, sc_base = base, sc_etag = etag,
        sc_modified = modified, sc_expected = expected\<rparr> 0 0 (got_body r)) (\<lambda>written.
     chain (sync_part env) (\<lambda>_.
     chain (from_result (ok_or NETWORK (checked_add base written))) (\<lambda>final_bytes.
     chain (save_progress env i a (source_identity a) path final_bytes etag modified ArtDownloaded) (\<lambda>_.
     if written \<noteq> expected then throw NETWORK
     else if final_bytes \<noteq> plan_expected_bytes a then throw INTEGRITY
     else chain (part_sha256 env path) (\<lambda>h.
       if h \<noteq> plan_expected_sha256 a then throw INTEGRITY else save_verified env i a path))))))))"

definition validators_changed :: "string option \<Rightarrow> string option \<Rightarrow> u64 \<Rightarrow> DownloadResponse \<Rightarrow> bool" where
  "validators_changed old_etag old_modified start r \<longleftrightarrow> got_status r = 206 \<and> 0 < start \<and>
     ((old_etag \<noteq> None \<and> old_etag \<noteq> header r ''etag'') \<or>
      (old_etag = None \<and> old_modified \<noteq> None \<and> old_modified \<noteq> header r ''last-modified''))"

text \<open>The attempts that are left; the first of the two may find that the source has changed.\<close>

fun fetch ::
    "download_env \<Rightarrow> string \<Rightarrow> ArtifactPlan \<Rightarrow> string \<Rightarrow> string option \<Rightarrow> string option \<Rightarrow> nat \<Rightarrow> u64 \<Rightarrow> unit downloading" where
  "fetch env i a path old_etag old_modified 0 start = throw NETWORK"
| "fetch env i a path old_etag old_modified (Suc k) start = chain (cancelled env) (\<lambda>stop.
     if stop then throw CANCELLED
     else chain (execute_reqwest env \<lparr>want_url = plan_url a,
         want_range_start = (if 0 < start then Some start else None),
         want_if_range = (if 0 < start then (case old_etag of None \<Rightarrow> old_modified | Some t \<Rightarrow> Some t) else None),
         want_redirect_hosts = plan_redirect_hosts a\<rparr>) (\<lambda>r.
       chain (from_result (validate_response env (got_final_url r) (plan_redirect_hosts a))) (\<lambda>_.
       if validators_changed old_etag old_modified start r \<and> k = 1
       then fetch env i a path old_etag old_modified k 0
       else receive env i a path start r)))"

definition valid_checkpoint :: "ArtifactPlan \<Rightarrow> string \<Rightarrow> ArtifactCheckpoint option \<Rightarrow> ArtifactCheckpoint option" where
  "valid_checkpoint a path cp = (case cp of None \<Rightarrow> None | Some x \<Rightarrow>
     if cp_source_identity x = source_identity a \<and> cp_expected_bytes x = plan_expected_bytes a \<and> cp_temp_path x = path
     then Some x else None)"

text \<open>Where to resume: the part file and the checkpoint are brought to the same length.\<close>

definition resume_offset ::
    "download_env \<Rightarrow> string \<Rightarrow> ArtifactPlan \<Rightarrow> string \<Rightarrow> ArtifactCheckpoint option \<Rightarrow> nat \<Rightarrow> u64 downloading" where
  "resume_offset env i a path valid len = (case valid of
     None \<Rightarrow> chain (if 0 < len then truncate_and_sync env path 0 else give ()) (\<lambda>_. give 0)
   | Some x \<Rightarrow>
       if unat (cp_downloaded_bytes x) < len
       then chain (truncate_and_sync env path (unat (cp_downloaded_bytes x))) (\<lambda>_. give (cp_downloaded_bytes x))
       else if len < unat (cp_downloaded_bytes x)
       then chain (save_progress env i a (source_identity a) path (of_nat len) (cp_etag x) (cp_last_modified x)
          ArtDownloading) (\<lambda>_. give (of_nat len))
       else give (cp_downloaded_bytes x))"

definition download_artifact :: "download_env \<Rightarrow> string \<Rightarrow> ArtifactPlan \<Rightarrow> unit downloading" where
  "download_artifact env i a = (let path = part_path env i (plan_artifact_id a) in
     chain (open_download_part env path) (\<lambda>_.
     chain (query env (checkpoint i (plan_artifact_id a))) (\<lambda>cp.
     chain (part_len env path) (\<lambda>len.
     chain (resume_offset env i a path (valid_checkpoint a path cp) len) (\<lambda>offset.
     chain (if offset = plan_expected_bytes a
        then chain (part_sha256 env path) (\<lambda>h. give (h = plan_expected_sha256 a)) else give False) (\<lambda>complete.
     if complete then save_verified env i a path
     else fetch env i a path (Option.bind cp cp_etag) (Option.bind cp cp_last_modified) 2
       (if offset = plan_expected_bytes a then 0 else offset)))))))"

subsection \<open>A whole download\<close>

fun download_all :: "download_env \<Rightarrow> string \<Rightarrow> ArtifactPlan list \<Rightarrow> unit downloading" where
  "download_all env i [] = give ()"
| "download_all env i (a # rest) = attempt (download_artifact env i a) (\<lambda>r. case r of
     Inl e \<Rightarrow> chain (statement env (\<lambda>now. set_download_state now i
        (if e = CANCELLED then DlCancelled else DlFailed) (Some e))) (\<lambda>_. throw e)
   | Inr _ \<Rightarrow> download_all env i rest)"

definition download_existing :: "download_env \<Rightarrow> ModelInstallPlan \<Rightarrow> string \<Rightarrow> unit downloading" where
  "download_existing env p i = chain (file_call env) (\<lambda>_.
     chain (statement env (\<lambda>now. set_download_state now i DlDownloading None)) (\<lambda>_.
     chain (download_all env i (plan_artifacts p)) (\<lambda>_.
     statement env (\<lambda>now. set_download_state now i DlVerifying None))))"

subsection \<open>Disk space: \<open>asr/model_manager/install.rs\<close>\<close>

definition remaining_of :: "ArtifactPlan \<Rightarrow> ArtifactCheckpoint option \<Rightarrow> nat \<Rightarrow> u64" where
  "remaining_of a cp file_bytes =
     (let source = (case cp of None \<Rightarrow> False | Some c \<Rightarrow>
          cp_source_identity c = source_identity a \<and> cp_expected_bytes c = plan_expected_bytes a);
        reusable = (case cp of None \<Rightarrow> False | Some c \<Rightarrow> source \<and> cp_downloaded_bytes c = plan_expected_bytes a \<and>
          cp_verified_sha256 c = Some (plan_expected_sha256 a) \<and> file_bytes = unat (plan_expected_bytes a));
        existing = (case cp of None \<Rightarrow> 0 | Some c \<Rightarrow>
          if source \<and> file_bytes = unat (cp_downloaded_bytes c) then min (cp_downloaded_bytes c) (plan_expected_bytes a) else 0)
      in if reusable then 0 else plan_expected_bytes a - existing)"

definition checkpointed_size :: "download_env \<Rightarrow> ArtifactCheckpoint option \<Rightarrow> nat downloading" where
  "checkpointed_size env cp = (case cp of None \<Rightarrow> give 0 | Some c \<Rightarrow> part_len env (cp_temp_path c))"

text \<open>An artifact that can be reused adds nothing, which cannot overflow.\<close>

fun sum_remaining :: "download_env \<Rightarrow> string option \<Rightarrow> ArtifactPlan list \<Rightarrow> u64 \<Rightarrow> u64 downloading" where
  "sum_remaining env i [] remaining = give remaining"
| "sum_remaining env i (a # rest) remaining =
     chain (case i of None \<Rightarrow> give None | Some i \<Rightarrow> query env (checkpoint i (plan_artifact_id a))) (\<lambda>cp.
     chain (checkpointed_size env cp) (\<lambda>file_bytes.
     chain (from_result (ok_or NO_SPACE (checked_add remaining (remaining_of a cp file_bytes))))
       (sum_remaining env i rest)))"

definition required_additional_free :: "download_env \<Rightarrow> ModelInstallPlan \<Rightarrow> string option \<Rightarrow> u64 downloading" where
  "required_additional_free env p i = chain (sum_remaining env i (plan_artifacts p) 0) (\<lambda>remaining.
     chain (file_call env) (\<lambda>_. from_result (ok_or NO_SPACE (checked_required_additional_free remaining
       (max_total_written_bytes (plan_contract p)) DISK_SAFETY_MARGIN_BYTES))))"

definition preflight_disk :: "download_env \<Rightarrow> ModelInstallPlan \<Rightarrow> string option \<Rightarrow> unit downloading" where
  "preflight_disk env p i = chain (required_additional_free env p i) (\<lambda>required.
     chain (file_call env) (\<lambda>_. chain tick (\<lambda>n.
     if free_space env n < required then throw NO_SPACE else give ())))"

definition download_only :: "download_env \<Rightarrow> ModelInstallPlan \<Rightarrow> DeviceProfile \<Rightarrow> string downloading" where
  "download_only env p d = chain (ensure_runtime_current env) (\<lambda>_.
     chain (from_result (validate_device (plan_device p) d)) (\<lambda>_.
     chain (from_result (validate_plan p)) (\<lambda>_.
     chain (preflight_disk env p None) (\<lambda>_.
     chain tick (\<lambda>n.
     chain (statement env (\<lambda>now. begin_download (drawn_uuid env n) now p)) (\<lambda>i.
     chain (download_existing env p i) (\<lambda>_. give i)))))))"

definition retry_download :: "download_env \<Rightarrow> ModelInstallPlan \<Rightarrow> string \<Rightarrow> DeviceProfile \<Rightarrow> unit downloading" where
  "retry_download env p i d = chain (ensure_runtime_current env) (\<lambda>_.
     chain (from_result (validate_component i)) (\<lambda>_.
     chain (from_result (validate_device (plan_device p) d)) (\<lambda>_.
     chain (from_result (validate_plan p)) (\<lambda>_.
     chain (preflight_disk env p (Some i)) (\<lambda>_. download_existing env p i)))))"

definition download_model :: "download_env \<Rightarrow> string \<Rightarrow> DeviceProfile \<Rightarrow> string downloading" where
  "download_model env m d = chain (ensure_runtime_current env) (\<lambda>_.
     chain (from_result (validate_component m)) (\<lambda>_.
     chain (from_result (resolve_current_plan m)) (\<lambda>p. download_only env p d)))"

definition retry_model_download :: "download_env \<Rightarrow> string \<Rightarrow> string \<Rightarrow> DeviceProfile \<Rightarrow> unit downloading" where
  "retry_model_download env m i d = chain (ensure_runtime_current env) (\<lambda>_.
     chain (from_result (validate_component m)) (\<lambda>_.
     chain (from_result (resolve_current_plan m)) (\<lambda>p. retry_download env p i d)))"

end
