(* ===== verification/Model_Download_Sound.thy ===== *)
theory Model_Download_Sound
  imports Model_Download
begin

section \<open>What a download leaves behind\<close>

text \<open>
  The row of an artifact and its part file are two stores that no transaction spans.  The invariant
  says that a row that calls its artifact verified has the part file to show for it; a triple for
  every step of a download carries it through each failure and cancellation, and carries with it what
  a success must have established.  The last part follows the requests instead of the files.
\<close>

subsection \<open>Calls\<close>

lemma triple_pure_call: "triple P (call f e) (\<lambda>_. P) (\<lambda>_. P)"
  by (rule triple_post [OF triple_call]) auto

lemma triple_calls:
  "triple P (file_call env) (\<lambda>_. P) (\<lambda>_. P)" "triple P (revalidate env) (\<lambda>_. P) (\<lambda>_. P)"
  "triple P (ensure_runtime_current env) (\<lambda>_. P) (\<lambda>_. P)" "triple P (sync_part env) (\<lambda>_. P) (\<lambda>_. P)"
  by (simp_all add: file_call_def revalidate_def ensure_runtime_current_def sync_part_def triple_pure_call)

lemma triple_cancelled: "triple P (cancelled env) (\<lambda>_. P) E"
  unfolding cancelled_def by (rule triple_chain [OF triple_tick]) (rule triple_give)

lemma triple_selected: "triple P (query env f) (\<lambda>x w. P w \<and> x = f (model_store w)) (\<lambda>_. P)"
  unfolding query_def by (rule triple_chain [OF triple_pure_call]) (rule triple_inspect)

lemma triple_part_len: "triple P (part_len env path) (\<lambda>n w. P w \<and> n = length (part_bytes path w)) (\<lambda>_. P)"
  unfolding part_len_def by (rule triple_chain [OF triple_calls(1)]) (rule triple_inspect)

lemma triple_part_sha256: "triple P (part_sha256 env path) (\<lambda>h w. P w \<and> h = digest env (part_bytes path w)) (\<lambda>_. P)"
  unfolding part_sha256_def by (rule triple_chain [OF triple_calls(1)]) (rule triple_inspect)

lemma triple_pure_result: "triple P (from_result r) (\<lambda>x w. P w \<and> r = Inr x) (\<lambda>_. P)"
  by (rule triple_from_result) auto

lemma triple_statement:
  assumes "\<And>now w x s. P w \<Longrightarrow> f now (model_store w) = Inr (x, s) \<Longrightarrow> Q x (w\<lparr>model_store := s\<rparr>)"
    and "\<And>w. P w \<Longrightarrow> E w"
  shows "triple P (statement env f) Q (\<lambda>_. E)"
  unfolding statement_def
proof (rule triple_chain [where R = "\<lambda>_. P"])
  show "triple P (call (call_fails env) CATALOG_FAILED) (\<lambda>_. P) (\<lambda>_. E)"
    by (rule triple_post [OF triple_pure_call]) (use assms(2) in auto)
  show "triple P (chain tick (\<lambda>n m w. case f (clock_reading env n) (model_store w) of Inl e \<Rightarrow> (Inl e, m, w)
      | Inr (x, s) \<Rightarrow> (Inr x, m, w\<lparr>model_store := s\<rparr>))) Q (\<lambda>_. E)" for u :: unit
    by (rule triple_chain [OF triple_tick])
      (use assms in \<open>auto simp: triple_def split: sum.splits\<close>)
qed

lemma triple_change: "(\<And>w. P w \<Longrightarrow> Q (f w)) \<Longrightarrow> triple P (modify f) (\<lambda>_. Q) E"
  by (simp add: triple_def modify_def)

lemma triple_truncate:
  assumes "\<And>w. P w \<Longrightarrow> Q (set_len path n w)" "\<And>w. P w \<Longrightarrow> E w" "\<And>w. Q w \<Longrightarrow> E w"
  shows "triple P (truncate_and_sync env path n) (\<lambda>_. Q) (\<lambda>_. E)"
    "triple P (prepare_write env path n) (\<lambda>_. Q) (\<lambda>_. E)"
  unfolding truncate_and_sync_def prepare_write_def
  by (rule triple_chain [where R = "\<lambda>_. P"], rule triple_post [OF triple_calls(1)], simp, rule assms(2), simp,
      rule triple_chain [where R = "\<lambda>_. Q"], rule triple_change, rule assms(1), simp,
      (rule triple_chain [where R = "\<lambda>_. Q"], rule triple_post [OF triple_calls(1)], simp, rule assms(3), simp)?,
      rule triple_post [OF triple_calls(2)], simp, rule assms(3), simp)+

subsection \<open>Names and paths\<close>

lemma component_no_slash: "validate_component v = Inr () \<Longrightarrow> CHR ''/'' \<notin> set v"
  by (auto simp: validate_component_def list_all_iff component_char_def is_ascii_lowercase_def is_ascii_uppercase_def
      is_ascii_digit_def less_eq_char_def split: if_splits)

lemma slash_split:
  assumes "CHR ''/'' \<notin> set i" "CHR ''/'' \<notin> set j" "i @ CHR ''/'' # s = j @ CHR ''/'' # t"
  shows "i = j \<and> s = t"
proof -
  have "split_on CHR ''/'' (i @ CHR ''/'' # s) = split_on CHR ''/'' (j @ CHR ''/'' # t)" by (simp only: assms(3))
  then have "i = j" by (simp add: split_on_append assms(1,2))
  with assms(3) show ?thesis by simp
qed

lemma part_path_inj:
  assumes "validate_component i = Inr ()" "validate_component j = Inr ()" "part_path env i a = part_path env j b"
  shows "i = j \<and> a = b"
  using slash_split [OF component_no_slash [OF assms(1)] component_no_slash [OF assms(2)], of "a @ ''.part''" "b @ ''.part''"]
    assms(3) by (simp add: part_path_def)

subsection \<open>The invariant\<close>

definition row_fits :: "ArtifactPlan \<Rightarrow> artifact_row \<Rightarrow> bool" where
  "row_fits a r \<longleftrightarrow> row_identity r = source_identity a \<and> art_expected_bytes r = uint (plan_expected_bytes a) \<and>
     art_expected_sha256 r = plan_expected_sha256 a"

text \<open>A row that calls its artifact verified has a part file to show for it.\<close>

definition row_backed :: "download_env \<Rightarrow> download_world \<Rightarrow> artifact_row \<Rightarrow> bool" where
  "row_backed env w r \<longleftrightarrow> (art_state r = ArtVerified \<longrightarrow>
     art_temp_path r = Some (part_path env (art_download_id r) (art_artifact_id r)) \<and>
     art_downloaded_bytes r = art_expected_bytes r \<and>
     (\<exists>bs. part_files w (part_path env (art_download_id r) (art_artifact_id r)) = Some bs \<and>
        digest env bs = art_expected_sha256 r \<and> int (length bs) = art_expected_bytes r))"

definition rows_named :: "artifact_row list \<Rightarrow> bool" where
  "rows_named rows \<longleftrightarrow> distinct (map artifact_key rows) \<and>
     list_all (\<lambda>r. artifact_checks r \<and> validate_component (art_download_id r) = Inr () \<and>
       validate_component (art_artifact_id r) = Inr ()) rows"

abbreviation part_rows :: "download_world \<Rightarrow> artifact_row list" where
  "part_rows w \<equiv> artifacts (model_store w)"

definition world_backed :: "download_env \<Rightarrow> download_world \<Rightarrow> bool" where
  "world_backed env w \<longleftrightarrow> rows_named (part_rows w) \<and> list_all (row_backed env w) (part_rows w)"

definition has_row :: "string \<Rightarrow> (ArtifactState \<Rightarrow> bool) \<Rightarrow> download_world \<Rightarrow> ArtifactPlan \<Rightarrow> bool" where
  "has_row i P w a \<longleftrightarrow> list_ex (\<lambda>r. artifact_key r = (i, plan_artifact_id a) \<and> row_fits a r \<and> P (art_state r)) (part_rows w)"

text \<open>The artifacts \<open>ds\<close> of download \<open>i\<close> are done, \<open>us\<close> are still to come.\<close>

definition finished :: "download_env \<Rightarrow> string \<Rightarrow> ArtifactPlan list \<Rightarrow> ArtifactPlan list \<Rightarrow> download_world \<Rightarrow> bool" where
  "finished env i ds us w \<longleftrightarrow> world_backed env w \<and> list_all (has_row i (\<lambda>st. st = ArtVerified) w) ds \<and>
     list_all (has_row i (\<lambda>_. True) w) us"

text \<open>The part file of \<open>a\<close> is being written.\<close>

definition busy :: "download_env \<Rightarrow> string \<Rightarrow> ArtifactPlan list \<Rightarrow> ArtifactPlan \<Rightarrow> ArtifactPlan list \<Rightarrow> download_world \<Rightarrow> bool" where
  "busy env i ds a us w \<longleftrightarrow> finished env i ds us w \<and> has_row i (\<lambda>st. st \<noteq> ArtVerified) w a"

lemma has_row_fields [simp]:
  "has_row i P (w\<lparr>contacted := c\<rparr>) = has_row i P w" "has_row i P (put_part path bs w) = has_row i P w"
  by (simp_all add: has_row_def put_part_def fun_eq_iff)

lemma finished_fields [simp]: "finished env i ds us (w\<lparr>contacted := c\<rparr>) = finished env i ds us w"
  by (simp add: finished_def world_backed_def row_backed_def cong: list.pred_cong)

lemma busy_finished: "busy env i ds a us w \<Longrightarrow> finished env i ds (a # us) w"
  by (auto simp: busy_def finished_def has_row_def list_ex_iff)

lemma rows_of_key:
  assumes "rows_named rows" "r \<in> set rows" "q \<in> set rows" "artifact_key r = artifact_key q"
  shows "r = q"
  using assms distinct_key_unique unfolding rows_named_def by metis

text \<open>Writing the part file of an artifact that is not verified touches nobody else's.\<close>

lemma busy_put:
  assumes "busy env i ds a us w"
  shows "busy env i ds a us (put_part (part_path env i (plan_artifact_id a)) bs w)"
proof -
  from assms obtain q where q: "q \<in> set (part_rows w)" "artifact_key q = (i, plan_artifact_id a)" "art_state q \<noteq> ArtVerified"
    by (auto simp: busy_def has_row_def list_ex_iff)
  have named: "rows_named (part_rows w)" using assms by (simp add: busy_def finished_def world_backed_def)
  let ?w = "put_part (part_path env i (plan_artifact_id a)) bs w"
  have "row_backed env ?w r" if r: "r \<in> set (part_rows w)" for r
  proof (cases "artifact_key r = (i, plan_artifact_id a)")
    case True
    with rows_of_key [OF named r q(1)] q(2,3) show ?thesis by (simp add: row_backed_def)
  next
    case False
    have "part_path env (art_download_id r) (art_artifact_id r) \<noteq> part_path env i (plan_artifact_id a)"
      using part_path_inj [of "art_download_id r" i env] False named r q(1,2)
      by (auto simp: rows_named_def list_all_iff artifact_key_def)
    moreover have "row_backed env w r" using assms r by (simp add: busy_def finished_def world_backed_def list_all_iff)
    ultimately show ?thesis by (simp add: row_backed_def put_part_def)
  qed
  then show ?thesis
    using assms by (simp add: busy_def finished_def world_backed_def list_all_iff) (simp add: put_part_def)
qed

lemma busy_set_len:
  "busy env i ds a us w \<Longrightarrow> busy env i ds a us (set_len (part_path env i (plan_artifact_id a)) n w)"
  by (simp add: set_len_def Let_def busy_put)

subsection \<open>Checkpoints\<close>

lemma i64_try_from_Some: "i64_try_from v = Some n \<Longrightarrow> n = uint v"
  by (simp add: i64_try_from_def split: if_splits)

lemma save_checkpoint_rows:
  assumes "save_checkpoint now i cp s = Inr (x, s')"
  obtains bytes where "i64_try_from (cp_downloaded_bytes cp) = Some bytes"
    "artifacts s' = update_where (\<lambda>r. artifact_key r = (i, cp_artifact_id cp)) (checkpointed_row now bytes cp) (artifacts s)"
    "\<forall>r \<in> set (artifacts s). artifact_key r = (i, cp_artifact_id cp) \<longrightarrow> artifact_checks (checkpointed_row now bytes cp r)"
  using assms by (auto simp: save_checkpoint_def Let_def result_simps list_all_iff split: if_splits)

lemma checkpointed_row_simps [simp]:
  "art_download_id (checkpointed_row now b cp r) = art_download_id r"
  "art_artifact_id (checkpointed_row now b cp r) = art_artifact_id r"
  "artifact_key (checkpointed_row now b cp r) = artifact_key r"
  "row_fits a (checkpointed_row now b cp r) = row_fits a r"
  "art_state (checkpointed_row now b cp r) = cp_state cp"
  "art_expected_sha256 (checkpointed_row now b cp r) = art_expected_sha256 r"
  "art_expected_bytes (checkpointed_row now b cp r) = art_expected_bytes r"
  "art_downloaded_bytes (checkpointed_row now b cp r) = b"
  "art_temp_path (checkpointed_row now b cp r) = Some (cp_temp_path cp)"
  by (simp_all add: checkpointed_row_def artifact_key_def row_fits_def row_identity_def)

lemma rows_named_update:
  assumes "rows_named rows" "\<forall>r \<in> set rows. p r \<longrightarrow> artifact_checks (checkpointed_row now b cp r)"
  shows "rows_named (update_where p (checkpointed_row now b cp) rows)"
proof -
  have "map artifact_key (update_where p (checkpointed_row now b cp) rows) = map artifact_key rows"
    by (simp add: map_update_where)
  with assms show ?thesis by (auto simp: rows_named_def list_all_iff set_update_where)
qed

lemma has_row_update:
  assumes "has_row i P w b" "part_rows w' = update_where mine (checkpointed_row now n cp) (part_rows w)"
    and "\<And>r. r \<in> set (part_rows w) \<Longrightarrow> artifact_key r = (i, plan_artifact_id b) \<Longrightarrow> P (art_state r) \<Longrightarrow>
      Q (if mine r then cp_state cp else art_state r)"
  shows "has_row i Q w' b"
proof -
  from assms(1) obtain r where r: "r \<in> set (part_rows w)" "artifact_key r = (i, plan_artifact_id b)" "row_fits b r"
    "P (art_state r)" by (auto simp: has_row_def list_ex_iff)
  with assms(3) [OF r(1,2,4)] show ?thesis
    unfolding has_row_def list_ex_iff assms(2) set_update_where
    by (intro bexI [where x = "if mine r then checkpointed_row now n cp r else r"]) (auto split: if_splits)
qed

text \<open>A checkpoint that does not claim the artifact verified.\<close>

lemma busy_checkpoint:
  assumes busy: "busy env i ds a us w" and save: "save_checkpoint now i cp (model_store w) = Inr (x, s)"
    and cp: "cp_artifact_id cp = plan_artifact_id a" "cp_state cp \<noteq> ArtVerified"
  shows "busy env i ds a us (w\<lparr>model_store := s\<rparr>)"
proof -
  obtain n where s: "artifacts s = update_where (\<lambda>r. artifact_key r = (i, plan_artifact_id a)) (checkpointed_row now n cp) (part_rows w)"
    and checks: "\<forall>r \<in> set (part_rows w). artifact_key r = (i, plan_artifact_id a) \<longrightarrow> artifact_checks (checkpointed_row now n cp r)"
    using save_checkpoint_rows [OF save] cp(1) by metis
  let ?w = "w\<lparr>model_store := s\<rparr>"
  have w: "part_rows ?w = update_where (\<lambda>r. artifact_key r = (i, plan_artifact_id a)) (checkpointed_row now n cp) (part_rows w)"
    by (simp add: s)
  have named: "rows_named (part_rows w)" and backed: "list_all (row_backed env w) (part_rows w)"
    using busy by (simp_all add: busy_def finished_def world_backed_def)
  obtain q where q: "q \<in> set (part_rows w)" "artifact_key q = (i, plan_artifact_id a)" "art_state q \<noteq> ArtVerified"
    using busy by (auto simp: busy_def has_row_def list_ex_iff)
  have free: "artifact_key r \<noteq> (i, plan_artifact_id a)" if "r \<in> set (part_rows w)" "art_state r = ArtVerified" for r
    using rows_of_key [OF named that(1) q(1)] q(2,3) that(2) by auto
  have "list_all (has_row i (\<lambda>st. st = ArtVerified) ?w) ds"
    using busy free by (auto simp: list_all_iff busy_def finished_def intro!: has_row_update [OF _ w])
  moreover have "list_all (has_row i (\<lambda>_. True) ?w) us"
    using busy by (auto simp: list_all_iff busy_def finished_def intro!: has_row_update [OF _ w])
  moreover have "has_row i (\<lambda>st. st \<noteq> ArtVerified) ?w a"
    using busy cp(2) by (auto simp: busy_def intro!: has_row_update [OF _ w])
  moreover have "list_all (row_backed env ?w) (part_rows ?w)"
    using backed cp(2) unfolding w list_all_iff set_update_where by (auto simp: row_backed_def)
  moreover have "rows_named (part_rows ?w)" unfolding w by (rule rows_named_update [OF named checks])
  ultimately show ?thesis by (simp add: busy_def finished_def world_backed_def)
qed

text \<open>A checkpoint that does, of a part file that is as planned.\<close>

definition part_good :: "download_env \<Rightarrow> string \<Rightarrow> ArtifactPlan \<Rightarrow> download_world \<Rightarrow> bool" where
  "part_good env i a w \<longleftrightarrow> (\<exists>bs. part_files w (part_path env i (plan_artifact_id a)) = Some bs \<and>
     digest env bs = plan_expected_sha256 a \<and> length bs = unat (plan_expected_bytes a))"

lemma verified_checkpoint:
  assumes fin: "finished env i ds (a # us) w" and good: "part_good env i a w"
    and save: "save_checkpoint now i cp (model_store w) = Inr (x, s)"
    and cp: "cp_artifact_id cp = plan_artifact_id a" "cp_state cp = ArtVerified"
      "cp_downloaded_bytes cp = plan_expected_bytes a" "cp_temp_path cp = part_path env i (plan_artifact_id a)"
  shows "finished env i (a # ds) us (w\<lparr>model_store := s\<rparr>)"
proof -
  obtain n where s: "artifacts s = update_where (\<lambda>r. artifact_key r = (i, plan_artifact_id a)) (checkpointed_row now n cp) (part_rows w)"
    and n: "n = uint (plan_expected_bytes a)"
    and checks: "\<forall>r \<in> set (part_rows w). artifact_key r = (i, plan_artifact_id a) \<longrightarrow> artifact_checks (checkpointed_row now n cp r)"
    using save_checkpoint_rows [OF save] cp(1,3) by (metis i64_try_from_Some)
  let ?w = "w\<lparr>model_store := s\<rparr>"
  have w: "part_rows ?w = update_where (\<lambda>r. artifact_key r = (i, plan_artifact_id a)) (checkpointed_row now n cp) (part_rows w)"
    by (simp add: s)
  have named: "rows_named (part_rows w)" and backed: "list_all (row_backed env w) (part_rows w)"
    using fin by (simp_all add: finished_def world_backed_def)
  obtain q where q: "q \<in> set (part_rows w)" "artifact_key q = (i, plan_artifact_id a)" "row_fits a q"
    using fin by (auto simp: finished_def has_row_def list_ex_iff)
  have mine: "row_backed env ?w (checkpointed_row now n cp r)"
    if "r \<in> set (part_rows w)" "artifact_key r = (i, plan_artifact_id a)" for r
  proof -
    have "r = q" using rows_of_key [OF named that(1) q(1)] that(2) q(2) by simp
    with q(3) good that(2) show ?thesis
      by (auto simp: row_backed_def row_fits_def part_good_def artifact_key_def cp n)
  qed
  have "list_all (has_row i (\<lambda>st. st = ArtVerified) ?w) (a # ds)"
    using fin cp(2) by (auto simp: list_all_iff finished_def intro!: has_row_update [OF _ w])
  moreover have "list_all (has_row i (\<lambda>_. True) ?w) us"
    using fin by (auto simp: list_all_iff finished_def intro!: has_row_update [OF _ w])
  moreover have "list_all (row_backed env ?w) (part_rows ?w)"
    using backed mine unfolding w list_all_iff set_update_where by (auto simp: row_backed_def)
  moreover have "rows_named (part_rows ?w)" unfolding w by (rule rows_named_update [OF named checks])
  ultimately show ?thesis by (simp add: finished_def world_backed_def)
qed

subsection \<open>Reading a response\<close>

text \<open>While the part file of \<open>a\<close> is written: it is there, and what is known of its bytes.\<close>

definition writing ::
    "download_env \<Rightarrow> string \<Rightarrow> ArtifactPlan list \<Rightarrow> ArtifactPlan \<Rightarrow> ArtifactPlan list \<Rightarrow> (bytes \<Rightarrow> bool) \<Rightarrow> download_world \<Rightarrow> bool" where
  "writing env i ds a us F w \<longleftrightarrow> busy env i ds a us w \<and>
     (\<exists>bs. part_files w (part_path env i (plan_artifact_id a)) = Some bs \<and> F bs)"

lemma writing_backed [dest]: "writing env i ds a us F w \<Longrightarrow> world_backed env w"
  by (simp add: writing_def busy_def finished_def)

lemma finished_backed [dest]: "finished env i ds us w \<Longrightarrow> world_backed env w"
  by (simp add: finished_def)

lemma writing_any: "writing env i ds a us F w \<Longrightarrow> writing env i ds a us (\<lambda>_. True) w"
  by (auto simp: writing_def)

lemma part_bytes_Some [simp]: "part_files w path = Some bs \<Longrightarrow> part_bytes path w = bs"
  by (simp add: part_bytes_def)

lemma writing_put:
  assumes "writing env i ds a us F w" "G bs"
  shows "writing env i ds a us G (put_part (part_path env i (plan_artifact_id a)) bs w)"
  using assms busy_put unfolding writing_def by (simp add: put_part_def)

text \<open>A fact of every state on the way carries over the calls that change nothing.\<close>

lemma triple_kept:
  assumes "\<And>w. P w \<Longrightarrow> E w"
  shows "triple P (file_call env) (\<lambda>_. P) (\<lambda>_. E)" "triple P (revalidate env) (\<lambda>_. P) (\<lambda>_. E)"
    "triple P (ensure_runtime_current env) (\<lambda>_. P) (\<lambda>_. E)" "triple P (sync_part env) (\<lambda>_. P) (\<lambda>_. E)"
    "triple P (query env f) (\<lambda>x w. P w \<and> x = f (model_store w)) (\<lambda>_. E)"
    "triple P (part_len env path) (\<lambda>n w. P w \<and> n = length (part_bytes path w)) (\<lambda>_. E)"
    "triple P (part_sha256 env path) (\<lambda>h w. P w \<and> h = digest env (part_bytes path w)) (\<lambda>_. E)"
    "triple P (from_result r) (\<lambda>x w. P w \<and> r = Inr x) (\<lambda>_ :: manager_code. E)"
proof -
  have weaken: "triple P m Q (\<lambda>_. P) \<Longrightarrow> triple P m Q (\<lambda>_. E)" for m :: "(download_world, manager_code, 'z) program" and Q
    by (erule triple_post) (simp_all add: assms)
  note rules = triple_calls triple_selected triple_part_len triple_part_sha256 triple_pure_result
  show "triple P (file_call env) (\<lambda>_. P) (\<lambda>_. E)" "triple P (revalidate env) (\<lambda>_. P) (\<lambda>_. E)"
    "triple P (ensure_runtime_current env) (\<lambda>_. P) (\<lambda>_. E)" "triple P (sync_part env) (\<lambda>_. P) (\<lambda>_. E)"
    by (rule weaken, rule rules)+
  show "triple P (query env f) (\<lambda>x w. P w \<and> x = f (model_store w)) (\<lambda>_. E)" by (rule weaken, rule rules)
  show "triple P (part_len env path) (\<lambda>n w. P w \<and> n = length (part_bytes path w)) (\<lambda>_. E)" by (rule weaken, rule rules)
  show "triple P (part_sha256 env path) (\<lambda>h w. P w \<and> h = digest env (part_bytes path w)) (\<lambda>_. E)" by (rule weaken, rule rules)
  show "triple P (from_result r) (\<lambda>x w. P w \<and> r = Inr x) (\<lambda>_ :: manager_code. E)" by (rule weaken, rule rules)
qed

lemma triple_save_progress:
  assumes "st \<noteq> ArtVerified"
  shows "triple (writing env i ds a us F) (save_progress env i a identity path n etag modified st)
    (\<lambda>_. writing env i ds a us F) (\<lambda>_. world_backed env)"
  unfolding save_progress_def
  by (intro triple_chain [OF triple_kept(3)] triple_chain [OF triple_kept(2)] triple_statement)
    (use assms busy_checkpoint in \<open>auto simp: writing_def busy_def finished_def\<close>)

lemma triple_checkpoint_stream:
  assumes "st \<noteq> ArtVerified" "sc_download c = i" "sc_artifact c = a"
  shows "triple (writing env i ds a us F) (checkpoint_stream env c n st) (\<lambda>_. writing env i ds a us F) (\<lambda>_. world_backed env)"
  unfolding checkpoint_stream_def assms(2,3)
  by (rule triple_chain [OF triple_kept(4) triple_save_progress [OF assms(1)]]) auto

lemma triple_save_verified:
  "triple (\<lambda>w. finished env i ds (a # us) w \<and> part_good env i a w)
    (save_verified env i a (part_path env i (plan_artifact_id a))) (\<lambda>_. finished env i (a # ds) us) (\<lambda>_. world_backed env)"
  unfolding save_verified_def
  by (intro triple_chain [OF triple_kept(3)] triple_chain [OF triple_kept(2)] triple_statement)
    (use verified_checkpoint in \<open>auto simp: part_good_def\<close>)

lemma triple_write_append:
  "triple (writing env i ds a us (\<lambda>bs. length bs = n)) (write_part env (part_path env i (plan_artifact_id a)) n data)
    (\<lambda>_. writing env i ds a us (\<lambda>bs. length bs = n + length data)) (\<lambda>_. world_backed env)"
  unfolding write_part_def
proof (intro triple_chain [OF triple_tick] triple_if)
  fix k
  show "triple (writing env i ds a us (\<lambda>bs. length bs = n)) (chain (modify (\<lambda>w. put_part (part_path env i (plan_artifact_id a))
      (write_at n (take (written_before_failure env k) data) (part_bytes (part_path env i (plan_artifact_id a)) w)) w))
      (\<lambda>_. throw IO_FAILED)) (\<lambda>_. writing env i ds a us (\<lambda>bs. length bs = n + length data)) (\<lambda>_. world_backed env)"
    by (rule triple_chain [where R = "\<lambda>_. writing env i ds a us (\<lambda>_. True)"], rule triple_change)
      (auto intro: writing_put triple_throw)
  show "triple (writing env i ds a us (\<lambda>bs. length bs = n)) (modify (\<lambda>w. put_part (part_path env i (plan_artifact_id a))
      (write_at n data (part_bytes (part_path env i (plan_artifact_id a)) w)) w))
      (\<lambda>_. writing env i ds a us (\<lambda>bs. length bs = n + length data)) (\<lambda>_. world_backed env)"
    by (rule triple_change, rule writing_put) (auto simp: writing_def write_at_def)
qed

lemma triple_prepare_write:
  "triple (writing env i ds a us F) (prepare_write env (part_path env i (plan_artifact_id a)) n)
    (\<lambda>_. writing env i ds a us (\<lambda>bs. length bs = n)) (\<lambda>_. world_backed env)"
  "triple (writing env i ds a us F) (truncate_and_sync env (part_path env i (plan_artifact_id a)) n)
    (\<lambda>_. writing env i ds a us (\<lambda>bs. length bs = n)) (\<lambda>_. world_backed env)"
  by (rule triple_truncate; (auto simp: set_len_def Let_def intro: writing_put)?)+

text \<open>The loop writes what it counts.\<close>

lemma triple_stream:
  assumes "sc_download c = i" "sc_artifact c = a" "sc_path c = part_path env i (plan_artifact_id a)"
    "unat (sc_base c) + unat (sc_expected c) < 2 ^ 64" "written \<le> sc_expected c"
  shows "triple (writing env i ds a us (\<lambda>bs. length bs = unat (sc_base c) + unat written)) (stream env c written ck body)
    (\<lambda>n. writing env i ds a us (\<lambda>bs. length bs = unat (sc_base c) + unat n)) (\<lambda>_. world_backed env)"
  using assms
proof (induction env c written ck body rule: stream.induct)
  case (1 env c written ck body)
  let ?W = "\<lambda>n. writing env i ds a us (\<lambda>bs. length bs = unat (sc_base c) + unat (n :: u64))"
  note saved = triple_checkpoint_stream [OF _ "1.prems"(1,2)]
  have tail: "triple (?W m) (chain (checkpoint_stream env c m st) (\<lambda>_. k)) ?W (\<lambda>_. world_backed env)"
    if "st \<noteq> ArtVerified" "triple (?W m) k ?W (\<lambda>_. world_backed env)" for st m k
    by (rule triple_chain [OF saved [OF that(1)] that(2)])
  have fails: "triple (?W m) (throw e) ?W (\<lambda>_. world_backed env)" for m e by (rule triple_throw) auto
  have room: "unat (sc_base c + written) = unat (sc_base c) + unat written"
    using "1.prems"(4,5) by (simp add: word_le_nat_alt unat_word_ariths)
  have counted: "unat m = unat written + length (take COPY_BUFFER_BYTES data)"
    if "ok_or NETWORK (checked_add written (of_nat (length (take COPY_BUFFER_BYTES data)))) = Inr m" for m data
    using that by (simp add: result_simps checked_simps unat_of_nat COPY_BUFFER_BYTES_def min_def)
  show ?case
  proof (cases body)
    case Nil
    show ?thesis unfolding Nil stream.simps [of env c written ck "[]"] list.case
      by (intro triple_chain [OF triple_cancelled] triple_if tail fails triple_give) auto
  next
    case (Cons x rest)
    show ?thesis
    proof (cases x)
      case ReadFailed
      show ?thesis unfolding Cons ReadFailed stream.simps [of env c written ck "ReadFailed # rest"] list.case body_read.case
        by (intro triple_chain [OF triple_cancelled] triple_if tail fails triple_give) auto
    next
      case (ReadBytes data)
      show ?thesis unfolding Cons ReadBytes stream.simps [of env c written ck "ReadBytes data # rest"] list.case body_read.case Let_def
        apply (intro triple_chain [OF triple_cancelled] triple_if)
        subgoal by (intro tail fails) auto
        subgoal by (intro tail triple_give) auto
        subgoal for b
          apply (rule triple_chain [OF triple_kept(8)])
           apply blast
          apply (rule triple_fact)
          subgoal for m
            apply (intro triple_if)
             apply (intro tail fails, simp)
            apply (rule triple_chain [where R = "\<lambda>_. ?W m"])
            subgoal
              using counted [of data m] room triple_write_append [of env i ds a us "unat (sc_base c) + unat written" "take COPY_BUFFER_BYTES data"]
              by (simp add: "1.prems"(3) add.assoc)
            apply (rule triple_chain [OF triple_kept(8)])
             apply blast
            apply (rule triple_fact)
            by (intro triple_if tail "1.IH" "1.prems") (auto simp: Cons ReadBytes)
          done
        done
    qed
  qed
qed

lemma triple_received:
  assumes room: "unat base + unat expected = unat (plan_expected_bytes a)"
    and path: "path = part_path env i (plan_artifact_id a)"
  shows "triple (writing env i ds a us F)
    (chain (prepare_write env path (unat base)) (\<lambda>_.
     chain (stream env \<lparr>sc_download = i, sc_artifact = a, sc_path = path, sc_base = base, sc_etag = etag,
        sc_modified = modified, sc_expected = expected\<rparr> 0 0 body) (\<lambda>written.
     chain (sync_part env) (\<lambda>_.
     chain (from_result (ok_or NETWORK (checked_add base written))) (\<lambda>final_bytes.
     chain (save_progress env i a (source_identity a) path final_bytes etag modified ArtDownloaded) (\<lambda>_.
     if written \<noteq> expected then throw NETWORK
     else if final_bytes \<noteq> plan_expected_bytes a then throw INTEGRITY
     else chain (part_sha256 env path) (\<lambda>h.
       if h \<noteq> plan_expected_sha256 a then throw INTEGRITY else save_verified env i a path)))))))
    (\<lambda>_. finished env i (a # ds) us) (\<lambda>_. world_backed env)"
  unfolding path
proof (rule triple_chain [OF triple_prepare_write(1)])
  let ?c = "\<lparr>sc_download = i, sc_artifact = a, sc_path = part_path env i (plan_artifact_id a), sc_base = base, sc_etag = etag,
    sc_modified = modified, sc_expected = expected\<rparr>"
  let ?W = "\<lambda>n. writing env i ds a us (\<lambda>bs. length bs = unat base + unat (n :: u64))"
  have limit: "unat base + unat expected < 2 ^ 64"
    using unat_less_exp [of "plan_expected_bytes a"] by (simp add: room)
  have good: "finished env i ds (a # us) w \<and> part_good env i a w"
    if "?W n w" "unat final = unat base + unat n" "final = plan_expected_bytes a"
      "h = digest env (part_bytes (part_path env i (plan_artifact_id a)) w)" "h = plan_expected_sha256 a" for w n final h
    using that busy_finished by (auto simp: writing_def part_good_def)
  have read: "triple (writing env i ds a us (\<lambda>bs. length bs = unat base)) (stream env ?c 0 0 body) ?W (\<lambda>_. world_backed env)"
    using triple_stream [of ?c i a env 0 ds us 0 body] limit by simp
  show "triple (writing env i ds a us (\<lambda>bs. length bs = unat base)) (chain (stream env ?c 0 0 body) (\<lambda>written.
     chain (sync_part env) (\<lambda>_.
     chain (from_result (ok_or NETWORK (checked_add base written))) (\<lambda>final_bytes.
     chain (save_progress env i a (source_identity a) (part_path env i (plan_artifact_id a)) final_bytes etag modified ArtDownloaded) (\<lambda>_.
     if written \<noteq> expected then throw NETWORK
     else if final_bytes \<noteq> plan_expected_bytes a then throw INTEGRITY
     else chain (part_sha256 env (part_path env i (plan_artifact_id a))) (\<lambda>h.
       if h \<noteq> plan_expected_sha256 a then throw INTEGRITY
       else save_verified env i a (part_path env i (plan_artifact_id a))))))))
    (\<lambda>_. finished env i (a # ds) us) (\<lambda>_. world_backed env)" for u :: unit
    apply (rule triple_chain [OF read])
    apply (rule triple_chain [OF triple_kept(4)], blast)
    apply (rule triple_chain [OF triple_kept(8)], blast, rule triple_fact)
    apply (rule triple_chain [OF triple_save_progress], simp)
    apply (rule triple_guard, blast, rule triple_guard, blast)
    apply (rule triple_chain [OF triple_kept(7)], blast)
    apply (rule triple_guard, blast)
    apply (rule triple_pre [OF triple_save_verified])
    apply (auto simp: result_simps checked_simps dest: good)
    done
qed

lemma triple_receive:
  assumes "start \<le> plan_expected_bytes a"
  shows "triple (writing env i ds a us F) (receive env i a (part_path env i (plan_artifact_id a)) start r)
    (\<lambda>_. finished env i (a # ds) us) (\<lambda>_. world_backed env)"
  unfolding receive_def Let_def
  by (intro triple_chain [OF triple_kept(8)] triple_fact triple_guard triple_received)
    (use assms in \<open>auto simp: unat_sub word_le_nat_alt\<close>)

subsection \<open>Requests\<close>

lemma triple_follow:
  assumes "\<And>w c. P w \<Longrightarrow> P (w\<lparr>contacted := c\<rparr>)" "\<And>w. P w \<Longrightarrow> E w"
  shows "triple P (follow env r k current) (\<lambda>_. P) (\<lambda>_. E)"
proof (induction k arbitrary: current)
  case 0
  then show ?case using assms(2) by (simp add: triple_throw)
next
  case (Suc k)
  have redirect: "triple P (chain (from_result (ok_or NETWORK (location_header h))) (\<lambda>loc.
      chain (from_result (ok_or INVALID_SOURCE (join_web_url env current loc))) (\<lambda>next_url.
      chain (from_result (validate_shipping next_url (want_redirect_hosts r))) (\<lambda>_. follow env r k next_url))))
      (\<lambda>_. P) (\<lambda>_. E)" for h
    by (intro triple_chain [OF triple_kept(8)] triple_fact assms(2) Suc)
  show ?case unfolding follow.simps
    by (rule triple_chain [where R = "\<lambda>_. P"], rule triple_change, erule assms(1), rule triple_chain [OF triple_tick])
      (use redirect in \<open>auto split: option.split intro!: triple_throw triple_give assms(2)\<close>)
qed

lemma triple_execute:
  assumes "\<And>w c. P w \<Longrightarrow> P (w\<lparr>contacted := c\<rparr>)" "\<And>w. P w \<Longrightarrow> E w"
  shows "triple P (execute_reqwest env r) (\<lambda>_. P) (\<lambda>_. E)"
  unfolding execute_reqwest_def
  by (intro triple_chain [OF triple_kept(8)] triple_fact triple_follow) (use assms in auto)

lemma writing_contacted: "writing env i ds a us F w \<Longrightarrow> writing env i ds a us F (w\<lparr>contacted := c\<rparr>)"
  by (simp add: writing_def busy_def)

lemma triple_fetch:
  assumes "start \<le> plan_expected_bytes a"
  shows "triple (writing env i ds a us F) (fetch env i a (part_path env i (plan_artifact_id a)) oe om k start)
    (\<lambda>_. finished env i (a # ds) us) (\<lambda>_. world_backed env)"
  using assms
proof (induction k arbitrary: start)
  case 0
  then show ?case by (auto intro: triple_throw)
next
  case (Suc k)
  show ?case unfolding fetch.simps
    by (intro triple_chain [OF triple_cancelled] triple_guard triple_chain [OF triple_execute] triple_chain [OF triple_kept(8)]
        triple_fact triple_if Suc.IH triple_receive)
      (use Suc.prems writing_contacted in auto)
qed

text \<open>Afterwards the part file has exactly the bytes that need not be asked for again.\<close>

lemma triple_resume_offset:
  assumes "\<And>x. valid = Some x \<Longrightarrow> cp_downloaded_bytes x \<le> plan_expected_bytes a"
  shows "triple (writing env i ds a us (\<lambda>bs. length bs = len))
    (resume_offset env i a (part_path env i (plan_artifact_id a)) valid len)
    (\<lambda>n w. writing env i ds a us (\<lambda>bs. length bs = unat n) w \<and> n \<le> plan_expected_bytes a) (\<lambda>_. world_backed env)"
proof -
  let ?W = "\<lambda>n. writing env i ds a us (\<lambda>bs. length bs = n)"
  let ?Q = "\<lambda>n w. ?W (unat n) w \<and> n \<le> plan_expected_bytes a"
  have cut: "triple (?W len) (chain (truncate_and_sync env (part_path env i (plan_artifact_id a)) (unat n)) (\<lambda>_. give n))
      ?Q (\<lambda>_. world_backed env)" if "n \<le> plan_expected_bytes a" for n
    by (rule triple_chain [OF triple_prepare_write(2)]) (use that in \<open>auto intro!: triple_give\<close>)
  show ?thesis
  proof (cases valid)
    case None
    have "triple (?W 0) (chain (give ()) (\<lambda>_. give 0) :: u64 downloading) ?Q (\<lambda>_. world_backed env)"
      by (rule triple_chain [where R = "\<lambda>_. ?W 0"]) (auto intro: triple_give)
    with cut [of 0] None show ?thesis by (cases "len = 0") (simp_all add: resume_offset_def)
  next
    case (Some x)
    have le: "cp_downloaded_bytes x \<le> plan_expected_bytes a" using assms Some by simp
    have short: "of_nat len \<le> plan_expected_bytes a \<and> unat (of_nat len :: u64) = len" if "len < unat (cp_downloaded_bytes x)"
    proof -
      have "unat (of_nat len :: u64) = len"
        using that unat_less_exp [of "cp_downloaded_bytes x"] by (simp add: unat_of_nat)
      with that le show ?thesis by (simp add: word_le_nat_alt)
    qed
    have same: "?Q (cp_downloaded_bytes x) w" if "?W len w" "\<not> unat (cp_downloaded_bytes x) < len" "\<not> len < unat (cp_downloaded_bytes x)" for w
      using that le by (simp add: linorder_neq_iff)
    show ?thesis unfolding resume_offset_def Some option.case
      by (intro triple_if cut triple_give triple_chain [OF triple_save_progress] same) (use le short in auto)
  qed
qed

subsection \<open>One artifact\<close>

lemma find_row:
  assumes "rows_named (artifacts s)" "r \<in> set (artifacts s)" "artifact_key r = (i, b)"
  shows "find_artifact i b s = Some r"
proof -
  have "distinct (map artifact_key (artifacts s))" using assms(1) by (simp add: rows_named_def)
  from find_unique_key [OF this assms(2), of "\<lambda>_. True"] assms(3) show ?thesis by (simp add: find_artifact_def)
qed

lemma has_row_found:
  assumes "has_row i P w a" "world_backed env w"
  obtains r where "r \<in> set (part_rows w)" "find_artifact i (plan_artifact_id a) (model_store w) = Some r"
    "artifact_key r = (i, plan_artifact_id a)" "row_fits a r" "P (art_state r)" "row_backed env w r" "artifact_checks r"
proof -
  from assms(1) obtain r where r: "r \<in> set (part_rows w)" "artifact_key r = (i, plan_artifact_id a)" "row_fits a r"
    "P (art_state r)" by (auto simp: has_row_def list_ex_iff)
  moreover have "find_artifact i (plan_artifact_id a) (model_store w) = Some r"
    using find_row assms(2) r(1,2) by (simp add: world_backed_def)
  moreover have "row_backed env w r" "artifact_checks r"
    using assms(2) r(1) by (auto simp: world_backed_def rows_named_def list_all_iff)
  ultimately show thesis using that by blast
qed

lemma bounded_word:
  assumes "0 \<le> n" "n \<le> uint (x :: u64)"
  shows "word_of_int n \<le> x"
proof -
  have "n < 2 ^ 64" using assms(2) uint_bounded [of x] by simp
  with assms show ?thesis by (simp add: word_le_def uint_word_of_int)
qed

text \<open>A checkpoint never counts more than the artifact has.\<close>

lemma checkpoint_bounded:
  assumes "finished env i ds (a # us) w" "checkpoint i (plan_artifact_id a) (model_store w) = Some x"
  shows "cp_downloaded_bytes x \<le> plan_expected_bytes a"
proof -
  have "has_row i (\<lambda>_. True) w a" "world_backed env w" using assms(1) by (simp_all add: finished_def)
  then obtain r where "find_artifact i (plan_artifact_id a) (model_store w) = Some r" "row_fits a r" "artifact_checks r"
    by (rule has_row_found)
  with assms(2) show ?thesis
    by (auto simp: checkpoint_def checkpoint_of_def row_fits_def artifact_checks_def intro!: bounded_word)
qed

text \<open>What is verified already stays as it is and is found complete.\<close>

definition already :: "download_env \<Rightarrow> string \<Rightarrow> ArtifactPlan list \<Rightarrow> ArtifactPlan \<Rightarrow> ArtifactPlan list \<Rightarrow> download_world \<Rightarrow> bool" where
  "already env i ds a us w \<longleftrightarrow> finished env i ds (a # us) w \<and> has_row i (\<lambda>st. st = ArtVerified) w a"

lemma busy_or_already: "finished env i ds (a # us) w \<Longrightarrow> busy env i ds a us w \<or> already env i ds a us w"
  by (auto simp: busy_def already_def finished_def has_row_def list_ex_iff)

lemma already_good:
  assumes "already env i ds a us w"
  shows "part_good env i a w"
    "\<exists>x. valid_checkpoint a (part_path env i (plan_artifact_id a)) (checkpoint i (plan_artifact_id a) (model_store w)) = Some x \<and>
      cp_downloaded_bytes x = plan_expected_bytes a"
proof -
  have "has_row i (\<lambda>st. st = ArtVerified) w a" "world_backed env w"
    using assms by (simp_all add: already_def finished_def)
  then obtain r where r: "find_artifact i (plan_artifact_id a) (model_store w) = Some r"
    "artifact_key r = (i, plan_artifact_id a)" "row_fits a r" "art_state r = ArtVerified" "row_backed env w r"
    by (rule has_row_found)
  have "n = unat x" if "int n = uint x" for n and x :: u64 using that by (simp add: unat_eq_nat_uint flip: that)
  with r show "part_good env i a w"
    by (auto simp: row_backed_def row_fits_def part_good_def artifact_key_def)
  show "\<exists>x. valid_checkpoint a (part_path env i (plan_artifact_id a)) (checkpoint i (plan_artifact_id a) (model_store w)) = Some x \<and>
      cp_downloaded_bytes x = plan_expected_bytes a"
    using r by (auto simp: row_backed_def row_fits_def checkpoint_def checkpoint_of_def valid_checkpoint_def artifact_key_def)
qed

lemma triple_open:
  assumes "\<And>w. P w \<Longrightarrow> Q (put_part path (part_bytes path w) w)" "\<And>w. P w \<Longrightarrow> E w" "\<And>w. Q w \<Longrightarrow> E w"
  shows "triple P (open_download_part env path) (\<lambda>_. Q) (\<lambda>_. E)"
  unfolding open_download_part_def
  by (rule triple_chain [OF triple_kept(1)], erule assms(2), rule triple_chain [where R = "\<lambda>_. Q"], rule triple_change,
      erule assms(1), rule triple_kept(1), erule assms(3))

lemma download_busy:
  "triple (busy env i ds a us) (download_artifact env i a) (\<lambda>_. finished env i (a # ds) us) (\<lambda>_. world_backed env)"
  unfolding download_artifact_def Let_def
proof (rule triple_chain [OF triple_open [where Q = "writing env i ds a us (\<lambda>_. True)"]])
  let ?W = "writing env i ds a us" and ?path = "part_path env i (plan_artifact_id a)"
  let ?finish = "\<lambda>cp offset. chain (if offset = plan_expected_bytes a
        then chain (part_sha256 env ?path) (\<lambda>h. give (h = plan_expected_sha256 a)) else give False) (\<lambda>complete.
     if complete then save_verified env i a ?path
     else fetch env i a ?path (Option.bind cp cp_etag) (Option.bind cp cp_last_modified) 2
       (if offset = plan_expected_bytes a then 0 else offset))"
  show "?W (\<lambda>_. True) (put_part ?path (part_bytes ?path w) w)" if "busy env i ds a us w" for w
    using busy_put [OF that] by (simp add: writing_def put_part_def)
  have finish: "triple (?W (\<lambda>bs. length bs = unat offset)) (?finish cp offset) (\<lambda>_. finished env i (a # ds) us) (\<lambda>_. world_backed env)"
    if "offset \<le> plan_expected_bytes a" for offset cp
  proof (rule triple_chain [where R = "\<lambda>c w. ?W (\<lambda>bs. length bs = unat offset) w \<and> (c \<longrightarrow> part_good env i a w)"])
    show "triple (?W (\<lambda>bs. length bs = unat offset)) (if offset = plan_expected_bytes a
        then chain (part_sha256 env ?path) (\<lambda>h. give (h = plan_expected_sha256 a)) else give False)
        (\<lambda>c w. ?W (\<lambda>bs. length bs = unat offset) w \<and> (c \<longrightarrow> part_good env i a w)) (\<lambda>_. world_backed env)"
      by (intro triple_if triple_chain [OF triple_kept(7)] triple_give) (auto simp: part_good_def writing_def busy_def finished_def)
    show "triple (\<lambda>w. ?W (\<lambda>bs. length bs = unat offset) w \<and> (c \<longrightarrow> part_good env i a w))
        (if c then save_verified env i a ?path
         else fetch env i a ?path (Option.bind cp cp_etag) (Option.bind cp cp_last_modified) 2
           (if offset = plan_expected_bytes a then 0 else offset)) (\<lambda>_. finished env i (a # ds) us) (\<lambda>_. world_backed env)" for c
      by (intro triple_if triple_pre [OF triple_save_verified] triple_pre [OF triple_fetch])
        (use that busy_finished in \<open>auto simp: writing_def\<close>)
  qed
  show "triple (?W (\<lambda>_. True)) (chain (query env (checkpoint i (plan_artifact_id a))) (\<lambda>cp.
     chain (part_len env ?path) (\<lambda>len.
     chain (resume_offset env i a ?path (valid_checkpoint a ?path cp) len) (?finish cp))))
     (\<lambda>_. finished env i (a # ds) us) (\<lambda>_. world_backed env)"
  proof (rule triple_chain [OF triple_kept(5)], blast)
    fix cp
    let ?bound = "\<forall>x. valid_checkpoint a ?path cp = Some x \<longrightarrow> cp_downloaded_bytes x \<le> plan_expected_bytes a"
    have bound: ?bound if "?W (\<lambda>_. True) w" "cp = checkpoint i (plan_artifact_id a) (model_store w)" for w
      using that checkpoint_bounded [OF busy_finished] by (auto simp: writing_def valid_checkpoint_def split: option.splits if_splits)
    show "triple (\<lambda>w. ?W (\<lambda>_. True) w \<and> cp = checkpoint i (plan_artifact_id a) (model_store w)) (chain (part_len env ?path) (\<lambda>len.
       chain (resume_offset env i a ?path (valid_checkpoint a ?path cp) len) (?finish cp)))
       (\<lambda>_. finished env i (a # ds) us) (\<lambda>_. world_backed env)"
    proof (rule triple_pre [where P = "\<lambda>w. ?W (\<lambda>_. True) w \<and> ?bound"], rule triple_fact, rule triple_chain [OF triple_kept(6)], blast)
      fix len
      assume ?bound
      then have "triple (?W (\<lambda>bs. length bs = len)) (chain (resume_offset env i a ?path (valid_checkpoint a ?path cp) len) (?finish cp))
        (\<lambda>_. finished env i (a # ds) us) (\<lambda>_. world_backed env)"
        by (intro triple_chain [OF triple_resume_offset] triple_fact finish) auto
      then show "triple (\<lambda>w. ?W (\<lambda>_. True) w \<and> len = length (part_bytes ?path w))
        (chain (resume_offset env i a ?path (valid_checkpoint a ?path cp) len) (?finish cp))
        (\<lambda>_. finished env i (a # ds) us) (\<lambda>_. world_backed env)"
        by (rule triple_pre) (auto simp: writing_def)
    qed (use bound in auto)
  qed
qed (auto simp: busy_def finished_def)

lemma already_bytes:
  assumes "already env i ds a us w"
  shows "digest env (part_bytes (part_path env i (plan_artifact_id a)) w) = plan_expected_sha256 a"
    "length (part_bytes (part_path env i (plan_artifact_id a)) w) = unat (plan_expected_bytes a)"
  using already_good(1) [OF assms] by (auto simp: part_good_def)

lemma already_put:
  assumes "already env i ds a us w"
  shows "put_part (part_path env i (plan_artifact_id a)) (part_bytes (part_path env i (plan_artifact_id a)) w) w = w"
proof -
  obtain bs where "part_files w (part_path env i (plan_artifact_id a)) = Some bs"
    using already_good(1) [OF assms] by (auto simp: part_good_def)
  then show ?thesis by (simp add: put_part_def fun_upd_idem)
qed

lemma download_already:
  "triple (already env i ds a us) (download_artifact env i a) (\<lambda>_. finished env i (a # ds) us) (\<lambda>_. world_backed env)"
  unfolding download_artifact_def Let_def
proof (rule triple_chain [OF triple_open [where Q = "already env i ds a us"]])
  let ?A = "already env i ds a us" and ?path = "part_path env i (plan_artifact_id a)" and ?n = "plan_expected_bytes a"
  let ?finish = "\<lambda>cp offset. chain (if offset = ?n
        then chain (part_sha256 env ?path) (\<lambda>h. give (h = plan_expected_sha256 a)) else give False) (\<lambda>complete.
     if complete then save_verified env i a ?path
     else fetch env i a ?path (Option.bind cp cp_etag) (Option.bind cp cp_last_modified) 2 (if offset = ?n then 0 else offset))"
  show "?A (put_part ?path (part_bytes ?path w) w)" if "?A w" for w
    using that by (simp add: already_put)
  show backed: "?A w \<Longrightarrow> world_backed env w" "?A w \<Longrightarrow> world_backed env w" for w
    by (simp_all add: already_def finished_def)
  have finish: "triple ?A (?finish cp ?n) (\<lambda>_. finished env i (a # ds) us) (\<lambda>_. world_backed env)" for cp
  proof (rule triple_chain [where R = "\<lambda>c w. ?A w \<and> c"])
    show "triple ?A (if ?n = ?n then chain (part_sha256 env ?path) (\<lambda>h. give (h = plan_expected_sha256 a)) else give False)
        (\<lambda>c w. ?A w \<and> c) (\<lambda>_. world_backed env)"
      by (intro triple_if triple_chain [OF triple_kept(7)] triple_give)
        (auto simp: already_bytes dest: backed)
    show "triple (\<lambda>w. ?A w \<and> c) (if c then save_verified env i a ?path
         else fetch env i a ?path (Option.bind cp cp_etag) (Option.bind cp cp_last_modified) 2
           (if ?n = ?n then 0 else ?n)) (\<lambda>_. finished env i (a # ds) us) (\<lambda>_. world_backed env)" for c
      by (rule triple_fact, simp, rule triple_pre [OF triple_save_verified]) (auto simp: already_good(1) already_def)
  qed
  show "triple ?A (chain (query env (checkpoint i (plan_artifact_id a))) (\<lambda>cp.
     chain (part_len env ?path) (\<lambda>len.
     chain (resume_offset env i a ?path (valid_checkpoint a ?path cp) len) (?finish cp))))
     (\<lambda>_. finished env i (a # ds) us) (\<lambda>_. world_backed env)"
  proof (rule triple_chain [OF triple_kept(5)], rule backed, assumption)
    fix cp
    let ?full = "\<exists>x. valid_checkpoint a ?path cp = Some x \<and> cp_downloaded_bytes x = ?n"
    show "triple (\<lambda>w. ?A w \<and> cp = checkpoint i (plan_artifact_id a) (model_store w)) (chain (part_len env ?path) (\<lambda>len.
       chain (resume_offset env i a ?path (valid_checkpoint a ?path cp) len) (?finish cp)))
       (\<lambda>_. finished env i (a # ds) us) (\<lambda>_. world_backed env)"
    proof (rule triple_pre [where P = "\<lambda>w. ?A w \<and> ?full"], rule triple_fact, rule triple_chain [OF triple_kept(6)], erule backed)
      fix len
      assume ?full
      then obtain x where x: "valid_checkpoint a ?path cp = Some x" "cp_downloaded_bytes x = ?n" by blast
      have run: "triple ?A (chain (resume_offset env i a ?path (Some x) (unat ?n)) (?finish cp))
        (\<lambda>_. finished env i (a # ds) us) (\<lambda>_. world_backed env)"
      proof (rule triple_chain [where R = "\<lambda>n w. ?A w \<and> n = ?n"])
        show "triple ?A (resume_offset env i a ?path (Some x) (unat ?n)) (\<lambda>n w. ?A w \<and> n = ?n) (\<lambda>_. world_backed env)"
          by (simp add: resume_offset_def x(2) triple_give)
        show "triple (\<lambda>w. ?A w \<and> n = ?n) (?finish cp n) (\<lambda>_. finished env i (a # ds) us) (\<lambda>_. world_backed env)" for n
          by (rule triple_fact, erule ssubst, rule finish)
      qed
      show "triple (\<lambda>w. ?A w \<and> len = length (part_bytes ?path w))
        (chain (resume_offset env i a ?path (valid_checkpoint a ?path cp) len) (?finish cp))
        (\<lambda>_. finished env i (a # ds) us) (\<lambda>_. world_backed env)"
        unfolding x(1)
      proof (rule triple_pre [where P = "\<lambda>w. ?A w \<and> len = unat ?n"], rule triple_fact)
        assume "len = unat ?n"
        then show "triple ?A (chain (resume_offset env i a ?path (Some x) len) (?finish cp))
          (\<lambda>_. finished env i (a # ds) us) (\<lambda>_. world_backed env)" using run by (simp only:)
      qed (auto simp: already_bytes)
    qed (use already_good(2) in blast)
  qed
qed

lemma triple_download_artifact:
  "triple (finished env i ds (a # us)) (download_artifact env i a) (\<lambda>_. finished env i (a # ds) us) (\<lambda>_. world_backed env)"
  by (rule triple_pre [OF triple_or [OF download_busy download_already]]) (rule busy_or_already)

subsection \<open>A whole download\<close>

lemma finished_state:
  assumes "set_download_state now i st code s = Inr (x, s')"
  shows "finished env j ds us (w\<lparr>model_store := s'\<rparr>) = finished env j ds us (w\<lparr>model_store := s\<rparr>)"
    "world_backed env (w\<lparr>model_store := s'\<rparr>) = world_backed env (w\<lparr>model_store := s\<rparr>)"
proof -
  have "artifacts s' = artifacts s" using assms by (auto simp: set_download_state_def Let_def split: if_splits)
  then show "finished env j ds us (w\<lparr>model_store := s'\<rparr>) = finished env j ds us (w\<lparr>model_store := s\<rparr>)"
    "world_backed env (w\<lparr>model_store := s'\<rparr>) = world_backed env (w\<lparr>model_store := s\<rparr>)"
    by (simp_all add: finished_def world_backed_def has_row_def row_backed_def fun_eq_iff list_all_iff)
qed

lemma triple_set_state:
  "triple (finished env j ds us) (statement env (\<lambda>now. set_download_state now i st code)) (\<lambda>_. finished env j ds us) (\<lambda>_. world_backed env)"
  "triple (world_backed env) (statement env (\<lambda>now. set_download_state now i st code)) (\<lambda>_. world_backed env) (\<lambda>_. world_backed env)"
  by (rule triple_statement; auto simp: finished_state)+

lemma triple_download_all:
  "triple (finished env i ds us) (download_all env i us) (\<lambda>_. finished env i (rev us @ ds) []) (\<lambda>_. world_backed env)"
proof (induction us arbitrary: ds)
  case Nil
  then show ?case by (simp add: triple_give)
next
  case (Cons a us)
  have "triple (finished env i ds (a # us)) (attempt (download_artifact env i a) (\<lambda>r. case r of
     Inl e \<Rightarrow> chain (statement env (\<lambda>now. set_download_state now i
        (if e = CANCELLED then DlCancelled else DlFailed) (Some e))) (\<lambda>_. throw e)
   | Inr _ \<Rightarrow> download_all env i us)) (\<lambda>_. finished env i (rev us @ a # ds) []) (\<lambda>_. world_backed env)"
    by (rule triple_attempt [OF triple_download_artifact])
      (auto intro: Cons.IH triple_chain [OF triple_set_state(2) triple_throw])
  then show ?case by simp
qed

lemma triple_download_existing:
  "triple (finished env i [] (plan_artifacts p)) (download_existing env p i)
    (\<lambda>_. finished env i (rev (plan_artifacts p)) []) (\<lambda>_. world_backed env)"
  unfolding download_existing_def
  by (intro triple_chain [OF triple_kept(1)] triple_chain [OF triple_set_state(1)] triple_set_state(1)
      triple_chain [OF triple_download_all [where ds = "[]", simplified]]) auto

lemma check_artifacts_ids:
  assumes "check_artifacts ids paths as = Inr u" "a \<in> set as"
  shows "validate_component (plan_artifact_id a) = Inr ()"
  using assms by (induction "as" arbitrary: ids paths) (auto simp: result_simps split: if_splits)

lemma valid_plan_ids:
  assumes "validate_plan p = Inr u" "a \<in> set (plan_artifacts p)"
  shows "validate_component (plan_artifact_id a) = Inr ()"
  using assms by (auto simp: validate_plan_def result_simps dest: check_artifacts_ids split: if_splits)

lemma insert_artifacts_rows:
  assumes "insert_artifacts i now as s = Inr s'" "rows_named (artifacts s)" "validate_component i = Inr ()"
    "\<And>a. a \<in> set as \<Longrightarrow> validate_component (plan_artifact_id a) = Inr ()"
  shows "rows_named (artifacts s') \<and> set (artifacts s') = set (artifacts s) \<union>
    (\<lambda>a. new_artifact_row i now a (uint (plan_expected_bytes a))) ` set as"
  using assms
proof (induction "as" arbitrary: s)
  case (Cons a rest)
  let ?r = "new_artifact_row i now a (uint (plan_expected_bytes a))"
  obtain t where t: "insert_artifact ?r s = Inr t" "insert_artifacts i now rest t = Inr s'"
    using Cons.prems(1) by (auto simp: result_simps dest: i64_try_from_Some)
  have "rows_named (artifacts t)" "set (artifacts t) = insert ?r (set (artifacts s))"
    using t(1) Cons.prems(2,3) Cons.prems(4) [of a]
    by (auto simp: insert_artifact_def rows_named_def new_artifact_row_def split: if_splits)
  with Cons.IH [OF t(2)] Cons.prems(3,4) show ?case by auto
qed simp

lemma new_row_fits: "row_fits a (new_artifact_row i now a (uint (plan_expected_bytes a)))"
  by (simp add: row_fits_def row_identity_def source_identity_def new_artifact_row_def)

lemma begin_download_finished:
  assumes "world_backed env w" "begin_download uuid now p (model_store w) = Inr (i, s)" "validate_plan p = Inr u"
    "validate_component (''mdl_'' @ uuid) = Inr ()"
  shows "finished env i [] (plan_artifacts p) (w\<lparr>model_store := s\<rparr>)"
proof -
  obtain r t where i: "i = ''mdl_'' @ uuid" and r: "insert_download r (model_store w) = Inr t"
    and ins: "insert_artifacts i now (plan_artifacts p) t = Inr s"
    using assms(2) by (auto simp: begin_download_def Let_def result_simps)
  have t: "artifacts t = part_rows w" "insert_artifacts i now (plan_artifacts p) t = Inr s"
    using r ins by (auto simp: insert_download_def split: if_splits)
  have s: "rows_named (artifacts s)" "set (artifacts s) = set (part_rows w) \<union>
      (\<lambda>a. new_artifact_row i now a (uint (plan_expected_bytes a))) ` set (plan_artifacts p)"
    using insert_artifacts_rows [OF t(2)] assms(1,4) valid_plan_ids [OF assms(3)] by (simp_all add: t(1) world_backed_def i)
  have "row_backed env (w\<lparr>model_store := s\<rparr>) r" if "r \<in> set (artifacts s)" for r
    using that assms(1) unfolding s(2) by (auto simp: row_backed_def new_artifact_row_def world_backed_def list_all_iff)
  then have "world_backed env (w\<lparr>model_store := s\<rparr>)" using s(1) by (simp add: world_backed_def list_all_iff)
  moreover have "has_row i (\<lambda>_. True) (w\<lparr>model_store := s\<rparr>) a" if "a \<in> set (plan_artifacts p)" for a
    unfolding has_row_def list_ex_iff
    by (rule bexI [where x = "new_artifact_row i now a (uint (plan_expected_bytes a))"])
      (use that in \<open>auto simp: s(2) new_row_fits\<close>, simp add: artifact_key_def new_artifact_row_def)
  ultimately show ?thesis by (simp add: finished_def list_all_iff)
qed

lemma triple_sum_remaining: "triple (world_backed env) (sum_remaining env i as n) (\<lambda>_. world_backed env) (\<lambda>_. world_backed env)"
proof (induction "as" arbitrary: n)
  case Nil
  then show ?case by (simp add: triple_give)
next
  case (Cons a rest)
  have asked: "triple (world_backed env) (case i of None \<Rightarrow> give None | Some i \<Rightarrow> query env (checkpoint i (plan_artifact_id a)))
      (\<lambda>_. world_backed env) (\<lambda>_. world_backed env)"
    by (auto split: option.split intro: triple_give triple_post [OF triple_kept(5)])
  have size: "triple (world_backed env) (checkpointed_size env cp) (\<lambda>_. world_backed env) (\<lambda>_. world_backed env)" for cp
    by (auto simp: checkpointed_size_def split: option.split intro: triple_give triple_post [OF triple_kept(6)])
  show ?case unfolding sum_remaining.simps
    by (intro triple_chain [OF asked] triple_chain [OF size] triple_chain [OF triple_kept(8)] triple_fact Cons.IH)
qed

lemma triple_preflight: "triple (world_backed env) (preflight_disk env p i) (\<lambda>_. world_backed env) (\<lambda>_. world_backed env)"
  unfolding preflight_disk_def required_additional_free_def
  apply (rule triple_chain [where R = "\<lambda>_. world_backed env"])
   apply (rule triple_chain [OF triple_sum_remaining], rule triple_chain [OF triple_kept(1)], assumption)
   apply (rule triple_from_result, assumption, assumption)
  apply (rule triple_chain [OF triple_kept(1)], assumption, rule triple_chain [OF triple_tick], rule triple_guard, assumption)
  apply (rule triple_give, assumption)
  done

lemma triple_download_only:
  assumes "\<And>n. validate_component (''mdl_'' @ drawn_uuid env n) = Inr ()"
  shows "triple (world_backed env) (download_only env p d) (\<lambda>i. finished env i (rev (plan_artifacts p)) []) (\<lambda>_. world_backed env)"
  unfolding download_only_def
  apply (rule triple_chain [OF triple_kept(3)], assumption)
  apply (rule triple_chain [OF triple_kept(8)], assumption, rule triple_fact)
  apply (rule triple_chain [OF triple_kept(8)], assumption, rule triple_fact)
  apply (rule triple_chain [OF triple_preflight])
  apply (rule triple_chain [OF triple_tick])
  apply (rule triple_chain [where R = "\<lambda>i. finished env i [] (plan_artifacts p)"])
   apply (rule triple_statement)
    apply (rule begin_download_finished; (assumption | rule assms))
   apply assumption
  apply (rule triple_chain [OF triple_download_existing])
  apply (rule triple_give, assumption)
  done

text \<open>
  C10: Whatever calls fail, whatever the server sends and whenever it is cancelled: a download leaves a
  store whose verified artifacts have their part file with the planned length and hash, and one that
  answers success has all the artifacts of its plan verified so.
\<close>
theorem downloads_are_verified:
  assumes "world_backed env w" "\<And>n. validate_component (''mdl_'' @ drawn_uuid env n) = Inr ()"
  shows "case download_only env p d n w of
      (Inl e, _, w') \<Rightarrow> world_backed env w'
    | (Inr i, _, w') \<Rightarrow> world_backed env w' \<and> (\<forall>a \<in> set (plan_artifacts p).
        has_row i (\<lambda>st. st = ArtVerified) w' a \<and> part_good env i a w')"
proof -
  have good: "part_good env i a w'" if "world_backed env w'" "has_row i (\<lambda>st. st = ArtVerified) w' a" for i a w'
    using already_good(1) [of env i "[]" a "[]" w'] that by (auto simp: already_def finished_def has_row_def list_ex_iff)
  have "triple (world_backed env) (download_only env p d) (\<lambda>i w'. world_backed env w' \<and> (\<forall>a \<in> set (plan_artifacts p).
      has_row i (\<lambda>st. st = ArtVerified) w' a \<and> part_good env i a w')) (\<lambda>_. world_backed env)"
    by (rule triple_post [OF triple_download_only [OF assms(2)]]) (auto simp: finished_def list_all_iff intro: good)
  then show ?thesis using assms(1) by (simp add: triple_def)
qed

subsection \<open>Whom a download talks to\<close>

text \<open>Encrypted, without credentials, at a host one of the plan's artifacts allows.\<close>

definition may_contact :: "ArtifactPlan list \<Rightarrow> web_url \<Rightarrow> bool" where
  "may_contact plan u \<longleftrightarrow> url_scheme u = ''https'' \<and> url_username u = [] \<and> url_password u = None \<and>
     list_ex (\<lambda>a. case url_host u of None \<Rightarrow> False
       | Some host \<Rightarrow> list_ex (\<lambda>h. map ascii_lower h = map ascii_lower host) (plan_redirect_hosts a)) plan"

definition contacts :: "ArtifactPlan list \<Rightarrow> download_world \<Rightarrow> download_world \<Rightarrow> bool" where
  "contacts plan w w' \<longleftrightarrow> (\<exists>us. contacted w' = contacted w @ us \<and> list_all (may_contact plan) us)"

interpretation contact: state_order "contacts plan" for plan
proof
  show "contacts plan w w" for w by (simp add: contacts_def)
  show "contacts plan u w" if "contacts plan u v" "contacts plan v w" for u v w
    using that unfolding contacts_def by (metis append_assoc list_all_append)
qed

lemma contacts_same: "contacted w' = contacted w \<Longrightarrow> contacts plan w w'"
  by (simp add: contacts_def)

lemma evolves_checked:
  assumes "\<And>x. r = Inr x \<Longrightarrow> evolves (contacts plan) (k x)"
  shows "evolves (contacts plan) (chain (from_result r) k)"
proof (cases r)
  case (Inl e)
  then show ?thesis by (simp add: contact.evolves_chain contact.evolves_throw evolves_def chain_def attempt_def throw_def contacts_same)
next
  case (Inr x)
  with assms [OF Inr] show ?thesis by (simp add: evolves_def chain_def attempt_def give_def)
qed

lemma evolves_result: "evolves (contacts plan) (from_result r)"
  by (cases r) (simp_all add: contact.evolves_basic)

lemma evolves_calls:
  "evolves (contacts plan) (file_call env)" "evolves (contacts plan) (revalidate env)"
  "evolves (contacts plan) (ensure_runtime_current env)" "evolves (contacts plan) (sync_part env)"
  "evolves (contacts plan) (cancelled env)" "evolves (contacts plan) (query env f)"
  "evolves (contacts plan) (part_len env path)" "evolves (contacts plan) (part_sha256 env path)"
  by (simp_all add: file_call_def revalidate_def ensure_runtime_current_def sync_part_def cancelled_def query_def
      part_len_def part_sha256_def contact.evolves_basic contact.evolves_chain)

lemma evolves_statement: "evolves (contacts plan) (statement env f)"
proof -
  have "evolves (contacts plan) (\<lambda>m w. case f (clock_reading env n) (model_store w) of Inl e \<Rightarrow> (Inl e, m, w)
      | Inr (x, s) \<Rightarrow> (Inr x, m, w\<lparr>model_store := s\<rparr>))" for n
    by (auto simp: evolves_def contacts_same split: sum.split)
  then show ?thesis unfolding statement_def by (simp add: contact.evolves_basic contact.evolves_chain)
qed

lemma contacted_parts [simp]: "contacted (put_part path bs w) = contacted w" "contacted (set_len path n w) = contacted w"
  by (simp_all add: put_part_def set_len_def Let_def)

lemma evolves_parts:
  "evolves (contacts plan) (open_download_part env path)" "evolves (contacts plan) (truncate_and_sync env path n)"
  "evolves (contacts plan) (prepare_write env path n)" "evolves (contacts plan) (write_part env path n data)"
  unfolding open_download_part_def truncate_and_sync_def prepare_write_def write_part_def
  by (auto intro!: contact.evolves_chain evolves_calls contact.evolves_basic contact.evolves_modify contacts_same)

lemmas evolves_steps = contact.evolves_chain contact.evolves_basic evolves_calls evolves_statement evolves_parts evolves_result

lemma evolves_saved:
  "evolves (contacts plan) (save_progress env i a identity path n etag modified st)"
  "evolves (contacts plan) (save_verified env i a path)" "evolves (contacts plan) (checkpoint_stream env c n st)"
  unfolding save_progress_def save_verified_def checkpoint_stream_def by (intro evolves_steps)+

lemma evolves_stream: "evolves (contacts plan) (stream env c written ck body)"
proof (induction body arbitrary: written ck rule: measure_induct_rule [of body_size])
  case (less body)
  have more: "evolves (contacts plan) (stream env c m k (unread data rest))" if "body = ReadBytes data # rest" for m k data rest
    using less unread_smaller that by blast
  show ?case
    by (subst stream.simps, auto simp: Let_def split: list.split body_read.split intro!: evolves_steps evolves_saved more)
qed

lemma evolves_receive: "evolves (contacts plan) (receive env i a path start r)"
  unfolding receive_def Let_def by (auto intro!: evolves_steps evolves_saved evolves_stream)

lemma shipping_contact:
  assumes "validate_shipping u (plan_redirect_hosts a) = Inr x" "a \<in> set plan"
  shows "may_contact plan u"
  using assms unfolding may_contact_def list_ex_iff [of _ plan]
  by (auto simp: validate_shipping_def allowed_def split: if_splits option.splits intro!: bexI [of _ a])

lemma evolves_follow:
  assumes "a \<in> set plan" "want_redirect_hosts r = plan_redirect_hosts a" "may_contact plan current"
  shows "evolves (contacts plan) (follow env r k current)"
  using assms(3)
proof (induction k arbitrary: current)
  case 0
  then show ?case by (simp add: contact.evolves_basic)
next
  case (Suc k)
  have "evolves (contacts plan) (modify (\<lambda>w. w\<lparr>contacted := contacted w @ [current]\<rparr>))"
    using Suc.prems by (intro contact.evolves_modify) (simp add: contacts_def)
  then show ?case unfolding follow.simps
    by (auto split: option.split intro!: evolves_checked contact.evolves_chain [of _ "modify _"] evolves_steps Suc.IH
        dest: shipping_contact [OF _ assms(1)] simp: assms(2))
qed

lemma evolves_execute:
  assumes "a \<in> set plan" "want_redirect_hosts r = plan_redirect_hosts a"
  shows "evolves (contacts plan) (execute_reqwest env r)"
  unfolding execute_reqwest_def
  by (intro evolves_checked evolves_follow [OF assms] shipping_contact [OF _ assms(1)]) (simp_all add: assms(2))

lemma evolves_fetch: "a \<in> set plan \<Longrightarrow> evolves (contacts plan) (fetch env i a path oe om k start)"
  by (induction k arbitrary: start)
    (auto intro!: evolves_steps evolves_receive evolves_execute [of a] simp: contact.evolves_basic)

lemma evolves_download: "a \<in> set plan \<Longrightarrow> evolves (contacts plan) (download_artifact env i a)"
  unfolding download_artifact_def resume_offset_def Let_def
  by (auto split: option.split intro!: evolves_steps evolves_saved evolves_fetch)

lemma evolves_download_all: "set as \<subseteq> set plan \<Longrightarrow> evolves (contacts plan) (download_all env i as)"
  by (induction "as")
    (auto intro!: evolves_steps contact.evolves_attempt evolves_download split: sum.split simp: contact.evolves_basic)

lemma evolves_existing: "evolves (contacts (plan_artifacts p)) (download_existing env p i)"
  unfolding download_existing_def by (intro evolves_steps evolves_download_all order_refl)

lemma evolves_sum: "evolves (contacts plan) (sum_remaining env i as n)"
  by (induction "as" arbitrary: n)
    (auto simp: checkpointed_size_def contact.evolves_basic split: option.split intro!: evolves_steps)

lemma evolves_preflight: "evolves (contacts plan) (preflight_disk env p i)"
  unfolding preflight_disk_def required_additional_free_def by (auto intro!: evolves_steps evolves_sum)

text \<open>
  C17: Whatever is redirected where, a download and its retry send requests only over https, without
  credentials, to hosts that the artifacts of the plan allow.
\<close>
theorem downloads_stay_allowed:
  "(\<exists>us. contacted (snd (snd (download_only env p d n w))) = contacted w @ us \<and>
     list_all (may_contact (plan_artifacts p)) us) \<and>
   (\<exists>us. contacted (snd (snd (retry_download env p i d n w))) = contacted w @ us \<and>
     list_all (may_contact (plan_artifacts p)) us)"
proof -
  have "evolves (contacts (plan_artifacts p)) (download_only env p d)"
    "evolves (contacts (plan_artifacts p)) (retry_download env p i d)"
    unfolding download_only_def retry_download_def by (intro evolves_steps evolves_preflight evolves_existing)+
  then show ?thesis by (simp add: evolves_def contacts_def)
qed

subsection \<open>A download\<close>

definition demo_url :: web_url where
  "demo_url = \<lparr>url_scheme = ''https'', url_host = Some ''h'', url_port = None, url_username = [], url_password = None, url_fragment = None,
     web_text = ''https://h/w''\<rparr>"

definition demo_server :: download_env where
  "demo_server = \<lparr>call_fails = \<lambda>_. False, written_before_failure = \<lambda>_. 0, cancel_asked = \<lambda>_. False, clock_reading = \<lambda>_. 0,
     drawn_uuid = \<lambda>_. ''1'', free_space = \<lambda>_. 1000000000, digest = \<lambda>_. replicate 64 CHR ''a'', data_root = ''d'',
     parse_web_url = \<lambda>_. Some demo_url, join_web_url = \<lambda>_ _. None,
     http_get = \<lambda>_ _ _ _. Some \<lparr>http_status = 200, http_headers = [(''Content-Length'', Some ''3'')],
       http_body = [ReadBytes [1, 2], ReadBytes [3]]\<rparr>\<rparr>"

definition demo_disk :: download_world where
  "demo_disk = \<lparr>part_files = \<lambda>_. None, model_store = demo_store, contacted = []\<rparr>"

definition demo_device :: DeviceProfile where
  "demo_device = \<lparr>profile_os = ''linux'', profile_arch = ''x86_64'', profile_macos_major = 0, profile_memory_gib = 8,
     profile_metal_available = False, profile_chip = ''''\<rparr>"

lemma demo_disk_backed: "world_backed env demo_disk" "validate_component ''mdl_1'' = Inr ()"
proof -
  show "world_backed env demo_disk" by (simp add: world_backed_def rows_named_def demo_disk_def demo_store_def)
  show "validate_component ''mdl_1'' = Inr ()" by code_simp
qed

theorem downloads_are_verified_witness:
  "\<exists>r n w'. download_only demo_server demo_plan demo_device 0 demo_disk = (r, n, w') \<and> world_backed demo_server w'"
proof -
  have "validate_component (''mdl_'' @ drawn_uuid demo_server n) = Inr ()" for n
    using demo_disk_backed(2) by (simp add: demo_server_def)
  from downloads_are_verified [OF demo_disk_backed(1) this, of demo_plan demo_device 0]
  show ?thesis by (auto split: prod.splits sum.splits)
qed

end
