(* ===== verification/Model_Delete.thy ===== *)
theory Model_Delete
  imports Model_Store Effects
begin

section \<open>Deleting a model: \<open>asr/model_manager/delete.rs\<close>, leases of \<open>asr/model_manager.rs\<close>\<close>

text \<open>
  An installation is deleted across a table row, a directory and a marker inside it, none of which
  changes together with another; the registry of execution leases keeps a model that runs from being
  deleted.  The world is the directories of installations by their path, the trash, the quarantine, the
  store and the registry.  Every system call and statement may fail on its own: a failed write has
  written some first part, a rename may fail after it took effect, a failed removal has removed some
  files and may have renamed the entry.  Only this program changes these directories, and no entry of
  them is a link.
\<close>

subsection \<open>World and environment\<close>

text \<open>The files of an installation other than the two names of the deletion marker are kept apart.\<close>

record model_dir =
  delete_marker_tmp :: "bytes option"
  delete_marker :: "bytes option"
  model_files :: "(string \<times> bytes) list"

datatype trash_entry = TrashedDir model_dir | TrashedFile | TrashedOther

record manager_world =
  places :: "string \<Rightarrow> model_dir option"
  trash :: "(string \<times> trash_entry) list"
  quarantined :: "(string \<times> model_dir) list"
  model_rows :: model_store
  execution_leases :: "string \<Rightarrow> usize option"

record manager_env =
  io_fails :: "nat \<Rightarrow> bool"
  cut_at :: "nat \<Rightarrow> nat"
  keeps_file :: "nat \<Rightarrow> string \<Rightarrow> bool"
  renamed_before :: "nat \<Rightarrow> bool"
  time_now :: "nat \<Rightarrow> time"
  uuid_drawn :: "nat \<Rightarrow> string"
  manager_root :: string
  print_lease :: "DeletionLease \<Rightarrow> bytes"
  parse_lease :: "bytes \<Rightarrow> DeletionLease option"
  print_runtime :: "FullSherpaRuntimeIdentity \<Rightarrow> string"
  check_installation :: "model_dir \<Rightarrow> ModelInstallPlan \<Rightarrow> manager_code + unit"

type_synonym 'a managing = "(manager_world, manager_code, 'a) program"

definition MODEL_IN_USE :: manager_code where "MODEL_IN_USE = ''model_in_use''"

definition io :: "manager_env \<Rightarrow> unit managing" where
  "io env = call (io_fails env) IO_FAILED"

definition ensure_current :: "manager_env \<Rightarrow> unit managing" where
  "ensure_current env = call (io_fails env) OWNERSHIP_LOST"

definition on_rows :: "manager_env \<Rightarrow> (time \<Rightarrow> 'a statement) \<Rightarrow> 'a managing" where
  "on_rows env f = chain (call (io_fails env) CATALOG_FAILED) (\<lambda>_. chain tick (\<lambda>n. \<lambda>m w.
     case f (time_now env n) (model_rows w) of
       Inl e \<Rightarrow> (Inl e, m, w)
     | Inr (x, s) \<Rightarrow> (Inr x, m, w\<lparr>model_rows := s\<rparr>)))"

definition ask_rows :: "manager_env \<Rightarrow> (model_store \<Rightarrow> 'a) \<Rightarrow> 'a managing" where
  "ask_rows env f = chain (call (io_fails env) CATALOG_FAILED) (\<lambda>_. inspect (\<lambda>w. f (model_rows w)))"

subsection \<open>Directories: \<open>asr/model_manager/anchored_reconcile.rs\<close>\<close>

definition put_dir :: "string \<Rightarrow> model_dir option \<Rightarrow> manager_world \<Rightarrow> manager_world" where
  "put_dir path d w = w\<lparr>places := (places w)(path := d)\<rparr>"

definition open_dir :: "manager_env \<Rightarrow> string \<Rightarrow> model_dir option managing" where
  "open_dir env path = chain (io env) (\<lambda>_. inspect (\<lambda>w. places w path))"

definition open_trashed :: "manager_env \<Rightarrow> string \<Rightarrow> trash_entry option managing" where
  "open_trashed env name = chain (io env) (\<lambda>_. inspect (\<lambda>w. map_of (trash w) name))"

definition require_dir :: "string \<Rightarrow> model_dir managing" where
  "require_dir path = chain (inspect (\<lambda>w. places w path)) (\<lambda>d. from_result (ok_or IO_FAILED d))"

text \<open>Creating the file fails when it exists, without touching it.\<close>

definition write_marker_tmp :: "manager_env \<Rightarrow> string \<Rightarrow> bytes \<Rightarrow> unit managing" where
  "write_marker_tmp env path bs = chain (io env) (\<lambda>_. chain (require_dir path) (\<lambda>d.
     if delete_marker_tmp d \<noteq> None then throw STRUCTURAL
     else chain tick (\<lambda>n.
       if io_fails env n
       then chain (modify (put_dir path (Some (d\<lparr>delete_marker_tmp := Some (take (cut_at env n) bs)\<rparr>)))) (\<lambda>_. throw IO_FAILED)
       else modify (put_dir path (Some (d\<lparr>delete_marker_tmp := Some bs\<rparr>))))))"

definition publish_marker :: "manager_env \<Rightarrow> string \<Rightarrow> unit managing" where
  "publish_marker env path = chain (io env) (\<lambda>_. chain (require_dir path) (\<lambda>d.
     if delete_marker d \<noteq> None then throw ''model_install_conflict''
     else if delete_marker_tmp d = None then throw IO_FAILED
     else chain (modify (put_dir path (Some (d\<lparr>delete_marker_tmp := None, delete_marker := delete_marker_tmp d\<rparr>)))) (\<lambda>_. io env)))"

definition sync_dir :: "manager_env \<Rightarrow> unit managing" where
  "sync_dir env = io env"

definition ensure_dir :: "manager_env \<Rightarrow> unit managing" where
  "ensure_dir env = io env"

text \<open>\<open>rename\<close> between the place of an installation and the trash; the destination must be free, as a
  directory that is not empty is not replaced.\<close>

definition move_to_trash :: "manager_env \<Rightarrow> string \<Rightarrow> string \<Rightarrow> unit managing" where
  "move_to_trash env path name = chain (io env) (\<lambda>_. chain (require_dir path) (\<lambda>d.
     chain (inspect trash) (\<lambda>ts.
     if name \<in> fst ` set ts then throw IO_FAILED
     else chain (modify (\<lambda>w. (put_dir path None w)\<lparr>trash := ts @ [(name, TrashedDir d)]\<rparr>)) (\<lambda>_. io env))))"

definition move_from_trash :: "manager_env \<Rightarrow> string \<Rightarrow> string \<Rightarrow> unit managing" where
  "move_from_trash env name path = chain (io env) (\<lambda>_. chain (inspect (\<lambda>w. (places w path, map_of (trash w) name))) (\<lambda>found.
     case found of
       (None, Some (TrashedDir d)) \<Rightarrow>
         chain (modify (\<lambda>w. (put_dir path (Some d) w)\<lparr>trash := filter (\<lambda>t. fst t \<noteq> name) (trash w)\<rparr>)) (\<lambda>_. io env)
     | _ \<Rightarrow> throw IO_FAILED))"

text \<open>\<open>remove_tree\<close>: the entry is renamed to a private name, then emptied file by file.\<close>

definition TOMBSTONE :: string where "TOMBSTONE = ''.lifesub-remove-''"
definition DELETE_MARKER :: string where "DELETE_MARKER = ''.lifesub-delete.json''"

definition partly_removed :: "(string \<Rightarrow> bool) \<Rightarrow> trash_entry \<Rightarrow> trash_entry" where
  "partly_removed keep t = (case t of
     TrashedDir d \<Rightarrow> TrashedDir
       \<lparr>delete_marker_tmp = (if keep (DELETE_MARKER @ ''.tmp'') then delete_marker_tmp d else None),
        delete_marker = (if keep DELETE_MARKER then delete_marker d else None),
        model_files = filter (\<lambda>(n, _). keep n) (model_files d)\<rparr>
   | other \<Rightarrow> other)"

definition remove_trashed :: "manager_env \<Rightarrow> string \<Rightarrow> unit managing" where
  "remove_trashed env name = chain tick (\<lambda>u. chain tick (\<lambda>n. chain (inspect (\<lambda>w. map_of (trash w) name)) (\<lambda>found.
     case found of
       None \<Rightarrow> throw IO_FAILED
     | Some t \<Rightarrow>
       if io_fails env n
       then chain (modify (\<lambda>w. w\<lparr>trash :=
           (if renamed_before env n
            then filter (\<lambda>t. fst t \<noteq> name) (trash w) @ [(TOMBSTONE @ uuid_drawn env u, partly_removed (keeps_file env n) t)]
            else trash w)\<rparr>)) (\<lambda>_. throw IO_FAILED)
       else if t = TrashedOther then throw STRUCTURAL
       else modify (\<lambda>w. w\<lparr>trash := filter (\<lambda>t. fst t \<noteq> name) (trash w)\<rparr>))))"

subsection \<open>Execution leases\<close>

definition DELETE_RESERVED :: usize where "DELETE_RESERVED = - 1"

text \<open>Under the lock of the registry.\<close>

definition taken_lease :: "string \<Rightarrow> manager_world \<Rightarrow> manager_code + manager_world" where
  "taken_lease i w = (case execution_leases w i of
     None \<Rightarrow> Inr (w\<lparr>execution_leases := (execution_leases w)(i \<mapsto> 1)\<rparr>)
   | Some c \<Rightarrow>
       if c = DELETE_RESERVED then Inl MODEL_IN_USE
       else and_then (ok_or MODEL_IN_USE (checked_add c 1)) (\<lambda>c'. Inr (w\<lparr>execution_leases := (execution_leases w)(i \<mapsto> c')\<rparr>)))"

definition acquire_execution_lease :: "manager_env \<Rightarrow> string \<Rightarrow> unit managing" where
  "acquire_execution_lease env i = chain (ensure_current env) (\<lambda>_. chain (from_result (validate_component i)) (\<lambda>_.
     (\<lambda>n w. case taken_lease i w of Inl e \<Rightarrow> (Inl e, n, w) | Inr w' \<Rightarrow> (Inr (), n, w'))))"

text \<open>Dropping the guard; an underflow would panic.\<close>

definition drop_execution_lease :: "string \<Rightarrow> manager_world \<Rightarrow> manager_world option" where
  "drop_execution_lease i w = (case execution_leases w i of
     None \<Rightarrow> Some w
   | Some c \<Rightarrow> (case checked_sub c 1 of
       None \<Rightarrow> None
     | Some c' \<Rightarrow> Some (w\<lparr>execution_leases := (execution_leases w)(i := (if c' = 0 then None else Some c'))\<rparr>)))"

definition install_relative :: "ModelInstallPlan \<Rightarrow> string" where
  "install_relative p = ''models/asr/'' @ plan_provider p @ ''/'' @ plan_model_id p @ ''/'' @
     plan_manifest_version p @ ''-'' @ plan_bundle_identity p"

definition install_dir :: "manager_env \<Rightarrow> ModelInstallPlan \<Rightarrow> string" where
  "install_dir env p = manager_root env @ ''/'' @ install_relative p"

definition release :: "string \<Rightarrow> manager_world \<Rightarrow> manager_world" where
  "release i w = (case drop_execution_lease i w of None \<Rightarrow> w | Some w' \<Rightarrow> w')"

text \<open>The guard is dropped when a check fails.  The files are held open from the last two steps on.\<close>

definition check_executable :: "manager_env \<Rightarrow> DeviceProfile \<Rightarrow> string \<Rightarrow> ModelInstallPlan managing" where
  "check_executable env d i = chain (ask_rows env (execution_installation i)) (\<lambda>found.
     chain (from_result (ok_or ''model_not_installed'' found)) (\<lambda>r.
     if inst_state r \<noteq> RuntimeQualified then throw ''model_runtime_unqualified''
     else chain (from_result (resolve_plan (inst_model_id r) (inst_manifest_version r) (inst_archive_sha256 r))) (\<lambda>p.
     chain (from_result (validate_device (plan_device p) d)) (\<lambda>_.
     if inst_install_dir r \<noteq> install_dir env p then throw INTEGRITY
     else if plan_policy p = StructuralWithPinnedRuntime \<and>
       inst_runtime_identity_json r \<noteq> map_option (print_runtime env) (plan_runtime p)
     then throw ''model_runtime_identity_mismatch''
     else if plan_policy p = RuntimeSmokeRequired \<and> inst_runtime_identity_json r = None
     then throw ''model_runtime_unqualified''
     else chain (open_dir env (install_relative p)) (\<lambda>dir.
       chain (from_result (ok_or INTEGRITY dir)) (\<lambda>dir.
       chain (from_result (check_installation env dir p)) (\<lambda>_. chain (io env) (\<lambda>_. give p))))))))"

definition executable_installation :: "manager_env \<Rightarrow> DeviceProfile \<Rightarrow> string \<Rightarrow> ModelInstallPlan managing" where
  "executable_installation env d i = chain (ensure_current env) (\<lambda>_. chain (acquire_execution_lease env i) (\<lambda>_.
     attempt (check_executable env d i) (\<lambda>r. case r of
       Inl e \<Rightarrow> chain (modify (release i)) (\<lambda>_. throw e)
     | Inr p \<Rightarrow> give p)))"

subsection \<open>Deletion\<close>

definition edit_dir :: "string \<Rightarrow> (model_dir \<Rightarrow> model_dir) \<Rightarrow> manager_world \<Rightarrow> manager_world" where
  "edit_dir path f w = put_dir path (map_option f (places w path)) w"

text \<open>Files of the marker are looked for and removed; a failed removal is ignored.\<close>

definition discard :: "manager_env \<Rightarrow> string \<Rightarrow> (model_dir \<Rightarrow> bytes option) \<Rightarrow> (model_dir \<Rightarrow> model_dir) \<Rightarrow> unit managing" where
  "discard env path sel clear = chain (io env) (\<lambda>_. chain (inspect (\<lambda>w. Option.bind (places w path) sel)) (\<lambda>found.
     if found = None then give ()
     else attempt (chain (io env) (\<lambda>_. modify (edit_dir path clear)) :: unit managing) (\<lambda>_. give ())))"

definition move_home :: "manager_env \<Rightarrow> string \<Rightarrow> string \<Rightarrow> unit managing" where
  "move_home env path name = chain (ensure_dir env) (\<lambda>_. chain (move_from_trash env name path) (\<lambda>_.
     chain (sync_dir env) (\<lambda>_. chain (io env) (\<lambda>_. sync_dir env))))"

definition restore_anchored :: "manager_env \<Rightarrow> string \<Rightarrow> string \<Rightarrow> unit managing" where
  "restore_anchored env path name = chain (open_trashed env name) (\<lambda>t.
     chain (if t \<noteq> None then move_home env path name else give ()) (\<lambda>_.
     chain (open_dir env path) (\<lambda>d.
     if d = None then give ()
     else chain (discard env path delete_marker_tmp (\<lambda>d. d\<lparr>delete_marker_tmp := None\<rparr>)) (\<lambda>_.
       chain (discard env path delete_marker (\<lambda>d. d\<lparr>delete_marker := None\<rparr>)) (\<lambda>_. sync_dir env)))))"

definition prepare_delete :: "manager_env \<Rightarrow> string \<Rightarrow> string \<Rightarrow> DeletionLease \<Rightarrow> unit managing" where
  "prepare_delete env path name l = chain (write_marker_tmp env path (print_lease env l)) (\<lambda>_.
     chain (publish_marker env path) (\<lambda>_. chain (sync_dir env) (\<lambda>_. chain (ensure_dir env) (\<lambda>_.
     chain (move_to_trash env path name) (\<lambda>_. chain (sync_dir env) (\<lambda>_. sync_dir env))))))"

definition undo_delete :: "manager_env \<Rightarrow> string \<Rightarrow> string \<Rightarrow> DeletionLease \<Rightarrow> manager_code \<Rightarrow> unit managing" where
  "undo_delete env path name l e = chain (restore_anchored env path name) (\<lambda>_.
     chain (on_rows env (\<lambda>_. abort_delete l)) (\<lambda>_. throw e))"

definition empty_trash :: "manager_env \<Rightarrow> string \<Rightarrow> unit managing" where
  "empty_trash env name = chain (open_trashed env name) (\<lambda>t.
     if t \<noteq> None then chain (remove_trashed env name) (\<lambda>_. sync_dir env) else give ())"

definition delete_reserved :: "manager_env \<Rightarrow> string \<Rightarrow> string \<Rightarrow> DeletionLease \<Rightarrow> unit managing" where
  "delete_reserved env i path l = chain (open_dir env path) (\<lambda>d.
     if d = None then chain (on_rows env (\<lambda>_. abort_delete l)) (\<lambda>_. throw INTEGRITY)
     else chain tick (\<lambda>n. let name = i @ ''-'' @ uuid_drawn env n in
       attempt (prepare_delete env path name l) (\<lambda>r. case r of
         Inl e \<Rightarrow> undo_delete env path name l e
       | Inr _ \<Rightarrow> attempt (on_rows env (\<lambda>_. finish_delete l)) (\<lambda>r. case r of
           Inl e \<Rightarrow> undo_delete env path name l e
         | Inr _ \<Rightarrow> empty_trash env name))))"

definition reserve :: "string \<Rightarrow> manager_world \<Rightarrow> manager_world" where
  "reserve i w = w\<lparr>execution_leases := (execution_leases w)(i \<mapsto> DELETE_RESERVED)\<rparr>"

definition unreserve :: "string \<Rightarrow> manager_world \<Rightarrow> manager_world" where
  "unreserve i w = (if execution_leases w i = Some DELETE_RESERVED
     then w\<lparr>execution_leases := (execution_leases w)(i := None)\<rparr> else w)"

definition delete_anchored :: "manager_env \<Rightarrow> string \<Rightarrow> string \<Rightarrow> unit managing" where
  "delete_anchored env i path = chain (ensure_current env) (\<lambda>_. chain (from_result (validate_component i)) (\<lambda>_.
     chain (inspect (\<lambda>w. execution_leases w i)) (\<lambda>c.
     if c \<noteq> None \<and> c \<noteq> Some 0 then throw MODEL_IN_USE
     else chain (on_rows env (begin_delete i)) (\<lambda>l. case l of
         None \<Rightarrow> throw MODEL_IN_USE
       | Some l \<Rightarrow> chain (modify (reserve i)) (\<lambda>_.
           attempt (delete_reserved env i path l) (\<lambda>r. chain (modify (unreserve i)) (\<lambda>_. from_result r)))))))"

definition delete_model :: "manager_env \<Rightarrow> string \<Rightarrow> unit managing" where
  "delete_model env i = chain (ensure_current env) (\<lambda>_. chain (from_result (validate_component i)) (\<lambda>_.
     chain (from_result (resolve_current_plan i)) (\<lambda>p. delete_anchored env i (install_relative p))))"

subsection \<open>After a restart\<close>

definition reconcile_trash_entry :: "manager_env \<Rightarrow> string \<Rightarrow> unit managing" where
  "reconcile_trash_entry env name = chain (open_trashed env name) (\<lambda>t. case t of
     None \<Rightarrow> throw IO_FAILED
   | Some TrashedOther \<Rightarrow> throw STRUCTURAL
   | Some TrashedFile \<Rightarrow> chain (io env) (\<lambda>_. modify (\<lambda>w. w\<lparr>trash := filter (\<lambda>t. fst t \<noteq> name) (trash w)\<rparr>))
   | Some (TrashedDir d) \<Rightarrow> chain (io env) (\<lambda>_.
       chain (case delete_marker d of
         None \<Rightarrow> give ()
       | Some bs \<Rightarrow> chain (io env) (\<lambda>_. chain (from_result (ok_or INTEGRITY (parse_lease env bs))) (\<lambda>l.
           chain (ask_rows env (model_deletion_lease (lease_model_id l))) (\<lambda>current.
           if current \<noteq> Some l then throw INTEGRITY else on_rows env (\<lambda>_. complete_deletion_recovery l)))))
       (\<lambda>_. remove_trashed env name)))"

fun reconcile_trash_entries :: "manager_env \<Rightarrow> string list \<Rightarrow> unit managing" where
  "reconcile_trash_entries env [] = sync_dir env"
| "reconcile_trash_entries env (name # names) =
     chain (reconcile_trash_entry env name) (\<lambda>_. reconcile_trash_entries env names)"

definition reconcile_trash_anchored :: "manager_env \<Rightarrow> unit managing" where
  "reconcile_trash_anchored env = chain (io env) (\<lambda>_. chain (inspect (\<lambda>w. map fst (trash w))) (reconcile_trash_entries env))"

definition lease_from_record :: "installation_row \<Rightarrow> DeletionLease" where
  "lease_from_record r = (lease_of_row r)\<lparr>lease_prior_state := prior_state_of r\<rparr>"

definition reconcile_deleting_anchored :: "manager_env \<Rightarrow> string \<Rightarrow> installation_row \<Rightarrow> unit managing" where
  "reconcile_deleting_anchored env path r = chain (open_dir env path) (\<lambda>d. case d of
     None \<Rightarrow> on_rows env (\<lambda>_. complete_deletion_recovery (lease_from_record r))
   | Some d \<Rightarrow> chain (io env) (\<lambda>_. case delete_marker d of
       Some bs \<Rightarrow> chain (io env) (\<lambda>_. chain (from_result (ok_or INTEGRITY (parse_lease env bs))) (\<lambda>l.
         if l \<noteq> lease_from_record r then throw INTEGRITY
         else chain (ensure_dir env) (\<lambda>_. chain tick (\<lambda>n. let name = inst_model_id r @ ''-recovery-'' @ uuid_drawn env n in
           chain (move_to_trash env path name) (\<lambda>_. chain (on_rows env (\<lambda>_. complete_deletion_recovery l)) (\<lambda>_.
           chain (remove_trashed env name) (\<lambda>_. sync_dir env)))))))
     | None \<Rightarrow> chain (io env) (\<lambda>_. chain (if delete_marker_tmp d = None then give ()
          else chain (io env) (\<lambda>_. modify (edit_dir path (\<lambda>d. d\<lparr>delete_marker_tmp := None\<rparr>)))) (\<lambda>_.
          on_rows env (\<lambda>_. abort_delete (lease_from_record r))))))"

definition quarantine_unknown :: "manager_env \<Rightarrow> string \<Rightarrow> string \<Rightarrow> unit managing" where
  "quarantine_unknown env path reason = chain (ensure_dir env) (\<lambda>_. chain tick (\<lambda>n. chain (io env) (\<lambda>_.
     chain (require_dir path) (\<lambda>d.
     chain (modify (\<lambda>w. (put_dir path None w)\<lparr>quarantined := quarantined w @ [(reason @ ''-'' @ uuid_drawn env n, d)]\<rparr>)) (\<lambda>_.
     chain (io env) (\<lambda>_. sync_dir env))))))"

definition recovery_code :: "manager_code \<Rightarrow> manager_code" where
  "recovery_code e = (if e = ''model_runtime_identity_mismatch'' then e else ''model_runtime_qualification_recovery_required'')"

definition recovered_installation :: "manager_env \<Rightarrow> ModelInstallPlan \<Rightarrow> StoredInstallation" where
  "recovered_installation env p = \<lparr>stored_model_id = plan_model_id p, stored_provider = plan_provider p,
     stored_manifest_version = plan_manifest_version p, stored_bundle_identity = plan_bundle_identity p,
     stored_install_dir = install_dir env p,
     stored_state = (case plan_policy p of StructuralWithPinnedRuntime \<Rightarrow> RuntimeQualified | RuntimeSmokeRequired \<Rightarrow> InstalledUnqualified),
     stored_runtime_identity_json = map_option (print_runtime env) (plan_runtime p)\<rparr>"

definition reconcile_installation_anchored :: "manager_env \<Rightarrow> ModelInstallPlan \<Rightarrow> unit managing" where
  "reconcile_installation_anchored env p = chain (open_dir env (install_relative p)) (\<lambda>d. case d of
     None \<Rightarrow> on_rows env (\<lambda>_ s. Inr ((), record_installation_recovery (plan_model_id p) INTEGRITY s))
   | Some d \<Rightarrow> (case check_installation env d p of
       Inl e \<Rightarrow> chain (on_rows env (\<lambda>_ s. Inr ((), record_installation_recovery (plan_model_id p) (recovery_code e) s))) (\<lambda>_.
         quarantine_unknown env (install_relative p) ''reconcile-rejected'')
     | Inr _ \<Rightarrow> on_rows env (\<lambda>now. publish_installation now (recovered_installation env p))))"

definition reconcile_record :: "manager_env \<Rightarrow> installation_row \<Rightarrow> unit managing" where
  "reconcile_record env r =
     (case resolve_plan (inst_model_id r) (inst_manifest_version r) (inst_archive_sha256 r) of
        Inl _ \<Rightarrow> on_rows env (\<lambda>_ s. Inr ((), record_installation_recovery (inst_model_id r) ''model_manifest_identity_mismatch'' s))
      | Inr p \<Rightarrow>
          if inst_install_dir r \<noteq> install_dir env p
          then on_rows env (\<lambda>_ s. Inr ((), record_installation_recovery (inst_model_id r) INTEGRITY s))
          else if inst_state r = Deleting then reconcile_deleting_anchored env (install_relative p) r
          else reconcile_installation_anchored env p)"

fun reconcile_records :: "manager_env \<Rightarrow> installation_row list \<Rightarrow> unit managing" where
  "reconcile_records env [] = give ()"
| "reconcile_records env (r # rows) = chain (reconcile_record env r) (\<lambda>_. reconcile_records env rows)"

definition reconcile_installations_anchored :: "manager_env \<Rightarrow> unit managing" where
  "reconcile_installations_anchored env = chain (ask_rows env model_installation_records) (reconcile_records env)"

end
