(* ===== verification/Model_Delete_Sound.thy ===== *)
theory Model_Delete_Sound
  imports Model_Delete
begin

section \<open>What a deletion leaves behind, and who may begin one\<close>

text \<open>
  Triples carry the place of the installation, the row and the marker through every failure of a
  deletion; what a restart makes of each outcome follows from the same descriptions.  The last part is
  the registry of leases as a system of interleaved steps.
\<close>

subsection \<open>Where a deletion stands\<close>

text \<open>
  Everything is relative to the world \<open>v\<close> in which the deletion has been reserved: the installation is at
  its place, in the trash, or gone; its files are the same and its marker, once complete, is the lease.
\<close>

definition marker_ok :: "manager_env \<Rightarrow> DeletionLease \<Rightarrow> model_dir \<Rightarrow> bool" where
  "marker_ok env l d \<longleftrightarrow> delete_marker d = None \<or> delete_marker d = Some (print_lease env l)"

definition elsewhere_same :: "manager_world \<Rightarrow> manager_world \<Rightarrow> bool" where
  "elsewhere_same v w \<longleftrightarrow> quarantined w = quarantined v \<and> execution_leases w = execution_leases v"

definition at_home ::
    "manager_env \<Rightarrow> DeletionLease \<Rightarrow> string \<Rightarrow> manager_world \<Rightarrow> model_store \<Rightarrow> (model_dir \<Rightarrow> bool) \<Rightarrow> manager_world \<Rightarrow> bool" where
  "at_home env l path v s F w \<longleftrightarrow> elsewhere_same v w \<and> model_rows w = s \<and> trash w = trash v \<and>
     (\<exists>d d'. places v path = Some d \<and> places w = (places v)(path \<mapsto> d') \<and> model_files d' = model_files d \<and>
        marker_ok env l d' \<and> F d')"

definition in_trash ::
    "manager_env \<Rightarrow> DeletionLease \<Rightarrow> string \<Rightarrow> string \<Rightarrow> manager_world \<Rightarrow> model_store \<Rightarrow> manager_world \<Rightarrow> bool" where
  "in_trash env l path name v s w \<longleftrightarrow> elsewhere_same v w \<and> model_rows w = s \<and> name \<notin> fst ` set (trash v) \<and>
     (\<exists>d d'. places v path = Some d \<and> places w = (places v)(path := None) \<and>
        trash w = trash v @ [(name, TrashedDir d')] \<and> model_files d' = model_files d \<and>
        delete_marker d' = Some (print_lease env l))"

definition removed :: "string \<Rightarrow> manager_world \<Rightarrow> model_store \<Rightarrow> manager_world \<Rightarrow> bool" where
  "removed path v s w \<longleftrightarrow> elsewhere_same v w \<and> model_rows w = s \<and> places w = (places v)(path := None) \<and> trash w = trash v"

definition half_removed :: "string \<Rightarrow> manager_world \<Rightarrow> model_store \<Rightarrow> manager_world \<Rightarrow> bool" where
  "half_removed path v s w \<longleftrightarrow> elsewhere_same v w \<and> model_rows w = s \<and> places w = (places v)(path := None) \<and>
     (\<exists>t. trash w = trash v @ [t])"

lemma triple_kept_io:
  assumes "\<And>w. P w \<Longrightarrow> E w"
  shows "triple P (io env) (\<lambda>_. P) (\<lambda>_. E)" "triple P (sync_dir env) (\<lambda>_. P) (\<lambda>_. E)"
    "triple P (ensure_dir env) (\<lambda>_. P) (\<lambda>_. E)" "triple P (ensure_current env) (\<lambda>_. P) (\<lambda>_. E)"
    "triple P (open_dir env path) (\<lambda>d w. P w \<and> d = places w path) (\<lambda>_. E)"
    "triple P (open_trashed env name) (\<lambda>t w. P w \<and> t = map_of (trash w) name) (\<lambda>_. E)"
    "triple P (from_result r) (\<lambda>x w. P w \<and> r = Inr x) (\<lambda>_ :: manager_code. E)"
proof -
  have call: "triple P (call (io_fails env) e) (\<lambda>_. P) (\<lambda>_. E)" for e
    by (rule triple_post [OF triple_call]) (use assms in auto)
  then show "triple P (io env) (\<lambda>_. P) (\<lambda>_. E)" "triple P (sync_dir env) (\<lambda>_. P) (\<lambda>_. E)"
    "triple P (ensure_dir env) (\<lambda>_. P) (\<lambda>_. E)" "triple P (ensure_current env) (\<lambda>_. P) (\<lambda>_. E)"
    by (simp_all add: io_def sync_dir_def ensure_dir_def ensure_current_def)
  show "triple P (open_dir env path) (\<lambda>d w. P w \<and> d = places w path) (\<lambda>_. E)"
    "triple P (open_trashed env name) (\<lambda>t w. P w \<and> t = map_of (trash w) name) (\<lambda>_. E)"
    unfolding open_dir_def open_trashed_def io_def by (rule triple_chain [OF call], rule triple_inspect)+
  show "triple P (from_result r) (\<lambda>x w. P w \<and> r = Inr x) (\<lambda>_ :: manager_code. E)"
    by (rule triple_from_result) (use assms in auto)
qed

lemma triple_on_rows:
  assumes "\<And>now w x s. P w \<Longrightarrow> f now (model_rows w) = Inr (x, s) \<Longrightarrow> Q x (w\<lparr>model_rows := s\<rparr>)"
    and "\<And>w. P w \<Longrightarrow> E w"
  shows "triple P (on_rows env f) Q (\<lambda>_. E)"
  unfolding on_rows_def
proof (rule triple_chain [where R = "\<lambda>_. P"])
  show "triple P (call (io_fails env) CATALOG_FAILED) (\<lambda>_. P) (\<lambda>_. E)"
    by (rule triple_post [OF triple_call]) (use assms(2) in auto)
  show "triple P (chain tick (\<lambda>n m w. case f (time_now env n) (model_rows w) of Inl e \<Rightarrow> (Inl e, m, w)
      | Inr (x, s) \<Rightarrow> (Inr x, m, w\<lparr>model_rows := s\<rparr>))) Q (\<lambda>_. E)" for u :: unit
    by (rule triple_chain [OF triple_tick]) (use assms in \<open>auto simp: triple_def split: sum.splits\<close>)
qed

lemma triple_changed: "(\<And>w. P w \<Longrightarrow> Q (f w)) \<Longrightarrow> triple P (modify f) (\<lambda>_. Q) E"
  by (simp add: triple_def modify_def)

lemma at_home_weaken: "at_home env l path v s F w \<Longrightarrow> at_home env l path v s (\<lambda>_. True) w"
  by (auto simp: at_home_def)

lemma at_home_put:
  assumes "at_home env l path v s F w" "places w path = Some d" "model_files d' = model_files d" "marker_ok env l d'" "G d'"
  shows "at_home env l path v s G (put_dir path (Some d') w)"
  using assms by (auto simp: at_home_def put_dir_def elsewhere_same_def)

lemma triple_require_home:
  "triple (at_home env l path v s F) (require_dir path)
    (\<lambda>d w. at_home env l path v s F w \<and> places w path = Some d \<and> marker_ok env l d \<and> F d) (\<lambda>_. at_home env l path v s (\<lambda>_. True))"
  unfolding require_dir_def
  by (rule triple_chain [OF triple_inspect], rule triple_from_result)
    (auto simp: result_simps at_home_def)

text \<open>The first step, until the complete marker is in place.\<close>

lemma triple_write_marker_tmp:
  "triple (at_home env l path v s F) (write_marker_tmp env path (print_lease env l))
    (\<lambda>_. at_home env l path v s (\<lambda>d. delete_marker_tmp d = Some (print_lease env l))) (\<lambda>_. at_home env l path v s (\<lambda>_. True))"
  unfolding write_marker_tmp_def
  apply (rule triple_chain [OF triple_kept_io(1)], erule at_home_weaken)
  apply (rule triple_chain [OF triple_require_home])
  apply (rule triple_guard, blast intro: at_home_weaken)
  apply (rule triple_chain [OF triple_tick], rule triple_if)
   apply (rule triple_chain [where R = "\<lambda>_. at_home env l path v s (\<lambda>_. True)"], rule triple_changed)
    apply (auto intro!: at_home_put simp: marker_ok_def)[1]
   apply (rule triple_throw, assumption)
  apply (rule triple_changed)
  apply (auto intro!: at_home_put simp: marker_ok_def)
  done

lemma triple_publish_marker:
  "triple (at_home env l path v s (\<lambda>d. delete_marker_tmp d = Some (print_lease env l))) (publish_marker env path)
    (\<lambda>_. at_home env l path v s (\<lambda>d. delete_marker d = Some (print_lease env l))) (\<lambda>_. at_home env l path v s (\<lambda>_. True))"
  unfolding publish_marker_def
  apply (rule triple_chain [OF triple_kept_io(1)], erule at_home_weaken)
  apply (rule triple_chain [OF triple_require_home])
  apply (rule triple_guard, blast intro: at_home_weaken)
  apply (rule triple_guard, blast intro: at_home_weaken)
  apply (rule triple_chain [where R = "\<lambda>_. at_home env l path v s (\<lambda>d. delete_marker d = Some (print_lease env l))"])
   apply (rule triple_changed)
   apply (auto intro!: at_home_put simp: marker_ok_def)[1]
  apply (rule triple_kept_io(1), erule at_home_weaken)
  done

definition around ::
    "manager_env \<Rightarrow> DeletionLease \<Rightarrow> string \<Rightarrow> string \<Rightarrow> manager_world \<Rightarrow> model_store \<Rightarrow> manager_world \<Rightarrow> bool" where
  "around env l path name v s w \<longleftrightarrow> at_home env l path v s (\<lambda>_. True) w \<or> in_trash env l path name v s w"

lemma triple_move_to_trash:
  "triple (at_home env l path v s (\<lambda>d. delete_marker d = Some (print_lease env l))) (move_to_trash env path name)
    (\<lambda>_. in_trash env l path name v s) (\<lambda>_. around env l path name v s)"
  unfolding move_to_trash_def
  apply (rule triple_chain [OF triple_kept_io(1)], simp add: around_def at_home_weaken)
  apply (rule triple_chain [OF triple_post [OF triple_require_home]], assumption, simp add: around_def)
  apply (rule triple_chain [OF triple_inspect])
  apply (rule triple_guard, auto simp: around_def intro: at_home_weaken)[1]
  subgoal for d ts
    apply (rule triple_chain [where R = "\<lambda>_. in_trash env l path name v s"], rule triple_changed)
     apply (auto simp: at_home_def in_trash_def put_dir_def elsewhere_same_def)[1]
    apply (rule triple_kept_io(1), simp add: around_def)
    done
  done

lemma triple_prepare_delete:
  "triple (at_home env l path v s F) (prepare_delete env path name l)
    (\<lambda>_. in_trash env l path name v s) (\<lambda>_. around env l path name v s)"
  unfolding prepare_delete_def
  apply (rule triple_chain [OF triple_post [OF triple_write_marker_tmp]], assumption, simp add: around_def)
  apply (rule triple_chain [OF triple_post [OF triple_publish_marker]], assumption, simp add: around_def)
  apply (rule triple_chain [OF triple_kept_io(2)], simp add: around_def at_home_weaken)
  apply (rule triple_chain [OF triple_kept_io(3)], simp add: around_def at_home_weaken)
  apply (rule triple_chain [OF triple_move_to_trash])
  apply (rule triple_chain [OF triple_kept_io(2)], simp add: around_def)
  apply (rule triple_kept_io(2), simp add: around_def)
  done

subsection \<open>Undoing\<close>

lemma triple_discard:
  assumes "\<And>d. marker_ok env l d \<Longrightarrow> marker_ok env l (clear d) \<and> model_files (clear d) = model_files d"
  shows "triple (at_home env l path v s (\<lambda>_. True)) (discard env path sel clear)
    (\<lambda>_. at_home env l path v s (\<lambda>_. True)) (\<lambda>_. at_home env l path v s (\<lambda>_. True))"
  unfolding discard_def
  apply (rule triple_chain [OF triple_kept_io(1)], assumption, rule triple_chain [OF triple_inspect])
  apply (rule triple_pre [where P = "at_home env l path v s (\<lambda>_. True)"])
   apply (rule triple_if, rule triple_give, assumption)
   apply (rule triple_attempt [where R = "\<lambda>_. at_home env l path v s (\<lambda>_. True)" and F = "\<lambda>_. at_home env l path v s (\<lambda>_. True)"])
     apply (rule triple_chain [OF triple_kept_io(1)], assumption, rule triple_changed)
  subgoal for found w
    using assms unfolding at_home_def edit_dir_def put_dir_def elsewhere_same_def
    by (clarsimp, intro exI conjI) (rule refl, simp_all)
    apply (auto intro: triple_give)
  done

lemma in_trash_found:
  assumes "in_trash env l path name v s w"
  shows "\<exists>d. map_of (trash w) name = Some (TrashedDir d) \<and> places w path = None"
  using assms by (auto simp: in_trash_def map_of_append map_add_def split: option.splits dest: map_of_SomeD) (force dest: map_of_SomeD)

lemma triple_move_home:
  "triple (around env l path name v s) (move_home env path name) (\<lambda>_. at_home env l path v s (\<lambda>_. True)) (\<lambda>_. around env l path name v s)"
proof -
  have moved: "triple (around env l path name v s) (move_from_trash env name path)
      (\<lambda>_. at_home env l path v s (\<lambda>_. True)) (\<lambda>_. around env l path name v s)"
    unfolding move_from_trash_def
  proof (rule triple_chain [OF triple_kept_io(1)], assumption, rule triple_chain [OF triple_inspect])
    fix found u
    show "triple (\<lambda>w. around env l path name v s w \<and> found = (places w path, map_of (trash w) name))
      (case found of (None, Some (TrashedDir d)) \<Rightarrow>
         chain (modify (\<lambda>w. (put_dir path (Some d) w)\<lparr>trash := filter (\<lambda>t. fst t \<noteq> name) (trash w)\<rparr>)) (\<lambda>_. io env)
       | _ \<Rightarrow> throw IO_FAILED) (\<lambda>_. at_home env l path v s (\<lambda>_. True)) (\<lambda>_. around env l path name v s)"
    proof (cases "\<exists>d. found = (None, Some (TrashedDir d))")
      case True
      then obtain d where d: "found = (None, Some (TrashedDir d))" by blast
      have homed: "at_home env l path v s (\<lambda>_. True) ((put_dir path (Some d) w)\<lparr>trash := filter (\<lambda>t. fst t \<noteq> name) (trash w)\<rparr>)"
        if "around env l path name v s w" "found = (places w path, map_of (trash w) name)" for w
      proof -
        have "in_trash env l path name v s w" using that d by (auto simp: around_def at_home_def)
        then obtain d0 d' where w: "elsewhere_same v w" "model_rows w = s" "name \<notin> fst ` set (trash v)" "places v path = Some d0"
          "places w = (places v)(path := None)" "trash w = trash v @ [(name, TrashedDir d')]" "model_files d' = model_files d0"
          "delete_marker d' = Some (print_lease env l)" by (auto simp: in_trash_def)
        have none: "map_of (trash v) name = None" using w(3) by (simp add: map_of_eq_None_iff)
        have d': "d' = d" using that(2) d none by (simp add: w(6) map_add_def)
        have kept: "filter (\<lambda>t. fst t \<noteq> name) (trash v) = trash v" using w(3) by (auto simp: filter_id_conv)
        show ?thesis using w kept by (auto simp: at_home_def elsewhere_same_def put_dir_def marker_ok_def d')
      qed
      show ?thesis unfolding d prod.case option.case trash_entry.case
        by (rule triple_chain [where R = "\<lambda>_. at_home env l path v s (\<lambda>_. True)"], rule triple_changed)
          (use homed d in \<open>auto simp: around_def intro: triple_kept_io(1)\<close>)
    next
      case False
      then show ?thesis by (auto split: prod.split option.split trash_entry.split intro: triple_throw)
    qed
  qed
  show ?thesis unfolding move_home_def
    apply (rule triple_chain [OF triple_kept_io(3)], assumption, rule triple_chain [OF moved])
    apply (rule triple_chain [OF triple_kept_io(2)], simp add: around_def)
    apply (rule triple_chain [OF triple_kept_io(1)], simp add: around_def)
    apply (rule triple_kept_io(2), simp add: around_def)
    done
qed

lemma triple_restore:
  "triple (around env l path name v s) (restore_anchored env path name) (\<lambda>_. at_home env l path v s (\<lambda>_. True)) (\<lambda>_. around env l path name v s)"
proof -
  let ?H = "at_home env l path v s (\<lambda>_. True)"
  have tidy: "triple ?H (discard env path delete_marker_tmp (\<lambda>d. d\<lparr>delete_marker_tmp := None\<rparr>)) (\<lambda>_. ?H) (\<lambda>_. around env l path name v s)"
    "triple ?H (discard env path delete_marker (\<lambda>d. d\<lparr>delete_marker := None\<rparr>)) (\<lambda>_. ?H) (\<lambda>_. around env l path name v s)"
    by (rule triple_post [OF triple_discard]; simp add: marker_ok_def around_def)+
  have fetched: "triple (\<lambda>w. around env l path name v s w \<and> t = map_of (trash w) name)
      (if t \<noteq> None then move_home env path name else give ()) (\<lambda>_. ?H) (\<lambda>_. around env l path name v s)" for t
    by (rule triple_if, rule triple_pre [OF triple_move_home], simp, rule triple_give)
      (auto simp: around_def dest: in_trash_found)
  show ?thesis unfolding restore_anchored_def
    apply (rule triple_chain [OF triple_kept_io(6)], assumption)
    apply (rule triple_chain [OF fetched])
    apply (rule triple_chain [OF triple_kept_io(5)], simp add: around_def)
    apply (rule triple_pre [where P = ?H])
     apply (rule triple_if, rule triple_give, assumption)
     apply (rule triple_chain [OF tidy(1)], rule triple_chain [OF tidy(2)])
     apply (rule triple_kept_io(2), simp add: around_def)
    apply simp
    done
qed

lemma triple_undo:
  assumes "\<And>x t. abort_delete l s = Inr (x, t) \<Longrightarrow> t = s0"
  shows "triple (around env l path name v s) (undo_delete env path name l e) (\<lambda>_ _. False)
    (\<lambda>_ w. at_home env l path v s0 (\<lambda>_. True) w \<or> around env l path name v s w)"
  unfolding undo_delete_def
  apply (rule triple_chain [OF triple_post [OF triple_restore]], assumption, simp)
  apply (rule triple_chain [where R = "\<lambda>_. at_home env l path v s0 (\<lambda>_. True)"])
   apply (rule triple_on_rows)
    apply (auto simp: at_home_def elsewhere_same_def around_def dest!: assms)[2]
  apply (rule triple_throw, simp)
  done

subsection \<open>Emptying the trash\<close>

lemma in_trash_half: "in_trash env l path name v s w \<Longrightarrow> half_removed path v s w"
  by (auto simp: in_trash_def half_removed_def)

lemma in_trash_filter:
  assumes "in_trash env l path name v s w"
  shows "filter (\<lambda>t. fst t \<noteq> name) (trash w) = trash v"
  using assms by (auto simp: in_trash_def filter_id_conv)

lemma triple_remove_trashed:
  "triple (in_trash env l path name v s) (remove_trashed env name) (\<lambda>_. removed path v s) (\<lambda>_. half_removed path v s)"
  unfolding remove_trashed_def
proof (rule triple_chain [OF triple_tick], rule triple_chain [OF triple_tick], rule triple_chain [OF triple_inspect])
  fix k n found
  let ?run = "(case found of None \<Rightarrow> throw IO_FAILED
    | Some t \<Rightarrow> if io_fails env n
       then chain (modify (\<lambda>w. w\<lparr>trash := (if renamed_before env n
            then filter (\<lambda>t. fst t \<noteq> name) (trash w) @ [(TOMBSTONE @ uuid_drawn env k, partly_removed (keeps_file env n) t)]
            else trash w)\<rparr>)) (\<lambda>_. throw IO_FAILED)
       else if t = TrashedOther then throw STRUCTURAL
       else modify (\<lambda>w. w\<lparr>trash := filter (\<lambda>t. fst t \<noteq> name) (trash w)\<rparr>)) :: unit managing"
  show "triple (\<lambda>w. in_trash env l path name v s w \<and> found = map_of (trash w) name) ?run
    (\<lambda>_. removed path v s) (\<lambda>_. half_removed path v s)"
  proof (cases "\<exists>d. found = Some (TrashedDir d)")
    case True
    then obtain d where d: "found = Some (TrashedDir d)" by blast
    have cut: "half_removed path v s (w\<lparr>trash := (if b then filter (\<lambda>t. fst t \<noteq> name) (trash w) @ [t] else trash w)\<rparr>)"
      if "in_trash env l path name v s w" for w b t
      using that in_trash_filter [OF that] by (auto simp: in_trash_def half_removed_def elsewhere_same_def)
    have done_: "removed path v s (w\<lparr>trash := filter (\<lambda>t. fst t \<noteq> name) (trash w)\<rparr>)"
      if "in_trash env l path name v s w" for w
      using that in_trash_filter [OF that] by (auto simp: in_trash_def removed_def elsewhere_same_def)
    show ?thesis unfolding d option.case
      apply (rule triple_if)
       apply (rule triple_chain [where R = "\<lambda>_. half_removed path v s"], rule triple_changed, erule conjE, erule cut)
       apply (rule triple_throw, assumption)
      apply (rule triple_guard, simp, rule triple_changed, erule conjE, erule done_)
      done
  next
    case False
    then show ?thesis using in_trash_found by (auto simp: triple_def) (metis option.inject)+
  qed
qed

lemma triple_empty_trash:
  "triple (in_trash env l path name v s) (empty_trash env name) (\<lambda>_. removed path v s)
    (\<lambda>_ w. half_removed path v s w \<or> removed path v s w)"
  unfolding empty_trash_def
  apply (rule triple_chain [OF triple_kept_io(6)], simp add: in_trash_half)
  apply (rule triple_if)
   apply (rule triple_pre [where P = "in_trash env l path name v s"])
    apply (rule triple_chain [where R = "\<lambda>_. removed path v s"])
     apply (rule triple_post [OF triple_remove_trashed], assumption, simp)
    apply (rule triple_kept_io(2), simp)
   apply simp
  apply (rule triple_give)
  apply (auto dest: in_trash_found)
  done

subsection \<open>A whole deletion\<close>

definition with_deleting :: "string \<Rightarrow> model_store \<Rightarrow> model_store" where
  "with_deleting i = with_installations (update_where (\<lambda>r. inst_model_id r = i) (\<lambda>r. r\<lparr>inst_state := Deleting\<rparr>))"

definition without_model :: "string \<Rightarrow> model_store \<Rightarrow> model_store" where
  "without_model i = with_installations (filter (\<lambda>r. inst_model_id r \<noteq> i))"

text \<open>What the rows and the directory can be after a deletion has failed.\<close>

definition recoverable_deletion ::
    "manager_env \<Rightarrow> string \<Rightarrow> string \<Rightarrow> DeletionLease \<Rightarrow> manager_world \<Rightarrow> manager_world \<Rightarrow> bool" where
  "recoverable_deletion env i path l v w \<longleftrightarrow>
     at_home env l path v (model_rows v) (\<lambda>_. True) w \<or>
     (\<exists>name. around env l path name v (with_deleting i (model_rows v)) w) \<or>
     half_removed path v (without_model i (model_rows v)) w \<or> removed path v (without_model i (model_rows v)) w"

lemma triple_delete_reserved:
  assumes "\<And>x t. abort_delete l s = Inr (x, t) \<Longrightarrow> t = s0" "\<And>x t. finish_delete l s = Inr (x, t) \<Longrightarrow> t = s1"
  shows "triple (at_home env l path v s (\<lambda>_. True)) (delete_reserved env i path l) (\<lambda>_. removed path v s1)
    (\<lambda>_ w. at_home env l path v s0 (\<lambda>_. True) w \<or> (\<exists>name. around env l path name v s w) \<or>
      half_removed path v s1 w \<or> removed path v s1 w)"
proof -
  let ?E = "\<lambda>w. at_home env l path v s0 (\<lambda>_. True) w \<or> (\<exists>name. around env l path name v s w) \<or>
      half_removed path v s1 w \<or> removed path v s1 w"
  have undo: "triple (around env l path name v s) (undo_delete env path name l e) Q (\<lambda>_. ?E)" for name e Q
    by (rule triple_post [OF triple_undo [where ?s0.0 = s0, OF assms(1)]]) auto
  have finished: "triple (in_trash env l path name v s) (on_rows env (\<lambda>_. finish_delete l)) (\<lambda>_. in_trash env l path name v s1)
      (\<lambda>_. around env l path name v s)" for name
    by (rule triple_on_rows) (auto simp: around_def in_trash_def elsewhere_same_def dest!: assms(2))
  show ?thesis unfolding delete_reserved_def Let_def
    apply (rule triple_chain [OF triple_kept_io(5)])
     apply (auto simp: around_def)[1]
    apply (rule triple_if)
     apply (rule triple_pre [where P = "\<lambda>_. False"])
      apply (simp add: triple_def)
     apply (auto simp: at_home_def)[1]
    apply (rule triple_pre [where P = "at_home env l path v s (\<lambda>_. True)"])
     apply (rule triple_chain [OF triple_tick])
     apply (rule triple_attempt [OF triple_prepare_delete])
      apply (simp only: sum.case, rule triple_attempt [OF finished])
       apply (simp only: sum.case, rule triple_post [OF triple_empty_trash], assumption, blast)
      apply (simp only: sum.case, rule undo)
     apply (simp only: sum.case, rule undo)
    apply simp
    done
qed

lemma unreserved:
  assumes "execution_leases w i = None" "elsewhere_same (reserve i (w\<lparr>model_rows := t\<rparr>)) x"
  shows "execution_leases (unreserve i x) = execution_leases w" "quarantined (unreserve i x) = quarantined w"
    "places (unreserve i x) = places x" "trash (unreserve i x) = trash x" "model_rows (unreserve i x) = model_rows x"
  using assms by (auto simp: elsewhere_same_def reserve_def unreserve_def)

lemma unreserve_stages:
  assumes none: "execution_leases w i = None" and v: "v = reserve i (w\<lparr>model_rows := t\<rparr>)"
  shows "at_home env l path v s F x \<Longrightarrow> at_home env l path w s F (unreserve i x)"
    "in_trash env l path name v s x \<Longrightarrow> in_trash env l path name w s (unreserve i x)"
    "removed path v s x \<Longrightarrow> removed path w s (unreserve i x)"
    "half_removed path v s x \<Longrightarrow> half_removed path w s (unreserve i x)"
proof -
  have parts: "places v = places w" "trash v = trash w" by (simp_all add: v reserve_def)
  have frame: "elsewhere_same w (unreserve i x)" if "elsewhere_same v x" for x
    using unreserved [OF none] that by (simp add: elsewhere_same_def v)
  have same: "places (unreserve i x) = places x" "trash (unreserve i x) = trash x" "model_rows (unreserve i x) = model_rows x" for x
    by (simp_all add: unreserve_def)
  show "at_home env l path v s F x \<Longrightarrow> at_home env l path w s F (unreserve i x)"
    "in_trash env l path name v s x \<Longrightarrow> in_trash env l path name w s (unreserve i x)"
    "removed path v s x \<Longrightarrow> removed path w s (unreserve i x)"
    "half_removed path v s x \<Longrightarrow> half_removed path w s (unreserve i x)"
    by (simp_all add: at_home_def in_trash_def removed_def half_removed_def frame same parts)
qed

lemma at_home_start:
  assumes "places v path = Some d" "marker_ok env l d"
  shows "at_home env l path v (model_rows v) (\<lambda>_. True) v"
  unfolding at_home_def elsewhere_same_def
  by (intro conjI exI [of _ d] refl TrueI) (simp_all add: assms fun_upd_idem)

lemma begin_delete_outcome:
  assumes ok: "installations_ok (installed s)" and r: "r \<in> set (installed s)" "inst_model_id r = i"
    and run: "begin_delete i now s = Inr (l', s')"
  shows "l' = None \<and> s' = s \<or> l' = Some (lease_of_row r) \<and> s' = with_deleting i s"
proof (cases l')
  case None
  with run show ?thesis by (auto simp: begin_delete_def Let_def split: option.splits if_splits)
next
  case (Some l)
  with begin_delete_exact [OF ok] run obtain q where "q \<in> set (installed s)" "inst_model_id q = i" "l = lease_of_row q"
    "s' = with_deleting i s" by (auto simp: with_deleting_def)
  moreover have "distinct (map inst_model_id (installed s))" using ok by (simp add: installations_ok_def)
  then have "q = r" using distinct_key_unique r calculation(1,2) by metis
  ultimately show ?thesis using Some by simp
qed

text \<open>What the lease of a row being deleted does to the rows.\<close>

lemma deleting_powers:
  assumes "installations_ok (installed s)" "r \<in> set (installed s)" "inst_state r \<noteq> Deleting"
  shows "model_deletion_lease (inst_model_id r) (with_deleting (inst_model_id r) s) = Some (lease_of_row r)"
    "abort_delete (lease_of_row r) (with_deleting (inst_model_id r) s) = Inr ((), s)"
    "finish_delete (lease_of_row r) (with_deleting (inst_model_id r) s) = Inr ((), without_model (inst_model_id r) s)"
proof -
  let ?t = "with_deleting (inst_model_id r) s"
  have "installed ?t = update_where (\<lambda>x. inst_model_id x = inst_model_id r) (\<lambda>x. x\<lparr>inst_state := Deleting\<rparr>) (installed s)"
    by (simp add: with_deleting_def)
  note powers = lease_powers [OF assms this]
  show "model_deletion_lease (inst_model_id r) ?t = Some (lease_of_row r)" by (rule powers(1))
  show "abort_delete (lease_of_row r) ?t = Inr ((), s)" "finish_delete (lease_of_row r) ?t = Inr ((), without_model (inst_model_id r) s)"
    using powers by (simp_all add: with_installations_def with_deleting_def without_model_def)
qed

text \<open>From the reservation to the end, with the reservation given back.\<close>

lemma triple_reserved:
  assumes none: "execution_leases w i = None" and start: "places w path = Some d" "marker_ok env l d"
    and abort: "abort_delete l t = Inr ((), model_rows w)" and finish: "finish_delete l t = Inr ((), s1)"
    and s1: "s1 = without_model i (model_rows w)" and t: "t = with_deleting i (model_rows w)"
  shows "triple (\<lambda>x. x = reserve i (w\<lparr>model_rows := t\<rparr>))
    (attempt (delete_reserved env i path l) (\<lambda>r. chain (modify (unreserve i)) (\<lambda>_. from_result r)))
    (\<lambda>_. removed path w s1) (\<lambda>_. recoverable_deletion env i path l w)"
proof (rule triple_attempt)
  let ?v = "reserve i (w\<lparr>model_rows := t\<rparr>)" and ?s = "model_rows w"
  have "at_home env l path ?v t (\<lambda>_. True) ?v"
    using at_home_start [of ?v path d env l] start by (simp add: reserve_def)
  then show "triple (\<lambda>x. x = ?v) (delete_reserved env i path l) (\<lambda>_. removed path ?v s1)
    (\<lambda>_ x. at_home env l path ?v ?s (\<lambda>_. True) x \<or> (\<exists>name. around env l path name ?v t x) \<or>
      half_removed path ?v s1 x \<or> removed path ?v s1 x)"
    by (intro triple_pre [OF triple_delete_reserved]) (simp_all add: abort finish)
  note stages = unreserve_stages [OF none refl, where t = t]
  show "triple (removed path ?v s1) (chain (modify (unreserve i)) (\<lambda>_. from_result (Inr x)))
    (\<lambda>_. removed path w s1) (\<lambda>_. recoverable_deletion env i path l w)" for x
    by (rule triple_chain [where R = "\<lambda>_. removed path w s1"], rule triple_changed, erule stages(3))
      (simp add: triple_give)
  show "triple (\<lambda>x. at_home env l path ?v ?s (\<lambda>_. True) x \<or> (\<exists>name. around env l path name ?v t x) \<or>
      half_removed path ?v s1 x \<or> removed path ?v s1 x)
    (chain (modify (unreserve i)) (\<lambda>_. from_result (Inl e)))
    (\<lambda>_. removed path w s1) (\<lambda>_. recoverable_deletion env i path l w)" for e
    by (rule triple_chain [where R = "\<lambda>_. recoverable_deletion env i path l w"], rule triple_changed)
      (auto simp: recoverable_deletion_def around_def s1 t [symmetric] intro: stages triple_throw)
qed

text \<open>
  C18: Whatever calls fail: a deletion that answers success has removed the row and the directory and
  nothing else; one that answers an error has either left the installation as it was, row and files, or
  a row that is being deleted whose directory, with all its files, is at its place or in the trash under
  the marker that a restart looks for, or it has removed the row and not yet all of the trash.  The
  reservation is given back in every case.
\<close>
theorem deletion_never_loses:
  assumes ok: "installations_ok (installed (model_rows w))" and lease: "execution_leases w i \<noteq> Some 0"
    and place: "places w path = Some d" and r: "r \<in> set (installed (model_rows w))" "inst_model_id r = i" "inst_state r \<noteq> Deleting"
    and marker: "marker_ok env (lease_of_row r) d"
  shows "case delete_anchored env i path n w of
      (Inl _, _, w') \<Rightarrow> recoverable_deletion env i path (lease_of_row r) w w'
    | (Inr _, _, w') \<Rightarrow> removed path w (without_model i (model_rows w)) w'"
proof -
  let ?l = "lease_of_row r" and ?s = "model_rows w"
  let ?t = "with_deleting i ?s"
  have start: "recoverable_deletion env i path ?l w w"
    using at_home_start [OF place marker] by (simp add: recoverable_deletion_def)
  note powers = deleting_powers [OF ok r(1,3), unfolded r(2)]
  note reserved = triple_reserved [OF _ place marker powers(2,3) refl refl]
  have "triple (\<lambda>x. x = w) (delete_anchored env i path) (\<lambda>_. removed path w (without_model i ?s))
      (\<lambda>_. recoverable_deletion env i path ?l w)"
    unfolding delete_anchored_def
    apply (rule triple_chain [OF triple_kept_io(4)], simp add: start)
    apply (rule triple_chain [OF triple_kept_io(7)], simp add: start)
    apply (rule triple_chain [OF triple_inspect])
    apply (rule triple_guard, simp add: start)
    apply (rule triple_chain [where R = "\<lambda>l' x. execution_leases w i = None \<and> (l' = None \<and> x = w \<or> l' = Some ?l \<and> x = w\<lparr>model_rows := ?t\<rparr>)"])
     apply (rule triple_on_rows)
    subgoal using lease by (auto dest!: begin_delete_outcome [OF ok r(1,2)])
    subgoal by (auto simp: start)
    subgoal for u v c l'
    proof (cases l')
      case None
      then show ?thesis by (auto simp: start intro: triple_throw)
    next
      case (Some l)
      show ?thesis unfolding Some option.case
        by (rule triple_chain [where R = "\<lambda>_ x. x = reserve i (w\<lparr>model_rows := ?t\<rparr>) \<and> (execution_leases w i = None \<and> l = ?l)"],
            rule triple_changed, force, rule triple_fact, elim conjE, simp only:, rule reserved)
    qed
    done
  then show ?thesis by (simp add: triple_def)
qed

subsection \<open>What a restart makes of it\<close>

lemmas still_programs = chain_def attempt_def give_def throw_def tick_def call_def inspect_def modify_def
  io_def sync_dir_def ensure_dir_def on_rows_def ask_rows_def open_dir_def open_trashed_def require_dir_def

lemma complete_is_finish: "complete_deletion_recovery l s = finish_delete l s"
  by (simp add: complete_deletion_recovery_def finish_delete_def)

text \<open>When nothing fails, an installation in the trash is finished off by the first step of a restart,
  and one at its place is finished off or restored by the second, as its marker says.\<close>

lemma restart_empties_trash:
  assumes calm: "\<And>n. \<not> io_fails env n" and lib: "parse_lease env (print_lease env l) = Some l"
    and rows: "model_deletion_lease (lease_model_id l) s = Some l" "finish_delete l s = Inr ((), s1)"
    and v: "trash v = []" and w: "in_trash env l path name v s w"
  shows "\<exists>n'. reconcile_trash_anchored env n w = (Inr (), n', w\<lparr>model_rows := s1, trash := []\<rparr>)"
proof -
  obtain d where d: "trash w = [(name, TrashedDir d)]" "delete_marker d = Some (print_lease env l)"
    using w v by (auto simp: in_trash_def)
  have "model_rows w = s" using w by (simp add: in_trash_def)
  with d calm lib rows show ?thesis
    by (simp add: reconcile_trash_anchored_def reconcile_trash_entry_def remove_trashed_def still_programs complete_is_finish)
qed

lemma restart_resumes_home:
  assumes calm: "\<And>n. \<not> io_fails env n" and lib: "parse_lease env (print_lease env l) = Some l"
    and l: "lease_from_record r = l" and rows: "abort_delete l s = Inr ((), s0)" "finish_delete l s = Inr ((), s1)"
    and v: "trash v = []" and w: "at_home env l path v s F w"
  shows "\<exists>n' w'. reconcile_deleting_anchored env path r n w = (Inr (), n', w') \<and>
    (removed path v s1 w' \<or> at_home env l path v s0 (\<lambda>d. delete_marker d = None \<and> delete_marker_tmp d = None) w')"
proof -
  obtain d d' where d: "places v path = Some d" "places w = (places v)(path \<mapsto> d')" "model_files d' = model_files d"
    "marker_ok env l d'" "elsewhere_same v w" "model_rows w = s" "trash w = []"
    using w v by (auto simp: at_home_def)
  show ?thesis
  proof (cases "delete_marker d'")
    case None
    with d calm rows show ?thesis
      by (auto simp: reconcile_deleting_anchored_def still_programs l edit_dir_def put_dir_def at_home_def elsewhere_same_def
          v marker_ok_def split: if_splits)
  next
    case (Some bs)
    then have bs: "bs = print_lease env l" using d(4) by (simp add: marker_ok_def)
    from d calm lib rows Some show ?thesis
      by (simp add: reconcile_deleting_anchored_def move_to_trash_def remove_trashed_def still_programs l bs Let_def
          complete_is_finish put_dir_def removed_def elsewhere_same_def v fun_upd_idem)
  qed
qed

lemma lease_of_deleting_record:
  assumes "installations_ok rows" "r \<in> set rows" "inst_state r \<noteq> Deleting"
  shows "lease_from_record (r\<lparr>inst_state := Deleting\<rparr>) = lease_of_row r"
proof -
  have "installation_ok (inst_state r) (inst_qualified_at r)"
    using assms(1,2) by (simp add: installations_ok_def list_all_iff)
  then have "prior_state_of (r\<lparr>inst_state := Deleting\<rparr>) = inst_state r"
    using assms(3) by (cases "inst_state r") (auto simp: prior_state_of_def)
  then show ?thesis by (simp add: lease_from_record_def lease_of_row_def)
qed


subsection \<open>A removal that was interrupted\<close>

text \<open>A directory in the trash whose marker names a model that no row is being deleted for.\<close>

definition stranded :: "manager_env \<Rightarrow> string \<Rightarrow> manager_world \<Rightarrow> bool" where
  "stranded env name w \<longleftrightarrow> (\<exists>d bs l. map_of (trash w) name = Some (TrashedDir d) \<and> delete_marker d = Some bs \<and>
     parse_lease env bs = Some l \<and> model_deletion_lease (lease_model_id l) (model_rows w) = None)"

lemma stranded_rows:
  assumes "stranded env name w" "complete_deletion_recovery l s = Inr (x, s')" "s = model_rows w"
  shows "stranded env name (w\<lparr>model_rows := s'\<rparr>)"
proof -
  have s': "s' = with_installations (filter (\<lambda>r. \<not> deleting_at l r)) s"
    using assms(2) by (auto simp: complete_deletion_recovery_def split: if_splits)
  have "model_deletion_lease i s' = None" if "model_deletion_lease i s = None" for i
    using that by (auto simp: model_deletion_lease_def s' find_None_iff)
  with assms(1,3) show ?thesis by (auto simp: stranded_def)
qed

lemma map_of_filtered: "other \<noteq> name \<Longrightarrow> map_of (filter (\<lambda>t. fst t \<noteq> other) ts) name = map_of ts name"
  by (induction ts) auto

lemma stranded_trash:
  assumes "stranded env name w" "other \<noteq> name"
  shows "stranded env name (w\<lparr>trash := filter (\<lambda>t. fst t \<noteq> other) (trash w) @ ts\<rparr>)"
  using assms by (auto simp: stranded_def map_of_append map_add_def map_of_filtered split: option.split)

lemma triple_remove_other:
  assumes "other \<noteq> name"
  shows "triple (stranded env name) (remove_trashed env other) (\<lambda>_. stranded env name) (\<lambda>_. stranded env name)"
  unfolding remove_trashed_def
proof (rule triple_chain [OF triple_tick], rule triple_chain [OF triple_tick], rule triple_chain [OF triple_inspect])
  fix k n found
  have cut: "stranded env name (w\<lparr>trash := (if b then filter (\<lambda>t. fst t \<noteq> other) (trash w) @ [t] else trash w)\<rparr>)"
    "stranded env name (w\<lparr>trash := filter (\<lambda>t. fst t \<noteq> other) (trash w)\<rparr>)" if "stranded env name w" for w b t
    using that stranded_trash [OF that assms] stranded_trash [OF that assms, of "[]"] by simp_all
  have failing: "triple (stranded env name) (chain (modify (\<lambda>w. w\<lparr>trash := (if b
      then filter (\<lambda>t. fst t \<noteq> other) (trash w) @ [t] else trash w)\<rparr>)) (\<lambda>_. throw e)) Q (\<lambda>_. stranded env name)" for b t e Q
    by (rule triple_chain [where R = "\<lambda>_. stranded env name"], rule triple_changed, erule cut) (simp add: triple_throw)
  show "triple (\<lambda>w. stranded env name w \<and> found = map_of (trash w) other) (case found of None \<Rightarrow> throw IO_FAILED
    | Some t \<Rightarrow> if io_fails env n
       then chain (modify (\<lambda>w. w\<lparr>trash := (if renamed_before env n
            then filter (\<lambda>t. fst t \<noteq> other) (trash w) @ [(TOMBSTONE @ uuid_drawn env k, partly_removed (keeps_file env n) t)]
            else trash w)\<rparr>)) (\<lambda>_. throw IO_FAILED)
       else if t = TrashedOther then throw STRUCTURAL
       else modify (\<lambda>w. w\<lparr>trash := filter (\<lambda>t. fst t \<noteq> other) (trash w)\<rparr>)) (\<lambda>_. stranded env name) (\<lambda>_. stranded env name)"
    by (rule triple_pre [where P = "stranded env name"])
      (auto split: option.split intro!: triple_throw triple_if failing triple_changed cut(2))
qed

lemma triple_reconcile_other:
  assumes "other \<noteq> name"
  shows "triple (stranded env name) (reconcile_trash_entry env other) (\<lambda>_. stranded env name) (\<lambda>_. stranded env name)"
proof -
  let ?S = "stranded env name"
  have asked: "triple ?S (ask_rows env f) (\<lambda>_. ?S) (\<lambda>_. ?S)" for f :: "model_store \<Rightarrow> 'a"
    unfolding ask_rows_def
    by (rule triple_chain [where R = "\<lambda>_. ?S"], rule triple_post [OF triple_call]) (auto simp: triple_def inspect_def)
  have completed: "triple ?S (on_rows env (\<lambda>_. complete_deletion_recovery l)) (\<lambda>_. ?S) (\<lambda>_. ?S)" for l
    by (rule triple_on_rows) (auto intro: stranded_rows)
  have checked: "triple ?S (case delete_marker d of None \<Rightarrow> give ()
       | Some bs \<Rightarrow> chain (io env) (\<lambda>_. chain (from_result (ok_or INTEGRITY (parse_lease env bs))) (\<lambda>l.
           chain (ask_rows env (model_deletion_lease (lease_model_id l))) (\<lambda>current.
           if current \<noteq> Some l then throw INTEGRITY else on_rows env (\<lambda>_. complete_deletion_recovery l)))))
      (\<lambda>_. ?S) (\<lambda>_. ?S)" for d
    by (auto split: option.split intro!: triple_give triple_chain [OF triple_kept_io(1)] triple_chain [OF triple_kept_io(7)]
        triple_fact triple_chain [OF asked] triple_if triple_throw completed)
  have cleared: "triple ?S (modify (\<lambda>w. w\<lparr>trash := filter (\<lambda>t. fst t \<noteq> other) (trash w)\<rparr>)) (\<lambda>_. ?S) (\<lambda>_. ?S)"
    by (rule triple_changed) (use stranded_trash [OF _ assms, of env _ "[]"] in simp)
  have entry: "triple ?S (case t of None \<Rightarrow> throw IO_FAILED | Some TrashedOther \<Rightarrow> throw STRUCTURAL
     | Some TrashedFile \<Rightarrow> chain (io env) (\<lambda>_. modify (\<lambda>w. w\<lparr>trash := filter (\<lambda>t. fst t \<noteq> other) (trash w)\<rparr>))
     | Some (TrashedDir d) \<Rightarrow> chain (io env) (\<lambda>_. chain (case delete_marker d of None \<Rightarrow> give ()
       | Some bs \<Rightarrow> chain (io env) (\<lambda>_. chain (from_result (ok_or INTEGRITY (parse_lease env bs))) (\<lambda>l.
           chain (ask_rows env (model_deletion_lease (lease_model_id l))) (\<lambda>current.
           if current \<noteq> Some l then throw INTEGRITY else on_rows env (\<lambda>_. complete_deletion_recovery l)))))
       (\<lambda>_. remove_trashed env other))) (\<lambda>_. ?S) (\<lambda>_. ?S)" for t
  proof (cases t)
    case (Some x)
    show ?thesis unfolding Some option.case
      by (cases x; simp only: trash_entry.case)
        (intro triple_chain [OF triple_kept_io(1)] triple_chain [OF checked] triple_remove_other [OF assms] cleared triple_throw; assumption)+
  qed (simp add: triple_throw)
  show ?thesis unfolding reconcile_trash_entry_def
    by (rule triple_chain [OF triple_kept_io(6)], assumption, rule triple_pre [OF entry]) simp
qed

lemma triple_reconcile_stranded:
  "triple (stranded env name) (reconcile_trash_entry env name) (\<lambda>_ _. False) (\<lambda>_. stranded env name)"
proof (rule tripleI)
  fix n w
  assume w: "stranded env name w"
  then obtain d bs l where d: "map_of (trash w) name = Some (TrashedDir d)" "delete_marker d = Some bs"
    "parse_lease env bs = Some l" "model_deletion_lease (lease_model_id l) (model_rows w) = None" by (auto simp: stranded_def)
  have run: "\<exists>e n'. reconcile_trash_entry env name n w = (Inl e, n', w)"
    using d by (auto simp: reconcile_trash_entry_def still_programs)
  show "reconcile_trash_entry env name n w = (Inr x, n', w') \<Longrightarrow> False" for x n' w' using run by auto
  show "reconcile_trash_entry env name n w = (Inl e, n', w') \<Longrightarrow> stranded env name w'" for e n' w' using run w by auto
qed

lemma triple_reconcile_entries:
  "name \<in> set names \<Longrightarrow> triple (stranded env name) (reconcile_trash_entries env names) (\<lambda>_ _. False) (\<lambda>_. stranded env name)"
proof (induction names)
  case (Cons other names)
  show ?case
  proof (cases "other = name")
    case True
    then show ?thesis unfolding True reconcile_trash_entries.simps
      by (intro triple_chain [OF triple_reconcile_stranded]) (simp add: triple_def)
  next
    case False
    with Cons show ?thesis by (auto intro!: triple_chain [OF triple_reconcile_other])
  qed
qed simp

text \<open>
  C19: A deletion that was interrupted after its row had been removed and before its trash was blocks every
  later restart: the marker in the trash names a row that is not there, so emptying the trash ends with
  an error, whatever its calls answer, and leaves the directory there for the next restart.
\<close>
theorem stranded_blocks_restarts:
  assumes "map_of (trash w) name = Some (TrashedDir d)" "delete_marker d = Some (print_lease env l)"
    and "parse_lease env (print_lease env l) = Some l"
    and "\<And>r. r \<in> set (installed (model_rows w)) \<Longrightarrow> inst_model_id r \<noteq> lease_model_id l"
  shows "\<exists>e n' w'. reconcile_trash_anchored env n w = (Inl e, n', w') \<and> stranded env name w'"
proof -
  have s: "stranded env name w"
    using assms by (auto simp: stranded_def model_deletion_lease_def find_None_iff)
  have names: "name \<in> set (map fst (trash w))" using map_of_SomeD [OF assms(1)] by force
  have "triple (\<lambda>x. stranded env name x \<and> trash x = trash w) (reconcile_trash_anchored env) (\<lambda>_ _. False) (\<lambda>_. stranded env name)"
    unfolding reconcile_trash_anchored_def
    apply (rule triple_chain [OF triple_kept_io(1)], simp, rule triple_chain [OF triple_inspect])
    apply (rule triple_pre [where P = "\<lambda>x. stranded env name x \<and> name \<in> set ns" for ns], rule triple_fact, erule triple_reconcile_entries)
    using names apply auto
    done
  note outcome = tripleD_Inl [OF this, where n = n] tripleD_Inr [OF this, where n = n]
  obtain r n' w' where run: "reconcile_trash_anchored env n w = (r, n', w')" by (cases "reconcile_trash_anchored env n w")
  show ?thesis
  proof (cases r)
    case (Inl e)
    with outcome(1) [OF _ run [unfolded Inl]] run s show ?thesis by auto
  next
    case (Inr u)
    with outcome(2) [OF _ run [unfolded Inr]] s show ?thesis by simp
  qed
qed

subsection \<open>Execution and deletion exclude each other\<close>

text \<open>The guards held and the models whose deletion is reserved, beside the world.\<close>

record lease_system =
  managed :: manager_world
  guards :: "string list"
  under_deletion :: "string set"

text \<open>Whatever the rest of the program does between two uses of the registry's lock; memory does not hold
  as many guards as a counter can count.\<close>

inductive lease_step :: "manager_env \<Rightarrow> lease_system \<Rightarrow> lease_system \<Rightarrow> bool" for env where
  step_acquire: "acquire_execution_lease env i n (managed s) = (Inr (), n', w) \<Longrightarrow> length (guards s) < 2 ^ 64 - 2 \<Longrightarrow>
    lease_step env s (s\<lparr>managed := w, guards := i # guards s\<rparr>)"
| step_drop: "i \<in> set (guards s) \<Longrightarrow>
    lease_step env s (s\<lparr>managed := release i (managed s), guards := remove1 i (guards s)\<rparr>)"
| step_reserve: "execution_leases (managed s) i \<in> {None, Some 0} \<Longrightarrow>
    begin_delete i now (model_rows (managed s)) = Inr (Some l, t) \<Longrightarrow>
    lease_step env s (s\<lparr>managed := reserve i (managed s\<lparr>model_rows := t\<rparr>), under_deletion := insert i (under_deletion s)\<rparr>)"
| step_unreserve: "i \<in> under_deletion s \<Longrightarrow>
    lease_step env s (s\<lparr>managed := unreserve i (managed s), under_deletion := under_deletion s - {i}\<rparr>)"
| step_elsewhere: "execution_leases w = execution_leases (managed s) \<Longrightarrow> lease_step env s (s\<lparr>managed := w\<rparr>)"

definition leases_exact :: "lease_system \<Rightarrow> bool" where
  "leases_exact s \<longleftrightarrow> length (guards s) < 2 ^ 64 - 1 \<and> set (guards s) \<inter> under_deletion s = {} \<and>
     execution_leases (managed s) = (\<lambda>i. if i \<in> under_deletion s then Some DELETE_RESERVED
       else if i \<in> set (guards s) then Some (of_nat (count_list (guards s) i)) else None)"

lemma acquired_lease:
  assumes "acquire_execution_lease env i n w = (Inr (), n', w')"
  shows "taken_lease i w = Inr w'"
  using assms by (cases "validate_component i")
    (auto simp: acquire_execution_lease_def ensure_current_def still_programs split: if_splits sum.splits)

lemma reserved_count: "unat DELETE_RESERVED = 2 ^ 64 - 1"
  by (simp add: DELETE_RESERVED_def unsigned_minus_1_eq_mask mask_eq_exp_minus_1)

lemma counted:
  assumes "length xs < 2 ^ 64 - 1"
  shows "unat (of_nat (count_list xs i) :: usize) = count_list xs i"
    "(of_nat (count_list xs i) :: usize) \<noteq> DELETE_RESERVED"
proof -
  have le: "count_list xs i < 2 ^ 64 - 1" using count_le_length [of xs i] assms by linarith
  then show *: "unat (of_nat (count_list xs i) :: usize) = count_list xs i" by (simp add: unat_of_nat)
  have "unat DELETE_RESERVED = 2 ^ 64 - 1" by (rule reserved_count)
  with le * show "(of_nat (count_list xs i) :: usize) \<noteq> DELETE_RESERVED" by (metis less_irrefl)
qed

lemma count_list_remove1: "count_list (remove1 i xs) j = (if i = j then count_list xs j - 1 else count_list xs j)"
  by (induction xs) auto

lemma leases_step:
  assumes "lease_step env s s'" "leases_exact s"
  shows "leases_exact s'"
  using assms
proof (induction rule: lease_step.induct)
  case (step_acquire i n s n' w)
  have reg: "execution_leases (managed s) = (\<lambda>i. if i \<in> under_deletion s then Some DELETE_RESERVED
       else if i \<in> set (guards s) then Some (of_nat (count_list (guards s) i)) else None)"
    and len: "length (guards s) < 2 ^ 64 - 1" using step_acquire.prems by (simp_all add: leases_exact_def)
  have taken: "taken_lease i (managed s) = Inr w" by (rule acquired_lease [OF step_acquire.hyps(1)])
  have free: "i \<notin> under_deletion s" using taken by (auto simp: taken_lease_def reg)
  have "w = (managed s)\<lparr>execution_leases := (execution_leases (managed s))(i \<mapsto> of_nat (Suc (count_list (guards s) i)))\<rparr>"
  proof (cases "i \<in> set (guards s)")
    case True
    let ?c = "of_nat (count_list (guards s) i) :: usize"
    have "unat ?c < 2 ^ 64 - 1"
      using counted(1) [OF len, of i] count_le_length [of "guards s" i] len by linarith
    then have "checked_add ?c 1 = Some (?c + 1)" by (simp add: checked_add_def)
    then have "taken_lease i (managed s) = Inr ((managed s)\<lparr>execution_leases := (execution_leases (managed s))(i \<mapsto> ?c + 1)\<rparr>)"
      using True free counted(2) [OF len, of i] by (simp add: taken_lease_def reg)
    with taken show ?thesis by (simp add: add.commute)
  next
    case False
    with taken free show ?thesis by (auto simp: taken_lease_def reg count_notin)
  qed
  with step_acquire free show ?case
    by (auto simp: leases_exact_def fun_eq_iff)
next
  case (step_drop i s)
  let ?c = "count_list (guards s) i"
  have reg: "execution_leases (managed s) = (\<lambda>i. if i \<in> under_deletion s then Some DELETE_RESERVED
       else if i \<in> set (guards s) then Some (of_nat (count_list (guards s) i)) else None)"
    and len: "length (guards s) < 2 ^ 64 - 1" and free: "i \<notin> under_deletion s"
    using step_drop by (auto simp: leases_exact_def)
  have pos: "0 < ?c" using step_drop.hyps by (simp add: count_list_0_iff flip: neq0_conv)
  have less: "checked_sub (of_nat ?c :: usize) 1 = Some (of_nat (?c - 1))"
    using counted(1) [OF len, of i] pos by (simp add: checked_sub_def word_le_nat_alt of_nat_diff)
  have "length (remove1 i (guards s)) < 2 ^ 64 - 1" using len length_remove1 [of i "guards s"] by (simp split: if_splits)
  from counted(1) [OF this, of i] have "unat (of_nat (?c - 1) :: usize) = ?c - 1" by (simp add: count_list_remove1)
  then have "(of_nat (?c - 1) :: usize) = 0 \<longleftrightarrow> ?c - 1 = 0" by (metis unat_eq_zero)
  then have zero: "(of_nat (?c - 1) :: usize) = 0 \<longleftrightarrow> i \<notin> set (remove1 i (guards s))"
    using count_list_0_iff [of "remove1 i (guards s)" i] by (simp add: count_list_remove1)
  have "release i (managed s) = (managed s)\<lparr>execution_leases := (execution_leases (managed s))(i :=
      (if i \<in> set (remove1 i (guards s)) then Some (of_nat (count_list (remove1 i (guards s)) i)) else None))\<rparr>"
    using step_drop.hyps free zero less by (simp add: release_def drop_execution_lease_def reg count_list_remove1)
  then show ?case using step_drop free
    by (auto simp: leases_exact_def fun_eq_iff length_remove1 count_list_remove1 dest: notin_set_remove1 in_set_remove1 [THEN iffD1, rotated])
next
  case (step_reserve s i now l t)
  have len: "length (guards s) < 2 ^ 64 - 1" using step_reserve.prems by (simp add: leases_exact_def)
  have "DELETE_RESERVED \<noteq> 0" by (simp add: DELETE_RESERVED_def)
  then have "i \<notin> under_deletion s" using step_reserve by (auto simp: leases_exact_def split: if_splits)
  moreover have "i \<notin> set (guards s)"
    using step_reserve calculation counted(1) [OF len, of i] by (auto simp: leases_exact_def count_list_0_iff split: if_splits)
  ultimately show ?case using step_reserve.prems by (auto simp: leases_exact_def reserve_def fun_eq_iff)
next
  case (step_unreserve i s)
  then show ?case by (auto simp: leases_exact_def unreserve_def fun_eq_iff)
next
  case (step_elsewhere w s)
  then show ?case by (auto simp: leases_exact_def fun_eq_iff)
qed

interpretation lease_registry: invariant_relation "lease_step env" leases_exact for env
  by unfold_locales (rule leases_step)

text \<open>
  C31: However executions, deletions and everything else interleave, from an empty registry on: a model
  that is held for execution is not being deleted, the registry counts the guards exactly, and asking
  for a model under deletion, or to delete one that is held, is refused and changes nothing.
\<close>
theorem execution_excludes_deletion:
  assumes "(lease_step env)\<^sup>*\<^sup>* s s'" "guards s = []" "under_deletion s = {}" "execution_leases (managed s) = (\<lambda>_. None)"
  shows "set (guards s') \<inter> under_deletion s' = {} \<and>
    (\<forall>i. execution_leases (managed s') i = None \<longleftrightarrow> i \<notin> set (guards s') \<and> i \<notin> under_deletion s') \<and>
    (\<forall>i \<in> under_deletion s'. \<forall>n. \<exists>e n'. acquire_execution_lease env i n (managed s') = (Inl e, n', managed s')) \<and>
    (\<forall>i \<in> set (guards s'). \<forall>n path. \<exists>e n'. delete_anchored env i path n (managed s') = (Inl e, n', managed s'))"
proof -
  have "leases_exact s" using assms(2-4) by (simp add: leases_exact_def)
  from lease_registry.reachable_inv [OF assms(1) this]
  have reg: "execution_leases (managed s') = (\<lambda>i. if i \<in> under_deletion s' then Some DELETE_RESERVED
       else if i \<in> set (guards s') then Some (of_nat (count_list (guards s') i)) else None)"
    and len: "length (guards s') < 2 ^ 64 - 1" and apart: "set (guards s') \<inter> under_deletion s' = {}"
    by (simp_all add: leases_exact_def)
  have refused: "\<exists>e n'. acquire_execution_lease env i n (managed s') = (Inl e, n', managed s')"
    if "i \<in> under_deletion s'" for i n
    using that by (cases "validate_component i")
      (auto simp: acquire_execution_lease_def ensure_current_def still_programs taken_lease_def reg)
  have held: "\<exists>e n'. delete_anchored env i path n (managed s') = (Inl e, n', managed s')"
    if "i \<in> set (guards s')" for i n path
  proof -
    have "count_list (guards s') i \<noteq> 0" using that by (simp add: count_list_0_iff)
    then have "(of_nat (count_list (guards s') i) :: usize) \<noteq> 0" using counted(1) [OF len, of i] by (metis unat_0)
    then show ?thesis using that apart by (cases "validate_component i")
      (auto simp: delete_anchored_def ensure_current_def still_programs reg)
  qed
  show ?thesis using apart refused held by (auto simp: reg)
qed


subsection \<open>A deletion\<close>

definition demo_manager :: manager_env where
  "demo_manager = \<lparr>io_fails = \<lambda>_. False, cut_at = \<lambda>_. 0, keeps_file = \<lambda>_ _. True, renamed_before = \<lambda>_. True, time_now = \<lambda>_. 0,
     uuid_drawn = \<lambda>_. ''1'', manager_root = ''r'', print_lease = \<lambda>_. [1], parse_lease = \<lambda>_. Some (lease_of_row demo_installation),
     print_runtime = \<lambda>_. [], check_installation = \<lambda>_ _. Inr ()\<rparr>"

definition demo_files :: model_dir where
  "demo_files = \<lparr>delete_marker_tmp = None, delete_marker = None, model_files = [(''w'', [7])]\<rparr>"

definition demo_managed :: manager_world where
  "demo_managed = \<lparr>places = [''p'' \<mapsto> demo_files], trash = [], quarantined = [], model_rows = demo_store, execution_leases = \<lambda>_. None\<rparr>"

lemma demo_deletes: "case delete_anchored demo_manager ''m'' ''p'' 0 demo_managed of (Inl _, _) \<Rightarrow> False | (Inr _, _) \<Rightarrow> True"
  by code_simp

lemma demo_row: "demo_installation \<in> set (installed (model_rows demo_managed))" "inst_model_id demo_installation = ''m''"
  "inst_state demo_installation \<noteq> Deleting" "installations_ok (installed (model_rows demo_managed))"
  by (simp_all add: demo_managed_def demo_store_def demo_queue_def demo_installation_def installations_ok_def empty_catalog_def)

lemma demo_place: "places demo_managed ''p'' = Some demo_files" "marker_ok env l demo_files" "execution_leases demo_managed i \<noteq> Some 0"
  by (simp_all add: demo_managed_def marker_ok_def demo_files_def)

theorem deletion_never_loses_witness:
  "\<exists>n w. delete_anchored demo_manager ''m'' ''p'' 0 demo_managed = (Inr (), n, w) \<and>
     removed ''p'' demo_managed (without_model ''m'' demo_store) w"
proof -
  note run = deletion_never_loses [OF demo_row(4) demo_place(3,1) demo_row(1,2,3) demo_place(2), of demo_manager 0]
  have "model_rows demo_managed = demo_store" by (simp add: demo_managed_def)
  with run demo_deletes show ?thesis by (auto split: prod.splits sum.splits)
qed

text \<open>The same deletion when the program is killed after the row has been removed.\<close>

definition demo_killed :: manager_env where
  "demo_killed = demo_manager\<lparr>io_fails := \<lambda>n. 17 \<le> n\<rparr>"

definition demo_left :: manager_world where
  "demo_left = snd (snd (delete_anchored demo_killed ''m'' ''p'' 0 demo_managed))"

lemma demo_left_trash:
  "map_of (trash demo_left) ''m-1'' = Some (TrashedDir (demo_files\<lparr>delete_marker := Some [1]\<rparr>))"
  "installed (model_rows demo_left) = []"
proof -
  have "case delete_anchored demo_killed ''m'' ''p'' 0 demo_managed of (_, _, w) \<Rightarrow>
      map_of (trash w) ''m-1'' = Some (TrashedDir (demo_files\<lparr>delete_marker := Some [1]\<rparr>)) \<and> installed (model_rows w) = []"
    by code_simp
  then show "map_of (trash demo_left) ''m-1'' = Some (TrashedDir (demo_files\<lparr>delete_marker := Some [1]\<rparr>))"
    "installed (model_rows demo_left) = []" by (auto simp: demo_left_def split: prod.splits)
qed

theorem stranded_blocks_restarts_witness:
  "\<exists>e n w. reconcile_trash_anchored demo_manager 0 (snd (snd (delete_anchored demo_killed ''m'' ''p'' 0 demo_managed))) = (Inl e, n, w)"
proof -
  have lib: "parse_lease demo_manager (print_lease demo_manager (lease_of_row demo_installation)) = Some (lease_of_row demo_installation)"
    by (simp add: demo_manager_def)
  have marker: "delete_marker (demo_files\<lparr>delete_marker := Some [1]\<rparr>) = Some (print_lease demo_manager (lease_of_row demo_installation))"
    by (simp add: demo_manager_def)
  from stranded_blocks_restarts [OF demo_left_trash(1) marker lib, of 0] demo_left_trash(2)
  show ?thesis by (auto simp: demo_left_def)
qed

definition demo_pinned :: installation_row where
  "demo_pinned = \<lparr>inst_model_id = vad_id VAD, inst_provider = ''vad'', inst_manifest_version = vad_version VAD,
     inst_archive_sha256 = bundle_identity_sha256 (vad_bundle VAD), inst_install_dir = install_dir demo_manager (plan_from_vad_manifest VAD),
     inst_state = RuntimeQualified, inst_installed_at = 0, inst_runtime_identity_json = None, inst_qualified_at = Some 0,
     inst_last_error_code = None\<rparr>"

definition demo_pinned_manager :: manager_env where
  "demo_pinned_manager = demo_manager\<lparr>parse_lease := \<lambda>_. Some (lease_of_row demo_pinned)\<rparr>"

definition demo_pinned_world :: manager_world where
  "demo_pinned_world = demo_managed\<lparr>places := [install_relative (plan_from_vad_manifest VAD) \<mapsto> demo_files],
     model_rows := with_installations (\<lambda>_. [demo_pinned]) demo_store\<rparr>"

lemma demo_pinned_plan: "resolve_plan (vad_id VAD) (vad_version VAD) (bundle_identity_sha256 (vad_bundle VAD)) = Inr (plan_from_vad_manifest VAD)"
  by code_simp


theorem execution_excludes_deletion_witness:
  "\<exists>s :: lease_system. guards s = [''m''] \<and> (\<exists>e n. delete_anchored demo_manager ''m'' ''p'' 0 (managed s) = (Inl e, n, managed s))"
proof -
  let ?s = "\<lparr>managed = demo_managed, guards = [], under_deletion = {}\<rparr>"
  have "case acquire_execution_lease demo_manager ''m'' 0 demo_managed of (Inr _, _, w) \<Rightarrow> True | _ \<Rightarrow> False" by code_simp
  then obtain n w where "acquire_execution_lease demo_manager ''m'' 0 (managed ?s) = (Inr (), n, w)"
    by (auto split: prod.splits sum.splits)
  from step_acquire [OF this] have steps: "(lease_step demo_manager)\<^sup>*\<^sup>* ?s \<lparr>managed = w, guards = [''m''], under_deletion = {}\<rparr>" by auto
  have empty: "guards ?s = []" "under_deletion ?s = {}" "execution_leases (managed ?s) = (\<lambda>_. None)"
    by (simp_all add: demo_managed_def)
  from execution_excludes_deletion [OF steps empty] have "\<exists>e n. delete_anchored demo_manager ''m'' ''p'' 0 w = (Inl e, n, w)" by simp
  then show ?thesis by (intro exI [of _ "\<lparr>managed = w, guards = [''m''], under_deletion = {}\<rparr>"]) simp
qed

end
