(* ===== verification/Spec2Isabelle.thy ===== *)
theory Spec2Isabelle
  imports Prelude Audio Vad Domain Protocol Coordinator Tables Job_Store Receipt Publication Queue_Life
    Job_Coordinator Capture_Store Effects Seal Seal_Recovery Committer Capture_Session
    Json Manifest Asr_Settings Registry Shipped_Registry Snapshot Enqueue Enqueue_Load Snapshot_Sound Worker Worker_Life
    Session_Store Api_Contract Api_Cursor Dispatch Dispatch_Once Model_Plan Model_Store Model_Download_Sound Model_Delete_Sound
begin

text \<open>
  LifeSub records what a person hears - microphone, system audio, imported files -, transcribes it
  on the machine and keeps the transcripts as evidence that can be traced back to the recording.
  This library models the core of its desktop program, the Rust crate under \<open>src/src-tauri/src\<close>.
  File names below are relative to that directory.

  \<^bold>\<open>The parts and how they interact.\<close>  A capture helper process sends frames over a socket
  (\<open>capture/protocol.rs\<close>); the session thread (\<open>capture/session.rs\<close>) reads them and drives the
  coordinator (\<open>capture/coordinator.rs\<close>), which hands every recorded chunk to the committer
  (\<open>capture/committer.rs\<close>); the sealer (\<open>capture/seal.rs\<close>) moves the file to its final name and enters
  the chunk in the SQLite catalog (\<open>catalog/chunks.rs\<close>, \<open>catalog/capture.rs\<close>).  The enqueue service
  (\<open>asr/service.rs\<close>) freezes a chunk, a model of the registry (\<open>asr/manifest.rs\<close>) and the settings
  (\<open>asr/settings.rs\<close>) into a job of the queue (\<open>catalog/jobs.rs\<close>).  The worker thread (\<open>asr/worker.rs\<close>)
  claims jobs through the coordinator of \<open>asr/job.rs\<close>, loads a checked snapshot
  (\<open>catalog/job_snapshot.rs\<close>), runs the engine and publishes the transcript with its receipt
  (\<open>asr/receipt.rs\<close>, \<open>catalog/publication.rs\<close>).  The model manager (\<open>asr/model_manager/\<close>) downloads
  the models of the registry, deletes them and keeps their rows (\<open>catalog/models.rs\<close>).  Sessions, revisions and manual edits are in
  \<open>catalog.rs\<close>.  Other programs reach the catalog through the tool interface of \<open>api/\<close>.

  \<^bold>\<open>The theories.\<close>
  \<^item> \<open>Prelude\<close>: results as sums, checked machine arithmetic, text checks, tables as lists.
    \<open>Effects\<close>: programs over calls of which each may fail, with the triples and the relations on
    runs that the effectful components are proved with.
  \<^item> \<open>Audio\<close> (\<open>asr/audio.rs\<close>): sample ranges, exact ratios, the decode budget and loop, resampling.
    \<open>Vad\<close> (\<open>asr/vad.rs\<close>): the cutting of speech into windows.
  \<^item> \<open>Domain\<close> (\<open>domain.rs\<close>): the stored values and the session state machine.
  \<^item> \<open>Protocol\<close>, \<open>Coordinator\<close>, \<open>Capture_Session\<close>, \<open>Committer\<close>: the recording side, in the files of the
    same names under \<open>capture/\<close>.  \<open>Seal\<close> and \<open>Seal_Recovery\<close> (\<open>capture/seal.rs\<close>): the sealing protocol,
    what it keeps on every schedule of failures, and that it finishes after any number of crashes.
  \<^item> \<open>Tables\<close> (\<open>catalog/migrations/ddl.rs\<close>): the rows of the catalog.  \<open>Capture_Store\<close>, \<open>Job_Store\<close>,
    \<open>Publication\<close>, \<open>Session_Store\<close>: its statements, one function on the catalog each, because each is
    one transaction.  \<open>Queue_Life\<close>: the job statements as one step relation, with the fencing of stale
    claims.
  \<^item> \<open>Json\<close>, \<open>Manifest\<close>, \<open>Registry\<close>, \<open>Shipped_Registry\<close>, \<open>Asr_Settings\<close>, \<open>Enqueue\<close>, \<open>Snapshot\<close>,
    \<open>Snapshot_Sound\<close>, \<open>Enqueue_Load\<close>: the registry of models and its validation, what the program
    ships, and that what the service stores a worker can load.
  \<^item> \<open>Receipt\<close>, \<open>Job_Coordinator\<close>, \<open>Worker\<close>, \<open>Worker_Life\<close>: execution, with other threads interfering
    before every call.
  \<^item> \<open>Api_Contract\<close>, \<open>Api_Cursor\<close>, \<open>Dispatch\<close>, \<open>Dispatch_Once\<close> (\<open>api/\<close>): authorization, cursors, the
    handlers, and what an idempotency key promises.
  \<^item> \<open>Model_Plan\<close>, \<open>Model_Store\<close>, \<open>Model_Download\<close> (\<open>asr/model_manager/\<close>, \<open>catalog/models.rs\<close>): the plans
    by which speech models are installed, their tables, and downloading with checkpoints, resumption
    and verification.  \<open>Model_Download_Sound\<close>: what a download leaves behind on every schedule of
    failures and answers, and whom it contacts.
  \<^item> \<open>Model_Delete\<close> (\<open>asr/model_manager.rs\<close>, \<open>delete.rs\<close> and \<open>anchored_reconcile.rs\<close> below it): deleting an
    installed model by a marker, the trash and a rollback, the registry of execution leases, the checks
    before a model is executed, and what a restart does with the trash and the rows.
    \<open>Model_Delete_Sound\<close>: where an interrupted deletion leaves the files and the row, which of these
    states a restart settles and which it does not, and that execution and deletion exclude each other.

  \<^bold>\<open>How state and operations correspond.\<close>  A struct is a record and an enum a datatype with the
  names of the source; a \<open>Result\<close> is a sum with \<open>Inl\<close> for the error; an \<open>i64\<close> column is an integer with
  its range written out and a \<open>u64\<close> a word.  A table is a list of rows in the order of their
  insertion; a constraint of the schema is a check of the statement that could break it.  An
  operation that touches state takes and returns it; where single calls can fail on their own
  (files, the sealer, the tool interface) it is a program of \<open>Effects\<close>, which draws failures and
  fresh identifiers by the number of the call, so a theorem quantifies over every schedule of
  failures, a crash included.  Threads are interleavings: of statements in \<open>Queue_Life\<close>, of arbitrary
  changes before each call in \<open>Worker\<close>, of arriving controls in \<open>Capture_Session\<close>.

  \<^bold>\<open>Interfaces.\<close>  The locales state what several components promise alike: an invariant that all
  steps of a system keep, and a relation between the states of a run that composes; each is
  interpreted on the model's own definitions in the theory that provides them.

  \<^bold>\<open>Bounds.\<close>  No loop of the model needs fuel to return: the recursions are structural or carry a
  measure.  The worker is run for a given number of rounds and polls, because a run that never
  answers never ends; its theorems hold for every number.  Reads of the helper are a list of batches
  for the same reason.

  \<^bold>\<open>What is assumed.\<close>  Parameters stand for code outside the repository: the JSON, hash, URL,
  hexadecimal and time-text libraries, fresh identifiers, the clock, the decoder, the resampler,
  floating point, the speech engine, the full-text index, and the helper process.  Where a theorem
  needs something of one of them it is a named hypothesis (that reading undoes printing, that a
  plain https address is read as written, that fresh names are 32 hexadecimal digits or at least
  names of one path component).  SQLite
  transactions are atomic, and nobody else changes the program's directories.  Times are integers
  without the library's limits.  Requests of the tool interface are served one after the other.

  \<^bold>\<open>Not modelled.\<close>  The Tauri commands and the desktop glue; opening and migrating the database and
  the anchored VFS below it; notes, dictionary, voiceprints, settings and statistics of \<open>catalog.rs\<close>;
  the speech engines, the runtime qualifier and the packaged gate; installing the directories of
  models, and reconciling downloads and directories without a row; importing audio files and the audio store; starting and
  authenticating the helper process; live streaming, quick input, polishing and diagnostics.  They
  are glue around system calls, other processes or foreign libraries, or plain storage; the
  components of the manifest give the reason for each.
\<close>

end
